(* ===== verification/Prelude.thy ===== *)
theory Prelude
  imports Main "HOL-Library.Multiset" "HOL-Library.List_Lexorder" "HOL-Library.Char_ord"
begin

text \<open>
  Shared vocabulary of the development: JavaScript exceptions as values of a sum type and the
  sequencing of fallible calls, the selection loop several components run over a list of rows
  (with the locale that says when its answer does not depend on the order of the rows), and the
  generic lemmas on lists that the component proofs share. Strings are compared by
  \<open>List_Lexorder\<close> over \<open>Char_ord\<close>, which is the code-unit order of the source language.
\<close>

named_theorems billing_consts "defining equations of the catalogue's constants"
named_theorems billing_intros "introduction rules for the components' invariants"

subsection \<open>Exceptions as values\<close>

text \<open>The exception classes the modelled code throws; messages of the built-in classes are dropped.\<close>

datatype jserror = RangeError | TypeError | PlainError string

type_synonym 'a res = "jserror + 'a"

fun rbind :: "'e + 'a \<Rightarrow> ('a \<Rightarrow> 'e + 'b) \<Rightarrow> 'e + 'b" where
  "rbind (Inl e) f = Inl e"
| "rbind (Inr x) f = f x"

lemma rbind_eq_Inr [simp]: "rbind m f = Inr y \<longleftrightarrow> (\<exists>x. m = Inr x \<and> f x = Inr y)"
  by (cases m) auto

lemma rbind_eq_Inl: "rbind m f = Inl e \<longleftrightarrow> m = Inl e \<or> (\<exists>x. m = Inr x \<and> f x = Inl e)"
  by (cases m) auto

lemma rbind_cong [fundef_cong]:
  "m = m' \<Longrightarrow> (\<And>x. m' = Inr x \<Longrightarrow> f x = g x) \<Longrightarrow> rbind m f = rbind m' g"
  by (cases m') auto

text \<open>A loop that maps a fallible body over a list stops at the first exception.\<close>

fun res_map :: "('a \<Rightarrow> 'e + 'b) \<Rightarrow> 'a list \<Rightarrow> 'e + 'b list" where
  "res_map f [] = Inr []"
| "res_map f (x # xs) = rbind (f x) (\<lambda>y. rbind (res_map f xs) (\<lambda>ys. Inr (y # ys)))"

lemma res_map_Inr_length: "res_map f xs = Inr ys \<Longrightarrow> length ys = length xs"
  by (induction xs arbitrary: ys) auto

lemma res_map_Inr_iff: "res_map f xs = Inr ys \<longleftrightarrow> list_all2 (\<lambda>x y. f x = Inr y) xs ys"
proof (induction xs arbitrary: ys)
  case Nil
  then show ?case by auto
next
  case (Cons x xs)
  then show ?case by (cases ys) auto
qed

lemma res_map_total: "(\<And>x. x \<in> set xs \<Longrightarrow> f x = Inr (g x)) \<Longrightarrow> res_map f xs = Inr (map g xs)"
  by (induction xs) auto

lemma res_map_mem: "res_map f xs = Inr ys \<Longrightarrow> y \<in> set ys \<Longrightarrow> \<exists>x \<in> set xs. f x = Inr y"
  by (induction xs arbitrary: ys) auto

subsection \<open>The selection loop\<close>

text \<open>
  \<^verbatim>\<open>for (const x of xs) if (!sel || better(x, sel)) sel = x;\<close>: the first element becomes the
  selection and a later one replaces it only when it is strictly better.
\<close>

fun pick :: "('a \<Rightarrow> 'a \<Rightarrow> bool) \<Rightarrow> 'a option \<Rightarrow> 'a list \<Rightarrow> 'a option" where
  "pick better sel [] = sel"
| "pick better sel (x # xs) =
     pick better (case sel of None \<Rightarrow> Some x | Some y \<Rightarrow> if better x y then Some x else Some y) xs"

lemma pick_Some_acc: "\<exists>y. pick better (Some x) xs = Some y"
  by (induction xs arbitrary: x) auto

lemma pick_eq_None [simp]: "pick better sel xs = None \<longleftrightarrow> sel = None \<and> xs = []"
proof (cases xs)
  case Nil
  then show ?thesis by simp
next
  case (Cons x xs')
  then show ?thesis
    using pick_Some_acc [of better x xs'] pick_Some_acc [of better "the sel" xs']
    by (cases sel) auto
qed

lemma pick_in: "pick better sel xs = Some y \<Longrightarrow> y \<in> set xs \<or> sel = Some y"
proof (induction xs arbitrary: sel)
  case Nil
  then show ?case by simp
next
  case (Cons x xs)
  from Cons.IH [OF Cons.prems [unfolded pick.simps]] show ?case
    by (auto split: option.splits if_splits)
qed

lemma pick_None_in: "pick better None xs = Some y \<Longrightarrow> y \<in> set xs"
  using pick_in by fastforce

text \<open>
  The contract of a preference: asymmetric, and what is no better than a middle element is no
  better than what the middle element is no better than. A client of the loop relies on nothing
  else to conclude that no row beats the selection; where the preference also decides every
  pair of different rows, the selection does not depend on the order of the rows.
\<close>

locale preference =
  fixes better :: "'a \<Rightarrow> 'a \<Rightarrow> bool" and dom :: "'a \<Rightarrow> bool"
  assumes asym: "dom x \<Longrightarrow> dom y \<Longrightarrow> better x y \<Longrightarrow> \<not> better y x"
    and neg_trans: "dom x \<Longrightarrow> dom y \<Longrightarrow> dom z \<Longrightarrow> \<not> better x y \<Longrightarrow> \<not> better y z \<Longrightarrow> \<not> better x z"
begin

lemma pick_acc_best:
  assumes "pick better (Some z) xs = Some y" and "dom z" and "\<forall>x \<in> set xs. dom x"
  shows "\<forall>x \<in> insert z (set xs). \<not> better x y"
  using assms
proof (induction xs arbitrary: z)
  case Nil
  then show ?case using asym [of z z] by auto
next
  case (Cons x xs)
  let ?w = "if better x z then x else z"
  have w: "dom ?w" "pick better (Some ?w) xs = Some y"
    using Cons.prems by (auto split: if_splits)
  have best: "\<forall>v \<in> insert ?w (set xs). \<not> better v y"
    using Cons.IH [OF w(2) w(1)] Cons.prems by simp
  have y: "dom y"
    using pick_in [OF w(2)] w(1) Cons.prems(3) by auto
  have "\<not> better x ?w" "\<not> better z ?w"
    using Cons.prems(2,3) asym [of x z] asym [of x x] asym [of z z] by (auto split: if_splits)
  then have "\<not> better x y" "\<not> better z y"
    using neg_trans [of x ?w y] neg_trans [of z ?w y] w(1) y best Cons.prems(2,3) by auto
  with best show ?case by auto
qed

lemma pick_best:
  assumes "pick better None xs = Some y" and "\<forall>x \<in> set xs. dom x" and "x \<in> set xs"
  shows "\<not> better x y"
proof (cases xs)
  case Nil
  with assms show ?thesis by simp
next
  case (Cons z zs)
  with assms show ?thesis using pick_acc_best [of z zs y] by auto
qed

lemma pick_perm:
  assumes "mset xs = mset ys" and "\<forall>x \<in> set xs. dom x"
    and total: "\<And>x y. x \<in> set xs \<Longrightarrow> y \<in> set xs \<Longrightarrow> x \<noteq> y \<Longrightarrow> better x y \<or> better y x"
  shows "pick better None xs = pick better None ys"
proof (cases "pick better None xs")
  case None
  with assms show ?thesis by simp
next
  case (Some a)
  from assms(1) have s: "set xs = set ys" by (rule mset_eq_setD)
  from Some s have "ys \<noteq> []" using pick_None_in by fastforce
  then obtain b where b: "pick better None ys = Some b"
    by (cases "pick better None ys") auto
  have "a \<in> set xs" "b \<in> set xs" using pick_None_in [OF Some] pick_None_in [OF b] s by auto
  moreover have "\<not> better b a" using pick_best [OF Some assms(2)] \<open>b \<in> set xs\<close> by blast
  moreover have "\<not> better a b" using pick_best [OF b] assms(2) s \<open>a \<in> set xs\<close> by blast
  ultimately have "a = b" using total by blast
  with Some b show ?thesis by simp
qed

end

subsection \<open>Lists\<close>

lemma sum_list_perm: "mset xs = mset ys \<Longrightarrow> sum_list (map f xs) = sum_list (map f ys)"
  for f :: "'a \<Rightarrow> 'b::comm_monoid_add"
  by (metis mset_map sum_mset_sum_list)

lemma sum_list_map_mono: "(\<And>x. x \<in> set xs \<Longrightarrow> f x \<le> g x) \<Longrightarrow> sum_list (map f xs) \<le> sum_list (map g xs)"
  for f :: "'a \<Rightarrow> int"
  by (induction xs) (auto intro: add_mono)

lemma sum_list_map_nonneg: "(\<And>x. x \<in> set xs \<Longrightarrow> 0 \<le> f x) \<Longrightarrow> 0 \<le> sum_list (map f xs)"
  for f :: "'a \<Rightarrow> int"
  by (induction xs) auto

lemma sum_list_filter_swap:
  "sum_list (map f (filter P xs)) = sum_list (map (\<lambda>x. if P x then f x else 0) xs)"
  for f :: "'a \<Rightarrow> 'b::comm_monoid_add"
  by (induction xs) auto

lemma find_Some_iff_first: "find P xs = Some x \<Longrightarrow> x \<in> set xs \<and> P x"
  by (auto simp: find_Some_iff)

lemma div_mult_le_int: "0 < (b::int) \<Longrightarrow> a div b * b \<le> a"
  by (simp add: minus_mod_eq_div_mult [symmetric])

end
