(* ===== verification/Billing_Time.thy ===== *)
theory Billing_Time
  imports Prelude
begin

text \<open>
  Instants and whole seconds (\<^verbatim>\<open>app/src/server/billing/v2/time.ts\<close>). A \<^verbatim>\<open>Date\<close>, or an ISO-8601
  string, is modelled by the millisecond instant it denotes: \<open>Some ms\<close>, or \<open>None\<close> for an
  invalid \<^verbatim>\<open>Date\<close> (\<^verbatim>\<open>getTime()\<close> or \<^verbatim>\<open>Date.parse\<close> is NaN). A nullable one is an \<open>option\<close> of that.
\<close>

type_synonym jsdate = "int option"

definition max_safe_integer :: int where
  "max_safe_integer = 9007199254740991"

definition is_safe_integer :: "int \<Rightarrow> bool" where
  "is_safe_integer n \<longleftrightarrow> \<bar>n\<bar> \<le> max_safe_integer"

text \<open>The time range of the language's \<^verbatim>\<open>Date\<close>: outside it \<^verbatim>\<open>new Date(ms)\<close> is invalid.\<close>

definition max_time_ms :: int where
  "max_time_ms = 8640000000000000"

definition new_Date :: "int \<Rightarrow> jsdate" where
  "new_Date ms = (if \<bar>ms\<bar> \<le> max_time_ms then Some ms else None)"

datatype rounding = RFloor | RCeil

definition ceil_div :: "int \<Rightarrow> int \<Rightarrow> int" where
  "ceil_div a b = - ((- a) div b)"

fun epochSeconds :: "jsdate \<Rightarrow> rounding \<Rightarrow> int res" where
  "epochSeconds None r = Inl RangeError"
| "epochSeconds (Some ms) RCeil = Inr (ceil_div ms 1000)"
| "epochSeconds (Some ms) RFloor = Inr (ms div 1000)"

text \<open>\<^verbatim>\<open>toISOString\<close> of an instant outside the range of \<^verbatim>\<open>Date\<close> throws a RangeError too.\<close>

definition isoSeconds :: "int \<Rightarrow> jsdate res" where
  "isoSeconds s =
     (if \<not> is_safe_integer s then Inl RangeError
      else case new_Date (s * 1000) of None \<Rightarrow> Inl RangeError | Some ms \<Rightarrow> Inr (Some ms))"

text \<open>The seconds that \<^verbatim>\<open>isoSeconds\<close> can render.\<close>

definition iso_range :: "int \<Rightarrow> bool" where
  "iso_range s \<longleftrightarrow> \<bar>s\<bar> \<le> 8640000000000"

lemma isoSeconds_Inr: "isoSeconds s = Inr d \<longleftrightarrow> iso_range s \<and> d = Some (s * 1000)"
  by (auto simp: isoSeconds_def is_safe_integer_def max_safe_integer_def new_Date_def max_time_ms_def
      iso_range_def)

lemma isoSeconds_ok [simp]: "iso_range s \<Longrightarrow> isoSeconds s = Inr (Some (s * 1000))"
  by (simp add: isoSeconds_Inr)

lemma isoSeconds_fails: "\<not> iso_range s \<Longrightarrow> isoSeconds s = Inl RangeError"
  by (auto simp: isoSeconds_def is_safe_integer_def max_safe_integer_def new_Date_def max_time_ms_def
      iso_range_def)

lemma epochSeconds_Inr: "epochSeconds d r = Inr s \<Longrightarrow> \<exists>ms. d = Some ms"
  by (cases d) auto

lemma epochSeconds_floor_bounds:
  "epochSeconds (Some ms) RFloor = Inr s \<longleftrightarrow> s * 1000 \<le> ms \<and> ms < (s + 1) * 1000"
  by auto

lemma epochSeconds_ceil_bounds:
  "epochSeconds (Some ms) RCeil = Inr s \<longleftrightarrow> ms \<le> s * 1000 \<and> (s - 1) * 1000 < ms"
  by (auto simp: ceil_div_def)

lemma ceil_div_exact [simp]: "ceil_div (s * 1000) 1000 = s"
  by (simp add: ceil_div_def)

end
