(* ===== verification/Calendar.thy ===== *)
theory Calendar
  imports Billing_Time
begin

text \<open>
  The part of the language's UTC calendar the billing windows use: the proleptic Gregorian calendar of
  \<^verbatim>\<open>Date\<close> (days from a year, the year and the month of a day), and the month window that
  \<^verbatim>\<open>freeWindow\<close> computes with \<^verbatim>\<open>setUTCDate(1)\<close>, \<^verbatim>\<open>setUTCHours(0, 0, 0, 0)\<close> and \<^verbatim>\<open>setUTCMonth(m + 1)\<close>.
  The lemmas show that a month window contains its instant and that the windows tile the time line.
\<close>

definition day_ms :: int where "day_ms = 86400000"

definition day_from_year :: "int \<Rightarrow> int" where
  "day_from_year y = 365 * (y - 1970) + (y - 1969) div 4 - (y - 1901) div 100 + (y - 1601) div 400"

definition is_leap :: "int \<Rightarrow> bool" where
  "is_leap y \<longleftrightarrow> (y mod 4 = 0 \<and> y mod 100 \<noteq> 0) \<or> y mod 400 = 0"

text \<open>The year of a day, searched upwards from an estimate that is never too late.\<close>

lemma div_succ:
  fixes x k :: int
  assumes "0 < k"
  shows "(x + 1) div k = x div k + (if (x + 1) mod k = 0 then 1 else 0)"
proof (cases "x mod k + 1 < k")
  case True
  have e: "x + 1 = k * (x div k) + (x mod k + 1)" by simp
  have p: "0 < x mod k + 1" using pos_mod_sign [OF assms, of x] by linarith
  show ?thesis
    using int_div_pos_eq [OF e _ True] int_mod_pos_eq [OF e _ True] p by simp
next
  case False
  then have "x mod k + 1 = k" using pos_mod_bound [OF assms, of x] by linarith
  moreover have "x + 1 = k * (x div k) + (x mod k + 1)" by simp
  ultimately have "x + 1 = k * (x div k + 1)" by (simp add: distrib_left)
  then show ?thesis using assms by simp
qed

lemma year_quarters:
  "(y + 1 - 1969) div 4 = (y - 1969) div 4 + (if y mod 4 = 0 then 1 else 0)"
  "(y + 1 - 1901) div 100 = (y - 1901) div 100 + (if y mod 100 = 0 then 1 else 0)"
  "(y + 1 - 1601) div 400 = (y - 1601) div 400 + (if y mod 400 = 0 then 1 else 0)" for y :: int
proof -
  have m: "(y - 1968) mod 4 = y mod 4" "(y - 1900) mod 100 = y mod 100" "(y - 1600) mod 400 = y mod 400"
    using mod_mult_self2 [of y 4 "-492"] mod_mult_self2 [of y 100 "-19"] mod_mult_self2 [of y 400 "-4"]
    by simp_all
  have e: "y - 1969 + 1 = y - 1968" "y - 1901 + 1 = y - 1900" "y - 1601 + 1 = y - 1600"
    "y + 1 - 1969 = y - 1968" "y + 1 - 1901 = y - 1900" "y + 1 - 1601 = y - 1600"
    by simp_all
  show "(y + 1 - 1969) div 4 = (y - 1969) div 4 + (if y mod 4 = 0 then 1 else 0)"
    using div_succ [of 4 "y - 1969"] unfolding e m by simp
  show "(y + 1 - 1901) div 100 = (y - 1901) div 100 + (if y mod 100 = 0 then 1 else 0)"
    using div_succ [of 100 "y - 1901"] unfolding e m by simp
  show "(y + 1 - 1601) div 400 = (y - 1601) div 400 + (if y mod 400 = 0 then 1 else 0)"
    using div_succ [of 400 "y - 1601"] unfolding e m by simp
qed

lemma leap_mods: "y mod 400 = 0 \<Longrightarrow> y mod 100 = 0" "y mod 100 = 0 \<Longrightarrow> y mod 4 = 0" for y :: int
  by presburger+

lemma day_from_year_Suc: "day_from_year (y + 1) = day_from_year y + 365 + (if is_leap y then 1 else 0)"
  unfolding day_from_year_def is_leap_def year_quarters using leap_mods [of y] by auto

lemma day_from_year_after: "day_from_year (1970 + int n) \<le> 366 * int n"
proof (induction n)
  case 0
  then show ?case by (simp add: day_from_year_def)
next
  case (Suc n)
  then show ?case using day_from_year_Suc [of "1970 + int n"] by (auto simp: algebra_simps split: if_splits)
qed

lemma day_from_year_before: "day_from_year (1970 - int n) \<le> - 365 * int n"
proof (induction n)
  case 0
  then show ?case by (simp add: day_from_year_def)
next
  case (Suc n)
  then show ?case using day_from_year_Suc [of "1970 - int (Suc n)"] by (auto simp: algebra_simps split: if_splits)
qed

function year_up :: "int \<Rightarrow> int \<Rightarrow> int" where
  "year_up d y = (if day_from_year (y + 1) \<le> d then year_up d (y + 1) else y)"
  by pat_completeness auto
termination
  by (relation "measure (\<lambda>(d, y). nat (d - day_from_year y))") (auto simp: day_from_year_Suc split: if_splits)

declare year_up.simps [simp del]

definition year_of_day :: "int \<Rightarrow> int" where
  "year_of_day d = year_up d (1970 + (if 0 \<le> d then d div 366 else d div 365))"

lemma year_up_bounds:
  "day_from_year y \<le> d \<Longrightarrow> day_from_year (year_up d y) \<le> d \<and> d < day_from_year (year_up d y + 1)"
proof (induction d y rule: year_up.induct)
  case (1 d y)
  then show ?case by (cases "day_from_year (y + 1) \<le> d") (auto simp: year_up.simps [of d y])
qed

lemma year_of_day_bounds: "day_from_year (year_of_day d) \<le> d \<and> d < day_from_year (year_of_day d + 1)"
proof -
  have "day_from_year (1970 + (if 0 \<le> d then d div 366 else d div 365)) \<le> d"
  proof (cases "0 \<le> d")
    case True
    then have "0 \<le> d div 366" by simp
    then have "day_from_year (1970 + d div 366) \<le> 366 * (d div 366)"
      using day_from_year_after [of "nat (d div 366)"] by simp
    with True show ?thesis using div_mult_le_int [of 366 d] by simp
  next
    case False
    then have "0 \<le> - (d div 365)" by (simp add: not_le pos_imp_zdiv_neg_iff less_imp_le)
    then have "day_from_year (1970 + d div 365) \<le> 365 * (d div 365)"
      using day_from_year_before [of "nat (- (d div 365))"] by simp
    with False show ?thesis using div_mult_le_int [of 365 d] by simp
  qed
  then show ?thesis unfolding year_of_day_def by (rule year_up_bounds)
qed

text \<open>The first day of a month (0 to 11) counted from the year's first day, and the month of a day.\<close>

definition month_start :: "bool \<Rightarrow> nat \<Rightarrow> int" where
  "month_start leap m = (let l = (if leap then 1 else 0) in
     [0, 31, 59 + l, 90 + l, 120 + l, 151 + l, 181 + l, 212 + l, 243 + l, 273 + l, 304 + l, 334 + l] ! m)"

definition month_of :: "bool \<Rightarrow> int \<Rightarrow> nat" where
  "month_of leap k = (let l = (if leap then 1 else 0) in
     if k < 31 then 0 else if k < 59 + l then 1 else if k < 90 + l then 2 else if k < 120 + l then 3
     else if k < 151 + l then 4 else if k < 181 + l then 5 else if k < 212 + l then 6
     else if k < 243 + l then 7 else if k < 273 + l then 8 else if k < 304 + l then 9
     else if k < 334 + l then 10 else 11)"

text \<open>The first day of the month after \<open>(y, m)\<close>: \<^verbatim>\<open>setUTCMonth(m + 1)\<close> carries December into the next year.\<close>

definition month_first :: "int \<Rightarrow> nat \<Rightarrow> int" where
  "month_first y m = day_from_year y + month_start (is_leap y) m"

definition next_month_first :: "int \<Rightarrow> nat \<Rightarrow> int" where
  "next_month_first y m = (if m = 11 then month_first (y + 1) 0 else month_first y (Suc m))"

definition month_window :: "int \<Rightarrow> int \<times> int" where
  "month_window ms =
     (let d = ms div day_ms; y = year_of_day d; m = month_of (is_leap y) (d - day_from_year y)
      in (month_first y m * day_ms, next_month_first y m * day_ms))"

lemma month_of_le: "month_of leap k \<le> 11"
  by (simp add: month_of_def Let_def)

lemma month_of_bounds:
  assumes "0 \<le> k" and "k < 365 + (if leap then 1 else 0)"
  shows "month_start leap (month_of leap k) \<le> k \<and>
    k < (if month_of leap k = 11 then 365 + (if leap then 1 else 0) else month_start leap (Suc (month_of leap k)))"
  using assms by (auto simp: month_of_def month_start_def Let_def)

lemma month_of_start:
  assumes "m \<le> 11" shows "month_of leap (month_start leap m) = m"
proof -
  have "m = 0 \<or> m = 1 \<or> m = 2 \<or> m = 3 \<or> m = 4 \<or> m = 5 \<or> m = 6 \<or> m = 7 \<or> m = 8 \<or> m = 9 \<or> m = 10 \<or> m = 11"
    using assms by arith
  then show ?thesis by (elim disjE) (simp_all add: month_of_def month_start_def Let_def)
qed

lemma month_start_range: "m \<le> 11 \<Longrightarrow> 0 \<le> month_start leap m \<and> month_start leap m < 365"
  by (auto simp: month_start_def Let_def less_Suc_eq_le nth_Cons split: nat.splits)

lemma month_window_days:
  assumes "d = ms div day_ms" and "y = year_of_day d" and "m = month_of (is_leap y) (d - day_from_year y)"
  shows "month_first y m \<le> d \<and> d < next_month_first y m \<and> m \<le> 11"
proof -
  have "0 \<le> d - day_from_year y" "d - day_from_year y < 365 + (if is_leap y then 1 else 0)"
    using year_of_day_bounds [of d] day_from_year_Suc [of y] assms by auto
  from month_of_bounds [OF this] show ?thesis
    using month_of_le [of "is_leap y"] assms day_from_year_Suc [of y]
    by (auto simp: month_first_def next_month_first_def month_start_def Let_def split: if_splits)
qed

lemma month_window_contains: "month_window ms = (s, e) \<Longrightarrow> s \<le> ms \<and> ms < e"
proof -
  assume w: "month_window ms = (s, e)"
  let ?d = "ms div day_ms" let ?y = "year_of_day ?d" let ?m = "month_of (is_leap ?y) (?d - day_from_year ?y)"
  have "month_first ?y ?m \<le> ?d \<and> ?d < next_month_first ?y ?m"
    using month_window_days [of ?d ms ?y ?m] by simp
  moreover have "s = month_first ?y ?m * day_ms" "e = next_month_first ?y ?m * day_ms"
    using w by (auto simp: month_window_def Let_def)
  moreover have "?d * day_ms \<le> ms" "ms < (?d + 1) * day_ms"
    using div_mult_le_int [of day_ms ms] pos_mod_bound [of day_ms ms] minus_mod_eq_div_mult [of ms day_ms]
    by (auto simp: day_ms_def)
  ultimately show ?thesis
    using mult_right_mono [of "month_first ?y ?m" ?d day_ms] mult_right_mono [of "?d + 1" "next_month_first ?y ?m" day_ms]
    by (auto simp: day_ms_def)
qed

text \<open>A day between a year's first day and the next year's is a day of that year.\<close>

lemma day_from_year_mono: "a \<le> b \<Longrightarrow> day_from_year a \<le> day_from_year b"
proof (induction "nat (b - a)" arbitrary: b)
  case 0
  then show ?case by simp
next
  case (Suc n)
  then have "day_from_year a \<le> day_from_year (b - 1)" by (intro Suc.hyps(1)) auto
  with day_from_year_Suc [of "b - 1"] show ?case by (simp split: if_splits)
qed

lemma year_of_day_unique: "day_from_year y \<le> d \<Longrightarrow> d < day_from_year (y + 1) \<Longrightarrow> year_of_day d = y"
  using year_of_day_bounds [of d] day_from_year_mono [of "y + 1" "year_of_day d"]
    day_from_year_mono [of "year_of_day d + 1" y] by linarith

lemma month_window_first:
  assumes "m \<le> 11"
  shows "month_window (month_first y m * day_ms) = (month_first y m * day_ms, next_month_first y m * day_ms)"
proof -
  have y: "year_of_day (month_first y m) = y"
    by (rule year_of_day_unique)
      (use month_start_range [OF assms, of "is_leap y"] day_from_year_Suc [of y] in \<open>auto simp: month_first_def split: if_splits\<close>)
  show ?thesis
    using y month_of_start [OF assms] by (simp add: month_window_def Let_def day_ms_def month_first_def)
qed

lemma month_window_start:
  assumes "month_window ms = (s, e)"
  shows "month_window s = (s, e) \<and> fst (month_window e) = e"
proof -
  let ?d = "ms div day_ms" let ?y = "year_of_day ?d" let ?m = "month_of (is_leap ?y) (?d - day_from_year ?y)"
  have se: "s = month_first ?y ?m * day_ms" "e = next_month_first ?y ?m * day_ms" and m: "?m \<le> 11"
    using assms month_window_days [of ?d ms ?y ?m] by (auto simp: month_window_def Let_def)
  show ?thesis
    using month_window_first [OF m, of ?y] month_window_first [of 0 "?y + 1"] month_window_first [of "Suc ?m" ?y] m
    unfolding se by (auto simp: next_month_first_def)
qed

end
