(* ===== verification/Billing_Config.thy ===== *)
theory Billing_Config
  imports Prelude
begin

text \<open>
  Feature flags and provider keys (\<^verbatim>\<open>app/src/server/billing/config.ts\<close>): reading the environment, the mode
  of the Stripe keys and whether checkout is available. The environment is a partial map from names to
  values. The characters \<^verbatim>\<open>trim\<close> removes are those of the eight-bit range.
\<close>

type_synonym env = "string \<Rightarrow> string option"

record billing_config =
  cfg_tabEnabled :: bool
  cfg_pricingPageEnabled :: bool
  cfg_checkoutEnabled :: bool
  cfg_enforcementEnabled :: bool
  cfg_largeStorageEnabled :: bool
  cfg_automaticTaxEnabled :: bool
  cfg_adaptivePricingEnabled :: bool
  cfg_managedPaymentsEnabled :: bool
  cfg_stripeSecret :: "string option"
  cfg_stripeWebhookSecret :: "string option"
  cfg_stripePublishableKey :: "string option"
  cfg_stripePublishableKeyInvalid :: bool
  cfg_stripePriceProMonthly :: "string option"
  cfg_usageHmacSecret :: "string option"
  cfg_fundingUrl :: "string option"
  cfg_fundingHmacSecret :: "string option"

definition is_space :: "char \<Rightarrow> bool" where
  "is_space c \<longleftrightarrow> of_char c \<in> {9, 10, 11, 12, 13, 32, 160 :: nat}"

definition js_trim :: "string \<Rightarrow> string" where
  "js_trim s = rev (dropWhile is_space (rev (dropWhile is_space s)))"

definition starts_with :: "string \<Rightarrow> string \<Rightarrow> bool" where
  "starts_with p s \<longleftrightarrow> take (length p) s = p"

lemma starts_with_append [simp]: "starts_with p (p @ s)"
  by (simp add: starts_with_def)

definition flag_on :: "string option \<Rightarrow> bool" where
  "flag_on v \<longleftrightarrow> v = Some ''1''"

text \<open>The tests \<^verbatim>\<open>/^pk_(test|live)_/\<close>, \<^verbatim>\<open>/^(sk|rk)_test_/\<close> and \<^verbatim>\<open>/^(sk|rk)_live_/\<close>. A value is falsy when it
  is missing or empty.\<close>

definition publishable :: "string option \<Rightarrow> string option" where
  "publishable v = (case v of None \<Rightarrow> None | Some s \<Rightarrow>
     if s \<noteq> [] \<and> (starts_with ''pk_test_'' (js_trim s) \<or> starts_with ''pk_live_'' (js_trim s))
     then Some (js_trim s) else None)"

definition nonEmpty :: "string option \<Rightarrow> string option" where
  "nonEmpty v = (case v of None \<Rightarrow> None | Some s \<Rightarrow> if s \<noteq> [] \<and> js_trim s \<noteq> [] then Some s else None)"

definition nullish_or :: "'a option \<Rightarrow> 'a option \<Rightarrow> 'a option" where
  "nullish_or a b = (case a of None \<Rightarrow> b | Some x \<Rightarrow> Some x)"

definition readBillingConfig :: "env \<Rightarrow> billing_config" where
  "readBillingConfig env =
     (let rawPublishableKey = nonEmpty (nullish_or (env ''STRIPE_PUBLISHABLE_KEY'') (env ''STRIPE_KEY''));
          stripePublishableKey = publishable rawPublishableKey
      in \<lparr>cfg_tabEnabled = flag_on (env ''BILLING_TAB_ENABLED''),
          cfg_pricingPageEnabled = flag_on (env ''PRICING_PAGE_ENABLED''),
          cfg_checkoutEnabled = flag_on (env ''CHECKOUT_ENABLED''),
          cfg_enforcementEnabled = flag_on (env ''BILLING_ENFORCEMENT''),
          cfg_largeStorageEnabled = flag_on (env ''BILLING_LARGE_STORAGE''),
          cfg_automaticTaxEnabled = flag_on (env ''BILLING_AUTOMATIC_TAX''),
          cfg_adaptivePricingEnabled = flag_on (env ''BILLING_ADAPTIVE_PRICING''),
          cfg_managedPaymentsEnabled = flag_on (env ''BILLING_MANAGED_PAYMENTS''),
          cfg_stripeSecret = nonEmpty (env ''STRIPE_SECRET''),
          cfg_stripeWebhookSecret = nonEmpty (env ''STRIPE_WEBHOOK_SECRET''),
          cfg_stripePublishableKey = stripePublishableKey,
          cfg_stripePublishableKeyInvalid = (rawPublishableKey \<noteq> None \<and> stripePublishableKey = None),
          cfg_stripePriceProMonthly = nonEmpty (env ''STRIPE_PRICE_PRO_MONTHLY''),
          cfg_usageHmacSecret = nonEmpty (env ''BILLING_USAGE_HMAC_SECRET''),
          cfg_fundingUrl = nonEmpty (env ''BILLING_FUNDING_URL''),
          cfg_fundingHmacSecret = nonEmpty (env ''BILLING_FUNDING_HMAC_SECRET'')\<rparr>)"

datatype StripeMode = Mode_test | Mode_live
datatype mode_failure = Mode_absent | Mode_mixed | Mode_unrecognized

fun mode_key :: "StripeMode \<Rightarrow> string" where
  "mode_key Mode_test = ''pk_test_''"
| "mode_key Mode_live = ''pk_live_''"

definition secret_mode :: "string \<Rightarrow> StripeMode option" where
  "secret_mode s =
     (if starts_with ''sk_test_'' s \<or> starts_with ''rk_test_'' s then Some Mode_test
      else if starts_with ''sk_live_'' s \<or> starts_with ''rk_live_'' s then Some Mode_live else None)"

definition stripeMode :: "billing_config \<Rightarrow> mode_failure + StripeMode" where
  "stripeMode c =
     (case cfg_stripeSecret c of
        None \<Rightarrow> Inl Mode_absent
      | Some secret \<Rightarrow>
          if secret = [] then Inl Mode_absent
          else case secret_mode secret of
            None \<Rightarrow> Inl Mode_unrecognized
          | Some mode \<Rightarrow>
              if cfg_stripePublishableKeyInvalid c \<or>
                 (case cfg_stripePublishableKey c of None \<Rightarrow> False | Some k \<Rightarrow> \<not> starts_with (mode_key mode) k)
              then Inl Mode_mixed else Inr mode)"

definition checkoutAvailable :: "billing_config \<Rightarrow> bool" where
  "checkoutAvailable c \<longleftrightarrow> cfg_checkoutEnabled c \<and> (\<exists>m \<in> {Mode_test, Mode_live}. stripeMode c = Inr m)"

lemma flag_on_iff [simp]: "flag_on v \<longleftrightarrow> v = Some ''1''"
  by (simp add: flag_on_def)

lemma publishable_Some:
  "publishable v = Some k \<Longrightarrow> (starts_with ''pk_test_'' k \<or> starts_with ''pk_live_'' k) \<and> (\<exists>s. v = Some s \<and> k = js_trim s)"
  by (cases v) (simp_all add: publishable_def split: if_splits)

lemma nonEmpty_Some: "nonEmpty v = Some s \<Longrightarrow> v = Some s \<and> s \<noteq> []"
  by (cases v) (simp_all add: nonEmpty_def split: if_splits)

lemma stripeMode_Inr:
  "stripeMode c = Inr m \<Longrightarrow> \<exists>s. cfg_stripeSecret c = Some s \<and> secret_mode s = Some m \<and>
     \<not> cfg_stripePublishableKeyInvalid c \<and>
     (\<forall>k. cfg_stripePublishableKey c = Some k \<longrightarrow> starts_with (mode_key m) k)"
  by (cases "cfg_stripeSecret c"; cases "cfg_stripePublishableKey c")
    (simp_all add: stripeMode_def split: if_splits option.splits)

lemma readBillingConfig_sel:
  "cfg_checkoutEnabled (readBillingConfig env) = flag_on (env ''CHECKOUT_ENABLED'')"
  "cfg_stripeSecret (readBillingConfig env) = nonEmpty (env ''STRIPE_SECRET'')"
  "cfg_stripePublishableKey (readBillingConfig env) =
     publishable (nonEmpty (nullish_or (env ''STRIPE_PUBLISHABLE_KEY'') (env ''STRIPE_KEY'')))"
  "cfg_stripePublishableKeyInvalid (readBillingConfig env) \<longleftrightarrow>
     nonEmpty (nullish_or (env ''STRIPE_PUBLISHABLE_KEY'') (env ''STRIPE_KEY'')) \<noteq> None \<and>
     publishable (nonEmpty (nullish_or (env ''STRIPE_PUBLISHABLE_KEY'') (env ''STRIPE_KEY''))) = None"
  by (simp_all only: readBillingConfig_def Let_def billing_config.simps)

subsection \<open>Properties\<close>

text \<open>Checkout opens only on an explicit flag and consistent keys: when it is available for the
  configuration read from an environment, the flag is exactly \<open>1\<close>, a Stripe secret of a recognised mode
  is set, and a publishable key, if any is set, is a publishable key of that same mode; whatever the
  environment, the key kept for browsers starts with \<open>pk_test_\<close> or \<open>pk_live_\<close>.\<close>

lemma checkout_needs_consistent_keys:
  "(\<forall>k. cfg_stripePublishableKey (readBillingConfig env) = Some k \<longrightarrow>
      starts_with ''pk_test_'' k \<or> starts_with ''pk_live_'' k) \<and>
   (checkoutAvailable (readBillingConfig env) \<longrightarrow>
      env ''CHECKOUT_ENABLED'' = Some ''1'' \<and>
      (\<exists>s m. env ''STRIPE_SECRET'' = Some s \<and> secret_mode s = Some m \<and>
         (\<forall>k. nonEmpty (nullish_or (env ''STRIPE_PUBLISHABLE_KEY'') (env ''STRIPE_KEY'')) = Some k \<longrightarrow>
            starts_with (mode_key m) (js_trim k))))"
proof (intro conjI allI impI)
  show "starts_with ''pk_test_'' k \<or> starts_with ''pk_live_'' k"
    if "cfg_stripePublishableKey (readBillingConfig env) = Some k" for k
    using that publishable_Some unfolding readBillingConfig_sel by blast
  assume "checkoutAvailable (readBillingConfig env)"
  then obtain m where on: "cfg_checkoutEnabled (readBillingConfig env)" and m: "stripeMode (readBillingConfig env) = Inr m"
    unfolding checkoutAvailable_def by blast
  from on show "env ''CHECKOUT_ENABLED'' = Some ''1''" unfolding readBillingConfig_sel flag_on_iff .
  from stripeMode_Inr [OF m] obtain s where
    s': "cfg_stripeSecret (readBillingConfig env) = Some s" "secret_mode s = Some m"
    and i: "\<not> cfg_stripePublishableKeyInvalid (readBillingConfig env)"
    and k: "\<forall>k. cfg_stripePublishableKey (readBillingConfig env) = Some k \<longrightarrow> starts_with (mode_key m) k"
    by blast
  have s: "env ''STRIPE_SECRET'' = Some s" "secret_mode s = Some m"
    using nonEmpty_Some [of "env ''STRIPE_SECRET''" s] s' unfolding readBillingConfig_sel by blast+
  have v: "nonEmpty (nullish_or (env ''STRIPE_PUBLISHABLE_KEY'') (env ''STRIPE_KEY'')) = None \<or>
        (\<exists>k. publishable (nonEmpty (nullish_or (env ''STRIPE_PUBLISHABLE_KEY'') (env ''STRIPE_KEY''))) = Some k \<and>
             starts_with (mode_key m) k)"
    using i k unfolding readBillingConfig_sel by (metis not_None_eq)
  have "starts_with (mode_key m) (js_trim k)"
    if "nonEmpty (nullish_or (env ''STRIPE_PUBLISHABLE_KEY'') (env ''STRIPE_KEY'')) = Some k" for k
    using v publishable_Some that by fastforce
  with s show "\<exists>s m. env ''STRIPE_SECRET'' = Some s \<and> secret_mode s = Some m \<and>
      (\<forall>k. nonEmpty (nullish_or (env ''STRIPE_PUBLISHABLE_KEY'') (env ''STRIPE_KEY'')) = Some k \<longrightarrow>
         starts_with (mode_key m) (js_trim k))" by blast
qed

definition demo_env :: env where
  "demo_env = [''CHECKOUT_ENABLED'' \<mapsto> ''1'', ''STRIPE_SECRET'' \<mapsto> ''sk_test_1'', ''STRIPE_KEY'' \<mapsto> '' pk_test_2 '']"

lemma checkout_needs_consistent_keys_witness:
  "checkoutAvailable (readBillingConfig demo_env) \<and> demo_env ''CHECKOUT_ENABLED'' = Some ''1'' \<and>
   (\<exists>k. cfg_stripePublishableKey (readBillingConfig demo_env) = Some k \<and> starts_with ''pk_test_'' k)"
proof -
  have c: "checkoutAvailable (readBillingConfig demo_env)" "cfg_stripePublishableKey (readBillingConfig demo_env) = Some ''pk_test_2''"
    by (simp_all add: readBillingConfig_def checkoutAvailable_def stripeMode_def publishable_def Let_def demo_env_def
        flag_on_def nonEmpty_def nullish_or_def secret_mode_def js_trim_def is_space_def starts_with_def)
  show ?thesis using checkout_needs_consistent_keys [of demo_env] c by (simp add: starts_with_def)
qed

end
