(* ===== verification/Catalog_V1.thy ===== *)
theory Catalog_V1
  imports Billing_Time
begin

text \<open>
  The v1 catalogue (\<^verbatim>\<open>app/src/server/billing/catalog.ts\<close>): the Free and Pro terms, the AI credit packs and
  the custom top-up. Money is in whole cents, bytes and provider cost are unbounded integers (\<^verbatim>\<open>BigInt\<close>).
  The service fee divides by \<^verbatim>\<open>1 - 0.049\<close> in floating point; it is modelled by the exact quotient, which is
  what the two packs of the source use it for (neither quotient is near a whole cent).
\<close>

definition CATALOG_VERSION :: int where "CATALOG_VERSION = 1"

definition HOUR :: int where [billing_consts]: "HOUR = 3600"
definition GB :: int where [billing_consts]: "GB = 1000000000"

record free_plan =
  fp_sku :: string
  fp_workspaceSeconds :: int
  fp_storageBytes :: int
  fp_aiTrialMicro :: int

definition FREE_PLAN :: free_plan where
  "FREE_PLAN = \<lparr>fp_sku = ''free_v1'', fp_workspaceSeconds = 8 * HOUR, fp_storageBytes = 2 * GB,
     fp_aiTrialMicro = 500000\<rparr>"

record pro_plan =
  pp_sku :: string
  pp_unitAmountCents :: int
  pp_currency :: string
  pp_interval :: string
  pp_workspaceSeconds :: int
  pp_storageBytes :: int
  pp_aiIncludedMicro :: int

definition PRO_PLAN :: pro_plan where
  "PRO_PLAN = \<lparr>pp_sku = ''pro_monthly_v1'', pp_unitAmountCents = 2000, pp_currency = ''usd'',
     pp_interval = ''month'', pp_workspaceSeconds = 20 * HOUR, pp_storageBytes = 20 * GB,
     pp_aiIncludedMicro = 3000000\<rparr>"

definition FEE_FIXED_CENTS :: int where "FEE_FIXED_CENTS = 30"

text \<open>\<^verbatim>\<open>FEE_RATE\<close> in thousandths.\<close>

definition FEE_RATE_MILLI :: int where "FEE_RATE_MILLI = 29 + 15 + 5"

definition serviceFeeCents :: "int \<Rightarrow> int" where
  "serviceFeeCents creditCents =
     (let total = ceil_div ((creditCents + FEE_FIXED_CENTS) * 1000) (1000 - FEE_RATE_MILLI) in total - creditCents)"

record catalog_pack =
  pk_sku :: string
  pk_aiCredits :: "int option"
  pk_creditCents :: int
  pk_discountPercent :: int
  pk_serviceFeeCents :: int
  pk_totalCents :: int

definition pack :: "string \<Rightarrow> int \<Rightarrow> catalog_pack" where
  "pack sku creditCents = (let fee = serviceFeeCents creditCents in
     \<lparr>pk_sku = sku, pk_aiCredits = None, pk_creditCents = creditCents, pk_discountPercent = 0,
      pk_serviceFeeCents = fee, pk_totalCents = creditCents + fee\<rparr>)"

definition LEGACY_AI_PACKS :: "catalog_pack list" where
  "LEGACY_AI_PACKS = [pack ''ai_pack_10_v1'' 1000, pack ''ai_pack_25_v1'' 2500]"

definition AI_PACKS :: "catalog_pack list" where
  "AI_PACKS = []"

definition CUSTOM_TOPUP_minCents :: int where [billing_consts]: "CUSTOM_TOPUP_minCents = 1000"
definition CUSTOM_TOPUP_maxCents :: int where [billing_consts]: "CUSTOM_TOPUP_maxCents = 1000000"
definition CUSTOM_TOPUP_centsPerCredit :: int where [billing_consts]: "CUSTOM_TOPUP_centsPerCredit = 10"
definition CUSTOM_TOPUP_SKU :: string where "CUSTOM_TOPUP_SKU = ''ai_custom_v2''"

text \<open>\<open>None\<close> is \<^verbatim>\<open>NaN\<close> (and any other amount that is not an integer): no pack.\<close>

definition customTopupPack :: "int option \<Rightarrow> catalog_pack option" where
  "customTopupPack amount = (case amount of None \<Rightarrow> None | Some amountCents \<Rightarrow>
     if \<not> is_safe_integer amountCents \<or> amountCents mod 100 \<noteq> 0
        \<or> amountCents < CUSTOM_TOPUP_minCents \<or> amountCents > CUSTOM_TOPUP_maxCents then None
     else Some \<lparr>pk_sku = CUSTOM_TOPUP_SKU, pk_aiCredits = Some (amountCents div CUSTOM_TOPUP_centsPerCredit),
        pk_creditCents = amountCents, pk_discountPercent = 0, pk_serviceFeeCents = 0, pk_totalCents = amountCents\<rparr>)"

definition findPack :: "string \<Rightarrow> catalog_pack option" where
  "findPack sku = find (\<lambda>p. pk_sku p = sku) LEGACY_AI_PACKS"

definition aiPackCheckoutEligible :: "catalog_pack option \<Rightarrow> bool" where
  "aiPackCheckoutEligible p = (case p of None \<Rightarrow> False | Some pk \<Rightarrow>
     case pk_aiCredits pk of None \<Rightarrow> False | Some c \<Rightarrow> is_safe_integer c \<and> c \<ge> 1 \<and> c \<le> 1000000)"

datatype PlanId = Plan_free | Plan_pro

definition storageCapBytes :: "PlanId \<Rightarrow> bool \<Rightarrow> int" where
  "storageCapBytes plan largeStorageEnabled =
     (if plan = Plan_pro \<and> largeStorageEnabled then pp_storageBytes PRO_PLAN else fp_storageBytes FREE_PLAN)"

definition workspaceAllowanceSeconds :: "PlanId \<Rightarrow> int" where
  "workspaceAllowanceSeconds plan =
     (if plan = Plan_pro then pp_workspaceSeconds PRO_PLAN else fp_workspaceSeconds FREE_PLAN)"

lemma custom_topup_Some:
  "customTopupPack a = Some p \<Longrightarrow> \<exists>cents. a = Some cents \<and> 1000 \<le> cents \<and> cents \<le> 1000000 \<and> cents mod 100 = 0 \<and>
     pk_sku p = CUSTOM_TOPUP_SKU \<and> pk_aiCredits p = Some (cents div 10) \<and> pk_creditCents p = cents \<and> pk_totalCents p = cents"
  by (auto simp: customTopupPack_def billing_consts split: option.splits if_splits)

lemma workspaceAllowanceSeconds_pos: "0 < workspaceAllowanceSeconds p"
  by (simp add: workspaceAllowanceSeconds_def PRO_PLAN_def FREE_PLAN_def billing_consts)

subsection \<open>Properties\<close>

text \<open>The service fee is the smallest whole number of cents that covers the payment processor: with it
  the charge net of the percentage and the fixed fee is at least the credit, and with one cent less it is
  not; so a pack of the catalogue always covers its face value.\<close>

lemma service_fee_smallest:
  "(c + serviceFeeCents c) * (1000 - FEE_RATE_MILLI) \<ge> (c + FEE_FIXED_CENTS) * 1000 \<and>
   (c + (serviceFeeCents c - 1)) * (1000 - FEE_RATE_MILLI) < (c + FEE_FIXED_CENTS) * 1000 \<and>
   (\<forall>f. (c + f) * (1000 - FEE_RATE_MILLI) \<ge> (c + FEE_FIXED_CENTS) * 1000 \<longleftrightarrow> serviceFeeCents c \<le> f)"
proof -
  have key: "(c + f) * 951 \<ge> (c + 30) * 1000 \<longleftrightarrow> serviceFeeCents c \<le> f" for f
    unfolding serviceFeeCents_def Let_def ceil_div_def FEE_FIXED_CENTS_def FEE_RATE_MILLI_def by simp linarith
  have "\<not> (c + 30) * 1000 \<le> (c + (serviceFeeCents c - 1)) * 951" unfolding key by simp
  moreover have "(c + 30) * 1000 \<le> (c + serviceFeeCents c) * 951" unfolding key by simp
  ultimately show ?thesis using key by (simp add: FEE_FIXED_CENTS_def FEE_RATE_MILLI_def)
qed

text \<open>A custom top-up is sold only for whole dollars between ten and ten thousand, at ten cents the
  credit, and every pack made for one may be checked out: between 100 and 100000 credits whose price is
  exactly the amount paid.\<close>

lemma custom_topup_terms:
  "(\<exists>p. customTopupPack (Some a) = Some p) = (1000 \<le> a \<and> a \<le> 1000000 \<and> a mod 100 = 0) \<and>
   (\<forall>p. customTopupPack (Some a) = Some p \<longrightarrow> aiPackCheckoutEligible (Some p) \<and>
      (\<exists>n. pk_aiCredits p = Some n \<and> 100 \<le> n \<and> n \<le> 100000 \<and> n * 10 = a \<and> pk_totalCents p = a))"
proof (intro conjI allI impI)
  show "(\<exists>p. customTopupPack (Some a) = Some p) = (1000 \<le> a \<and> a \<le> 1000000 \<and> a mod 100 = 0)"
    by (auto simp: customTopupPack_def billing_consts is_safe_integer_def max_safe_integer_def)
  fix p assume "customTopupPack (Some a) = Some p"
  then have p: "1000 \<le> a" "a \<le> 1000000" "a mod 100 = 0" "pk_aiCredits p = Some (a div 10)" "pk_totalCents p = a"
    using custom_topup_Some by auto
  from p(3) obtain k where k: "a = 100 * k" by (auto simp: mod_eq_0_iff_dvd)
  then have "a div 10 * 10 = a" "100 \<le> a div 10" "a div 10 \<le> 100000" using p(1,2) by simp_all
  with p show "aiPackCheckoutEligible (Some p)"
    "\<exists>n. pk_aiCredits p = Some n \<and> 100 \<le> n \<and> n \<le> 100000 \<and> n * 10 = a \<and> pk_totalCents p = a"
    by (auto simp: aiPackCheckoutEligible_def is_safe_integer_def max_safe_integer_def)
qed

lemma custom_topup_terms_witness:
  "\<exists>p. customTopupPack (Some 1200) = Some p \<and> pk_aiCredits p = Some 120 \<and> aiPackCheckoutEligible (Some p)"
  using custom_topup_terms [of 1200] by auto

end
