(* ===== verification/Contract_V2.thy ===== *)
theory Contract_V2
  imports Billing_Time
begin

text \<open>
  The pinned data of billing contract v2 (\<^verbatim>\<open>app/src/server/billing/v2/contract.ts\<close>): constants,
  compute sizes, the catalogue, the metering types and the decision types of the pure functions.
  String unions are datatypes; the catalogue objects are functions of their key. All quantities
  are integers (\<open>int\<close>): whole seconds, standard seconds, US cents.
\<close>

subsection \<open>Constants\<close>

definition SECONDS_PER_HOUR :: int where [billing_consts]: "SECONDS_PER_HOUR = 3600"
definition STD_SECONDS_PER_OVERAGE_CENT :: int where [billing_consts]: "STD_SECONDS_PER_OVERAGE_CENT = 144"
definition OVERAGE_CENTS_PER_STD_HOUR :: int where [billing_consts]: "OVERAGE_CENTS_PER_STD_HOUR = 25"
definition SESSION_MAX_SECONDS :: int where [billing_consts]: "SESSION_MAX_SECONDS = 21600"
definition SESSION_WARN_SECONDS :: "int list" where [billing_consts]: "SESSION_WARN_SECONDS = [900, 300]"
definition IDLE_SLEEP_SECONDS :: int where [billing_consts]: "IDLE_SLEEP_SECONDS = 600"
definition MIN_START_ACTUAL_SECONDS :: int where [billing_consts]: "MIN_START_ACTUAL_SECONDS = 60"
definition OVERAGE_DEFAULT_CAP_CENTS :: int where [billing_consts]: "OVERAGE_DEFAULT_CAP_CENTS = 2500"
definition OVERAGE_MAX_CAP_CENTS :: int where [billing_consts]: "OVERAGE_MAX_CAP_CENTS = 10000"
definition OVERAGE_TERMS_VERSION :: string where "OVERAGE_TERMS_VERSION = ''overage-v2-2026-10-18''"

text \<open>\<^verbatim>\<open>null\<close>: the new Free policy is not effective yet.\<close>

definition FREE_V2_EFFECTIVE_AT :: "jsdate option" where "FREE_V2_EFFECTIVE_AT = None"

subsection \<open>Compute sizes\<close>

datatype SizeCode = Free_cf | Std_2 | Cmp_4 | Cmp_8
datatype ComputeProvider = P_cloudflare | P_aws

record compute_size =
  sz_code :: SizeCode
  sz_vcpu :: int
  sz_memoryGiB :: int
  sz_weight :: int
  sz_provider :: ComputeProvider
  sz_machine :: string
  sz_arm :: "(string \<times> bool) option"

fun SIZES :: "SizeCode \<Rightarrow> compute_size" where
  "SIZES Free_cf = \<lparr>sz_code = Free_cf, sz_vcpu = 2, sz_memoryGiB = 6, sz_weight = 1,
     sz_provider = P_cloudflare, sz_machine = ''cf-custom-2vcpu-6gib'', sz_arm = None\<rparr>"
| "SIZES Std_2 = \<lparr>sz_code = Std_2, sz_vcpu = 2, sz_memoryGiB = 8, sz_weight = 1,
     sz_provider = P_aws, sz_machine = ''m6i.large'', sz_arm = Some (''m7g.large'', False)\<rparr>"
| "SIZES Cmp_4 = \<lparr>sz_code = Cmp_4, sz_vcpu = 4, sz_memoryGiB = 16, sz_weight = 2,
     sz_provider = P_aws, sz_machine = ''m6i.xlarge'', sz_arm = Some (''m7g.xlarge'', False)\<rparr>"
| "SIZES Cmp_8 = \<lparr>sz_code = Cmp_8, sz_vcpu = 8, sz_memoryGiB = 32, sz_weight = 4,
     sz_provider = P_aws, sz_machine = ''m6i.2xlarge'', sz_arm = Some (''m7g.2xlarge'', False)\<rparr>"

abbreviation size_weight :: "SizeCode \<Rightarrow> int" where
  "size_weight c \<equiv> sz_weight (SIZES c)"

definition all_sizes :: "SizeCode list" where
  "all_sizes = [Free_cf, Std_2, Cmp_4, Cmp_8]"

lemma size_weight_bounds: "1 \<le> size_weight c \<and> size_weight c \<le> 4"
  by (cases c) auto

lemma size_weight_pos [simp]: "0 < size_weight c"
  by (cases c) auto

lemma sz_code_SIZES [simp]: "sz_code (SIZES c) = c"
  by (cases c) auto

lemma all_sizes_UNIV: "c \<in> set all_sizes"
  by (cases c) (auto simp: all_sizes_def)

subsection \<open>Catalogue v2\<close>

datatype PlanSku = Free_v2 | Free_v1_legacy | Standard_monthly_v2 | Compute_monthly_v2 | Pro_monthly_v1
datatype PlanFamily = Fam_free | Fam_standard | Fam_compute | Fam_pro_legacy
datatype allowance_window = Utc_month | Stripe_period

fun sku_string :: "PlanSku \<Rightarrow> string" where
  "sku_string Free_v2 = ''free_v2''"
| "sku_string Free_v1_legacy = ''free_v1_legacy''"
| "sku_string Standard_monthly_v2 = ''standard_monthly_v2''"
| "sku_string Compute_monthly_v2 = ''compute_monthly_v2''"
| "sku_string Pro_monthly_v1 = ''pro_monthly_v1''"

text \<open>The own keys of the catalogue object, in the order it lists them.\<close>

definition all_skus :: "PlanSku list" where
  "all_skus = [Free_v2, Free_v1_legacy, Standard_monthly_v2, Compute_monthly_v2, Pro_monthly_v1]"

lemma all_skus_UNIV: "s \<in> set all_skus"
  by (cases s) (auto simp: all_skus_def)

lemma sku_string_inj [simp]: "sku_string a = sku_string b \<longleftrightarrow> a = b"
  by (cases a; cases b) auto

record overage_policy =
  op_centsPerStdHour :: int
  op_stdSecondsPerCent :: int
  op_defaultCapCents :: int
  op_maxCapCents :: int
  op_requiresConsent :: bool
  op_billedSeparately :: bool

record plan_offer =
  po_sku :: PlanSku
  po_family :: PlanFamily
  po_catalogVersion :: int
  po_priceCents :: int
  po_monthly :: bool  \<comment> \<open>\<^verbatim>\<open>interval === 'month'\<close>\<close>
  po_stripeLookupKey :: "string option"
  po_allowanceStdSeconds :: int
  po_allowanceWindow :: allowance_window
  po_sizes :: "SizeCode list"
  po_defaultSize :: SizeCode
  po_overage :: "overage_policy option"
  po_sellable :: bool
  po_maxConcurrentComputers :: int
  po_storageTargetGB :: "int option"
  po_aiIncludedMicro :: string

definition OVERAGE_V2 :: overage_policy where
  "OVERAGE_V2 = \<lparr>op_centsPerStdHour = OVERAGE_CENTS_PER_STD_HOUR,
     op_stdSecondsPerCent = STD_SECONDS_PER_OVERAGE_CENT,
     op_defaultCapCents = OVERAGE_DEFAULT_CAP_CENTS, op_maxCapCents = OVERAGE_MAX_CAP_CENTS,
     op_requiresConsent = True, op_billedSeparately = True\<rparr>"

fun CATALOG_V2 :: "PlanSku \<Rightarrow> plan_offer" where
  "CATALOG_V2 Free_v2 = \<lparr>po_sku = Free_v2, po_family = Fam_free, po_catalogVersion = 2, po_priceCents = 0,
     po_monthly = False, po_stripeLookupKey = None, po_allowanceStdSeconds = 2 * SECONDS_PER_HOUR,
     po_allowanceWindow = Utc_month, po_sizes = [Free_cf], po_defaultSize = Free_cf, po_overage = None,
     po_sellable = False, po_maxConcurrentComputers = 1, po_storageTargetGB = None,
     po_aiIncludedMicro = ''0''\<rparr>"
| "CATALOG_V2 Free_v1_legacy = \<lparr>po_sku = Free_v1_legacy, po_family = Fam_free, po_catalogVersion = 1,
     po_priceCents = 0, po_monthly = False, po_stripeLookupKey = None,
     po_allowanceStdSeconds = 8 * SECONDS_PER_HOUR, po_allowanceWindow = Utc_month,
     po_sizes = [Free_cf], po_defaultSize = Free_cf, po_overage = None, po_sellable = False,
     po_maxConcurrentComputers = 1, po_storageTargetGB = None, po_aiIncludedMicro = ''0''\<rparr>"
| "CATALOG_V2 Standard_monthly_v2 = \<lparr>po_sku = Standard_monthly_v2, po_family = Fam_standard,
     po_catalogVersion = 2, po_priceCents = 2000, po_monthly = True,
     po_stripeLookupKey = Some ''ezil_standard_monthly_v2'',
     po_allowanceStdSeconds = 60 * SECONDS_PER_HOUR, po_allowanceWindow = Stripe_period,
     po_sizes = [Std_2], po_defaultSize = Std_2, po_overage = None, po_sellable = True,
     po_maxConcurrentComputers = 1, po_storageTargetGB = Some 60, po_aiIncludedMicro = ''3000000''\<rparr>"
| "CATALOG_V2 Compute_monthly_v2 = \<lparr>po_sku = Compute_monthly_v2, po_family = Fam_compute,
     po_catalogVersion = 2, po_priceCents = 10000, po_monthly = True,
     po_stripeLookupKey = Some ''ezil_compute_monthly_v2'',
     po_allowanceStdSeconds = 500 * SECONDS_PER_HOUR, po_allowanceWindow = Stripe_period,
     po_sizes = [Std_2, Cmp_4, Cmp_8], po_defaultSize = Std_2, po_overage = Some OVERAGE_V2,
     po_sellable = True, po_maxConcurrentComputers = 1, po_storageTargetGB = Some 60,
     po_aiIncludedMicro = ''3000000''\<rparr>"
| "CATALOG_V2 Pro_monthly_v1 = \<lparr>po_sku = Pro_monthly_v1, po_family = Fam_pro_legacy,
     po_catalogVersion = 1, po_priceCents = 2000, po_monthly = True, po_stripeLookupKey = None,
     po_allowanceStdSeconds = 20 * SECONDS_PER_HOUR, po_allowanceWindow = Stripe_period,
     po_sizes = [Std_2], po_defaultSize = Std_2, po_overage = None, po_sellable = False,
     po_maxConcurrentComputers = 1, po_storageTargetGB = Some 20, po_aiIncludedMicro = ''3000000''\<rparr>"

definition OVERAGE_PRICE_LOOKUP_KEY :: string where
  "OVERAGE_PRICE_LOOKUP_KEY = ''ezil_compute_overage_v2''"

lemma po_sku_CATALOG [simp]: "po_sku (CATALOG_V2 s) = s"
  by (cases s) auto

lemma allowance_nonneg: "0 \<le> po_allowanceStdSeconds (CATALOG_V2 s)"
  by (cases s) (auto simp: billing_consts)

lemma default_size_allowed: "po_defaultSize (CATALOG_V2 s) \<in> set (po_sizes (CATALOG_V2 s))"
  by (cases s) auto

subsection \<open>Metering\<close>

datatype EpochEndReason =
    User_stop | Idle_sleep | Session_max | Allowance_exhausted_end | Overage_cap
  | Payment_issue_end | Resize | Provider_stop | Platform_failure

record compute_epoch =
  ce_id :: string
  ce_userId :: string
  ce_computerId :: string
  ce_size :: SizeCode
  ce_weight :: int
  ce_readyAt :: jsdate
  ce_endedAt :: "jsdate option"
  ce_endReason :: "EpochEndReason option"
  ce_overheadSeconds :: int

record window =
  w_start :: jsdate
  w_end :: jsdate

record window_usage =
  wu_actualSecondsBySize :: "SizeCode \<Rightarrow> int option"
  wu_stdSeconds :: int

record period_rating =
  pr_allowanceStdSeconds :: int
  pr_usedStdSeconds :: int
  pr_remainingStdSeconds :: int
  pr_overStdSeconds :: int
  pr_overageCents :: int
  pr_billableOverageCents :: int

record overage_setting =
  ov_enabled :: bool
  ov_capCents :: int

datatype AdmitRefusal =
    No_plan | Size_not_allowed | Allowance_exhausted | Overage_cap_reached | Payment_issue
  | Concurrent_limit | Upgrade_pending

record admission =
  ad_size :: SizeCode
  ad_weight :: int
  ad_maxRunSeconds :: int
  ad_deadline :: jsdate

datatype AdmitDecision = Admit admission | Refuse AdmitRefusal

subsection \<open>Ledger rules and wire enumerations\<close>

datatype GrantMeter = Workspace_seconds | Ai_usd_micro | Compute_std_seconds
datatype GrantKind = Pro_period | Topup | Plan_period | Upgrade_prorated | Revoke | Suspend | Restore

definition GRANT_METER_COMPUTE :: GrantMeter where [simp]: "GRANT_METER_COMPUTE = Compute_std_seconds"

definition PERIOD_GRANT_BILLING_REASONS :: "string list" where
  "PERIOD_GRANT_BILLING_REASONS = [''subscription_create'', ''subscription_cycle'']"
definition UPGRADE_GRANT_BILLING_REASON :: string where
  "UPGRADE_GRANT_BILLING_REASON = ''subscription_update''"

datatype MeterState = M_ok | M_low | M_exhausted | M_over_cap | M_unavailable
datatype PlanStatusV2 = St_free | St_active | St_cancels | St_past_due | St_incomplete | St_upgrade_pending
datatype PaymentIssueKind = PI_payment_failed | PI_requires_action | PI_overage_unpaid

end
