(* ===== verification/Meters.thy ===== *)
theory Meters
  imports Catalog_V1 Billing_Config Calendar Contract_V2
begin

text \<open>
  The v1 meters (\<^verbatim>\<open>app/src/server/billing/meters.ts\<close>): plan resolution from subscription rows, workspace
  seconds from usage intervals, storage from samples, and the summary built from them. \<^verbatim>\<open>getTime()\<close> of an
  invalid date is \<open>None\<close> and poisons arithmetic as \<^verbatim>\<open>NaN\<close> does; \<^verbatim>\<open>?? -Infinity\<close> and the comparisons with
  \<^verbatim>\<open>NaN\<close> are those of the type \<open>xnum\<close>.
\<close>

subsection \<open>Numbers with NaN\<close>

datatype xnum = NaN | NInf | Num int

fun js_gt :: "xnum \<Rightarrow> xnum \<Rightarrow> bool" where
  "js_gt (Num a) (Num b) = (a > b)"
| "js_gt (Num a) NInf = True"
| "js_gt _ _ = False"

fun js_eq :: "xnum \<Rightarrow> xnum \<Rightarrow> bool" where
  "js_eq (Num a) (Num b) = (a = b)"
| "js_eq NInf NInf = True"
| "js_eq _ _ = False"

definition js_num :: "jsdate \<Rightarrow> xnum" where
  "js_num d = (case d of None \<Rightarrow> NaN | Some ms \<Rightarrow> Num ms)"

definition time_or_ninf :: "jsdate option \<Rightarrow> xnum" where
  "time_or_ninf d = (case d of None \<Rightarrow> NInf | Some t \<Rightarrow> js_num t)"

definition nlift :: "(int \<Rightarrow> int \<Rightarrow> int) \<Rightarrow> int option \<Rightarrow> int option \<Rightarrow> int option" where
  "nlift f a b = (case (a, b) of (Some x, Some y) \<Rightarrow> Some (f x y) | _ \<Rightarrow> None)"

lemma nlift_simps [simp]:
  "nlift f (Some x) (Some y) = Some (f x y)" "nlift f None b = None" "nlift f a None = None"
  by (auto simp: nlift_def split: option.splits)

subsection \<open>Rows\<close>

record subscription_row =
  sub_id :: string
  sub_status :: string
  sub_sku :: string
  sub_periodStart :: "jsdate option"
  sub_periodEnd :: "jsdate option"
  sub_cancelAtPeriodEnd :: bool

record interval_row =
  iv_startedAt :: jsdate
  iv_endedAt :: "jsdate option"
  iv_lastSeenAt :: "jsdate option"

record storage_sample =
  ss_computerId :: string
  ss_bytes :: int
  ss_measuredAt :: jsdate

definition OPEN_INTERVAL_GRACE_MS :: int where [billing_consts]: "OPEN_INTERVAL_GRACE_MS = 15 * 60000"

subsection \<open>Workspace seconds\<close>

definition openIntervalEnd :: "interval_row \<Rightarrow> jsdate \<Rightarrow> int option" where
  "openIntervalEnd iv now =
     (case iv_endedAt iv of
        Some t \<Rightarrow> t
      | None \<Rightarrow> (case iv_lastSeenAt iv of
          None \<Rightarrow> now
        | Some seen \<Rightarrow> nlift min now (nlift (+) seen (Some OPEN_INTERVAL_GRACE_MS))))"

text \<open>Both date operations that leave the range of \<^verbatim>\<open>Date\<close> give an invalid date.\<close>

definition freeWindow :: "jsdate \<Rightarrow> window" where
  "freeWindow now = (case now of None \<Rightarrow> \<lparr>w_start = None, w_end = None\<rparr> | Some ms \<Rightarrow>
     (case new_Date (fst (month_window ms)) of
        None \<Rightarrow> \<lparr>w_start = None, w_end = None\<rparr>
      | Some s \<Rightarrow> \<lparr>w_start = Some s, w_end = new_Date (snd (month_window ms))\<rparr>))"

text \<open>One interval clipped to the window and rounded up to whole minutes.\<close>

definition interval_seconds :: "interval_row \<Rightarrow> window \<Rightarrow> jsdate \<Rightarrow> int option" where
  "interval_seconds iv w now =
     (let start = nlift max (iv_startedAt iv) (w_start w);
          stop = nlift min (openIntervalEnd iv now) (w_end w);
          durationMs = nlift max (Some 0) (nlift (-) stop start)
      in map_option (\<lambda>d. ceil_div d 60000 * 60) durationMs)"

definition workspaceUsedSeconds :: "interval_row list \<Rightarrow> window \<Rightarrow> jsdate \<Rightarrow> int option" where
  "workspaceUsedSeconds ivs w now = foldl (\<lambda>total iv. nlift (+) total (interval_seconds iv w now)) (Some 0) ivs"

text \<open>Comparisons with \<^verbatim>\<open>NaN\<close> are false. The factor \<^verbatim>\<open>0.2\<close> is the exact fifth on both allowances.\<close>

definition workspaceState :: "int option \<Rightarrow> int \<Rightarrow> MeterState" where
  "workspaceState remaining allowance = (case remaining of None \<Rightarrow> M_ok | Some r \<Rightarrow>
     if r \<le> 0 then M_exhausted else if r * 5 \<le> allowance then M_low else M_ok)"

definition storageState :: "int \<Rightarrow> int \<Rightarrow> MeterState" where
  "storageState used cap =
     (if used > cap then M_over_cap
      else if used * 100 \<ge> cap * 95 then M_exhausted
      else if used * 100 \<ge> cap * 80 then M_low else M_ok)"

subsection \<open>Plan resolution\<close>

datatype PlanStatusV1 = PS_free | PS_active | PS_cancels | PS_past_due

record resolved_plan =
  rp_plan :: PlanId
  rp_status :: PlanStatusV1
  rp_window :: window
  rp_renewsAt :: "jsdate option"
  rp_cancelsAt :: "jsdate option"

definition paying :: "subscription_row \<Rightarrow> bool" where
  "paying sub \<longleftrightarrow> sub_status sub = ''active'' \<or> sub_status sub = ''trialing''"

definition delinquent :: "subscription_row \<Rightarrow> bool" where
  "delinquent sub \<longleftrightarrow> sub_status sub = ''past_due'' \<or> sub_status sub = ''unpaid''"

definition js_between :: "jsdate \<Rightarrow> jsdate option \<Rightarrow> jsdate option \<Rightarrow> bool" where
  "js_between now a b = (case (now, a, b) of
     (Some t, Some (Some s), Some (Some e)) \<Rightarrow> s \<le> t \<and> t < e | _ \<Rightarrow> False)"

definition is_current :: "jsdate \<Rightarrow> subscription_row \<Rightarrow> bool" where
  "is_current now sub \<longleftrightarrow> paying sub \<and> js_between now (sub_periodStart sub) (sub_periodEnd sub)"

definition later_end :: "subscription_row \<Rightarrow> subscription_row \<Rightarrow> bool" where
  "later_end a b = js_gt (time_or_ninf (sub_periodEnd a)) (time_or_ninf (sub_periodEnd b))"

text \<open>The loop's \<^verbatim>\<open>continue\<close> is the filter.\<close>

definition resolvePlan :: "subscription_row list \<Rightarrow> jsdate \<Rightarrow> resolved_plan" where
  "resolvePlan subs now =
     (let selected = pick later_end None (filter (\<lambda>s. is_current now s \<or> delinquent s) subs);
          free = (\<lambda>st. \<lparr>rp_plan = Plan_free, rp_status = st, rp_window = freeWindow now,
                        rp_renewsAt = None, rp_cancelsAt = None\<rparr>)
      in case selected of
           None \<Rightarrow> free PS_free
         | Some s \<Rightarrow> (case (paying s, sub_periodStart s, sub_periodEnd s) of
             (True, Some a, Some b) \<Rightarrow>
               \<lparr>rp_plan = Plan_pro, rp_status = (if sub_cancelAtPeriodEnd s then PS_cancels else PS_active),
                rp_window = \<lparr>w_start = a, w_end = b\<rparr>,
                rp_renewsAt = (if sub_cancelAtPeriodEnd s then None else Some b),
                rp_cancelsAt = (if sub_cancelAtPeriodEnd s then Some b else None)\<rparr>
           | _ \<Rightarrow> free PS_past_due))"

subsection \<open>The summary\<close>

text \<open>\<^verbatim>\<open>Map.set\<close> keeps the place of a key it already holds, as \<open>AList.update\<close> does.\<close>

definition newer :: "storage_sample \<Rightarrow> storage_sample \<Rightarrow> bool" where
  "newer a b = js_gt (js_num (ss_measuredAt a)) (js_num (ss_measuredAt b))"

fun map_set :: "'k \<Rightarrow> 'v \<Rightarrow> ('k \<times> 'v) list \<Rightarrow> ('k \<times> 'v) list" where
  "map_set k v [] = [(k, v)]"
| "map_set k v ((k', v') # ps) = (if k = k' then (k, v) # ps else (k', v') # map_set k v ps)"

definition newest_step :: "(string \<times> storage_sample) list \<Rightarrow> storage_sample \<Rightarrow> (string \<times> storage_sample) list" where
  "newest_step m x = (case map_of m (ss_computerId x) of
     None \<Rightarrow> map_set (ss_computerId x) x m
   | Some seen \<Rightarrow> if newer x seen then map_set (ss_computerId x) x m else m)"

definition newest_samples :: "storage_sample list \<Rightarrow> storage_sample list" where
  "newest_samples xs = map snd (foldl newest_step [] xs)"

definition js_date_gt :: "jsdate \<Rightarrow> jsdate \<Rightarrow> bool" where
  "js_date_gt a b = js_gt (js_num a) (js_num b)"

definition latest_measured :: "storage_sample list \<Rightarrow> jsdate option" where
  "latest_measured xs = pick js_date_gt None (map ss_measuredAt xs)"

definition js_toISOString :: "jsdate \<Rightarrow> jsdate res" where
  "js_toISOString d = (case d of None \<Rightarrow> Inl RangeError | Some ms \<Rightarrow> Inr (Some ms))"

definition iso_nullable :: "jsdate option \<Rightarrow> jsdate option res" where
  "iso_nullable d = (case d of None \<Rightarrow> Inr None | Some t \<Rightarrow> rbind (js_toISOString t) (\<lambda>i. Inr (Some i)))"

record summary_v1 =
  s1_plan :: PlanId
  s1_status :: PlanStatusV1
  s1_periodStart :: jsdate
  s1_periodEnd :: jsdate
  s1_renewsAt :: "jsdate option"
  s1_cancelsAt :: "jsdate option"
  s1_usedSeconds :: "int option"
  s1_allowanceSeconds :: int
  s1_remainingSeconds :: "int option"
  s1_workspaceState :: MeterState
  s1_usedBytes :: int
  s1_capBytes :: int
  s1_storageState :: MeterState
  s1_measuredAt :: "jsdate option"
  s1_checkout :: bool
  s1_portal :: bool
  s1_topup :: bool

definition buildSummary :: "billing_config \<Rightarrow> jsdate \<Rightarrow> subscription_row list \<Rightarrow> interval_row list
    \<Rightarrow> storage_sample list \<Rightarrow> summary_v1 res" where
  "buildSummary config now subs intervals storage =
     (let resolved = resolvePlan subs now;
          allowance = workspaceAllowanceSeconds (rp_plan resolved);
          used = workspaceUsedSeconds intervals (rp_window resolved) now;
          remaining = nlift max (Some 0) (nlift (-) (Some allowance) used);
          cap = storageCapBytes (rp_plan resolved) (cfg_largeStorageEnabled config);
          newest = newest_samples storage;
          usedBytes = sum_list (map ss_bytes newest);
          checkout = checkoutAvailable config
      in rbind (js_toISOString (w_start (rp_window resolved))) (\<lambda>periodStart.
         rbind (js_toISOString (w_end (rp_window resolved))) (\<lambda>periodEnd.
         rbind (iso_nullable (rp_renewsAt resolved)) (\<lambda>renewsAt.
         rbind (iso_nullable (rp_cancelsAt resolved)) (\<lambda>cancelsAt.
         rbind (iso_nullable (latest_measured newest)) (\<lambda>measuredAt.
           Inr \<lparr>s1_plan = rp_plan resolved, s1_status = rp_status resolved, s1_periodStart = periodStart,
                s1_periodEnd = periodEnd, s1_renewsAt = renewsAt, s1_cancelsAt = cancelsAt,
                s1_usedSeconds = used, s1_allowanceSeconds = allowance, s1_remainingSeconds = remaining,
                s1_workspaceState = workspaceState remaining allowance,
                s1_usedBytes = usedBytes, s1_capBytes = cap, s1_storageState = storageState usedBytes cap,
                s1_measuredAt = measuredAt, s1_checkout = checkout,
                s1_portal = (checkout \<and> (rp_plan resolved = Plan_pro \<or> rp_status resolved = PS_past_due)),
                s1_topup = (checkout \<and> (\<exists>p \<in> set AI_PACKS. aiPackCheckoutEligible (Some p)))\<rparr>))))))"

subsection \<open>Lemmas\<close>

lemma js_gt_trans: "js_gt a b \<Longrightarrow> js_gt b c \<Longrightarrow> js_gt a c"
  by (cases a; cases b; cases c) auto

lemma js_gt_asym: "js_gt a b \<Longrightarrow> \<not> js_gt b a"
  by (cases a; cases b) auto

lemma js_gt_irrefl [simp]: "\<not> js_gt a a"
  by (cases a) auto

lemma js_gt_neg_trans: "b \<noteq> NaN \<Longrightarrow> \<not> js_gt a b \<Longrightarrow> \<not> js_gt b c \<Longrightarrow> \<not> js_gt a c"
  by (cases a; cases b; cases c) auto

lemma js_gt_total: "a \<noteq> NaN \<Longrightarrow> b \<noteq> NaN \<Longrightarrow> a \<noteq> b \<Longrightarrow> js_gt a b \<or> js_gt b a"
  by (cases a; cases b) auto

text \<open>The end of the period decides between rows, the instant between samples; both are preferences on the
  rows whose date is valid.\<close>

definition valid_end :: "subscription_row \<Rightarrow> bool" where
  "valid_end s \<longleftrightarrow> sub_periodEnd s \<noteq> Some None"

interpretation plan_end: preference later_end valid_end
  by unfold_locales
    (auto simp: later_end_def valid_end_def time_or_ninf_def js_num_def dest: js_gt_asym
      intro: js_gt_neg_trans split: option.splits)

interpretation sample_time: preference newer "\<lambda>x. ss_measuredAt x \<noteq> None"
  by unfold_locales (auto simp: newer_def js_num_def dest: js_gt_asym intro: js_gt_neg_trans split: option.splits)

lemma later_end_total:
  "valid_end a \<Longrightarrow> valid_end b \<Longrightarrow> sub_periodEnd a \<noteq> sub_periodEnd b \<Longrightarrow> later_end a b \<or> later_end b a"
  unfolding later_end_def
  by (rule js_gt_total; cases "sub_periodEnd a"; cases "sub_periodEnd b")
    (auto simp: valid_end_def time_or_ninf_def js_num_def split: option.splits)

lemma freeWindow_valid:
  assumes "freeWindow now = \<lparr>w_start = Some s, w_end = Some e\<rparr>"
  shows "\<exists>ms. now = Some ms \<and> month_window ms = (s, e)"
  using assms by (cases now) (auto simp: freeWindow_def new_Date_def prod_eq_iff split: option.splits if_splits)

lemma year_1970: "year_of_day 0 = 1970" "day_from_year 1970 = 0" "is_leap 1970 = False" "month_of False 0 = 0"
  by (rule year_of_day_unique) (simp_all add: day_from_year_def is_leap_def month_of_def)

lemma month_1970: "month_first 1970 0 = 0" "next_month_first 1970 0 = 31"
  by (simp_all add: month_first_def next_month_first_def year_1970 month_start_def)

lemma month_window_epoch: "month_window 0 = (0, 2678400000)"
  by (simp add: month_window_def year_1970 month_1970 day_ms_def)

lemma interval_seconds_nonneg: "interval_seconds iv w now = Some n \<Longrightarrow> 0 \<le> n"
  by (auto simp: interval_seconds_def nlift_def Let_def ceil_div_def split: option.splits)

lemma foldl_nlift_add:
  "foldl (\<lambda>total iv. nlift (+) total (f iv)) acc ivs = Some n \<Longrightarrow>
   \<exists>a. acc = Some a \<and> (\<forall>iv \<in> set ivs. f iv \<noteq> None) \<and> n = a + sum_list (map (\<lambda>iv. the (f iv)) ivs)"
proof (induction ivs arbitrary: acc)
  case Nil
  then show ?case by simp
next
  case (Cons iv ivs)
  then show ?case
    by (cases acc; cases "f iv") (fastforce dest!: Cons.IH)+
qed

lemma foldl_nlift_total:
  "\<forall>iv \<in> set ivs. f iv \<noteq> None \<Longrightarrow>
   foldl (\<lambda>total iv. nlift (+) total (f iv)) (Some a) ivs = Some (a + sum_list (map (\<lambda>iv. the (f iv)) ivs))"
  by (induction ivs arbitrary: a) auto

text \<open>The milliseconds of an interval inside the window.\<close>

definition interval_ms :: "interval_row \<Rightarrow> int \<Rightarrow> int \<Rightarrow> jsdate \<Rightarrow> int" where
  "interval_ms iv s e now =
     max 0 (min (the (openIntervalEnd iv now)) e - max (the (iv_startedAt iv)) s)"

lemma interval_seconds_Some:
  assumes "iv_startedAt iv \<noteq> None" and "openIntervalEnd iv now \<noteq> None"
  shows "interval_seconds iv \<lparr>w_start = Some s, w_end = Some e\<rparr> now = Some (ceil_div (interval_ms iv s e now) 60000 * 60)"
  using assms by (auto simp: interval_seconds_def interval_ms_def Let_def nlift_def)

lemma ceil_minutes: "d \<le> ceil_div d 60000 * 60 * 1000 \<and> ceil_div d 60000 * 60 * 1000 < d + 60000"
  unfolding ceil_div_def by linarith

lemma sum_list_strict_bounds:
  fixes f g :: "'a \<Rightarrow> int"
  assumes "\<And>x. x \<in> set xs \<Longrightarrow> f x \<le> g x \<and> g x \<le> f x + k"
  shows "sum_list (map f xs) \<le> sum_list (map g xs) \<and> sum_list (map g xs) \<le> sum_list (map f xs) + int (length xs) * k"
  using assms by (induction xs) (force simp: algebra_simps)+

text \<open>The map of newest samples.\<close>

lemma map_of_map_set [simp]: "map_of (map_set k v m) = (map_of m)(k \<mapsto> v)"
  by (induction m) auto

lemma keys_map_set: "map fst (map_set k v m) = (if k \<in> fst ` set m then map fst m else map fst m @ [k])"
  by (induction m) (fastforce simp: image_iff)+

lemma distinct_map_set: "distinct (map fst m) \<Longrightarrow> distinct (map fst (map_set k v m))"
  by (simp add: keys_map_set)

definition newest_inv :: "storage_sample list \<Rightarrow> (string \<times> storage_sample) list \<Rightarrow> bool" where
  "newest_inv seen m \<longleftrightarrow> distinct (map fst m) \<and>
     (\<forall>c x. map_of m c = Some x \<longrightarrow> x \<in> set seen \<and> ss_computerId x = c \<and>
        (\<forall>y \<in> set seen. ss_computerId y = c \<longrightarrow> \<not> newer y x)) \<and>
     (\<forall>y \<in> set seen. map_of m (ss_computerId y) \<noteq> None)"

lemma newest_step_inv:
  assumes inv: "newest_inv seen m" and v: "\<forall>y \<in> set (x # seen). ss_measuredAt y \<noteq> None"
  shows "newest_inv (x # seen) (newest_step m x)"
proof (cases "map_of m (ss_computerId x)")
  case None
  then have "\<forall>y \<in> set seen. ss_computerId y \<noteq> ss_computerId x" using inv by (force simp: newest_inv_def)
  then show ?thesis using None inv v
    by (auto simp: newest_inv_def newest_step_def newer_def distinct_map_set dest: js_gt_asym simp del: map_of_eq_Some_iff)
next
  case (Some z)
  then have z: "z \<in> set seen" "ss_computerId z = ss_computerId x"
    "\<And>y. y \<in> set seen \<Longrightarrow> ss_computerId y = ss_computerId x \<Longrightarrow> \<not> newer y z"
    using inv by (auto simp: newest_inv_def)
  show ?thesis
  proof (cases "newer x z")
    case True
    have "\<not> newer y x" if "y \<in> set seen" "ss_computerId y = ss_computerId x" for y
    proof
      assume "newer y x"
      then have "newer y z" using True unfolding newer_def by (rule js_gt_trans)
      with z(3) that show False by blast
    qed
    moreover have "\<not> newer x x" by (auto simp: newer_def dest: js_gt_asym)
    ultimately show ?thesis using True Some inv
      by (auto simp: newest_inv_def newest_step_def distinct_map_set simp del: map_of_eq_Some_iff)
  next
    case False
    then show ?thesis using Some inv by (auto simp: newest_inv_def newest_step_def simp del: map_of_eq_Some_iff)
  qed
qed

lemma newest_fold_inv:
  "newest_inv seen m \<Longrightarrow> \<forall>y \<in> set xs \<union> set seen. ss_measuredAt y \<noteq> None \<Longrightarrow>
   newest_inv (rev xs @ seen) (foldl newest_step m xs)"
proof (induction xs arbitrary: seen m)
  case (Cons x xs)
  have "newest_inv (x # seen) (newest_step m x)" by (rule newest_step_inv) (use Cons.prems in auto)
  from Cons.IH [OF this] Cons.prems show ?case by auto
qed simp

lemma newest_samples_inv:
  assumes "\<forall>y \<in> set xs. ss_measuredAt y \<noteq> None"
  shows "newest_inv xs (foldl newest_step [] xs)"
  using newest_fold_inv [of "[]" "[]" xs] assms by (simp add: newest_inv_def del: map_of_eq_Some_iff)

subsection \<open>Properties\<close>

text \<open>The Free window of an instant is the calendar month around it: it contains the instant, every
  instant of the month has the same window start, and the window that starts at its end is the next one,
  so no instant is counted in two windows and none in no window.\<close>

lemma free_window_tiles:
  assumes "freeWindow now = \<lparr>w_start = Some s, w_end = Some e\<rparr>"
  shows "\<exists>ms. now = Some ms \<and> s \<le> ms \<and> ms < e \<and> month_window s = (s, e) \<and> fst (month_window e) = e \<and>
     freeWindow (Some s) = freeWindow now \<and> (w_start (freeWindow (Some e)) = Some e)"
proof -
  obtain ms where ms: "now = Some ms" "month_window ms = (s, e)"
    using freeWindow_valid [OF assms] by auto
  have st: "month_window s = (s, e)" "fst (month_window e) = e"
    using month_window_start [OF ms(2)] by simp_all
  have ok: "new_Date s = Some s" "new_Date e = Some e"
    using assms ms by (auto simp: freeWindow_def new_Date_def split: if_splits option.splits)
  show ?thesis
    using month_window_contains [OF ms(2)] ms st ok by (auto simp: freeWindow_def)
qed

lemma free_window_tiles_witness:
  "(0::int) < 2678400000 \<and> month_window 0 = (0, 2678400000) \<and> fst (month_window 2678400000) = 2678400000 \<and>
   w_start (freeWindow (Some 2678400000)) = Some 2678400000"
  using free_window_tiles [of "Some 0" 0 2678400000]
  by (simp add: freeWindow_def month_window_epoch new_Date_def max_time_ms_def)

text \<open>Workspace time is each interval's time inside the window rounded up to whole minutes, and nothing
  else: never less than the time spent, never a minute or more above it for any interval, and intervals of
  different computers add up.\<close>

lemma workspace_used_rounds_up:
  assumes "\<forall>iv \<in> set ivs. iv_startedAt iv \<noteq> None \<and> openIntervalEnd iv now \<noteq> None"
  shows "\<exists>n. workspaceUsedSeconds ivs \<lparr>w_start = Some s, w_end = Some e\<rparr> now = Some n \<and> n mod 60 = 0 \<and>
     sum_list (map (\<lambda>iv. interval_ms iv s e now) ivs) \<le> n * 1000 \<and>
     n * 1000 \<le> sum_list (map (\<lambda>iv. interval_ms iv s e now) ivs) + int (length ivs) * 59999"
proof -
  let ?w = "\<lparr>w_start = Some s, w_end = Some e\<rparr>"
  let ?g = "\<lambda>iv. ceil_div (interval_ms iv s e now) 60000 * 60"
  have s: "\<forall>iv \<in> set ivs. interval_seconds iv ?w now = Some (?g iv)"
    using assms by (auto simp: interval_seconds_Some)
  then have v: "\<forall>iv \<in> set ivs. interval_seconds iv ?w now \<noteq> None" by simp
  have used: "workspaceUsedSeconds ivs ?w now = Some (sum_list (map ?g ivs))"
    unfolding workspaceUsedSeconds_def foldl_nlift_total [OF v] using s by (auto simp: cong: map_cong)
  have "60 dvd sum_list (map ?g ivs)" by (induction ivs) auto
  moreover have "sum_list (map (\<lambda>iv. interval_ms iv s e now) ivs) \<le> sum_list (map (\<lambda>iv. ?g iv * 1000) ivs) \<and>
      sum_list (map (\<lambda>iv. ?g iv * 1000) ivs) \<le> sum_list (map (\<lambda>iv. interval_ms iv s e now) ivs) + int (length ivs) * 59999"
  proof (rule sum_list_strict_bounds)
    fix iv
    show "interval_ms iv s e now \<le> ?g iv * 1000 \<and> ?g iv * 1000 \<le> interval_ms iv s e now + 59999"
      using ceil_minutes [of "interval_ms iv s e now"] by linarith
  qed
  moreover have "sum_list (map (\<lambda>iv. ?g iv * 1000) ivs) = sum_list (map ?g ivs) * 1000"
    by (rule sum_list_mult_const)
  ultimately show ?thesis using used by (auto simp: mod_eq_0_iff_dvd)
qed

lemma workspace_used_rounds_up_witness:
  "\<exists>n. workspaceUsedSeconds [\<lparr>iv_startedAt = Some 0, iv_endedAt = Some (Some 61000), iv_lastSeenAt = None\<rparr>,
       \<lparr>iv_startedAt = Some 30000, iv_endedAt = None, iv_lastSeenAt = Some (Some 50000)\<rparr>]
     \<lparr>w_start = Some 1000, w_end = Some 120000\<rparr> (Some 90000) = Some n \<and> 120000 \<le> n * 1000"
  using workspace_used_rounds_up [of "[\<lparr>iv_startedAt = Some 0, iv_endedAt = Some (Some 61000), iv_lastSeenAt = None\<rparr>,
       \<lparr>iv_startedAt = Some 30000, iv_endedAt = None, iv_lastSeenAt = Some (Some 50000)\<rparr>]" "Some 90000" 1000 120000]
  by (auto simp: openIntervalEnd_def interval_ms_def billing_consts)

text \<open>Only a subscription that is active now gives the Pro plan: when Pro is granted, some row of the
  input is paying, its period is the plan's window and contains the instant, and no current or delinquent row
  ends later; when the rows that count have valid and different period ends, the order in which the
  database returns them does not matter.\<close>

lemma resolve_plan_sound:
  assumes "rp_plan (resolvePlan subs now) = Plan_pro" and "\<forall>s \<in> set subs. valid_end s"
    and "mset subs = mset subs'" and distinct_ends: "distinct (map sub_periodEnd subs)"
  shows "(\<exists>s \<in> set subs. is_current now s \<and> Some (w_start (rp_window (resolvePlan subs now))) = sub_periodStart s \<and>
       Some (w_end (rp_window (resolvePlan subs now))) = sub_periodEnd s \<and>
       (\<forall>t \<in> set subs. is_current now t \<or> delinquent t \<longrightarrow> \<not> later_end t s)) \<and>
     resolvePlan subs' now = resolvePlan subs now"
proof
  let ?F = "filter (\<lambda>s. is_current now s \<or> delinquent s)"
  obtain s where s: "pick later_end None (?F subs) = Some s"
    using assms(1) by (cases "pick later_end None (?F subs)") (auto simp: resolvePlan_def Let_def)
  then have mem: "s \<in> set subs" "is_current now s \<or> delinquent s" using pick_None_in by force+
  have pay: "paying s" using assms(1) s by (cases "paying s") (auto simp: resolvePlan_def Let_def)
  then have cur: "is_current now s" using mem(2) by (auto simp: paying_def delinquent_def)
  moreover have "Some (w_start (rp_window (resolvePlan subs now))) = sub_periodStart s"
    "Some (w_end (rp_window (resolvePlan subs now))) = sub_periodEnd s"
    using assms(1) s pay by (auto simp: resolvePlan_def Let_def split: option.splits)
  moreover have "\<not> later_end t s" if "t \<in> set subs" "is_current now t \<or> delinquent t" for t
    by (rule plan_end.pick_best [OF s]) (use that assms(2) in auto)
  ultimately show "\<exists>s \<in> set subs. is_current now s \<and> Some (w_start (rp_window (resolvePlan subs now))) = sub_periodStart s \<and>
       Some (w_end (rp_window (resolvePlan subs now))) = sub_periodEnd s \<and>
       (\<forall>t \<in> set subs. is_current now t \<or> delinquent t \<longrightarrow> \<not> later_end t s)"
    using mem(1) by blast
  have "pick later_end None (?F subs) = pick later_end None (?F subs')"
  proof (rule plan_end.pick_perm)
    show "mset (?F subs) = mset (?F subs')" using assms(3) by (simp add: mset_filter)
    fix x y assume xy: "x \<in> set (?F subs)" "y \<in> set (?F subs)" "x \<noteq> y"
    then have "sub_periodEnd x \<noteq> sub_periodEnd y"
      using distinct_ends by (auto simp: distinct_map dest: inj_onD)
    then show "later_end x y \<or> later_end y x" using later_end_total xy assms(2) by auto
  qed (use assms(2) in auto)
  then show "resolvePlan subs' now = resolvePlan subs now" by (simp add: resolvePlan_def Let_def)
qed

definition demo_subs :: "subscription_row list" where
  "demo_subs = [\<lparr>sub_id = ''a'', sub_status = ''active'', sub_sku = ''pro_monthly_v1'', sub_periodStart = Some (Some 0),
       sub_periodEnd = Some (Some 2000), sub_cancelAtPeriodEnd = False\<rparr>,
     \<lparr>sub_id = ''b'', sub_status = ''unpaid'', sub_sku = ''pro_monthly_v1'', sub_periodStart = Some (Some 0),
       sub_periodEnd = Some (Some 1000), sub_cancelAtPeriodEnd = False\<rparr>]"

lemma demo_subs_plan: "rp_plan (resolvePlan demo_subs (Some 500)) = Plan_pro"
  by (simp add: resolvePlan_def Let_def demo_subs_def is_current_def paying_def delinquent_def js_between_def
      later_end_def time_or_ninf_def js_num_def)

lemma resolve_plan_sound_witness:
  "rp_plan (resolvePlan demo_subs (Some 500)) = Plan_pro \<and>
   resolvePlan (rev demo_subs) (Some 500) = resolvePlan demo_subs (Some 500)"
  using resolve_plan_sound [of demo_subs "Some 500" "rev demo_subs"] demo_subs_plan
  by (simp add: demo_subs_def valid_end_def)

text \<open>The storage meter is a level: it adds exactly one sample per computer, the newest the caller passed
  for it, whatever history comes with it, and every computer with a sample is counted.\<close>

lemma storage_counts_newest:
  assumes "\<forall>x \<in> set xs. ss_measuredAt x \<noteq> None"
    and "buildSummary c now subs ivs xs = Inr s"
  shows "distinct (map ss_computerId (newest_samples xs)) \<and>
    ss_computerId ` set (newest_samples xs) = ss_computerId ` set xs \<and>
    (\<forall>x \<in> set (newest_samples xs). x \<in> set xs \<and>
       (\<forall>y \<in> set xs. ss_computerId y = ss_computerId x \<longrightarrow> \<not> newer y x)) \<and>
    s1_usedBytes s = sum_list (map ss_bytes (newest_samples xs))"
proof -
  let ?m = "foldl newest_step [] xs"
  have inv: "newest_inv xs ?m" by (rule newest_samples_inv [OF assms(1)])
  have key: "map ss_computerId (newest_samples xs) = map fst ?m"
    using inv by (auto simp: newest_samples_def newest_inv_def map_of_eq_Some_iff)
  have mem: "\<exists>c. map_of ?m c = Some x" if "x \<in> set (newest_samples xs)" for x
    using that inv by (force simp: newest_samples_def newest_inv_def)
  have "ss_computerId ` set (newest_samples xs) = set (map fst ?m)" using key by (metis set_map)
  also have "\<dots> = dom (map_of ?m)" by (simp add: dom_map_of_conv_image_fst)
  also have "\<dots> = ss_computerId ` set xs"
  proof (intro set_eqI iffI)
    fix c assume "c \<in> dom (map_of ?m)"
    then obtain x where "map_of ?m c = Some x" by auto
    with inv have "x \<in> set xs" "ss_computerId x = c" by (auto simp: newest_inv_def)
    then show "c \<in> ss_computerId ` set xs" by auto
  next
    fix c assume "c \<in> ss_computerId ` set xs"
    then show "c \<in> dom (map_of ?m)" using inv by (auto simp: newest_inv_def domIff)
  qed
  finally show ?thesis
    using key inv mem assms(2)
    by (fastforce simp: newest_inv_def buildSummary_def Let_def)
qed

lemma storage_counts_newest_witness:
  "\<exists>s. buildSummary (readBillingConfig (\<lambda>_. None)) (Some 0) [] []
      [\<lparr>ss_computerId = ''a'', ss_bytes = 5, ss_measuredAt = Some 1\<rparr>,
       \<lparr>ss_computerId = ''a'', ss_bytes = 7, ss_measuredAt = Some 2\<rparr>] = Inr s \<and> s1_usedBytes s = 7"
proof -
  let ?c = "readBillingConfig (\<lambda>_. None)"
  let ?x = "\<lparr>ss_computerId = ''a'', ss_bytes = 5, ss_measuredAt = Some 1\<rparr>"
  let ?y = "\<lparr>ss_computerId = ''a'', ss_bytes = 7, ss_measuredAt = Some 2\<rparr>"
  have w: "freeWindow (Some 0) = \<lparr>w_start = Some 0, w_end = Some 2678400000\<rparr>"
    by (simp add: freeWindow_def month_window_epoch new_Date_def max_time_ms_def)
  have n: "newest_samples [?x, ?y] = [?y]"
    by (simp add: newest_samples_def newest_step_def newer_def js_num_def)
  obtain s where s: "buildSummary ?c (Some 0) [] [] [?x, ?y] = Inr s"
    by (simp add: buildSummary_def Let_def resolvePlan_def w js_toISOString_def iso_nullable_def n latest_measured_def)
  then show ?thesis
    using storage_counts_newest [of "[?x, ?y]" ?c "Some 0" "[]" "[]" s] n by auto
qed

end
