(* ===== verification/Rating.thy ===== *)
theory Rating
  imports Contract_V2
begin

text \<open>
  The v2 rating functions (\<^verbatim>\<open>app/src/server/billing/v2/rating.ts\<close>): usage of compute epochs inside
  an allowance window, the rating of a period, the prorated upgrade grant and the start gate.
  First the definitions, then what each function guarantees.
\<close>

subsection \<open>Usage inside a window\<close>

text \<open>The sort key of \<^verbatim>\<open>Date.parse(a.readyAt) - Date.parse(b.readyAt)\<close>; an invalid instant makes the
  loop throw wherever it is placed.\<close>

definition ready_key :: "('a compute_epoch_scheme) \<Rightarrow> int" where
  "ready_key e = (case ce_readyAt e of None \<Rightarrow> 0 | Some ms \<Rightarrow> ms)"

definition add_actual :: "(SizeCode \<Rightarrow> int option) \<Rightarrow> SizeCode \<Rightarrow> int \<Rightarrow> (SizeCode \<Rightarrow> int option)" where
  "add_actual m s n = m(s \<mapsto> (case m s of None \<Rightarrow> 0 | Some k \<Rightarrow> k) + n)"

text \<open>The seconds of one epoch inside the window: capped before clipping.\<close>

definition epoch_span :: "int option \<Rightarrow> int \<Rightarrow> int \<Rightarrow> int \<Rightarrow> int \<Rightarrow> int" where
  "epoch_span cap start stop ready ended =
     (let boundedEnd = (case cap of None \<Rightarrow> ended | Some s \<Rightarrow> min ended (ready + s))
      in max 0 (min boundedEnd stop - max ready start))"

fun rate_loop :: "int option \<Rightarrow> int \<Rightarrow> int \<Rightarrow> int \<Rightarrow> int \<Rightarrow> ('a compute_epoch_scheme) list \<Rightarrow> window_usage
    \<Rightarrow> window_usage res" where
  "rate_loop cap allowance start stop current [] u = Inr u"
| "rate_loop cap allowance start stop current (e # es) u =
     (let weight = size_weight (ce_size e) in
      if ce_weight e \<noteq> weight then Inl RangeError
      else rbind (epochSeconds (ce_readyAt e) RCeil) (\<lambda>ready.
           rbind (case ce_endedAt e of None \<Rightarrow> Inr current | Some d \<Rightarrow> epochSeconds d RFloor) (\<lambda>ended.
           let span = epoch_span cap start stop ready ended;
               actual = (case cap of
                   None \<Rightarrow> min (max 0 (allowance - wu_stdSeconds u) div weight) span
                 | Some _ \<Rightarrow> span)
           in rate_loop cap allowance start stop current es
                (if actual = 0 then u
                 else u\<lparr>wu_actualSecondsBySize := add_actual (wu_actualSecondsBySize u) (ce_size e) actual,
                        wu_stdSeconds := wu_stdSeconds u + actual * weight\<rparr>))))"

definition empty_usage :: window_usage where
  "empty_usage = \<lparr>wu_actualSecondsBySize = (\<lambda>_. None), wu_stdSeconds = 0\<rparr>"

text \<open>
  \<open>sessionMax\<close> is the optional argument: \<open>None\<close> when it is left out (the default bound applies),
  \<open>Some None\<close> for \<^verbatim>\<open>null\<close> (uncapped). \<open>allowance\<close> is \<open>None\<close> when undefined or not finite.
\<close>

definition rateWindow :: "('a compute_epoch_scheme) list \<Rightarrow> window \<Rightarrow> jsdate \<Rightarrow> int option option \<Rightarrow> int option
    \<Rightarrow> window_usage res" where
  "rateWindow epochs w now sessionMax allowance =
     (let cap = (case sessionMax of None \<Rightarrow> Some SESSION_MAX_SECONDS | Some c \<Rightarrow> c) in
      if cap = None \<and> (case allowance of None \<Rightarrow> True | Some a \<Rightarrow> a < 0) then Inl RangeError
      else rbind (epochSeconds (w_start w) RFloor) (\<lambda>start.
           rbind (epochSeconds (w_end w) RFloor) (\<lambda>stop.
           rbind (epochSeconds now RFloor) (\<lambda>current.
             rate_loop cap (case allowance of None \<Rightarrow> 0 | Some a \<Rightarrow> a) start stop current
               (sort_key ready_key epochs) empty_usage))))"

subsection \<open>Period rating, upgrade grant, start gate\<close>

definition ratePeriod :: "int \<Rightarrow> int \<Rightarrow> overage_setting option \<Rightarrow> period_rating" where
  "ratePeriod usedStdSeconds allowanceStdSeconds overage =
     (let remaining = max 0 (allowanceStdSeconds - usedStdSeconds);
          over = max 0 (usedStdSeconds - allowanceStdSeconds);
          cents = over div STD_SECONDS_PER_OVERAGE_CENT
      in \<lparr>pr_allowanceStdSeconds = allowanceStdSeconds, pr_usedStdSeconds = usedStdSeconds,
          pr_remainingStdSeconds = remaining, pr_overStdSeconds = over, pr_overageCents = cents,
          pr_billableOverageCents =
            (case overage of None \<Rightarrow> 0 | Some o' \<Rightarrow> if ov_enabled o' then min cents (ov_capCents o') else 0)\<rparr>)"

text \<open>The integer proration every upgrade grant uses: \<open>delta * remaining / duration\<close>, rounded down.\<close>

definition prorate :: "int \<Rightarrow> int \<Rightarrow> int \<Rightarrow> int \<Rightarrow> int" where
  "prorate delta start stop at =
     (let duration = stop - start; remaining = min duration (max 0 (stop - at)) in delta * remaining div duration)"

definition upgradeGrantStdSeconds :: "PlanSku \<Rightarrow> PlanSku \<Rightarrow> jsdate \<Rightarrow> jsdate \<Rightarrow> jsdate \<Rightarrow> int res" where
  "upgradeGrantStdSeconds fromSku toSku periodStart periodEnd effectiveAt =
     (let delta = po_allowanceStdSeconds (CATALOG_V2 toSku) - po_allowanceStdSeconds (CATALOG_V2 fromSku) in
      rbind (epochSeconds periodEnd RFloor) (\<lambda>stop.
      rbind (epochSeconds periodStart RFloor) (\<lambda>start.
        if delta \<le> 0 \<or> stop - start \<le> 0 then Inr 0
        else rbind (epochSeconds effectiveAt RFloor) (\<lambda>at. Inr (prorate delta start stop at)))))"

record admit_input =
  ai_planSku :: "PlanSku option"
  ai_planActive :: bool
  ai_paymentIssue :: bool
  ai_upgradePending :: bool
  ai_size :: SizeCode
  ai_usedStdSeconds :: int
  ai_allowanceStdSeconds :: int
  ai_overage :: "overage_setting option"
  ai_runningComputers :: int
  ai_now :: jsdate

text \<open>The overage headroom in standard seconds: only for an offer with overage that is switched on,
  and never above the platform ceiling.\<close>

definition overage_on :: "plan_offer \<Rightarrow> overage_setting option \<Rightarrow> bool" where
  "overage_on offer overage \<longleftrightarrow>
     po_overage offer \<noteq> None \<and> (case overage of None \<Rightarrow> False | Some o' \<Rightarrow> ov_enabled o')"

definition overage_seconds :: "plan_offer \<Rightarrow> overage_setting option \<Rightarrow> int" where
  "overage_seconds offer overage =
     (let capCents = max 0 (min (case overage of None \<Rightarrow> 0 | Some o' \<Rightarrow> ov_capCents o') OVERAGE_MAX_CAP_CENTS)
      in if overage_on offer overage then capCents * STD_SECONDS_PER_OVERAGE_CENT else 0)"

definition headroom :: "plan_offer \<Rightarrow> admit_input \<Rightarrow> int" where
  "headroom offer i =
     max 0 (ai_allowanceStdSeconds i + overage_seconds offer (ai_overage i) - ai_usedStdSeconds i)"

definition admitStart :: "admit_input \<Rightarrow> AdmitDecision res" where
  "admitStart i =
     (case ai_planSku i of
        None \<Rightarrow> Inr (Refuse No_plan)
      | Some sku \<Rightarrow>
          if \<not> ai_planActive i then Inr (Refuse No_plan)
          else if ai_paymentIssue i then Inr (Refuse Payment_issue)
          else if ai_upgradePending i then Inr (Refuse Upgrade_pending)
          else let offer = CATALOG_V2 sku in
            if ai_size i \<notin> set (po_sizes offer) then Inr (Refuse Size_not_allowed)
            else if ai_runningComputers i \<ge> po_maxConcurrentComputers offer then Inr (Refuse Concurrent_limit)
            else let weight = size_weight (ai_size i);
                     maxActual = headroom offer i div weight in
              if maxActual < MIN_START_ACTUAL_SECONDS
              then Inr (Refuse (if overage_on offer (ai_overage i) then Overage_cap_reached
                                else Allowance_exhausted))
              else let maxRunSeconds = min SESSION_MAX_SECONDS maxActual in
                rbind (epochSeconds (ai_now i) RFloor) (\<lambda>now.
                rbind (isoSeconds (now + maxRunSeconds)) (\<lambda>deadline.
                  Inr (Admit \<lparr>ad_size = ai_size i, ad_weight = weight,
                              ad_maxRunSeconds = maxRunSeconds, ad_deadline = deadline\<rparr>))))"

subsection \<open>Lemmas: one epoch\<close>

lemma epoch_span_nonneg [simp]: "0 \<le> epoch_span cap start stop ready ended"
  by (simp add: epoch_span_def Let_def)

lemma epoch_span_le_cap: "0 \<le> s \<Longrightarrow> epoch_span (Some s) start stop ready ended \<le> s"
  by (auto simp: epoch_span_def Let_def)

lemma epoch_span_le_window: "epoch_span cap start stop ready ended \<le> max 0 (stop - start)"
  by (auto simp: epoch_span_def Let_def)

lemma interval_split:
  fixes a b c r t :: int
  assumes "a \<le> b" and "b \<le> c"
  shows "max 0 (min t c - max r a) = max 0 (min t b - max r a) + max 0 (min t c - max r b)"
  using assms by (cases "t \<le> b"; cases "r \<le> b") (auto simp: max_def min_def)

lemma epoch_span_split:
  "a \<le> b \<Longrightarrow> b \<le> c \<Longrightarrow> epoch_span cap a c r t = epoch_span cap a b r t + epoch_span cap b c r t"
  by (auto simp: epoch_span_def Let_def split: option.splits intro!: interval_split)

lemma epoch_span_mono_stop: "b \<le> c \<Longrightarrow> epoch_span cap a b r t \<le> epoch_span cap a c r t"
  by (auto simp: epoch_span_def Let_def split: option.splits)

text \<open>An epoch is ratable when its weight is its size's and its instants are valid; its span then
  is a number.\<close>

definition ratable :: "('a compute_epoch_scheme) \<Rightarrow> bool" where
  "ratable e \<longleftrightarrow> ce_weight e = size_weight (ce_size e) \<and> ce_readyAt e \<noteq> None \<and> ce_endedAt e \<noteq> Some None"

definition ready_s :: "('a compute_epoch_scheme) \<Rightarrow> int" where
  "ready_s e = (case ce_readyAt e of None \<Rightarrow> 0 | Some ms \<Rightarrow> ceil_div ms 1000)"

definition ended_s :: "int \<Rightarrow> ('a compute_epoch_scheme) \<Rightarrow> int" where
  "ended_s current e = (case ce_endedAt e of Some (Some ms) \<Rightarrow> ms div 1000 | _ \<Rightarrow> current)"

definition std_span :: "int option \<Rightarrow> int \<Rightarrow> int \<Rightarrow> int \<Rightarrow> ('a compute_epoch_scheme) \<Rightarrow> int" where
  "std_span cap start stop current e =
     epoch_span cap start stop (ready_s e) (ended_s current e) * size_weight (ce_size e)"

lemma std_span_nonneg [simp]: "0 \<le> std_span cap start stop current e"
  by (simp add: std_span_def less_imp_le)

lemma rate_loop_Cons:
  assumes "ratable e"
  shows "rate_loop cap al start stop cur (e # es) u =
     (let weight = size_weight (ce_size e);
          span = epoch_span cap start stop (ready_s e) (ended_s cur e);
          actual = (case cap of None \<Rightarrow> min (max 0 (al - wu_stdSeconds u) div weight) span | Some _ \<Rightarrow> span)
      in rate_loop cap al start stop cur es
           (if actual = 0 then u
            else u\<lparr>wu_actualSecondsBySize := add_actual (wu_actualSecondsBySize u) (ce_size e) actual,
                   wu_stdSeconds := wu_stdSeconds u + actual * weight\<rparr>))"
proof -
  obtain r where r: "ce_readyAt e = Some r" using assms by (auto simp: ratable_def)
  have w: "ce_weight e = size_weight (ce_size e)" using assms by (simp add: ratable_def)
  show ?thesis
  proof (cases "ce_endedAt e")
    case None
    then show ?thesis using r w by (simp add: ready_s_def ended_s_def Let_def)
  next
    case (Some d)
    then obtain t where "ce_endedAt e = Some (Some t)" using assms by (cases d) (auto simp: ratable_def)
    then show ?thesis using r w by (simp add: ready_s_def ended_s_def Let_def)
  qed
qed

lemma rate_loop_ratable: "rate_loop cap al start stop cur es u = Inr u' \<Longrightarrow> \<forall>e \<in> set es. ratable e"
proof (induction es arbitrary: u)
  case Nil
  then show ?case by simp
next
  case (Cons e es)
  then show ?case
    by (cases "ce_readyAt e"; cases "ce_endedAt e") (fastforce simp: ratable_def Let_def split: if_splits)+
qed

lemma rate_loop_total: "\<forall>e \<in> set es. ratable e \<Longrightarrow> \<exists>u'. rate_loop cap al start stop cur es u = Inr u'"
  by (induction es arbitrary: u) (auto simp: rate_loop_Cons Let_def simp del: rate_loop.simps(2))

text \<open>With a session bound the total is the sum of the epochs' spans.\<close>

lemma rate_loop_capped_sum:
  assumes "\<forall>e \<in> set es. ratable e"
  shows "\<exists>u'. rate_loop (Some s) al start stop cur es u = Inr u' \<and>
     wu_stdSeconds u' = wu_stdSeconds u + sum_list (map (std_span (Some s) start stop cur) es)"
  using assms
proof (induction es arbitrary: u)
  case Nil
  then show ?case by simp
next
  case (Cons e es)
  let ?span = "epoch_span (Some s) start stop (ready_s e) (ended_s cur e)"
  let ?u = "if ?span = 0 then u
            else u\<lparr>wu_actualSecondsBySize := add_actual (wu_actualSecondsBySize u) (ce_size e) ?span,
                   wu_stdSeconds := wu_stdSeconds u + ?span * size_weight (ce_size e)\<rparr>"
  have "wu_stdSeconds ?u = wu_stdSeconds u + std_span (Some s) start stop cur e"
    by (simp add: std_span_def)
  with Cons.IH [of ?u] Cons.prems show ?case
    by (auto simp: rate_loop_Cons Let_def add.assoc simp del: rate_loop.simps(2))
qed

lemma rate_loop_actual_total:
  assumes "rate_loop cap al start stop cur es u = Inr u'"
    and "wu_stdSeconds u = (\<Sum>c \<leftarrow> all_sizes. size_weight c * (case wu_actualSecondsBySize u c of None \<Rightarrow> 0 | Some n \<Rightarrow> n))"
  shows "wu_stdSeconds u' = (\<Sum>c \<leftarrow> all_sizes. size_weight c * (case wu_actualSecondsBySize u' c of None \<Rightarrow> 0 | Some n \<Rightarrow> n))"
  using assms
proof (induction es arbitrary: u)
  case Nil
  then show ?case by simp
next
  case (Cons e es)
  have r: "ratable e" using rate_loop_ratable [OF Cons.prems(1)] by simp
  have step: "wu_stdSeconds v + n * size_weight c =
      (\<Sum>d \<leftarrow> all_sizes. size_weight d * (case add_actual (wu_actualSecondsBySize v) c n d of None \<Rightarrow> 0 | Some n \<Rightarrow> n))"
    if "wu_stdSeconds v = (\<Sum>d \<leftarrow> all_sizes. size_weight d * (case wu_actualSecondsBySize v d of None \<Rightarrow> 0 | Some n \<Rightarrow> n))"
    for v :: window_usage and n c
    using that by (cases c) (auto simp: all_sizes_def add_actual_def split: option.splits)
  show ?case
    by (rule Cons.IH [OF Cons.prems(1) [unfolded rate_loop_Cons [OF r] Let_def]])
      (use Cons.prems(2) step [OF Cons.prems(2)] in simp)
qed

text \<open>Without a session bound the running total never passes the fair-use allowance.\<close>

lemma rate_loop_uncapped_le:
  assumes "rate_loop None al start stop cur es u = Inr u'" and "wu_stdSeconds u \<le> al"
  shows "wu_stdSeconds u \<le> wu_stdSeconds u' \<and> wu_stdSeconds u' \<le> al"
  using assms
proof (induction es arbitrary: u)
  case Nil
  then show ?case by simp
next
  case (Cons e es)
  have r: "ratable e" using rate_loop_ratable [OF Cons.prems(1)] by simp
  let ?w = "size_weight (ce_size e)"
  let ?a = "min (max 0 (al - wu_stdSeconds u) div ?w) (epoch_span None start stop (ready_s e) (ended_s cur e))"
  have a0: "0 \<le> ?a" by (simp add: pos_imp_zdiv_nonneg_iff)
  have "?a * ?w \<le> max 0 (al - wu_stdSeconds u) div ?w * ?w"
    by (intro mult_right_mono) (auto simp: less_imp_le)
  also have "\<dots> \<le> al - wu_stdSeconds u"
    using div_mult_le_int [of ?w "al - wu_stdSeconds u"] Cons.prems(2) by simp
  finally have le: "wu_stdSeconds u + ?a * ?w \<le> al" by simp
  let ?u = "if ?a = 0 then u
            else u\<lparr>wu_actualSecondsBySize := add_actual (wu_actualSecondsBySize u) (ce_size e) ?a,
                   wu_stdSeconds := wu_stdSeconds u + ?a * ?w\<rparr>"
  have u: "wu_stdSeconds ?u = wu_stdSeconds u + ?a * ?w" by simp
  have "rate_loop None al start stop cur es ?u = Inr u'"
    using Cons.prems(1) by (simp add: rate_loop_Cons [OF r] Let_def del: rate_loop.simps(2))
  from Cons.IH [OF this] u le have "wu_stdSeconds ?u \<le> wu_stdSeconds u' \<and> wu_stdSeconds u' \<le> al" by simp
  moreover have "0 \<le> ?a * ?w" using a0 by (simp add: less_imp_le)
  ultimately show ?case using u by linarith
qed

subsection \<open>Lemmas: the whole window\<close>

definition session_bound :: "int option option \<Rightarrow> int option" where
  "session_bound sessionMax = (case sessionMax of None \<Rightarrow> Some SESSION_MAX_SECONDS | Some c \<Rightarrow> c)"

lemma sort_key_set_sum: "sum_list (map f (sort_key k xs)) = sum_list (map f xs)"
  for f :: "'a \<Rightarrow> int"
  by (rule sum_list_perm) simp

lemma rateWindow_Inr_ratable: "rateWindow es w now sm al = Inr u \<Longrightarrow> \<forall>e \<in> set es. ratable e"
  by (auto simp: rateWindow_def Let_def split: if_splits dest!: rate_loop_ratable)

lemma rateWindow_Inr_dates:
  "rateWindow es w now sm al = Inr u \<Longrightarrow> \<exists>a b n. w_start w = Some a \<and> w_end w = Some b \<and> now = Some n"
  by (auto simp: rateWindow_def Let_def split: if_splits dest!: epochSeconds_Inr)

lemma rateWindow_sum:
  assumes "\<forall>e \<in> set es. ratable e" and s: "session_bound sm = Some s"
  shows "\<exists>u. rateWindow es \<lparr>w_start = Some a, w_end = Some b\<rparr> (Some n) sm al = Inr u \<and>
    wu_stdSeconds u = sum_list (map (std_span (Some s) (a div 1000) (b div 1000) (n div 1000)) es)"
  using rate_loop_capped_sum [of "sort_key ready_key es" s _ "a div 1000" "b div 1000" "n div 1000" empty_usage] assms
  by (auto simp: rateWindow_def Let_def session_bound_def sort_key_set_sum empty_usage_def split: option.splits)

lemma rateWindow_sumD:
  assumes "rateWindow es \<lparr>w_start = Some a, w_end = Some b\<rparr> (Some n) sm al = Inr u"
    and "session_bound sm = Some s"
  shows "wu_stdSeconds u = sum_list (map (std_span (Some s) (a div 1000) (b div 1000) (n div 1000)) es)"
  using rateWindow_sum [OF rateWindow_Inr_ratable [OF assms(1)] assms(2), of a b n al] assms(1) by auto

lemma prorate_bounds:
  assumes "0 \<le> delta" and "start < stop"
  shows "0 \<le> prorate delta start stop at \<and> prorate delta start stop at \<le> delta"
proof -
  let ?r = "min (stop - start) (max 0 (stop - at))"
  have "delta * ?r div (stop - start) \<le> delta * (stop - start) div (stop - start)"
    using assms by (intro zdiv_mono1 mult_left_mono) auto
  then show ?thesis
    using assms by (auto simp: prorate_def Let_def pos_imp_zdiv_nonneg_iff)
qed

lemma prorate_antimono:
  assumes "at \<le> at'" and "0 \<le> delta" and "start < stop"
  shows "prorate delta start stop at' \<le> prorate delta start stop at"
  unfolding prorate_def Let_def using assms by (intro zdiv_mono1 mult_left_mono) auto

lemma prorate_zero [simp]: "prorate 0 start stop at = 0"
  by (simp add: prorate_def Let_def)

lemma prorate_full: "at \<le> start \<Longrightarrow> start < stop \<Longrightarrow> prorate delta start stop at = delta"
  by (simp add: prorate_def Let_def)

lemma prorate_none: "stop \<le> at \<Longrightarrow> prorate delta start stop at = 0" if "start < stop" for start
  using that by (simp add: prorate_def Let_def)

lemma prorate_floor:
  assumes "start \<le> at" and "at \<le> stop" and "start < stop"
  shows "prorate delta start stop at * (stop - start) \<le> delta * (stop - at) \<and>
    delta * (stop - at) < (prorate delta start stop at + 1) * (stop - start)"
proof -
  have p: "prorate delta start stop at = delta * (stop - at) div (stop - start)"
    using assms by (simp add: prorate_def Let_def min_def)
  have "x div y * y \<le> x \<and> x < (x div y + 1) * y" if "0 < y" for x y :: int
    using div_mult_le_int [OF that, of x] pos_mod_bound [OF that, of x] minus_mod_eq_div_mult [of x y]
    by (simp add: distrib_right)
  then show ?thesis unfolding p using assms by simp
qed

subsection \<open>Properties\<close>


definition demo_epoch :: "SizeCode \<Rightarrow> int \<Rightarrow> int option \<Rightarrow> compute_epoch" where
  "demo_epoch sz ready stop = \<lparr>ce_id = ''e'', ce_userId = ''u'', ce_computerId = ''c'', ce_size = sz,
     ce_weight = size_weight sz, ce_readyAt = Some ready, ce_endedAt = map_option Some stop,
     ce_endReason = None, ce_overheadSeconds = 0\<rparr>"

lemmas rate_eval = rateWindow_def rate_loop.simps epoch_span_def Let_def billing_consts ready_key_def
  empty_usage_def add_actual_def demo_epoch_def ceil_div_def



text \<open>A session can never be billed past its bound, and usage never exceeds the window: with a
  session bound of \<open>s\<close> seconds the standard seconds of a window are at most, per epoch, its weight
  times the smaller of \<open>s\<close> and the window's length, so a missed stop (an open epoch) costs at most one
  bounded session. Without a bound, usage is at most the fair-use allowance.\<close>

lemma rate_window_bounded:
  assumes "rateWindow es \<lparr>w_start = Some a, w_end = Some b\<rparr> (Some n) sm al = Inr u"
  shows "0 \<le> wu_stdSeconds u \<and>
    (case session_bound sm of
       Some s \<Rightarrow> 0 \<le> s \<longrightarrow> wu_stdSeconds u \<le>
         (\<Sum>e \<leftarrow> es. min s (max 0 (b div 1000 - a div 1000)) * size_weight (ce_size e))
     | None \<Rightarrow> (\<exists>k. al = Some k \<and> wu_stdSeconds u \<le> k))"
proof (cases "session_bound sm")
  case None
  then have "sm = Some None" by (cases sm) (auto simp: session_bound_def)
  then obtain k where "al = Some k" "0 \<le> k"
      "rate_loop None k (a div 1000) (b div 1000) (n div 1000) (sort_key ready_key es) empty_usage = Inr u"
    using assms by (auto simp: rateWindow_def Let_def split: if_splits option.splits)
  with rate_loop_uncapped_le [OF this(3)] None show ?thesis by (auto simp: empty_usage_def)
next
  case (Some s)
  have sum: "wu_stdSeconds u = sum_list (map (std_span (Some s) (a div 1000) (b div 1000) (n div 1000)) es)"
    by (rule rateWindow_sumD [OF assms Some])
  have le: "std_span (Some s) (a div 1000) (b div 1000) (n div 1000) e
      \<le> min s (max 0 (b div 1000 - a div 1000)) * size_weight (ce_size e)" if "0 \<le> s" for e :: "'a compute_epoch_scheme"
    unfolding std_span_def
    using epoch_span_le_cap [OF that] epoch_span_le_window
    by (intro mult_right_mono min.boundedI) (auto simp: less_imp_le)
  show ?thesis
    using Some sum sum_list_map_nonneg [of es "std_span (Some s) (a div 1000) (b div 1000) (n div 1000)"]
      sum_list_map_mono [OF le] by auto
qed

lemma rate_window_bounded_witness:
  "\<exists>u. rateWindow [demo_epoch Cmp_8 0 None] \<lparr>w_start = Some 0, w_end = Some 90000000\<rparr> (Some 80000000) None None
      = Inr u \<and> wu_stdSeconds u = 86400 \<and> wu_stdSeconds u \<le> min 21600 90000 * 4"
proof -
  have "\<exists>u. rateWindow [demo_epoch Cmp_8 0 None] \<lparr>w_start = Some 0, w_end = Some 90000000\<rparr> (Some 80000000) None None
      = Inr u \<and> wu_stdSeconds u = 86400"
    by (simp add: rate_eval)
  then show ?thesis
    using rate_window_bounded [of "[demo_epoch Cmp_8 0 None]" 0 90000000 80000000 None None]
    by (auto simp: session_bound_def billing_consts demo_epoch_def)
qed

text \<open>The reported totals agree and do not depend on the order of the rows: the standard seconds are
  the sum over the sizes of the actual seconds times the size's weight, and under a session bound any
  permutation of the epochs is rated the same.\<close>

lemma rate_window_totals:
  assumes "rateWindow es w now sm al = Inr u"
  shows "wu_stdSeconds u =
      (\<Sum>c \<leftarrow> all_sizes. size_weight c * (case wu_actualSecondsBySize u c of None \<Rightarrow> 0 | Some n \<Rightarrow> n)) \<and>
    (sm \<noteq> Some None \<longrightarrow> mset es' = mset es \<longrightarrow>
       (\<exists>u'. rateWindow es' w now sm al = Inr u' \<and> wu_stdSeconds u' = wu_stdSeconds u))"
proof (intro conjI impI)
  obtain cap k x y z where "rate_loop cap k x y z (sort_key ready_key es) empty_usage = Inr u"
    using assms by (auto simp: rateWindow_def Let_def split: if_splits)
  then show "wu_stdSeconds u =
      (\<Sum>c \<leftarrow> all_sizes. size_weight c * (case wu_actualSecondsBySize u c of None \<Rightarrow> 0 | Some n \<Rightarrow> n))"
    by (rule rate_loop_actual_total) (simp add: empty_usage_def all_sizes_def)
next
  assume "sm \<noteq> Some None" and m: "mset es' = mset es"
  then obtain s where s: "session_bound sm = Some s" by (cases sm) (auto simp: session_bound_def)
  obtain a b n where d: "w = \<lparr>w_start = Some a, w_end = Some b\<rparr>" "now = Some n"
    using rateWindow_Inr_dates [OF assms] by (cases w) auto
  have "\<forall>e \<in> set es'. ratable e" using rateWindow_Inr_ratable [OF assms] mset_eq_setD [OF m] by simp
  from rateWindow_sum [OF this s, of a b n al] obtain u' where
    "rateWindow es' w now sm al = Inr u'"
    "wu_stdSeconds u' = sum_list (map (std_span (Some s) (a div 1000) (b div 1000) (n div 1000)) es')"
    unfolding d by auto
  then show "\<exists>u'. rateWindow es' w now sm al = Inr u' \<and> wu_stdSeconds u' = wu_stdSeconds u"
    using rateWindow_sumD [OF assms [unfolded d] s] sum_list_perm [OF m] by metis
qed

lemma rate_window_totals_witness:
  "\<exists>u u'. rateWindow [demo_epoch Std_2 0 (Some 60000), demo_epoch Cmp_4 70000 (Some 80000)]
       \<lparr>w_start = Some 0, w_end = Some 90000000\<rparr> (Some 80000000) None None = Inr u \<and>
     rateWindow [demo_epoch Cmp_4 70000 (Some 80000), demo_epoch Std_2 0 (Some 60000)]
       \<lparr>w_start = Some 0, w_end = Some 90000000\<rparr> (Some 80000000) None None = Inr u' \<and>
     wu_stdSeconds u' = wu_stdSeconds u \<and> wu_stdSeconds u = 80"
proof -
  have "\<exists>u. rateWindow [demo_epoch Std_2 0 (Some 60000), demo_epoch Cmp_4 70000 (Some 80000)]
       \<lparr>w_start = Some 0, w_end = Some 90000000\<rparr> (Some 80000000) None None = Inr u \<and> wu_stdSeconds u = 80"
    by (simp add: rate_eval)
  then show ?thesis
    using rate_window_totals [of "[demo_epoch Std_2 0 (Some 60000), demo_epoch Cmp_4 70000 (Some 80000)]"
        "\<lparr>w_start = Some 0, w_end = Some 90000000\<rparr>" "Some 80000000" None None _
        "[demo_epoch Cmp_4 70000 (Some 80000), demo_epoch Std_2 0 (Some 60000)]"]
    by (auto simp: add_mset_commute)
qed


text \<open>C30: what the rating of a period reports is conserved: used plus remaining is allowance plus over, at
  most one of remaining and over is positive, the cents are the overage rounded down, and what is billed
  is never more than that, is nothing without consent, and never passes a nonnegative cap.\<close>

theorem rate_period_conserves:
  "let p = ratePeriod used allowance overage in
     used + pr_remainingStdSeconds p = allowance + pr_overStdSeconds p \<and>
     min (pr_remainingStdSeconds p) (pr_overStdSeconds p) = 0 \<and>
     0 \<le> pr_overStdSeconds p - 144 * pr_overageCents p \<and> pr_overStdSeconds p - 144 * pr_overageCents p < 144 \<and>
     pr_billableOverageCents p \<le> pr_overageCents p \<and>
     (overage = None \<or> overage = Some \<lparr>ov_enabled = False, ov_capCents = cap\<rparr> \<longrightarrow> pr_billableOverageCents p = 0) \<and>
     (overage = Some \<lparr>ov_enabled = True, ov_capCents = cap\<rparr> \<and> 0 \<le> cap \<longrightarrow>
        0 \<le> pr_billableOverageCents p \<and> pr_billableOverageCents p \<le> cap)"
  by (auto simp: ratePeriod_def Let_def billing_consts minus_mult_div_eq_mod pos_imp_zdiv_nonneg_iff
      split: option.splits)

theorem rate_period_conserves_witness:
  "pr_billableOverageCents (ratePeriod 40000 21600 (Some \<lparr>ov_enabled = True, ov_capCents = 100\<rparr>)) = 100"
  using rate_period_conserves [of 40000 21600 "Some \<lparr>ov_enabled = True, ov_capCents = 100\<rparr>" 100]
  by (simp add: ratePeriod_def billing_consts)

text \<open>C27: the start gate is sound: an admitted session is of a size the plan offers, no other computer of
  the plan runs, it lasts from one minute to the session bound, its deadline is that many seconds after
  now, and running it to the end keeps usage within the allowance plus the capped overage.\<close>

theorem admit_start_sound:
  assumes "admitStart i = Inr (Admit d)"
  shows "\<exists>sku now. ai_planSku i = Some sku \<and> ai_planActive i \<and> \<not> ai_paymentIssue i \<and> \<not> ai_upgradePending i \<and>
     ad_size d = ai_size i \<and> ai_size i \<in> set (po_sizes (CATALOG_V2 sku)) \<and>
     ai_runningComputers i < po_maxConcurrentComputers (CATALOG_V2 sku) \<and>
     60 \<le> ad_maxRunSeconds d \<and> ad_maxRunSeconds d \<le> 21600 \<and>
     ai_now i = Some now \<and> ad_deadline d = Some ((now div 1000 + ad_maxRunSeconds d) * 1000) \<and>
     ad_weight d = size_weight (ad_size d) \<and>
     ai_usedStdSeconds i + ad_maxRunSeconds d * ad_weight d
       \<le> ai_allowanceStdSeconds i + overage_seconds (CATALOG_V2 sku) (ai_overage i)"
proof -
  obtain sku where sku: "ai_planSku i = Some sku"
    using assms by (cases "ai_planSku i") (auto simp: admitStart_def)
  let ?h = "headroom (CATALOG_V2 sku) i" and ?w = "size_weight (ai_size i)"
  have d: "60 \<le> ?h div ?w" "ad_maxRunSeconds d = min 21600 (?h div ?w)" "ad_size d = ai_size i" "ad_weight d = ?w"
    "\<exists>now. ai_now i = Some now \<and> ad_deadline d = Some ((now div 1000 + ad_maxRunSeconds d) * 1000)"
    using assms sku epochSeconds_Inr [of "ai_now i" RFloor]
    by (auto simp: admitStart_def Let_def billing_consts isoSeconds_Inr split: if_splits)
  have "ad_maxRunSeconds d * ?w \<le> ?h div ?w * ?w"
    unfolding d by (intro mult_right_mono) (auto simp: less_imp_le)
  also have "\<dots> \<le> ?h" by (rule div_mult_le_int) simp
  finally have le: "ad_maxRunSeconds d * ?w \<le> ?h" .
  moreover have "0 < ?h div ?w" using d(1) by linarith
  then have "0 < ?h" using pos_imp_zdiv_pos_iff [of ?w ?h] size_weight_bounds [of "ai_size i"] by force
  ultimately show ?thesis
    using assms sku d
    by (auto simp: headroom_def admitStart_def Let_def split: if_splits)
qed

definition demo_admit :: admit_input where
  "demo_admit = \<lparr>ai_planSku = Some Compute_monthly_v2, ai_planActive = True, ai_paymentIssue = False,
     ai_upgradePending = False, ai_size = Cmp_8, ai_usedStdSeconds = 1799500, ai_allowanceStdSeconds = 1800000,
     ai_overage = Some \<lparr>ov_enabled = True, ov_capCents = 20\<rparr>, ai_runningComputers = 0, ai_now = Some 1000000\<rparr>"

lemma demo_admit_eval: "admitStart demo_admit = Inr (Admit \<lparr>ad_size = Cmp_8, ad_weight = 4,
    ad_maxRunSeconds = 845, ad_deadline = Some 1845000\<rparr>)"
  by (simp add: admitStart_def demo_admit_def Let_def headroom_def overage_seconds_def overage_on_def
      OVERAGE_V2_def billing_consts iso_range_def)

theorem admit_start_sound_witness:
  "\<exists>d. admitStart demo_admit = Inr (Admit d) \<and> 1799500 + ad_maxRunSeconds d * ad_weight d \<le> 1800000 + 2880"
proof -
  have "ai_usedStdSeconds demo_admit + 845 * 4 \<le> ai_allowanceStdSeconds demo_admit + 2880"
    using admit_start_sound [OF demo_admit_eval]
    by (auto simp: demo_admit_def overage_seconds_def overage_on_def OVERAGE_V2_def billing_consts Let_def)
  then show ?thesis using demo_admit_eval by (auto simp: demo_admit_def)
qed


text \<open>The start gate refuses for exactly its documented reasons, in the order of its checks; in
  particular an active, paid plan with an allowed size and no running computer is refused only when the
  headroom is less than one minute at the size's weight.\<close>

lemma admit_start_refusals:
  assumes "admitStart i = Inr (Refuse r)"
  shows "case r of
      No_plan \<Rightarrow> ai_planSku i = None \<or> \<not> ai_planActive i
    | Payment_issue \<Rightarrow> ai_planActive i \<and> ai_paymentIssue i
    | Upgrade_pending \<Rightarrow> \<not> ai_paymentIssue i \<and> ai_upgradePending i
    | Size_not_allowed \<Rightarrow> \<not> ai_upgradePending i \<and> (\<exists>sku. ai_planSku i = Some sku \<and> ai_size i \<notin> set (po_sizes (CATALOG_V2 sku)))
    | Concurrent_limit \<Rightarrow> (\<exists>sku. ai_planSku i = Some sku \<and> ai_size i \<in> set (po_sizes (CATALOG_V2 sku))) \<and> 1 \<le> ai_runningComputers i
    | _ \<Rightarrow> ai_runningComputers i < 1 \<and> (\<exists>sku. ai_planSku i = Some sku \<and>
          overage_on (CATALOG_V2 sku) (ai_overage i) = (r = Overage_cap_reached) \<and>
          headroom (CATALOG_V2 sku) i < 60 * size_weight (ai_size i))"
proof -
  have max1: "po_maxConcurrentComputers (CATALOG_V2 sku) = 1" for sku by (cases sku) auto
  have lt: "h div size_weight c < 60 \<Longrightarrow> h < 60 * size_weight c" for h c
    by (cases c) auto
  show ?thesis
    using assms
    by (cases "ai_planSku i") (auto simp: admitStart_def Let_def max1 billing_consts dest!: lt split: if_splits)
qed

lemma admit_start_refusals_witness:
  "admitStart (demo_admit\<lparr>ai_usedStdSeconds := 1802700\<rparr>) = Inr (Refuse Overage_cap_reached) \<and>
   headroom (CATALOG_V2 Compute_monthly_v2) (demo_admit\<lparr>ai_usedStdSeconds := 1802700\<rparr>) < 240"
proof -
  have e: "admitStart (demo_admit\<lparr>ai_usedStdSeconds := 1802700\<rparr>) = Inr (Refuse Overage_cap_reached)"
    by (simp add: admitStart_def demo_admit_def Let_def headroom_def overage_seconds_def overage_on_def
        OVERAGE_V2_def billing_consts)
  show ?thesis using admit_start_refusals [OF e] e by (auto simp: demo_admit_def)
qed

text \<open>C28: admission and rating agree: when the usage the gate reads is the rated usage of closed epochs,
  and the admitted computer runs from now until at most its deadline, the next rating of the same window
  stays within the allowance plus the capped overage, and the overage it bills stays within the cap.\<close>

theorem admitted_session_within_plan:
  assumes adm: "admitStart i = Inr (Admit d)" and sku: "ai_planSku i = Some sku"
    and used: "rateWindow es \<lparr>w_start = Some a, w_end = Some b\<rparr> (ai_now i) None None = Inr u"
    and "ai_usedStdSeconds i = wu_stdSeconds u" and closed: "\<forall>e \<in> set es. ce_endedAt e \<noteq> None"
    and e: "ce_size e = ad_size d" "ce_weight e = ad_weight d" "ce_readyAt e = ai_now i"
      "ce_endedAt e = Some (Some t)" "ad_deadline d = Some dl" "t \<le> dl"
  shows "\<exists>u'. rateWindow (e # es) \<lparr>w_start = Some a, w_end = Some b\<rparr> (Some later) None None = Inr u' \<and>
     wu_stdSeconds u' \<le> ai_allowanceStdSeconds i + overage_seconds (CATALOG_V2 sku) (ai_overage i) \<and>
     pr_overageCents (ratePeriod (wu_stdSeconds u') (ai_allowanceStdSeconds i) (ai_overage i)) * 144
       \<le> overage_seconds (CATALOG_V2 sku) (ai_overage i)"
proof -
  obtain now where now: "ai_now i = Some now" "dl = (now div 1000 + ad_maxRunSeconds d) * 1000"
    "ad_weight d = size_weight (ad_size d)"
    "ai_usedStdSeconds i + ad_maxRunSeconds d * ad_weight d
       \<le> ai_allowanceStdSeconds i + overage_seconds (CATALOG_V2 sku) (ai_overage i)" "0 \<le> ad_maxRunSeconds d"
    using admit_start_sound [OF adm] sku e by auto
  have b: "session_bound None = Some 21600" by (simp add: session_bound_def billing_consts)
  let ?std = "std_span (Some 21600) (a div 1000) (b div 1000)"
  have rat: "\<forall>x \<in> set (e # es). ratable x"
    using rateWindow_Inr_ratable [OF used] e now by (auto simp: ratable_def)
  have old: "map (?std (later div 1000)) es = map (?std (now div 1000)) es"
    using closed rat by (auto simp: std_span_def ended_s_def ratable_def split: option.splits)
  have "t div 1000 \<le> now div 1000 + ad_maxRunSeconds d"
    using e(6) now(2) by (simp add: zdiv_mono1 [of t dl 1000, simplified])
  moreover have "now div 1000 \<le> ready_s e" using e(3) now(1) by (simp add: ready_s_def ceil_div_def)
  ultimately have "?std (later div 1000) e \<le> ad_maxRunSeconds d * ad_weight d"
    using e now(3,5) by (auto simp: std_span_def ended_s_def epoch_span_def Let_def intro!: mult_right_mono less_imp_le)
  moreover obtain u' where u': "rateWindow (e # es) \<lparr>w_start = Some a, w_end = Some b\<rparr> (Some later) None None = Inr u'"
    "wu_stdSeconds u' = ?std (later div 1000) e + sum_list (map (?std (now div 1000)) es)"
    using rateWindow_sum [OF rat b, of a b later None] old by auto
  ultimately have le: "wu_stdSeconds u' \<le> ai_allowanceStdSeconds i + overage_seconds (CATALOG_V2 sku) (ai_overage i)"
    using now(4) assms(4) rateWindow_sumD [OF used [unfolded now(1)] b] by linarith
  have "0 \<le> overage_seconds (CATALOG_V2 sku) (ai_overage i)"
    by (simp add: overage_seconds_def Let_def billing_consts)
  with le have "pr_overageCents (ratePeriod (wu_stdSeconds u') (ai_allowanceStdSeconds i) (ai_overage i)) * 144
       \<le> overage_seconds (CATALOG_V2 sku) (ai_overage i)"
    using div_mult_le_int [of 144 "wu_stdSeconds u' - ai_allowanceStdSeconds i"]
    by (auto simp: ratePeriod_def Let_def billing_consts max_def)
  with u' le show ?thesis by blast
qed

theorem admitted_session_within_plan_witness:
  "\<exists>u'. rateWindow [(demo_epoch Cmp_8 1000000 (Some 1845000)), demo_epoch Cmp_4 0 (Some 600000)]
      \<lparr>w_start = Some 0, w_end = Some 90000000\<rparr> (Some 5000000) None None = Inr u' \<and> wu_stdSeconds u' \<le> 1800000 + 2880"
proof -
  let ?i = "demo_admit\<lparr>ai_usedStdSeconds := 1200\<rparr>"
  have a: "admitStart ?i = Inr (Admit \<lparr>ad_size = Cmp_8, ad_weight = 4, ad_maxRunSeconds = 21600, ad_deadline = Some 22600000\<rparr>)"
    by (simp add: admitStart_def demo_admit_def Let_def headroom_def overage_seconds_def overage_on_def
        OVERAGE_V2_def billing_consts iso_range_def)
  have r: "\<exists>u. rateWindow [demo_epoch Cmp_4 0 (Some 600000)] \<lparr>w_start = Some 0, w_end = Some 90000000\<rparr>
      (ai_now ?i) None None = Inr u \<and> wu_stdSeconds u = 1200"
    by (simp add: rate_eval demo_admit_def)
  then obtain u where u: "rateWindow [demo_epoch Cmp_4 0 (Some 600000)] \<lparr>w_start = Some 0, w_end = Some 90000000\<rparr>
      (ai_now ?i) None None = Inr u" "wu_stdSeconds u = 1200" by auto
  show ?thesis
    using admitted_session_within_plan [OF a _ u(1), of Compute_monthly_v2 "demo_epoch Cmp_8 1000000 (Some 1845000)"
        1845000 22600000 5000000] u(2)
    by (auto simp: demo_admit_def demo_epoch_def overage_seconds_def overage_on_def OVERAGE_V2_def billing_consts Let_def)
qed

text \<open>An upgrade grant is the difference of the allowances prorated by the remaining time, rounded
  down: it is between nothing and the whole difference, whole when the upgrade takes effect at the
  period's start, nothing at its end, and never grows when the upgrade takes effect later.\<close>

lemma upgrade_grant_prorated:
  assumes "upgradeGrantStdSeconds fromSku toSku (Some s) (Some e) (Some t) = Inr g"
    and "upgradeGrantStdSeconds fromSku toSku (Some s) (Some e) (Some t') = Inr g'" and "t \<le> t'"
    and "delta = po_allowanceStdSeconds (CATALOG_V2 toSku) - po_allowanceStdSeconds (CATALOG_V2 fromSku)"
    and "0 \<le> delta" and "s div 1000 < e div 1000"
  shows "0 \<le> g \<and> g \<le> delta \<and> g' \<le> g \<and> (t \<le> s \<longrightarrow> g = delta) \<and> (e \<le> t \<longrightarrow> g = 0) \<and>
    (s \<le> t \<and> t \<le> e \<longrightarrow> g * (e div 1000 - s div 1000) \<le> delta * (e div 1000 - t div 1000) \<and>
       delta * (e div 1000 - t div 1000) < (g + 1) * (e div 1000 - s div 1000))"
proof -
  have g: "g = prorate delta (s div 1000) (e div 1000) (t div 1000)"
    "g' = prorate delta (s div 1000) (e div 1000) (t' div 1000)"
    using assms(1,2,4,5,6) by (auto simp: upgradeGrantStdSeconds_def Let_def split: if_splits)
  have m: "t div 1000 \<le> t' div 1000" using assms(3) by (simp add: zdiv_mono1)
  note b = prorate_bounds [OF assms(5,6), of "t div 1000"]
  show ?thesis
  proof (intro conjI impI)
    show "0 \<le> g" "g \<le> delta" using b by (simp_all only: g)
    show "g' \<le> g" unfolding g by (rule prorate_antimono [OF m assms(5,6)])
    show "g = delta" if "t \<le> s"
      unfolding g(1) using that by (intro prorate_full [OF _ assms(6)] zdiv_mono1) auto
    show "g = 0" if "e \<le> t"
      unfolding g(1) using that by (intro prorate_none [OF assms(6)] zdiv_mono1) auto
    assume "s \<le> t \<and> t \<le> e"
    then have "s div 1000 \<le> t div 1000" "t div 1000 \<le> e div 1000" by (simp_all add: zdiv_mono1)
    from prorate_floor [OF this assms(6), of delta]
    show "g * (e div 1000 - s div 1000) \<le> delta * (e div 1000 - t div 1000)"
      "delta * (e div 1000 - t div 1000) < (g + 1) * (e div 1000 - s div 1000)"
      by (simp_all only: g)
  qed
qed

lemma upgrade_grant_prorated_witness:
  "upgradeGrantStdSeconds Standard_monthly_v2 Compute_monthly_v2 (Some 0) (Some 2592000000) (Some 1296000000) = Inr 792000 \<and>
   upgradeGrantStdSeconds Standard_monthly_v2 Compute_monthly_v2 (Some 0) (Some 2592000000) (Some 1944000000) = Inr 396000 \<and>
   (396000 :: int) \<le> 792000 \<and> (792000 :: int) \<le> 1584000"
proof -
  have e: "upgradeGrantStdSeconds Standard_monthly_v2 Compute_monthly_v2 (Some 0) (Some 2592000000) (Some 1296000000) = Inr 792000"
    "upgradeGrantStdSeconds Standard_monthly_v2 Compute_monthly_v2 (Some 0) (Some 2592000000) (Some 1944000000) = Inr 396000"
    by (simp_all add: upgradeGrantStdSeconds_def prorate_def Let_def billing_consts)
  have d: "(1584000::int) = po_allowanceStdSeconds (CATALOG_V2 Compute_monthly_v2)
      - po_allowanceStdSeconds (CATALOG_V2 Standard_monthly_v2)"
    by (simp add: billing_consts)
  have "(396000::int) \<le> 792000 \<and> (792000::int) \<le> 1584000"
    using upgrade_grant_prorated [OF e _ d] by simp
  with e show ?thesis by simp
qed

end
