(* ===== verification/Catalog_V2.thy ===== *)
theory Catalog_V2
  imports Meters
begin

text \<open>
  Catalogue lookups and plan resolution of v2 (\<^verbatim>\<open>app/src/server/billing/v2/catalog.ts\<close>). The loop over
  subscription rows keeps the preferred current row and the preferred delinquent row; the preference
  between rows is an instance of the \<open>preference\<close> contract on the rows whose period start is a valid date.
\<close>

subsection \<open>Lookups\<close>

definition offerBySku :: "string \<Rightarrow> plan_offer option" where
  "offerBySku sku = map_option CATALOG_V2 (find (\<lambda>s. sku_string s = sku) all_skus)"

definition offerByLookupKey :: "string \<Rightarrow> plan_offer option" where
  "offerByLookupKey key = find (\<lambda>offer. po_stripeLookupKey offer = Some key) (map CATALOG_V2 all_skus)"

definition freeSkuFor :: "jsdate option \<Rightarrow> jsdate option \<Rightarrow> PlanSku" where
  "freeSkuFor userCreatedAt effectiveAt =
     (case (effectiveAt, userCreatedAt) of
        (Some (Some effective), Some (Some created)) \<Rightarrow> if created \<ge> effective then Free_v2 else Free_v1_legacy
      | _ \<Rightarrow> Free_v1_legacy)"

definition planStatusFromStripe :: "string \<Rightarrow> bool \<Rightarrow> PlanStatusV2 option" where
  "planStatusFromStripe status cancelAtPeriodEnd =
     (if status = ''active'' \<or> status = ''trialing'' then Some (if cancelAtPeriodEnd then St_cancels else St_active)
      else if status = ''past_due'' \<or> status = ''unpaid'' then Some St_past_due
      else if status = ''incomplete'' then Some St_incomplete
      else None)"

text \<open>The Free window of v2 renders both ends and throws where they cannot be rendered.\<close>

definition freeWindowV2 :: "jsdate \<Rightarrow> window res" where
  "freeWindowV2 now =
     (let w = freeWindow now in
      rbind (epochSeconds (w_start w) RFloor) (\<lambda>s. rbind (isoSeconds s) (\<lambda>si.
      rbind (epochSeconds (w_end w) RFloor) (\<lambda>e. rbind (isoSeconds e) (\<lambda>ei.
        Inr \<lparr>w_start = si, w_end = ei\<rparr>)))))"

subsection \<open>Plan resolution\<close>

record plan_candidate =
  ca_sub :: subscription_row
  ca_offer :: plan_offer
  ca_status :: PlanStatusV2
  ca_end :: xnum

record plan_resolution =
  pl_sku :: PlanSku
  pl_offer :: plan_offer
  pl_family :: PlanFamily
  pl_status :: PlanStatusV2
  pl_planActive :: bool
  pl_subscriptionId :: "string option"
  pl_window :: window
  pl_renewsAt :: "jsdate option"
  pl_cancelsAt :: "jsdate option"

text \<open>Latest period end, latest start, then the smaller subscription ID.\<close>

definition preferred :: "plan_candidate \<Rightarrow> plan_candidate \<Rightarrow> bool" where
  "preferred a b \<longleftrightarrow>
     (let sa = time_or_ninf (sub_periodStart (ca_sub a)); sb = time_or_ninf (sub_periodStart (ca_sub b)) in
      js_gt (ca_end a) (ca_end b) \<or>
      (js_eq (ca_end a) (ca_end b) \<and>
        (js_gt sa sb \<or> (js_eq sa sb \<and> sub_id (ca_sub a) < sub_id (ca_sub b)))))"

definition finite_or_ninf :: "jsdate option \<Rightarrow> xnum" where
  "finite_or_ninf d = (case d of Some (Some ms) \<Rightarrow> Num ms | _ \<Rightarrow> NInf)"

text \<open>The candidate of a row, or \<open>None\<close> where the loop continues.\<close>

definition candidate_of :: "subscription_row \<Rightarrow> plan_candidate option" where
  "candidate_of sub =
     (case (offerBySku (sub_sku sub), planStatusFromStripe (sub_status sub) (sub_cancelAtPeriodEnd sub)) of
        (Some offer, Some status) \<Rightarrow>
          if po_family offer = Fam_free then None
          else Some \<lparr>ca_sub = sub, ca_offer = offer, ca_status = status, ca_end = finite_or_ninf (sub_periodEnd sub)\<rparr>
      | _ \<Rightarrow> None)"

definition is_current_candidate :: "jsdate \<Rightarrow> plan_candidate \<Rightarrow> bool" where
  "is_current_candidate now c \<longleftrightarrow> (ca_status c = St_active \<or> ca_status c = St_cancels) \<and>
     js_between now (sub_periodStart (ca_sub c)) (sub_periodEnd (ca_sub c))"

definition is_delinquent_candidate :: "plan_candidate \<Rightarrow> bool" where
  "is_delinquent_candidate c \<longleftrightarrow> ca_status c = St_past_due \<or> ca_status c = St_incomplete"

fun select_loop :: "jsdate \<Rightarrow> plan_candidate option \<times> plan_candidate option \<Rightarrow> subscription_row list
    \<Rightarrow> plan_candidate option \<times> plan_candidate option" where
  "select_loop now (cur, dq) [] = (cur, dq)"
| "select_loop now (cur, dq) (sub # subs) =
     (case candidate_of sub of
        None \<Rightarrow> select_loop now (cur, dq) subs
      | Some c \<Rightarrow>
          if is_current_candidate now c
          then select_loop now (pick preferred cur [c], dq) subs
          else if is_delinquent_candidate c
          then select_loop now (cur, pick preferred dq [c]) subs
          else select_loop now (cur, dq) subs)"

definition iso_of :: "jsdate option \<Rightarrow> jsdate option res" where
  "iso_of d = (case d of Some (Some ms) \<Rightarrow> rbind (epochSeconds (Some ms) RFloor) (\<lambda>s. rbind (isoSeconds s) (\<lambda>i. Inr (Some i)))
                | _ \<Rightarrow> Inr None)"

text \<open>The result for a selected row; \<open>paid\<close> says that the row is the current one.\<close>

definition plan_of_candidate :: "jsdate \<Rightarrow> bool \<Rightarrow> bool \<Rightarrow> plan_candidate \<Rightarrow> plan_resolution res" where
  "plan_of_candidate now pendingUpgrade paid c =
     (let sub = ca_sub c; offer = ca_offer c in
      rbind (iso_of (sub_periodEnd sub)) (\<lambda>periodEnd.
      rbind (case (sub_periodStart sub, periodEnd) of
               (Some (Some ms), Some stop) \<Rightarrow>
                 rbind (epochSeconds (Some ms) RFloor) (\<lambda>s. rbind (isoSeconds s) (\<lambda>si.
                   Inr \<lparr>w_start = si, w_end = stop\<rparr>))
             | _ \<Rightarrow> freeWindowV2 now) (\<lambda>window.
        Inr \<lparr>pl_sku = po_sku offer, pl_offer = offer, pl_family = po_family offer,
             pl_status = (if paid \<and> pendingUpgrade then St_upgrade_pending else ca_status c),
             pl_planActive = paid, pl_subscriptionId = Some (sub_id sub), pl_window = window,
             pl_renewsAt = (if sub_cancelAtPeriodEnd sub then None else periodEnd),
             pl_cancelsAt = (if sub_cancelAtPeriodEnd sub then periodEnd else None)\<rparr>)))"

definition free_plan_of :: "jsdate \<Rightarrow> jsdate option \<Rightarrow> jsdate option \<Rightarrow> plan_resolution res" where
  "free_plan_of now userCreatedAt freeEffectiveAt =
     (let sku = freeSkuFor userCreatedAt freeEffectiveAt; offer = CATALOG_V2 sku in
      rbind (freeWindowV2 now) (\<lambda>window.
        Inr \<lparr>pl_sku = sku, pl_offer = offer, pl_family = po_family offer, pl_status = St_free,
             pl_planActive = True, pl_subscriptionId = None, pl_window = window,
             pl_renewsAt = None, pl_cancelsAt = None\<rparr>))"

definition planFromSubscriptions :: "subscription_row list \<Rightarrow> jsdate \<Rightarrow> jsdate option \<Rightarrow> bool \<Rightarrow> jsdate option
    \<Rightarrow> plan_resolution res" where
  "planFromSubscriptions subs now userCreatedAt pendingUpgrade freeEffectiveAt =
     (case select_loop now (None, None) subs of
        (Some c, _) \<Rightarrow> plan_of_candidate now pendingUpgrade True c
      | (None, Some c) \<Rightarrow> plan_of_candidate now pendingUpgrade False c
      | (None, None) \<Rightarrow> free_plan_of now userCreatedAt freeEffectiveAt)"

subsection \<open>Lemmas\<close>

lemma offerBySku_Some: "offerBySku sku = Some offer \<longleftrightarrow> sku = sku_string (po_sku offer) \<and> offer = CATALOG_V2 (po_sku offer)"
proof
  assume "offerBySku sku = Some offer"
  then obtain s where "find (\<lambda>s. sku_string s = sku) all_skus = Some s" "offer = CATALOG_V2 s"
    by (auto simp: offerBySku_def)
  then show "sku = sku_string (po_sku offer) \<and> offer = CATALOG_V2 (po_sku offer)"
    using find_Some_iff_first by fastforce
next
  assume "sku = sku_string (po_sku offer) \<and> offer = CATALOG_V2 (po_sku offer)"
  then show "offerBySku sku = Some offer"
    by (cases "po_sku offer") (simp_all add: offerBySku_def all_skus_def)
qed

lemma offerBySku_sku [simp]: "offerBySku (sku_string s) = Some (CATALOG_V2 s)"
  by (simp add: offerBySku_Some)

definition valid_start :: "plan_candidate \<Rightarrow> bool" where
  "valid_start c \<longleftrightarrow> sub_periodStart (ca_sub c) \<noteq> Some None \<and> ca_end c \<noteq> NaN"

lemma candidate_of_Some:
  "candidate_of sub = Some c \<Longrightarrow> ca_sub c = sub \<and> offerBySku (sub_sku sub) = Some (ca_offer c) \<and>
     po_family (ca_offer c) \<noteq> Fam_free \<and> planStatusFromStripe (sub_status sub) (sub_cancelAtPeriodEnd sub) = Some (ca_status c) \<and>
     ca_end c = finite_or_ninf (sub_periodEnd sub)"
  by (auto simp: candidate_of_def split: option.splits if_splits)

lemma js_eq_iff: "js_eq a b \<longleftrightarrow> a = b \<and> a \<noteq> NaN"
  by (cases a; cases b) auto

lemma time_or_ninf_NaN: "time_or_ninf d = NaN \<longleftrightarrow> d = Some None"
  by (auto simp: time_or_ninf_def js_num_def split: option.splits)

lemma lex_asym:
  fixes e s :: "'a \<Rightarrow> xnum" and i :: "'a \<Rightarrow> 'b::linorder"
  assumes "js_gt (e x) (e y) \<or> e x = e y \<and> (js_gt (s x) (s y) \<or> s x = s y \<and> i x < i y)"
  shows "\<not> (js_gt (e y) (e x) \<or> e y = e x \<and> (js_gt (s y) (s x) \<or> s y = s x \<and> i y < i x))"
  using assms js_gt_asym by (metis js_gt_irrefl order_less_asym)

lemma preferred_iff:
  "valid_start a \<Longrightarrow> preferred a b \<longleftrightarrow> js_gt (ca_end a) (ca_end b) \<or> ca_end a = ca_end b \<and>
     (js_gt (time_or_ninf (sub_periodStart (ca_sub a))) (time_or_ninf (sub_periodStart (ca_sub b))) \<or>
      time_or_ninf (sub_periodStart (ca_sub a)) = time_or_ninf (sub_periodStart (ca_sub b)) \<and>
      sub_id (ca_sub a) < sub_id (ca_sub b))"
  by (auto simp: preferred_def Let_def js_eq_iff valid_start_def time_or_ninf_NaN)

interpretation plan_preference: preference preferred valid_start
proof
  fix x y assume v: "valid_start x" "valid_start y" "preferred x y"
  show "\<not> preferred y x"
    using v(3) unfolding preferred_iff [OF v(1)] preferred_iff [OF v(2)] by (rule lex_asym)
next
  fix x y z assume v: "valid_start x" "valid_start y" "valid_start z"
    and n: "\<not> preferred x y" "\<not> preferred y z"
  let ?s = "\<lambda>c. time_or_ninf (sub_periodStart (ca_sub c))"
  have nn: "ca_end x \<noteq> NaN" "ca_end y \<noteq> NaN" "ca_end z \<noteq> NaN" "?s x \<noteq> NaN" "?s y \<noteq> NaN" "?s z \<noteq> NaN"
    using v by (simp_all add: valid_start_def time_or_ninf_NaN)
  show "\<not> preferred x z"
    using n js_gt_total [OF nn(1,2)] js_gt_total [OF nn(2,3)] js_gt_total [OF nn(4,5)] js_gt_total [OF nn(5,6)]
      js_gt_trans [of "ca_end z" "ca_end y" "ca_end x"] js_gt_trans [of "?s z" "?s y" "?s x"]
      js_gt_asym [of "ca_end z" "ca_end x"] js_gt_asym [of "?s z" "?s x"]
    unfolding preferred_iff [OF v(1)] preferred_iff [OF v(2)]
    by (metis js_gt_irrefl linorder_not_less order_trans)
qed

lemma preferred_total:
  assumes "valid_start a" and "valid_start b" and "sub_id (ca_sub a) \<noteq> sub_id (ca_sub b)"
  shows "preferred a b \<or> preferred b a"
proof -
  let ?s = "\<lambda>c. time_or_ninf (sub_periodStart (ca_sub c))"
  have "ca_end a \<noteq> NaN" "ca_end b \<noteq> NaN" "?s a \<noteq> NaN" "?s b \<noteq> NaN"
    using assms(1,2) by (simp_all add: valid_start_def time_or_ninf_NaN)
  from js_gt_total [OF this(1,2)] js_gt_total [OF this(3,4)] show ?thesis
    using assms(3) unfolding preferred_iff [OF assms(1)] preferred_iff [OF assms(2)] by (metis linorder_neqE)
qed

text \<open>The loop is two selections over the rows' candidates.\<close>

definition candidates :: "subscription_row list \<Rightarrow> plan_candidate list" where
  "candidates subs = List.map_filter candidate_of subs"

lemma candidates_simps [simp]:
  "candidates [] = []"
  "candidates (s # ss) = (case candidate_of s of None \<Rightarrow> candidates ss | Some c \<Rightarrow> c # candidates ss)"
  by (simp_all add: candidates_def List.map_filter_simps split: option.splits)

lemma candidates_sub: "c \<in> set (candidates subs) \<Longrightarrow> \<exists>s \<in> set subs. candidate_of s = Some c"
  by (induction subs) (auto split: option.splits)

lemma candidates_mem: "s \<in> set subs \<Longrightarrow> candidate_of s = Some c \<Longrightarrow> c \<in> set (candidates subs)"
  by (induction subs) (auto split: option.splits)

lemma candidates_perm: "mset subs = mset subs' \<Longrightarrow> mset (candidates subs) = mset (candidates subs')"
proof -
  have c: "mset (candidates xs) = mset (map (\<lambda>s. the (candidate_of s)) (filter (\<lambda>s. candidate_of s \<noteq> None) xs))" for xs
    by (induction xs) (auto split: option.splits)
  assume "mset subs = mset subs'"
  then show ?thesis unfolding c by (simp add: mset_filter)
qed

lemma select_loop_picks:
  "select_loop now (cur, del) subs =
     (pick preferred cur (filter (is_current_candidate now) (candidates subs)),
      pick preferred del (filter (\<lambda>c. is_delinquent_candidate c) (candidates subs)))"
proof (induction subs arbitrary: cur del)
  case Nil
  then show ?case by simp
next
  case (Cons s subs)
  have "\<not> (is_current_candidate now c \<and> is_delinquent_candidate c)" for c
    by (auto simp: is_current_candidate_def is_delinquent_candidate_def)
  then show ?case using Cons.IH by (auto split: option.splits)
qed

lemma plan_of_candidate_sel:
  "plan_of_candidate now pu paid c = Inr p \<Longrightarrow>
     pl_subscriptionId p = Some (sub_id (ca_sub c)) \<and> pl_planActive p = paid \<and> pl_offer p = ca_offer c \<and>
     pl_sku p = po_sku (ca_offer c) \<and> pl_status p = (if paid \<and> pu then St_upgrade_pending else ca_status c)"
  by (auto simp: plan_of_candidate_def Let_def)

subsection \<open>Properties\<close>

lemma valid_start_candidate:
  "sub_periodStart s \<noteq> Some None \<Longrightarrow> candidate_of s = Some c \<Longrightarrow> valid_start c"
  by (auto dest!: candidate_of_Some simp: valid_start_def finite_or_ninf_def split: option.splits)

lemma valid_starts:
  "\<forall>s \<in> set subs. sub_periodStart s \<noteq> Some None \<Longrightarrow> \<forall>c \<in> set (filter P (candidates subs)). valid_start c"
  using candidates_sub valid_start_candidate by fastforce

lemma pick_candidates_perm:
  assumes "\<forall>s \<in> set subs. sub_periodStart s \<noteq> Some None" and "mset subs = mset subs'"
    and "distinct (map sub_id subs)"
  shows "pick preferred None (filter P (candidates subs)) = pick preferred None (filter P (candidates subs'))"
proof (rule plan_preference.pick_perm)
  show "mset (filter P (candidates subs)) = mset (filter P (candidates subs'))"
    using candidates_perm [OF assms(2)] by (simp add: mset_filter)
  show v: "\<forall>c \<in> set (filter P (candidates subs)). valid_start c" by (rule valid_starts [OF assms(1)])
  fix x y assume xy: "x \<in> set (filter P (candidates subs))" "y \<in> set (filter P (candidates subs))" "x \<noteq> y"
  then obtain s t where st: "s \<in> set subs" "t \<in> set subs" "candidate_of s = Some x" "candidate_of t = Some y"
    using candidates_sub [of x subs] candidates_sub [of y subs] by auto
  then have "s \<noteq> t" using xy(3) by auto
  then have "sub_id s \<noteq> sub_id t" using assms(3) st by (auto simp: distinct_map dest: inj_onD)
  then show "preferred x y \<or> preferred y x"
    using candidate_of_Some [OF st(3)] candidate_of_Some [OF st(4)] v xy by (intro preferred_total) auto
qed

text \<open>The plan is decided by the rows, not by the order in which they are read: a current paid period
  always wins over delinquent rows, the row selected is a paid offer's, and no other current row is
  preferred to it (later end, then later start, then smaller ID); reordering the rows changes nothing.\<close>

lemma plan_current_period_wins:
  assumes p: "planFromSubscriptions subs now created pending freeAt = Inr p"
    and v: "\<forall>s \<in> set subs. sub_periodStart s \<noteq> Some None"
    and cur: "s0 \<in> set subs" "candidate_of s0 = Some c0" "is_current_candidate now c0"
  shows "pl_planActive p \<and> (\<exists>s \<in> set subs. \<exists>c. candidate_of s = Some c \<and> is_current_candidate now c \<and>
      pl_subscriptionId p = Some (sub_id s) \<and> pl_sku p = po_sku (ca_offer c) \<and> po_family (ca_offer c) \<noteq> Fam_free \<and>
      (\<forall>t \<in> set subs. \<forall>d. candidate_of t = Some d \<and> is_current_candidate now d \<longrightarrow> \<not> preferred d c)) \<and>
    (mset subs = mset subs' \<and> distinct (map sub_id subs) \<longrightarrow>
       planFromSubscriptions subs' now created pending freeAt = Inr p)"
proof (intro conjI impI)
  let ?F = "filter (is_current_candidate now) (candidates subs)"
  have "c0 \<in> set ?F" using cur candidates_mem by auto
  then have "?F \<noteq> []" by (metis list.distinct(1) list.set_cases)
  then obtain c where c: "pick preferred None ?F = Some c" by (metis not_None_eq pick_eq_None)
  have plan: "plan_of_candidate now pending True c = Inr p"
    using p c by (simp add: planFromSubscriptions_def select_loop_picks)
  note sel = plan_of_candidate_sel [OF plan]
  show "pl_planActive p" using sel by simp
  obtain s where s: "s \<in> set subs" "candidate_of s = Some c" "is_current_candidate now c"
    using pick_None_in [OF c] candidates_sub by auto
  have best: "\<not> preferred d c" if "t \<in> set subs" "candidate_of t = Some d" "is_current_candidate now d" for t d
    by (rule plan_preference.pick_best [OF c valid_starts [OF v]]) (use that candidates_mem in auto)
  show "\<exists>s \<in> set subs. \<exists>c. candidate_of s = Some c \<and> is_current_candidate now c \<and>
      pl_subscriptionId p = Some (sub_id s) \<and> pl_sku p = po_sku (ca_offer c) \<and> po_family (ca_offer c) \<noteq> Fam_free \<and>
      (\<forall>t \<in> set subs. \<forall>d. candidate_of t = Some d \<and> is_current_candidate now d \<longrightarrow> \<not> preferred d c)"
    using s best sel candidate_of_Some [OF s(2)] by blast
  assume m: "mset subs = mset subs' \<and> distinct (map sub_id subs)"
  then show "planFromSubscriptions subs' now created pending freeAt = Inr p"
    using p pick_candidates_perm [OF v] by (simp add: planFromSubscriptions_def select_loop_picks)
qed

definition demo_paid :: "subscription_row list" where
  "demo_paid = [\<lparr>sub_id = ''sub_d'', sub_status = ''past_due'', sub_sku = ''compute_monthly_v2'', sub_periodStart = Some (Some 0),
       sub_periodEnd = Some (Some 9000), sub_cancelAtPeriodEnd = False\<rparr>,
     \<lparr>sub_id = ''sub_a'', sub_status = ''active'', sub_sku = ''standard_monthly_v2'', sub_periodStart = Some (Some 0),
       sub_periodEnd = Some (Some 5000), sub_cancelAtPeriodEnd = True\<rparr>]"

lemma demo_paid_plan:
  "\<exists>p. planFromSubscriptions demo_paid (Some 2000) None False None = Inr p \<and> pl_subscriptionId p = Some ''sub_a''"
  by (simp add: planFromSubscriptions_def demo_paid_def candidate_of_def offerBySku_def all_skus_def
      planStatusFromStripe_def is_current_candidate_def is_delinquent_candidate_def js_between_def
      plan_of_candidate_def Let_def iso_of_def iso_range_def)

lemma plan_current_period_wins_witness:
  "\<exists>p. planFromSubscriptions demo_paid (Some 2000) None False None = Inr p \<and> pl_planActive p \<and>
     pl_subscriptionId p = Some ''sub_a''"
proof -
  obtain p where p: "planFromSubscriptions demo_paid (Some 2000) None False None = Inr p" "pl_subscriptionId p = Some ''sub_a''"
    using demo_paid_plan by blast
  let ?s = "\<lparr>sub_id = ''sub_a'', sub_status = ''active'', sub_sku = ''standard_monthly_v2'', sub_periodStart = Some (Some 0),
       sub_periodEnd = Some (Some 5000), sub_cancelAtPeriodEnd = True\<rparr>"
  let ?c = "\<lparr>ca_sub = ?s, ca_offer = CATALOG_V2 Standard_monthly_v2, ca_status = St_cancels, ca_end = Num 5000\<rparr>"
  have c: "candidate_of ?s = Some ?c" "is_current_candidate (Some 2000) ?c"
    by (simp_all add: candidate_of_def offerBySku_def all_skus_def planStatusFromStripe_def finite_or_ninf_def
        is_current_candidate_def js_between_def)
  have "pl_planActive p"
    using plan_current_period_wins [OF p(1) _ _ c] by (simp add: demo_paid_def)
  with p show ?thesis by blast
qed

text \<open>Without a current or delinquent paid row the account is on a Free plan that is always active; the
  smaller allowance applies only to an account created at or after the instant the new Free policy takes
  effect, and never while that instant is not set or the creation time is unknown.\<close>

lemma free_plan_policy:
  assumes "planFromSubscriptions subs now created pending freeAt = Inr p" and "pl_subscriptionId p = None"
  shows "(\<forall>s \<in> set subs. \<forall>c. candidate_of s = Some c \<longrightarrow> \<not> is_current_candidate now c \<and> \<not> is_delinquent_candidate c) \<and>
    pl_planActive p \<and> pl_status p = St_free \<and> pl_family p = Fam_free \<and> pl_renewsAt p = None \<and>
    pl_sku p = (if \<exists>e t. freeAt = Some (Some e) \<and> created = Some (Some t) \<and> e \<le> t then Free_v2 else Free_v1_legacy)"
proof -
  have none: "select_loop now (None, None) subs = (None, None)"
    using assms by (auto simp: planFromSubscriptions_def split: prod.splits option.splits dest!: plan_of_candidate_sel)
  then have c: "c \<in> set (candidates subs) \<Longrightarrow> \<not> is_current_candidate now c \<and> \<not> is_delinquent_candidate c" for c
    by (auto simp: select_loop_picks filter_empty_conv)
  have f: "po_family (CATALOG_V2 (freeSkuFor a b)) = Fam_free" for a b
    by (auto simp: freeSkuFor_def split: option.splits)
  have "free_plan_of now created freeAt = Inr p" using assms(1) none by (simp add: planFromSubscriptions_def)
  then have "pl_planActive p \<and> pl_status p = St_free \<and> pl_family p = Fam_free \<and> pl_renewsAt p = None \<and>
      pl_sku p = freeSkuFor created freeAt"
    by (auto simp: free_plan_of_def Let_def f)
  moreover have "freeSkuFor created freeAt =
      (if \<exists>e t. freeAt = Some (Some e) \<and> created = Some (Some t) \<and> e \<le> t then Free_v2 else Free_v1_legacy)"
    by (auto simp: freeSkuFor_def split: option.splits)
  moreover have "\<not> is_current_candidate now d \<and> \<not> is_delinquent_candidate d"
    if "s \<in> set subs" "candidate_of s = Some d" for s d
    using c candidates_mem [OF that] by blast
  ultimately show ?thesis by simp
qed

lemma free_plan_policy_witness:
  "\<exists>p. planFromSubscriptions [] (Some 0) (Some (Some 7)) False (Some (Some 5)) = Inr p \<and> pl_sku p = Free_v2"
proof -
  have "freeWindow (Some 0) = \<lparr>w_start = Some 0, w_end = Some 2678400000\<rparr>"
    by (simp add: freeWindow_def month_window_epoch new_Date_def max_time_ms_def)
  then obtain p where "planFromSubscriptions [] (Some 0) (Some (Some 7)) False (Some (Some 5)) = Inr p" "pl_subscriptionId p = None"
    by (auto simp: planFromSubscriptions_def free_plan_of_def freeWindowV2_def Let_def iso_range_def)
  then show ?thesis using free_plan_policy [of "[]" "Some 0" "Some (Some 7)" False "Some (Some 5)" p] by auto
qed

end
