(* ===== verification/Contract_V3.thy ===== *)
theory Contract_V3
  imports Rating Catalog_V2
begin

text \<open>
  The pinned data and helpers of billing contract v3 (\<^verbatim>\<open>app/src/server/billing/v3/contract.ts\<close>), the v3
  catalogue and plan resolution (\<^verbatim>\<open>v3/catalog.ts\<close>) and the v3 start gate (\<^verbatim>\<open>v3/admission.ts\<close>). Display text
  (taglines, badges, bullets) is left out of the offers.
\<close>

subsection \<open>Catalogue v3\<close>

datatype PlanSkuV3 = Free_v3 | Standard_monthly_v3 | Premium_monthly_v3
datatype OpeningSpeed = Open_standard | Open_fast | Open_fastest
datatype credit_per = Per_period | Per_once

fun sku3_string :: "PlanSkuV3 \<Rightarrow> string" where
  "sku3_string Free_v3 = ''free_v3''"
| "sku3_string Standard_monthly_v3 = ''standard_monthly_v3''"
| "sku3_string Premium_monthly_v3 = ''premium_monthly_v3''"

definition all_skus3 :: "PlanSkuV3 list" where
  "all_skus3 = [Free_v3, Standard_monthly_v3, Premium_monthly_v3]"

record ai_credit_grant =
  cg_amount :: int
  cg_per :: credit_per

record plan_offer_v3 =
  o3_sku :: PlanSkuV3
  o3_name :: string
  o3_priceCents :: int
  o3_monthly :: bool
  o3_stripeLookupKey :: "string option"
  o3_size :: SizeCode
  o3_provider :: ComputeProvider
  o3_vcpu :: int
  o3_memoryGiB :: int
  o3_sessionMaxSeconds :: "int option"
  o3_opening :: OpeningSpeed
  o3_poolPriority :: int
  o3_fairUseSeconds :: int
  o3_legacyFairUseSeconds :: "int option"
  o3_machineChoice :: "SizeCode list"
  o3_aiCredits :: ai_credit_grant
  o3_storageGiB :: "int option"

fun CATALOG_V3 :: "PlanSkuV3 \<Rightarrow> plan_offer_v3" where
  "CATALOG_V3 Free_v3 = \<lparr>o3_sku = Free_v3, o3_name = ''Free'', o3_priceCents = 0, o3_monthly = False,
     o3_stripeLookupKey = None, o3_size = Free_cf, o3_provider = P_cloudflare, o3_vcpu = 2, o3_memoryGiB = 6,
     o3_sessionMaxSeconds = Some (1 * 3600), o3_opening = Open_standard, o3_poolPriority = 0,
     o3_fairUseSeconds = 5 * 3600, o3_legacyFairUseSeconds = Some (8 * 3600), o3_machineChoice = [Free_cf],
     o3_aiCredits = \<lparr>cg_amount = 100, cg_per = Per_once\<rparr>, o3_storageGiB = None\<rparr>"
| "CATALOG_V3 Standard_monthly_v3 = \<lparr>o3_sku = Standard_monthly_v3, o3_name = ''Standard'', o3_priceCents = 2000,
     o3_monthly = True, o3_stripeLookupKey = Some ''ezil_standard_monthly_v3'', o3_size = Std_2,
     o3_provider = P_aws, o3_vcpu = 2, o3_memoryGiB = 8, o3_sessionMaxSeconds = None,
     o3_opening = Open_standard, o3_poolPriority = 1, o3_fairUseSeconds = 40 * 3600,
     o3_legacyFairUseSeconds = None, o3_machineChoice = [Std_2],
     o3_aiCredits = \<lparr>cg_amount = 200, cg_per = Per_period\<rparr>, o3_storageGiB = Some 50\<rparr>"
| "CATALOG_V3 Premium_monthly_v3 = \<lparr>o3_sku = Premium_monthly_v3, o3_name = ''Premium'', o3_priceCents = 10000,
     o3_monthly = True, o3_stripeLookupKey = Some ''ezil_premium_monthly_v3'', o3_size = Std_2,
     o3_provider = P_aws, o3_vcpu = 2, o3_memoryGiB = 8, o3_sessionMaxSeconds = None,
     o3_opening = Open_standard, o3_poolPriority = 2, o3_fairUseSeconds = 500 * 3600,
     o3_legacyFairUseSeconds = None, o3_machineChoice = [Std_2, Cmp_4, Cmp_8],
     o3_aiCredits = \<lparr>cg_amount = 1000, cg_per = Per_period\<rparr>, o3_storageGiB = Some 100\<rparr>"

fun UPGRADE_TARGET_V3 :: "PlanSkuV3 \<Rightarrow> PlanSkuV3 option" where
  "UPGRADE_TARGET_V3 Standard_monthly_v3 = Some Premium_monthly_v3"
| "UPGRADE_TARGET_V3 _ = None"

text \<open>Never throws: an invalid instant is \<^verbatim>\<open>NaN\<close> and gives 0.\<close>

definition upgradeAiCredits :: "PlanSkuV3 \<Rightarrow> PlanSkuV3 \<Rightarrow> jsdate \<Rightarrow> jsdate \<Rightarrow> jsdate \<Rightarrow> int" where
  "upgradeAiCredits fromSku toSku periodStart periodEnd effectiveAt =
     (let delta = cg_amount (o3_aiCredits (CATALOG_V3 toSku)) - cg_amount (o3_aiCredits (CATALOG_V3 fromSku)) in
      case (periodStart, periodEnd, effectiveAt) of
        (Some s, Some e, Some t) \<Rightarrow>
          let start = s div 1000; stop = e div 1000; at = t div 1000 in
          if \<not> is_safe_integer delta \<or> delta \<le> 0 then 0
          else if stop - start \<le> 0 then 0
          else prorate delta start stop at
      | _ \<Rightarrow> 0)"

text \<open>The division is exact for the weights 1, 2 and 4.\<close>

definition hoursLeftAtWeight :: "int option \<Rightarrow> int option \<Rightarrow> int" where
  "hoursLeftAtWeight remaining weight =
     (case (remaining, weight) of
        (Some r, Some w) \<Rightarrow> if r \<le> 0 \<or> w < 1 then 0 else r div (w * 3600)
      | _ \<Rightarrow> 0)"

datatype FairUseStatus = Fair_ok | Fair_near | Fair_paused
datatype ComputeStanding = Standing_paid | Standing_grace | Standing_plan_ending | Standing_files_on_aws | Standing_free

subsection \<open>Catalogue lookups and plan resolution\<close>

definition offerBySku3 :: "string \<Rightarrow> plan_offer_v3 option" where
  "offerBySku3 sku = map_option CATALOG_V3 (find (\<lambda>s. sku3_string s = sku) all_skus3)"

definition offerByLookupKey3 :: "string \<Rightarrow> plan_offer_v3 option" where
  "offerByLookupKey3 key = find (\<lambda>offer. o3_stripeLookupKey offer = Some key) (map CATALOG_V3 all_skus3)"

text \<open>The terms the invoice processor reads: of a v3 offer or of an offer sold under v2.\<close>

record billing_offer =
  bo_sku :: string
  bo_stripeLookupKey :: "string option"
  bo_sellable :: bool
  bo_allowanceStdSeconds :: int
  bo_v3 :: "PlanSkuV3 option"

definition of_v3 :: "plan_offer_v3 \<Rightarrow> billing_offer" where
  "of_v3 offer = \<lparr>bo_sku = sku3_string (o3_sku offer), bo_stripeLookupKey = o3_stripeLookupKey offer,
     bo_sellable = (o3_stripeLookupKey offer \<noteq> None), bo_allowanceStdSeconds = o3_fairUseSeconds offer,
     bo_v3 = Some (o3_sku offer)\<rparr>"

definition of_v2 :: "plan_offer \<Rightarrow> billing_offer" where
  "of_v2 offer = \<lparr>bo_sku = sku_string (po_sku offer), bo_stripeLookupKey = po_stripeLookupKey offer,
     bo_sellable = po_sellable offer, bo_allowanceStdSeconds = po_allowanceStdSeconds offer, bo_v3 = None\<rparr>"

definition billingOfferBySku :: "string \<Rightarrow> billing_offer option" where
  "billingOfferBySku sku = (case offerBySku3 sku of
     Some offer \<Rightarrow> Some (of_v3 offer)
   | None \<Rightarrow> map_option of_v2 (offerBySku sku))"

definition billingOfferByLookupKey :: "string \<Rightarrow> billing_offer option" where
  "billingOfferByLookupKey key = (case offerByLookupKey3 key of
     Some offer \<Rightarrow> billingOfferBySku (sku3_string (o3_sku offer))
   | None \<Rightarrow> map_option of_v2 (offerByLookupKey key))"

definition paidBillingOffers :: "billing_offer list" where
  "paidBillingOffers = map of_v2 (filter po_sellable (map CATALOG_V2 all_skus)) @
     map of_v3 (filter (\<lambda>offer. o3_stripeLookupKey offer \<noteq> None) (map CATALOG_V3 all_skus3))"

text \<open>\<open>p3_offer = None\<close> is the \<^verbatim>\<open>legacy\<close> branch: the plan sold before v3 keeps its own terms.\<close>

record resolved_plan_v3 =
  p3_plan :: plan_resolution
  p3_offer :: "plan_offer_v3 option"
  p3_legacyFree :: bool
  p3_sessionMaxSeconds :: "int option"

definition v2_alias :: "string \<Rightarrow> string" where
  "v2_alias sku = (if sku = ''standard_monthly_v3'' then ''standard_monthly_v2''
     else if sku = ''premium_monthly_v3'' then ''compute_monthly_v2'' else sku)"

definition planFromSubscriptions3 :: "subscription_row list \<Rightarrow> jsdate \<Rightarrow> jsdate option \<Rightarrow> jsdate option
    \<Rightarrow> resolved_plan_v3 res" where
  "planFromSubscriptions3 subs now userCreatedAt freeEffectiveAt =
     rbind (planFromSubscriptions (map (\<lambda>s. s\<lparr>sub_sku := v2_alias (sub_sku s)\<rparr>) subs) now userCreatedAt False freeEffectiveAt)
       (\<lambda>selected.
          let sub = find (\<lambda>s. Some (sub_id s) = pl_subscriptionId selected) subs;
              offer = (case sub of Some s \<Rightarrow> offerBySku3 (sub_sku s) | None \<Rightarrow> Some (CATALOG_V3 Free_v3));
              legacyFree = (freeSkuFor userCreatedAt freeEffectiveAt = Free_v1_legacy)
          in case offer of
               Some o3 \<Rightarrow> Inr \<lparr>p3_plan = selected, p3_offer = Some o3, p3_legacyFree = legacyFree,
                  p3_sessionMaxSeconds = o3_sessionMaxSeconds o3\<rparr>
             | None \<Rightarrow> Inr \<lparr>p3_plan = selected, p3_offer = None, p3_legacyFree = legacyFree,
                  p3_sessionMaxSeconds = Some SESSION_MAX_SECONDS\<rparr>)"

definition operatorGrantedSubscription :: "string option \<Rightarrow> bool" where
  "operatorGrantedSubscription subId = (case subId of None \<Rightarrow> False | Some s \<Rightarrow> \<not> starts_with ''sub_'' s)"

definition upgradeGrantSeconds :: "jsdate \<Rightarrow> jsdate \<Rightarrow> jsdate \<Rightarrow> int res" where
  "upgradeGrantSeconds periodStart periodEnd effectiveAt =
     (let delta = o3_fairUseSeconds (CATALOG_V3 Premium_monthly_v3) - o3_fairUseSeconds (CATALOG_V3 Standard_monthly_v3) in
      rbind (epochSeconds periodEnd RFloor) (\<lambda>stop.
      rbind (epochSeconds periodStart RFloor) (\<lambda>start.
        if stop - start \<le> 0 then Inr 0
        else rbind (epochSeconds effectiveAt RFloor) (\<lambda>at. Inr (prorate delta start stop at)))))"

subsection \<open>Admission\<close>

definition fairUseStatusOf :: "int \<Rightarrow> int \<Rightarrow> FairUseStatus" where
  "fairUseStatusOf usedSeconds fairUseSeconds =
     (if usedSeconds \<ge> fairUseSeconds then Fair_paused
      else if usedSeconds * 5 \<ge> fairUseSeconds * 4 then Fair_near else Fair_ok)"

definition HOLD_SIZE :: SizeCode where "HOLD_SIZE = Std_2"

record admit3_input =
  a3_sku :: "PlanSkuV3 option"
  a3_planActive :: bool
  a3_paymentIssue :: bool
  a3_usedSeconds :: int
  a3_legacyFree :: bool
  a3_runningComputers :: int
  a3_poolHostAvailable :: bool
  a3_now :: jsdate
  a3_size :: "SizeCode option"
  a3_hold :: bool

datatype AdmitRefusalV3 = R3_no_plan | R3_fair_use_paused | R3_payment_issue | R3_concurrent_limit
  | R3_upgrade_pending | R3_files_on_aws | R3_size_not_allowed | R3_aws_monthly_cap

record admission3 =
  d3_size :: SizeCode
  d3_maxRunSeconds :: int
  d3_deadline :: jsdate
  d3_fromPool :: bool
  d3_poolPriority :: int
  d3_hold :: bool

datatype AdmitDecisionV3 = Admit3 admission3 | Refuse3 AdmitRefusalV3

definition fair_use_of :: "plan_offer_v3 \<Rightarrow> bool \<Rightarrow> int" where
  "fair_use_of offer legacyFree =
     (if legacyFree then (case o3_legacyFairUseSeconds offer of None \<Rightarrow> o3_fairUseSeconds offer | Some s \<Rightarrow> s)
      else o3_fairUseSeconds offer)"

definition requested_size :: "plan_offer_v3 \<Rightarrow> admit3_input \<Rightarrow> SizeCode" where
  "requested_size offer i = (case a3_size i of None \<Rightarrow> o3_size offer | Some s \<Rightarrow> s)"

definition on_hold :: "PlanSkuV3 \<Rightarrow> admit3_input \<Rightarrow> bool" where
  "on_hold sku i \<longleftrightarrow> a3_hold i \<and> sku = Free_v3 \<and> requested_size (CATALOG_V3 sku) i = HOLD_SIZE"

text \<open>The bound of one session: the session cap (none on paid plans) and the fair-use time left at the weight.\<close>

definition run_bound :: "plan_offer_v3 \<Rightarrow> admit3_input \<Rightarrow> int" where
  "run_bound offer i =
     (let left = max 0 (fair_use_of offer (a3_legacyFree i) - a3_usedSeconds i) div size_weight (requested_size offer i)
      in case o3_sessionMaxSeconds offer of None \<Rightarrow> left | Some s \<Rightarrow> min s left)"

definition admitStart3 :: "admit3_input \<Rightarrow> AdmitDecisionV3 res" where
  "admitStart3 i = (case a3_sku i of
     None \<Rightarrow> Inr (Refuse3 R3_no_plan)
   | Some sku \<Rightarrow>
       if \<not> a3_planActive i then Inr (Refuse3 R3_no_plan)
       else if a3_paymentIssue i then Inr (Refuse3 R3_payment_issue)
       else if a3_runningComputers i \<ge> 1 then Inr (Refuse3 R3_concurrent_limit)
       else let offer = CATALOG_V3 sku; sz = requested_size offer i; hold = on_hold sku i
         in if \<not> hold \<and> sz \<notin> set (o3_machineChoice offer) then Inr (Refuse3 R3_size_not_allowed)
            else let maxRun = run_bound offer i
              in if maxRun < 60 then Inr (Refuse3 R3_fair_use_paused)
                 else rbind (epochSeconds (a3_now i) RFloor) (\<lambda>now.
                      rbind (isoSeconds (now + maxRun)) (\<lambda>deadline.
                        Inr (Admit3 \<lparr>d3_size = sz, d3_maxRunSeconds = maxRun, d3_deadline = deadline,
                               d3_fromPool = (o3_poolPriority offer > 0 \<and> a3_poolHostAvailable i),
                               d3_poolPriority = o3_poolPriority offer, d3_hold = hold\<rparr>))))"

definition admitStartWithAwsCap :: "admit3_input \<Rightarrow> bool \<Rightarrow> AdmitDecisionV3 res" where
  "admitStartWithAwsCap i awsMonthlyCapReached =
     rbind (admitStart3 i) (\<lambda>decision. Inr (case decision of
        Admit3 d \<Rightarrow> if awsMonthlyCapReached \<and> sz_provider (SIZES (d3_size d)) = P_aws
                    then Refuse3 R3_aws_monthly_cap else decision
      | Refuse3 _ \<Rightarrow> decision))"

subsection \<open>Lemmas\<close>

lemma o3_sku_CATALOG [simp]: "o3_sku (CATALOG_V3 s) = s"
  by (cases s) auto

lemma sku3_string_inj [simp]: "sku3_string a = sku3_string b \<longleftrightarrow> a = b"
  by (cases a; cases b) auto

lemma all_skus3_UNIV: "s \<in> set all_skus3"
  by (cases s) (auto simp: all_skus3_def)

lemma offerBySku3_string [simp]: "offerBySku3 (sku3_string s) = Some (CATALOG_V3 s)"
  by (cases s) (auto simp: offerBySku3_def all_skus3_def)

lemma offerBySku3_v2 [simp]: "offerBySku3 (sku_string s) = None"
  by (cases s) (auto simp: offerBySku3_def all_skus3_def)

lemma offerBySku3_Some: "offerBySku3 sku = Some offer \<Longrightarrow> sku = sku3_string (o3_sku offer) \<and> offer = CATALOG_V3 (o3_sku offer)"
  using find_Some_iff_first by (fastforce simp: offerBySku3_def)

lemma fair_use_pos: "0 < fair_use_of (CATALOG_V3 s) l"
  by (cases s) (auto simp: fair_use_of_def)

lemma admitStart3_sku: "admitStart3 i = Inr (Admit3 d) \<Longrightarrow> \<exists>sku. a3_sku i = Some sku"
  by (cases "a3_sku i") (auto simp: admitStart3_def)

lemma lookup_key_v2: "offerByLookupKey key = Some offer \<Longrightarrow> po_stripeLookupKey offer = Some key \<and> (\<exists>s. offer = CATALOG_V2 s)"
  using find_Some_iff_first by (fastforce simp: offerByLookupKey_def)

lemma lookup_key_v3: "offerByLookupKey3 key = Some offer \<Longrightarrow> o3_stripeLookupKey offer = Some key \<and> (\<exists>s. offer = CATALOG_V3 s)"
  using find_Some_iff_first by (fastforce simp: offerByLookupKey3_def)

lemma admitStart3_Admit:
  assumes "admitStart3 i = Inr (Admit3 d)" and "a3_sku i = Some sku"
  shows "a3_planActive i \<and> \<not> a3_paymentIssue i \<and> a3_runningComputers i < 1 \<and>
    (on_hold sku i \<or> d3_size d \<in> set (o3_machineChoice (CATALOG_V3 sku))) \<and>
    d3_size d = requested_size (CATALOG_V3 sku) i \<and> 60 \<le> d3_maxRunSeconds d \<and>
    d3_maxRunSeconds d = run_bound (CATALOG_V3 sku) i \<and>
    d3_fromPool d = (o3_poolPriority (CATALOG_V3 sku) > 0 \<and> a3_poolHostAvailable i) \<and>
    (\<exists>now. a3_now i = Some now \<and> d3_deadline d = Some ((now div 1000 + d3_maxRunSeconds d) * 1000))"
proof (cases "a3_now i")
  case None
  then show ?thesis using assms by (simp add: admitStart3_def Let_def split: if_split_asm)
next
  case (Some now)
  then show ?thesis
    using assms by (simp add: admitStart3_def Let_def isoSeconds_Inr split: if_split_asm) (elim conjE, hypsubst, simp)
qed

lemma admitStart3_fair_use:
  "admitStart3 i = Inr (Refuse3 R3_fair_use_paused) \<Longrightarrow> a3_sku i = Some sku \<Longrightarrow>
    (on_hold sku i \<or> requested_size (CATALOG_V3 sku) i \<in> set (o3_machineChoice (CATALOG_V3 sku))) \<and>
    run_bound (CATALOG_V3 sku) i < 60"
  by (simp add: admitStart3_def Let_def split: if_split_asm)

lemma session_cap_minute: "o3_sessionMaxSeconds (CATALOG_V3 sku) = Some s \<Longrightarrow> 60 \<le> s"
  by (cases sku) auto

lemma run_bound_lt:
  assumes "run_bound (CATALOG_V3 sku) i < 60"
  shows "fair_use_of (CATALOG_V3 sku) (a3_legacyFree i) - a3_usedSeconds i < 60 * size_weight (requested_size (CATALOG_V3 sku) i)"
proof -
  have "max 0 (fair_use_of (CATALOG_V3 sku) (a3_legacyFree i) - a3_usedSeconds i) div size_weight (requested_size (CATALOG_V3 sku) i) < 60"
    using assms session_cap_minute [of sku] by (auto simp: run_bound_def Let_def split: option.splits)
  then show ?thesis by (cases "requested_size (CATALOG_V3 sku) i") auto
qed

lemma run_bound_le:
  "run_bound offer i * size_weight (requested_size offer i)
     \<le> max 0 (fair_use_of offer (a3_legacyFree i) - a3_usedSeconds i)"
proof -
  have "run_bound offer i \<le> max 0 (fair_use_of offer (a3_legacyFree i) - a3_usedSeconds i) div size_weight (requested_size offer i)"
    by (auto simp: run_bound_def Let_def split: option.splits)
  then have "run_bound offer i * size_weight (requested_size offer i)
      \<le> max 0 (fair_use_of offer (a3_legacyFree i) - a3_usedSeconds i) div size_weight (requested_size offer i)
          * size_weight (requested_size offer i)"
    by (rule mult_right_mono) (simp add: less_imp_le)
  also have "\<dots> \<le> max 0 (fair_use_of offer (a3_legacyFree i) - a3_usedSeconds i)"
    by (rule div_mult_le_int) simp
  finally show ?thesis .
qed

lemma admit_v3_cap:
  assumes "admitStartWithAwsCap i capReached = Inr (Admit3 d)"
  shows "admitStart3 i = Inr (Admit3 d) \<and> (capReached \<longrightarrow> sz_provider (SIZES (d3_size d)) \<noteq> P_aws)"
proof -
  obtain x where "admitStart3 i = Inr x"
    "(case x of Admit3 d \<Rightarrow> if capReached \<and> sz_provider (SIZES (d3_size d)) = P_aws then Refuse3 R3_aws_monthly_cap else x
       | Refuse3 _ \<Rightarrow> x) = Admit3 d"
    using assms by (auto simp: admitStartWithAwsCap_def)
  then show ?thesis by (cases x) (auto split: if_split_asm)
qed

lemma billing_offer_of_sku [simp]:
  "billingOfferBySku (sku_string s) = Some (of_v2 (CATALOG_V2 s))"
  "billingOfferBySku (sku3_string t) = Some (of_v3 (CATALOG_V3 t))"
  by (simp_all add: billingOfferBySku_def)

lemma bo_sku_of: "bo_sku (of_v2 (CATALOG_V2 s)) = sku_string s" "bo_sku (of_v3 (CATALOG_V3 t)) = sku3_string t"
  by (simp_all add: of_v2_def of_v3_def)

lemma paid_offers:
  "paidBillingOffers = [of_v2 (CATALOG_V2 Standard_monthly_v2), of_v2 (CATALOG_V2 Compute_monthly_v2),
     of_v3 (CATALOG_V3 Standard_monthly_v3), of_v3 (CATALOG_V3 Premium_monthly_v3)]"
  by (simp add: paidBillingOffers_def all_skus_def all_skus3_def)

lemma paid_offer_keys:
  "billingOfferByLookupKey ''ezil_standard_monthly_v2'' = Some (of_v2 (CATALOG_V2 Standard_monthly_v2))"
  "billingOfferByLookupKey ''ezil_compute_monthly_v2'' = Some (of_v2 (CATALOG_V2 Compute_monthly_v2))"
  "billingOfferByLookupKey ''ezil_standard_monthly_v3'' = Some (of_v3 (CATALOG_V3 Standard_monthly_v3))"
  "billingOfferByLookupKey ''ezil_premium_monthly_v3'' = Some (of_v3 (CATALOG_V3 Premium_monthly_v3))"
  using billing_offer_of_sku(2) [of Standard_monthly_v3] billing_offer_of_sku(2) [of Premium_monthly_v3]
  by (simp_all add: billingOfferByLookupKey_def offerByLookupKey3_def offerByLookupKey_def all_skus3_def all_skus_def)

lemma paid_offer_cases:
  "b \<in> set paidBillingOffers \<Longrightarrow>
   b = of_v2 (CATALOG_V2 Standard_monthly_v2) \<or> b = of_v2 (CATALOG_V2 Compute_monthly_v2) \<or>
   b = of_v3 (CATALOG_V3 Standard_monthly_v3) \<or> b = of_v3 (CATALOG_V3 Premium_monthly_v3)"
  unfolding paid_offers by (simp only: set_simps insert_iff empty_iff simp_thms)

lemma paid_sellable:
  "bo_sellable (of_v2 (CATALOG_V2 Standard_monthly_v2)) = True" "bo_sellable (of_v2 (CATALOG_V2 Compute_monthly_v2)) = True"
  "bo_sellable (of_v3 (CATALOG_V3 Standard_monthly_v3)) = True" "bo_sellable (of_v3 (CATALOG_V3 Premium_monthly_v3)) = True"
  by (simp_all add: of_v2_def of_v3_def)

lemma paid_offer_by_key:
  "b \<in> set paidBillingOffers \<Longrightarrow> bo_stripeLookupKey b = Some key \<Longrightarrow> billingOfferByLookupKey key = Some b"
proof -
  assume b: "b \<in> set paidBillingOffers" and k: "bo_stripeLookupKey b = Some key"
  show ?thesis
    using paid_offer_cases [OF b] k paid_offer_keys by (elim disjE) (auto simp: of_v2_def of_v3_def simp del: CATALOG_V2.simps(1,2,5))
qed

subsection \<open>Properties\<close>

text \<open>C19: a v3 start is admitted only for an active plan without a payment issue or a running computer, with
  a size the plan offers (or, on Free under the hold, the one held size), and is bounded: at least a minute,
  at most the session cap, and running it to its deadline at the size's weight never takes the user past the
  fair-use time; a reached AWS cap admits no AWS machine and a Free start never leases a pool host.\<close>

theorem admit_v3_sound:
  assumes "admitStartWithAwsCap i capReached = Inr (Admit3 d)"
  shows "\<exists>sku now. a3_sku i = Some sku \<and> a3_planActive i \<and> \<not> a3_paymentIssue i \<and> a3_runningComputers i < 1 \<and>
    (d3_size d \<in> set (o3_machineChoice (CATALOG_V3 sku)) \<or> a3_hold i \<and> sku = Free_v3 \<and> d3_size d = HOLD_SIZE) \<and>
    60 \<le> d3_maxRunSeconds d \<and> (sku = Free_v3 \<longrightarrow> d3_maxRunSeconds d \<le> 3600 \<and> \<not> d3_fromPool d) \<and>
    a3_usedSeconds i + d3_maxRunSeconds d * size_weight (d3_size d) \<le> fair_use_of (CATALOG_V3 sku) (a3_legacyFree i) \<and>
    (capReached \<longrightarrow> sz_provider (SIZES (d3_size d)) \<noteq> P_aws) \<and>
    a3_now i = Some now \<and> d3_deadline d = Some ((now div 1000 + d3_maxRunSeconds d) * 1000)"
proof -
  have a: "admitStart3 i = Inr (Admit3 d)" and cap: "capReached \<longrightarrow> sz_provider (SIZES (d3_size d)) \<noteq> P_aws"
    using admit_v3_cap [OF assms] by blast+
  obtain sku where sku: "a3_sku i = Some sku" using admitStart3_sku [OF a] by blast
  note b = admitStart3_Admit [OF a sku]
  have "0 < d3_maxRunSeconds d * size_weight (d3_size d)" using b by (intro mult_pos_pos) auto
  then have le: "a3_usedSeconds i + d3_maxRunSeconds d * size_weight (d3_size d) \<le> fair_use_of (CATALOG_V3 sku) (a3_legacyFree i)"
    using run_bound_le [of "CATALOG_V3 sku" i] b by (metis add.commute le_diff_eq max_def not_le)
  moreover have "sku = Free_v3 \<longrightarrow> d3_maxRunSeconds d \<le> 3600 \<and> \<not> d3_fromPool d"
    using b by (auto simp: run_bound_def Let_def)
  moreover have "d3_size d \<in> set (o3_machineChoice (CATALOG_V3 sku)) \<or> a3_hold i \<and> sku = Free_v3 \<and> d3_size d = HOLD_SIZE"
    using b unfolding on_hold_def by metis
  ultimately show ?thesis using b cap sku by blast
qed

definition demo_admit3 :: admit3_input where
  "demo_admit3 = \<lparr>a3_sku = Some Free_v3, a3_planActive = True, a3_paymentIssue = False, a3_usedSeconds = 17000,
     a3_legacyFree = False, a3_runningComputers = 0, a3_poolHostAvailable = True, a3_now = Some 5000,
     a3_size = Some Std_2, a3_hold = True\<rparr>"

theorem admit_v3_sound_witness:
  "\<exists>d. admitStartWithAwsCap demo_admit3 False = Inr (Admit3 d) \<and> 17000 + d3_maxRunSeconds d * size_weight (d3_size d) \<le> 18000"
proof -
  obtain d where d: "admitStartWithAwsCap demo_admit3 False = Inr (Admit3 d)"
    by (simp add: admitStartWithAwsCap_def admitStart3_def demo_admit3_def Let_def HOLD_SIZE_def fair_use_of_def requested_size_def on_hold_def run_bound_def iso_range_def)
  show ?thesis
    using admit_v3_sound [OF d] d by (auto simp: demo_admit3_def fair_use_of_def)
qed

text \<open>The fair-use status shown and the start gate agree: a paused user is never admitted, and a user who
  is otherwise eligible is refused for fair use only when less than a minute at the size's weight is left.\<close>

lemma fair_use_agrees_with_gate:
  assumes "a3_sku i = Some sku" and "admitStart3 i = Inr r"
  shows "(fairUseStatusOf (a3_usedSeconds i) (fair_use_of (CATALOG_V3 sku) (a3_legacyFree i)) = Fair_paused \<longrightarrow>
       (\<exists>reason. r = Refuse3 reason)) \<and>
    (r = Refuse3 R3_fair_use_paused \<longrightarrow>
       (\<exists>sz. fair_use_of (CATALOG_V3 sku) (a3_legacyFree i) - a3_usedSeconds i < 60 * size_weight sz \<and>
          (sz \<in> set (o3_machineChoice (CATALOG_V3 sku)) \<or> sz = HOLD_SIZE)))"
proof (intro conjI impI)
  assume p: "fairUseStatusOf (a3_usedSeconds i) (fair_use_of (CATALOG_V3 sku) (a3_legacyFree i)) = Fair_paused"
  show "\<exists>reason. r = Refuse3 reason"
  proof (cases r)
    case (Admit3 d)
    with assms(2) have "admitStart3 i = Inr (Admit3 d)" by simp
    note b = admitStart3_Admit [OF this assms(1)]
    have "fair_use_of (CATALOG_V3 sku) (a3_legacyFree i) \<le> a3_usedSeconds i"
      using p by (simp add: fairUseStatusOf_def split: if_split_asm)
    with run_bound_le [of "CATALOG_V3 sku" i] b
    have "d3_maxRunSeconds d * size_weight (d3_size d) \<le> 0" by simp
    moreover have "0 < d3_maxRunSeconds d * size_weight (d3_size d)" using b by (intro mult_pos_pos) auto
    ultimately show ?thesis by linarith
  qed simp
next
  assume "r = Refuse3 R3_fair_use_paused"
  with assms(2) have "admitStart3 i = Inr (Refuse3 R3_fair_use_paused)" by simp
  from admitStart3_fair_use [OF this assms(1)] show "\<exists>sz. fair_use_of (CATALOG_V3 sku) (a3_legacyFree i) - a3_usedSeconds i < 60 * size_weight sz \<and>
          (sz \<in> set (o3_machineChoice (CATALOG_V3 sku)) \<or> sz = HOLD_SIZE)"
    using run_bound_lt [of sku i] unfolding on_hold_def by metis
qed

lemma fair_use_agrees_with_gate_witness:
  "fairUseStatusOf 18000 (fair_use_of (CATALOG_V3 Free_v3) False) = Fair_paused \<and>
   (\<exists>reason. admitStart3 (demo_admit3\<lparr>a3_usedSeconds := 18000\<rparr>) = Inr (Refuse3 reason))"
proof -
  have "admitStart3 (demo_admit3\<lparr>a3_usedSeconds := 18000\<rparr>) = Inr (Refuse3 R3_fair_use_paused)"
    by (simp add: admitStart3_def demo_admit3_def Let_def HOLD_SIZE_def fair_use_of_def requested_size_def on_hold_def run_bound_def)
  then show ?thesis
    using fair_use_agrees_with_gate [of "demo_admit3\<lparr>a3_usedSeconds := 18000\<rparr>" Free_v3 "Refuse3 R3_fair_use_paused"]
    by (simp add: demo_admit3_def fairUseStatusOf_def fair_use_of_def)
qed

text \<open>A Stripe price names one offer: the offer found by a lookup key has that key, is found again by its
  SKU and is one of the offers the invoice processor matches lines against; every offer matched that way is
  found by its key, and no two of them share one.\<close>

lemma billing_offer_lookup:
  "(billingOfferByLookupKey key = Some b \<longleftrightarrow> b \<in> set paidBillingOffers \<and> bo_stripeLookupKey b = Some key) \<and>
   (b \<in> set paidBillingOffers \<longrightarrow> billingOfferBySku (bo_sku b) = Some b \<and> bo_sellable b) \<and>
   distinct (map bo_stripeLookupKey paidBillingOffers) \<and> None \<notin> set (map bo_stripeLookupKey paidBillingOffers)"
proof -
  note offers = paid_offers
  have fwd: "b \<in> set paidBillingOffers \<and> bo_stripeLookupKey b = Some key" if l: "billingOfferByLookupKey key = Some b"
  proof (cases "offerByLookupKey3 key")
    case (Some o3)
    then obtain s where s: "o3 = CATALOG_V3 s" "o3_stripeLookupKey o3 = Some key" using lookup_key_v3 by blast
    then have "b = of_v3 (CATALOG_V3 s)" using that Some by (simp add: billingOfferByLookupKey_def billing_offer_of_sku)
    then show ?thesis using s by (cases s) (auto simp: offers of_v3_def)
  next
    case None
    then obtain o2 where o2: "offerByLookupKey key = Some o2" "b = of_v2 o2" using l None by (auto simp: billingOfferByLookupKey_def)
    then obtain s where s: "o2 = CATALOG_V2 s" "po_stripeLookupKey o2 = Some key" using lookup_key_v2 by blast
    then show ?thesis using o2 by (cases s) (auto simp: offers of_v2_def)
  qed
  have bwd: "billingOfferByLookupKey key = Some b" if "b \<in> set paidBillingOffers" "bo_stripeLookupKey b = Some key"
    using that paid_offer_by_key by blast
  have sku: "billingOfferBySku (bo_sku b) = Some b \<and> bo_sellable b" if b: "b \<in> set paidBillingOffers"
    using paid_offer_cases [OF b] by (elim disjE) (simp_all only: bo_sku_of billing_offer_of_sku paid_sellable simp_thms)
  have keys: "map bo_stripeLookupKey paidBillingOffers = map Some [''ezil_standard_monthly_v2'',
      ''ezil_compute_monthly_v2'', ''ezil_standard_monthly_v3'', ''ezil_premium_monthly_v3'']"
    unfolding offers by (simp add: of_v2_def of_v3_def)
  have dist: "distinct (map bo_stripeLookupKey paidBillingOffers) \<and> None \<notin> set (map bo_stripeLookupKey paidBillingOffers)"
    unfolding keys by simp
  show ?thesis
    by (rule conjI [OF _ conjI [OF _ dist]]) (use fwd bwd sku in blast)+
qed

lemma billing_offer_lookup_witness:
  "\<exists>b. billingOfferByLookupKey ''ezil_premium_monthly_v3'' = Some b \<and> bo_allowanceStdSeconds b = 1800000 \<and>
     billingOfferBySku (bo_sku b) = Some b"
  using billing_offer_lookup [of "''ezil_premium_monthly_v3''" "of_v3 (CATALOG_V3 Premium_monthly_v3)"]
  by (auto simp: paidBillingOffers_def all_skus_def all_skus3_def of_v3_def)

end
