(* ===== verification/Ports.thy ===== *)
theory Ports
  imports Contract_V3
begin

text \<open>
  The data of the billing ports (\<^verbatim>\<open>app/src/server/billing/ports.ts\<close>): what the store, the Stripe client and
  the processor exchange, JSON values, and the shape of a procedure over a shared state. A procedure keeps
  the state it reached when it throws: writes made before an exception stay, as they do in the database.
  The errors are a parameter of its type, for components that throw classes of their own.
\<close>

subsection \<open>Procedures\<close>

type_synonym ('e, 's, 'a) procedure = "'s \<Rightarrow> ('e + 'a) \<times> 's"
type_synonym ('s, 'a) prog = "(jserror, 's, 'a) procedure"

definition sreturn :: "'a \<Rightarrow> ('e, 's, 'a) procedure" where
  "sreturn x s = (Inr x, s)"

definition sthrow :: "'e \<Rightarrow> ('e, 's, 'a) procedure" where
  "sthrow e s = (Inl e, s)"

definition sbind :: "('e, 's, 'a) procedure \<Rightarrow> ('a \<Rightarrow> ('e, 's, 'b) procedure) \<Rightarrow> ('e, 's, 'b) procedure" where
  "sbind m f s = (case m s of (Inl e, s') \<Rightarrow> (Inl e, s') | (Inr x, s') \<Rightarrow> f x s')"

definition slift :: "('e + 'a) \<Rightarrow> ('e, 's, 'a) procedure" where
  "slift r s = (r, s)"

definition sget :: "('s \<Rightarrow> 'a) \<Rightarrow> ('e, 's, 'a) procedure" where
  "sget f s = (Inr (f s), s)"

fun sfor :: "'a list \<Rightarrow> ('a \<Rightarrow> ('e, 's, unit) procedure) \<Rightarrow> ('e, 's, unit) procedure" where
  "sfor [] f = sreturn ()"
| "sfor (x # xs) f = sbind (f x) (\<lambda>_. sfor xs f)"

lemma prog_simps [simp]:
  "sreturn x s = (Inr x, s)" "sthrow e s = (Inl e, s)" "slift r s = (r, s)" "sget g s = (Inr (g s), s)"
  by (simp_all add: sreturn_def sthrow_def slift_def sget_def)

lemma sbind_Inr [simp]: "m s = (Inr x, s') \<Longrightarrow> sbind m f s = f x s'"
  by (simp add: sbind_def)

lemma sbind_Inl [simp]: "m s = (Inl e, s') \<Longrightarrow> sbind m f s = (Inl e, s')"
  by (simp add: sbind_def)

lemma sbind_eq_InrD: "sbind m f s = (Inr y, t) \<Longrightarrow> \<exists>x s'. m s = (Inr x, s') \<and> f x s' = (Inr y, t)"
  by (auto simp: sbind_def split: prod.splits sum.splits)

text \<open>What a procedure preserves, whether it returns or throws.\<close>

definition preserves :: "('s \<Rightarrow> bool) \<Rightarrow> ('e, 's, 'a) procedure \<Rightarrow> bool" where
  "preserves I m \<longleftrightarrow> (\<forall>s. I s \<longrightarrow> I (snd (m s)))"

lemma preserves_return [billing_intros]: "preserves I (sreturn x)"
  and preserves_throw [billing_intros]: "preserves I (sthrow e)"
  and preserves_lift [billing_intros]: "preserves I (slift r)"
  and preserves_get [billing_intros]: "preserves I (sget f)"
  by (simp_all add: preserves_def)

lemma preserves_bind [billing_intros]:
  assumes "preserves I m" and "\<And>x. preserves I (f x)"
  shows "preserves I (sbind m f)"
  unfolding preserves_def sbind_def
proof (intro allI impI)
  fix s assume "I s"
  then have "I (snd (m s))" using assms(1) by (simp add: preserves_def)
  then show "I (snd (case m s of (Inl e, s') \<Rightarrow> (Inl e, s') | (Inr x, s') \<Rightarrow> f x s'))"
    using assms(2) by (auto simp: preserves_def split: prod.split sum.split)
qed

lemma preserves_for [billing_intros]: "(\<And>x. preserves I (f x)) \<Longrightarrow> preserves I (sfor xs f)"
  by (induction xs) (auto intro: billing_intros)

lemma preserves_if [billing_intros]: "preserves I a \<Longrightarrow> preserves I b \<Longrightarrow> preserves I (if c then a else b)"
  by simp

lemma preserves_case_option [billing_intros]:
  "preserves I a \<Longrightarrow> (\<And>x. preserves I (f x)) \<Longrightarrow> preserves I (case opt of None \<Rightarrow> a | Some x \<Rightarrow> f x)"
  by (cases opt) auto

lemma preserves_case_list [billing_intros]:
  "preserves I a \<Longrightarrow> (\<And>x ys. preserves I (f x ys)) \<Longrightarrow> preserves I (case xs of [] \<Rightarrow> a | x # ys \<Rightarrow> f x ys)"
  by (cases xs) auto

lemma preservesD: "preserves I m \<Longrightarrow> I s \<Longrightarrow> m s = (r, s') \<Longrightarrow> I s'"
  by (force simp: preserves_def)

text \<open>A database transaction: an exception undoes every write.\<close>

definition transaction :: "('e, 's, 'a) procedure \<Rightarrow> ('e, 's, 'a) procedure" where
  "transaction m s = (case m s of (Inl e, _) \<Rightarrow> (Inl e, s) | (Inr x, t) \<Rightarrow> (Inr x, t))"

lemma transaction_inv [billing_intros]: "preserves I m \<Longrightarrow> preserves I (transaction m)"
  by (auto simp: preserves_def transaction_def split: prod.split sum.split)

lemma transaction_Inl: "transaction m s = (Inl e, t) \<Longrightarrow> t = s"
  and transaction_Inr: "transaction m s = (Inr x, t) \<Longrightarrow> m s = (Inr x, t)"
  by (auto simp: transaction_def split: prod.splits sum.splits)

subsection \<open>JSON\<close>

text \<open>A number is an integer or, with no other use, a fraction. An object lists its members; the first
  member of a name counts (a parser keeps one).\<close>

datatype json = JNull | JBool bool | JInt int | JFloat | JStr string | JArr "json list" | JObj "(string \<times> json) list"

text \<open>\<^verbatim>\<open>o.k\<close>; \<open>None\<close> is \<^verbatim>\<open>undefined\<close>.\<close>

definition member_of :: "(string \<times> json) list \<Rightarrow> string \<Rightarrow> json option" where
  "member_of = map_of"

subsection \<open>Store rows\<close>

record subscription_upsert = subscription_row +
  su_userId :: string
  su_stripeEventCreated :: jsdate

datatype GrantSource = Src_invoice | Src_payment_intent | Src_refund | Src_dispute

record grant_insert =
  g_userId :: string
  g_meter :: GrantMeter
  g_kind :: GrantKind
  g_amount :: int
  g_periodStart :: "jsdate option"
  g_periodEnd :: "jsdate option"
  g_sourceType :: GrantSource
  g_sourceId :: string
  g_subscriptionId :: "string option"

record grant_row = grant_insert +
  g_id :: string

datatype OutboxKind = Ai_grant | Ai_revoke | Ai_restore

record outbox_insert =
  ob_eventKey :: string
  ob_userId :: string
  ob_kind :: OutboxKind
  ob_payload :: "(string \<times> json) list"

record stored_compute_epoch = compute_epoch +
  se_deadlineAt :: "jsdate option"
  se_lastHeartbeatAt :: "jsdate option"

text \<open>\<open>oe_sessionMax\<close> is \<open>None\<close> when omitted and \<open>Some None\<close> for \<^verbatim>\<open>null\<close> (no bound).\<close>

record open_epoch_input =
  oe_sessionMax :: "int option option"
  oe_userId :: string
  oe_computerId :: string
  oe_subscriptionId :: "string option"
  oe_size :: SizeCode
  oe_readyAt :: jsdate
  oe_deadlineAt :: "jsdate option"
  oe_overheadSeconds :: int

record close_epoch_input =
  cl_computerId :: string
  cl_epochId :: "string option"
  cl_readyBy :: "jsdate option"
  cl_endedAt :: jsdate
  cl_reason :: EpochEndReason
  cl_overheadSeconds :: "int option"

record overage_consent =
  oc_userId :: string
  oc_subscriptionId :: string
  oc_enabled :: bool
  oc_capCents :: int
  oc_termsVersion :: string
  oc_catalogVersion :: int
  oc_rateCentsPerStdHour :: int
  oc_actor :: string
  oc_acceptedAt :: jsdate

record overage_consent_row = overage_consent +
  oc_id :: int

datatype OverageInvoiceStatus = OI_pending | OI_open | OI_paid | OI_payment_failed | OI_requires_action | OI_void | OI_uncollectible

record overage_invoice =
  oi_userId :: string
  oi_subscriptionId :: string
  oi_periodStart :: jsdate
  oi_periodEnd :: jsdate
  oi_ratingVersion :: int
  oi_stdSecondsOver :: int
  oi_cents :: int

record overage_invoice_row = overage_invoice +
  oi_id :: string
  oi_stripeInvoiceId :: "string option"
  oi_status :: OverageInvoiceStatus

datatype PlanChangeKind = PC_upgrade | PC_downgrade | PC_cancel
datatype PlanChangeState = CS_pending | CS_requires_action | CS_payment_failed | CS_scheduled | CS_applied | CS_expired | CS_canceled

record plan_change =
  pc_userId :: string
  pc_subscriptionId :: string
  pc_kind :: PlanChangeKind
  pc_fromSku :: string
  pc_toSku :: "string option"
  pc_stripeInvoiceId :: "string option"
  pc_stripeScheduleId :: "string option"
  pc_hostedInvoiceUrl :: "string option"
  pc_state :: PlanChangeState
  pc_effectiveAt :: "jsdate option"
  pc_expiresAt :: "jsdate option"

text \<open>The optional fields of an update: \<open>None\<close> leaves the column, \<open>Some v\<close> sets it.\<close>

record plan_change_update =
  pu_userId :: string
  pu_subscriptionId :: string
  pu_kind :: PlanChangeKind
  pu_state :: PlanChangeState
  pu_stripeInvoiceId :: "string option option"
  pu_effectiveAt :: "jsdate option option"
  pu_hostedInvoiceUrl :: "string option option"
  pu_expiresAt :: "jsdate option option"

datatype InvoiceKind = IK_subscription | IK_upgrade | IK_overage
datatype InvoiceIssue = II_payment_failed | II_requires_action | II_voided | II_uncollectible

record payment_issue =
  pi_stripeInvoiceId :: string
  pi_userId :: string
  pi_subscriptionId :: "string option"
  pi_invoiceKind :: InvoiceKind
  pi_issue :: InvoiceIssue
  pi_hostedInvoiceUrl :: "string option"
  pi_stripeEventCreated :: jsdate

record payment_issue_row = payment_issue +
  pi_resolvedAt :: "jsdate option"

record event_insert =
  ev_eventId :: string
  ev_type :: string
  ev_livemode :: bool
  ev_payloadSha256 :: string

datatype record_result = Rec_new | Rec_processed | Rec_unprocessed | Rec_conflict
datatype link_result = Link_linked | Link_exists | Link_conflict
datatype upsert_result = Up_applied | Up_stale | Up_conflict
datatype open_epoch_status = Ep_opened | Ep_exists | Ep_concurrent

subsection \<open>Stripe objects\<close>

record stripe_subscription =
  st_id :: string
  st_customer :: string
  st_status :: string
  st_cancelAtPeriodEnd :: bool
  st_currentPeriodStart :: "jsdate option"
  st_currentPeriodEnd :: "jsdate option"
  st_sku :: "string option"

record invoice_line =
  il_id :: string
  il_lookupKey :: "string option"
  il_subscriptionId :: "string option"
  il_proration :: bool
  il_amount :: int
  il_periodStart :: "jsdate option"
  il_periodEnd :: "jsdate option"

record stripe_invoice =
  in_id :: string
  in_customer :: string
  in_status :: string
  in_subscriptionId :: "string option"
  in_billingReason :: "string option"
  in_metadataKind :: "string option"
  in_hostedInvoiceUrl :: "string option"
  in_lines :: "invoice_line list"
  in_periodStart :: "jsdate option"
  in_periodEnd :: "jsdate option"

record stripe_session =
  cs_id :: string
  cs_customer :: "string option"
  cs_clientReferenceId :: "string option"
  cs_mode :: string
  cs_paymentStatus :: string
  cs_paymentIntentId :: "string option"
  cs_sku :: "string option"
  cs_amountTotal :: "int option"
  cs_currency :: "string option"
  cs_metadataCredits :: "string option"

record stripe_charge =
  ch_id :: string
  ch_customer :: "string option"
  ch_invoiceId :: "string option"
  ch_paymentIntentId :: "string option"
  ch_amount :: int
  ch_amountRefunded :: int
  ch_refunded :: bool

datatype invoice_payment_state = IP_paid | IP_requires_action | IP_processing | IP_failed | IP_none

record pack_price =
  pp_id :: string
  pp_productId :: "string option"
  pp_active :: bool
  pp_type :: string
  pp_priceCurrency :: string
  pp_unitAmount :: "int option"

record checkout_line_item =
  li_quantity :: "int option"
  li_price :: "pack_price option"

record stripe_product =
  pd_id :: string
  pd_active :: bool
  pd_defaultPrice :: "string option"
  pd_metadata :: "(string \<times> string) list"

text \<open>The reads of the Stripe client the processor makes. The client is a parameter: each call answers or throws.\<close>

record stripe_api =
  retrieveSubscription :: "string \<Rightarrow> stripe_subscription res"
  retrieveInvoice :: "string \<Rightarrow> stripe_invoice res"
  retrieveInvoicePaymentState :: "string \<Rightarrow> invoice_payment_state res"
  retrieveCheckoutSession :: "string \<Rightarrow> stripe_session res"
  retrieveCharge :: "string \<Rightarrow> stripe_charge res"
  retrieveCheckoutLineItems :: "string \<Rightarrow> checkout_line_item list res"
  retrieveProduct :: "string \<Rightarrow> stripe_product res"

datatype UsageEvent =
    Usage_start string jsdate
  | Usage_heartbeat string jsdate
  | Usage_stop string jsdate "string option"
  | Usage_storage string jsdate string

end
