(* ===== verification/Stripe_Events.thy ===== *)
theory Stripe_Events
  imports Ports
begin

text \<open>
  The meaning of Stripe events (\<^verbatim>\<open>app/src/server/billing/stripe/events.ts\<close>): from the members of an event
  object to the billing actions it asks for. Invalid facts throw a TypeError; expanded references and
  metadata change nothing.
\<close>

datatype billing_action =
    Link_customer string string string  \<comment> \<open>customer, client reference, event\<close>
  | Topup_paid string string string string  \<comment> \<open>payment intent, customer, session, event\<close>
  | Grant_period string "string option" string "jsdate option" "jsdate option" string
      \<comment> \<open>invoice, subscription, customer, period start and end, event\<close>
  | Sync_subscription string string jsdate "string option"  \<comment> \<open>subscription, event, created, failed invoice\<close>
  | Invoice_issue string InvoiceIssue jsdate
  | Plan_change string PlanChangeState jsdate
  | Revoke string string string  \<comment> \<open>charge, refund, event\<close>
  | Suspend string string string
  | Restore string string string

type_synonym members = "(string \<times> json) list"

subsection \<open>Checked reads\<close>

definition object_of :: "json option \<Rightarrow> members res" where
  "object_of v = (case v of Some (JObj ms) \<Rightarrow> Inr ms | _ \<Rightarrow> Inl TypeError)"

definition text_of :: "json option \<Rightarrow> string res" where
  "text_of v = (case v of Some (JStr s) \<Rightarrow> if js_trim s = [] then Inl TypeError else Inr s | _ \<Rightarrow> Inl TypeError)"

definition stripeId :: "json option \<Rightarrow> string res" where
  "stripeId v = (case v of
     Some (JStr s) \<Rightarrow> text_of v
   | _ \<Rightarrow> rbind (object_of v) (\<lambda>ms. text_of (member_of ms ''id'')))"

definition date_of :: "json option \<Rightarrow> jsdate res" where
  "date_of v = (case v of
     Some (JInt n) \<Rightarrow>
       if \<not> is_safe_integer n \<or> n < 0 then Inl TypeError
       else (case new_Date (n * 1000) of None \<Rightarrow> Inl TypeError | Some ms \<Rightarrow> Inr (Some ms))
   | _ \<Rightarrow> Inl TypeError)"

definition list_of :: "json option \<Rightarrow> json list res" where
  "list_of v = (case v of Some (JArr xs) \<Rightarrow> Inr xs | _ \<Rightarrow> Inl TypeError)"

text \<open>\<^verbatim>\<open>v == null\<close>\<close>

definition nullish :: "json option \<Rightarrow> bool" where
  "nullish v \<longleftrightarrow> v = None \<or> v = Some JNull"

definition opt_id :: "json option \<Rightarrow> string option res" where
  "opt_id v = rbind (stripeId v) (\<lambda>s. Inr (Some s))"

text \<open>\<^verbatim>\<open>findIndex\<close> with a predicate that may throw: the elements before the match are tested, no others.\<close>

fun find_res :: "('a \<Rightarrow> bool res) \<Rightarrow> 'a list \<Rightarrow> 'a option res" where
  "find_res P [] = Inr None"
| "find_res P (x # xs) = rbind (P x) (\<lambda>b. if b then Inr (Some x) else find_res P xs)"

text \<open>The owner of an invoice, and of one of its lines: directly, or under \<^verbatim>\<open>parent\<close>.\<close>

definition owner_of :: "string \<Rightarrow> (string \<Rightarrow> json option) \<Rightarrow> string option res" where
  "owner_of details_key get =
     (if \<not> nullish (get ''subscription'') then opt_id (get ''subscription'')
      else if nullish (get ''parent'') then Inr None
      else rbind (object_of (get ''parent'')) (\<lambda>parent.
        if nullish (member_of parent details_key) then Inr None
        else rbind (object_of (member_of parent details_key)) (\<lambda>details.
          if nullish (member_of details ''subscription'') then Inr None
          else opt_id (member_of details ''subscription''))))"

definition invoiceSubscription :: "(string \<Rightarrow> json option) \<Rightarrow> string option res" where
  "invoiceSubscription = owner_of ''subscription_details''"

definition lineSubscription :: "members \<Rightarrow> string option res" where
  "lineSubscription line = owner_of ''subscription_item_details'' (member_of line)"

subsection \<open>Planning\<close>

definition topup :: "(string \<Rightarrow> json option) \<Rightarrow> string \<Rightarrow> billing_action res" where
  "topup get eventId =
     rbind (stripeId (get ''payment_intent'')) (\<lambda>pid.
     rbind (stripeId (get ''customer'')) (\<lambda>customer.
     rbind (text_of (get ''id'')) (\<lambda>session.
       Inr (Topup_paid pid customer session eventId))))"

definition one :: "'a res \<Rightarrow> 'a list res" where
  "one r = rbind r (\<lambda>x. Inr [x])"

definition plan_checkout :: "(string \<Rightarrow> json option) \<Rightarrow> string \<Rightarrow> billing_action list res" where
  "plan_checkout get eventId =
     rbind (text_of (get ''mode'')) (\<lambda>mode.
     rbind (text_of (get ''payment_status'')) (\<lambda>paymentStatus.
     rbind (case get ''client_reference_id'' of
              Some (JStr ref) \<Rightarrow>
                if js_trim ref \<noteq> [] \<and> \<not> nullish (get ''customer'')
                then rbind (stripeId (get ''customer'')) (\<lambda>c. Inr [Link_customer c ref eventId])
                else Inr []
            | _ \<Rightarrow> Inr []) (\<lambda>link.
     rbind (if mode = ''payment'' \<and> paymentStatus = ''paid'' then one (topup get eventId) else Inr []) (\<lambda>paid.
       Inr (link @ paid)))))"

definition owned_by :: "string \<Rightarrow> members \<Rightarrow> bool res" where
  "owned_by sid line = rbind (lineSubscription line) (\<lambda>o'. Inr (o' = Some sid))"

text \<open>A line without an owner that is still a subscription's.\<close>

definition unowned_subscription_line :: "members \<Rightarrow> bool res" where
  "unowned_subscription_line line = rbind (lineSubscription line) (\<lambda>o'.
     if o' \<noteq> None then Inr False
     else if member_of line ''type'' = Some (JStr ''subscription'') then Inr True
     else if nullish (member_of line ''parent'') then Inr False
     else rbind (object_of (member_of line ''parent'')) (\<lambda>parent.
       Inr (member_of parent ''type'' = Some (JStr ''subscription_item_details''))))"

definition period_of :: "members \<Rightarrow> (jsdate \<times> jsdate) res" where
  "period_of line =
     rbind (object_of (member_of line ''period'')) (\<lambda>period.
     rbind (date_of (member_of period ''start'')) (\<lambda>s.
     rbind (date_of (member_of period ''end'')) (\<lambda>e.
       if the e \<le> the s then Inl TypeError else Inr (s, e))))"

definition plan_invoice_paid :: "(string \<Rightarrow> json option) \<Rightarrow> string \<Rightarrow> billing_action list res" where
  "plan_invoice_paid get eventId =
     rbind (invoiceSubscription get) (\<lambda>subscriptionId.
     rbind (if subscriptionId = None \<and> nullish (get ''lines'') then Inr []
            else rbind (object_of (get ''lines'')) (\<lambda>ls. list_of (member_of ls ''data''))) (\<lambda>jlines.
     rbind (res_map (\<lambda>j. object_of (Some j)) jlines) (\<lambda>records.
     rbind (case subscriptionId of None \<Rightarrow> Inr None | Some sid \<Rightarrow> find_res (owned_by sid) records) (\<lambda>owned.
     rbind (case owned of Some l \<Rightarrow> Inr (Some l) | None \<Rightarrow> find_res unowned_subscription_line records) (\<lambda>selected.
     rbind (case selected of None \<Rightarrow> Inr (None, None)
            | Some l \<Rightarrow> rbind (period_of l) (\<lambda>(s, e). Inr (Some s, Some e))) (\<lambda>(periodStart, periodEnd).
     rbind (text_of (get ''id'')) (\<lambda>invoiceId.
     rbind (stripeId (get ''customer'')) (\<lambda>customer.
       Inr [Grant_period invoiceId subscriptionId customer periodStart periodEnd eventId]))))))))"

definition plan_payment_failed :: "(string \<Rightarrow> json option) \<Rightarrow> string \<Rightarrow> jsdate \<Rightarrow> billing_action list res" where
  "plan_payment_failed get eventId eventCreated =
     rbind (invoiceSubscription get) (\<lambda>subscriptionId.
     rbind (text_of (get ''id'')) (\<lambda>invoiceId.
       Inr (case subscriptionId of
              None \<Rightarrow> [Invoice_issue invoiceId II_payment_failed eventCreated]
            | Some sid \<Rightarrow> [Sync_subscription sid eventId eventCreated (Some invoiceId)])))"

definition plan_charge_refunded :: "(string \<Rightarrow> json option) \<Rightarrow> string \<Rightarrow> billing_action list res" where
  "plan_charge_refunded get eventId =
     (if nullish (get ''refunds'') then Inr []
      else rbind (object_of (get ''refunds'')) (\<lambda>o'.
           rbind (list_of (member_of o' ''data'')) (\<lambda>refunds.
             if refunds = [] then Inr []
             else rbind (text_of (get ''id'')) (\<lambda>chargeId.
               res_map (\<lambda>r. rbind (object_of (Some r)) (\<lambda>ms. rbind (text_of (member_of ms ''id'')) (\<lambda>refundId.
                 Inr (Revoke chargeId refundId eventId)))) refunds))))"

definition plan_dispute :: "bool \<Rightarrow> (string \<Rightarrow> json option) \<Rightarrow> string \<Rightarrow> billing_action list res" where
  "plan_dispute closed get eventId =
     rbind (stripeId (get ''charge'')) (\<lambda>chargeId.
     rbind (text_of (get ''id'')) (\<lambda>disputeId.
       if closed
       then rbind (text_of (get ''status'')) (\<lambda>status.
              Inr (if status \<noteq> ''won'' then [] else [Restore chargeId disputeId eventId]))
       else Inr [Suspend chargeId disputeId eventId]))"

definition plan_object :: "string \<Rightarrow> string \<Rightarrow> jsdate \<Rightarrow> (string \<Rightarrow> json option) \<Rightarrow> billing_action list res" where
  "plan_object eventType eventId eventCreated get =
     (if eventType = ''checkout.session.completed'' then plan_checkout get eventId
      else if eventType = ''checkout.session.async_payment_succeeded'' then one (topup get eventId)
      else if eventType = ''invoice.paid'' then plan_invoice_paid get eventId
      else if eventType = ''invoice.payment_failed'' then plan_payment_failed get eventId eventCreated
      else if eventType \<in> {''invoice.payment_action_required'', ''invoice.voided'', ''invoice.marked_uncollectible''} then
        rbind (text_of (get ''id'')) (\<lambda>i. Inr [Invoice_issue i
          (if eventType = ''invoice.payment_action_required'' then II_requires_action
           else if eventType = ''invoice.voided'' then II_voided else II_uncollectible) eventCreated])
      else if eventType \<in> {''customer.subscription.pending_update_applied'', ''customer.subscription.pending_update_expired''} then
        rbind (text_of (get ''id'')) (\<lambda>i. Inr [Plan_change i
          (if eventType = ''customer.subscription.pending_update_applied'' then CS_applied else CS_expired) eventCreated])
      else if eventType \<in> {''customer.subscription.created'', ''customer.subscription.updated'', ''customer.subscription.deleted''} then
        rbind (text_of (get ''id'')) (\<lambda>i. Inr [Sync_subscription i eventId eventCreated None])
      else if eventType \<in> {''refund.created'', ''refund.updated''} then
        rbind (stripeId (get ''charge'')) (\<lambda>c. rbind (text_of (get ''id'')) (\<lambda>r. Inr [Revoke c r eventId]))
      else if eventType = ''charge.refunded'' then plan_charge_refunded get eventId
      else if eventType = ''charge.dispute.created'' then plan_dispute False get eventId
      else if eventType = ''charge.dispute.closed'' then plan_dispute True get eventId
      else Inr [])"

text \<open>An event is the JSON value delivered; reads of a non-object throw.\<close>

definition planStripeEvent :: "json \<Rightarrow> billing_action list res" where
  "planStripeEvent event =
     rbind (object_of (Some event)) (\<lambda>envelope.
     rbind (text_of (member_of envelope ''id'')) (\<lambda>eventId.
     rbind (text_of (member_of envelope ''type'')) (\<lambda>eventType.
     rbind (date_of (member_of envelope ''created'')) (\<lambda>eventCreated.
     rbind (case member_of envelope ''livemode'' of Some (JBool b) \<Rightarrow> Inr b | _ \<Rightarrow> Inl TypeError) (\<lambda>_.
     rbind (object_of (member_of envelope ''data'')) (\<lambda>data.
     rbind (object_of (member_of data ''object'')) (\<lambda>payload.
       plan_object eventType eventId eventCreated (member_of payload))))))))"

subsection \<open>Lemmas\<close>

lemma date_of_Inr: "date_of v = Inr d \<Longrightarrow> \<exists>n. v = Some (JInt n) \<and> 0 \<le> n \<and> d = Some (n * 1000)"
  by (auto simp: date_of_def new_Date_def split: option.splits json.splits if_splits)

lemma find_res_Some: "find_res P xs = Inr (Some x) \<Longrightarrow> x \<in> set xs \<and> P x = Inr True"
  by (induction xs) (auto split: if_splits)

lemma period_of_Inr: "period_of l = Inr (s, e) \<Longrightarrow> \<exists>a b. s = Some a \<and> e = Some b \<and> a < b"
  by (auto simp: period_of_def split: if_splits dest!: date_of_Inr)

text \<open>Every read throws a TypeError and nothing else.\<close>

definition type_error_only :: "'a res \<Rightarrow> bool" where
  "type_error_only r \<longleftrightarrow> (\<forall>e. r = Inl e \<longrightarrow> e = TypeError)"

lemma type_error_rules [intro]:
  "type_error_only (Inr x)" "type_error_only (Inl TypeError)"
  "type_error_only r \<Longrightarrow> (\<And>x. r = Inr x \<Longrightarrow> type_error_only (f x)) \<Longrightarrow> type_error_only (rbind r f)"
  "type_error_only (object_of v)" "type_error_only (text_of v)" "type_error_only (date_of v)" "type_error_only (list_of v)"
  by (auto simp: type_error_only_def rbind_eq_Inl object_of_def text_of_def date_of_def list_of_def
      split: option.splits json.splits if_splits)

lemma type_error_stripeId [intro]: "type_error_only (stripeId v)"
  unfolding stripeId_def by (auto split: option.splits json.splits)

lemma type_error_opt_id [intro]: "type_error_only (opt_id v)"
  unfolding opt_id_def by blast

lemma type_error_if [intro]: "type_error_only a \<Longrightarrow> type_error_only b \<Longrightarrow> type_error_only (if c then a else b)"
  by simp

lemma type_error_owner_of [intro]: "type_error_only (owner_of k get)"
  unfolding owner_of_def by (intro type_error_if type_error_rules type_error_opt_id)

lemma type_error_res_map [intro]: "(\<And>x. type_error_only (f x)) \<Longrightarrow> type_error_only (res_map f xs)"
  by (induction xs) auto

lemma type_error_find_res [intro]: "(\<And>x. type_error_only (f x)) \<Longrightarrow> type_error_only (find_res f xs)"
  by (induction xs) auto

lemma type_error_topup [intro]: "type_error_only (topup get e)"
  unfolding topup_def by blast

lemma type_error_owned [intro]: "type_error_only (owned_by s l)" "type_error_only (unowned_subscription_line l)"
  "type_error_only (period_of l)"
  unfolding owned_by_def unowned_subscription_line_def period_of_def lineSubscription_def
  by (blast, (rule type_error_rules type_error_if type_error_owner_of)+)

lemma type_error_case_option:
  "type_error_only a \<Longrightarrow> (\<And>x. type_error_only (f x)) \<Longrightarrow> type_error_only (case v of None \<Rightarrow> a | Some x \<Rightarrow> f x)"
  by (cases v) auto

lemma type_error_plan_object: "type_error_only (plan_object t e c get)"
proof -
  have checkout: "type_error_only (plan_checkout get e)"
    unfolding plan_checkout_def one_def
    by (auto split: option.splits json.splits intro!: type_error_rules)
  have paid: "type_error_only (plan_invoice_paid get e)"
    unfolding plan_invoice_paid_def invoiceSubscription_def
    by (intro type_error_rules(3) type_error_owner_of type_error_if type_error_rules type_error_res_map type_error_case_option
        type_error_find_res type_error_owned) (auto intro!: type_error_rules)
  have rest: "type_error_only (plan_payment_failed get e c)" "type_error_only (plan_charge_refunded get e)"
    "type_error_only (plan_dispute b get e)" for b
    unfolding plan_payment_failed_def plan_charge_refunded_def plan_dispute_def invoiceSubscription_def
    by (blast, (rule type_error_rules type_error_if type_error_res_map type_error_stripeId)+)
  show ?thesis
    unfolding plan_object_def one_def
    by (intro type_error_if checkout paid rest type_error_rules type_error_topup type_error_stripeId)
qed

lemma planStripeEvent_TypeError: "type_error_only (planStripeEvent ev)"
  unfolding planStripeEvent_def
  by (intro type_error_rules(3) type_error_rules type_error_plan_object) (auto split: option.splits json.splits)

subsection \<open>Properties\<close>

text \<open>The members the plan may read, and those that are references.\<close>

definition payload_equiv :: "(string \<Rightarrow> json option) \<Rightarrow> (string \<Rightarrow> json option) \<Rightarrow> bool" where
  "payload_equiv get get' \<longleftrightarrow>
     (\<forall>k \<in> {''id'', ''mode'', ''payment_status'', ''client_reference_id'', ''parent'', ''lines'', ''refunds'', ''status''}. get k = get' k) \<and>
     (\<forall>k \<in> {''customer'', ''charge'', ''payment_intent'', ''subscription''}.
        nullish (get k) = nullish (get' k) \<and> stripeId (get k) = stripeId (get' k))"

lemma payload_equivD:
  assumes "payload_equiv get get'"
  shows "get ''id'' = get' ''id''" "get ''mode'' = get' ''mode''" "get ''payment_status'' = get' ''payment_status''"
    "get ''client_reference_id'' = get' ''client_reference_id''" "get ''parent'' = get' ''parent''"
    "get ''lines'' = get' ''lines''" "get ''refunds'' = get' ''refunds''" "get ''status'' = get' ''status''"
    "nullish (get ''customer'') = nullish (get' ''customer'')" "stripeId (get ''customer'') = stripeId (get' ''customer'')"
    "stripeId (get ''charge'') = stripeId (get' ''charge'')" "stripeId (get ''payment_intent'') = stripeId (get' ''payment_intent'')"
    "nullish (get ''subscription'') = nullish (get' ''subscription'')" "opt_id (get ''subscription'') = opt_id (get' ''subscription'')"
  using assms unfolding payload_equiv_def opt_id_def by (simp_all only: ball_simps simp_thms)

lemma plan_object_equiv:
  assumes "payload_equiv get get'"
  shows "plan_object t e c get = plan_object t e c get'"
proof -
  note eq = payload_equivD [OF assms]
  have sub: "invoiceSubscription get = invoiceSubscription get'"
    unfolding invoiceSubscription_def owner_of_def eq ..
  have "topup get e = topup get' e" "plan_checkout get e = plan_checkout get' e" "plan_invoice_paid get e = plan_invoice_paid get' e"
    "plan_payment_failed get e c = plan_payment_failed get' e c" "plan_charge_refunded get e = plan_charge_refunded get' e"
    "plan_dispute b get e = plan_dispute b get' e" for b
    unfolding topup_def plan_checkout_def plan_invoice_paid_def plan_payment_failed_def plan_charge_refunded_def
      plan_dispute_def sub eq by (rule refl)+
  then show ?thesis unfolding plan_object_def eq by (simp only:)
qed

text \<open>A Stripe payload cannot choose who is billed through its metadata, and expanding a reference changes
  nothing: two events with the same envelope whose objects agree on the members the plan may read, and whose
  customer, charge, payment intent and subscription references name the same ids in either form, ask for the
  same actions or fail alike; all other members, metadata included, are ignored.\<close>

lemma plan_ignores_metadata_and_expansion:
  assumes "payload_equiv (member_of p) (member_of p')"
  shows "planStripeEvent (JObj [(''id'', i), (''type'', t), (''created'', c), (''livemode'', l), (''data'', JObj [(''object'', JObj p)])]) =
    planStripeEvent (JObj [(''id'', i), (''type'', t), (''created'', c), (''livemode'', l), (''data'', JObj [(''object'', JObj p')])])"
  using plan_object_equiv [OF assms]
  by (simp add: planStripeEvent_def object_of_def member_of_def)

definition demo_refund :: "json \<Rightarrow> json \<Rightarrow> members" where
  "demo_refund meta charge = [(''id'', JStr ''re_1''), (''metadata'', meta), (''charge'', charge)]"

lemma plan_ignores_metadata_and_expansion_witness:
  "planStripeEvent (JObj [(''id'', JStr ''evt_1''), (''type'', JStr ''refund.created''), (''created'', JInt 5), (''livemode'', JBool True),
      (''data'', JObj [(''object'', JObj (demo_refund (JObj [(''user'', JStr ''mallory'')]) (JObj [(''id'', JStr ''ch_1'')])))])]) =
   planStripeEvent (JObj [(''id'', JStr ''evt_1''), (''type'', JStr ''refund.created''), (''created'', JInt 5), (''livemode'', JBool True),
      (''data'', JObj [(''object'', JObj (demo_refund JNull (JStr ''ch_1'')))])])"
proof (rule plan_ignores_metadata_and_expansion)
  show "payload_equiv (member_of (demo_refund (JObj [(''user'', JStr ''mallory'')]) (JObj [(''id'', JStr ''ch_1'')])))
      (member_of (demo_refund JNull (JStr ''ch_1'')))"
    by (simp add: payload_equiv_def demo_refund_def member_of_def nullish_def stripeId_def object_of_def)
qed

text \<open>What each action presupposes of the event.\<close>

fun action_justified :: "string \<Rightarrow> (string \<Rightarrow> json option) \<Rightarrow> billing_action \<Rightarrow> bool" where
  "action_justified t get (Grant_period i sub c ps pe e) \<longleftrightarrow> t = ''invoice.paid'' \<and>
     (ps = None \<and> pe = None \<or> (\<exists>a b. ps = Some (Some a) \<and> pe = Some (Some b) \<and> a < b))"
| "action_justified t get (Topup_paid p c s e) \<longleftrightarrow> t = ''checkout.session.async_payment_succeeded'' \<or>
     t = ''checkout.session.completed'' \<and> get ''mode'' = Some (JStr ''payment'') \<and> get ''payment_status'' = Some (JStr ''paid'')"
| "action_justified t get (Link_customer c r e) \<longleftrightarrow> t = ''checkout.session.completed'' \<and> get ''client_reference_id'' = Some (JStr r)"
| "action_justified t get (Revoke c r e) \<longleftrightarrow> t \<in> {''refund.created'', ''refund.updated'', ''charge.refunded''}"
| "action_justified t get (Suspend c d e) \<longleftrightarrow> t = ''charge.dispute.created''"
| "action_justified t get (Restore c d e) \<longleftrightarrow> t = ''charge.dispute.closed'' \<and> get ''status'' = Some (JStr ''won'')"
| "action_justified t get (Invoice_issue i k c) \<longleftrightarrow> k = II_payment_failed \<and> t = ''invoice.payment_failed'' \<or>
     k = II_requires_action \<and> t = ''invoice.payment_action_required'' \<or> k = II_voided \<and> t = ''invoice.voided'' \<or>
     k = II_uncollectible \<and> t = ''invoice.marked_uncollectible''"
| "action_justified t get (Plan_change s k c) \<longleftrightarrow> k = CS_applied \<and> t = ''customer.subscription.pending_update_applied'' \<or>
     k = CS_expired \<and> t = ''customer.subscription.pending_update_expired''"
| "action_justified t get (Sync_subscription s e c i) \<longleftrightarrow> (i \<noteq> None \<longleftrightarrow> t = ''invoice.payment_failed'') \<and>
     t \<in> {''invoice.payment_failed'', ''customer.subscription.created'', ''customer.subscription.updated'', ''customer.subscription.deleted''}"

lemma text_of_Inr: "text_of v = Inr s \<Longrightarrow> v = Some (JStr s)"
  by (auto simp: text_of_def split: option.splits json.splits if_splits)

lemma topup_justified:
  "topup get e = Inr a \<Longrightarrow> t = ''checkout.session.async_payment_succeeded'' \<or> t = ''checkout.session.completed'' \<and>
     get ''mode'' = Some (JStr ''payment'') \<and> get ''payment_status'' = Some (JStr ''paid'') \<Longrightarrow> action_justified t get a"
  by (auto simp: topup_def)

lemma checkout_justified:
  assumes "plan_checkout get e = Inr acts" and "a \<in> set acts"
  shows "action_justified ''checkout.session.completed'' get a"
proof -
  obtain mode status link paid where m: "text_of (get ''mode'') = Inr mode" "text_of (get ''payment_status'') = Inr status"
    and link: "(case get ''client_reference_id'' of
              Some (JStr ref) \<Rightarrow>
                if js_trim ref \<noteq> [] \<and> \<not> nullish (get ''customer'')
                then rbind (stripeId (get ''customer'')) (\<lambda>c. Inr [Link_customer c ref e])
                else Inr []
            | _ \<Rightarrow> Inr []) = Inr link"
    and paid: "(if mode = ''payment'' \<and> status = ''paid'' then one (topup get e) else Inr []) = Inr paid"
    and acts: "acts = link @ paid"
    using assms(1) by (auto simp: plan_checkout_def)
  have "action_justified ''checkout.session.completed'' get b" if "b \<in> set link" for b
    using link that by (auto split: option.splits json.splits if_splits)
  moreover have "action_justified ''checkout.session.completed'' get b" if "b \<in> set paid" for b
    using paid that text_of_Inr [OF m(1)] text_of_Inr [OF m(2)]
    by (auto simp: one_def intro: topup_justified split: if_splits)
  ultimately show ?thesis using assms(2) acts by auto
qed

lemma invoice_paid_justified:
  assumes "plan_invoice_paid get e = Inr acts" and "a \<in> set acts"
  shows "action_justified ''invoice.paid'' get a"
proof -
  obtain i sub c ps pe sel where a: "acts = [Grant_period i sub c ps pe e]"
    and p: "(case sel of None \<Rightarrow> Inr (None, None) | Some l \<Rightarrow> rbind (period_of l) (\<lambda>(s, e). Inr (Some s, Some e))) = Inr (ps, pe)"
    using assms(1) unfolding plan_invoice_paid_def by (auto simp: split_beta)
  then show ?thesis using assms(2) by (cases sel) (auto dest!: period_of_Inr)
qed

lemma refunded_justified:
  assumes "plan_charge_refunded get e = Inr acts" and "a \<in> set acts"
  shows "action_justified ''charge.refunded'' get a"
proof -
  obtain rs cid where "res_map (\<lambda>r. rbind (object_of (Some r)) (\<lambda>ms. rbind (text_of (member_of ms ''id'')) (\<lambda>refundId.
                 Inr (Revoke cid refundId e)))) rs = Inr acts"
    using assms by (auto simp: plan_charge_refunded_def split: if_splits)
  from res_map_mem [OF this assms(2)] show ?thesis by auto
qed

lemma plan_object_eqs:
  "plan_object ''checkout.session.completed'' e c get = plan_checkout get e"
  "plan_object ''checkout.session.async_payment_succeeded'' e c get = one (topup get e)"
  "plan_object ''invoice.paid'' e c get = plan_invoice_paid get e"
  "plan_object ''invoice.payment_failed'' e c get = plan_payment_failed get e c"
  "plan_object ''charge.refunded'' e c get = plan_charge_refunded get e"
  "plan_object ''charge.dispute.created'' e c get = plan_dispute False get e"
  "plan_object ''charge.dispute.closed'' e c get = plan_dispute True get e"
  by (simp_all add: plan_object_def)

definition id_only_types :: "string list" where
  "id_only_types = [''invoice.payment_action_required'', ''invoice.voided'', ''invoice.marked_uncollectible'',
     ''customer.subscription.pending_update_applied'', ''customer.subscription.pending_update_expired'',
     ''customer.subscription.created'', ''customer.subscription.updated'', ''customer.subscription.deleted'',
     ''refund.created'', ''refund.updated'']"

definition full_types :: "string list" where
  "full_types = [''checkout.session.completed'', ''checkout.session.async_payment_succeeded'', ''invoice.paid'',
     ''invoice.payment_failed'', ''charge.refunded'', ''charge.dispute.created'', ''charge.dispute.closed'']"

lemma plan_object_other: "t \<notin> set id_only_types \<Longrightarrow> t \<notin> set full_types \<Longrightarrow> plan_object t e c get = Inr []"
  by (simp add: plan_object_def id_only_types_def full_types_def)

lemma id_only_justified:
  assumes "plan_object t e c get = Inr acts" and "a \<in> set acts" and "t \<in> set id_only_types"
  shows "action_justified t get a"
  using assms(3,1,2) unfolding id_only_types_def list.set insert_iff empty_iff
  by (elim disjE) (simp_all add: plan_object_def, auto)

lemma full_justified:
  assumes p: "plan_object t e c get = Inr acts" and a: "a \<in> set acts" and t: "t \<in> set full_types"
  shows "action_justified t get a"
proof -
  have failed: "action_justified ''invoice.payment_failed'' get a" if "plan_payment_failed get e c = Inr acts"
    using that a by (auto simp: plan_payment_failed_def split: option.splits)
  have dispute: "action_justified (if b then ''charge.dispute.closed'' else ''charge.dispute.created'') get a"
    if "plan_dispute b get e = Inr acts" for b
    using that a by (auto simp: plan_dispute_def dest!: text_of_Inr split: if_splits)
  have async: "action_justified ''checkout.session.async_payment_succeeded'' get a" if "one (topup get e) = Inr acts"
    using that a by (auto simp: one_def intro: topup_justified)
  show ?thesis
    using t p unfolding full_types_def list.set insert_iff empty_iff
    by (elim disjE)
      (simp_all only: plan_object_eqs checkout_justified [OF _ a] invoice_paid_justified [OF _ a] refunded_justified [OF _ a] failed async,
        use dispute [of False] dispute [of True] in auto)
qed

lemma plan_object_justified:
  "plan_object t e c get = Inr acts \<Longrightarrow> a \<in> set acts \<Longrightarrow> action_justified t get a"
  using id_only_justified full_justified plan_object_other
  by (metis list.set(1) empty_iff sum.inject(2))

text \<open>Planning is safe on any input: a malformed event throws a TypeError, never anything else, and every
  action planned is justified by the event: a period is granted only for a paid invoice and only over a
  period that ends after it starts, a top-up only for a paid payment session, a revocation only for a refund,
  a suspension only for an opened dispute and a restoration only for a dispute closed as won.\<close>

lemma planned_actions_justified:
  "(planStripeEvent ev = Inl err \<longrightarrow> err = TypeError) \<and>
   (planStripeEvent ev = Inr acts \<and> a \<in> set acts \<longrightarrow>
      (\<exists>envelope data payload t. ev = JObj envelope \<and> member_of envelope ''type'' = Some (JStr t) \<and>
         member_of envelope ''data'' = Some (JObj data) \<and> member_of data ''object'' = Some (JObj payload) \<and>
         action_justified t (member_of payload) a))"
proof (intro conjI impI)
  show "planStripeEvent ev = Inl err \<Longrightarrow> err = TypeError"
    using planStripeEvent_TypeError by (auto simp: type_error_only_def)
  assume a: "planStripeEvent ev = Inr acts \<and> a \<in> set acts"
  have obj: "object_of v = Inr ms \<Longrightarrow> v = Some (JObj ms)" for v ms
    by (auto simp: object_of_def split: option.splits json.splits)
  obtain envelope i t c data payload where e: "ev = JObj envelope" "member_of envelope ''type'' = Some (JStr t)"
    "member_of envelope ''data'' = Some (JObj data)" "member_of data ''object'' = Some (JObj payload)"
    "plan_object t i c (member_of payload) = Inr acts"
    using a unfolding planStripeEvent_def by (auto dest!: obj text_of_Inr)
  then show "\<exists>envelope data payload t. ev = JObj envelope \<and> member_of envelope ''type'' = Some (JStr t) \<and>
         member_of envelope ''data'' = Some (JObj data) \<and> member_of data ''object'' = Some (JObj payload) \<and>
         action_justified t (member_of payload) a"
    using plan_object_justified [OF e(5)] a by blast
qed

lemma planned_actions_justified_witness:
  "planStripeEvent (JObj [(''id'', JStr ''evt_1''), (''type'', JStr ''charge.dispute.closed''), (''created'', JInt 5),
      (''livemode'', JBool True), (''data'', JObj [(''object'', JObj [(''id'', JStr ''dp_1''), (''charge'', JStr ''ch_1''),
         (''status'', JStr ''won'')])])]) = Inr [Restore ''ch_1'' ''dp_1'' ''evt_1''] \<and>
   (\<exists>t get. action_justified t get (Restore ''ch_1'' ''dp_1'' ''evt_1''))"
proof -
  have t: "text_of (Some (JStr ''evt_1'')) = Inr ''evt_1''" "text_of (Some (JStr ''charge.dispute.closed'')) = Inr ''charge.dispute.closed''"
    "text_of (Some (JStr ''dp_1'')) = Inr ''dp_1''" "text_of (Some (JStr ''ch_1'')) = Inr ''ch_1''" "text_of (Some (JStr ''won'')) = Inr ''won''"
    by (simp_all add: text_of_def js_trim_def is_space_def)
  have d: "date_of (Some (JInt 5)) = Inr (Some 5000)"
    by (simp add: date_of_def is_safe_integer_def max_safe_integer_def new_Date_def max_time_ms_def)
  let ?ev = "JObj [(''id'', JStr ''evt_1''), (''type'', JStr ''charge.dispute.closed''), (''created'', JInt 5),
      (''livemode'', JBool True), (''data'', JObj [(''object'', JObj [(''id'', JStr ''dp_1''), (''charge'', JStr ''ch_1''),
         (''status'', JStr ''won'')])])]"
  have e: "planStripeEvent ?ev = Inr [Restore ''ch_1'' ''dp_1'' ''evt_1'']"
    by (simp add: planStripeEvent_def object_of_def member_of_def t d plan_object_eqs plan_dispute_def stripeId_def)
  show ?thesis using planned_actions_justified [of ?ev undefined "[Restore ''ch_1'' ''dp_1'' ''evt_1'']" "Restore ''ch_1'' ''dp_1'' ''evt_1''"] e
    by auto
qed

end
