(* ===== verification/Standing.thy ===== *)
theory Standing
  imports Ports
begin

text \<open>
  The computer's standing (\<^verbatim>\<open>app/src/server/billing/v3/standing.ts\<close>): derived on every read from the
  subscriptions, the open payment issues, the placement and the instant, and never stored.
\<close>

definition PAYMENT_GRACE_SECONDS :: int where [billing_consts]: "PAYMENT_GRACE_SECONDS = 7 * 86400"

datatype FilesOn = Files_aws | Files_cloudflare

record standing_v3 =
  sd_standing :: ComputeStanding
  sd_graceEndsAt :: "jsdate option"
  sd_planEndsAt :: "jsdate option"
  sd_filesOn :: FilesOn
  sd_heldSince :: "jsdate option"

definition PAID_ACCESS :: "ComputeStanding list" where
  "PAID_ACCESS = [Standing_paid, Standing_grace, Standing_plan_ending]"

definition paidAccess :: "ComputeStanding \<Rightarrow> bool" where
  "paidAccess standing \<longleftrightarrow> standing \<in> set PAID_ACCESS"

definition is_subscription_issue :: "string \<Rightarrow> payment_issue_row \<Rightarrow> bool" where
  "is_subscription_issue subscriptionId i \<longleftrightarrow> pi_subscriptionId i = Some subscriptionId \<and> pi_resolvedAt i = None \<and>
     pi_issue i \<noteq> II_voided \<and> pi_invoiceKind i = IK_subscription"

definition subscriptionIssues :: "payment_issue_row list \<Rightarrow> string option \<Rightarrow> payment_issue_row list" where
  "subscriptionIssues issues subscriptionId =
     (case subscriptionId of None \<Rightarrow> [] | Some s \<Rightarrow> filter (is_subscription_issue s) issues)"

text \<open>The first of the sorted finite event times, in whole seconds.\<close>

definition issue_times :: "payment_issue_row list \<Rightarrow> int list" where
  "issue_times is = sort (map (\<lambda>ms. ms div 1000) (List.map_filter pi_stripeEventCreated is))"

definition first_of :: "'a list \<Rightarrow> 'a option" where
  "first_of xs = (case xs of [] \<Rightarrow> None | x # _ \<Rightarrow> Some x)"

definition graceEndsAt :: "payment_issue_row list \<Rightarrow> jsdate option \<Rightarrow> int option" where
  "graceEndsAt issues periodStart =
     (let anchor = (case first_of (issue_times issues) of
            Some t \<Rightarrow> Some t
          | None \<Rightarrow> (case periodStart of Some (Some ms) \<Rightarrow> Some (ms div 1000) | _ \<Rightarrow> None));
          finalAction = first_of (issue_times (filter (\<lambda>i. pi_issue i = II_uncollectible) issues))
      in case anchor of
           None \<Rightarrow> None
         | Some a \<Rightarrow> Some (case finalAction of None \<Rightarrow> a + PAYMENT_GRACE_SECONDS
                          | Some f \<Rightarrow> min (a + PAYMENT_GRACE_SECONDS) f))"

text \<open>The ends sorted from the newest; the stable sort of the source has the same first element.\<close>

definition lastEndedPeriod :: "subscription_row list \<Rightarrow> int \<Rightarrow> jsdate option res" where
  "lastEndedPeriod subs now =
     (case first_of (rev (sort (List.map_filter (\<lambda>s. case sub_periodEnd s of Some (Some ms) \<Rightarrow> Some ms | _ \<Rightarrow> None) subs))) of
        None \<Rightarrow> Inr None
      | Some newest \<Rightarrow> if newest div 1000 \<le> now then rbind (isoSeconds (newest div 1000)) (\<lambda>d. Inr (Some d)) else Inr None)"

definition free_standing :: "FilesOn \<Rightarrow> jsdate option \<Rightarrow> standing_v3" where
  "free_standing filesOn heldSince = \<lparr>sd_standing = (if filesOn = Files_aws then Standing_files_on_aws else Standing_free),
     sd_graceEndsAt = None, sd_planEndsAt = None, sd_filesOn = filesOn,
     sd_heldSince = (if filesOn = Files_aws then heldSince else None)\<rparr>"

text \<open>The branch of a payment problem: inside the grace the standing is \<^verbatim>\<open>grace\<close>, after it Free.\<close>

definition grace_standing :: "FilesOn \<Rightarrow> int \<Rightarrow> jsdate option \<Rightarrow> int option \<Rightarrow> standing_v3 res" where
  "grace_standing filesOn now planEndsAt ends =
     (case ends of
        None \<Rightarrow> Inr (free_standing filesOn None)
      | Some e \<Rightarrow> rbind (isoSeconds e) (\<lambda>d. Inr
          (if now < e then \<lparr>sd_standing = Standing_grace, sd_graceEndsAt = Some d, sd_planEndsAt = planEndsAt,
               sd_filesOn = filesOn, sd_heldSince = None\<rparr>
           else free_standing filesOn (Some d))))"

definition standing_of_plan :: "payment_issue_row list \<Rightarrow> FilesOn \<Rightarrow> int \<Rightarrow> plan_resolution \<Rightarrow> subscription_row
    \<Rightarrow> standing_v3 res" where
  "standing_of_plan paymentIssues filesOn now plan sub =
     (if sub_status sub = ''unpaid'' \<or> pl_status plan = St_incomplete then Inr (free_standing filesOn None)
      else let issues = subscriptionIssues paymentIssues (pl_subscriptionId plan);
               planEndsAt = (if pl_status plan = St_cancels \<or> sub_cancelAtPeriodEnd sub then pl_cancelsAt plan else None)
        in if sub_status sub = ''past_due'' \<or> issues \<noteq> []
           then grace_standing filesOn now planEndsAt
                  (graceEndsAt issues (if sub_status sub = ''past_due'' then sub_periodStart sub else None))
           else if \<not> pl_planActive plan then Inr (free_standing filesOn None)
           else if pl_status plan = St_cancels
           then Inr \<lparr>sd_standing = Standing_plan_ending, sd_graceEndsAt = None, sd_planEndsAt = planEndsAt,
                  sd_filesOn = filesOn, sd_heldSince = None\<rparr>
           else Inr \<lparr>sd_standing = Standing_paid, sd_graceEndsAt = None, sd_planEndsAt = None,
                  sd_filesOn = filesOn, sd_heldSince = None\<rparr>)"

definition files_on :: "string option \<Rightarrow> FilesOn" where
  "files_on placementProvider = (if placementProvider = Some ''aws-ec2'' then Files_aws else Files_cloudflare)"

definition deriveStanding :: "subscription_row list \<Rightarrow> payment_issue_row list \<Rightarrow> string option \<Rightarrow> jsdate
    \<Rightarrow> standing_v3 res" where
  "deriveStanding subs paymentIssues placementProvider now =
     rbind (epochSeconds now RFloor) (\<lambda>t.
     rbind (planFromSubscriptions3 subs now None FREE_V2_EFFECTIVE_AT) (\<lambda>resolved.
       let plan = p3_plan resolved; filesOn = files_on placementProvider in
       case find (\<lambda>s. Some (sub_id s) = pl_subscriptionId plan) subs of
         None \<Rightarrow> rbind (lastEndedPeriod subs t) (\<lambda>held. Inr (free_standing filesOn held))
       | Some sub \<Rightarrow> standing_of_plan paymentIssues filesOn t plan sub))"

subsection \<open>Lemmas\<close>

lemma issue_times_mem: "t \<in> set (issue_times is) \<longleftrightarrow> (\<exists>i \<in> set is. \<exists>ms. pi_stripeEventCreated i = Some ms \<and> t = ms div 1000)"
  by (fastforce simp: issue_times_def List.map_filter_def image_iff)

lemma first_of_sorted: "first_of xs = Some a \<Longrightarrow> sorted xs \<Longrightarrow> a \<in> set xs \<and> (\<forall>x \<in> set xs. a \<le> x)"
  by (cases xs) (auto simp: first_of_def)

lemma first_issue_le:
  "first_of (issue_times is) = Some a \<Longrightarrow> i \<in> set is \<Longrightarrow> pi_stripeEventCreated i = Some ms \<Longrightarrow> a \<le> ms div 1000"
  using first_of_sorted [of "issue_times is" a] issue_times_mem [of "ms div 1000" "is"] by (auto simp: issue_times_def)

lemma first_issue_none: "first_of (issue_times is) = None \<Longrightarrow> i \<in> set is \<Longrightarrow> pi_stripeEventCreated i = None"
  using issue_times_mem [of "the (pi_stripeEventCreated i) div 1000" "is"]
  by (cases "issue_times is"; cases "pi_stripeEventCreated i") (auto simp: first_of_def)

text \<open>The grace ends within seven days of every open issue and no later than the processor's final action.\<close>

lemma graceEndsAt_bound:
  assumes g: "graceEndsAt issues ps = Some e" and i: "i \<in> set issues" "pi_stripeEventCreated i = Some ms"
  shows "e \<le> ms div 1000 + PAYMENT_GRACE_SECONDS \<and> (pi_issue i = II_uncollectible \<longrightarrow> e \<le> ms div 1000)"
proof -
  obtain a where a: "first_of (issue_times issues) = Some a"
    using first_issue_none [of issues i] i by (cases "first_of (issue_times issues)") auto
  have "a \<le> ms div 1000" by (rule first_issue_le [OF a i])
  then have "e \<le> ms div 1000 + PAYMENT_GRACE_SECONDS"
    using g a by (auto simp: graceEndsAt_def Let_def split: option.splits)
  moreover have "e \<le> ms div 1000" if u: "pi_issue i = II_uncollectible"
  proof -
    let ?u = "filter (\<lambda>i. pi_issue i = II_uncollectible) issues"
    have iu: "i \<in> set ?u" using i u by simp
    obtain f where f: "first_of (issue_times ?u) = Some f"
      using first_issue_none [of ?u i] iu i by (cases "first_of (issue_times ?u)") auto
    have "f \<le> ms div 1000" by (rule first_issue_le [OF f iu i(2)])
    then show ?thesis using g a f by (auto simp: graceEndsAt_def Let_def)
  qed
  ultimately show ?thesis by blast
qed

lemma free_standing_simps [simp]:
  "paidAccess (sd_standing (free_standing f h)) = False" "sd_filesOn (free_standing f h) = f"
  "sd_standing (free_standing f h) = (if f = Files_aws then Standing_files_on_aws else Standing_free)"
  "sd_heldSince (free_standing f h) = (if f = Files_aws then h else None)"
  "sd_graceEndsAt (free_standing f h) = None"
  by (simp_all add: free_standing_def paidAccess_def PAID_ACCESS_def)

lemma paidAccess_simps [simp]:
  "paidAccess Standing_paid" "paidAccess Standing_grace" "paidAccess Standing_plan_ending"
  "\<not> paidAccess Standing_free" "\<not> paidAccess Standing_files_on_aws"
  by (simp_all add: paidAccess_def PAID_ACCESS_def)

lemma deriveStanding_sub:
  assumes "deriveStanding subs issues pp now = Inr s" and "paidAccess (sd_standing s)"
  obtains t resolved sub where "epochSeconds now RFloor = Inr t" "planFromSubscriptions3 subs now None FREE_V2_EFFECTIVE_AT = Inr resolved"
    "sub \<in> set subs" "pl_subscriptionId (p3_plan resolved) = Some (sub_id sub)"
    "standing_of_plan issues (files_on pp) t (p3_plan resolved) sub = Inr s"
proof -
  from assms(1) obtain t resolved where tr: "epochSeconds now RFloor = Inr t"
      "planFromSubscriptions3 subs now None FREE_V2_EFFECTIVE_AT = Inr resolved"
    by (auto simp: deriveStanding_def)
  show thesis
  proof (cases "find (\<lambda>s. Some (sub_id s) = pl_subscriptionId (p3_plan resolved)) subs")
    case None
    then show ?thesis using assms tr by (auto simp: deriveStanding_def Let_def split: if_split_asm)
  next
    case (Some sub)
    have "sub \<in> set subs \<and> Some (sub_id sub) = pl_subscriptionId (p3_plan resolved)"
      using find_Some_iff_first [OF Some] by simp
    then show ?thesis using that [OF tr, of sub] Some assms tr by (auto simp: deriveStanding_def Let_def)
  qed
qed

lemma standing_of_plan_grace:
  assumes "standing_of_plan issues f t plan sub = Inr s" and "sd_standing s = Standing_grace"
  obtains e where "sd_graceEndsAt s = Some (Some (e * 1000))" "t < e" "sub_status sub \<noteq> ''unpaid''"
    "pl_status plan \<noteq> St_incomplete"
    "graceEndsAt (subscriptionIssues issues (pl_subscriptionId plan))
       (if sub_status sub = ''past_due'' then sub_periodStart sub else None) = Some e"
    "sub_status sub = ''past_due'' \<or> subscriptionIssues issues (pl_subscriptionId plan) \<noteq> []"
  using assms
  by (auto simp: standing_of_plan_def grace_standing_def Let_def isoSeconds_Inr
      split: if_split_asm option.split_asm)

lemma standing_of_plan_paid:
  assumes "standing_of_plan issues f t plan sub = Inr s" and "paidAccess (sd_standing s)"
    and "sd_standing s \<noteq> Standing_grace"
  shows "sub_status sub \<noteq> ''unpaid'' \<and> sub_status sub \<noteq> ''past_due'' \<and> pl_planActive plan \<and>
    subscriptionIssues issues (pl_subscriptionId plan) = [] \<and>
    (sd_standing s = Standing_plan_ending \<longleftrightarrow> pl_status plan = St_cancels)"
  using assms
  by (auto simp: standing_of_plan_def grace_standing_def Let_def split: if_split_asm option.split_asm)

lemma standing_of_plan_files:
  "standing_of_plan issues f t plan sub = Inr s \<Longrightarrow> sd_filesOn s = f \<and>
     (\<not> paidAccess (sd_standing s) \<longrightarrow> sd_standing s = (if f = Files_aws then Standing_files_on_aws else Standing_free)) \<and>
     (sd_heldSince s = None \<or> (\<exists>h. sd_heldSince s = Some (Some (h * 1000)) \<and> h \<le> t))"
  by (auto simp: standing_of_plan_def grace_standing_def Let_def isoSeconds_Inr split: if_split_asm option.split_asm)

subsection \<open>Properties\<close>

lemma free_plan_of_id: "free_plan_of now created freeAt = Inr p \<Longrightarrow> pl_subscriptionId p = None"
  by (auto simp: free_plan_of_def Let_def)

lemma plan3_selected:
  assumes "planFromSubscriptions3 subs now created freeAt = Inr r" and "pl_subscriptionId (p3_plan r) = Some i"
  obtains s c where "s \<in> set subs" "sub_id s = i" "candidate_of (s\<lparr>sub_sku := v2_alias (sub_sku s)\<rparr>) = Some c"
    "pl_status (p3_plan r) = ca_status c" "pl_planActive (p3_plan r) \<longrightarrow> is_current_candidate now c"
proof -
  let ?subs = "map (\<lambda>s. s\<lparr>sub_sku := v2_alias (sub_sku s)\<rparr>) subs"
  have p: "planFromSubscriptions ?subs now created False freeAt = Inr (p3_plan r)"
    using assms(1) by (auto simp: planFromSubscriptions3_def Let_def split: option.splits)
  obtain c paid where c: "c \<in> set (candidates ?subs)" "plan_of_candidate now False paid c = Inr (p3_plan r)"
    "paid \<longrightarrow> is_current_candidate now c"
    using p assms(2)
    by (auto simp: planFromSubscriptions_def select_loop_picks split: option.splits
        dest: free_plan_of_id dest!: pick_None_in)
  then obtain s where "s \<in> set subs" "candidate_of (s\<lparr>sub_sku := v2_alias (sub_sku s)\<rparr>) = Some c"
    using candidates_sub [of c ?subs] by auto
  then show thesis
    using that [of s c] candidate_of_Some [of "s\<lparr>sub_sku := v2_alias (sub_sku s)\<rparr>" c] plan_of_candidate_sel [OF c(2)] c(3) assms(2)
    by auto
qed

lemma lastEndedPeriod_past: "lastEndedPeriod subs t = Inr (Some d) \<Longrightarrow> \<exists>h. d = Some (h * 1000) \<and> h \<le> t"
  by (auto simp: lastEndedPeriod_def isoSeconds_Inr split: option.splits if_split_asm)

lemma deriveStanding_files:
  assumes "deriveStanding subs issues pp (Some now) = Inr s"
  shows "sd_filesOn s = files_on pp \<and>
     (\<not> paidAccess (sd_standing s) \<longrightarrow> sd_standing s = (if files_on pp = Files_aws then Standing_files_on_aws else Standing_free)) \<and>
     (sd_heldSince s = None \<or> (\<exists>h. sd_heldSince s = Some (Some (h * 1000)) \<and> h \<le> now div 1000))"
proof -
  obtain r where p: "planFromSubscriptions3 subs (Some now) None FREE_V2_EFFECTIVE_AT = Inr r"
    using assms by (cases "planFromSubscriptions3 subs (Some now) None FREE_V2_EFFECTIVE_AT") (simp_all add: deriveStanding_def)
  have r: "(case find (\<lambda>s. Some (sub_id s) = pl_subscriptionId (p3_plan r)) subs of
         None \<Rightarrow> rbind (lastEndedPeriod subs (now div 1000)) (\<lambda>held. Inr (free_standing (files_on pp) held))
       | Some sub \<Rightarrow> standing_of_plan issues (files_on pp) (now div 1000) (p3_plan r) sub) = Inr s"
    using assms p by (simp add: deriveStanding_def Let_def)
  show ?thesis
  proof (cases "find (\<lambda>s. Some (sub_id s) = pl_subscriptionId (p3_plan r)) subs")
    case None
    with r obtain held where h: "lastEndedPeriod subs (now div 1000) = Inr held" "s = free_standing (files_on pp) held"
      by auto
    then show ?thesis using lastEndedPeriod_past by (cases held) fastforce+
  next
    case (Some sub)
    with r show ?thesis using standing_of_plan_files [of issues "files_on pp" "now div 1000" "p3_plan r" sub s] by simp
  qed
qed

lemma deriveStanding_free:
  assumes "deriveStanding subs issues pp (Some now) = Inr s"
  shows "\<not> paidAccess (sd_standing s) \<longleftrightarrow> sd_standing s = (if pp = Some ''aws-ec2'' then Standing_files_on_aws else Standing_free)"
    and "\<forall>h. sd_heldSince s = Some h \<longrightarrow> (\<exists>t. h = Some t \<and> t \<le> now)"
proof -
  note f = deriveStanding_files [OF assms]
  show "\<not> paidAccess (sd_standing s) \<longleftrightarrow> sd_standing s = (if pp = Some ''aws-ec2'' then Standing_files_on_aws else Standing_free)"
    using f by (auto simp: files_on_def)
  have "h * 1000 \<le> now" if "h \<le> now div 1000" for h :: int using that by linarith
  then show "\<forall>h. sd_heldSince s = Some h \<longrightarrow> (\<exists>t. h = Some t \<and> t \<le> now)" using f by auto
qed

definition demo_dunning :: "subscription_row list" where
  "demo_dunning = [\<lparr>sub_id = ''sub_1'', sub_status = ''past_due'', sub_sku = ''standard_monthly_v3'', sub_periodStart = Some (Some 0),
     sub_periodEnd = Some (Some 2592000000), sub_cancelAtPeriodEnd = False\<rparr>]"

definition demo_failed_issue :: payment_issue_row where
  "demo_failed_issue = \<lparr>pi_stripeInvoiceId = ''in_1'', pi_userId = ''u'', pi_subscriptionId = Some ''sub_1'',
     pi_invoiceKind = IK_subscription, pi_issue = II_payment_failed, pi_hostedInvoiceUrl = None,
     pi_stripeEventCreated = Some 100000000, pi_resolvedAt = None\<rparr>"

lemma demo_dunning_plan:
  "planFromSubscriptions3 demo_dunning (Some ms) None free = Inr
     \<lparr>p3_plan = \<lparr>pl_sku = Standard_monthly_v2, pl_offer = CATALOG_V2 Standard_monthly_v2, pl_family = Fam_standard,
        pl_status = St_past_due, pl_planActive = False, pl_subscriptionId = Some ''sub_1'',
        pl_window = \<lparr>w_start = Some 0, w_end = Some 2592000000\<rparr>, pl_renewsAt = Some (Some 2592000000), pl_cancelsAt = None\<rparr>,
      p3_offer = Some (CATALOG_V3 Standard_monthly_v3), p3_legacyFree = True, p3_sessionMaxSeconds = None\<rparr>"
  by (simp add: planFromSubscriptions3_def demo_dunning_def v2_alias_def planFromSubscriptions_def candidate_of_def
      offerBySku_def offerBySku3_def all_skus_def all_skus3_def planStatusFromStripe_def is_current_candidate_def
      is_delinquent_candidate_def plan_of_candidate_def iso_of_def finite_or_ninf_def iso_range_def freeSkuFor_def Let_def
      split: option.splits)

text \<open>C38: a payment problem keeps the paid computer for a bounded time only: in grace the end shown is in the
  future, no later than seven days after any open issue of the subscription and never after a final action
  of the processor, and the problem is a dunning status or an open issue of a subscription that is not unpaid.\<close>

theorem standing_grace_bounded:
  assumes "deriveStanding subs issues placement (Some now) = Inr s" and "sd_standing s = Standing_grace"
  shows "\<exists>sub \<in> set subs. \<exists>e. sd_graceEndsAt s = Some (Some (e * 1000)) \<and> now < e * 1000 \<and> sub_status sub \<noteq> ''unpaid'' \<and>
     (sub_status sub = ''past_due'' \<or> (\<exists>i \<in> set issues. is_subscription_issue (sub_id sub) i)) \<and>
     (\<forall>i \<in> set issues. \<forall>ms. is_subscription_issue (sub_id sub) i \<and> pi_stripeEventCreated i = Some ms \<longrightarrow>
        e \<le> ms div 1000 + 7 * 86400 \<and> (pi_issue i = II_uncollectible \<longrightarrow> e \<le> ms div 1000))"
proof -
  have "paidAccess (sd_standing s)" using assms(2) by simp
  then obtain t r sub where t: "epochSeconds (Some now) RFloor = Inr t"
      and r: "planFromSubscriptions3 subs (Some now) None FREE_V2_EFFECTIVE_AT = Inr r"
      and sub: "sub \<in> set subs" "pl_subscriptionId (p3_plan r) = Some (sub_id sub)"
      "standing_of_plan issues (files_on placement) t (p3_plan r) sub = Inr s"
    by (rule deriveStanding_sub [OF assms(1)])
  let ?is = "subscriptionIssues issues (pl_subscriptionId (p3_plan r))"
  have mem: "i \<in> set ?is \<longleftrightarrow> i \<in> set issues \<and> is_subscription_issue (sub_id sub) i" for i
    using sub(2) by (simp add: subscriptionIssues_def)
  obtain e where
    e: "sd_graceEndsAt s = Some (Some (e * 1000))" "t < e" "sub_status sub \<noteq> ''unpaid''"
      "graceEndsAt ?is (if sub_status sub = ''past_due'' then sub_periodStart sub else None) = Some e"
      "sub_status sub = ''past_due'' \<or> ?is \<noteq> []"
    by (rule standing_of_plan_grace [OF sub(3) assms(2)]) (use that in blast)
  have "now < e * 1000" using t e(2) by auto
  moreover have "sub_status sub = ''past_due'' \<or> (\<exists>i \<in> set issues. is_subscription_issue (sub_id sub) i)"
    using e(5) mem by (metis list.set_intros(1) neq_Nil_conv)
  moreover have "e \<le> ms div 1000 + 7 * 86400 \<and> (pi_issue i = II_uncollectible \<longrightarrow> e \<le> ms div 1000)"
    if "i \<in> set issues" "is_subscription_issue (sub_id sub) i" "pi_stripeEventCreated i = Some ms" for i ms
    using graceEndsAt_bound [OF e(4), of i ms] that mem by (simp add: PAYMENT_GRACE_SECONDS_def)
  ultimately show ?thesis using sub(1) e(1,3) by blast
qed

theorem standing_grace_bounded_witness:
  "\<exists>s e. deriveStanding demo_dunning [demo_failed_issue] (Some ''aws-ec2'') (Some 200000000) = Inr s \<and>
     sd_graceEndsAt s = Some (Some (e * 1000)) \<and> 200000000 < e * 1000 \<and> e \<le> 100000 + 7 * 86400"
proof -
  obtain s where s: "deriveStanding demo_dunning [demo_failed_issue] (Some ''aws-ec2'') (Some 200000000) = Inr s" "sd_standing s = Standing_grace"
    unfolding deriveStanding_def demo_dunning_plan
    by (auto simp: demo_dunning_def Let_def standing_of_plan_def subscriptionIssues_def demo_failed_issue_def is_subscription_issue_def
        graceEndsAt_def issue_times_def List.map_filter_def first_of_def grace_standing_def PAYMENT_GRACE_SECONDS_def iso_range_def)
  from standing_grace_bounded [OF this] show ?thesis
    using s by (auto simp: demo_dunning_def demo_failed_issue_def is_subscription_issue_def)
qed

text \<open>C39: paid access outside the grace rests on a subscription that is paying: its status is active, its
  period contains the instant, no issue of its own invoices is open, and it is shown as ending exactly when it
  is set to cancel; without paid access the standing says where the files are, and the time since which they
  are held is never in the future.\<close>

theorem standing_paid_sound:
  assumes "deriveStanding subs issues placement (Some now) = Inr s" and "distinct (map sub_id subs)"
  shows "(sd_standing s = Standing_paid \<or> sd_standing s = Standing_plan_ending \<longrightarrow>
      (\<exists>sub \<in> set subs. (sub_status sub = ''active'' \<or> sub_status sub = ''trialing'') \<and>
         js_between (Some now) (sub_periodStart sub) (sub_periodEnd sub) \<and>
         (\<forall>i \<in> set issues. \<not> is_subscription_issue (sub_id sub) i) \<and>
         (sd_standing s = Standing_plan_ending \<longleftrightarrow> sub_cancelAtPeriodEnd sub))) \<and>
    (\<not> paidAccess (sd_standing s) \<longleftrightarrow> sd_standing s = (if placement = Some ''aws-ec2'' then Standing_files_on_aws else Standing_free)) \<and>
    (\<forall>h. sd_heldSince s = Some h \<longrightarrow> (\<exists>t. h = Some t \<and> t \<le> now))"
proof (intro conjI impI allI)
  assume paid: "sd_standing s = Standing_paid \<or> sd_standing s = Standing_plan_ending"
  then have acc: "paidAccess (sd_standing s)" "sd_standing s \<noteq> Standing_grace" by auto
  obtain t r sub where "epochSeconds (Some now) RFloor = Inr t" and r: "planFromSubscriptions3 subs (Some now) None FREE_V2_EFFECTIVE_AT = Inr r" and sub: "sub \<in> set subs"
      "pl_subscriptionId (p3_plan r) = Some (sub_id sub)"
      "standing_of_plan issues (files_on placement) t (p3_plan r) sub = Inr s"
    by (rule deriveStanding_sub [OF assms(1) acc(1)])
  note ok = standing_of_plan_paid [OF sub(3) acc]
  from plan3_selected [OF r sub(2)] obtain s' c where c: "s' \<in> set subs" "sub_id s' = sub_id sub"
      "candidate_of (s'\<lparr>sub_sku := v2_alias (sub_sku s')\<rparr>) = Some c" "pl_status (p3_plan r) = ca_status c"
      "is_current_candidate (Some now) c" using ok by blast
  have s': "s' = sub" using c(1,2) sub(1) assms(2) by (auto simp: distinct_map dest: inj_onD)
  have "planStatusFromStripe (sub_status sub) (sub_cancelAtPeriodEnd sub) = Some (ca_status c)"
    "ca_status c = St_active \<or> ca_status c = St_cancels" "js_between (Some now) (sub_periodStart sub) (sub_periodEnd sub)"
    using candidate_of_Some [OF c(3)] c(5) s' by (auto simp: is_current_candidate_def)
  moreover from this(1,2) have "(sub_status sub = ''active'' \<or> sub_status sub = ''trialing'') \<and>
      (ca_status c = St_cancels \<longleftrightarrow> sub_cancelAtPeriodEnd sub)"
    by (auto simp: planStatusFromStripe_def split: if_split_asm)
  moreover have "\<forall>i \<in> set issues. \<not> is_subscription_issue (sub_id sub) i"
    using ok sub(2) by (auto simp: subscriptionIssues_def filter_empty_conv)
  ultimately show "\<exists>sub \<in> set subs. (sub_status sub = ''active'' \<or> sub_status sub = ''trialing'') \<and>
         js_between (Some now) (sub_periodStart sub) (sub_periodEnd sub) \<and>
         (\<forall>i \<in> set issues. \<not> is_subscription_issue (sub_id sub) i) \<and>
         (sd_standing s = Standing_plan_ending \<longleftrightarrow> sub_cancelAtPeriodEnd sub)"
    using sub(1) ok c(4) by metis
qed (use deriveStanding_free [OF assms(1)] in \<open>auto split: if_split_asm\<close>)

theorem standing_paid_sound_witness:
  "\<exists>s. deriveStanding demo_dunning [demo_failed_issue] (Some ''aws-ec2'') (Some 900000000000) = Inr s \<and>
     (\<exists>t. sd_heldSince s = Some (Some t) \<and> t \<le> 900000000000)"
proof -
  obtain s where s: "deriveStanding demo_dunning [demo_failed_issue] (Some ''aws-ec2'') (Some 900000000000) = Inr s" "sd_heldSince s = Some (Some 704800000)"
    unfolding deriveStanding_def demo_dunning_plan
    by (auto simp: demo_dunning_def Let_def standing_of_plan_def subscriptionIssues_def demo_failed_issue_def is_subscription_issue_def
        graceEndsAt_def issue_times_def List.map_filter_def first_of_def grace_standing_def PAYMENT_GRACE_SECONDS_def iso_range_def
        files_on_def)
  then show ?thesis
    using standing_paid_sound [OF s(1)] by (auto simp: demo_dunning_def)
qed

end
