(* ===== verification/Tables.thy ===== *)
theory Tables
  imports Ports
begin

text \<open>
  What the SQL of the store relies on: a table is the list of its rows in insertion order,
  \<^verbatim>\<open>INSERT ... ON CONFLICT DO NOTHING\<close> against a uniqueness rule, and \<^verbatim>\<open>UPDATE ... WHERE\<close>. The uniqueness
  rule is a relation on rows (two rows that may not both be in the table); partial unique indexes are
  relations too. The locales state what an interface needs of a rule; their lemmas are what the clients of
  the store's tables rely on: uniqueness is kept, a replayed insert changes nothing, rows are never lost.
\<close>

definition insert_ignore :: "('r \<Rightarrow> 'r \<Rightarrow> bool) \<Rightarrow> 'r \<Rightarrow> 'r list \<Rightarrow> bool \<times> 'r list" where
  "insert_ignore clash r rows = (if \<exists>x \<in> set rows. clash x r then (False, rows) else (True, rows @ [r]))"

definition update_where :: "('r \<Rightarrow> bool) \<Rightarrow> ('r \<Rightarrow> 'r) \<Rightarrow> 'r list \<Rightarrow> 'r list" where
  "update_where P f rows = map (\<lambda>r. if P r then f r else r) rows"

text \<open>No two rows of the table clash.\<close>

definition uniq :: "('r \<Rightarrow> 'r \<Rightarrow> bool) \<Rightarrow> 'r list \<Rightarrow> bool" where
  "uniq clash rows \<longleftrightarrow> sorted_wrt (\<lambda>a b. \<not> clash a b) rows"

lemma uniq_Nil [simp, intro!]: "uniq clash []"
  by (simp add: uniq_def)

lemma uniq_append: "uniq clash (xs @ [r]) \<longleftrightarrow> uniq clash xs \<and> (\<forall>x \<in> set xs. \<not> clash x r)"
  by (auto simp: uniq_def sorted_wrt_append)

lemma insert_ignore_cases:
  "insert_ignore clash r rows = (b, rows') \<Longrightarrow>
     b \<and> rows' = rows @ [r] \<and> (\<forall>x \<in> set rows. \<not> clash x r) \<or> \<not> b \<and> rows' = rows \<and> (\<exists>x \<in> set rows. clash x r)"
  by (auto simp: insert_ignore_def split: if_splits)

lemma uniq_insert_ignore [billing_intros]: "uniq clash rows \<Longrightarrow> uniq clash (snd (insert_ignore clash r rows))"
  by (auto simp: insert_ignore_def uniq_append)

lemma uniq_update_where:
  assumes "uniq clash rows"
    and "\<And>a b. a \<in> set rows \<Longrightarrow> b \<in> set rows \<Longrightarrow> \<not> clash a b \<Longrightarrow>
      \<not> clash (if P a then f a else a) (if P b then f b else b)"
  shows "uniq clash (update_where P f rows)"
  using assms
proof (induction rows)
  case (Cons r rows)
  have "uniq clash (update_where P f rows)"
    by (rule Cons.IH) (use Cons.prems in \<open>auto simp: uniq_def\<close>)
  moreover have "\<not> clash (if P r then f r else r) (if P b then f b else b)" if "b \<in> set rows" for b
    using Cons.prems that by (intro Cons.prems(2)) (auto simp: uniq_def)
  ultimately show ?case
    unfolding uniq_def update_where_def list.map sorted_wrt.simps by (metis (no_types, lifting) imageE set_map)
qed (simp add: update_where_def)

lemma uniq_filter: "uniq clash rows \<Longrightarrow> uniq clash (filter P rows)"
  by (induction rows) (auto simp: uniq_def)

lemma length_update_where [simp]: "length (update_where P f rows) = length rows"
  by (simp add: update_where_def)

lemma update_where_id: "(\<And>r. r \<in> set rows \<Longrightarrow> P r \<Longrightarrow> f r = r) \<Longrightarrow> update_where P f rows = rows"
  by (auto simp: update_where_def intro: map_idI)

lemma update_where_none: "\<forall>r \<in> set rows. \<not> P r \<Longrightarrow> update_where P f rows = rows"
  by (rule update_where_id) auto

lemma mem_update_where: "r \<in> set (update_where P f rows) \<longleftrightarrow> (\<exists>x \<in> set rows. r = (if P x then f x else x))"
  by (auto simp: update_where_def)

text \<open>A uniqueness rule that does not depend on the order of the two rows.\<close>

locale unique_rule =
  fixes clash :: "'r \<Rightarrow> 'r \<Rightarrow> bool"
  assumes clash_sym: "clash a b \<Longrightarrow> clash b a"
begin

lemma uniq_at_most_one:
  assumes "uniq clash rows" and "a \<in> set rows" and "b \<in> set rows" and "clash a b"
  shows "a = b"
  using assms
proof (induction rows)
  case (Cons r rows)
  then show ?case using clash_sym by (auto simp: uniq_def)
qed simp

lemma uniq_find:
  assumes "uniq clash rows" and "x \<in> set rows" and "P x" and "\<And>y. P y \<Longrightarrow> clash x y"
  shows "find P rows = Some x"
proof -
  from assms(2,3) obtain y where y: "find P rows = Some y" by (cases "find P rows") (auto simp: find_None_iff)
  then have "y \<in> set rows" "P y" using find_Some_iff_first by force+
  with assms have "x = y" by (intro uniq_at_most_one) auto
  with y show ?thesis by simp
qed

lemma uniq_map_update:
  assumes "uniq clash rows" and "\<And>a b. clash (f a) b \<Longrightarrow> clash a b"
  shows "uniq clash (update_where P f rows)"
proof (rule uniq_update_where [OF assms(1)])
  fix a b assume n: "\<not> clash a b"
  show "\<not> clash (if P a then f a else a) (if P b then f b else b)"
  proof
    assume "clash (if P a then f a else a) (if P b then f b else b)"
    then have "clash a (if P b then f b else b)" using assms(2) by (cases "P a") auto
    then have "clash (if P b then f b else b) a" by (rule clash_sym)
    then have "clash b a" using assms(2) by (cases "P b") auto
    with n clash_sym show False by blast
  qed
qed

end

text \<open>
  An idempotent insert: whether a row may be added depends on the input it is made from and not on the
  identity the database gives it, and a row clashes with one made from the same input. So a retried insert
  is a no-op, also after other inserts, and replaying a whole list of inserts adds nothing.
\<close>

locale replayable = unique_rule clash for clash :: "'r \<Rightarrow> 'r \<Rightarrow> bool" +
  fixes row :: "'k \<Rightarrow> 'i \<Rightarrow> 'r"
  assumes row_identity: "clash y (row i x) \<longleftrightarrow> clash y (row j x)"
    and row_refl: "clash (row i x) (row i x)"
begin

definition present :: "'i \<Rightarrow> 'r list \<Rightarrow> bool" where
  "present x rows \<longleftrightarrow> (\<exists>y \<in> set rows. \<forall>i. clash y (row i x))"

lemma present_after: "present x (snd (insert_ignore clash (row i x) rows))"
proof (cases "\<exists>y \<in> set rows. clash y (row i x)")
  case True
  then show ?thesis using row_identity by (fastforce simp: insert_ignore_def present_def)
next
  case False
  then show ?thesis using row_refl row_identity by (fastforce simp: insert_ignore_def present_def)
qed

lemma present_mono: "present x rows \<Longrightarrow> present x (snd (insert_ignore clash r rows))"
  by (auto simp: insert_ignore_def present_def)

lemma replay_noop: "present x rows \<Longrightarrow> insert_ignore clash (row j x) rows = (False, rows)"
  by (auto simp: insert_ignore_def present_def)

lemma insert_result: "fst (insert_ignore clash (row i x) rows) \<longleftrightarrow> \<not> present x rows"
proof -
  have "clash y (row i x) \<longleftrightarrow> (\<forall>j. clash y (row j x))" for y using row_identity by blast
  then show ?thesis by (simp add: insert_ignore_def present_def)
qed

lemma rows_kept: "\<exists>ys. snd (insert_ignore clash r rows) = rows @ ys"
  by (auto simp: insert_ignore_def)

text \<open>A batch: one insert after the other, each with its own identity.\<close>

primrec insert_all :: "('k \<times> 'i) list \<Rightarrow> 'r list \<Rightarrow> 'r list" where
  "insert_all [] rows = rows"
| "insert_all (x # xs) rows = insert_all xs (snd (insert_ignore clash (row (fst x) (snd x)) rows))"

lemma insert_all_mono: "present x rows \<Longrightarrow> present x (insert_all xs rows)"
  by (induction xs arbitrary: rows) (auto intro: present_mono)

lemma insert_all_present: "(i, x) \<in> set xs \<Longrightarrow> present x (insert_all xs rows)"
proof (induction xs arbitrary: rows)
  case (Cons p xs)
  show ?case
  proof (cases "p = (i, x)")
    case True
    then show ?thesis using present_after by (auto intro: insert_all_mono)
  next
    case False
    then show ?thesis using Cons by auto
  qed
qed simp

lemma insert_all_noop: "\<forall>p \<in> set xs. present (snd p) rows \<Longrightarrow> insert_all xs rows = rows"
  by (induction xs) (auto simp: replay_noop)

lemma insert_all_replay: "map snd ys = map snd xs \<Longrightarrow> insert_all ys (insert_all xs rows) = insert_all xs rows"
proof (rule insert_all_noop)
  assume "map snd ys = map snd xs"
  then have "snd ` set ys = snd ` set xs" by (metis set_map)
  then show "\<forall>p \<in> set ys. present (snd p) (insert_all xs rows)"
    using insert_all_present by (metis (no_types, opaque_lifting) imageE imageI prod.collapse)
qed

lemma insert_all_uniq: "uniq clash rows \<Longrightarrow> uniq clash (insert_all xs rows)"
  by (induction xs arbitrary: rows) (auto intro: uniq_insert_ignore)

end

end
