(* ===== verification/Store.thy ===== *)
theory Store
  imports Tables
begin

text \<open>
  The billing store (\<^verbatim>\<open>app/src/server/billing/store.ts\<close>) over the tables of
  \<^verbatim>\<open>app/src/server/db/schema/billing.ts\<close>. Each operation is a procedure over the database; a SQL statement is
  one step of it. The uniqueness rules and check constraints are those of the schema; foreign keys are not
  modelled (users and computers are taken to exist). Row identities come from a generator that is part of
  the state (\<^verbatim>\<open>gen_random_uuid\<close>), \<^verbatim>\<open>now()\<close> is its clock. An invalid \<^verbatim>\<open>Date\<close> throws a RangeError when it is sent.
\<close>

subsection \<open>State\<close>

record epoch_row =
  er_id :: string
  er_userId :: string
  er_computerId :: string
  er_subscriptionId :: "string option"
  er_size :: SizeCode
  er_weight :: int
  er_readyAt :: int
  er_deadlineAt :: "int option"
  er_lastHeartbeatAt :: "int option"
  er_endedAt :: "int option"
  er_endReason :: "EpochEndReason option"
  er_overheadSeconds :: int

record usage_interval =
  ui_userId :: string
  ui_computerId :: string
  ui_startedAt :: int
  ui_lastSeenAt :: int
  ui_endedAt :: "int option"
  ui_closeReason :: "string option"
  ui_source :: string

record event_row = event_insert +
  er_processedAt :: "int option"
  er_outcome :: "string option"

record plan_change_row = plan_change +
  pcr_id :: string
  pcr_createdAt :: int

record storage_row = storage_sample +
  sr_userId :: string
  sr_source :: string

record outbox_row = outbox_insert +
  ox_id :: string
  ox_createdAt :: int
  ox_deliveredAt :: "int option"
  ox_attempts :: int
  ox_lastError :: "string option"

record db =
  db_customers :: "(string \<times> string) list"
  db_subscriptions :: "subscription_upsert list"
  db_events :: "event_row list"
  db_grants :: "grant_row list"
  db_intervals :: "usage_interval list"
  db_samples :: "storage_row list"
  db_outbox :: "outbox_row list"
  db_epochs :: "epoch_row list"
  db_consents :: "overage_consent_row list"
  db_overageInvoices :: "overage_invoice_row list"
  db_planChanges :: "plan_change_row list"
  db_paymentIssues :: "payment_issue_row list"
  db_sizes :: "(string \<times> SizeCode) list"
  db_computers :: "(string \<times> string) list"
  db_placements :: "(string \<times> string) list"
  db_users :: "(string \<times> jsdate) list"
  db_now :: int
  db_seq :: int
  db_next :: nat
  db_uuid :: "nat \<Rightarrow> string"

subsection \<open>Uniqueness rules of the schema\<close>

definition customer_clash :: "string \<times> string \<Rightarrow> string \<times> string \<Rightarrow> bool" where
  "customer_clash a b \<longleftrightarrow> fst a = fst b \<or> snd a = snd b"

definition event_clash :: "event_row \<Rightarrow> event_row \<Rightarrow> bool" where
  "event_clash a b \<longleftrightarrow> ev_eventId a = ev_eventId b"

text \<open>The source key, and the partial index that grants a plan's period once per subscription and meter.\<close>

definition grant_clash :: "('a grant_insert_scheme) \<Rightarrow> ('b grant_insert_scheme) \<Rightarrow> bool" where
  "grant_clash a b \<longleftrightarrow>
     (g_sourceType a = g_sourceType b \<and> g_sourceId a = g_sourceId b \<and> g_meter a = g_meter b \<and> g_kind a = g_kind b) \<or>
     (g_kind a = Plan_period \<and> g_kind b = Plan_period \<and> g_subscriptionId a \<noteq> None \<and> g_periodStart a \<noteq> None \<and>
      g_subscriptionId a = g_subscriptionId b \<and> g_periodStart a = g_periodStart b \<and> g_meter a = g_meter b)"

definition outbox_clash :: "outbox_row \<Rightarrow> outbox_row \<Rightarrow> bool" where
  "outbox_clash a b \<longleftrightarrow> ob_eventKey a = ob_eventKey b"

text \<open>One open interval per computer; one open epoch per computer and one per user.\<close>

definition interval_clash :: "usage_interval \<Rightarrow> usage_interval \<Rightarrow> bool" where
  "interval_clash a b \<longleftrightarrow> ui_endedAt a = None \<and> ui_endedAt b = None \<and> ui_computerId a = ui_computerId b"

definition epoch_clash :: "epoch_row \<Rightarrow> epoch_row \<Rightarrow> bool" where
  "epoch_clash a b \<longleftrightarrow> er_endedAt a = None \<and> er_endedAt b = None \<and>
     (er_computerId a = er_computerId b \<or> er_userId a = er_userId b)"

definition consent_clash :: "('a overage_consent_scheme) \<Rightarrow> ('b overage_consent_scheme) \<Rightarrow> bool" where
  "consent_clash a b \<longleftrightarrow> oc_userId a = oc_userId b \<and> oc_subscriptionId a = oc_subscriptionId b \<and>
     oc_acceptedAt a = oc_acceptedAt b \<and> oc_enabled a = oc_enabled b \<and> oc_capCents a = oc_capCents b \<and>
     oc_termsVersion a = oc_termsVersion b \<and> oc_catalogVersion a = oc_catalogVersion b \<and>
     oc_rateCentsPerStdHour a = oc_rateCentsPerStdHour b \<and> oc_actor a = oc_actor b"

definition overage_clash :: "overage_invoice_row \<Rightarrow> overage_invoice_row \<Rightarrow> bool" where
  "overage_clash a b \<longleftrightarrow>
     (oi_subscriptionId a = oi_subscriptionId b \<and> oi_periodStart a = oi_periodStart b \<and> oi_ratingVersion a = oi_ratingVersion b) \<or>
     (oi_stripeInvoiceId a \<noteq> None \<and> oi_stripeInvoiceId a = oi_stripeInvoiceId b)"

fun open_change :: "PlanChangeState \<Rightarrow> bool" where
  "open_change CS_pending = True"
| "open_change CS_requires_action = True"
| "open_change CS_payment_failed = True"
| "open_change CS_scheduled = True"
| "open_change _ = False"

definition change_clash :: "plan_change_row \<Rightarrow> plan_change_row \<Rightarrow> bool" where
  "change_clash a b \<longleftrightarrow> open_change (pc_state a) \<and> open_change (pc_state b) \<and>
     pc_subscriptionId a = pc_subscriptionId b \<and> pc_kind a = pc_kind b"

subsection \<open>Values sent to the database\<close>

definition to_ts :: "jsdate \<Rightarrow> int res" where
  "to_ts d = (case d of None \<Rightarrow> Inl RangeError | Some ms \<Rightarrow> Inr ms)"

definition send_dates :: "jsdate list \<Rightarrow> ('s, 'a) prog \<Rightarrow> ('s, 'a) prog" where
  "send_dates ds m = (if None \<in> set ds then sthrow RangeError else m)"

definition opt_list :: "'a option \<Rightarrow> 'a list" where
  "opt_list d = (case d of None \<Rightarrow> [] | Some x \<Rightarrow> [x])"

definition check_violation :: jserror where
  "check_violation = PlainError ''check_violation''"

definition fresh_id :: "(db, string) prog" where
  "fresh_id s = (Inr (db_uuid s (db_next s)), s\<lparr>db_next := Suc (db_next s)\<rparr>)"

definition ts_lt :: "jsdate \<Rightarrow> jsdate \<Rightarrow> bool" where
  "ts_lt a b = (case (a, b) of (Some x, Some y) \<Rightarrow> x < y | _ \<Rightarrow> False)"

definition ts_le :: "jsdate \<Rightarrow> jsdate \<Rightarrow> bool" where
  "ts_le a b = (case (a, b) of (Some x, Some y) \<Rightarrow> x \<le> y | _ \<Rightarrow> False)"

subsection \<open>Compute epochs\<close>

definition iso_ms :: "rounding \<Rightarrow> int \<Rightarrow> jsdate res" where
  "iso_ms r ms = rbind (epochSeconds (Some ms) r) isoSeconds"

definition iso_ms_opt :: "int option \<Rightarrow> jsdate option res" where
  "iso_ms_opt v = (case v of None \<Rightarrow> Inr None | Some ms \<Rightarrow> rbind (iso_ms RFloor ms) (\<lambda>d. Inr (Some d)))"

definition computeEpoch :: "epoch_row \<Rightarrow> stored_compute_epoch res" where
  "computeEpoch row =
     rbind (iso_ms RCeil (er_readyAt row)) (\<lambda>readyAt.
     rbind (iso_ms_opt (er_endedAt row)) (\<lambda>endedAt.
     rbind (iso_ms_opt (er_deadlineAt row)) (\<lambda>deadlineAt.
     rbind (iso_ms_opt (er_lastHeartbeatAt row)) (\<lambda>lastHeartbeatAt.
       Inr \<lparr>ce_id = er_id row, ce_userId = er_userId row, ce_computerId = er_computerId row,
            ce_size = er_size row, ce_weight = er_weight row, ce_readyAt = readyAt, ce_endedAt = endedAt,
            ce_endReason = er_endReason row, ce_overheadSeconds = er_overheadSeconds row,
            se_deadlineAt = deadlineAt, se_lastHeartbeatAt = lastHeartbeatAt\<rparr>))))"

definition epoch_deadline :: "open_epoch_input \<Rightarrow> int \<Rightarrow> int option res" where
  "epoch_deadline i readyAt = (case oe_deadlineAt i of
     None \<Rightarrow> Inr None
   | Some d \<Rightarrow> rbind (epochSeconds d RFloor) (\<lambda>s.
       let session = (case oe_sessionMax i of None \<Rightarrow> Some SESSION_MAX_SECONDS | Some m \<Rightarrow> m);
           bounded = (case session of None \<Rightarrow> s * 1000 | Some m \<Rightarrow> min (readyAt + m * 1000) (s * 1000))
       in rbind (to_ts (new_Date (max readyAt bounded))) (\<lambda>ms. Inr (Some ms))))"

definition epoch_of_input :: "open_epoch_input \<Rightarrow> int \<Rightarrow> int option \<Rightarrow> string \<Rightarrow> epoch_row" where
  "epoch_of_input i readyAt deadlineAt rid =
     \<lparr>er_id = rid, er_userId = oe_userId i, er_computerId = oe_computerId i, er_subscriptionId = oe_subscriptionId i,
      er_size = oe_size i, er_weight = size_weight (oe_size i), er_readyAt = readyAt, er_deadlineAt = deadlineAt,
      er_lastHeartbeatAt = None, er_endedAt = None, er_endReason = None, er_overheadSeconds = oe_overheadSeconds i\<rparr>"

definition epoch_result :: "open_epoch_status \<Rightarrow> epoch_row \<Rightarrow> (db, (open_epoch_status \<times> stored_compute_epoch) option) prog" where
  "epoch_result st row = slift (rbind (computeEpoch row) (\<lambda>e. Inr (Some (st, e))))"

definition insert_epoch :: "(string \<Rightarrow> epoch_row) \<Rightarrow> (db, epoch_row option) prog" where
  "insert_epoch mk = sbind fresh_id (\<lambda>rid s.
     if er_overheadSeconds (mk rid) < 0 then (Inl check_violation, s)
     else (case insert_ignore epoch_clash (mk rid) (db_epochs s) of
       (ok, rows) \<Rightarrow> (Inr (if ok then Some (mk rid) else None), s\<lparr>db_epochs := rows\<rparr>)))"

text \<open>
  One attempt; \<open>None\<close> asks for another. Other deliveries may run between its statements: before statement
  \<open>k\<close> the state is changed by \<open>env k\<close> (the identity in a run of its own).
\<close>

definition stmt :: "(nat \<Rightarrow> db \<Rightarrow> db) \<Rightarrow> nat \<Rightarrow> (db, 'a) prog \<Rightarrow> (db, 'a) prog" where
  "stmt env k m s = m (env k s)"

type_synonym open_result = "(open_epoch_status \<times> stored_compute_epoch) option"

definition owned_epoch :: "open_epoch_input \<Rightarrow> epoch_row \<Rightarrow> (db, open_result) prog" where
  "owned_epoch i r = (if er_userId r \<noteq> oe_userId i then sthrow (PlainError ''Epoch ownership conflict'')
     else epoch_result Ep_exists r)"

definition find_concurrent :: "(nat \<Rightarrow> db \<Rightarrow> db) \<Rightarrow> nat \<Rightarrow> open_epoch_input \<Rightarrow> (db, open_result) prog" where
  "find_concurrent env k i =
     sbind (stmt env k (sget (\<lambda>s. find (\<lambda>r. er_userId r = oe_userId i \<and> er_endedAt r = None) (db_epochs s)))) (\<lambda>concurrent.
     case concurrent of
       Some r \<Rightarrow> if er_computerId r \<noteq> oe_computerId i then epoch_result Ep_concurrent r else sreturn None
     | None \<Rightarrow> sreturn None)"

definition find_existing :: "(nat \<Rightarrow> db \<Rightarrow> db) \<Rightarrow> nat \<Rightarrow> open_epoch_input \<Rightarrow> (db, open_result) prog" where
  "find_existing env k i =
     sbind (stmt env k (sget (\<lambda>s. find (\<lambda>r. er_computerId r = oe_computerId i \<and> er_endedAt r = None) (db_epochs s)))) (\<lambda>existing.
     case existing of Some r \<Rightarrow> owned_epoch i r | None \<Rightarrow> find_concurrent env (k + 1) i)"

definition try_insert :: "(nat \<Rightarrow> db \<Rightarrow> db) \<Rightarrow> nat \<Rightarrow> open_epoch_input \<Rightarrow> int \<Rightarrow> int option \<Rightarrow> (db, open_result) prog" where
  "try_insert env k i readyAt deadlineAt =
     sbind (stmt env k (insert_epoch (epoch_of_input i readyAt deadlineAt))) (\<lambda>inserted.
     case inserted of Some r \<Rightarrow> epoch_result Ep_opened r | None \<Rightarrow> find_existing env (k + 1) i)"

definition open_attempt :: "(nat \<Rightarrow> db \<Rightarrow> db) \<Rightarrow> nat \<Rightarrow> open_epoch_input \<Rightarrow> int \<Rightarrow> int option \<Rightarrow> (db, open_result) prog" where
  "open_attempt env k i readyAt deadlineAt =
     sbind (stmt env k (sget (\<lambda>s. find (\<lambda>r. er_computerId r = oe_computerId i \<and> er_readyAt r = readyAt) (db_epochs s)))) (\<lambda>replayed.
     case replayed of Some r \<Rightarrow> owned_epoch i r | None \<Rightarrow> try_insert env (k + 1) i readyAt deadlineAt)"

fun open_attempts :: "nat \<Rightarrow> (nat \<Rightarrow> db \<Rightarrow> db) \<Rightarrow> nat \<Rightarrow> open_epoch_input \<Rightarrow> int \<Rightarrow> int option
    \<Rightarrow> (db, open_epoch_status \<times> stored_compute_epoch) prog" where
  "open_attempts 0 env k i readyAt deadlineAt = sthrow (PlainError ''Could not open compute epoch after 3 attempts'')"
| "open_attempts (Suc n) env k i readyAt deadlineAt =
     sbind (open_attempt env k i readyAt deadlineAt) (\<lambda>r. case r of
       Some x \<Rightarrow> sreturn x
     | None \<Rightarrow> open_attempts n env (k + 4) i readyAt deadlineAt)"

definition openEpoch_in :: "(nat \<Rightarrow> db \<Rightarrow> db) \<Rightarrow> open_epoch_input \<Rightarrow> (db, open_epoch_status \<times> stored_compute_epoch) prog" where
  "openEpoch_in env i =
     sbind (sget (\<lambda>s. (oe_computerId i, oe_userId i) \<in> set (db_computers s))) (\<lambda>owner.
     if \<not> owner then sthrow (PlainError ''Computer does not belong to billing user'')
     else sbind (slift (rbind (epochSeconds (oe_readyAt i) RCeil) (\<lambda>s. to_ts (new_Date (s * 1000))))) (\<lambda>readyAt.
          sbind (slift (epoch_deadline i readyAt)) (\<lambda>deadlineAt.
            open_attempts 3 env 0 i readyAt deadlineAt)))"

definition openEpoch :: "open_epoch_input \<Rightarrow> (db, open_epoch_status \<times> stored_compute_epoch) prog" where
  "openEpoch = openEpoch_in (\<lambda>_ s. s)"

definition compute_epochs :: "epoch_row list \<Rightarrow> (db, stored_compute_epoch list) prog" where
  "compute_epochs rows = slift (res_map computeEpoch rows)"

definition openEpochFor :: "string \<Rightarrow> (db, stored_compute_epoch option) prog" where
  "openEpochFor computerId =
     sbind (sget (\<lambda>s. find (\<lambda>r. er_computerId r = computerId \<and> er_endedAt r = None) (db_epochs s))) (\<lambda>row.
       case row of None \<Rightarrow> sreturn None | Some r \<Rightarrow> slift (rbind (computeEpoch r) (\<lambda>e. Inr (Some e))))"

definition is_open_epoch :: "string \<Rightarrow> epoch_row \<Rightarrow> bool" where
  "is_open_epoch computerId r \<longleftrightarrow> er_computerId r = computerId \<and> er_endedAt r = None"

text \<open>The boolean of an update says whether a row was written.\<close>

definition touchEpoch :: "string \<Rightarrow> jsdate \<Rightarrow> (db, bool) prog" where
  "touchEpoch computerId at = sbind (slift (to_ts at)) (\<lambda>t s.
     (Inr (\<exists>r \<in> set (db_epochs s). is_open_epoch computerId r),
      s\<lparr>db_epochs := update_where (is_open_epoch computerId)
          (\<lambda>r. r\<lparr>er_lastHeartbeatAt := Some (max (case er_lastHeartbeatAt r of None \<Rightarrow> er_readyAt r | Some h \<Rightarrow> h) t)\<rparr>)
          (db_epochs s)\<rparr>))"

definition sweep_limit :: "int option \<Rightarrow> nat res" where
  "sweep_limit limit = (case limit of None \<Rightarrow> Inl RangeError | Some l \<Rightarrow>
     if l < 0 then Inl RangeError else Inr (nat (min 200 l)))"

definition openEpochsForSweep :: "int option \<Rightarrow> (db, stored_compute_epoch list) prog" where
  "openEpochsForSweep limit = sbind (slift (sweep_limit limit)) (\<lambda>n.
     if n = 0 then sreturn []
     else sbind (sget (\<lambda>s. take n
       (sort_key (\<lambda>r. case er_deadlineAt r of None \<Rightarrow> er_readyAt r + 21600 * 1000 | Some d \<Rightarrow> d)
         (sort_key er_id (filter (\<lambda>r. er_endedAt r = None) (db_epochs s)))))) compute_epochs)"

definition policyClosedEpochsSince :: "jsdate \<Rightarrow> int option \<Rightarrow> (db, stored_compute_epoch list) prog" where
  "policyClosedEpochsSince since limit = sbind (slift (sweep_limit limit)) (\<lambda>n.
     if n = 0 then sreturn []
     else sbind (slift (to_ts since)) (\<lambda>t. sbind (sget (\<lambda>s. take n
       (sort_key (\<lambda>r. case er_endedAt r of None \<Rightarrow> 0 | Some e \<Rightarrow> - e) (sort_key er_id
         (filter (\<lambda>r. er_endReason r \<in> {Some Session_max, Some Allowance_exhausted_end, Some Overage_cap} \<and>
             (case er_endedAt r of None \<Rightarrow> False | Some e \<Rightarrow> e \<ge> t) \<and>
             \<not> (\<exists>o' \<in> set (db_epochs s). is_open_epoch (er_computerId r) o')) (db_epochs s)))))) compute_epochs))"

definition closes_epoch :: "close_epoch_input \<Rightarrow> int option \<Rightarrow> epoch_row \<Rightarrow> bool" where
  "closes_epoch i readyBy r \<longleftrightarrow> is_open_epoch (cl_computerId i) r \<and>
     (case cl_epochId i of None \<Rightarrow> True | Some e \<Rightarrow> er_id r = e) \<and>
     (case readyBy of None \<Rightarrow> True | Some t \<Rightarrow> er_readyAt r \<le> t)"

definition close_row :: "close_epoch_input \<Rightarrow> int \<Rightarrow> epoch_row \<Rightarrow> epoch_row" where
  "close_row i ended r = r\<lparr>er_endedAt := Some (max (er_readyAt r) ended), er_endReason := Some (cl_reason i),
     er_overheadSeconds := (case cl_overheadSeconds i of None \<Rightarrow> er_overheadSeconds r | Some v \<Rightarrow> v)\<rparr>"

definition closeEpoch :: "close_epoch_input \<Rightarrow> (db, bool) prog" where
  "closeEpoch i =
     sbind (slift (rbind (epochSeconds (cl_endedAt i) RFloor) (\<lambda>s. rbind (isoSeconds s) to_ts))) (\<lambda>ended.
     sbind (slift (case cl_readyBy i of None \<Rightarrow> Inr None | Some d \<Rightarrow>
         rbind (epochSeconds d RCeil) (\<lambda>s. rbind (to_ts (new_Date (s * 1000))) (\<lambda>ms. Inr (Some ms))))) (\<lambda>readyBy s.
       if (case cl_overheadSeconds i of None \<Rightarrow> False | Some v \<Rightarrow> v < 0) \<and> (\<exists>r \<in> set (db_epochs s). closes_epoch i readyBy r)
       then (Inl check_violation, s)
       else (Inr (\<exists>r \<in> set (db_epochs s). closes_epoch i readyBy r),
             s\<lparr>db_epochs := update_where (closes_epoch i readyBy) (close_row i ended) (db_epochs s)\<rparr>)))"

definition epochsFor :: "string \<Rightarrow> jsdate \<Rightarrow> (db, stored_compute_epoch list) prog" where
  "epochsFor userId since = sbind (slift (to_ts since)) (\<lambda>t.
     sbind (sget (\<lambda>s. sort_key er_readyAt (sort_key er_id
       (filter (\<lambda>r. er_userId r = userId \<and> (case er_endedAt r of None \<Rightarrow> True | Some e \<Rightarrow> e > t)) (db_epochs s))))) compute_epochs)"

end
