(* ===== verification/Store_Ops.thy ===== *)
theory Store_Ops
  imports Store
begin

text \<open>
  The other operations of the billing store (\<^verbatim>\<open>app/src/server/billing/store.ts\<close>): consents, overage
  invoices, plan changes, payment issues, customers, the event inbox, subscriptions, grants, the outbox,
  usage intervals and storage samples.
\<close>

subsection \<open>Overage consents\<close>

definition consent_row :: "int \<Rightarrow> overage_consent \<Rightarrow> overage_consent_row" where
  "consent_row cid i = \<lparr>oc_userId = oc_userId i, oc_subscriptionId = oc_subscriptionId i, oc_enabled = oc_enabled i,
     oc_capCents = oc_capCents i, oc_termsVersion = oc_termsVersion i, oc_catalogVersion = oc_catalogVersion i,
     oc_rateCentsPerStdHour = oc_rateCentsPerStdHour i, oc_actor = oc_actor i, oc_acceptedAt = oc_acceptedAt i, oc_id = cid\<rparr>"

text \<open>The identity column advances also when the insert is a duplicate.\<close>

definition recordConsent :: "overage_consent \<Rightarrow> (db, overage_consent_row) prog" where
  "recordConsent i = send_dates [oc_acceptedAt i] (\<lambda>s.
     let s' = s\<lparr>db_seq := db_seq s + 1\<rparr>; row = consent_row (db_seq s) i in
     if oc_capCents i < 0 \<or> oc_capCents i > 10000 \<or> oc_rateCentsPerStdHour i \<le> 0 then (Inl check_violation, s')
     else (case insert_ignore consent_clash row (db_consents s) of
       (True, rows) \<Rightarrow> (Inr row, s'\<lparr>db_consents := rows\<rparr>)
     | (False, rows) \<Rightarrow> (case find (\<lambda>r. consent_clash r row) rows of
           Some r \<Rightarrow> (Inr r, s')
         | None \<Rightarrow> (Inl (PlainError ''Consent disappeared after a duplicate insert''), s'))))"

definition later_consent :: "overage_consent_row \<Rightarrow> overage_consent_row \<Rightarrow> bool" where
  "later_consent a b \<longleftrightarrow> ts_lt (oc_acceptedAt b) (oc_acceptedAt a) \<or>
     (oc_acceptedAt a = oc_acceptedAt b \<and> oc_id b < oc_id a)"

definition consents_of :: "string \<Rightarrow> string \<Rightarrow> db \<Rightarrow> overage_consent_row list" where
  "consents_of userId subscriptionId s =
     filter (\<lambda>r. oc_userId r = userId \<and> oc_subscriptionId r = subscriptionId) (db_consents s)"

definition consentAsOf :: "string \<Rightarrow> string \<Rightarrow> jsdate \<Rightarrow> (db, overage_consent_row option) prog" where
  "consentAsOf userId subscriptionId at = send_dates [at] (sget (\<lambda>s.
     pick later_consent None (filter (\<lambda>r. ts_lt (oc_acceptedAt r) at) (consents_of userId subscriptionId s))))"

definition consentDecisionsForPeriod :: "string \<Rightarrow> string \<Rightarrow> jsdate \<Rightarrow> jsdate \<Rightarrow> (db, overage_consent_row list) prog" where
  "consentDecisionsForPeriod userId subscriptionId start stop = send_dates [start, stop] (sget (\<lambda>s.
     let rows = consents_of userId subscriptionId s;
         initial = pick later_consent None (filter (\<lambda>r. ts_le (oc_acceptedAt r) start) rows)
     in sort_key (\<lambda>r. case oc_acceptedAt r of None \<Rightarrow> 0 | Some ms \<Rightarrow> ms) (sort_key oc_id
          (filter (\<lambda>r. map_option oc_id initial = Some (oc_id r) \<or>
             (ts_lt start (oc_acceptedAt r) \<and> ts_lt (oc_acceptedAt r) stop)) rows))))"

definition latestConsent :: "string \<Rightarrow> string \<Rightarrow> (db, overage_consent_row option) prog" where
  "latestConsent userId subscriptionId = sget (\<lambda>s. pick later_consent None (consents_of userId subscriptionId s))"

subsection \<open>Overage invoices\<close>

definition overage_row :: "string \<Rightarrow> overage_invoice \<Rightarrow> overage_invoice_row" where
  "overage_row rid i = \<lparr>oi_userId = oi_userId i, oi_subscriptionId = oi_subscriptionId i, oi_periodStart = oi_periodStart i,
     oi_periodEnd = oi_periodEnd i, oi_ratingVersion = oi_ratingVersion i, oi_stdSecondsOver = oi_stdSecondsOver i,
     oi_cents = oi_cents i, oi_id = rid, oi_stripeInvoiceId = None, oi_status = OI_pending\<rparr>"

definition upsertOverageInvoice :: "overage_invoice \<Rightarrow> (db, bool \<times> overage_invoice_row) prog" where
  "upsertOverageInvoice i = send_dates [oi_periodStart i, oi_periodEnd i] (sbind fresh_id (\<lambda>rid s.
     if oi_stdSecondsOver i < 0 \<or> oi_cents i < 0 then (Inl check_violation, s)
     else (case insert_ignore overage_clash (overage_row rid i) (db_overageInvoices s) of
       (True, rows) \<Rightarrow> (Inr (True, overage_row rid i), s\<lparr>db_overageInvoices := rows\<rparr>)
     | (False, rows) \<Rightarrow> (case find (\<lambda>r. oi_userId r = oi_userId i \<and> oi_subscriptionId r = oi_subscriptionId i \<and>
             oi_periodStart r = oi_periodStart i \<and> oi_ratingVersion r = oi_ratingVersion i) rows of
           Some r \<Rightarrow> (Inr (False, r), s)
         | None \<Rightarrow> (Inl (PlainError ''Overage invoice ownership conflict''), s)))))"

text \<open>An update that would break a uniqueness rule throws and writes nothing.\<close>

definition attachOverageStripeInvoice :: "string \<Rightarrow> string \<Rightarrow> (db, unit) prog" where
  "attachOverageStripeInvoice rid stripeInvoiceId s =
     (let hit = (\<lambda>r. oi_id r = rid \<and> (oi_stripeInvoiceId r = None \<or> oi_stripeInvoiceId r = Some stripeInvoiceId)) in
      if (\<exists>r \<in> set (db_overageInvoices s). hit r) \<and>
         (\<exists>r \<in> set (db_overageInvoices s). oi_id r \<noteq> rid \<and> oi_stripeInvoiceId r = Some stripeInvoiceId)
      then (Inl (PlainError ''unique_violation''), s)
      else (Inr (), s\<lparr>db_overageInvoices :=
              update_where hit (\<lambda>r. r\<lparr>oi_stripeInvoiceId := Some stripeInvoiceId\<rparr>) (db_overageInvoices s)\<rparr>))"

definition markOverageInvoiceOpen :: "string \<Rightarrow> (db, unit) prog" where
  "markOverageInvoiceOpen stripeInvoiceId s = (Inr (), s\<lparr>db_overageInvoices := update_where
     (\<lambda>r. oi_stripeInvoiceId r = Some stripeInvoiceId \<and> oi_status r = OI_pending)
     (\<lambda>r. r\<lparr>oi_status := OI_open\<rparr>) (db_overageInvoices s)\<rparr>)"

definition setOverageInvoiceStatus :: "string \<Rightarrow> OverageInvoiceStatus \<Rightarrow> (db, bool) prog" where
  "setOverageInvoiceStatus stripeInvoiceId status s =
     (Inr (\<exists>r \<in> set (db_overageInvoices s). oi_stripeInvoiceId r = Some stripeInvoiceId),
      s\<lparr>db_overageInvoices := update_where (\<lambda>r. oi_stripeInvoiceId r = Some stripeInvoiceId)
          (\<lambda>r. r\<lparr>oi_status := status\<rparr>) (db_overageInvoices s)\<rparr>)"

definition overageInvoiceByStripeId :: "string \<Rightarrow> (db, overage_invoice_row option) prog" where
  "overageInvoiceByStripeId stripeInvoiceId =
     sget (\<lambda>s. find (\<lambda>r. oi_stripeInvoiceId r = Some stripeInvoiceId) (db_overageInvoices s))"

definition overageInvoicesFor :: "string \<Rightarrow> (db, overage_invoice_row list) prog" where
  "overageInvoicesFor userId = sget (\<lambda>s.
     sort_key (\<lambda>r. case oi_periodStart r of None \<Rightarrow> 0 | Some ms \<Rightarrow> - ms)
       (filter (\<lambda>r. oi_userId r = userId) (db_overageInvoices s)))"

subsection \<open>Plan changes\<close>

definition change_row :: "string \<Rightarrow> int \<Rightarrow> plan_change \<Rightarrow> plan_change_row" where
  "change_row rid now c = \<lparr>pc_userId = pc_userId c, pc_subscriptionId = pc_subscriptionId c, pc_kind = pc_kind c,
     pc_fromSku = pc_fromSku c, pc_toSku = pc_toSku c, pc_stripeInvoiceId = pc_stripeInvoiceId c,
     pc_stripeScheduleId = pc_stripeScheduleId c, pc_hostedInvoiceUrl = pc_hostedInvoiceUrl c, pc_state = pc_state c,
     pc_effectiveAt = pc_effectiveAt c, pc_expiresAt = pc_expiresAt c, pcr_id = rid, pcr_createdAt = now\<rparr>"

definition recordPlanChange :: "plan_change \<Rightarrow> (db, bool) prog" where
  "recordPlanChange c = send_dates (opt_list (pc_effectiveAt c) @ opt_list (pc_expiresAt c)) (sbind fresh_id (\<lambda>rid s.
     case insert_ignore change_clash (change_row rid (db_now s) c) (db_planChanges s) of
       (ok, rows) \<Rightarrow> (Inr ok, s\<lparr>db_planChanges := rows\<rparr>)))"

definition set_if :: "'a option \<Rightarrow> 'a \<Rightarrow> 'a" where
  "set_if v old = (case v of None \<Rightarrow> old | Some new \<Rightarrow> new)"

definition change_hit :: "plan_change_update \<Rightarrow> plan_change_row \<Rightarrow> bool" where
  "change_hit u r \<longleftrightarrow> pc_userId r = pu_userId u \<and> pc_subscriptionId r = pu_subscriptionId u \<and>
     pc_kind r = pu_kind u \<and> open_change (pc_state r)"

definition setPlanChangeState :: "plan_change_update \<Rightarrow> (db, unit) prog" where
  "setPlanChangeState u =
     send_dates (concat (map opt_list (opt_list (pu_effectiveAt u) @ opt_list (pu_expiresAt u)))) (\<lambda>s.
       (Inr (), s\<lparr>db_planChanges := update_where (change_hit u)
          (\<lambda>r. r\<lparr>pc_state := pu_state u,
                 pc_stripeInvoiceId := set_if (pu_stripeInvoiceId u) (pc_stripeInvoiceId r),
                 pc_effectiveAt := set_if (pu_effectiveAt u) (pc_effectiveAt r),
                 pc_hostedInvoiceUrl := set_if (pu_hostedInvoiceUrl u) (pc_hostedInvoiceUrl r),
                 pc_expiresAt := set_if (pu_expiresAt u) (pc_expiresAt r)\<rparr>) (db_planChanges s)\<rparr>))"

definition openPlanChanges :: "string \<Rightarrow> (db, plan_change_row list) prog" where
  "openPlanChanges userId = sget (\<lambda>s. sort_key pcr_createdAt (sort_key pcr_id
     (filter (\<lambda>r. pc_userId r = userId \<and> open_change (pc_state r)) (db_planChanges s))))"

subsection \<open>Payment issues\<close>

definition issue_row :: "payment_issue \<Rightarrow> payment_issue_row" where
  "issue_row i = \<lparr>pi_stripeInvoiceId = pi_stripeInvoiceId i, pi_userId = pi_userId i, pi_subscriptionId = pi_subscriptionId i,
     pi_invoiceKind = pi_invoiceKind i, pi_issue = pi_issue i, pi_hostedInvoiceUrl = pi_hostedInvoiceUrl i,
     pi_stripeEventCreated = pi_stripeEventCreated i, pi_resolvedAt = None\<rparr>"

text \<open>The \<^verbatim>\<open>setWhere\<close> of the upsert: same owner, not older than the stored event, and newer than a resolution.\<close>

definition issue_applies :: "payment_issue \<Rightarrow> payment_issue_row \<Rightarrow> bool" where
  "issue_applies i r \<longleftrightarrow> pi_userId r = pi_userId i \<and> ts_le (pi_stripeEventCreated r) (pi_stripeEventCreated i) \<and>
     (case pi_resolvedAt r of None \<Rightarrow> True | Some t \<Rightarrow> ts_lt t (pi_stripeEventCreated i))"

definition issue_update :: "payment_issue \<Rightarrow> payment_issue_row \<Rightarrow> payment_issue_row" where
  "issue_update i r = r\<lparr>pi_subscriptionId := pi_subscriptionId i, pi_invoiceKind := pi_invoiceKind i, pi_issue := pi_issue i,
     pi_hostedInvoiceUrl := pi_hostedInvoiceUrl i, pi_stripeEventCreated := pi_stripeEventCreated i, pi_resolvedAt := None\<rparr>"

definition recordPaymentIssue :: "payment_issue \<Rightarrow> (db, unit) prog" where
  "recordPaymentIssue i = send_dates [pi_stripeEventCreated i] (\<lambda>s. (Inr (), s\<lparr>db_paymentIssues :=
     (if \<exists>r \<in> set (db_paymentIssues s). pi_stripeInvoiceId r = pi_stripeInvoiceId i
      then update_where (\<lambda>r. pi_stripeInvoiceId r = pi_stripeInvoiceId i \<and> issue_applies i r) (issue_update i) (db_paymentIssues s)
      else db_paymentIssues s @ [issue_row i])\<rparr>))"

definition resolvePaymentIssue :: "string \<Rightarrow> jsdate \<Rightarrow> (db, unit) prog" where
  "resolvePaymentIssue stripeInvoiceId eventCreated = send_dates [eventCreated] (\<lambda>s.
     (Inr (), s\<lparr>db_paymentIssues := update_where
        (\<lambda>r. pi_stripeInvoiceId r = stripeInvoiceId \<and> ts_le (pi_stripeEventCreated r) eventCreated)
        (\<lambda>r. r\<lparr>pi_resolvedAt := Some eventCreated, pi_stripeEventCreated := eventCreated\<rparr>) (db_paymentIssues s)\<rparr>))"

definition openPaymentIssues :: "string \<Rightarrow> (db, payment_issue_row list) prog" where
  "openPaymentIssues userId = sget (\<lambda>s.
     sort_key (\<lambda>r. case pi_stripeEventCreated r of None \<Rightarrow> 0 | Some ms \<Rightarrow> - ms)
       (filter (\<lambda>r. pi_userId r = userId \<and> pi_resolvedAt r = None) (db_paymentIssues s)))"

subsection \<open>Preferences, customers, owners\<close>

definition setSizePreference :: "string \<Rightarrow> SizeCode \<Rightarrow> (db, unit) prog" where
  "setSizePreference userId sz s = (Inr (), s\<lparr>db_sizes := map_set userId sz (db_sizes s)\<rparr>)"

definition sizePreference :: "string \<Rightarrow> (db, SizeCode option) prog" where
  "sizePreference userId = sget (\<lambda>s. map_of (db_sizes s) userId)"

definition userCreatedAt :: "string \<Rightarrow> (db, jsdate option) prog" where
  "userCreatedAt userId = sget (\<lambda>s. map_of (db_users s) userId)"

definition stripeCustomerFor :: "string \<Rightarrow> (db, string option) prog" where
  "stripeCustomerFor userId = sget (\<lambda>s. map_option snd (find (\<lambda>r. fst r = userId) (db_customers s)))"

definition userForStripeCustomer :: "string \<Rightarrow> (db, string option) prog" where
  "userForStripeCustomer customerId = sget (\<lambda>s. map_option fst (find (\<lambda>r. snd r = customerId) (db_customers s)))"

definition computerOwner :: "string \<Rightarrow> (db, string option) prog" where
  "computerOwner computerId = sget (\<lambda>s. map_of (db_computers s) computerId)"

definition placementProvider :: "string \<Rightarrow> (db, string option) prog" where
  "placementProvider computerId = sget (\<lambda>s. map_of (db_placements s) computerId)"

definition linkCustomer :: "string \<Rightarrow> string \<Rightarrow> (db, link_result) prog" where
  "linkCustomer userId stripeCustomerId s =
     (case insert_ignore customer_clash (userId, stripeCustomerId) (db_customers s) of
       (True, rows) \<Rightarrow> (Inr Link_linked, s\<lparr>db_customers := rows\<rparr>)
     | (False, rows) \<Rightarrow> (Inr (if map_option snd (find (\<lambda>r. fst r = userId) rows) = Some stripeCustomerId
                             then Link_exists else Link_conflict), s))"

subsection \<open>The event inbox\<close>

definition event_row_of :: "event_insert \<Rightarrow> event_row" where
  "event_row_of e = \<lparr>ev_eventId = ev_eventId e, ev_type = ev_type e, ev_livemode = ev_livemode e,
     ev_payloadSha256 = ev_payloadSha256 e, er_processedAt = None, er_outcome = None\<rparr>"

definition failed_outcome :: "string option \<Rightarrow> bool" where
  "failed_outcome v = (case v of None \<Rightarrow> False | Some o' \<Rightarrow> starts_with ''failed'' o')"

definition recordEvent :: "event_insert \<Rightarrow> (db, record_result) prog" where
  "recordEvent e s =
     (case insert_ignore event_clash (event_row_of e) (db_events s) of
       (True, rows) \<Rightarrow> (Inr Rec_new, s\<lparr>db_events := rows\<rparr>)
     | (False, rows) \<Rightarrow> (case find (\<lambda>r. ev_eventId r = ev_eventId e) rows of
           None \<Rightarrow> (Inl (PlainError ''billing_receipt_unavailable''), s)
         | Some row \<Rightarrow>
             if ev_payloadSha256 row \<noteq> ev_payloadSha256 e \<or> ev_type row \<noteq> ev_type e \<or> ev_livemode row \<noteq> ev_livemode e
             then (Inr Rec_conflict, s)
             else (Inr (if er_processedAt row \<noteq> None \<and> \<not> failed_outcome (er_outcome row)
                        then Rec_processed else Rec_unprocessed), s)))"

definition markEventProcessed :: "string \<Rightarrow> string \<Rightarrow> (db, unit) prog" where
  "markEventProcessed eventId outcome s = (Inr (), s\<lparr>db_events := update_where (\<lambda>r. ev_eventId r = eventId)
     (\<lambda>r. r\<lparr>er_processedAt := Some (db_now s), er_outcome := Some outcome\<rparr>) (db_events s)\<rparr>)"

subsection \<open>Subscriptions\<close>

definition subscriptionsFor :: "string \<Rightarrow> (db, subscription_row list) prog" where
  "subscriptionsFor userId = sget (\<lambda>s. map subscription_row.truncate (filter (\<lambda>r. su_userId r = userId) (db_subscriptions s)))"

definition sub_applies :: "subscription_upsert \<Rightarrow> subscription_upsert \<Rightarrow> bool" where
  "sub_applies row r \<longleftrightarrow> su_userId r = su_userId row \<and> ts_le (su_stripeEventCreated r) (su_stripeEventCreated row)"

text \<open>The update writes the given state and keeps the owner the first insert fixed.\<close>

definition sub_update :: "subscription_upsert \<Rightarrow> subscription_upsert \<Rightarrow> subscription_upsert" where
  "sub_update row r = r\<lparr>sub_status := sub_status row, sub_sku := sub_sku row, sub_periodStart := sub_periodStart row,
     sub_periodEnd := sub_periodEnd row, sub_cancelAtPeriodEnd := sub_cancelAtPeriodEnd row,
     su_stripeEventCreated := su_stripeEventCreated row\<rparr>"

definition upsertSubscription :: "subscription_upsert \<Rightarrow> (db, upsert_result) prog" where
  "upsertSubscription row =
     send_dates (su_stripeEventCreated row # opt_list (sub_periodStart row) @ opt_list (sub_periodEnd row)) (\<lambda>s.
       case find (\<lambda>r. sub_id r = sub_id row) (db_subscriptions s) of
         None \<Rightarrow> (Inr Up_applied, s\<lparr>db_subscriptions := db_subscriptions s @ [row]\<rparr>)
       | Some r \<Rightarrow>
           if sub_applies row r
           then (Inr Up_applied, s\<lparr>db_subscriptions :=
                   update_where (\<lambda>r. sub_id r = sub_id row) (sub_update row) (db_subscriptions s)\<rparr>)
           else (Inr (if su_userId r \<noteq> su_userId row then Up_conflict else Up_stale), s))"

subsection \<open>Grants and the outbox\<close>

definition mk_grant :: "string \<Rightarrow> grant_insert \<Rightarrow> grant_row" where
  "mk_grant rid g = \<lparr>g_userId = g_userId g, g_meter = g_meter g, g_kind = g_kind g, g_amount = g_amount g,
     g_periodStart = g_periodStart g, g_periodEnd = g_periodEnd g, g_sourceType = g_sourceType g,
     g_sourceId = g_sourceId g, g_subscriptionId = g_subscriptionId g, g_id = rid\<rparr>"

definition grantsForPeriod :: "string \<Rightarrow> window \<Rightarrow> GrantMeter list \<Rightarrow> (db, grant_row list) prog" where
  "grantsForPeriod userId w meters =
     (if meters = [] then sreturn []
      else send_dates [w_start w, w_end w] (sget (\<lambda>s. filter (\<lambda>g. g_userId g = userId \<and> g_meter g \<in> set meters \<and>
        (case g_periodStart g of None \<Rightarrow> False | Some a \<Rightarrow> ts_lt a (w_end w)) \<and>
        (case g_periodEnd g of None \<Rightarrow> False | Some b \<Rightarrow> ts_lt (w_start w) b)) (db_grants s))))"

definition grantsBySource :: "GrantSource \<Rightarrow> string \<Rightarrow> (db, grant_row list) prog" where
  "grantsBySource sourceType sourceId =
     sget (\<lambda>s. filter (\<lambda>g. g_sourceType g = sourceType \<and> g_sourceId g = sourceId) (db_grants s))"

definition insertGrant :: "grant_insert \<Rightarrow> (db, bool) prog" where
  "insertGrant g = send_dates (opt_list (g_periodStart g) @ opt_list (g_periodEnd g)) (sbind fresh_id (\<lambda>rid s.
     case insert_ignore grant_clash (mk_grant rid g) (db_grants s) of (ok, rows) \<Rightarrow> (Inr ok, s\<lparr>db_grants := rows\<rparr>)))"

definition mk_outbox :: "string \<Rightarrow> int \<Rightarrow> outbox_insert \<Rightarrow> outbox_row" where
  "mk_outbox rid now i = \<lparr>ob_eventKey = ob_eventKey i, ob_userId = ob_userId i, ob_kind = ob_kind i, ob_payload = ob_payload i,
     ox_id = rid, ox_createdAt = now, ox_deliveredAt = None, ox_attempts = 0, ox_lastError = None\<rparr>"

definition enqueueOutbox :: "outbox_insert \<Rightarrow> (db, bool) prog" where
  "enqueueOutbox item = sbind fresh_id (\<lambda>rid s.
     case insert_ignore outbox_clash (mk_outbox rid (db_now s) item) (db_outbox s) of (ok, rows) \<Rightarrow> (Inr ok, s\<lparr>db_outbox := rows\<rparr>))"

subsection \<open>Usage intervals and storage samples\<close>

definition is_open_interval :: "string \<Rightarrow> usage_interval \<Rightarrow> bool" where
  "is_open_interval computerId r \<longleftrightarrow> ui_computerId r = computerId \<and> ui_endedAt r = None"

definition intervalsFor :: "string \<Rightarrow> jsdate \<Rightarrow> (db, interval_row list) prog" where
  "intervalsFor userId since = sbind (slift (to_ts since)) (\<lambda>t. sget (\<lambda>s.
     map (\<lambda>r. \<lparr>iv_startedAt = Some (ui_startedAt r), iv_endedAt = map_option Some (ui_endedAt r),
                iv_lastSeenAt = Some (Some (ui_lastSeenAt r))\<rparr>)
       (filter (\<lambda>r. ui_userId r = userId \<and> (case ui_endedAt r of None \<Rightarrow> True | Some e \<Rightarrow> e \<ge> t)) (db_intervals s))))"

text \<open>The latest start; of equal starts, in the order of identities, one is chosen (here the last inserted).\<close>

definition latestIntervalFor :: "string \<Rightarrow> (db, int option option) prog" where
  "latestIntervalFor computerId = sget (\<lambda>s. map_option ui_endedAt
     (pick (\<lambda>a b. ui_startedAt a \<ge> ui_startedAt b) None (filter (\<lambda>r. ui_computerId r = computerId) (db_intervals s))))"

definition openInterval :: "string \<Rightarrow> string \<Rightarrow> jsdate \<Rightarrow> string \<Rightarrow> (db, unit) prog" where
  "openInterval userId computerId at source = sbind (slift (to_ts at)) (\<lambda>t s.
     (Inr (), s\<lparr>db_intervals := snd (insert_ignore interval_clash
        \<lparr>ui_userId = userId, ui_computerId = computerId, ui_startedAt = t, ui_lastSeenAt = t, ui_endedAt = None,
         ui_closeReason = None, ui_source = source\<rparr> (db_intervals s))\<rparr>))"

definition touchInterval :: "string \<Rightarrow> jsdate \<Rightarrow> (db, unit) prog" where
  "touchInterval computerId at = sbind (slift (to_ts at)) (\<lambda>t s.
     (Inr (), s\<lparr>db_intervals := update_where (is_open_interval computerId)
        (\<lambda>r. r\<lparr>ui_lastSeenAt := max (ui_lastSeenAt r) t\<rparr>) (db_intervals s)\<rparr>))"

definition closeInterval :: "string \<Rightarrow> jsdate \<Rightarrow> string \<Rightarrow> (db, unit) prog" where
  "closeInterval computerId at reason = sbind (slift (to_ts at)) (\<lambda>t s.
     (Inr (), s\<lparr>db_intervals := update_where (is_open_interval computerId)
        (\<lambda>r. r\<lparr>ui_endedAt := Some (max (ui_startedAt r) t), ui_closeReason := Some reason\<rparr>) (db_intervals s)\<rparr>))"

definition closeStaleIntervals :: "jsdate \<Rightarrow> string \<Rightarrow> (db, nat) prog" where
  "closeStaleIntervals staleBefore reason = sbind (slift (to_ts staleBefore)) (\<lambda>t s.
     let stale = (\<lambda>r. ui_endedAt r = None \<and> ui_lastSeenAt r < t) in
     (Inr (length (filter stale (db_intervals s))), s\<lparr>db_intervals := update_where stale
        (\<lambda>r. r\<lparr>ui_endedAt := Some (ui_lastSeenAt r), ui_closeReason := Some reason\<rparr>) (db_intervals s)\<rparr>))"

definition insertStorageSample :: "string \<Rightarrow> storage_sample \<Rightarrow> string \<Rightarrow> (db, unit) prog" where
  "insertStorageSample userId x source = send_dates [ss_measuredAt x] (\<lambda>s.
     if ss_bytes x < 0 then (Inl check_violation, s)
     else (Inr (), s\<lparr>db_samples := db_samples s @ [\<lparr>ss_computerId = ss_computerId x, ss_bytes = ss_bytes x,
        ss_measuredAt = ss_measuredAt x, sr_userId = userId, sr_source = source\<rparr>]\<rparr>))"

text \<open>\<^verbatim>\<open>DISTINCT ON\<close> the computer, newest sample first; of equal instants one is chosen (here the first inserted).\<close>

definition latestStorageFor :: "string \<Rightarrow> (db, storage_sample list) prog" where
  "latestStorageFor userId = sget (\<lambda>s.
     let rows = filter (\<lambda>r. sr_userId r = userId) (db_samples s) in
     concat (map (\<lambda>c. opt_list (map_option storage_sample.truncate
         (pick (\<lambda>a b. ts_lt (ss_measuredAt b) (ss_measuredAt a)) None (filter (\<lambda>r. ss_computerId r = c) rows))))
       (sort (remdups (map ss_computerId rows)))))"

end
