(* ===== verification/Store_Inv.thy ===== *)
theory Store_Inv
  imports Store_Ops
begin

text \<open>
  What the store guarantees: the schema's uniqueness rules are instances of the table contracts, every
  operation keeps the invariant of the database, and the invariant holds in every state reachable by
  writes. On top of it: what readers of the store may rely on.
\<close>

subsection \<open>The tables implement the contracts\<close>

interpretation grants: replayable grant_clash mk_grant
  by unfold_locales (auto simp: grant_clash_def mk_grant_def)

interpretation outbox: replayable outbox_clash "\<lambda>(rid, now). mk_outbox rid now"
  by unfold_locales (auto simp: outbox_clash_def mk_outbox_def)

interpretation events: replayable event_clash "\<lambda>(_ :: unit). event_row_of"
  by unfold_locales (auto simp: event_clash_def event_row_of_def)

interpretation consents: replayable consent_clash consent_row
  by unfold_locales (auto simp: consent_clash_def consent_row_def)

interpretation overages: replayable overage_clash overage_row
  by unfold_locales (auto simp: overage_clash_def overage_row_def)

interpretation customers: replayable customer_clash "\<lambda>(_ :: unit) x. x"
  by unfold_locales (auto simp: customer_clash_def)

interpretation epochs: replayable epoch_clash "\<lambda>rid (i, r, d). epoch_of_input i r d rid"
  by unfold_locales (auto simp: epoch_clash_def epoch_of_input_def)

interpretation intervals: unique_rule interval_clash
  by unfold_locales (auto simp: interval_clash_def)

interpretation changes: unique_rule change_clash
  by unfold_locales (auto simp: change_clash_def)

text \<open>The latest decision is a preference, total on the rows the identity column tells apart.\<close>

interpretation consent_order: preference later_consent "\<lambda>r. oc_acceptedAt r \<noteq> None"
  by unfold_locales (auto simp: later_consent_def ts_lt_def split: option.splits)

subsection \<open>The invariant\<close>

definition epoch_ok :: "epoch_row \<Rightarrow> bool" where
  "epoch_ok r \<longleftrightarrow> er_weight r = size_weight (er_size r) \<and> (er_endedAt r = None \<longleftrightarrow> er_endReason r = None) \<and>
     (\<forall>e. er_endedAt r = Some e \<longrightarrow> er_readyAt r \<le> e) \<and> (\<forall>d. er_deadlineAt r = Some d \<longrightarrow> er_readyAt r \<le> d) \<and>
     (\<forall>h. er_lastHeartbeatAt r = Some h \<longrightarrow> er_readyAt r \<le> h) \<and> 0 \<le> er_overheadSeconds r"

definition interval_ok :: "usage_interval \<Rightarrow> bool" where
  "interval_ok r \<longleftrightarrow> ui_startedAt r \<le> ui_lastSeenAt r \<and> (\<forall>e. ui_endedAt r = Some e \<longrightarrow> ui_startedAt r \<le> e)"

definition consent_ok :: "overage_consent_row \<Rightarrow> bool" where
  "consent_ok r \<longleftrightarrow> 0 \<le> oc_capCents r \<and> oc_capCents r \<le> 10000 \<and> 0 < oc_rateCentsPerStdHour r \<and> oc_acceptedAt r \<noteq> None"

definition sub_ok :: "subscription_upsert \<Rightarrow> bool" where
  "sub_ok r \<longleftrightarrow> su_stripeEventCreated r \<noteq> None \<and> sub_periodStart r \<noteq> Some None \<and> sub_periodEnd r \<noteq> Some None"

definition issue_ok :: "payment_issue_row \<Rightarrow> bool" where
  "issue_ok r \<longleftrightarrow> pi_stripeEventCreated r \<noteq> None \<and> pi_resolvedAt r \<noteq> Some None"

definition db_inv :: "db \<Rightarrow> bool" where
  "db_inv s \<longleftrightarrow>
     uniq customer_clash (db_customers s) \<and> uniq event_clash (db_events s) \<and> uniq grant_clash (db_grants s) \<and>
     uniq outbox_clash (db_outbox s) \<and> uniq interval_clash (db_intervals s) \<and> uniq epoch_clash (db_epochs s) \<and>
     uniq consent_clash (db_consents s) \<and> uniq overage_clash (db_overageInvoices s) \<and> uniq change_clash (db_planChanges s) \<and>
     uniq (\<lambda>a b. sub_id a = sub_id b) (db_subscriptions s) \<and>
     uniq (\<lambda>a b. pi_stripeInvoiceId a = pi_stripeInvoiceId b) (db_paymentIssues s) \<and>
     (\<forall>r \<in> set (db_epochs s). epoch_ok r) \<and> (\<forall>r \<in> set (db_intervals s). interval_ok r) \<and>
     (\<forall>r \<in> set (db_consents s). consent_ok r \<and> oc_id r < db_seq s) \<and> uniq (\<lambda>a b. oc_id a = oc_id b) (db_consents s) \<and>
     (\<forall>r \<in> set (db_subscriptions s). sub_ok r) \<and> (\<forall>r \<in> set (db_paymentIssues s). issue_ok r) \<and>
     inj (db_uuid s) \<and> uniq (\<lambda>a b. oi_id a = oi_id b) (db_overageInvoices s) \<and>
     (\<forall>r \<in> set (db_overageInvoices s). \<exists>n < db_next s. oi_id r = db_uuid s n)"

interpretation sub_ids: unique_rule "\<lambda>a b. sub_id (a :: subscription_upsert) = sub_id b"
  by unfold_locales simp

interpretation overage_ids: unique_rule "\<lambda>a b. oi_id (a :: overage_invoice_row) = oi_id b"
  by unfold_locales simp

interpretation issue_ids: unique_rule "\<lambda>a b. pi_stripeInvoiceId (a :: payment_issue_row) = pi_stripeInvoiceId b"
  by unfold_locales simp

lemma preservesI: "(\<And>s. I s \<Longrightarrow> I (snd (m s))) \<Longrightarrow> preserves I m"
  by (simp add: preserves_def)

lemma preserves_send_dates [billing_intros]: "(None \<notin> set ds \<Longrightarrow> preserves I m) \<Longrightarrow> preserves I (send_dates ds m)"
  by (auto simp: send_dates_def intro: billing_intros)

lemma preserves_stmt [billing_intros]: "(\<And>s. I s \<Longrightarrow> I (env k s)) \<Longrightarrow> preserves I m \<Longrightarrow> preserves I (stmt env k m)"
  by (auto simp: preserves_def stmt_def)

lemma none_neq_iff [simp]: "None \<noteq> x \<longleftrightarrow> (\<exists>y. x = Some y)"
  by (cases x) auto

lemma next_inv: "db_inv s \<Longrightarrow> db_inv (s\<lparr>db_next := Suc (db_next s)\<rparr>)"
  by (auto simp: db_inv_def less_Suc_eq)

lemma fresh_id_inv [billing_intros]: "preserves db_inv fresh_id"
  by (rule preservesI) (simp add: fresh_id_def next_inv)

lemma mem_insert_ignore: "x \<in> set (snd (insert_ignore clash r rows)) \<Longrightarrow> x \<in> set rows \<or> x = r"
  by (auto simp: insert_ignore_def split: if_splits)

lemma epoch_result_inv [billing_intros]: "preserves I (epoch_result st r)"
  unfolding epoch_result_def by (rule billing_intros)

lemma insert_epoch_inv:
  assumes "\<And>rid. 0 \<le> er_overheadSeconds (mk rid) \<Longrightarrow> epoch_ok (mk rid)"
  shows "preserves db_inv (insert_epoch mk)"
  unfolding insert_epoch_def
proof (rule preserves_bind [OF fresh_id_inv], rule preservesI)
  fix rid s assume inv: "db_inv s"
  let ?rows = "snd (insert_ignore epoch_clash (mk rid) (db_epochs s))"
  have "\<forall>r \<in> set ?rows. epoch_ok r" if "0 \<le> er_overheadSeconds (mk rid)"
    using inv assms [OF that] mem_insert_ignore unfolding db_inv_def by metis
  moreover have "uniq epoch_clash ?rows" using inv by (auto simp: db_inv_def intro: uniq_insert_ignore)
  ultimately show "db_inv (snd (if er_overheadSeconds (mk rid) < 0 then (Inl check_violation, s)
      else case insert_ignore epoch_clash (mk rid) (db_epochs s) of
        (ok, rows) \<Rightarrow> (Inr (if ok then Some (mk rid) else None), s\<lparr>db_epochs := rows\<rparr>)))"
    using inv by (auto simp: db_inv_def split: prod.split)
qed

lemma epoch_deadline_ready: "epoch_deadline i r = Inr (Some d) \<Longrightarrow> r \<le> d"
  by (auto simp: epoch_deadline_def Let_def to_ts_def new_Date_def split: option.splits if_splits)

lemma epoch_of_input_ok:
  "epoch_deadline i r = Inr d \<Longrightarrow> 0 \<le> er_overheadSeconds (epoch_of_input i r d rid) \<Longrightarrow> epoch_ok (epoch_of_input i r d rid)"
  using epoch_deadline_ready [of i r] by (cases d) (auto simp: epoch_ok_def epoch_of_input_def)

lemma open_attempt_inv:
  assumes "\<And>n s. db_inv s \<Longrightarrow> db_inv (env n s)" and "epoch_deadline i r = Inr d"
  shows "preserves db_inv (open_attempt env k i r d)"
  unfolding open_attempt_def try_insert_def find_existing_def find_concurrent_def owned_epoch_def
  by (intro billing_intros assms(1) insert_epoch_inv epoch_of_input_ok [OF assms(2)])

lemma open_attempts_inv:
  assumes "\<And>n s. db_inv s \<Longrightarrow> db_inv (env n s)" and "epoch_deadline i r = Inr d"
  shows "preserves db_inv (open_attempts n env k i r d)"
  by (induction n arbitrary: k) (auto intro!: billing_intros open_attempt_inv assms)

lemma preserves_lift_bind:
  "(\<And>x. r = Inr x \<Longrightarrow> preserves I (f x)) \<Longrightarrow> preserves I (sbind (slift r) f)"
  by (cases r) (auto simp: preserves_def sbind_def)

lemma openEpoch_in_inv:
  assumes "\<And>n s. db_inv s \<Longrightarrow> db_inv (env n s)"
  shows "preserves db_inv (openEpoch_in env i)"
  unfolding openEpoch_in_def
  by (intro preserves_bind preserves_get preserves_if preserves_throw preserves_lift_bind open_attempts_inv assms)

lemma openEpoch_inv [billing_intros]: "preserves db_inv (openEpoch i)"
  unfolding openEpoch_def by (rule openEpoch_in_inv)

lemma ball_update_where: "(\<forall>r \<in> set rows. ok r \<and> (P r \<longrightarrow> ok (f r))) \<Longrightarrow> \<forall>r \<in> set (update_where P f rows). ok r"
  by (auto simp: update_where_def)

lemma touchEpoch_inv [billing_intros]: "preserves db_inv (touchEpoch c at)"
  unfolding touchEpoch_def
proof (rule preserves_bind [OF preserves_lift], rule preservesI)
  fix t s assume inv: "db_inv s"
  let ?f = "\<lambda>r. r\<lparr>er_lastHeartbeatAt := Some (max (case er_lastHeartbeatAt r of None \<Rightarrow> er_readyAt r | Some h \<Rightarrow> h) t)\<rparr>"
  have "uniq epoch_clash (update_where (is_open_epoch c) ?f (db_epochs s))"
    by (rule epochs.uniq_map_update) (use inv in \<open>auto simp: db_inv_def epoch_clash_def\<close>)
  moreover have "\<forall>r \<in> set (update_where (is_open_epoch c) ?f (db_epochs s)). epoch_ok r"
    by (rule ball_update_where) (use inv in \<open>auto simp: db_inv_def epoch_ok_def max_def split: option.splits\<close>)
  ultimately show "db_inv (snd (Inr (\<exists>r \<in> set (db_epochs s). is_open_epoch c r),
      s\<lparr>db_epochs := update_where (is_open_epoch c) ?f (db_epochs s)\<rparr>))"
    using inv by (simp add: db_inv_def)
qed

lemma closeEpoch_inv [billing_intros]: "preserves db_inv (closeEpoch i)"
  unfolding closeEpoch_def
proof (rule preserves_bind [OF preserves_lift], rule preserves_bind [OF preserves_lift], rule preservesI)
  fix ended by' s assume inv: "db_inv s"
  let ?P = "closes_epoch i by'" and ?f = "close_row i ended"
  have u: "uniq epoch_clash (update_where ?P ?f (db_epochs s))"
    by (rule epochs.uniq_map_update) (use inv in \<open>auto simp: db_inv_def epoch_clash_def close_row_def\<close>)
  show "db_inv (snd (if (case cl_overheadSeconds i of None \<Rightarrow> False | Some v \<Rightarrow> v < 0) \<and> (\<exists>r \<in> set (db_epochs s). ?P r)
       then (Inl check_violation, s)
       else (Inr (\<exists>r \<in> set (db_epochs s). ?P r), s\<lparr>db_epochs := update_where ?P ?f (db_epochs s)\<rparr>)))"
  proof (cases "(case cl_overheadSeconds i of None \<Rightarrow> False | Some v \<Rightarrow> v < 0) \<and> (\<exists>r \<in> set (db_epochs s). ?P r)")
    case False
    have "\<forall>r \<in> set (update_where ?P ?f (db_epochs s)). epoch_ok r"
      by (rule ball_update_where)
        (use inv False in \<open>auto simp: db_inv_def epoch_ok_def close_row_def split: option.splits\<close>)
    with u inv False show ?thesis by (simp add: db_inv_def)
  qed (use inv in simp)
qed

lemma recordConsent_inv [billing_intros]: "preserves db_inv (recordConsent i)"
  unfolding recordConsent_def
proof (rule preserves_send_dates, rule preservesI)
  fix s assume d: "None \<notin> set [oc_acceptedAt i]" and inv: "db_inv s"
  let ?row = "consent_row (db_seq s) i" and ?s = "s\<lparr>db_seq := db_seq s + 1\<rparr>"
  obtain ok rows where ins: "insert_ignore consent_clash ?row (db_consents s) = (ok, rows)" by fastforce
  have s': "db_inv ?s" using inv by (auto simp: db_inv_def)
  have u: "uniq consent_clash rows"
    using uniq_insert_ignore [of consent_clash "db_consents s" ?row] ins inv by (simp add: db_inv_def)
  have lt: "\<forall>r \<in> set (db_consents s). oc_id r < db_seq s" using inv by (simp add: db_inv_def)
  have ids: "uniq (\<lambda>a b. oc_id a = oc_id b) rows"
    using ins inv lt by (fastforce simp: db_inv_def insert_ignore_def uniq_append consent_row_def split: if_splits)
  have new: "\<not> (oc_capCents i < 0 \<or> oc_capCents i > 10000 \<or> oc_rateCentsPerStdHour i \<le> 0) \<Longrightarrow>
      \<forall>r \<in> set rows. consent_ok r \<and> oc_id r < db_seq s + 1"
  proof -
    assume n: "\<not> (oc_capCents i < 0 \<or> oc_capCents i > 10000 \<or> oc_rateCentsPerStdHour i \<le> 0)"
    have "consent_ok r \<and> oc_id r < db_seq s + 1" if "r \<in> set (db_consents s)" for r
      using inv that by (force simp: db_inv_def)
    moreover have "consent_ok ?row \<and> oc_id ?row < db_seq s + 1" using n d by (simp add: consent_ok_def consent_row_def)
    ultimately show "\<forall>r \<in> set rows. consent_ok r \<and> oc_id r < db_seq s + 1"
      using mem_insert_ignore [of _ consent_clash ?row "db_consents s"] ins by auto
  qed
  show "db_inv (snd (let s' = ?s; row = ?row in
     if oc_capCents i < 0 \<or> oc_capCents i > 10000 \<or> oc_rateCentsPerStdHour i \<le> 0 then (Inl check_violation, s')
     else (case insert_ignore consent_clash row (db_consents s) of
       (True, rows) \<Rightarrow> (Inr row, s'\<lparr>db_consents := rows\<rparr>)
     | (False, rows) \<Rightarrow> (case find (\<lambda>r. consent_clash r row) rows of
           Some r \<Rightarrow> (Inr r, s')
         | None \<Rightarrow> (Inl (PlainError ''Consent disappeared after a duplicate insert''), s')))))"
    using s' u ids new inv by (auto simp: Let_def ins db_inv_def split: bool.split option.split)
qed

lemma overage_insert_inv:
  assumes inv: "db_inv s"
  shows "db_inv (s\<lparr>db_next := Suc (db_next s),
    db_overageInvoices := snd (insert_ignore overage_clash (overage_row (db_uuid s (db_next s)) i) (db_overageInvoices s))\<rparr>)"
proof -
  let ?row = "overage_row (db_uuid s (db_next s)) i"
  let ?rows = "snd (insert_ignore overage_clash ?row (db_overageInvoices s))"
  have old: "\<exists>n < db_next s. oi_id r = db_uuid s n" if "r \<in> set (db_overageInvoices s)" for r
    using inv that by (auto simp: db_inv_def)
  then have "oi_id r \<noteq> oi_id ?row" if "r \<in> set (db_overageInvoices s)" for r
    using inv that by (fastforce simp: db_inv_def overage_row_def dest: injD)
  then have "uniq (\<lambda>a b. oi_id a = oi_id b) ?rows"
    using inv by (auto simp: db_inv_def insert_ignore_def uniq_append)
  moreover have "uniq overage_clash ?rows" using inv by (auto simp: db_inv_def intro: uniq_insert_ignore)
  moreover have "\<exists>n < Suc (db_next s). oi_id r = db_uuid s n" if "r \<in> set ?rows" for r
    using mem_insert_ignore [OF that] old by (auto simp: overage_row_def intro: less_SucI)
  ultimately show ?thesis using inv by (simp add: db_inv_def)
qed

lemma upsertOverageInvoice_inv [billing_intros]: "preserves db_inv (upsertOverageInvoice i)"
  unfolding upsertOverageInvoice_def
proof (rule preserves_send_dates, rule preservesI)
  fix s assume inv: "db_inv s"
  let ?row = "overage_row (db_uuid s (db_next s)) i"
  obtain ok rows where ins: "insert_ignore overage_clash ?row (db_overageInvoices s) = (ok, rows)" by fastforce
  have "db_inv (s\<lparr>db_next := Suc (db_next s), db_overageInvoices := rows\<rparr>)"
    using overage_insert_inv [OF inv, of i] ins by simp
  then show "db_inv (snd (sbind fresh_id (\<lambda>rid s.
     if oi_stdSecondsOver i < 0 \<or> oi_cents i < 0 then (Inl check_violation, s)
     else (case insert_ignore overage_clash (overage_row rid i) (db_overageInvoices s) of
       (True, rows) \<Rightarrow> (Inr (True, overage_row rid i), s\<lparr>db_overageInvoices := rows\<rparr>)
     | (False, rows) \<Rightarrow> (case find (\<lambda>r. oi_userId r = oi_userId i \<and> oi_subscriptionId r = oi_subscriptionId i \<and>
             oi_periodStart r = oi_periodStart i \<and> oi_ratingVersion r = oi_ratingVersion i) rows of
           Some r \<Rightarrow> (Inr (False, r), s)
         | None \<Rightarrow> (Inl (PlainError ''Overage invoice ownership conflict''), s)))) s))"
    using next_inv [OF inv] ins by (simp add: sbind_def fresh_id_def split: bool.split option.split)
qed

lemma attach_uniq:
  assumes u: "uniq overage_clash rows" "uniq (\<lambda>a b. oi_id a = oi_id b) rows"
    and free: "\<not> (\<exists>r \<in> set rows. oi_id r \<noteq> rid \<and> oi_stripeInvoiceId r = Some sid)"
  shows "uniq overage_clash (update_where (\<lambda>r. oi_id r = rid \<and> (oi_stripeInvoiceId r = None \<or> oi_stripeInvoiceId r = Some sid))
      (\<lambda>r. r\<lparr>oi_stripeInvoiceId := Some sid\<rparr>) rows)"
proof (rule uniq_update_where [OF u(1)])
  fix a b assume ab: "a \<in> set rows" "b \<in> set rows" "\<not> overage_clash a b"
  then have "a \<noteq> b" by (auto simp: overage_clash_def)
  then have "oi_id a \<noteq> oi_id b" using overage_ids.uniq_at_most_one [OF u(2) ab(1,2)] by blast
  then show "\<not> overage_clash
      (if oi_id a = rid \<and> (oi_stripeInvoiceId a = None \<or> oi_stripeInvoiceId a = Some sid) then a\<lparr>oi_stripeInvoiceId := Some sid\<rparr> else a)
      (if oi_id b = rid \<and> (oi_stripeInvoiceId b = None \<or> oi_stripeInvoiceId b = Some sid) then b\<lparr>oi_stripeInvoiceId := Some sid\<rparr> else b)"
    using ab free by (auto simp: overage_clash_def)
qed

lemma overage_update_inv:
  assumes "db_inv s" and "uniq overage_clash (update_where P f (db_overageInvoices s))" and "\<And>r. oi_id (f r) = oi_id r"
  shows "db_inv (s\<lparr>db_overageInvoices := update_where P f (db_overageInvoices s)\<rparr>)"
proof -
  have "uniq (\<lambda>a b. oi_id a = oi_id b) (update_where P f (db_overageInvoices s))"
    by (rule overage_ids.uniq_map_update) (use assms in \<open>auto simp: db_inv_def\<close>)
  moreover have "\<forall>r \<in> set (update_where P f (db_overageInvoices s)). \<exists>n < db_next s. oi_id r = db_uuid s n"
    by (rule ball_update_where) (use assms in \<open>auto simp: db_inv_def\<close>)
  ultimately show ?thesis using assms by (simp add: db_inv_def)
qed

lemma attachOverageStripeInvoice_inv [billing_intros]: "preserves db_inv (attachOverageStripeInvoice rid sid)"
proof (rule preservesI)
  fix s assume inv: "db_inv s"
  show "db_inv (snd (attachOverageStripeInvoice rid sid s))"
  proof (cases "\<exists>r \<in> set (db_overageInvoices s). oi_id r \<noteq> rid \<and> oi_stripeInvoiceId r = Some sid")
    case True
    have "update_where (\<lambda>r. oi_id r = rid \<and> (oi_stripeInvoiceId r = None \<or> oi_stripeInvoiceId r = Some sid)) f (db_overageInvoices s)
        = db_overageInvoices s"
      if "\<not> (\<exists>r \<in> set (db_overageInvoices s). oi_id r = rid \<and> (oi_stripeInvoiceId r = None \<or> oi_stripeInvoiceId r = Some sid))"
      for f :: "overage_invoice_row \<Rightarrow> overage_invoice_row"
      using that by (intro update_where_none) blast
    then show ?thesis using True inv by (auto simp: attachOverageStripeInvoice_def Let_def)
  next
    case False
    then show ?thesis
      using inv overage_update_inv [OF inv attach_uniq [OF _ _ False]]
      by (simp add: attachOverageStripeInvoice_def Let_def db_inv_def)
  qed
qed

text \<open>An update that keeps the fields a uniqueness rule reads keeps the rule.\<close>

lemma overage_status_inv:
  "db_inv s \<Longrightarrow> db_inv (s\<lparr>db_overageInvoices := update_where P (\<lambda>r. r\<lparr>oi_status := st\<rparr>) (db_overageInvoices s)\<rparr>)"
  by (rule overage_update_inv) (auto simp: db_inv_def overage_clash_def intro!: overages.uniq_map_update)

lemma markOverageInvoiceOpen_inv [billing_intros]: "preserves db_inv (markOverageInvoiceOpen i)"
  by (rule preservesI) (simp add: markOverageInvoiceOpen_def overage_status_inv)

lemma setOverageInvoiceStatus_inv [billing_intros]: "preserves db_inv (setOverageInvoiceStatus i st)"
  by (rule preservesI) (simp add: setOverageInvoiceStatus_def overage_status_inv)

lemma recordPlanChange_inv [billing_intros]: "preserves db_inv (recordPlanChange c)"
  unfolding recordPlanChange_def
proof (rule preserves_send_dates, rule preserves_bind [OF fresh_id_inv], rule preservesI)
  fix rid s assume inv: "db_inv s"
  have "uniq change_clash (snd (insert_ignore change_clash (change_row rid (db_now s) c) (db_planChanges s)))"
    using inv by (auto simp: db_inv_def intro: uniq_insert_ignore)
  then show "db_inv (snd (case insert_ignore change_clash (change_row rid (db_now s) c) (db_planChanges s) of
      (ok, rows) \<Rightarrow> (Inr ok, s\<lparr>db_planChanges := rows\<rparr>)))"
    using inv by (auto simp: db_inv_def split: prod.split)
qed

lemma setPlanChangeState_inv [billing_intros]: "preserves db_inv (setPlanChangeState u)"
  unfolding setPlanChangeState_def
proof (rule preserves_send_dates, rule preservesI)
  fix s assume inv: "db_inv s"
  have "uniq change_clash (update_where (change_hit u)
      (\<lambda>r. r\<lparr>pc_state := pu_state u, pc_stripeInvoiceId := set_if (pu_stripeInvoiceId u) (pc_stripeInvoiceId r),
             pc_effectiveAt := set_if (pu_effectiveAt u) (pc_effectiveAt r),
             pc_hostedInvoiceUrl := set_if (pu_hostedInvoiceUrl u) (pc_hostedInvoiceUrl r),
             pc_expiresAt := set_if (pu_expiresAt u) (pc_expiresAt r)\<rparr>) (db_planChanges s))"
    by (rule uniq_update_where) (use inv in \<open>auto simp: db_inv_def change_clash_def change_hit_def split: if_splits\<close>)
  then show "db_inv (snd (Inr (), s\<lparr>db_planChanges := update_where (change_hit u)
      (\<lambda>r. r\<lparr>pc_state := pu_state u, pc_stripeInvoiceId := set_if (pu_stripeInvoiceId u) (pc_stripeInvoiceId r),
             pc_effectiveAt := set_if (pu_effectiveAt u) (pc_effectiveAt r),
             pc_hostedInvoiceUrl := set_if (pu_hostedInvoiceUrl u) (pc_hostedInvoiceUrl r),
             pc_expiresAt := set_if (pu_expiresAt u) (pc_expiresAt r)\<rparr>) (db_planChanges s)\<rparr>))"
    using inv by (simp add: db_inv_def)
qed

lemma recordPaymentIssue_inv [billing_intros]: "preserves db_inv (recordPaymentIssue i)"
  unfolding recordPaymentIssue_def
proof (rule preserves_send_dates, rule preservesI)
  fix s assume d: "None \<notin> set [pi_stripeEventCreated i]" and inv: "db_inv s"
  let ?rows = "if \<exists>r \<in> set (db_paymentIssues s). pi_stripeInvoiceId r = pi_stripeInvoiceId i
      then update_where (\<lambda>r. pi_stripeInvoiceId r = pi_stripeInvoiceId i \<and> issue_applies i r) (issue_update i) (db_paymentIssues s)
      else db_paymentIssues s @ [issue_row i]"
  have "uniq (\<lambda>a b. pi_stripeInvoiceId a = pi_stripeInvoiceId b)
      (update_where (\<lambda>r. pi_stripeInvoiceId r = pi_stripeInvoiceId i \<and> issue_applies i r) (issue_update i) (db_paymentIssues s))"
    by (rule issue_ids.uniq_map_update) (use inv in \<open>auto simp: db_inv_def issue_update_def\<close>)
  then have "uniq (\<lambda>a b. pi_stripeInvoiceId a = pi_stripeInvoiceId b) ?rows"
    using inv by (simp add: db_inv_def uniq_append issue_row_def)
  moreover have "\<forall>r \<in> set ?rows. issue_ok r"
    using inv d by (auto simp: db_inv_def issue_ok_def issue_row_def issue_update_def update_where_def)
  ultimately show "db_inv (snd (Inr (), s\<lparr>db_paymentIssues := ?rows\<rparr>))"
    using inv by (simp add: db_inv_def)
qed

lemma resolvePaymentIssue_inv [billing_intros]: "preserves db_inv (resolvePaymentIssue sid at)"
  unfolding resolvePaymentIssue_def
proof (rule preserves_send_dates, rule preservesI)
  fix s assume d: "None \<notin> set [at]" and inv: "db_inv s"
  let ?rows = "update_where (\<lambda>r. pi_stripeInvoiceId r = sid \<and> ts_le (pi_stripeEventCreated r) at)
        (\<lambda>r. r\<lparr>pi_resolvedAt := Some at, pi_stripeEventCreated := at\<rparr>) (db_paymentIssues s)"
  have "uniq (\<lambda>a b. pi_stripeInvoiceId a = pi_stripeInvoiceId b) ?rows"
    by (rule issue_ids.uniq_map_update) (use inv in \<open>auto simp: db_inv_def\<close>)
  moreover have "\<forall>r \<in> set ?rows. issue_ok r"
    by (rule ball_update_where) (use inv d in \<open>auto simp: db_inv_def issue_ok_def\<close>)
  ultimately show "db_inv (snd (Inr (), s\<lparr>db_paymentIssues := ?rows\<rparr>))" using inv by (simp add: db_inv_def)
qed

lemma setSizePreference_inv [billing_intros]: "preserves db_inv (setSizePreference u sz)"
  by (rule preservesI) (simp add: setSizePreference_def db_inv_def)

lemma linkCustomer_inv [billing_intros]: "preserves db_inv (linkCustomer u c)"
proof (rule preservesI)
  fix s assume inv: "db_inv s"
  have "uniq customer_clash (snd (insert_ignore customer_clash (u, c) (db_customers s)))"
    using inv by (auto simp: db_inv_def intro: uniq_insert_ignore)
  then show "db_inv (snd (linkCustomer u c s))"
    using inv by (auto simp: linkCustomer_def db_inv_def split: prod.split bool.split)
qed

lemma recordEvent_inv [billing_intros]: "preserves db_inv (recordEvent e)"
proof (rule preservesI)
  fix s assume inv: "db_inv s"
  have "uniq event_clash (snd (insert_ignore event_clash (event_row_of e) (db_events s)))"
    using inv by (auto simp: db_inv_def intro: uniq_insert_ignore)
  then show "db_inv (snd (recordEvent e s))"
    using inv by (auto simp: recordEvent_def db_inv_def split: prod.split bool.split option.split)
qed

lemma markEventProcessed_inv [billing_intros]: "preserves db_inv (markEventProcessed e out)"
  by (rule preservesI)
    (auto simp: markEventProcessed_def db_inv_def event_clash_def intro!: events.uniq_map_update)

lemma upsertSubscription_inv [billing_intros]: "preserves db_inv (upsertSubscription row)"
  unfolding upsertSubscription_def
proof (rule preserves_send_dates, rule preservesI)
  fix s assume d: "None \<notin> set (su_stripeEventCreated row # opt_list (sub_periodStart row) @ opt_list (sub_periodEnd row))"
    and inv: "db_inv s"
  have ok: "sub_ok row" using d by (auto simp: sub_ok_def opt_list_def split: option.splits)
  have new: "uniq (\<lambda>a b. sub_id a = sub_id b) (db_subscriptions s @ [row])"
    if "find (\<lambda>r. sub_id r = sub_id row) (db_subscriptions s) = None"
    using inv that by (auto simp: db_inv_def uniq_append find_None_iff)
  have upd: "uniq (\<lambda>a b. sub_id a = sub_id b) (update_where (\<lambda>r. sub_id r = sub_id row) (sub_update row) (db_subscriptions s))"
    by (rule sub_ids.uniq_map_update) (use inv in \<open>auto simp: db_inv_def sub_update_def\<close>)
  show "db_inv (snd (case find (\<lambda>r. sub_id r = sub_id row) (db_subscriptions s) of
         None \<Rightarrow> (Inr Up_applied, s\<lparr>db_subscriptions := db_subscriptions s @ [row]\<rparr>)
       | Some r \<Rightarrow>
           if sub_applies row r
           then (Inr Up_applied, s\<lparr>db_subscriptions :=
                   update_where (\<lambda>r. sub_id r = sub_id row) (sub_update row) (db_subscriptions s)\<rparr>)
           else (Inr (if su_userId r \<noteq> su_userId row then Up_conflict else Up_stale), s)))"
    using inv ok new upd
    by (auto simp: db_inv_def sub_ok_def sub_update_def update_where_def split: option.split)
qed

lemma insertGrant_inv [billing_intros]: "preserves db_inv (insertGrant g)"
  unfolding insertGrant_def
proof (rule preserves_send_dates, rule preserves_bind [OF fresh_id_inv], rule preservesI)
  fix rid s assume inv: "db_inv s"
  have "uniq grant_clash (snd (insert_ignore grant_clash (mk_grant rid g) (db_grants s)))"
    using inv by (auto simp: db_inv_def intro: uniq_insert_ignore)
  then show "db_inv (snd (case insert_ignore grant_clash (mk_grant rid g) (db_grants s) of
      (ok, rows) \<Rightarrow> (Inr ok, s\<lparr>db_grants := rows\<rparr>)))"
    using inv by (auto simp: db_inv_def split: prod.split)
qed

lemma enqueueOutbox_inv [billing_intros]: "preserves db_inv (enqueueOutbox item)"
  unfolding enqueueOutbox_def
proof (rule preserves_bind [OF fresh_id_inv], rule preservesI)
  fix rid s assume inv: "db_inv s"
  have "uniq outbox_clash (snd (insert_ignore outbox_clash (mk_outbox rid (db_now s) item) (db_outbox s)))"
    using inv by (auto simp: db_inv_def intro: uniq_insert_ignore)
  then show "db_inv (snd (case insert_ignore outbox_clash (mk_outbox rid (db_now s) item) (db_outbox s) of
      (ok, rows) \<Rightarrow> (Inr ok, s\<lparr>db_outbox := rows\<rparr>)))"
    using inv by (auto simp: db_inv_def split: prod.split)
qed

lemma interval_update_inv:
  assumes "db_inv s" and "\<And>r. ui_computerId (f r) = ui_computerId r" and "\<And>r. ui_endedAt (f r) = None \<Longrightarrow> ui_endedAt r = None"
    and "\<And>r. interval_ok r \<Longrightarrow> P r \<Longrightarrow> interval_ok (f r)"
  shows "db_inv (s\<lparr>db_intervals := update_where P f (db_intervals s)\<rparr>)"
proof -
  have "uniq interval_clash (update_where P f (db_intervals s))"
    by (rule intervals.uniq_map_update) (use assms in \<open>auto simp: db_inv_def interval_clash_def\<close>)
  moreover have "\<forall>r \<in> set (update_where P f (db_intervals s)). interval_ok r"
    by (rule ball_update_where) (use assms in \<open>auto simp: db_inv_def\<close>)
  ultimately show ?thesis using assms(1) by (simp add: db_inv_def)
qed

lemma openInterval_inv [billing_intros]: "preserves db_inv (openInterval u c at src)"
  unfolding openInterval_def
proof (rule preserves_bind [OF preserves_lift], rule preservesI)
  fix t s assume inv: "db_inv s"
  let ?row = "\<lparr>ui_userId = u, ui_computerId = c, ui_startedAt = t, ui_lastSeenAt = t, ui_endedAt = None,
         ui_closeReason = None, ui_source = src\<rparr>"
  let ?rows = "snd (insert_ignore interval_clash ?row (db_intervals s))"
  have "uniq interval_clash ?rows" using inv by (auto simp: db_inv_def intro: uniq_insert_ignore)
  moreover have "\<forall>r \<in> set ?rows. interval_ok r"
    using inv by (auto simp: db_inv_def interval_ok_def dest!: mem_insert_ignore)
  ultimately show "db_inv (snd (Inr (), s\<lparr>db_intervals := ?rows\<rparr>))" using inv by (simp add: db_inv_def)
qed

lemma touchInterval_inv [billing_intros]: "preserves db_inv (touchInterval c at)"
  unfolding touchInterval_def
  by (rule preserves_bind [OF preserves_lift], rule preservesI)
    (auto simp: interval_ok_def intro!: interval_update_inv)

lemma closeInterval_inv [billing_intros]: "preserves db_inv (closeInterval c at reason)"
  unfolding closeInterval_def
  by (rule preserves_bind [OF preserves_lift], rule preservesI)
    (auto simp: interval_ok_def intro!: interval_update_inv)

lemma closeStaleIntervals_inv [billing_intros]: "preserves db_inv (closeStaleIntervals at reason)"
  unfolding closeStaleIntervals_def Let_def
  by (rule preserves_bind [OF preserves_lift], rule preservesI)
    (auto simp: interval_ok_def intro!: interval_update_inv)

lemma insertStorageSample_inv [billing_intros]: "preserves db_inv (insertStorageSample u x src)"
  unfolding insertStorageSample_def
  by (rule preserves_send_dates, rule preservesI) (simp add: db_inv_def)

end
