(* ===== verification/Store_Props.thy ===== *)
theory Store_Props
  imports Store_Inv
begin

text \<open>
  The store as a state machine: one step is one write of the port's interface, and the properties hold in
  every state reachable by such steps, also when other deliveries write between the statements of an
  operation. The rest are the guarantees single operations give to their callers.
\<close>

datatype store_write =
    W_openEpoch open_epoch_input | W_touchEpoch string jsdate | W_closeEpoch close_epoch_input
  | W_recordConsent overage_consent | W_upsertOverageInvoice overage_invoice
  | W_attachOverageStripeInvoice string string | W_markOverageInvoiceOpen string
  | W_setOverageInvoiceStatus string OverageInvoiceStatus | W_recordPlanChange plan_change
  | W_setPlanChangeState plan_change_update | W_recordPaymentIssue payment_issue
  | W_resolvePaymentIssue string jsdate | W_setSizePreference string SizeCode
  | W_linkCustomer string string | W_recordEvent event_insert | W_markEventProcessed string string
  | W_upsertSubscription subscription_upsert | W_insertGrant grant_insert | W_enqueueOutbox outbox_insert
  | W_openInterval string string jsdate string | W_touchInterval string jsdate
  | W_closeInterval string jsdate string | W_insertStorageSample string storage_sample string
  | W_closeStaleIntervals jsdate string

definition ignore_result :: "('s, 'a) prog \<Rightarrow> ('s, unit) prog" where
  "ignore_result m = sbind m (\<lambda>_. sreturn ())"

fun do_write :: "store_write \<Rightarrow> (db, unit) prog" where
  "do_write (W_openEpoch i) = ignore_result (openEpoch i)"
| "do_write (W_touchEpoch c t) = ignore_result (touchEpoch c t)"
| "do_write (W_closeEpoch i) = ignore_result (closeEpoch i)"
| "do_write (W_recordConsent i) = ignore_result (recordConsent i)"
| "do_write (W_upsertOverageInvoice i) = ignore_result (upsertOverageInvoice i)"
| "do_write (W_attachOverageStripeInvoice r i) = attachOverageStripeInvoice r i"
| "do_write (W_markOverageInvoiceOpen i) = markOverageInvoiceOpen i"
| "do_write (W_setOverageInvoiceStatus i st) = ignore_result (setOverageInvoiceStatus i st)"
| "do_write (W_recordPlanChange c) = ignore_result (recordPlanChange c)"
| "do_write (W_setPlanChangeState u) = setPlanChangeState u"
| "do_write (W_recordPaymentIssue i) = recordPaymentIssue i"
| "do_write (W_resolvePaymentIssue i t) = resolvePaymentIssue i t"
| "do_write (W_setSizePreference u sz) = setSizePreference u sz"
| "do_write (W_linkCustomer u c) = ignore_result (linkCustomer u c)"
| "do_write (W_recordEvent e) = ignore_result (recordEvent e)"
| "do_write (W_markEventProcessed e out) = markEventProcessed e out"
| "do_write (W_upsertSubscription row) = ignore_result (upsertSubscription row)"
| "do_write (W_insertGrant g) = ignore_result (insertGrant g)"
| "do_write (W_enqueueOutbox item) = ignore_result (enqueueOutbox item)"
| "do_write (W_openInterval u c t src) = openInterval u c t src"
| "do_write (W_touchInterval c t) = touchInterval c t"
| "do_write (W_closeInterval c t reason) = closeInterval c t reason"
| "do_write (W_insertStorageSample u x src) = insertStorageSample u x src"
| "do_write (W_closeStaleIntervals t reason) = ignore_result (closeStaleIntervals t reason)"

inductive store_step :: "db \<Rightarrow> db \<Rightarrow> bool" where
  by_write: "store_step s (snd (do_write w s))"
| by_clock: "store_step s (s\<lparr>db_now := t\<rparr>)"

inductive store_reach :: "db \<Rightarrow> db \<Rightarrow> bool" for s0 where
  start: "store_reach s0 s0"
| step: "store_reach s0 s \<Longrightarrow> store_step s t \<Longrightarrow> store_reach s0 t"

inductive_cases store_stepE: "store_step s t"

lemma ignore_result_inv [billing_intros]: "preserves I m \<Longrightarrow> preserves I (ignore_result m)"
  unfolding ignore_result_def by (intro billing_intros)

lemma do_write_inv: "preserves db_inv (do_write w)"
  by (cases w) (simp_all add: billing_intros)

lemma store_step_inv: "store_step s t \<Longrightarrow> db_inv s \<Longrightarrow> db_inv t"
proof (erule store_stepE)
  fix w assume "db_inv s" "t = snd (do_write w s)"
  then show "db_inv t" using do_write_inv [of w] by (simp add: preserves_def)
next
  fix n assume "db_inv s" "t = s\<lparr>db_now := n\<rparr>"
  then show "db_inv t" by (simp add: db_inv_def)
qed

lemma store_reach_inv: "store_reach s0 s \<Longrightarrow> db_inv s0 \<Longrightarrow> db_inv s"
  by (induction rule: store_reach.induct) (auto intro: store_step_inv)

text \<open>A database with no billing rows.\<close>

definition empty_db :: "(string \<times> string) list \<Rightarrow> int \<Rightarrow> db" where
  "empty_db cs now = \<lparr>db_customers = [], db_subscriptions = [], db_events = [], db_grants = [], db_intervals = [],
     db_samples = [], db_outbox = [], db_epochs = [], db_consents = [], db_overageInvoices = [], db_planChanges = [],
     db_paymentIssues = [], db_sizes = [], db_computers = cs, db_placements = [], db_users = [], db_now = now,
     db_seq = 1, db_next = 0, db_uuid = (\<lambda>n. replicate n CHR ''x'')\<rparr>"

lemma empty_db_inv: "db_inv (empty_db cs now)"
proof -
  have "inj (\<lambda>n. replicate n CHR ''x'')" by (metis injI length_replicate)
  then show ?thesis by (simp add: db_inv_def empty_db_def)
qed

subsection \<open>Opening an epoch\<close>

lemma computeEpoch_sel:
  "computeEpoch r = Inr e \<Longrightarrow> ce_id e = er_id r \<and> ce_userId e = er_userId r \<and> ce_computerId e = er_computerId r \<and>
     ce_size e = er_size r \<and> ce_weight e = er_weight r \<and> ce_readyAt e \<noteq> None \<and> ce_endedAt e \<noteq> Some None \<and>
     (ce_endedAt e = None \<longleftrightarrow> er_endedAt r = None)"
  by (auto simp: computeEpoch_def iso_ms_def iso_ms_opt_def isoSeconds_Inr split: option.splits)

lemma epoch_result_Inr:
  "epoch_result st r s = (Inr x, s') \<Longrightarrow> \<exists>e. x = Some (st, e) \<and> computeEpoch r = Inr e \<and> s' = s"
  by (cases "computeEpoch r") (auto simp: epoch_result_def)

text \<open>What an attempt that answers has established in the state it leaves.\<close>

definition open_answer :: "open_epoch_input \<Rightarrow> open_epoch_status \<Rightarrow> stored_compute_epoch \<Rightarrow> db \<Rightarrow> bool" where
  "open_answer i st e s \<longleftrightarrow> ce_userId e = oe_userId i \<and>
     (ce_computerId e = oe_computerId i \<longleftrightarrow> st \<noteq> Ep_concurrent) \<and>
     (\<exists>r \<in> set (db_epochs s). computeEpoch r = Inr e \<and> (st = Ep_opened \<or> st = Ep_concurrent \<longrightarrow> er_endedAt r = None))"

lemma insert_epoch_Inr:
  "insert_epoch mk s = (Inr x, s') \<Longrightarrow>
     (x = None \<and> db_epochs s' = db_epochs s) \<or>
     (\<exists>rid. x = Some (mk rid) \<and> db_epochs s' = db_epochs s @ [mk rid])"
  by (auto simp: insert_epoch_def sbind_def fresh_id_def insert_ignore_def split: if_splits)

lemma find_mem: "find P xs = Some x \<Longrightarrow> x \<in> set xs \<and> P x"
  by (rule find_Some_iff_first)

lemma open_answerI:
  assumes "epoch_result st' r s = (Inr (Some (st, e)), s')" and "r \<in> set (db_epochs s)" and "er_userId r = oe_userId i"
    and "er_computerId r = oe_computerId i \<longleftrightarrow> st' \<noteq> Ep_concurrent"
    and "st' = Ep_opened \<or> st' = Ep_concurrent \<Longrightarrow> er_endedAt r = None"
  shows "open_answer i st e s'"
proof -
  have r: "st' = st" "computeEpoch r = Inr e" "s' = s" using epoch_result_Inr [OF assms(1)] by auto
  then show ?thesis using assms computeEpoch_sel [OF r(2)] by (auto simp: open_answer_def)
qed

lemma owned_epoch_answer:
  "owned_epoch i r s = (Inr (Some (st, e)), s') \<Longrightarrow> r \<in> set (db_epochs s) \<Longrightarrow> er_computerId r = oe_computerId i \<Longrightarrow>
   open_answer i st e s'"
  by (auto simp: owned_epoch_def split: if_splits elim!: open_answerI)

lemma find_concurrent_answer:
  assumes "find_concurrent env k i s = (Inr (Some (st, e)), s')"
  shows "open_answer i st e s'"
proof -
  obtain r where r: "find (\<lambda>r. er_userId r = oe_userId i \<and> er_endedAt r = None) (db_epochs (env k s)) = Some r"
    "er_computerId r \<noteq> oe_computerId i" "epoch_result Ep_concurrent r (env k s) = (Inr (Some (st, e)), s')"
    using assms by (auto simp: find_concurrent_def stmt_def sbind_def split: option.splits if_splits)
  from find_mem [OF r(1)] r(2) show ?thesis by (intro open_answerI [OF r(3)]) auto
qed

lemma find_existing_answer:
  assumes "find_existing env k i s = (Inr (Some (st, e)), s')"
  shows "open_answer i st e s'"
proof (cases "find (\<lambda>r. er_computerId r = oe_computerId i \<and> er_endedAt r = None) (db_epochs (env k s))")
  case None
  then show ?thesis using assms find_concurrent_answer by (auto simp: find_existing_def stmt_def sbind_def)
next
  case (Some r)
  then show ?thesis
    using assms find_mem [OF Some] owned_epoch_answer by (auto simp: find_existing_def stmt_def sbind_def)
qed

lemma try_insert_answer:
  assumes "try_insert env k i r d s = (Inr (Some (st, e)), s')"
  shows "open_answer i st e s'"
proof -
  obtain x s1 where x: "insert_epoch (epoch_of_input i r d) (env k s) = (Inr x, s1)"
    "(case x of Some r \<Rightarrow> epoch_result Ep_opened r | None \<Rightarrow> find_existing env (k + 1) i) s1 = (Inr (Some (st, e)), s')"
    using assms by (auto simp: try_insert_def stmt_def dest!: sbind_eq_InrD)
  show ?thesis
  proof (cases x)
    case None
    then show ?thesis using x(2) find_existing_answer by auto
  next
    case (Some row)
    then obtain rid where "row = epoch_of_input i r d rid" "row \<in> set (db_epochs s1)"
      using insert_epoch_Inr [OF x(1)] by auto
    moreover have "epoch_result Ep_opened row s1 = (Inr (Some (st, e)), s')" using x(2) Some by simp
    ultimately show ?thesis by (intro open_answerI) (auto simp: epoch_of_input_def)
  qed
qed

lemma open_attempt_answer:
  assumes "open_attempt env k i r d s = (Inr (Some (st, e)), s')"
  shows "open_answer i st e s'"
proof (cases "find (\<lambda>x. er_computerId x = oe_computerId i \<and> er_readyAt x = r) (db_epochs (env k s))")
  case None
  then show ?thesis using assms try_insert_answer by (auto simp: open_attempt_def stmt_def sbind_def)
next
  case (Some x)
  then show ?thesis
    using assms find_mem [OF Some] owned_epoch_answer by (auto simp: open_attempt_def stmt_def sbind_def)
qed

lemma open_attempts_answer: "open_attempts n env k i r d s = (Inr (st, e), s') \<Longrightarrow> open_answer i st e s'"
proof (induction n arbitrary: k s)
  case (Suc n)
  then obtain x s1 where x: "open_attempt env k i r d s = (Inr x, s1)"
    "(case x of Some y \<Rightarrow> sreturn y | None \<Rightarrow> open_attempts n env (k + 4) i r d) s1 = (Inr (st, e), s')"
    by (auto dest!: sbind_eq_InrD)
  then show ?case using Suc.IH open_attempt_answer by (cases x) auto
qed simp

lemma openEpoch_in_answer: "openEpoch_in env i s = (Inr (st, e), s') \<Longrightarrow> open_answer i st e s'"
  by (auto simp: openEpoch_in_def split: if_splits dest!: sbind_eq_InrD intro: open_attempts_answer)

subsection \<open>Lemmas on single operations\<close>

lemma open_attempt_alone:
  assumes "open_attempt (\<lambda>_ s. s) k i r d s = (Inr None, s')"
  shows False
proof -
  have "db_epochs s' = db_epochs s" if "insert_epoch (epoch_of_input i r d) s = (Inr None, s')" for s s' :: db
    using insert_epoch_Inr [OF that] by auto
  obtain s1 where ins: "insert_epoch (epoch_of_input i r d) s = (Inr None, s1)" and
    none: "find (\<lambda>x. er_computerId x = oe_computerId i \<and> er_endedAt x = None) (db_epochs s1) = None"
    "(case find (\<lambda>x. er_userId x = oe_userId i \<and> er_endedAt x = None) (db_epochs s1) of
        Some x \<Rightarrow> er_computerId x = oe_computerId i | None \<Rightarrow> True)"
    using assms
    by (auto simp: open_attempt_def try_insert_def find_existing_def find_concurrent_def owned_epoch_def stmt_def
        split: option.splits if_splits dest!: sbind_eq_InrD epoch_result_Inr)
  obtain rid x where x: "x \<in> set (db_epochs s)" "epoch_clash x (epoch_of_input i r d rid)"
    and same: "db_epochs s1 = db_epochs s"
    using ins by (auto simp: insert_epoch_def sbind_def fresh_id_def insert_ignore_def split: if_splits)
  then have o: "er_endedAt x = None" "er_computerId x = oe_computerId i \<or> er_userId x = oe_userId i"
    by (auto simp: epoch_clash_def epoch_of_input_def)
  have nc: "er_computerId y \<noteq> oe_computerId i \<or> er_endedAt y \<noteq> None" if "y \<in> set (db_epochs s1)" for y
    using none(1) that by (auto simp: find_None_iff)
  have "er_userId x = oe_userId i" using nc [of x] o x(1) same by metis
  then obtain y where y: "find (\<lambda>x. er_userId x = oe_userId i \<and> er_endedAt x = None) (db_epochs s1) = Some y"
    using o(1) x(1) same by (cases "find (\<lambda>x. er_userId x = oe_userId i \<and> er_endedAt x = None) (db_epochs s1)")
      (auto simp: find_None_iff)
  then show False using none(2) nc [of y] find_mem [OF y] by auto
qed

lemma open_attempts_alone:
  assumes "open_attempts (Suc n) (\<lambda>_ s. s) k i r d s = (res, s')"
  shows "(\<exists>x. open_attempt (\<lambda>_ s. s) k i r d s = (Inr (Some x), s') \<and> res = Inr x) \<or>
    (\<exists>e. open_attempt (\<lambda>_ s. s) k i r d s = (Inl e, s') \<and> res = Inl e)"
proof (cases "open_attempt (\<lambda>_ s. s) k i r d s")
  case (Pair q t)
  show ?thesis
  proof (cases q)
    case (Inl e)
    then show ?thesis using assms Pair by simp
  next
    case (Inr x)
    then show ?thesis using assms Pair open_attempt_alone by (cases x) auto
  qed
qed

text \<open>The exceptions a procedure may throw.\<close>

definition throws_only :: "jserror set \<Rightarrow> ('s, 'a) prog \<Rightarrow> bool" where
  "throws_only E m \<longleftrightarrow> (\<forall>s e s'. m s = (Inl e, s') \<longrightarrow> e \<in> E)"

lemma throws_only_rules:
  "throws_only E (sreturn x)" "throws_only E (sget g)" "e \<in> E \<Longrightarrow> throws_only E (sthrow e)"
  "(\<And>e. r = Inl e \<Longrightarrow> e \<in> E) \<Longrightarrow> throws_only E (slift r)"
  "throws_only E a \<Longrightarrow> throws_only E b \<Longrightarrow> throws_only E (if c then a else b)"
  "throws_only E a \<Longrightarrow> (\<And>x. throws_only E (f x)) \<Longrightarrow> throws_only E (case opt of None \<Rightarrow> a | Some x \<Rightarrow> f x)"
  "throws_only E m \<Longrightarrow> throws_only E (stmt env k m)"
  by (auto simp: throws_only_def stmt_def split: option.splits)

lemma throws_only_bind: "throws_only E m \<Longrightarrow> (\<And>x. throws_only E (f x)) \<Longrightarrow> throws_only E (sbind m f)"
  by (auto simp: throws_only_def sbind_def split: prod.splits sum.splits)

definition open_errors :: "jserror set" where
  "open_errors = {RangeError, check_violation, PlainError ''Epoch ownership conflict''}"

lemma computeEpoch_throws: "computeEpoch x = Inl e \<Longrightarrow> e = RangeError"
  by (auto simp: computeEpoch_def iso_ms_def iso_ms_opt_def isoSeconds_def rbind_eq_Inl split: option.splits if_splits)

lemma epoch_result_throws: "throws_only open_errors (epoch_result st r)"
  unfolding epoch_result_def
  by (rule throws_only_rules) (auto simp: rbind_eq_Inl open_errors_def dest: computeEpoch_throws)

lemma insert_epoch_throws: "throws_only open_errors (insert_epoch mk)"
  by (auto simp: throws_only_def insert_epoch_def sbind_def fresh_id_def open_errors_def split: if_splits prod.splits)

lemma owned_epoch_throws: "throws_only open_errors (owned_epoch i r)"
  unfolding owned_epoch_def
  by (rule throws_only_rules(5)) (rule throws_only_rules(3), simp add: open_errors_def, rule epoch_result_throws)

lemma open_attempt_throws: "throws_only open_errors (open_attempt env k i r d)"
proof -
  have get: "throws_only open_errors (stmt env n (sget g))" for n and g :: "db \<Rightarrow> 'x"
    by (intro throws_only_rules)
  have concurrent: "throws_only open_errors (find_concurrent env n i)" for n
    unfolding find_concurrent_def
    by (rule throws_only_bind [OF get]) (simp add: epoch_result_throws throws_only_rules(1) split: option.split)
  have existing: "throws_only open_errors (find_existing env n i)" for n
    unfolding find_existing_def
    by (rule throws_only_bind [OF get]) (simp add: owned_epoch_throws concurrent split: option.split)
  have ins: "throws_only open_errors (try_insert env n i r d)" for n
    unfolding try_insert_def
    by (rule throws_only_bind [OF throws_only_rules(7) [OF insert_epoch_throws]])
      (simp add: epoch_result_throws existing split: option.split)
  show ?thesis
    unfolding open_attempt_def
    by (rule throws_only_bind [OF get]) (simp add: owned_epoch_throws ins split: option.split)
qed

text \<open>Epochs read from the store rate without an exception.\<close>

lemma computeEpoch_ratable: "computeEpoch r = Inr e \<Longrightarrow> epoch_ok r \<Longrightarrow> ratable e"
  using computeEpoch_sel [of r e] by (auto simp: ratable_def epoch_ok_def)

lemma epochsFor_ratable:
  assumes "db_inv s" and "epochsFor u since s = (Inr es, s')"
  shows "\<forall>e \<in> set es. ratable e \<and> ce_userId e = u"
proof
  fix e assume e: "e \<in> set es"
  obtain t where t: "res_map computeEpoch (sort_key er_readyAt (sort_key er_id
       (filter (\<lambda>r. er_userId r = u \<and> (case er_endedAt r of None \<Rightarrow> True | Some x \<Rightarrow> x > t)) (db_epochs s)))) = Inr es"
    using assms(2) by (auto simp: epochsFor_def compute_epochs_def dest!: sbind_eq_InrD)
  then obtain r where "r \<in> set (db_epochs s)" "er_userId r = u" "computeEpoch r = Inr e"
    using res_map_mem [OF t e] by auto
  moreover have "epoch_ok r" using assms(1) calculation by (auto simp: db_inv_def)
  ultimately show "ratable e \<and> ce_userId e = u" using computeEpoch_ratable computeEpoch_sel by metis
qed

lemma rateWindow_total:
  assumes "\<forall>e \<in> set es. ratable e" and "cap \<noteq> Some None"
  shows "\<exists>u. rateWindow es \<lparr>w_start = Some a, w_end = Some b\<rparr> (Some now) cap al = Inr u"
  using assms rate_loop_total [of "sort_key ready_key es"] by (auto simp: rateWindow_def Let_def split: option.splits)

text \<open>Replayed grants.\<close>

definition grant_dates_ok :: "grant_insert \<Rightarrow> bool" where
  "grant_dates_ok g \<longleftrightarrow> g_periodStart g \<noteq> Some None \<and> g_periodEnd g \<noteq> Some None"

lemma insertGrant_eq:
  "grant_dates_ok g \<Longrightarrow> insertGrant g s = (let r = insert_ignore grant_clash (mk_grant (db_uuid s (db_next s)) g) (db_grants s) in
     (Inr (fst r), s\<lparr>db_next := Suc (db_next s), db_grants := snd r\<rparr>))"
  by (auto simp: insertGrant_def send_dates_def opt_list_def grant_dates_ok_def sbind_def fresh_id_def Let_def
      split: option.splits prod.splits)

lemma insert_grants:
  assumes "\<forall>g \<in> set gs. grant_dates_ok g"
  shows "\<exists>ids s'. length ids = length gs \<and> sfor gs (\<lambda>g. ignore_result (insertGrant g)) s = (Inr (), s') \<and>
    db_grants s' = grants.insert_all (zip ids gs) (db_grants s)"
  using assms
proof (induction gs arbitrary: s)
  case Nil
  then show ?case by simp
next
  case (Cons g gs)
  let ?r = "insert_ignore grant_clash (mk_grant (db_uuid s (db_next s)) g) (db_grants s)"
  let ?s = "s\<lparr>db_next := Suc (db_next s), db_grants := snd ?r\<rparr>"
  obtain ids s' where s': "length ids = length gs" "sfor gs (\<lambda>g. ignore_result (insertGrant g)) ?s = (Inr (), s')"
    "db_grants s' = grants.insert_all (zip ids gs) (db_grants ?s)"
    using Cons.IH [of ?s] Cons.prems by auto
  have "ignore_result (insertGrant g) s = (Inr (), ?s)"
    using Cons.prems by (simp add: ignore_result_def sbind_def insertGrant_eq Let_def)
  with s' show ?case by (intro exI [of _ "db_uuid s (db_next s) # ids"] exI [of _ s']) auto
qed

lemma insert_all_append: "\<exists>new. grants.insert_all xs rows = rows @ new"
proof (induction xs arbitrary: rows)
  case (Cons x xs)
  then show ?case using grants.rows_kept by (auto simp: split_beta) (metis append.assoc)
qed simp

text \<open>One subscription row after a series of upserts.\<close>

definition created :: "subscription_upsert \<Rightarrow> int" where
  "created r = (case su_stripeEventCreated r of None \<Rightarrow> 0 | Some ms \<Rightarrow> ms)"

definition sub_row :: "string \<Rightarrow> db \<Rightarrow> subscription_upsert option" where
  "sub_row sid s = find (\<lambda>r. sub_id r = sid) (db_subscriptions s)"

lemma find_append_None: "find P xs = None \<Longrightarrow> find P (xs @ ys) = find P ys"
  by (induction xs) (auto split: if_splits)

lemma find_update_where:
  "find P xs = Some r \<Longrightarrow> (\<And>x. P x \<Longrightarrow> P (f x)) \<Longrightarrow> find P (update_where P f xs) = Some (f r)"
  by (induction xs) (auto simp: update_where_def split: if_splits)

lemma upsert_row:
  assumes "sub_ok q" and "sub_id q = sid"
    and "case sub_row sid s of None \<Rightarrow> True | Some r \<Rightarrow> su_userId r = su_userId q \<and> sub_ok r"
  shows "\<exists>s'. ignore_result (upsertSubscription q) s = (Inr (), s') \<and>
    sub_row sid s' = Some (case sub_row sid s of None \<Rightarrow> q | Some r \<Rightarrow> if created r \<le> created q then q else r)"
proof -
  have d: "None \<notin> set (su_stripeEventCreated q # opt_list (sub_periodStart q) @ opt_list (sub_periodEnd q))"
    using assms(1) by (auto simp: sub_ok_def opt_list_def split: option.splits)
  show ?thesis
  proof (cases "sub_row sid s")
    case None
    then have "find (\<lambda>r. sub_id r = sub_id q) (db_subscriptions s) = None" using assms(2) by (simp add: sub_row_def)
    moreover have "find (\<lambda>r. sub_id r = sid) (db_subscriptions s @ [q]) = Some q"
      using None assms(2) unfolding sub_row_def by (simp add: find_append_None)
    ultimately show ?thesis
      using None d assms(2) by (simp add: ignore_result_def sbind_def upsertSubscription_def send_dates_def sub_row_def)
  next
    case (Some r)
    then have f: "find (\<lambda>r. sub_id r = sub_id q) (db_subscriptions s) = Some r" using assms(2) by (simp add: sub_row_def)
    have r: "sub_id r = sub_id q" "su_userId r = su_userId q" "sub_ok r" using Some assms find_mem [OF f] by auto
    have ap: "sub_applies q r \<longleftrightarrow> created r \<le> created q"
      using r assms(1) by (auto simp: sub_applies_def ts_le_def created_def sub_ok_def)
    have upd: "sub_update q r = q" using r by (simp add: sub_update_def)
    have "find (\<lambda>r. sub_id r = sid) (update_where (\<lambda>r. sub_id r = sub_id q) (sub_update q) (db_subscriptions s)) = Some (sub_update q r)"
      using find_update_where [OF f, of "sub_update q"] assms(2) by (simp add: sub_update_def)
    then show ?thesis
      using Some d f ap upd
      by (simp add: ignore_result_def sbind_def upsertSubscription_def send_dates_def sub_row_def)
  qed
qed

lemma upserts_newest:
  assumes "\<forall>q \<in> set qs. sub_ok q \<and> sub_id q = sid \<and> su_userId q = u"
    and "case sub_row sid s of None \<Rightarrow> qs \<noteq> [] | Some r \<Rightarrow> su_userId r = u \<and> sub_ok r"
  shows "\<exists>s' r. sfor qs (\<lambda>q. ignore_result (upsertSubscription q)) s = (Inr (), s') \<and> sub_row sid s' = Some r \<and>
    (r \<in> set qs \<or> sub_row sid s = Some r) \<and> (\<forall>q \<in> set qs. created q \<le> created r) \<and>
    (\<forall>q. sub_row sid s = Some q \<longrightarrow> created q \<le> created r)"
  using assms
proof (induction qs arbitrary: s)
  case Nil
  then show ?case by (auto split: option.splits)
next
  case (Cons q qs)
  have pre: "case sub_row sid s of None \<Rightarrow> True | Some r \<Rightarrow> su_userId r = su_userId q \<and> sub_ok r"
    using Cons.prems by (auto split: option.splits)
  obtain s1 where s1: "ignore_result (upsertSubscription q) s = (Inr (), s1)"
    "sub_row sid s1 = Some (case sub_row sid s of None \<Rightarrow> q | Some r \<Rightarrow> if created r \<le> created q then q else r)"
    using upsert_row [OF _ _ pre] Cons.prems(1) by auto
  have "case sub_row sid s1 of None \<Rightarrow> qs \<noteq> [] | Some r \<Rightarrow> su_userId r = u \<and> sub_ok r"
    using s1(2) Cons.prems by (auto split: option.splits)
  then obtain s2 r where "sfor qs (\<lambda>q. ignore_result (upsertSubscription q)) s1 = (Inr (), s2)" "sub_row sid s2 = Some r"
    "r \<in> set qs \<or> sub_row sid s1 = Some r" "\<forall>q \<in> set qs. created q \<le> created r"
    "\<forall>q. sub_row sid s1 = Some q \<longrightarrow> created q \<le> created r"
    using Cons.IH [of s1] Cons.prems(1) by auto
  then show ?case using s1 by (intro exI [of _ s2] exI [of _ r]) (auto split: option.splits if_splits)
qed

subsection \<open>Properties\<close>

lemma epochSeconds_throws: "epochSeconds d r = Inl e \<Longrightarrow> e = RangeError"
  by (cases d; cases r) auto

text \<open>C17: in every reachable state of the store a computer and a user have at most one open compute epoch,
  and every epoch's weight is its size's, it ends (if it has) with a reason and not before it was ready, and
  its deadline and heartbeat are not before it either.\<close>

theorem one_open_epoch:
  assumes "db_inv s0" and "store_reach s0 s" and "a \<in> set (db_epochs s)" and "b \<in> set (db_epochs s)"
  shows "epoch_ok a \<and> (er_endedAt a = None \<and> er_endedAt b = None \<and>
     (er_userId a = er_userId b \<or> er_computerId a = er_computerId b) \<longrightarrow> a = b)"
proof -
  have inv: "db_inv s" by (rule store_reach_inv [OF assms(2,1)])
  then have "uniq epoch_clash (db_epochs s)" by (simp add: db_inv_def)
  from epochs.uniq_at_most_one [OF this assms(3,4)] inv assms(3) show ?thesis
    by (auto simp: db_inv_def epoch_clash_def)
qed

definition demo_open :: "string \<Rightarrow> open_epoch_input" where
  "demo_open c = \<lparr>oe_sessionMax = None, oe_userId = ''u'', oe_computerId = c, oe_subscriptionId = None, oe_size = Std_2,
     oe_readyAt = Some 1500, oe_deadlineAt = Some (Some 99999000), oe_overheadSeconds = 0\<rparr>"

definition demo_db :: db where
  "demo_db = empty_db [(''c'', ''u''), (''d'', ''u'')] 7000"

definition demo_row :: epoch_row where
  "demo_row = \<lparr>er_id = [], er_userId = ''u'', er_computerId = ''c'', er_subscriptionId = None, er_size = Std_2,
     er_weight = 1, er_readyAt = 2000, er_deadlineAt = Some 21602000, er_lastHeartbeatAt = None, er_endedAt = None,
     er_endReason = None, er_overheadSeconds = 0\<rparr>"

definition demo_epoch_result :: stored_compute_epoch where
  "demo_epoch_result = \<lparr>ce_id = [], ce_userId = ''u'', ce_computerId = ''c'', ce_size = Std_2, ce_weight = 1,
     ce_readyAt = Some 2000, ce_endedAt = None, ce_endReason = None, ce_overheadSeconds = 0,
     se_deadlineAt = Some (Some 21602000), se_lastHeartbeatAt = None\<rparr>"

definition demo_db1 :: db where
  "demo_db1 = demo_db\<lparr>db_next := 1, db_epochs := [demo_row]\<rparr>"

lemma demo_compute: "computeEpoch demo_row = Inr demo_epoch_result"
  by (simp add: computeEpoch_def demo_row_def demo_epoch_result_def iso_ms_def iso_ms_opt_def iso_range_def ceil_div_def)

lemma demo_open_eval: "openEpoch (demo_open ''c'') demo_db = (Inr (Ep_opened, demo_epoch_result), demo_db1)"
proof -
  have ready: "rbind (epochSeconds (oe_readyAt (demo_open ''c'')) RCeil) (\<lambda>s. to_ts (new_Date (s * 1000))) = Inr 2000"
    by (simp add: demo_open_def ceil_div_def to_ts_def new_Date_def max_time_ms_def)
  have dl: "epoch_deadline (demo_open ''c'') 2000 = Inr (Some 21602000)"
    by (simp add: epoch_deadline_def demo_open_def Let_def to_ts_def new_Date_def max_time_ms_def billing_consts)
  have row: "epoch_of_input (demo_open ''c'') 2000 (Some 21602000) [] = demo_row"
    by (simp add: epoch_of_input_def demo_open_def demo_row_def)
  have s: "db_epochs demo_db = []" "db_next demo_db = 0" "db_uuid demo_db 0 = []" "(''c'', ''u'') \<in> set (db_computers demo_db)"
    by (simp_all add: demo_db_def empty_db_def)
  have "insert_epoch (epoch_of_input (demo_open ''c'') 2000 (Some 21602000)) demo_db = (Inr (Some demo_row), demo_db1)"
    using row s by (simp add: insert_epoch_def sbind_def fresh_id_def insert_ignore_def demo_db1_def)
      (simp add: demo_row_def)
  then have "open_attempt (\<lambda>_ s. s) 0 (demo_open ''c'') 2000 (Some 21602000) demo_db
      = (Inr (Some (Ep_opened, demo_epoch_result)), demo_db1)"
    using s by (simp add: open_attempt_def try_insert_def stmt_def sbind_def epoch_result_def demo_compute)
  then show ?thesis
    using s ready dl unfolding openEpoch_def openEpoch_in_def
    by (simp add: sbind_def numeral_3_eq_3) (simp add: demo_open_def)
qed

lemma demo_db1_reach: "store_reach demo_db demo_db1"
proof -
  have "snd (do_write (W_openEpoch (demo_open ''c'')) demo_db) = demo_db1"
    by (simp add: ignore_result_def sbind_def demo_open_eval)
  then show ?thesis using store_step.by_write [of demo_db "W_openEpoch (demo_open ''c'')"]
    by (metis store_reach.start store_reach.step)
qed

lemma demo_db_inv: "db_inv demo_db"
  by (simp add: demo_db_def empty_db_inv)

lemma demo_db1_inv: "db_inv demo_db1"
  by (rule store_reach_inv [OF demo_db1_reach demo_db_inv])

theorem one_open_epoch_witness:
  "epoch_ok demo_row \<and> demo_row \<in> set (db_epochs demo_db1) \<and> store_reach demo_db demo_db1"
  using one_open_epoch [OF demo_db_inv demo_db1_reach, of demo_row demo_row] demo_db1_reach
  by (simp add: demo_db1_def)

text \<open>C18: opening an epoch is safe against concurrent deliveries: whatever other writes run between its
  statements, if it answers then the answer is an epoch of the caller's user, on the caller's computer unless
  the status says that the user already runs another one, and it is in the table; an epoch reported as opened
  or concurrent is open there; and the one-open-epoch rules still hold.\<close>

theorem open_epoch_interleaved:
  assumes "db_inv s" and "\<forall>n t. store_reach t (env n t)" and "openEpoch_in env i s = (Inr (st, e), s')"
  shows "db_inv s' \<and> ce_userId e = oe_userId i \<and> (ce_computerId e = oe_computerId i \<longleftrightarrow> st \<noteq> Ep_concurrent) \<and>
    (\<exists>r \<in> set (db_epochs s'). computeEpoch r = Inr e \<and> (st = Ep_opened \<or> st = Ep_concurrent \<longrightarrow> er_endedAt r = None))"
proof -
  have "preserves db_inv (openEpoch_in env i)"
    by (rule openEpoch_in_inv) (use assms(2) store_reach_inv in blast)
  then have "db_inv s'" using assms(1,3) by (rule preservesD)
  with openEpoch_in_answer [OF assms(3)] show ?thesis by (simp add: open_answer_def)
qed

theorem open_epoch_interleaved_witness:
  "openEpoch_in (\<lambda>_ s. s) (demo_open ''c'') demo_db = (Inr (Ep_opened, demo_epoch_result), demo_db1) \<and>
   ce_userId demo_epoch_result = ''u'' \<and> db_inv demo_db1"
proof -
  have o: "openEpoch_in (\<lambda>_ s. s) (demo_open ''c'') demo_db = (Inr (Ep_opened, demo_epoch_result), demo_db1)"
    using demo_open_eval by (simp add: openEpoch_def)
  have "\<forall>(n :: nat) t. store_reach t ((\<lambda>_ s. s) n t)" by (simp add: store_reach.start)
  from open_epoch_interleaved [OF demo_db_inv this o] o show ?thesis by (simp add: demo_open_def)
qed

text \<open>On its own, opening an epoch never runs out of attempts: the first attempt answers, or throws one
  of the documented errors (ownership, an unrepresentable instant, a violated check) and never the
  exhausted-attempts error.\<close>

lemma open_epoch_alone_answers:
  "case openEpoch i s of
     (Inr (st, e), s') \<Rightarrow> open_answer i st e s'
   | (Inl err, s') \<Rightarrow> err \<in> insert (PlainError ''Computer does not belong to billing user'') open_errors \<and>
       err \<noteq> PlainError ''Could not open compute epoch after 3 attempts''"
proof (cases "openEpoch i s")
  case (Pair r s')
  show ?thesis
  proof (cases r)
    case (Inr x)
    then show ?thesis using Pair openEpoch_in_answer by (cases x) (auto simp: openEpoch_def)
  next
    case (Inl err)
    have att: "e \<in> open_errors" if "open_attempts 3 (\<lambda>_ s. s) 0 i ready dl s = (Inl e, t)" for e t ready dl
      using open_attempts_alone [of 2, unfolded Suc_numeral, simplified, OF that] open_attempt_throws
      unfolding throws_only_def by fastforce
    have dl: "epoch_deadline i ready = Inl e \<Longrightarrow> e \<in> open_errors" for ready e
      by (auto simp: epoch_deadline_def rbind_eq_Inl to_ts_def open_errors_def Let_def
          dest!: epochSeconds_throws split: option.splits)
    have rd: "rbind (epochSeconds (oe_readyAt i) RCeil) (\<lambda>s. to_ts (new_Date (s * 1000))) = Inl e \<Longrightarrow> e \<in> open_errors" for e
      by (cases "oe_readyAt i") (auto simp: to_ts_def open_errors_def split: option.splits)
    have "err \<in> insert (PlainError ''Computer does not belong to billing user'') open_errors"
      using Pair Inl att dl rd
      by (auto simp: openEpoch_def openEpoch_in_def sbind_def split: if_splits sum.splits)
    then show ?thesis using Pair Inl by (auto simp: open_errors_def check_violation_def)
  qed
qed

text \<open>What the store returns can always be rated: the epochs read for a user belong to that user, their
  weights are their sizes' and their instants are valid, so rating them in a window returns a total and
  never throws.\<close>

lemma stored_epochs_rate:
  assumes "db_inv s0" and "store_reach s0 s" and "epochsFor u since s = (Inr es, s')"
  shows "(\<forall>e \<in> set es. ce_userId e = u) \<and>
    (\<exists>usage. rateWindow es \<lparr>w_start = Some a, w_end = Some b\<rparr> (Some now) None None = Inr usage \<and> 0 \<le> wu_stdSeconds usage)"
proof -
  have r: "\<forall>e \<in> set es. ratable e \<and> ce_userId e = u"
    by (rule epochsFor_ratable [OF store_reach_inv [OF assms(2,1)] assms(3)])
  then obtain usage where usage: "rateWindow es \<lparr>w_start = Some a, w_end = Some b\<rparr> (Some now) None None = Inr usage"
    using rateWindow_total [of es None a b now None] by blast
  have bd: "session_bound None = Some 21600" by (simp add: session_bound_def billing_consts)
  have "0 \<le> wu_stdSeconds usage"
    using rateWindow_sumD [OF usage bd] by (simp add: sum_list_map_nonneg)
  with r usage show ?thesis by blast
qed

lemma stored_epochs_rate_witness:
  "epochsFor ''u'' (Some 0) demo_db1 = (Inr [demo_epoch_result], demo_db1) \<and>
   (\<exists>usage. rateWindow [demo_epoch_result] \<lparr>w_start = Some 0, w_end = Some 90000000\<rparr> (Some 12000) None None = Inr usage)"
proof -
  have e: "epochsFor ''u'' (Some 0) demo_db1 = (Inr [demo_epoch_result], demo_db1)"
  proof -
    have "db_epochs demo_db1 = [demo_row]" by (simp add: demo_db1_def)
    moreover have "er_userId demo_row = ''u''" "er_endedAt demo_row = None" by (simp_all add: demo_row_def)
    ultimately show ?thesis
      by (simp add: epochsFor_def sbind_def to_ts_def compute_epochs_def demo_compute)
  qed
  show ?thesis using stored_epochs_rate [OF demo_db_inv demo_db1_reach e, of 0 90000000 12000] e by auto
qed

text \<open>The grant ledger is append-only and its inserts are idempotent: inserting a batch keeps every row
  that was there in its place, and inserting the same batch again, with fresh row identities, adds nothing.\<close>

lemma grant_inserts_idempotent:
  assumes "\<forall>g \<in> set gs. grant_dates_ok g"
    and "sfor gs (\<lambda>g. ignore_result (insertGrant g)) s = (Inr (), s1)"
    and "sfor gs (\<lambda>g. ignore_result (insertGrant g)) s1 = (Inr (), s2)"
  shows "(\<exists>new. db_grants s1 = db_grants s @ new) \<and> db_grants s2 = db_grants s1 \<and>
    (\<forall>g \<in> set gs. \<exists>r \<in> set (db_grants s1). grant_clash r g)"
proof -
  obtain ids where ids: "length ids = length gs" "db_grants s1 = grants.insert_all (zip ids gs) (db_grants s)"
    using insert_grants [OF assms(1), of s] assms(2) by auto
  obtain ids' where ids': "length ids' = length gs" "db_grants s2 = grants.insert_all (zip ids' gs) (db_grants s1)"
    using insert_grants [OF assms(1), of s1] assms(3) by auto
  have "db_grants s2 = db_grants s1"
    using ids ids' grants.insert_all_replay [of "zip ids' gs" "zip ids gs"] by simp
  moreover have "\<exists>r \<in> set (db_grants s1). grant_clash r g" if g: "g \<in> set gs" for g
  proof -
    obtain i where "(i, g) \<in> set (zip ids gs)" using ids(1) g in_set_impl_in_set_zip2 [of ids gs g] by blast
    then have "grants.present g (db_grants s1)" using grants.insert_all_present ids(2) by simp
    then obtain r where "r \<in> set (db_grants s1)" "grant_clash r (mk_grant i g)" by (auto simp: grants.present_def)
    then show ?thesis by (auto simp: grant_clash_def mk_grant_def)
  qed
  ultimately show ?thesis using ids(2) insert_all_append by metis
qed

definition demo_grant :: "string \<Rightarrow> grant_insert" where
  "demo_grant src = \<lparr>g_userId = ''u'', g_meter = Compute_std_seconds, g_kind = Plan_period, g_amount = 216000,
     g_periodStart = Some (Some 0), g_periodEnd = Some (Some 2592000000), g_sourceType = Src_invoice,
     g_sourceId = src, g_subscriptionId = Some ''sub_1''\<rparr>"

lemma grant_inserts_idempotent_witness:
  "\<exists>s1 s2. sfor [demo_grant ''in_1'', demo_grant ''in_2''] (\<lambda>g. ignore_result (insertGrant g)) demo_db = (Inr (), s1) \<and>
     sfor [demo_grant ''in_1'', demo_grant ''in_2''] (\<lambda>g. ignore_result (insertGrant g)) s1 = (Inr (), s2) \<and>
     db_grants s2 = db_grants s1"
proof -
  let ?gs = "[demo_grant ''in_1'', demo_grant ''in_2'']"
  have ok: "\<forall>g \<in> set ?gs. grant_dates_ok g" by (simp add: demo_grant_def grant_dates_ok_def)
  obtain s1 where s1: "sfor ?gs (\<lambda>g. ignore_result (insertGrant g)) demo_db = (Inr (), s1)"
    using insert_grants [OF ok] by blast
  obtain s2 where s2: "sfor ?gs (\<lambda>g. ignore_result (insertGrant g)) s1 = (Inr (), s2)"
    using insert_grants [OF ok] by blast
  from grant_inserts_idempotent [OF ok s1 s2] s1 s2 show ?thesis by blast
qed

text \<open>C31: out-of-order Stripe deliveries converge: after any series of upserts of one subscription by its owner
  the stored row is the one whose event is newest, so with different event times the order in which they
  were delivered does not matter.\<close>

theorem subscription_newest_wins:
  assumes "\<forall>q \<in> set qs. sub_ok q \<and> sub_id q = sid \<and> su_userId q = u" and "qs \<noteq> []"
    and "sub_row sid s = None" and "mset qs = mset qs'" and "distinct (map created qs)"
  shows "\<exists>t t' r. sfor qs (\<lambda>q. ignore_result (upsertSubscription q)) s = (Inr (), t) \<and>
     sfor qs' (\<lambda>q. ignore_result (upsertSubscription q)) s = (Inr (), t') \<and>
     sub_row sid t = Some r \<and> sub_row sid t' = Some r \<and> r \<in> set qs \<and> (\<forall>q \<in> set qs. created q \<le> created r)"
proof -
  have s: "set qs' = set qs" using assms(4) by (metis set_mset_mset)
  obtain t r where t: "sfor qs (\<lambda>q. ignore_result (upsertSubscription q)) s = (Inr (), t)" "sub_row sid t = Some r"
    "r \<in> set qs" "\<forall>q \<in> set qs. created q \<le> created r"
    using upserts_newest [OF assms(1), of s] assms(2,3) by auto
  have "qs' \<noteq> []" using assms(2) s by auto
  then obtain t' r' where t': "sfor qs' (\<lambda>q. ignore_result (upsertSubscription q)) s = (Inr (), t')" "sub_row sid t' = Some r'"
    "r' \<in> set qs'" "\<forall>q \<in> set qs'. created q \<le> created r'"
    using upserts_newest [of qs' sid u s] assms(1,3) s by auto
  have "created r = created r'" using t t' s by (metis order_antisym)
  then have "r = r'" using assms(5) t(3) t'(3) s by (auto simp: distinct_map dest: inj_onD)
  with t t' show ?thesis by blast
qed

definition demo_upsert :: "int \<Rightarrow> string \<Rightarrow> subscription_upsert" where
  "demo_upsert n st = \<lparr>sub_id = ''sub_1'', sub_status = st, sub_sku = ''standard_monthly_v3'', sub_periodStart = None,
     sub_periodEnd = None, sub_cancelAtPeriodEnd = False, su_userId = ''u'', su_stripeEventCreated = Some n\<rparr>"

theorem subscription_newest_wins_witness:
  "\<exists>t r. sfor [demo_upsert 3000 ''active'', demo_upsert 2000 ''incomplete''] (\<lambda>q. ignore_result (upsertSubscription q)) demo_db
       = (Inr (), t) \<and> sub_row ''sub_1'' t = Some r \<and> sub_status r = ''active''"
proof -
  let ?qs = "[demo_upsert 2000 ''incomplete'', demo_upsert 3000 ''active'']"
  have "sub_row ''sub_1'' demo_db = None" by (simp add: sub_row_def demo_db_def empty_db_def)
  then obtain t r where "sfor (rev ?qs) (\<lambda>q. ignore_result (upsertSubscription q)) demo_db = (Inr (), t)"
    "sub_row ''sub_1'' t = Some r" "r \<in> set ?qs" "\<forall>q \<in> set ?qs. created q \<le> created r"
    using subscription_newest_wins [of ?qs "''sub_1''" "''u''" demo_db "rev ?qs"]
    by (auto simp: demo_upsert_def sub_ok_def created_def)
  then show ?thesis by (auto simp: demo_upsert_def created_def)
qed

text \<open>C32: a resolved payment issue stays resolved against late or replayed failures: once the issue of an
  invoice is resolved at an instant, recording an issue of that invoice reopens it exactly when the failure is
  newer than the resolution and belongs to the same user.\<close>

theorem payment_issue_watermark:
  assumes "db_inv s" and "find (\<lambda>r. pi_stripeInvoiceId r = i) (db_paymentIssues s) = Some r"
    and "ts_le (pi_stripeEventCreated r) (Some t)" and "pi_stripeInvoiceId new = i" and "pi_stripeEventCreated new = Some c"
    and "resolvePaymentIssue i (Some t) s = (Inr (), s1)" and "recordPaymentIssue new s1 = (Inr (), s2)"
  shows "(\<forall>x \<in> set (db_paymentIssues s1). pi_stripeInvoiceId x = i \<longrightarrow> pi_resolvedAt x = Some (Some t)) \<and>
    ((\<exists>x \<in> set (db_paymentIssues s2). pi_stripeInvoiceId x = i \<and> pi_resolvedAt x = None) \<longleftrightarrow>
       t < c \<and> pi_userId new = pi_userId r)"
proof -
  let ?hit = "\<lambda>x. pi_stripeInvoiceId x = i \<and> ts_le (pi_stripeEventCreated x) (Some t)"
  let ?f = "\<lambda>x. x\<lparr>pi_resolvedAt := Some (Some t), pi_stripeEventCreated := Some t\<rparr>"
  have u: "uniq (\<lambda>a b. pi_stripeInvoiceId a = pi_stripeInvoiceId b) (db_paymentIssues s)" using assms(1) by (simp add: db_inv_def)
  have r: "r \<in> set (db_paymentIssues s)" "pi_stripeInvoiceId r = i" using find_mem [OF assms(2)] by auto
  have only: "x = r" if "x \<in> set (db_paymentIssues s)" "pi_stripeInvoiceId x = i" for x
    using issue_ids.uniq_at_most_one [OF u] that r by metis
  have s1: "db_paymentIssues s1 = update_where ?hit ?f (db_paymentIssues s)"
    using assms(6) by (auto simp: resolvePaymentIssue_def send_dates_def)
  have hit: "?hit r" using r(2) assms(3) by simp
  have m1: "x \<in> set (db_paymentIssues s1) \<and> pi_stripeInvoiceId x = i \<longleftrightarrow> x = ?f r" for x
  proof
    assume x: "x \<in> set (db_paymentIssues s1) \<and> pi_stripeInvoiceId x = i"
    then obtain y where y: "y \<in> set (db_paymentIssues s)" "x = (if ?hit y then ?f y else y)"
      unfolding s1 mem_update_where by blast
    then have "pi_stripeInvoiceId y = i" using x by (simp split: if_splits)
    with y only have "y = r" by blast
    with y(2) hit show "x = ?f r" by simp
  next
    assume "x = ?f r"
    moreover have "x \<in> set (db_paymentIssues s1)"
      unfolding s1 mem_update_where using r(1) hit calculation by (intro bexI [of _ r]) simp_all
    ultimately show "x \<in> set (db_paymentIssues s1) \<and> pi_stripeInvoiceId x = i" using r(2) by simp
  qed
  have ex: "\<exists>y \<in> set (db_paymentIssues s1). pi_stripeInvoiceId y = pi_stripeInvoiceId new" using m1 assms(4) by blast
  have s2: "db_paymentIssues s2 = update_where (\<lambda>x. pi_stripeInvoiceId x = pi_stripeInvoiceId new \<and> issue_applies new x)
      (issue_update new) (db_paymentIssues s1)"
    using assms(5,7) ex by (auto simp: recordPaymentIssue_def send_dates_def)
  have ap: "issue_applies new (?f r) \<longleftrightarrow> t < c \<and> pi_userId new = pi_userId r"
    using assms(5) by (auto simp: issue_applies_def ts_le_def ts_lt_def)
  have "(\<exists>x \<in> set (db_paymentIssues s2). pi_stripeInvoiceId x = i \<and> pi_resolvedAt x = None) \<longleftrightarrow> issue_applies new (?f r)"
  proof
    assume "\<exists>x \<in> set (db_paymentIssues s2). pi_stripeInvoiceId x = i \<and> pi_resolvedAt x = None"
    then obtain x where x: "x \<in> set (db_paymentIssues s2)" "pi_stripeInvoiceId x = i" "pi_resolvedAt x = None" by blast
    then obtain y where y: "y \<in> set (db_paymentIssues s1)"
      "x = (if pi_stripeInvoiceId y = pi_stripeInvoiceId new \<and> issue_applies new y then issue_update new y else y)"
      unfolding s2 mem_update_where by blast
    then have "pi_stripeInvoiceId y = i" using x(2) by (auto simp: issue_update_def split: if_splits)
    with y(1) m1 have yr: "y = ?f r" by blast
    have "x = ?f r" if "\<not> issue_applies new (?f r)" using y(2) yr that by simp
    with x(3) show "issue_applies new (?f r)" by fastforce
  next
    assume "issue_applies new (?f r)"
    then have "issue_update new (?f r) \<in> set (db_paymentIssues s2)"
      unfolding s2 mem_update_where using m1 assms(4) r(2) by (intro bexI [of _ "?f r"]) auto
    then show "\<exists>x \<in> set (db_paymentIssues s2). pi_stripeInvoiceId x = i \<and> pi_resolvedAt x = None"
      using r(2) by (intro bexI [of _ "issue_update new (?f r)"]) (auto simp: issue_update_def)
  qed
  moreover have "pi_resolvedAt x = Some (Some t)" if "x \<in> set (db_paymentIssues s1)" "pi_stripeInvoiceId x = i" for x
  proof -
    have "x = ?f r" using m1 that by blast
    then show ?thesis by simp
  qed
  ultimately show ?thesis unfolding ap by blast
qed

definition demo_issue :: "int \<Rightarrow> payment_issue" where
  "demo_issue t = \<lparr>pi_stripeInvoiceId = ''in_1'', pi_userId = ''u'', pi_subscriptionId = Some ''sub_1'',
     pi_invoiceKind = IK_subscription, pi_issue = II_payment_failed, pi_hostedInvoiceUrl = None, pi_stripeEventCreated = Some t\<rparr>"

theorem payment_issue_watermark_witness:
  "\<exists>s1 s2. resolvePaymentIssue ''in_1'' (Some 9000) (demo_db\<lparr>db_paymentIssues := [issue_row (demo_issue 5000)]\<rparr>) = (Inr (), s1) \<and>
     recordPaymentIssue (demo_issue 7000) s1 = (Inr (), s2) \<and>
     \<not> (\<exists>x \<in> set (db_paymentIssues s2). pi_stripeInvoiceId x = ''in_1'' \<and> pi_resolvedAt x = None)"
proof -
  let ?s = "demo_db\<lparr>db_paymentIssues := [issue_row (demo_issue 5000)]\<rparr>"
  have inv: "db_inv ?s"
    using demo_db_inv by (simp add: db_inv_def issue_ok_def issue_row_def demo_issue_def uniq_def)
  have f: "find (\<lambda>r. pi_stripeInvoiceId r = ''in_1'') (db_paymentIssues ?s) = Some (issue_row (demo_issue 5000))"
    by (simp add: issue_row_def demo_issue_def)
  obtain s1 where s1: "resolvePaymentIssue ''in_1'' (Some 9000) ?s = (Inr (), s1)"
    by (simp add: resolvePaymentIssue_def send_dates_def)
  obtain s2 where s2: "recordPaymentIssue (demo_issue 7000) s1 = (Inr (), s2)"
    by (simp add: recordPaymentIssue_def send_dates_def demo_issue_def)
  show ?thesis
    using payment_issue_watermark [OF inv f _ _ _ s1 s2, of 7000] s1 s2
    by (auto simp: issue_row_def demo_issue_def ts_le_def)
qed

end
