(* ===== verification/Texts.thy ===== *)
theory Texts
  imports Calendar
begin

text \<open>
  Texts of numbers and instants: the decimal form of an integer, and the text form of an instant, \<^verbatim>\<open>Date.prototype.toISOString\<close>, and its reading by \<^verbatim>\<open>new Date\<close>: the
  date \<^verbatim>\<open>YYYY-MM-DDTHH:mm:ss.sssZ\<close> in UTC, with a sign and six digits for a year outside 0 to 9999.
  Reading accepts the four-digit form (other forms are left to the implementation by the language and
  denote no instant here); a day that its month does not have carries into the next one. The lemmas show
  that reading undoes rendering, which is what identifiers that contain an instant rely on.
\<close>

subsection \<open>Decimal numbers\<close>

fun show_nat :: "nat \<Rightarrow> string" where
  "show_nat n = (if n < 10 then [char_of (48 + n)] else show_nat (n div 10) @ [char_of (48 + n mod 10)])"

declare show_nat.simps [simp del]

definition show_int :: "int \<Rightarrow> string" where
  "show_int i = (if i < 0 then ''-'' @ show_nat (nat (- i)) else show_nat (nat i))"

subsection \<open>Digits\<close>

definition digit :: "int \<Rightarrow> char" where
  "digit n = char_of (48 + nat (n mod 10))"

definition is_digit :: "char \<Rightarrow> bool" where
  "is_digit c \<longleftrightarrow> CHR ''0'' \<le> c \<and> c \<le> CHR ''9''"

definition digit_val :: "char \<Rightarrow> int" where
  "digit_val c = int (of_char c) - 48"

primrec digits :: "nat \<Rightarrow> int \<Rightarrow> string" where
  "digits 0 n = []"
| "digits (Suc k) n = digits k (n div 10) @ [digit n]"

definition digits_val :: "string \<Rightarrow> int" where
  "digits_val = foldl (\<lambda>a c. 10 * a + digit_val c) 0"

lemma digit_props [simp]: "is_digit (digit n)" "digit_val (digit n) = n mod 10"
proof -
  have b: "0 \<le> n mod 10" "n mod 10 < 10" by simp_all
  then have m: "of_char (digit n) = (48 + nat (n mod 10) :: nat)"
    by (simp add: digit_def)
  then show "digit_val (digit n) = n mod 10" using b by (simp add: digit_val_def)
  have "(48::nat) \<le> of_char (digit n)" "of_char (digit n) \<le> (57::nat)" using m b by auto
  then show "is_digit (digit n)" by (simp add: is_digit_def less_eq_char_def)
qed

lemma length_digits [simp]: "length (digits k n) = k"
  by (induction k arbitrary: n) auto

lemma digits_are_digits: "c \<in> set (digits k n) \<Longrightarrow> is_digit c"
  by (induction k arbitrary: n) auto

lemma digits_val_digits: "digits_val (digits k n) = n mod 10 ^ k"
proof (induction k arbitrary: n)
  case 0
  then show ?case by (simp add: digits_val_def)
next
  case (Suc k)
  have "digits_val (digits (Suc k) n) = 10 * (n div 10 mod 10 ^ k) + n mod 10"
    using Suc by (simp add: digits_val_def)
  also have "\<dots> = n mod (10 * 10 ^ k)" by (simp add: zmod_zmult2_eq)
  finally show ?case by simp
qed

lemma digits_val_exact: "0 \<le> n \<Longrightarrow> n < 10 ^ k \<Longrightarrow> digits_val (digits k n) = n"
  by (simp add: digits_val_digits)

text \<open>A number is determined by its decimal form.\<close>

lemma digits_val_snoc: "digits_val (xs @ [c]) = 10 * digits_val xs + digit_val c"
  by (simp add: digits_val_def)

lemma digit_val_char: "n < 10 \<Longrightarrow> digit_val (char_of (48 + n :: nat)) = int n"
  by (simp add: digit_val_def)

lemma digits_val_show: "digits_val (show_nat n) = int n"
proof (induction n rule: show_nat.induct)
  case (1 n)
  show ?case
  proof (cases "n < 10")
    case True
    then show ?thesis using digit_val_char [of n] by (simp add: show_nat.simps [of n] digits_val_def)
  next
    case False
    have "digits_val (show_nat n) = 10 * int (n div 10) + int (n mod 10)"
      unfolding show_nat.simps [of n] using False 1 digit_val_char [of "n mod 10"] by (simp add: digits_val_snoc)
    also have "\<dots> = int (10 * (n div 10) + n mod 10)" by (simp only: of_nat_add of_nat_mult of_nat_numeral)
    finally show ?thesis by simp
  qed
qed

lemma show_nat_digits: "c \<in> set (show_nat n) \<Longrightarrow> is_digit c"
proof (induction n rule: show_nat.induct)
  case (1 n)
  have d: "is_digit (char_of (48 + m))" if "m < 10" for m :: nat
    using that by (simp add: is_digit_def less_eq_char_def)
  show ?case
    using 1 d [of n] d [of "n mod 10"] by (cases "n < 10") (auto simp: show_nat.simps [of n])
qed

lemma show_int_inj [simp]: "show_int a = show_int b \<longleftrightarrow> a = b"
proof
  assume e: "show_int a = show_int b"
  have nd: "show_nat n \<noteq> ''-'' @ xs" for n xs
  proof
    assume "show_nat n = ''-'' @ xs"
    then have "CHR ''-'' \<in> set (show_nat n)" by simp
    then show False using show_nat_digits by (force simp: is_digit_def less_eq_char_def)
  qed
  have inj: "nat x = nat y" if "show_nat (nat x) = show_nat (nat y)" for x y
    using digits_val_show that by (metis of_nat_eq_iff)
  show "a = b"
  proof (cases "a < 0"; cases "b < 0")
    assume "a < 0" "b < 0"
    then show ?thesis using e inj [of "- a" "- b"] by (simp add: show_int_def)
  next
    assume "\<not> a < 0" "\<not> b < 0"
    then show ?thesis using e inj [of a b] by (simp add: show_int_def)
  next
    assume "a < 0" "\<not> b < 0"
    then show ?thesis using e nd [of "nat b" "show_nat (nat (- a))"] by (simp add: show_int_def)
  next
    assume "\<not> a < 0" "b < 0"
    then show ?thesis using e nd [of "nat a" "show_nat (nat (- b))"] by (simp add: show_int_def)
  qed
qed simp

subsection \<open>Rendering\<close>

definition year_digits :: "int \<Rightarrow> string" where
  "year_digits y = (if 0 \<le> y \<and> y \<le> 9999 then digits 4 y
     else (if y < 0 then CHR ''-'' else CHR ''+'') # digits 6 \<bar>y\<bar>)"

text \<open>Year, month (0 to 11) and day of the month (from 1) of a day.\<close>

definition civil :: "int \<Rightarrow> int \<times> nat \<times> int" where
  "civil d = (let y = year_of_day d; m = month_of (is_leap y) (d - day_from_year y)
     in (y, m, d - month_first y m + 1))"

definition iso_string :: "int \<Rightarrow> string" where
  "iso_string ms = (let (y, m, day) = civil (ms div day_ms); t = ms mod day_ms in
     year_digits y @ ''-'' @ digits 2 (int m + 1) @ ''-'' @ digits 2 day @ ''T'' @
     digits 2 (t div 3600000) @ '':'' @ digits 2 (t div 60000 mod 60) @ '':'' @
     digits 2 (t div 1000 mod 60) @ ''.'' @ digits 3 (t mod 1000) @ ''Z'')"

definition toISOString :: "jsdate \<Rightarrow> string res" where
  "toISOString d = (case d of None \<Rightarrow> Inl RangeError | Some ms \<Rightarrow> Inr (iso_string ms))"

subsection \<open>Reading\<close>

definition iso_pattern :: string where
  "iso_pattern = ''dddd-dd-ddTdd:dd:dd.dddZ''"

definition is_iso :: "string \<Rightarrow> bool" where
  "is_iso s \<longleftrightarrow> list_all2 (\<lambda>p c. if p = CHR ''d'' then is_digit c else c = p) iso_pattern s"

definition field :: "string \<Rightarrow> nat \<Rightarrow> nat \<Rightarrow> int" where
  "field s i n = digits_val (take n (drop i s))"

definition parse_iso :: "string \<Rightarrow> jsdate" where
  "parse_iso s =
     (if \<not> is_iso s then None
      else let mo = field s 5 2; day = field s 8 2; h = field s 11 2; mi = field s 14 2; sec = field s 17 2; ms = field s 20 3 in
        if 1 \<le> mo \<and> mo \<le> 12 \<and> 1 \<le> day \<and> day \<le> 31 \<and> mi \<le> 59 \<and> sec \<le> 59 \<and>
           (h \<le> 23 \<or> h = 24 \<and> mi = 0 \<and> sec = 0 \<and> ms = 0)
        then new_Date ((month_first (field s 0 4) (nat (mo - 1)) + day - 1) * day_ms +
               h * 3600000 + mi * 60000 + sec * 1000 + ms)
        else None)"

subsection \<open>Reading undoes rendering\<close>

definition iso_year_ok :: "int \<Rightarrow> bool" where
  "iso_year_ok ms \<longleftrightarrow> 0 \<le> year_of_day (ms div day_ms) \<and> year_of_day (ms div day_ms) \<le> 9999"

lemma civil_bounds:
  assumes "civil d = (y, m, day)"
  shows "m \<le> 11" "1 \<le> day" "day \<le> 31" "month_first y m + day - 1 = d" "y = year_of_day d"
proof -
  have y: "y = year_of_day d" and m: "m = month_of (is_leap y) (d - day_from_year y)"
    and day: "day = d - month_first y m + 1"
    using assms by (auto simp: civil_def Let_def)
  have k: "0 \<le> d - day_from_year y" "d - day_from_year y < 365 + (if is_leap y then 1 else 0)"
    using year_of_day_bounds [of d] day_from_year_Suc [of y] y by auto
  show m11: "m \<le> 11" using m month_of_le by simp
  from month_of_bounds [OF k] m have b: "month_start (is_leap y) m \<le> d - day_from_year y"
    "d - day_from_year y < (if m = 11 then 365 + (if is_leap y then 1 else 0) else month_start (is_leap y) (Suc m))"
    by auto
  show "1 \<le> day" using b day by (simp add: month_first_def)
  have len: "(if m = 11 then 365 + (if is_leap y then 1 else 0) else month_start (is_leap y) (Suc m)) \<le> month_start (is_leap y) m + 31"
  proof -
    have "m = 0 \<or> m = 1 \<or> m = 2 \<or> m = 3 \<or> m = 4 \<or> m = 5 \<or> m = 6 \<or> m = 7 \<or> m = 8 \<or> m = 9 \<or> m = 10 \<or> m = 11"
      using m11 by arith
    then show ?thesis by (elim disjE) (simp_all add: month_start_def Let_def)
  qed
  show "day \<le> 31" using b(2) len day unfolding month_first_def by linarith
  show "month_first y m + day - 1 = d" "y = year_of_day d" using day y by simp_all
qed

lemma list_all2_digits: "list_all2 (\<lambda>p c. if p = CHR ''d'' then is_digit c else c = p) (replicate k (CHR ''d'')) (digits k n)"
  using digits_are_digits [of _ k n] by (auto simp: list_all2_conv_all_nth)

lemma time_split:
  fixes t :: int
  assumes "0 \<le> t" "t < day_ms"
  shows "t div 3600000 * 3600000 + t div 60000 mod 60 * 60000 + t div 1000 mod 60 * 1000 + t mod 1000 = t"
    "0 \<le> t div 3600000" "t div 3600000 \<le> 23"
proof -
  have a: "t div 60000 = t div 1000 div 60" using zdiv_zmult2_eq [of 60 t 1000] by simp
  have b: "t div 3600000 = t div 1000 div 60 div 60"
    using zdiv_zmult2_eq [of 60 t 60000] a by simp
  have c: "t div 1000 * 1000 + t mod 1000 = t"
    "t div 1000 div 60 * 60 + t div 1000 mod 60 = t div 1000"
    "t div 1000 div 60 div 60 * 60 + t div 1000 div 60 mod 60 = t div 1000 div 60" by (rule div_mult_mod_eq)+
  show "t div 3600000 * 3600000 + t div 60000 mod 60 * 60000 + t div 1000 mod 60 * 1000 + t mod 1000 = t"
    unfolding a b using c by linarith
  show "0 \<le> t div 3600000" using assms by simp
  have "t < 24 * 3600000" using assms by (simp add: day_ms_def)
  then have "t div 3600000 < 24" by (simp add: div_less_iff_less_mult)
  then show "t div 3600000 \<le> 23" by simp
qed

text \<open>The text of an instant with its fields named.\<close>

definition iso_text :: "string \<Rightarrow> string \<Rightarrow> string \<Rightarrow> string \<Rightarrow> string \<Rightarrow> string \<Rightarrow> string \<Rightarrow> string" where
  "iso_text y mo d h mi sec ms = y @ ''-'' @ mo @ ''-'' @ d @ ''T'' @ h @ '':'' @ mi @ '':'' @ sec @ ''.'' @ ms @ ''Z''"

lemma iso_text_fields:
  assumes "length y = 4" "length mo = 2" "length d = 2" "length h = 2" "length mi = 2" "length sec = 2" "length ms = 3"
  shows "field (iso_text y mo d h mi sec ms) 0 4 = digits_val y" "field (iso_text y mo d h mi sec ms) 5 2 = digits_val mo"
    "field (iso_text y mo d h mi sec ms) 8 2 = digits_val d" "field (iso_text y mo d h mi sec ms) 11 2 = digits_val h"
    "field (iso_text y mo d h mi sec ms) 14 2 = digits_val mi" "field (iso_text y mo d h mi sec ms) 17 2 = digits_val sec"
    "field (iso_text y mo d h mi sec ms) 20 3 = digits_val ms"
  using assms by (simp_all add: field_def iso_text_def drop_Cons' take_Cons')

lemma iso_text_is_iso:
  "is_iso (iso_text (digits 4 y) (digits 2 mo) (digits 2 d) (digits 2 h) (digits 2 mi) (digits 2 sec) (digits 3 ms))"
proof -
  have pat: "iso_pattern = replicate 4 (CHR ''d'') @ ''-'' @ replicate 2 (CHR ''d'') @ ''-'' @ replicate 2 (CHR ''d'') @ ''T'' @
      replicate 2 (CHR ''d'') @ '':'' @ replicate 2 (CHR ''d'') @ '':'' @ replicate 2 (CHR ''d'') @ ''.'' @
      replicate 3 (CHR ''d'') @ ''Z''"
    by (simp add: iso_pattern_def numeral_eq_Suc)
  show ?thesis
    unfolding is_iso_def iso_text_def pat
    by (intro list_all2_appendI list_all2_digits) simp_all
qed

lemma length_iso_string: "length (iso_string ms) = (if iso_year_ok ms then 24 else 27)"
  by (auto simp: iso_string_def iso_year_ok_def year_digits_def civil_def Let_def)

lemma iso_year_range: "iso_year_ok ms \<Longrightarrow> \<bar>ms\<bar> \<le> max_time_ms"
proof -
  let ?d = "ms div day_ms" let ?y = "year_of_day ?d"
  assume "iso_year_ok ms"
  then have "day_from_year 0 \<le> day_from_year ?y" "day_from_year (?y + 1) \<le> day_from_year 10000"
    by (simp_all add: iso_year_ok_def day_from_year_mono)
  with year_of_day_bounds [of ?d] have "-800000 \<le> ?d" "?d < 4000000" by (simp_all add: day_from_year_def)
  moreover have "?d * day_ms + ms mod day_ms = ms" "0 \<le> ms mod day_ms" "ms mod day_ms < day_ms"
    by (simp_all add: day_ms_def)
  ultimately show ?thesis unfolding day_ms_def max_time_ms_def by linarith
qed

lemma parse_iso_fields:
  assumes "is_iso s" "field s 0 4 = y" "field s 5 2 = mo" "field s 8 2 = day" "field s 11 2 = h" "field s 14 2 = mi"
    "field s 17 2 = sec" "field s 20 3 = ms" "1 \<le> mo" "mo \<le> 12" "1 \<le> day" "day \<le> 31" "h \<le> 23" "mi \<le> 59" "sec \<le> 59"
  shows "parse_iso s = new_Date ((month_first y (nat (mo - 1)) + day - 1) * day_ms + h * 3600000 + mi * 60000 + sec * 1000 + ms)"
  using assms by (simp add: parse_iso_def)

lemma parse_iso_string:
  assumes "iso_year_ok ms"
  shows "is_iso (iso_string ms)" and "parse_iso (iso_string ms) = Some ms"
proof -
  obtain y m day where c: "civil (ms div day_ms) = (y, m, day)" by (metis prod_cases3)
  note b = civil_bounds [OF c]
  let ?t = "ms mod day_ms"
  have t: "0 \<le> ?t" "?t < day_ms" by (simp_all add: day_ms_def)
  note ts = time_split [OF t]
  have y: "0 \<le> y" "y \<le> 9999" using assms b(5) by (simp_all add: iso_year_ok_def)
  have shape: "iso_string ms = iso_text (digits 4 y) (digits 2 (int m + 1)) (digits 2 day) (digits 2 (?t div 3600000))
      (digits 2 (?t div 60000 mod 60)) (digits 2 (?t div 1000 mod 60)) (digits 3 (?t mod 1000))"
    using c y by (simp add: iso_string_def iso_text_def year_digits_def Let_def)
  show iso: "is_iso (iso_string ms)" unfolding shape by (rule iso_text_is_iso)
  have r: "digits_val (digits 4 y) = y" "digits_val (digits 2 (int m + 1)) = int m + 1" "digits_val (digits 2 day) = day"
      "digits_val (digits 2 (?t div 3600000)) = ?t div 3600000"
      "digits_val (digits 2 (?t div 60000 mod 60)) = ?t div 60000 mod 60"
      "digits_val (digits 2 (?t div 1000 mod 60)) = ?t div 1000 mod 60"
      "digits_val (digits 3 (?t mod 1000)) = ?t mod 1000"
    using y b(1-3) ts(2,3) pos_mod_bound [of 60 "?t div 60000"] pos_mod_bound [of 60 "?t div 1000"] pos_mod_bound [of 1000 ?t]
    by (intro digits_val_exact; simp del: mod_mod_cancel)+
  have f: "field (iso_string ms) 0 4 = y" "field (iso_string ms) 5 2 = int m + 1" "field (iso_string ms) 8 2 = day"
      "field (iso_string ms) 11 2 = ?t div 3600000" "field (iso_string ms) 14 2 = ?t div 60000 mod 60"
      "field (iso_string ms) 17 2 = ?t div 1000 mod 60" "field (iso_string ms) 20 3 = ?t mod 1000"
    unfolding shape by (simp_all only: iso_text_fields length_digits r)
  have "(month_first y m + day - 1) * day_ms + ?t = ms"
    unfolding b(4) by (rule div_mult_mod_eq)
  then have sum: "(month_first y (nat (int m + 1 - 1)) + day - 1) * day_ms + ?t div 3600000 * 3600000 +
      ?t div 60000 mod 60 * 60000 + ?t div 1000 mod 60 * 1000 + ?t mod 1000 = ms"
    using ts(1) by (simp only: add.assoc add_diff_cancel_right' nat_int)
  have lt: "?t div 60000 mod 60 < 60" "?t div 1000 mod 60 < 60" by (rule pos_mod_bound, simp)+
  have "parse_iso (iso_string ms) = new_Date ms"
    using parse_iso_fields [OF iso f _ _ b(2,3) ts(3)] b(1) lt unfolding sum by linarith
  then show "parse_iso (iso_string ms) = Some ms" using iso_year_range [OF assms] by (simp add: new_Date_def)
qed

lemma iso_string_inj:
  "iso_year_ok a \<Longrightarrow> iso_year_ok b \<Longrightarrow> iso_string a = iso_string b \<Longrightarrow> a = b"
  by (metis option.inject parse_iso_string(2))

end
