(* ===== verification/Close_Period.thy ===== *)
theory Close_Period
  imports Store_Props Texts
begin

text \<open>
  Overage billing: eligibility (\<^verbatim>\<open>app/src/server/billing/v2/usage-billing.ts\<close>), the Stripe side
  (\<^verbatim>\<open>stripe/usage-billing.ts\<close>), the unresolved-failure test of \<^verbatim>\<open>v2/summary.ts\<close>, and the job that closes
  a period and invoices its overage (\<^verbatim>\<open>v2/close-period.ts\<close>). The world outside the database is a type
  parameter; the calls to Stripe are procedures over it.
\<close>

subsection \<open>Eligibility and idempotency keys\<close>

definition OVERAGE_GRACE_SECONDS :: int where [billing_consts]: "OVERAGE_GRACE_SECONDS = 3600"
definition OVERAGE_RATING_VERSION :: int where [billing_consts]: "OVERAGE_RATING_VERSION = 1"

definition show_seconds :: "jsdate \<Rightarrow> string" where
  "show_seconds d = (case d of None \<Rightarrow> ''NaN'' | Some ms \<Rightarrow> show_int (ms div 1000))"

definition overageIdempotencyKey :: "string \<Rightarrow> jsdate \<Rightarrow> int \<Rightarrow> string" where
  "overageIdempotencyKey subscriptionId periodStart ratingVersion =
     ''overage:'' @ subscriptionId @ '':'' @ show_seconds periodStart @ '':'' @ show_int ratingVersion"

datatype skip_reason = Skip_not_found | Skip_no_closed_period | Skip_not_compute | Skip_no_customer
  | Skip_overage_disabled | Skip_nothing_to_bill | Skip_period_not_closed

datatype close_result = Close_invoiced string string "string option" | Close_exists string | Close_skipped skip_reason

definition overageEligibility :: "bool \<Rightarrow> int \<Rightarrow> jsdate \<Rightarrow> jsdate \<Rightarrow> skip_reason option" where
  "overageEligibility overageEnabled cents periodEnd now =
     (if \<not> overageEnabled then Some Skip_overage_disabled
      else if \<not> is_safe_integer cents \<or> cents \<le> 0 then Some Skip_nothing_to_bill
      else if \<not> (case (now, periodEnd) of (Some n, Some e) \<Rightarrow> n \<ge> e + OVERAGE_GRACE_SECONDS * 1000 | _ \<Rightarrow> False)
      then Some Skip_period_not_closed else None)"

subsection \<open>The Stripe side\<close>

record overage_request =
  or_customerId :: string
  or_subscriptionId :: string
  or_periodStart :: jsdate
  or_periodEnd :: jsdate
  or_ratingVersion :: int
  or_cents :: int
  or_overageEnabled :: bool
  or_now :: jsdate
  or_existingInvoiceId :: "string option"

text \<open>A line's price as the processor returns it: an object with a lookup key, or an identifier.\<close>

datatype line_price = Price_object string "string option" | Price_id string | Price_missing

record invoice_response =
  iv_id :: string
  iv_status :: string
  iv_hostedUrl :: "string option"
  iv_linePrices :: "line_price list"

text \<open>The requests of the adapter; the string before the answer is the idempotency key of a write.\<close>

record 'w billing_api =
  ba_defaultPaymentMethod :: "string \<Rightarrow> ('w, string option) prog"
  ba_getInvoice :: "string \<Rightarrow> ('w, invoice_response) prog"
  ba_createInvoice :: "overage_request \<Rightarrow> string option \<Rightarrow> string \<Rightarrow> ('w, invoice_response) prog"
  ba_resolvePrice :: "string \<Rightarrow> ('w, string) prog"
  ba_createItem :: "string \<Rightarrow> string \<Rightarrow> string \<Rightarrow> int \<Rightarrow> string \<Rightarrow> ('w, unit) prog"
  ba_finalize :: "string \<Rightarrow> string \<Rightarrow> ('w, invoice_response) prog"

definition on_db :: "(db, 'a) prog \<Rightarrow> (db \<times> 'w, 'a) prog" where
  "on_db m s = (case m (fst s) of (r, d) \<Rightarrow> (r, (d, snd s)))"

definition on_ext :: "('w, 'a) prog \<Rightarrow> (db \<times> 'w, 'a) prog" where
  "on_ext m s = (case m (snd s) of (r, w) \<Rightarrow> (r, (fst s, w)))"

definition invoiced :: "invoice_response \<Rightarrow> close_result" where
  "invoiced i = Close_invoiced (iv_id i) (iv_status i) (iv_hostedUrl i)"

definition has_overage_key :: "line_price \<Rightarrow> bool" where
  "has_overage_key p = (case p of Price_object _ key \<Rightarrow> key = Some OVERAGE_PRICE_LOOKUP_KEY | _ \<Rightarrow> False)"

definition price_id :: "line_price \<Rightarrow> string option" where
  "price_id p = (case p of Price_object i _ \<Rightarrow> Some i | Price_id i \<Rightarrow> Some i | Price_missing \<Rightarrow> None)"

definition add_overage_line :: "'w billing_api \<Rightarrow> overage_request \<Rightarrow> string \<Rightarrow> invoice_response \<Rightarrow> (db \<times> 'w, unit) prog" where
  "add_overage_line api i key invoice =
     (if \<exists>p \<in> set (iv_linePrices invoice). has_overage_key p then sreturn ()
      else sbind (on_ext (ba_resolvePrice api OVERAGE_PRICE_LOOKUP_KEY)) (\<lambda>price.
        if \<exists>p \<in> set (iv_linePrices invoice). price_id p = Some price then sreturn ()
        else on_ext (ba_createItem api (or_customerId i) (iv_id invoice) price (or_cents i) (key @ '':item''))))"

definition finish_overage :: "'w billing_api \<Rightarrow> overage_request \<Rightarrow> string \<Rightarrow> invoice_response \<Rightarrow> (db \<times> 'w, close_result) prog" where
  "finish_overage api i key invoice =
     (if iv_status invoice \<noteq> ''draft'' then sreturn (invoiced invoice)
      else sbind (add_overage_line api i key invoice) (\<lambda>_.
           sbind (on_ext (ba_finalize api (iv_id invoice) (key @ '':finalize''))) (\<lambda>done. sreturn (invoiced done))))"

definition invoiceOverage :: "'w billing_api \<Rightarrow> overage_request \<Rightarrow> (string \<Rightarrow> (db \<times> 'w, unit) prog) \<Rightarrow> (db \<times> 'w, close_result) prog" where
  "invoiceOverage api i onDraftCreated =
     (case overageEligibility (or_overageEnabled i) (or_cents i) (or_periodEnd i) (or_now i) of
        Some reason \<Rightarrow> sreturn (Close_skipped reason)
      | None \<Rightarrow>
          let key = overageIdempotencyKey (or_subscriptionId i) (or_periodStart i) (or_ratingVersion i) in
          (case or_existingInvoiceId i of
             Some (c # cs) \<Rightarrow> sbind (on_ext (ba_getInvoice api (c # cs))) (finish_overage api i key)
           | _ \<Rightarrow> sbind (on_ext (ba_defaultPaymentMethod api (or_subscriptionId i))) (\<lambda>pm.
               sbind (on_ext (ba_createInvoice api i pm (key @ '':invoice''))) (\<lambda>invoice.
               sbind (onDraftCreated (iv_id invoice)) (\<lambda>_. finish_overage api i key invoice)))))"

subsection \<open>The closed period\<close>

text \<open>Unresolved failures and finalized unpaid invoices override even later consent.\<close>

definition hasOveragePaymentFailure :: "string option \<Rightarrow> payment_issue_row list \<Rightarrow> overage_invoice_row list \<Rightarrow> bool" where
  "hasOveragePaymentFailure subscriptionId issues invoices \<longleftrightarrow>
     (\<exists>i \<in> set issues. pi_subscriptionId i = subscriptionId \<and> pi_invoiceKind i = IK_overage \<and>
        pi_resolvedAt i = None \<and> pi_issue i \<noteq> II_voided) \<or>
     (\<exists>v \<in> set invoices. Some (oi_subscriptionId v) = subscriptionId \<and>
        oi_status v \<in> {OI_open, OI_payment_failed, OI_requires_action, OI_uncollectible})"

definition sub_start_time :: "subscription_row \<Rightarrow> int" where
  "sub_start_time s = (case sub_periodStart s of Some (Some ms) \<Rightarrow> ms | _ \<Rightarrow> 0)"

definition chosen_subscription :: "string option \<Rightarrow> subscription_row list \<Rightarrow> subscription_row option" where
  "chosen_subscription subscriptionId subs = (case subscriptionId of
     Some i \<Rightarrow> find (\<lambda>s. sub_id s = i) subs
   | None \<Rightarrow> pick (\<lambda>a b. sub_start_time b < sub_start_time a) None subs)"

definition compute_grant_of :: "string \<Rightarrow> grant_row \<Rightarrow> bool" where
  "compute_grant_of subscriptionId g \<longleftrightarrow> g_subscriptionId g = Some subscriptionId \<and> g_meter g = GRANT_METER_COMPUTE"

definition closed_grant :: "string \<Rightarrow> int \<Rightarrow> grant_row \<Rightarrow> bool" where
  "closed_grant subscriptionId now g \<longleftrightarrow> compute_grant_of subscriptionId g \<and> g_kind g = Plan_period \<and>
     (case (g_periodStart g, g_periodEnd g) of
        (Some (Some a), Some (Some b)) \<Rightarrow> a < b \<and> b + OVERAGE_GRACE_SECONDS * 1000 \<le> now | _ \<Rightarrow> False)"

definition grant_end :: "grant_row \<Rightarrow> int" where
  "grant_end g = (case g_periodEnd g of Some (Some b) \<Rightarrow> b | _ \<Rightarrow> 0)"

definition grant_start :: "grant_row \<Rightarrow> int" where
  "grant_start g = (case g_periodStart g of Some (Some a) \<Rightarrow> a | _ \<Rightarrow> 0)"

definition last_closed :: "string \<Rightarrow> int \<Rightarrow> grant_row list \<Rightarrow> grant_row option" where
  "last_closed subscriptionId now recent =
     pick (\<lambda>a b. grant_end b < grant_end a) None (filter (closed_grant subscriptionId now) recent)"

definition existing_invoice :: "string \<Rightarrow> int \<Rightarrow> overage_invoice_row list \<Rightarrow> string option" where
  "existing_invoice subscriptionId periodStart invoices =
     (case find (\<lambda>v. oi_subscriptionId v = subscriptionId \<and> oi_periodStart v = Some periodStart \<and>
             oi_ratingVersion v = OVERAGE_RATING_VERSION \<and> oi_stripeInvoiceId v \<noteq> None \<and> oi_status v \<noteq> OI_pending) invoices of
        Some v \<Rightarrow> (case oi_stripeInvoiceId v of Some (c # cs) \<Rightarrow> Some (c # cs) | _ \<Rightarrow> None)
      | None \<Rightarrow> None)"

definition grants_inside :: "string \<Rightarrow> int \<Rightarrow> int \<Rightarrow> grant_row list \<Rightarrow> grant_row list" where
  "grants_inside subscriptionId periodStart periodEnd gs =
     filter (\<lambda>g. compute_grant_of subscriptionId g \<and>
        (case (g_periodStart g, g_periodEnd g) of
           (Some (Some a), Some (Some b)) \<Rightarrow> a < periodEnd \<and> periodStart < b | _ \<Rightarrow> False)) gs"

subsection \<open>Consented usage\<close>

definition current_consent :: "overage_consent_row \<Rightarrow> bool" where
  "current_consent d \<longleftrightarrow> oc_enabled d \<and> oc_termsVersion d = OVERAGE_TERMS_VERSION \<and>
     oc_rateCentsPerStdHour d = OVERAGE_CENTS_PER_STD_HOUR"

definition add_interval :: "(int \<times> int) list \<Rightarrow> int \<Rightarrow> int \<Rightarrow> (int \<times> int) list" where
  "add_interval ivs start stop =
     (if ivs \<noteq> [] \<and> snd (last ivs) = start then butlast ivs @ [(fst (last ivs), stop)] else ivs @ [(start, stop)])"

fun consent_loop :: "int \<Rightarrow> int \<Rightarrow> (int \<times> int) list \<Rightarrow> int \<Rightarrow> overage_consent_row list \<Rightarrow> ((int \<times> int) list \<times> int) res" where
  "consent_loop startS endS ivs cap [] = Inr (ivs, cap)"
| "consent_loop startS endS ivs cap (d # ds) =
     (if \<not> current_consent d then consent_loop startS endS ivs cap ds
      else rbind (epochSeconds (oc_acceptedAt d) RFloor) (\<lambda>accepted.
           rbind (case ds of [] \<Rightarrow> Inr endS | n # _ \<Rightarrow> epochSeconds (oc_acceptedAt n) RFloor) (\<lambda>nextAt.
           let start = max startS accepted; stop = min endS nextAt in
           if stop \<le> start then consent_loop startS endS ivs cap ds
           else consent_loop startS endS (add_interval ivs start stop) (oc_capCents d) ds)))"

text \<open>Cumulative overage from the start of the period: the allowance is shared across enabled and paused usage.\<close>

definition over_until :: "stored_compute_epoch list \<Rightarrow> int \<Rightarrow> int \<Rightarrow> int \<Rightarrow> int \<Rightarrow> int res" where
  "over_until epochs startS nowS allowance stop =
     rbind (isoSeconds startS) (\<lambda>a. rbind (isoSeconds nowS) (\<lambda>n. rbind (isoSeconds stop) (\<lambda>b.
     rbind (rateWindow epochs \<lparr>w_start = a, w_end = b\<rparr> n None None) (\<lambda>u. Inr (max 0 (wu_stdSeconds u - allowance))))))"

fun billable_std :: "(int \<Rightarrow> int res) \<Rightarrow> (int \<times> int) list \<Rightarrow> int \<Rightarrow> int res" where
  "billable_std over [] acc = Inr acc"
| "billable_std over ((a, b) # ivs) acc =
     rbind (over b) (\<lambda>ob. rbind (over a) (\<lambda>oa. billable_std over ivs (acc + ob - oa)))"

text \<open>What is left to decide once the period, its grants, epochs and consent decisions are read.\<close>

datatype close_step = Close_done close_result | Close_charge overage_invoice

definition charge_of :: "string \<Rightarrow> string \<Rightarrow> int \<Rightarrow> int \<Rightarrow> int \<Rightarrow> int \<Rightarrow> stored_compute_epoch list \<Rightarrow> overage_consent_row list
    \<Rightarrow> close_step res" where
  "charge_of userId subscriptionId periodStart periodEnd now allowance epochs decisions =
     rbind (consent_loop (periodStart div 1000) (periodEnd div 1000) [] 0 decisions) (\<lambda>(ivs, cap).
     if ivs = [] then Inr (Close_done (Close_skipped Skip_overage_disabled))
     else rbind (isoSeconds (periodStart div 1000)) (\<lambda>_. rbind (isoSeconds (now div 1000)) (\<lambda>_.
     rbind (billable_std (over_until epochs (periodStart div 1000) (now div 1000) allowance) ivs 0) (\<lambda>billable.
     let cents = min (billable div STD_SECONDS_PER_OVERAGE_CENT) cap in
     Inr (if cents = 0 then Close_done (Close_skipped Skip_nothing_to_bill)
          else Close_charge \<lparr>oi_userId = userId, oi_subscriptionId = subscriptionId, oi_periodStart = Some periodStart,
                 oi_periodEnd = Some periodEnd, oi_ratingVersion = OVERAGE_RATING_VERSION,
                 oi_stdSecondsOver = billable, oi_cents = cents\<rparr>)))))"

definition rate_closed :: "string \<Rightarrow> string \<Rightarrow> int \<Rightarrow> grant_row \<Rightarrow> (db, close_step) prog" where
  "rate_closed userId subscriptionId now period =
     (let periodStart = grant_start period; periodEnd = grant_end period in
      sbind (grantsForPeriod userId \<lparr>w_start = Some periodStart, w_end = Some periodEnd\<rparr> [GRANT_METER_COMPUTE]) (\<lambda>gs.
      let grants = grants_inside subscriptionId periodStart periodEnd gs;
          allowance = max 0 (sum_list (map g_amount grants))
      in if g_amount period \<noteq> po_allowanceStdSeconds (CATALOG_V2 Compute_monthly_v2) \<and>
            \<not> (\<exists>g \<in> set grants. g_kind g = Upgrade_prorated)
         then sreturn (Close_done (Close_skipped Skip_not_compute))
         else if \<not> is_safe_integer allowance then sthrow RangeError
         else sbind (epochsFor userId (Some periodStart)) (\<lambda>epochs.
              sbind (consentDecisionsForPeriod userId subscriptionId (Some periodStart) (Some periodEnd)) (\<lambda>decisions.
                slift (charge_of userId subscriptionId periodStart periodEnd now allowance epochs decisions)))))"

definition prepareOverage :: "string \<Rightarrow> string option \<Rightarrow> jsdate \<Rightarrow> (db, close_step) prog" where
  "prepareOverage userId subscriptionId now =
     sbind (subscriptionsFor userId) (\<lambda>subs.
     case chosen_subscription subscriptionId subs of
       None \<Rightarrow> sreturn (Close_done (Close_skipped Skip_not_found))
     | Some sub \<Rightarrow>
         sbind (openPaymentIssues userId) (\<lambda>issues.
         sbind (overageInvoicesFor userId) (\<lambda>invoices.
         sbind (grantsForPeriod userId \<lparr>w_start = (case now of None \<Rightarrow> None | Some n \<Rightarrow> new_Date (n - 70 * 24 * 3600 * 1000)),
                  w_end = now\<rparr> [GRANT_METER_COMPUTE]) (\<lambda>recent.
         case now of None \<Rightarrow> sreturn (Close_done (Close_skipped Skip_no_closed_period)) | Some n \<Rightarrow>
         (case last_closed (sub_id sub) n recent of
            None \<Rightarrow> sreturn (Close_done (Close_skipped Skip_no_closed_period))
          | Some period \<Rightarrow>
              (case existing_invoice (sub_id sub) (grant_start period) invoices of
                 Some i \<Rightarrow> sreturn (Close_done (Close_exists i))
               | None \<Rightarrow>
                   if hasOveragePaymentFailure (Some (sub_id sub)) issues invoices
                   then sreturn (Close_done (Close_skipped Skip_overage_disabled))
                   else rate_closed userId (sub_id sub) n period))))))"

subsection \<open>The job\<close>

type_synonym 'w usage_port = "overage_request \<Rightarrow> (string \<Rightarrow> (db \<times> 'w, unit) prog) \<Rightarrow> (db \<times> 'w, close_result) prog"

definition charge_row :: "'w usage_port \<Rightarrow> string \<Rightarrow> string \<Rightarrow> jsdate \<Rightarrow> overage_invoice_row \<Rightarrow> (db \<times> 'w, close_result) prog" where
  "charge_row usage userId subscriptionId now row =
     (if oi_stripeInvoiceId row \<noteq> None \<and> oi_status row \<noteq> OI_pending
      then sreturn (Close_exists (the (oi_stripeInvoiceId row)))
      else sbind (on_db (stripeCustomerFor userId)) (\<lambda>customer.
        case customer of
          None \<Rightarrow> sreturn (Close_skipped Skip_no_customer)
        | Some customerId \<Rightarrow>
            sbind (usage \<lparr>or_customerId = customerId, or_subscriptionId = subscriptionId, or_periodStart = oi_periodStart row,
                or_periodEnd = oi_periodEnd row, or_ratingVersion = oi_ratingVersion row, or_cents = oi_cents row,
                or_overageEnabled = True, or_now = now, or_existingInvoiceId = oi_stripeInvoiceId row\<rparr>
              (\<lambda>invoiceId. on_db (attachOverageStripeInvoice (oi_id row) invoiceId))) (\<lambda>result.
            sbind (case result of Close_invoiced i _ _ \<Rightarrow> on_db (markOverageInvoiceOpen i) | _ \<Rightarrow> sreturn ()) (\<lambda>_.
              sreturn result))))"

definition closePeriodAndInvoiceOverage :: "'w usage_port \<Rightarrow> string \<Rightarrow> string option \<Rightarrow> jsdate \<Rightarrow> (db \<times> 'w, close_result) prog" where
  "closePeriodAndInvoiceOverage usage userId subscriptionId now =
     sbind (on_db (prepareOverage userId subscriptionId now)) (\<lambda>step. case step of
       Close_done r \<Rightarrow> sreturn r
     | Close_charge oi \<Rightarrow>
         sbind (on_db (upsertOverageInvoice oi)) (\<lambda>(_, row).
           charge_row usage userId (oi_subscriptionId oi) now row))"

subsection \<open>Lemmas: consented intervals\<close>

text \<open>Intervals in order, without overlap, from \<open>lo\<close> to \<open>hi\<close>.\<close>

fun chain :: "int \<Rightarrow> (int \<times> int) list \<Rightarrow> int \<Rightarrow> bool" where
  "chain lo [] hi \<longleftrightarrow> lo \<le> hi"
| "chain lo ((a, b) # ivs) hi \<longleftrightarrow> lo \<le> a \<and> a < b \<and> chain b ivs hi"

lemma chain_le: "chain lo ivs hi \<Longrightarrow> lo \<le> hi"
  by (induction lo ivs hi rule: chain.induct) auto

lemma chain_append: "chain lo (xs @ [(a, b)]) b \<longleftrightarrow> chain lo xs a \<and> a < b"
  by (induction xs arbitrary: lo) auto

lemma chain_hi_mono: "chain lo ivs hi \<Longrightarrow> hi \<le> hi' \<Longrightarrow> chain lo ivs hi'"
  by (induction lo ivs hi rule: chain.induct) auto

lemma chain_last: "chain lo (xs @ [(a, b)]) hi \<Longrightarrow> chain lo xs a \<and> a < b \<and> b \<le> hi"
  by (induction xs arbitrary: lo) auto

lemma chain_add_interval:
  assumes "chain lo ivs hi" and "hi \<le> a" and "a < b"
  shows "chain lo (add_interval ivs a b) b"
proof (cases "ivs \<noteq> [] \<and> snd (last ivs) = a")
  case True
  then obtain xs s where x: "ivs = xs @ [(s, a)]" by (metis append_butlast_last_id prod.collapse)
  then have "chain lo xs s \<and> s < b" using chain_last [of lo xs s a hi] assms by auto
  then show ?thesis using x by (simp add: add_interval_def chain_append)
next
  case False
  then show ?thesis using chain_hi_mono [OF assms(1,2)] assms(3) by (auto simp: add_interval_def chain_append)
qed

lemma add_interval_nonempty [simp]: "add_interval ivs a b \<noteq> []"
  by (simp add: add_interval_def)

definition accepted_s :: "overage_consent_row \<Rightarrow> int" where
  "accepted_s d = (case oc_acceptedAt d of None \<Rightarrow> 0 | Some ms \<Rightarrow> ms div 1000)"

text \<open>A decision that supplies the cap: in force before the end of the period.\<close>

definition supplies_cap :: "int \<Rightarrow> overage_consent_row list \<Rightarrow> int \<Rightarrow> bool" where
  "supplies_cap endS ds cap \<longleftrightarrow> (\<exists>d \<in> set ds. current_consent d \<and> accepted_s d < endS \<and> cap = oc_capCents d)"

lemma consent_loop_chain:
  assumes "consent_loop startS endS ivs cap ds = Inr (ivs', cap')"
    and "sorted (map accepted_s ds)" and "\<forall>d \<in> set ds. oc_acceptedAt d \<noteq> None"
    and "chain startS ivs hi" and "hi \<le> max startS endS" and "\<forall>d \<in> set ds. hi \<le> max startS (accepted_s d)"
  shows "(\<exists>hi' \<le> max startS endS. chain startS ivs' hi') \<and>
     (ivs' = ivs \<and> cap' = cap \<or> ivs' \<noteq> [] \<and> supplies_cap endS ds cap')"
  using assms
proof (induction ds arbitrary: ivs cap hi)
  case Nil
  then show ?case by auto
next
  case (Cons d ds)
  have v: "oc_acceptedAt d \<noteq> None" "\<forall>d \<in> set ds. oc_acceptedAt d \<noteq> None" "sorted (map accepted_s ds)"
    "\<forall>e \<in> set ds. accepted_s d \<le> accepted_s e" using Cons.prems(2,3) by auto
  have acc: "epochSeconds (oc_acceptedAt d) RFloor = Inr (accepted_s d)" using v(1) by (auto simp: accepted_s_def)
  have mono: "supplies_cap endS ds c \<Longrightarrow> supplies_cap endS (d # ds) c" for c by (auto simp: supplies_cap_def)
  show ?case
  proof (cases "current_consent d")
    case False
    then have l: "consent_loop startS endS ivs cap ds = Inr (ivs', cap')" using Cons.prems(1) by simp
    show ?thesis using Cons.IH [OF l v(3,2) Cons.prems(4,5)] Cons.prems(6) mono by auto
  next
    case True
    define n where "n = (case ds of [] \<Rightarrow> endS | e # _ \<Rightarrow> accepted_s e)"
    have nx: "(case ds of [] \<Rightarrow> Inr endS | e # _ \<Rightarrow> epochSeconds (oc_acceptedAt e) RFloor) = Inr n"
      using v(2) by (cases ds) (auto simp: n_def accepted_s_def)
    have nle: "\<forall>e \<in> set ds. n \<le> accepted_s e" using v(3) by (cases ds) (auto simp: n_def)
    let ?a = "max startS (accepted_s d)" and ?b = "min endS n"
    have hi: "hi \<le> ?a" using Cons.prems(6) by simp
    show ?thesis
    proof (cases "?b \<le> ?a")
      case le: True
      have "consent_loop startS endS ivs cap ds = Inr (ivs', cap')"
        using Cons.prems(1) True acc nx le by (simp add: Let_def)
      from Cons.IH [OF this v(3,2) Cons.prems(4,5)] Cons.prems(6) mono show ?thesis by auto
    next
      case False
      have l: "consent_loop startS endS (add_interval ivs ?a ?b) (oc_capCents d) ds = Inr (ivs', cap')"
        using Cons.prems(1) True acc nx False by (simp add: Let_def)
      have c: "chain startS (add_interval ivs ?a ?b) ?b"
        by (rule chain_add_interval [OF Cons.prems(4) hi]) (use False in linarith)
      have sup: "supplies_cap endS (d # ds) (oc_capCents d)"
        using True False by (auto simp: supplies_cap_def)
      have "?b \<le> max startS endS" "\<forall>e \<in> set ds. ?b \<le> max startS (accepted_s e)" using nle by fastforce+
      from Cons.IH [OF l v(3,2) c this] sup mono show ?thesis by auto
    qed
  qed
qed

text \<open>Summing a cumulative measure over such intervals never counts more than the whole.\<close>

lemma billable_chain:
  assumes "billable_std over ivs acc = Inr t" and "chain lo ivs hi"
    and val: "\<And>a x. over a = Inr x \<Longrightarrow> x = f a" and mono: "\<And>a b. a \<le> b \<Longrightarrow> f a \<le> f b"
  shows "acc \<le> t \<and> t \<le> acc + f hi - f lo"
  using assms(1,2)
proof (induction ivs arbitrary: lo acc)
  case Nil
  then show ?case using mono [of lo hi] by auto
next
  case (Cons p ivs)
  obtain a b where p: "p = (a, b)" by (cases p)
  have o: "billable_std over ivs (acc + f b - f a) = Inr t" using Cons.prems(1) p val by auto
  have c: "lo \<le> a" "a < b" "chain b ivs hi" using Cons.prems(2) p by auto
  then show ?case using Cons.IH [OF o c(3)] mono [of lo a] mono [of a b] by linarith
qed

text \<open>Standard seconds above the allowance, used between two instants of the period.\<close>

definition std_over :: "stored_compute_epoch list \<Rightarrow> int \<Rightarrow> int \<Rightarrow> int \<Rightarrow> int \<Rightarrow> int" where
  "std_over epochs startS nowS allowance stop =
     max 0 (sum_list (map (std_span (Some SESSION_MAX_SECONDS) startS stop nowS) epochs) - allowance)"

lemma over_until_Inr:
  assumes "over_until epochs startS nowS allowance stop = Inr x"
  shows "x = std_over epochs startS nowS allowance stop"
proof -
  from assms obtain a n b u where r: "isoSeconds startS = Inr a" "isoSeconds nowS = Inr n" "isoSeconds stop = Inr b"
      "rateWindow epochs \<lparr>w_start = a, w_end = b\<rparr> n None None = Inr u" "x = max 0 (wu_stdSeconds u - allowance)"
    by (auto simp: over_until_def)
  then have abn: "a = Some (startS * 1000)" "n = Some (nowS * 1000)" "b = Some (stop * 1000)" by (simp_all add: isoSeconds_Inr)
  have "wu_stdSeconds u = sum_list (map (std_span (Some SESSION_MAX_SECONDS) startS stop nowS) epochs)"
    using rateWindow_sumD [OF r(4) [unfolded abn]] by (simp add: session_bound_def)
  then show ?thesis using r(5) by (simp add: std_over_def)
qed

lemma std_over_mono: "a \<le> b \<Longrightarrow> std_over epochs s n al a \<le> std_over epochs s n al b"
proof -
  assume "a \<le> b"
  then have "std_span cap s a n e \<le> std_span cap s b n e" for cap and e :: stored_compute_epoch
    unfolding std_span_def by (intro mult_right_mono epoch_span_mono_stop) (auto intro: less_imp_le)
  then show ?thesis unfolding std_over_def by (intro max.mono diff_right_mono sum_list_map_mono) auto
qed

lemma std_over_nonneg [simp]: "0 \<le> std_over epochs s n al a"
  by (simp add: std_over_def)

subsection \<open>Lemmas: what is charged\<close>

lemma charge_of_charge:
  assumes "charge_of u sid ps pe now al epochs ds = Inr (Close_charge oi)"
    and "sorted (map accepted_s ds)" and "\<forall>d \<in> set ds. oc_acceptedAt d \<noteq> None \<and> 0 \<le> oc_capCents d" and "ps \<le> pe"
  shows "oi_stdSecondsOver oi \<le> std_over epochs (ps div 1000) (now div 1000) al (pe div 1000) \<and>
    0 < oi_cents oi \<and> oi_cents oi * STD_SECONDS_PER_OVERAGE_CENT \<le> oi_stdSecondsOver oi \<and>
    (\<exists>cap. supplies_cap (pe div 1000) ds cap \<and> oi_cents oi \<le> cap) \<and>
    oi_userId oi = u \<and> oi_subscriptionId oi = sid \<and> oi_periodStart oi = Some ps \<and> oi_periodEnd oi = Some pe \<and>
    oi_ratingVersion oi = OVERAGE_RATING_VERSION"
proof -
  let ?s = "ps div 1000" and ?e = "pe div 1000"
  let ?over = "over_until epochs ?s (now div 1000) al" and ?f = "std_over epochs ?s (now div 1000) al"
  from assms(1) obtain ivs cap billable where
    l: "consent_loop ?s ?e [] 0 ds = Inr (ivs, cap)" and ne: "ivs \<noteq> []"
    and bl: "billable_std ?over ivs 0 = Inr billable"
    and c: "min (billable div STD_SECONDS_PER_OVERAGE_CENT) cap \<noteq> 0"
    and oi: "oi = \<lparr>oi_userId = u, oi_subscriptionId = sid, oi_periodStart = Some ps, oi_periodEnd = Some pe,
        oi_ratingVersion = OVERAGE_RATING_VERSION, oi_stdSecondsOver = billable,
        oi_cents = min (billable div STD_SECONDS_PER_OVERAGE_CENT) cap\<rparr>"
    by (auto simp: charge_of_def Let_def split: if_split_asm)
  have se: "?s \<le> ?e" using assms(4) by (rule zdiv_mono1) simp
  have dates: "\<forall>d \<in> set ds. oc_acceptedAt d \<noteq> None" using assms(3) by blast
  from consent_loop_chain [OF l assms(2) dates, of ?s] se ne obtain hi where
    ch: "hi \<le> ?e" "chain ?s ivs hi" "supplies_cap ?e ds cap" by auto
  have "0 \<le> billable \<and> billable \<le> 0 + ?f hi - ?f ?s"
    using billable_chain [OF bl ch(2), of ?f] over_until_Inr std_over_mono by blast
  moreover have "?f hi \<le> ?f ?e" using std_over_mono [OF ch(1)] .
  ultimately have b: "0 \<le> billable" "billable \<le> ?f ?e" using std_over_nonneg [of epochs ?s "now div 1000" al ?s] by linarith+
  have cap: "0 \<le> cap" using ch(3) assms(3) by (auto simp: supplies_cap_def)
  have q: "0 \<le> billable div STD_SECONDS_PER_OVERAGE_CENT" "billable div STD_SECONDS_PER_OVERAGE_CENT * STD_SECONDS_PER_OVERAGE_CENT \<le> billable"
    using b(1) by (auto simp: billing_consts pos_imp_zdiv_nonneg_iff div_mult_le_int)
  have "min (billable div STD_SECONDS_PER_OVERAGE_CENT) cap * STD_SECONDS_PER_OVERAGE_CENT \<le> billable"
    using q(2) mult_right_mono [of "min (billable div STD_SECONDS_PER_OVERAGE_CENT) cap" "billable div STD_SECONDS_PER_OVERAGE_CENT" STD_SECONDS_PER_OVERAGE_CENT]
    by (simp add: billing_consts)
  then show ?thesis using b ch(3) c cap q(1) oi by auto
qed

text \<open>The store answers the decisions sorted, of that user and subscription only.\<close>

lemma consent_decisions:
  assumes "consentDecisionsForPeriod u sid (Some a) (Some b) d = (Inr ds, d')" and "db_inv d"
  shows "d' = d \<and> set ds \<subseteq> set (consents_of u sid d) \<and> sorted (map accepted_s ds) \<and> (\<forall>c \<in> set ds. consent_ok c)"
proof -
  let ?key = "\<lambda>r. case oc_acceptedAt r of None \<Rightarrow> 0 | Some ms \<Rightarrow> ms"
  from assms(1) obtain P where ds: "d' = d" "ds = sort_key ?key (sort_key oc_id (filter P (consents_of u sid d)))"
    by (auto simp: consentDecisionsForPeriod_def send_dates_def Let_def)
  have "accepted_s = (\<lambda>r. ?key r div 1000)" by (auto simp: accepted_s_def fun_eq_iff split: option.split)
  moreover have "sorted (map ?key ds)" by (simp add: ds(2))
  then have "sorted (map (\<lambda>r. ?key r div 1000) ds)"
    by (simp add: sorted_map) (erule sorted_wrt_mono_rel [rotated], simp add: zdiv_mono1)
  moreover have "set ds \<subseteq> set (consents_of u sid d)" by (auto simp: ds(2))
  ultimately show ?thesis using ds(1) assms(2) by (auto simp: consents_of_def db_inv_def)
qed

lemma grants_read:
  assumes "grantsForPeriod u w meters d = (Inr gs, d')"
  shows "d' = d \<and> set gs \<subseteq> {g \<in> set (db_grants d). g_userId g = u}"
  using assms by (auto simp: grantsForPeriod_def send_dates_def split: if_split_asm)

lemma epochs_read: "epochsFor u since d = (r, d') \<Longrightarrow> d' = d"
  by (auto simp: epochsFor_def compute_epochs_def sbind_def split: sum.splits)

lemma closed_grant_dates:
  "closed_grant sid now g \<Longrightarrow> g_periodStart g = Some (Some (grant_start g)) \<and> g_periodEnd g = Some (Some (grant_end g)) \<and>
     grant_start g < grant_end g \<and> grant_end g + 3600000 \<le> now \<and> compute_grant_of sid g \<and> g_kind g = Plan_period"
  by (auto simp: closed_grant_def grant_start_def grant_end_def OVERAGE_GRACE_SECONDS_def split: option.splits)

lemma rate_closed_charge:
  assumes r: "rate_closed u sid now period d = (Inr (Close_charge oi), d')" and "db_inv d" and "grant_start period < grant_end period"
  obtains epochs ds gs where "d' = d" "epochsFor u (Some (grant_start period)) d = (Inr epochs, d)"
    "consentDecisionsForPeriod u sid (Some (grant_start period)) (Some (grant_end period)) d = (Inr ds, d)"
    "grantsForPeriod u \<lparr>w_start = Some (grant_start period), w_end = Some (grant_end period)\<rparr> [GRANT_METER_COMPUTE] d = (Inr gs, d)"
    "charge_of u sid (grant_start period) (grant_end period) now
       (max 0 (sum_list (map g_amount (grants_inside sid (grant_start period) (grant_end period) gs)))) epochs ds = Inr (Close_charge oi)"
proof -
  from r obtain gs d1 where gs: "grantsForPeriod u \<lparr>w_start = Some (grant_start period), w_end = Some (grant_end period)\<rparr> [GRANT_METER_COMPUTE] d = (Inr gs, d1)"
    by (auto simp: rate_closed_def Let_def dest!: sbind_eq_InrD)
  have d1: "d1 = d" using grants_read [OF gs] by simp
  let ?al = "max 0 (sum_list (map g_amount (grants_inside sid (grant_start period) (grant_end period) gs)))"
  have "sbind (epochsFor u (Some (grant_start period))) (\<lambda>epochs.
         sbind (consentDecisionsForPeriod u sid (Some (grant_start period)) (Some (grant_end period))) (\<lambda>decisions.
           slift (charge_of u sid (grant_start period) (grant_end period) now ?al epochs decisions))) d = (Inr (Close_charge oi), d')"
    using r gs d1 by (simp add: rate_closed_def Let_def split: if_split_asm)
  then obtain epochs d2 ds d3 where e: "epochsFor u (Some (grant_start period)) d = (Inr epochs, d2)"
      "consentDecisionsForPeriod u sid (Some (grant_start period)) (Some (grant_end period)) d2 = (Inr ds, d3)"
      "charge_of u sid (grant_start period) (grant_end period) now ?al epochs ds = Inr (Close_charge oi)" "d' = d3"
    by (fastforce dest!: sbind_eq_InrD)
  have "d2 = d" using epochs_read [OF e(1)] .
  moreover from this have "d3 = d" using consent_decisions e(2) assms(2) by blast
  ultimately show thesis using that e gs d1 by blast
qed

abbreviation recent_window :: "int \<Rightarrow> window" where
  "recent_window now \<equiv> \<lparr>w_start = new_Date (now - 70 * 24 * 3600 * 1000), w_end = Some now\<rparr>"

lemma prepareOverage_charge:
  assumes "prepareOverage u sub (Some now) d = (Inr (Close_charge oi), d')"
  obtains subs s period recent issues invoices where "subscriptionsFor u d = (Inr subs, d)" "chosen_subscription sub subs = Some s"
    "grantsForPeriod u (recent_window now) [GRANT_METER_COMPUTE] d = (Inr recent, d)"
    "last_closed (sub_id s) now recent = Some period" "rate_closed u (sub_id s) now period d = (Inr (Close_charge oi), d')"
    "openPaymentIssues u d = (Inr issues, d)" "overageInvoicesFor u d = (Inr invoices, d)"
    "\<not> hasOveragePaymentFailure (Some (sub_id s)) issues invoices"
proof -
  obtain subs where subs: "subscriptionsFor u d = (Inr subs, d)" by (simp add: subscriptionsFor_def)
  obtain issues where iss: "openPaymentIssues u d = (Inr issues, d)" by (simp add: openPaymentIssues_def)
  obtain invoices where iv: "overageInvoicesFor u d = (Inr invoices, d)" by (simp add: overageInvoicesFor_def)
  obtain s where s: "chosen_subscription sub subs = Some s"
    using assms subs by (cases "chosen_subscription sub subs") (auto simp: prepareOverage_def)
  let ?w = "recent_window now"
  have r: "sbind (grantsForPeriod u ?w [GRANT_METER_COMPUTE]) (\<lambda>recent. case last_closed (sub_id s) now recent of
            None \<Rightarrow> sreturn (Close_done (Close_skipped Skip_no_closed_period))
          | Some period \<Rightarrow>
              (case existing_invoice (sub_id s) (grant_start period) invoices of
                 Some i \<Rightarrow> sreturn (Close_done (Close_exists i))
               | None \<Rightarrow>
                   if hasOveragePaymentFailure (Some (sub_id s)) issues invoices
                   then sreturn (Close_done (Close_skipped Skip_overage_disabled))
                   else rate_closed u (sub_id s) now period)) d = (Inr (Close_charge oi), d')"
    using assms subs iss iv s by (simp add: prepareOverage_def)
  then obtain recent d1 where g: "grantsForPeriod u ?w [GRANT_METER_COMPUTE] d = (Inr recent, d1)"
    by (auto dest!: sbind_eq_InrD)
  have rec: "d1 = d" using grants_read [OF g] by auto
  from r g rec obtain period where "last_closed (sub_id s) now recent = Some period"
      "\<not> hasOveragePaymentFailure (Some (sub_id s)) issues invoices"
      "rate_closed u (sub_id s) now period d = (Inr (Close_charge oi), d')"
    by (auto split: option.split_asm if_split_asm)
  then show thesis using that subs s g rec iss iv by blast
qed

subsection \<open>Properties\<close>


subsection \<open>Lemmas: a charged period\<close>

lemma on_db_simp [simp]: "on_db m (d, w) = (fst (m d), (snd (m d), w))"
  by (simp add: on_db_def split: prod.split)

lemma on_ext_simp [simp]: "on_ext m (d, w) = (fst (m w), (d, snd (m w)))"
  by (simp add: on_ext_def split: prod.split)

lemma sbind_on_db: "sbind (on_db m) f (d, w) = (case m d of (Inl e, d') \<Rightarrow> (Inl e, (d', w)) | (Inr x, d') \<Rightarrow> f x (d', w))"
  by (cases "m d") (simp add: sbind_def split: sum.split)

lemma sbind_on_ext: "sbind (on_ext m) f (d, w) = (case m w of (Inl e, w') \<Rightarrow> (Inl e, (d, w')) | (Inr x, w') \<Rightarrow> f x (d, w'))"
  by (cases "m w") (simp add: sbind_def split: sum.split)

text \<open>What the processor's documentation promises of the two calls that name an invoice: they answer it.\<close>

definition answers_named_invoice :: "'w billing_api \<Rightarrow> bool" where
  "answers_named_invoice api \<longleftrightarrow>
     (\<forall>x k w v w'. ba_finalize api x k w = (Inr v, w') \<longrightarrow> iv_id v = x) \<and>
     (\<forall>x w v w'. ba_getInvoice api x w = (Inr v, w') \<longrightarrow> iv_id v = x)"

lemma answers_finalize: "answers_named_invoice api \<Longrightarrow> ba_finalize api x k w = (Inr v, w') \<Longrightarrow> iv_id v = x"
  and answers_get: "answers_named_invoice api \<Longrightarrow> ba_getInvoice api x w = (Inr v, w') \<Longrightarrow> iv_id v = x"
  unfolding answers_named_invoice_def by blast+

lemma add_overage_line_db: "add_overage_line api i key v (d, w) = (r, (d', w')) \<Longrightarrow> d' = d"
  by (auto simp: add_overage_line_def sbind_on_ext split: if_split_asm prod.split_asm sum.split_asm)

lemma finish_overage_Inr:
  assumes "finish_overage api i key v (d, w) = (Inr r, (d', w'))" and "answers_named_invoice api"
  shows "d' = d \<and> (\<exists>st url. r = Close_invoiced (iv_id v) st url)"
proof (cases "iv_status v = ''draft''")
  case False
  with assms(1) show ?thesis by (auto simp: finish_overage_def invoiced_def)
next
  case True
  with assms(1) obtain x d1 w1 where a: "add_overage_line api i key v (d, w) = (Inr x, (d1, w1))"
      "sbind (on_ext (ba_finalize api (iv_id v) (key @ '':finalize''))) (\<lambda>done. sreturn (invoiced done)) (d1, w1) = (Inr r, (d', w'))"
    by (auto simp: finish_overage_def dest!: sbind_eq_InrD)
  have "d1 = d" by (rule add_overage_line_db [OF a(1)])
  with a(2) assms(2) show ?thesis
    by (auto simp: sbind_on_ext invoiced_def dest: answers_finalize split: prod.split_asm sum.split_asm)
qed

lemma invoiceOverage_invoiced:
  assumes "invoiceOverage api i hook (d, w) = (Inr (Close_invoiced v st url), (d', w'))" and "answers_named_invoice api"
  shows "(or_existingInvoiceId i = Some v \<and> d' = d) \<or>
     (or_existingInvoiceId i \<in> {None, Some []} \<and> (\<exists>w1 w2. hook v (d, w1) = (Inr (), (d', w2))))"
proof -
  let ?k = "overageIdempotencyKey (or_subscriptionId i) (or_periodStart i) (or_ratingVersion i)"
  have el: "overageEligibility (or_overageEnabled i) (or_cents i) (or_periodEnd i) (or_now i) = None"
    using assms(1) by (auto simp: invoiceOverage_def split: option.split_asm)
  show ?thesis
  proof (cases "\<exists>c cs. or_existingInvoiceId i = Some (c # cs)")
    case True
    then obtain c cs where c: "or_existingInvoiceId i = Some (c # cs)" by blast
    with assms(1) el obtain x w1 where g: "ba_getInvoice api (c # cs) w = (Inr x, w1)"
        "finish_overage api i ?k x (d, w1) = (Inr (Close_invoiced v st url), (d', w'))"
      by (auto simp: invoiceOverage_def Let_def sbind_on_ext split: prod.split_asm sum.split_asm)
    have "iv_id x = c # cs" by (rule answers_get [OF assms(2) g(1)])
    then show ?thesis using finish_overage_Inr [OF g(2) assms(2)] c by auto
  next
    case False
    then have o: "or_existingInvoiceId i \<in> {None, Some []}" by (cases "or_existingInvoiceId i") (auto intro: list.exhaust)
    have r: "sbind (on_ext (ba_defaultPaymentMethod api (or_subscriptionId i))) (\<lambda>pm.
               sbind (on_ext (ba_createInvoice api i pm (?k @ '':invoice''))) (\<lambda>invoice.
               sbind (hook (iv_id invoice)) (\<lambda>_. finish_overage api i ?k invoice))) (d, w)
            = (Inr (Close_invoiced v st url), (d', w'))"
      using assms(1) el o by (auto simp: invoiceOverage_def Let_def)
    then obtain x w1 where x: "sbind (hook (iv_id x)) (\<lambda>_. finish_overage api i ?k x) (d, w1) = (Inr (Close_invoiced v st url), (d', w'))"
      by (auto simp: sbind_on_ext split: prod.split_asm sum.split_asm)
    then obtain d1 w2 where h: "hook (iv_id x) (d, w1) = (Inr (), (d1, w2))"
        "finish_overage api i ?k x (d1, w2) = (Inr (Close_invoiced v st url), (d', w'))"
      by (auto dest!: sbind_eq_InrD)
    from finish_overage_Inr [OF h(2) assms(2)] h(1) o show ?thesis by auto
  qed
qed

text \<open>The row of a charge: it has the key of the period.\<close>

definition charge_key :: "overage_invoice \<Rightarrow> overage_invoice_row \<Rightarrow> bool" where
  "charge_key oi r \<longleftrightarrow> oi_userId r = oi_userId oi \<and> oi_subscriptionId r = oi_subscriptionId oi \<and>
     oi_periodStart r = oi_periodStart oi \<and> oi_ratingVersion r = oi_ratingVersion oi"

text \<open>What the computation of a charge reads besides the overage invoices.\<close>

definition same_reads :: "db \<Rightarrow> db \<Rightarrow> bool" where
  "same_reads a b \<longleftrightarrow> db_subscriptions a = db_subscriptions b \<and> db_paymentIssues a = db_paymentIssues b \<and>
     db_grants a = db_grants b \<and> db_customers a = db_customers b"

lemma same_reads_trans: "same_reads a b \<Longrightarrow> same_reads b c \<Longrightarrow> same_reads a c"
  and same_reads_refl [simp]: "same_reads a a"
  by (auto simp: same_reads_def)

lemma overage_upsert_row:
  assumes "upsertOverageInvoice oi d = (Inr (b, row), d')"
  shows "row \<in> set (db_overageInvoices d') \<and> charge_key oi row \<and> same_reads d d' \<and>
    (row \<in> set (db_overageInvoices d) \<or> oi_stripeInvoiceId row = None \<and> oi_status row = OI_pending)"
proof -
  let ?d = "d\<lparr>db_next := Suc (db_next d)\<rparr>" and ?row = "overage_row (db_uuid d (db_next d)) oi"
  let ?key = "\<lambda>r. oi_userId r = oi_userId oi \<and> oi_subscriptionId r = oi_subscriptionId oi \<and>
             oi_periodStart r = oi_periodStart oi \<and> oi_ratingVersion r = oi_ratingVersion oi"
  have r: "(case insert_ignore overage_clash ?row (db_overageInvoices d) of
       (True, rows) \<Rightarrow> (Inr (True, ?row), ?d\<lparr>db_overageInvoices := rows\<rparr>)
     | (False, rows) \<Rightarrow> (case find ?key rows of
           Some r \<Rightarrow> (Inr (False, r), ?d)
         | None \<Rightarrow> (Inl (PlainError ''Overage invoice ownership conflict''), ?d))) = (Inr (b, row), d')"
    using assms by (simp add: upsertOverageInvoice_def send_dates_def sbind_def fresh_id_def split: if_split_asm)
  show ?thesis
  proof (cases "insert_ignore overage_clash ?row (db_overageInvoices d)")
    case (Pair ok rows)
    show ?thesis
    proof (cases ok)
      case True
      then have "rows = db_overageInvoices d @ [?row]" "row = ?row" "d' = ?d\<lparr>db_overageInvoices := rows\<rparr>"
        using Pair r by (auto simp: insert_ignore_def split: if_split_asm)
      then show ?thesis by (simp add: charge_key_def overage_row_def same_reads_def)
    next
      case False
      then have rows: "rows = db_overageInvoices d" using Pair by (auto simp: insert_ignore_def split: if_split_asm)
      with r Pair False have "find ?key (db_overageInvoices d) = Some row" "d' = ?d" by (auto split: option.split_asm)
      then show ?thesis using find_Some_iff_first [of ?key "db_overageInvoices d" row] by (simp add: charge_key_def same_reads_def)
    qed
  qed
qed

lemma attach_row:
  assumes "attachOverageStripeInvoice rid v d = (Inr (), d')" and "row \<in> set (db_overageInvoices d)" and "oi_id row = rid"
    and "oi_stripeInvoiceId row = None"
  shows "same_reads d d' \<and> row\<lparr>oi_stripeInvoiceId := Some v\<rparr> \<in> set (db_overageInvoices d')"
  using assms
  by (auto simp: attachOverageStripeInvoice_def Let_def same_reads_def mem_update_where split: if_split_asm intro!: bexI [of _ row])

lemma mark_open_row:
  assumes "row \<in> set (db_overageInvoices d)" and "oi_stripeInvoiceId row = Some v"
  shows "\<exists>d' r. markOverageInvoiceOpen v d = (Inr (), d') \<and> same_reads d d' \<and> r \<in> set (db_overageInvoices d') \<and>
     oi_stripeInvoiceId r = Some v \<and> oi_status r \<noteq> OI_pending \<and> (charge_key oi row \<longrightarrow> charge_key oi r)"
  using assms
  by (cases "oi_status row = OI_pending")
    (auto simp: markOverageInvoiceOpen_def same_reads_def mem_update_where charge_key_def
      intro!: exI [of _ "if oi_status row = OI_pending then row\<lparr>oi_status := OI_open\<rparr> else row"] bexI [of _ row])

lemma charge_row_invoiced:
  assumes "charge_row (invoiceOverage api) u sid now row (d, w) = (Inr (Close_invoiced v st url), (d', w'))"
    and "row \<in> set (db_overageInvoices d)" and "charge_key oi row" and "oi_stripeInvoiceId row \<noteq> Some []"
    and api: "answers_named_invoice api"
  shows "same_reads d d' \<and> (\<exists>r \<in> set (db_overageInvoices d'). charge_key oi r \<and> oi_stripeInvoiceId r = Some v \<and> oi_status r \<noteq> OI_pending)"
proof -
  let ?attach = "\<lambda>i. on_db (attachOverageStripeInvoice (oi_id row) i)"
  obtain c where c: "stripeCustomerFor u d = (Inr c, d)" by (simp add: stripeCustomerFor_def)
  from assms(1) c obtain customer where cu: "c = Some customer"
    by (auto simp: charge_row_def sbind_on_db split: if_split_asm option.split_asm)
  let ?req = "\<lparr>or_customerId = customer, or_subscriptionId = sid, or_periodStart = oi_periodStart row,
                or_periodEnd = oi_periodEnd row, or_ratingVersion = oi_ratingVersion row, or_cents = oi_cents row,
                or_overageEnabled = True, or_now = now, or_existingInvoiceId = oi_stripeInvoiceId row\<rparr>"
  from assms(1) c cu have "sbind (invoiceOverage api ?req ?attach) (\<lambda>result.
            sbind (case result of Close_invoiced i _ _ \<Rightarrow> on_db (markOverageInvoiceOpen i) | _ \<Rightarrow> sreturn ()) (\<lambda>_.
              sreturn result)) (d, w) = (Inr (Close_invoiced v st url), (d', w'))"
    by (simp add: charge_row_def sbind_on_db split: if_split_asm)
  then obtain res d2 w2 where r: "invoiceOverage api ?req ?attach (d, w) = (Inr res, (d2, w2))"
      "sbind (case res of Close_invoiced i _ _ \<Rightarrow> on_db (markOverageInvoiceOpen i) | _ \<Rightarrow> sreturn ()) (\<lambda>_. sreturn res) (d2, w2)
        = (Inr (Close_invoiced v st url), (d', w'))"
    by (auto dest!: sbind_eq_InrD)
  then have res: "res = Close_invoiced v st url" by (auto dest!: sbind_eq_InrD)
  have d': "markOverageInvoiceOpen v d2 = (Inr (), d')" using r(2) res
    by (auto simp: sbind_on_db markOverageInvoiceOpen_def)
  have "same_reads d d2 \<and> (\<exists>r2 \<in> set (db_overageInvoices d2). charge_key oi r2 \<and> oi_stripeInvoiceId r2 = Some v)"
    using invoiceOverage_invoiced [OF r(1) [unfolded res] api]
  proof
    assume "or_existingInvoiceId ?req = Some v \<and> d2 = d"
    then show ?thesis using assms(2,3) by auto
  next
    assume n: "or_existingInvoiceId ?req \<in> {None, Some []} \<and> (\<exists>w1 w2. ?attach v (d, w1) = (Inr (), (d2, w2)))"
    then have "oi_stripeInvoiceId row = None" using assms(4) by auto
    moreover have "attachOverageStripeInvoice (oi_id row) v d = (Inr (), d2)"
      using n by (cases "attachOverageStripeInvoice (oi_id row) v d") auto
    ultimately show ?thesis using attach_row [of "oi_id row" v d d2 row] assms(2,3)
      by (auto simp: charge_key_def intro!: bexI [of _ "row\<lparr>oi_stripeInvoiceId := Some v\<rparr>"])
  qed
  then obtain r2 where r2: "same_reads d d2" "r2 \<in> set (db_overageInvoices d2)" "charge_key oi r2" "oi_stripeInvoiceId r2 = Some v"
    by blast
  from mark_open_row [OF r2(2,4), of oi] d' r2(1,3) show ?thesis using same_reads_trans by fastforce
qed

lemma existing_of_row:
  assumes inv: "db_inv d" and r: "r \<in> set (db_overageInvoices d)" "oi_userId r = u" "oi_subscriptionId r = sid"
      "oi_periodStart r = Some ps" "oi_ratingVersion r = OVERAGE_RATING_VERSION" "oi_stripeInvoiceId r = Some (c # cs)" "oi_status r \<noteq> OI_pending"
    and iv: "overageInvoicesFor u d = (Inr invoices, d)"
  shows "existing_invoice sid ps invoices = Some (c # cs)"
proof -
  let ?P = "\<lambda>v. oi_subscriptionId v = sid \<and> oi_periodStart v = Some ps \<and> oi_ratingVersion v = OVERAGE_RATING_VERSION \<and>
       oi_stripeInvoiceId v \<noteq> None \<and> oi_status v \<noteq> OI_pending"
  have mem: "set invoices = {v \<in> set (db_overageInvoices d). oi_userId v = u}" using iv by (auto simp: overageInvoicesFor_def)
  then have "find ?P invoices \<noteq> None" using r by (auto simp: find_None_iff)
  then obtain v where v: "find ?P invoices = Some v" by blast
  then have "v \<in> set (db_overageInvoices d)" "?P v" using find_Some_iff_first [OF v] mem by auto
  then have "v = r" using overages.uniq_at_most_one [of "db_overageInvoices d" v r] inv r
    by (simp add: db_inv_def overage_clash_def)
  then show ?thesis using v r(6) by (simp add: existing_invoice_def)
qed

lemma prepare_exists:
  assumes p: "prepareOverage u sub (Some now) d = (Inr (Close_charge oi), d0)" and inv: "db_inv d" "db_inv d'" and same: "same_reads d d'"
    and r: "r \<in> set (db_overageInvoices d')" "charge_key oi r" "oi_stripeInvoiceId r = Some (c # cs)" "oi_status r \<noteq> OI_pending"
  shows "prepareOverage u sub (Some now) d' = (Inr (Close_done (Close_exists (c # cs))), d')"
proof -
  obtain subs s period recent issues invoices where
    q: "subscriptionsFor u d = (Inr subs, d)" "chosen_subscription sub subs = Some s"
      "grantsForPeriod u (recent_window now) [GRANT_METER_COMPUTE] d = (Inr recent, d)"
      "last_closed (sub_id s) now recent = Some period" "rate_closed u (sub_id s) now period d = (Inr (Close_charge oi), d0)"
      "openPaymentIssues u d = (Inr issues, d)" "overageInvoicesFor u d = (Inr invoices, d)"
      "\<not> hasOveragePaymentFailure (Some (sub_id s)) issues invoices"
    by (rule prepareOverage_charge [OF p])
  have mem: "closed_grant (sub_id s) now period" using q(4) pick_None_in unfolding last_closed_def by fastforce
  obtain epochs ds gs where e0: "d0 = d" "epochsFor u (Some (grant_start period)) d = (Inr epochs, d)"
    and e: "consentDecisionsForPeriod u (sub_id s) (Some (grant_start period)) (Some (grant_end period)) d = (Inr ds, d)"
    and gs: "grantsForPeriod u \<lparr>w_start = Some (grant_start period), w_end = Some (grant_end period)\<rparr> [GRANT_METER_COMPUTE] d = (Inr gs, d)"
    and e': "charge_of u (sub_id s) (grant_start period) (grant_end period) now
       (max 0 (sum_list (map g_amount (grants_inside (sub_id s) (grant_start period) (grant_end period) gs)))) epochs ds = Inr (Close_charge oi)"
    by (rule rate_closed_charge [OF q(5) inv(1)]) (use closed_grant_dates [OF mem] in blast)+
  have key: "oi_userId oi = u" "oi_subscriptionId oi = sub_id s" "oi_periodStart oi = Some (grant_start period)"
      "oi_ratingVersion oi = OVERAGE_RATING_VERSION"
    using e' by (auto simp: charge_of_def Let_def split: if_split_asm)
  have q': "subscriptionsFor u d' = (Inr subs, d')" "grantsForPeriod u (recent_window now) [GRANT_METER_COMPUTE] d' = (Inr recent, d')"
    using q(1,3) same by (auto simp: subscriptionsFor_def grantsForPeriod_def send_dates_def same_reads_def split: if_split_asm)
  obtain invoices' where iv: "overageInvoicesFor u d' = (Inr invoices', d')" by (simp add: overageInvoicesFor_def)
  obtain issues' where iss: "openPaymentIssues u d' = (Inr issues', d')" by (simp add: openPaymentIssues_def)
  have "existing_invoice (sub_id s) (grant_start period) invoices' = Some (c # cs)"
    by (rule existing_of_row [OF inv(2) r(1) _ _ _ _ r(3,4) iv]) (use r(2) key in \<open>simp_all add: charge_key_def\<close>)
  then show ?thesis using q(2,4) q' iv iss by (simp add: prepareOverage_def)
qed

text \<open>The job keeps the database's invariant, whatever the outside world does.\<close>

abbreviation fst_inv :: "db \<times> 'w \<Rightarrow> bool" where
  "fst_inv s \<equiv> db_inv (fst s)"

lemma preserves_on_db [billing_intros]: "preserves db_inv m \<Longrightarrow> preserves fst_inv (on_db m)"
  by (auto simp: preserves_def on_db_def split: prod.split)

lemma preserves_on_ext [billing_intros]: "preserves fst_inv (on_ext m)"
  by (auto simp: preserves_def on_ext_def split: prod.split)

lemma preserves_case_prod [billing_intros]:
  "(\<And>x y. preserves I (f x y)) \<Longrightarrow> preserves I (case p of (x, y) \<Rightarrow> f x y)"
  by (cases p) simp

lemma stripeCustomerFor_inv [billing_intros]: "preserves db_inv (stripeCustomerFor u)"
  by (simp add: stripeCustomerFor_def preserves_get)

lemma finish_overage_inv [billing_intros]: "preserves fst_inv (finish_overage api i key v)"
  unfolding finish_overage_def add_overage_line_def by (intro billing_intros)

lemma invoiceOverage_inv [billing_intros]:
  assumes "\<And>x. preserves fst_inv (hook x)"
  shows "preserves fst_inv (invoiceOverage api i hook)"
  unfolding invoiceOverage_def Let_def
  by (intro billing_intros assms)

lemma charge_row_inv [billing_intros]: "preserves fst_inv (charge_row (invoiceOverage api) u sid now row)"
proof -
  have "preserves fst_inv (case res of Close_invoiced i _ _ \<Rightarrow> on_db (markOverageInvoiceOpen i) | _ \<Rightarrow> sreturn ())"
    for res by (cases res) (auto intro: billing_intros)
  then show ?thesis unfolding charge_row_def by (intro billing_intros)
qed

lemma prepare_done:
  "prepareOverage u sub now d = (Inr (Close_done (Close_invoiced i st url)), d') \<Longrightarrow> False"
proof -
  have c: "charge_of u sid ps pe n al es ds = Inr (Close_done (Close_invoiced i st url)) \<Longrightarrow> False" for sid ps pe n al es ds
    by (auto simp: charge_of_def Let_def split: if_split_asm)
  have rc: "rate_closed u sid n period s = (Inr (Close_done (Close_invoiced i st url)), d') \<Longrightarrow> False" for sid n period s
    by (auto simp: rate_closed_def Let_def dest!: sbind_eq_InrD c split: if_split_asm)
  assume "prepareOverage u sub now d = (Inr (Close_done (Close_invoiced i st url)), d')"
  then show False
    by (auto simp: prepareOverage_def split: option.split_asm if_split_asm dest!: sbind_eq_InrD rc)
qed

lemma close_invoiced_charge:
  assumes "closePeriodAndInvoiceOverage usage u sub now (d, w) = (Inr (Close_invoiced i st url), (d', w'))"
  obtains oi d0 where "prepareOverage u sub now d = (Inr (Close_charge oi), d0)"
    "sbind (on_db (upsertOverageInvoice oi)) (\<lambda>(_, row).
        charge_row usage u (oi_subscriptionId oi) now row) (d0, w) = (Inr (Close_invoiced i st url), (d', w'))"
proof -
  obtain r d0 where r: "prepareOverage u sub now d = (r, d0)" by (cases "prepareOverage u sub now d")
  show thesis
  proof (cases r)
    case (Inl e)
    then show ?thesis using assms r by (simp add: closePeriodAndInvoiceOverage_def sbind_on_db)
  next
    case (Inr step)
    show ?thesis
    proof (cases step)
      case (Close_done res)
      then have "res = Close_invoiced i st url" using assms r Inr by (simp add: closePeriodAndInvoiceOverage_def sbind_on_db)
      then show ?thesis using prepare_done r Inr Close_done by blast
    next
      case (Close_charge oi)
      then show ?thesis using assms r Inr that by (simp add: closePeriodAndInvoiceOverage_def sbind_on_db)
    qed
  qed
qed

lemma prepare_charge_reads:
  assumes "prepareOverage u sub (Some now) d = (Inr (Close_charge oi), d')" and "db_inv d"
  shows "d' = d"
proof -
  obtain subs s period recent issues invoices where "subscriptionsFor u d = (Inr subs, d)" "chosen_subscription sub subs = Some s"
      "grantsForPeriod u (recent_window now) [GRANT_METER_COMPUTE] d = (Inr recent, d)"
    and p: "last_closed (sub_id s) now recent = Some period" "rate_closed u (sub_id s) now period d = (Inr (Close_charge oi), d')"
    and "openPaymentIssues u d = (Inr issues, d)" "overageInvoicesFor u d = (Inr invoices, d)"
      "\<not> hasOveragePaymentFailure (Some (sub_id s)) issues invoices"
    by (rule prepareOverage_charge [OF assms(1)])
  have "closed_grant (sub_id s) now period" using p(1) pick_None_in unfolding last_closed_def by fastforce
  then have "grant_start period < grant_end period" using closed_grant_dates by blast
  then show ?thesis by (rule rate_closed_charge [OF p(2) assms(2)])
qed



subsection \<open>A charged period\<close>

definition demo_sub :: subscription_upsert where
  "demo_sub = \<lparr>sub_id = ''sub_1'', sub_status = ''active'', sub_sku = ''compute_monthly_v2'', sub_periodStart = Some (Some 0),
     sub_periodEnd = Some (Some 10000000), sub_cancelAtPeriodEnd = False, su_userId = ''u'', su_stripeEventCreated = Some 0\<rparr>"

definition demo_plan_grant :: "GrantKind \<Rightarrow> string \<Rightarrow> grant_row" where
  "demo_plan_grant kind rid = \<lparr>g_userId = ''u'', g_meter = Compute_std_seconds, g_kind = kind, g_amount = 100,
     g_periodStart = Some (Some 0), g_periodEnd = Some (Some 10000000), g_sourceType = Src_invoice, g_sourceId = rid,
     g_subscriptionId = Some ''sub_1'', g_id = rid\<rparr>"

definition demo_consent :: overage_consent_row where
  "demo_consent = \<lparr>oc_userId = ''u'', oc_subscriptionId = ''sub_1'', oc_enabled = True, oc_capCents = 20,
     oc_termsVersion = OVERAGE_TERMS_VERSION, oc_catalogVersion = 2, oc_rateCentsPerStdHour = 25, oc_actor = ''user'',
     oc_acceptedAt = Some 5000000, oc_id = 0\<rparr>"

definition demo_used_epoch :: epoch_row where
  "demo_used_epoch = \<lparr>er_id = ''e'', er_userId = ''u'', er_computerId = ''c'', er_subscriptionId = None, er_size = Std_2,
     er_weight = 1, er_readyAt = 1000000, er_deadlineAt = None, er_lastHeartbeatAt = None, er_endedAt = Some 9000000,
     er_endReason = Some Session_max, er_overheadSeconds = 0\<rparr>"

definition demo_month :: db where
  "demo_month = (empty_db [(''c'', ''u'')] 20000000)\<lparr>db_subscriptions := [demo_sub],
     db_grants := [demo_plan_grant Plan_period ''a'', demo_plan_grant Upgrade_prorated ''b''], db_consents := [demo_consent],
     db_epochs := [demo_used_epoch], db_customers := [(''u'', ''cus_1'')]\<rparr>"

definition demo_charge :: overage_invoice where
  "demo_charge = \<lparr>oi_userId = ''u'', oi_subscriptionId = ''sub_1'', oi_periodStart = Some 0, oi_periodEnd = Some 10000000,
     oi_ratingVersion = 1, oi_stdSecondsOver = 4000, oi_cents = 20\<rparr>"

lemma demo_month_inv: "db_inv demo_month"
  using empty_db_inv [of "[(''c'', ''u'')]" 20000000]
  by (simp add: db_inv_def demo_month_def empty_db_def demo_sub_def demo_plan_grant_def demo_consent_def demo_used_epoch_def
      uniq_def grant_clash_def sub_ok_def consent_ok_def epoch_ok_def)

lemma demo_epochs: "epochsFor ''u'' (Some 0) demo_month = (Inr [\<lparr>ce_id = ''e'', ce_userId = ''u'', ce_computerId = ''c'',
     ce_size = Std_2, ce_weight = 1, ce_readyAt = Some 1000000, ce_endedAt = Some (Some 9000000), ce_endReason = Some Session_max,
     ce_overheadSeconds = 0, se_deadlineAt = None, se_lastHeartbeatAt = None\<rparr>], demo_month)"
  by (simp add: epochsFor_def to_ts_def compute_epochs_def computeEpoch_def demo_month_def demo_used_epoch_def empty_db_def
      iso_ms_def iso_ms_opt_def iso_range_def ceil_div_def sbind_def)

lemma demo_decisions: "consentDecisionsForPeriod ''u'' ''sub_1'' (Some 0) (Some 10000000) demo_month = (Inr [demo_consent], demo_month)"
  by (simp add: consentDecisionsForPeriod_def send_dates_def demo_month_def empty_db_def consents_of_def demo_consent_def
      ts_lt_def ts_le_def Let_def)

lemma demo_grants:
  "grantsForPeriod ''u'' \<lparr>w_start = Some 0, w_end = Some 10000000\<rparr> [Compute_std_seconds] demo_month =
     (Inr [demo_plan_grant Plan_period ''a'', demo_plan_grant Upgrade_prorated ''b''], demo_month)"
  "grantsForPeriod ''u'' (recent_window 20000000) [Compute_std_seconds] demo_month =
     (Inr [demo_plan_grant Plan_period ''a'', demo_plan_grant Upgrade_prorated ''b''], demo_month)"
  by (simp_all add: grantsForPeriod_def send_dates_def demo_month_def empty_db_def demo_plan_grant_def ts_lt_def new_Date_def max_time_ms_def)

lemma demo_rated:
  "charge_of ''u'' ''sub_1'' 0 10000000 20000000 200 [\<lparr>ce_id = ''e'', ce_userId = ''u'', ce_computerId = ''c'',
     ce_size = Std_2, ce_weight = 1, ce_readyAt = Some 1000000, ce_endedAt = Some (Some 9000000), ce_endReason = Some Session_max,
     ce_overheadSeconds = 0, se_deadlineAt = None, se_lastHeartbeatAt = None\<rparr>] [demo_consent] = Inr (Close_charge demo_charge)"
  by (simp add: charge_of_def Let_def demo_consent_def current_consent_def add_interval_def over_until_def iso_range_def
      rate_eval empty_usage_def OVERAGE_CENTS_PER_STD_HOUR_def demo_charge_def OVERAGE_RATING_VERSION_def ceil_div_def)

lemma demo_closed: "last_closed ''sub_1'' 20000000 [demo_plan_grant Plan_period ''a'', demo_plan_grant Upgrade_prorated ''b''] = Some (demo_plan_grant Plan_period ''a'')"
  "grant_start (demo_plan_grant k i) = 0" "grant_end (demo_plan_grant k i) = 10000000" "g_amount (demo_plan_grant k i) = 100" "g_kind (demo_plan_grant k i) = k"
  by (simp_all add: last_closed_def closed_grant_def compute_grant_of_def demo_plan_grant_def OVERAGE_GRACE_SECONDS_def grant_start_def grant_end_def)

lemma demo_rate_closed:
  "rate_closed ''u'' ''sub_1'' 20000000 (demo_plan_grant Plan_period ''a'') demo_month = (Inr (Close_charge demo_charge), demo_month)"
proof -
  have "grants_inside ''sub_1'' 0 10000000 [demo_plan_grant Plan_period ''a'', demo_plan_grant Upgrade_prorated ''b''] =
      [demo_plan_grant Plan_period ''a'', demo_plan_grant Upgrade_prorated ''b'']"
    by (simp add: grants_inside_def compute_grant_of_def demo_plan_grant_def)
  then show ?thesis
    by (simp add: rate_closed_def demo_closed demo_grants demo_epochs demo_decisions demo_rated Let_def
        is_safe_integer_def max_safe_integer_def)
qed

lemma demo_charge_eval: "prepareOverage ''u'' (Some ''sub_1'') (Some 20000000) demo_month = (Inr (Close_charge demo_charge), demo_month)"
proof -
  obtain s where s: "subscriptionsFor ''u'' demo_month = (Inr [s], demo_month)" "sub_id s = ''sub_1''"
    by (simp add: subscriptionsFor_def demo_month_def demo_sub_def subscription_row.defs)
  have e: "openPaymentIssues ''u'' demo_month = (Inr [], demo_month)" "overageInvoicesFor ''u'' demo_month = (Inr [], demo_month)"
    by (simp_all add: openPaymentIssues_def overageInvoicesFor_def demo_month_def empty_db_def)
  show ?thesis
    using demo_grants(2) demo_closed(1) demo_rate_closed
    by (simp add: prepareOverage_def s e chosen_subscription_def existing_invoice_def hasOveragePaymentFailure_def)
qed


text \<open>A processor that answers every call: it keeps the number of line items added.\<close>

definition demo_api :: "nat billing_api" where
  "demo_api = \<lparr>ba_defaultPaymentMethod = (\<lambda>_ n. (Inr None, n)),
     ba_getInvoice = (\<lambda>x n. (Inr \<lparr>iv_id = x, iv_status = ''open'', iv_hostedUrl = None, iv_linePrices = []\<rparr>, n)),
     ba_createInvoice = (\<lambda>_ _ k n. (Inr \<lparr>iv_id = ''in_1'', iv_status = ''draft'', iv_hostedUrl = None, iv_linePrices = []\<rparr>, n)),
     ba_resolvePrice = (\<lambda>_ n. (Inr ''price_1'', n)),
     ba_createItem = (\<lambda>_ _ _ _ _ n. (Inr (), Suc n)),
     ba_finalize = (\<lambda>x k n. (Inr \<lparr>iv_id = x, iv_status = ''open'', iv_hostedUrl = None, iv_linePrices = []\<rparr>, n))\<rparr>"


end
