(* ===== verification/AI_Credits.thy ===== *)
theory AI_Credits
  imports Store_Props Texts
begin

text \<open>
  AI credit entitlements and the receipts that deliver, revoke and restore them
  (\<^verbatim>\<open>app/src/server/billing/ai-credits.ts\<close>, up to the reversal planner): the stable identifiers of a grant
  and of its events, their parsers, and the outbox items. An identifier is the key a delivery is
  deduplicated by, so the lemmas show that identifiers are read back exactly and that different causes never
  share one.
\<close>

definition AI_DAY :: int where [billing_consts]: "AI_DAY = 86400000"
definition AI_CREDIT_PROTOCOL :: string where "AI_CREDIT_PROTOCOL = ''ezil-ai-credits-v1''"
definition AI_CREDIT_POLICY_VERSION :: int where [billing_consts]: "AI_CREDIT_POLICY_VERSION = 1"

record ai_entitlement =
  ae_entitlementId :: string
  ae_credits :: int
  ae_expiresAt :: string

subsection \<open>Entitlements\<close>

record ai_grant_input =
  ag_userId :: string
  ag_sku :: PlanSkuV3
  ag_subscriptionId :: "string option"
  ag_periodStart :: jsdate
  ag_periodEnd :: "jsdate option"
  ag_invoiceId :: "string option"

text \<open>A missing text: null or empty.\<close>

definition blank :: "string option \<Rightarrow> bool" where
  "blank v \<longleftrightarrow> v = None \<or> v = Some []"

definition version_root :: string where
  "version_root = ''ezil-os:v'' @ show_int AI_CREDIT_POLICY_VERSION @ '':''"

definition expires_text :: "int \<Rightarrow> string res" where
  "expires_text ms = toISOString (new_Date ms)"

definition aiCreditEntitlement :: "ai_grant_input \<Rightarrow> ai_entitlement res" where
  "aiCreditEntitlement i =
     (let policy = o3_aiCredits (CATALOG_V3 (ag_sku i)) in
      case ag_periodStart i of None \<Rightarrow> Inl TypeError | Some start \<Rightarrow>
      if ag_userId i = [] then Inl TypeError
      else (case cg_per policy of
        Per_once \<Rightarrow> rbind (expires_text (start + 365 * AI_DAY)) (\<lambda>x.
          Inr \<lparr>ae_entitlementId = version_root @ ''free-once:'' @ ag_userId i, ae_credits = cg_amount policy, ae_expiresAt = x\<rparr>)
      | Per_period \<Rightarrow> (case (ag_subscriptionId i, ag_periodEnd i) of
          (Some sub, Some (Some stop)) \<Rightarrow>
            if sub = [] \<or> blank (ag_invoiceId i) \<or> stop \<le> start then Inl TypeError
            else rbind (expires_text (stop + 3 * AI_DAY)) (\<lambda>x.
              Inr \<lparr>ae_entitlementId = version_root @ sku3_string (ag_sku i) @ '':'' @ sub @ '':'' @ iso_string start,
                   ae_credits = cg_amount policy, ae_expiresAt = x\<rparr>)
        | _ \<Rightarrow> Inl TypeError)))"

definition is_word :: "char \<Rightarrow> bool" where
  "is_word c \<longleftrightarrow> is_digit c \<or> (CHR ''A'' \<le> c \<and> c \<le> CHR ''Z'') \<or> (CHR ''a'' \<le> c \<and> c \<le> CHR ''z'') \<or> c = CHR ''_''"

definition upgrade_prefix :: string where
  "upgrade_prefix = ''ezil-os:v1:premium_monthly_v3:''"

definition upgrade_suffix :: string where
  "upgrade_suffix = '':upgrade''"

text \<open>
  The two groups of \<^verbatim>\<open>UPGRADE_ENTITLEMENT\<close>. A word character is never a colon, so the first group
  is the longest run of word characters.
\<close>

definition match_upgrade :: "string \<Rightarrow> (string \<times> string) option" where
  "match_upgrade s =
     (if \<not> starts_with upgrade_prefix s then None
      else let rest = drop (length upgrade_prefix) s; sub = takeWhile is_word rest; tail = dropWhile is_word rest in
        if sub \<noteq> [] \<and> starts_with '':'' tail \<and> is_iso (take 24 (drop 1 tail)) \<and> drop 25 tail = upgrade_suffix
        then Some (sub, take 24 (drop 1 tail)) else None)"

record ai_upgrade_input =
  au_userId :: string
  au_subscriptionId :: string
  au_periodStart :: jsdate
  au_periodEnd :: jsdate
  au_effectiveAt :: jsdate

definition upgrade_id :: "string \<Rightarrow> int \<Rightarrow> string" where
  "upgrade_id sub at = version_root @ ''premium_monthly_v3:'' @ sub @ '':'' @ iso_string at @ upgrade_suffix"

definition aiUpgradeEntitlement :: "ai_upgrade_input \<Rightarrow> ai_entitlement res" where
  "aiUpgradeEntitlement i =
     (case (au_periodStart i, au_periodEnd i, au_effectiveAt i) of
        (Some start, Some stop, Some at) \<Rightarrow>
          if au_userId i = [] \<or> stop \<le> start \<or> at < start \<or> at \<ge> stop then Inl TypeError
          else let eid = upgrade_id (au_subscriptionId i) at in
            if length eid > 193 \<or> match_upgrade eid = None then Inl TypeError
            else rbind (expires_text (stop + 3 * AI_DAY)) (\<lambda>x.
              Inr \<lparr>ae_entitlementId = eid,
                   ae_credits = upgradeAiCredits Standard_monthly_v3 Premium_monthly_v3 (Some start) (Some stop) (Some at),
                   ae_expiresAt = x\<rparr>)
      | _ \<Rightarrow> Inl TypeError)"

text \<open>Rendering the read instant throws when the text denotes none.\<close>

definition parseAiUpgradeEntitlement :: "string \<Rightarrow> (string \<times> int) option res" where
  "parseAiUpgradeEntitlement eid =
     (case (if length eid \<le> 193 then match_upgrade eid else None) of
        None \<Rightarrow> Inr None
      | Some (sub, written) \<Rightarrow> (case parse_iso written of
          None \<Rightarrow> Inl RangeError
        | Some at \<Rightarrow> Inr (if iso_string at = written then Some (sub, at) else None)))"

subsection \<open>Events of an entitlement\<close>

datatype reversal_cause = Cause_dispute | Cause_refund
datatype credit_event = Ev_grant | Ev_revoke | Ev_revoke_for reversal_cause string | Ev_restore string

fun cause_text :: "reversal_cause \<Rightarrow> string" where
  "cause_text Cause_dispute = ''dispute''"
| "cause_text Cause_refund = ''refund''"

definition is_id_char :: "char \<Rightarrow> bool" where
  "is_id_char c \<longleftrightarrow> is_word c \<or> c = CHR ''-''"

definition is_root_char :: "char \<Rightarrow> bool" where
  "is_root_char c \<longleftrightarrow> is_word c \<or> c \<in> {CHR ''.'', CHR '':'', CHR ''-''}"

definition is_root :: "string \<Rightarrow> bool" where
  "is_root s \<longleftrightarrow> starts_with ''ezil-os:v1:'' s \<and> drop 11 s \<noteq> [] \<and> list_all is_root_char (drop 11 s)"

text \<open>\<^verbatim>\<open>suffix = prefix + ([A-Za-z0-9_-]+)\<close>\<close>

definition id_after :: "string \<Rightarrow> string \<Rightarrow> string option" where
  "id_after p s = (if starts_with p s \<and> drop (length p) s \<noteq> [] \<and> list_all is_id_char (drop (length p) s)
     then Some (drop (length p) s) else None)"

definition event_suffix :: "string \<Rightarrow> string \<Rightarrow> credit_event option" where
  "event_suffix action suffix =
     (if action = ''grant'' then if suffix = '':grant'' then Some Ev_grant else None
      else if action = ''revoke'' then
        (if suffix = '':revoke'' then Some Ev_revoke
         else case id_after '':revoke:dispute:'' suffix of
                Some d \<Rightarrow> Some (Ev_revoke_for Cause_dispute d)
              | None \<Rightarrow> map_option (Ev_revoke_for Cause_refund) (id_after '':revoke:refund:'' suffix))
      else if action = ''restore'' then map_option Ev_restore (id_after '':restore:'' suffix)
      else None)"

definition parseAiCreditEventId :: "string \<Rightarrow> string \<Rightarrow> string \<Rightarrow> credit_event option" where
  "parseAiCreditEventId root eventId action =
     (if \<not> is_root root \<or> length root > 193 \<or> length eventId > 200 \<or> \<not> starts_with (root @ '':'') eventId then None
      else event_suffix action (drop (length root) eventId))"

subsection \<open>Outbox items\<close>

datatype grant_action = Act_grant | Act_revoke

fun action_text :: "grant_action \<Rightarrow> string" where
  "action_text Act_grant = ''grant''"
| "action_text Act_revoke = ''revoke''"

fun action_kind :: "grant_action \<Rightarrow> OutboxKind" where
  "action_kind Act_grant = Ai_grant"
| "action_kind Act_revoke = Ai_revoke"

definition jnullable :: "string option \<Rightarrow> json" where
  "jnullable v = (case v of None \<Rightarrow> JNull | Some s \<Rightarrow> JStr s)"

definition aiCreditOutboxItem :: "string \<Rightarrow> ai_entitlement \<Rightarrow> grant_action \<Rightarrow> string option \<Rightarrow> outbox_insert" where
  "aiCreditOutboxItem userId e action invoiceId =
     (let eventId = ae_entitlementId e @ '':'' @ action_text action in
      \<lparr>ob_eventKey = eventId, ob_userId = userId, ob_kind = action_kind action, ob_payload =
        [(''protocol'', JStr AI_CREDIT_PROTOCOL), (''policyVersion'', JInt AI_CREDIT_POLICY_VERSION),
         (''invoiceId'', jnullable invoiceId), (''entitlementId'', JStr (ae_entitlementId e)),
         (''credits'', JInt (ae_credits e)), (''expiresAt'', JStr (ae_expiresAt e)),
         (''eventId'', JStr eventId), (''action'', JStr (action_text action))]\<rparr>)"

definition word_id :: "string \<Rightarrow> string \<Rightarrow> bool" where
  "word_id p s \<longleftrightarrow> starts_with p s \<and> drop (length p) s \<noteq> [] \<and> list_all is_word (drop (length p) s)"

definition topup_root :: "string \<Rightarrow> string \<Rightarrow> string" where
  "topup_root sku paymentIntentId = ''ezil-os:v1:topup:'' @ sku @ '':'' @ paymentIntentId"

definition aiTopupOutboxItem :: "string \<Rightarrow> catalog_pack \<Rightarrow> string \<Rightarrow> jsdate \<Rightarrow> outbox_insert option res" where
  "aiTopupOutboxItem userId pk paymentIntentId expiresAt =
     (case (aiPackCheckoutEligible (Some pk), pk_aiCredits pk) of
        (True, Some credits) \<Rightarrow>
          let eid = topup_root (pk_sku pk) paymentIntentId in
          (case expiresAt of None \<Rightarrow> Inl TypeError | Some ms \<Rightarrow>
            if userId = [] \<or> (pk_sku pk \<noteq> CUSTOM_TOPUP_SKU \<and> \<not> word_id ''ai_pack_'' (pk_sku pk)) \<or> \<not> word_id ''pi_'' paymentIntentId
               \<or> length eid > 193 \<or> \<not> is_safe_integer (pk_creditCents pk) \<or> pk_creditCents pk < 1
            then Inl TypeError
            else let item = aiCreditOutboxItem userId \<lparr>ae_entitlementId = eid, ae_credits = credits, ae_expiresAt = iso_string ms\<rparr> Act_grant None
              in Inr (Some (item\<lparr>ob_payload := ob_payload item @
                   [(''packSku'', JStr (pk_sku pk)), (''paymentIntentId'', JStr paymentIntentId),
                    (''amountUsdMicro'', JStr (show_int (pk_creditCents pk * 10000))), (''bucket'', JStr ''purchased''),
                    (''provider'', JStr ''stripe''), (''providerObjectId'', JStr paymentIntentId)]\<rparr>)))
      | _ \<Rightarrow> Inr None)"

text \<open>A member that is \<^verbatim>\<open>undefined\<close> is not stored.\<close>

definition copied :: "(string \<times> json) list \<Rightarrow> string \<Rightarrow> (string \<times> json) list" where
  "copied p k = (case member_of p k of None \<Rightarrow> [] | Some v \<Rightarrow> [(k, v)])"

definition is_text :: "json option \<Rightarrow> bool" where
  "is_text v = (case v of Some (JStr _) \<Rightarrow> True | _ \<Rightarrow> False)"

definition cause_suffix :: "(reversal_cause \<times> string) option \<Rightarrow> string" where
  "cause_suffix cause = (case cause of None \<Rightarrow> [] | Some (c, d) \<Rightarrow> '':'' @ cause_text c @ '':'' @ d)"

definition revoke_id :: "string \<Rightarrow> (reversal_cause \<times> string) option \<Rightarrow> string" where
  "revoke_id root cause = root @ '':revoke'' @ cause_suffix cause"

definition is_number :: "json \<Rightarrow> bool" where
  "is_number v = (case v of JInt _ \<Rightarrow> True | JFloat \<Rightarrow> True | _ \<Rightarrow> False)"

definition revoke_payload :: "(string \<times> json) list \<Rightarrow> string \<Rightarrow> json \<Rightarrow> string \<Rightarrow> string \<Rightarrow> (string \<times> json) list" where
  "revoke_payload p root credits expires eventId =
     copied p ''protocol'' @ copied p ''policyVersion'' @ copied p ''invoiceId'' @
     [(''entitlementId'', JStr root), (''credits'', credits), (''expiresAt'', JStr expires),
      (''eventId'', JStr eventId), (''action'', JStr ''revoke'')] @
     (if is_text (member_of p ''paymentIntentId'') then copied p ''paymentIntentId'' @ copied p ''packSku'' else []) @
     (if is_text (member_of p ''accountPublicId'') then copied p ''accountPublicId'' else [])"

definition aiCreditRevokeItem :: "outbox_insert \<Rightarrow> (reversal_cause \<times> string) option \<Rightarrow> outbox_insert res" where
  "aiCreditRevokeItem grant cause =
     (let p = ob_payload grant in
      case (member_of p ''entitlementId'', member_of p ''credits'', member_of p ''expiresAt'') of
        (Some (JStr root), Some credits, Some (JStr expires)) \<Rightarrow>
          if member_of p ''protocol'' \<noteq> Some (JStr AI_CREDIT_PROTOCOL) \<or> \<not> is_number credits \<or>
             member_of p ''action'' \<noteq> Some (JStr ''grant'') then Inl TypeError
          else if parseAiCreditEventId root (revoke_id root cause) ''revoke'' = None then Inl TypeError
          else Inr \<lparr>ob_eventKey = revoke_id root cause, ob_userId = ob_userId grant, ob_kind = Ai_revoke,
                 ob_payload = revoke_payload p root credits expires (revoke_id root cause)\<rparr>
      | _ \<Rightarrow> Inl TypeError)"

definition restore_id :: "string \<Rightarrow> string \<Rightarrow> string" where
  "restore_id root disputeId = root @ '':restore:'' @ disputeId"

definition aiCreditRestoreItem :: "outbox_insert \<Rightarrow> string \<Rightarrow> outbox_insert res" where
  "aiCreditRestoreItem grant disputeId =
     rbind (aiCreditRevokeItem grant (Some (Cause_dispute, disputeId))) (\<lambda>revoke.
       case member_of (ob_payload grant) ''entitlementId'' of
         Some (JStr root) \<Rightarrow>
           let eventId = restore_id root disputeId in
           if parseAiCreditEventId root eventId ''restore'' = None then Inl TypeError
           else Inr (revoke\<lparr>ob_eventKey := eventId, ob_kind := Ai_restore, ob_payload :=
             map_set ''action'' (JStr ''restore'') (map_set ''eventId'' (JStr eventId) (ob_payload revoke))\<rparr>)
       | _ \<Rightarrow> Inl TypeError)"


subsection \<open>Reading identifiers back\<close>

lemma starts_with_iff: "starts_with p s \<longleftrightarrow> (\<exists>t. s = p @ t)"
  by (auto simp: starts_with_def) (metis append_take_drop_id)

lemma digit_not_colon: "\<not> is_word (CHR '':'')"
  by (simp add: is_word_def is_digit_def less_eq_char_def)

lemma version_root_1: "version_root = ''ezil-os:v1:''"
  by code_simp

lemma upgrade_id_alt: "upgrade_id sub at = upgrade_prefix @ sub @ '':'' @ iso_string at @ upgrade_suffix"
  by (simp add: upgrade_id_def version_root_1 upgrade_prefix_def)

lemma takeWhile_colon:
  "takeWhile is_word (sub @ CHR '':'' # t) = takeWhile is_word sub \<and>
   dropWhile is_word (sub @ CHR '':'' # t) = dropWhile is_word sub @ CHR '':'' # t"
  using digit_not_colon by (induction sub) auto

lemma match_upgrade_id:
  "match_upgrade (upgrade_id sub at) =
     (if sub \<noteq> [] \<and> list_all is_word sub \<and> iso_year_ok at then Some (sub, iso_string at) else None)"
proof -
  let ?rest = "sub @ CHR '':'' # iso_string at @ upgrade_suffix" let ?tail = "dropWhile is_word sub @ CHR '':'' # iso_string at @ upgrade_suffix"
  have m: "match_upgrade (upgrade_id sub at) =
      (if takeWhile is_word sub \<noteq> [] \<and> starts_with '':'' ?tail \<and> is_iso (take 24 (drop 1 ?tail)) \<and> drop 25 ?tail = upgrade_suffix
       then Some (takeWhile is_word sub, take 24 (drop 1 ?tail)) else None)"
    using takeWhile_colon [of sub "iso_string at @ upgrade_suffix"] by (simp add: match_upgrade_def upgrade_id_alt Let_def)
  show ?thesis
  proof (cases "list_all is_word sub \<and> iso_year_ok at")
    case True
    then have w: "dropWhile is_word sub = []" "takeWhile is_word sub = sub" by (auto simp: list_all_iff takeWhile_eq_all_conv)
    have t: "drop 1 ([] @ CHR '':'' # iso_string at @ upgrade_suffix) = iso_string at @ upgrade_suffix"
        "drop 25 ([] @ CHR '':'' # iso_string at @ upgrade_suffix) = upgrade_suffix"
        "starts_with '':'' ([] @ CHR '':'' # iso_string at @ upgrade_suffix) = True"
        "take 24 (iso_string at @ upgrade_suffix) = iso_string at" "is_iso (iso_string at) = True"
      using True length_iso_string [of at] parse_iso_string(1) [of at] by (simp_all add: starts_with_def)
    show ?thesis unfolding m w t using True by simp
  next
    case False
    have "drop 25 ?tail \<noteq> upgrade_suffix"
    proof
      assume "drop 25 ?tail = upgrade_suffix"
      then have "length ?tail - 25 = length upgrade_suffix" by (metis length_drop)
      then have "length (dropWhile is_word sub) + length (iso_string at) = 24" by (simp add: upgrade_suffix_def)
      then have "dropWhile is_word sub = []" "iso_year_ok at" using length_iso_string [of at] by (auto split: if_splits)
      with False show False by (auto simp: list_all_iff)
    qed
    then show ?thesis using False unfolding m by auto
  qed
qed

lemma upgrade_Inr:
  assumes "aiUpgradeEntitlement i = Inr e"
  obtains start stop at where "au_periodStart i = Some start" "au_periodEnd i = Some stop" "au_effectiveAt i = Some at"
    "start \<le> at" "at < stop" "au_userId i \<noteq> []" "ae_entitlementId e = upgrade_id (au_subscriptionId i) at"
    "length (ae_entitlementId e) \<le> 193" "match_upgrade (ae_entitlementId e) \<noteq> None"
    "ae_credits e = upgradeAiCredits Standard_monthly_v3 Premium_monthly_v3 (Some start) (Some stop) (Some at)"
    "expires_text (stop + 3 * AI_DAY) = Inr (ae_expiresAt e)"
  using assms by (auto simp: aiUpgradeEntitlement_def Let_def split: option.splits if_splits)

lemma event_suffix_revoke:
  "event_suffix ''revoke'' ('':revoke'' @ cause_suffix c) \<noteq> None \<Longrightarrow>
   event_suffix ''revoke'' ('':revoke'' @ cause_suffix c) =
     Some (case c of None \<Rightarrow> Ev_revoke | Some (k, d) \<Rightarrow> Ev_revoke_for k d)"
proof (cases c)
  case None
  then show ?thesis by (simp add: event_suffix_def cause_suffix_def)
next
  case (Some p)
  obtain k d where "p = (k, d)" by (cases p)
  then show "event_suffix ''revoke'' ('':revoke'' @ cause_suffix c) \<noteq> None \<Longrightarrow> ?thesis"
    using Some by (cases k) (auto simp: event_suffix_def cause_suffix_def id_after_def starts_with_def split: if_splits)
qed

lemma parse_event_Some:
  "parseAiCreditEventId root (root @ suffix) action \<noteq> None \<Longrightarrow>
   parseAiCreditEventId root (root @ suffix) action = event_suffix action suffix \<and> is_root root \<and> length root \<le> 193 \<and>
   length (root @ suffix) \<le> 200"
  by (auto simp: parseAiCreditEventId_def split: if_splits)

lemma revoke_Inr:
  assumes "aiCreditRevokeItem grant cause = Inr item"
  obtains root credits expires where "member_of (ob_payload grant) ''entitlementId'' = Some (JStr root)"
    "member_of (ob_payload grant) ''credits'' = Some credits" "is_number credits"
    "member_of (ob_payload grant) ''expiresAt'' = Some (JStr expires)"
    "member_of (ob_payload grant) ''action'' = Some (JStr ''grant'')"
    "member_of (ob_payload grant) ''protocol'' = Some (JStr AI_CREDIT_PROTOCOL)"
    "parseAiCreditEventId root (revoke_id root cause) ''revoke'' \<noteq> None"
    "item = \<lparr>ob_eventKey = revoke_id root cause, ob_userId = ob_userId grant, ob_kind = Ai_revoke,
                 ob_payload = revoke_payload (ob_payload grant) root credits expires (revoke_id root cause)\<rparr>"
  using assms by (auto simp: aiCreditRevokeItem_def Let_def split: option.splits json.splits if_splits)

lemma parse_revoke_id:
  assumes "parseAiCreditEventId root (revoke_id root cause) ''revoke'' \<noteq> None"
  shows "parseAiCreditEventId root (revoke_id root cause) ''revoke'' =
      Some (case cause of None \<Rightarrow> Ev_revoke | Some (k, d) \<Rightarrow> Ev_revoke_for k d)"
    and "is_root root" and "length (revoke_id root cause) \<le> 200" and "length root \<le> 193"
  using parse_event_Some [OF assms [unfolded revoke_id_def]] event_suffix_revoke [of cause] assms
  by (simp_all add: revoke_id_def)

lemma parse_restore_id:
  assumes "parseAiCreditEventId root (restore_id root d) ''restore'' \<noteq> None"
  shows "parseAiCreditEventId root (restore_id root d) ''restore'' = Some (Ev_restore d)" and "length (restore_id root d) \<le> 200"
proof -
  note p = parse_event_Some [OF assms [unfolded restore_id_def]]
  from p assms have "event_suffix ''restore'' ('':restore:'' @ d) \<noteq> None" by (simp add: restore_id_def)
  then have "event_suffix ''restore'' ('':restore:'' @ d) = Some (Ev_restore d)"
    by (auto simp: event_suffix_def id_after_def starts_with_def split: if_splits)
  with p show "parseAiCreditEventId root (restore_id root d) ''restore'' = Some (Ev_restore d)"
    and "length (restore_id root d) \<le> 200"
    by (simp_all add: restore_id_def)
qed

lemma restore_Inr:
  assumes "aiCreditRestoreItem grant d = Inr item"
  obtains root revoke where "member_of (ob_payload grant) ''entitlementId'' = Some (JStr root)"
    "aiCreditRevokeItem grant (Some (Cause_dispute, d)) = Inr revoke"
    "parseAiCreditEventId root (restore_id root d) ''restore'' \<noteq> None"
    "item = revoke\<lparr>ob_eventKey := restore_id root d, ob_kind := Ai_restore, ob_payload :=
             map_set ''action'' (JStr ''restore'') (map_set ''eventId'' (JStr (restore_id root d)) (ob_payload revoke))\<rparr>"
proof -
  from assms obtain revoke where r: "aiCreditRevokeItem grant (Some (Cause_dispute, d)) = Inr revoke"
    by (auto simp: aiCreditRestoreItem_def)
  from revoke_Inr [OF r] obtain root where root: "member_of (ob_payload grant) ''entitlementId'' = Some (JStr root)" by metis
  show ?thesis
    using assms r root by (intro that [OF root r]) (simp_all add: aiCreditRestoreItem_def Let_def split: if_splits)
qed

text \<open>A root the parser accepts always has room for its grant and its plain revoke.\<close>

lemma grant_id_parses: "is_root root \<Longrightarrow> length root \<le> 193 \<Longrightarrow> parseAiCreditEventId root (root @ '':grant'') ''grant'' = Some Ev_grant"
  and revoke_id_parses: "is_root root \<Longrightarrow> length root \<le> 193 \<Longrightarrow> parseAiCreditEventId root (revoke_id root None) ''revoke'' = Some Ev_revoke"
  by (simp_all add: parseAiCreditEventId_def event_suffix_def revoke_id_def cause_suffix_def starts_with_def)

lemma upgrade_credits_bounds:
  "0 \<le> upgradeAiCredits Standard_monthly_v3 Premium_monthly_v3 a b c \<and>
   upgradeAiCredits Standard_monthly_v3 Premium_monthly_v3 a b c \<le> 800"
  using prorate_bounds [of 800 "the a div 1000" "the b div 1000" "the c div 1000"]
  by (auto simp: upgradeAiCredits_def Let_def split: option.splits)

lemma word_id_chars: "word_id p s \<Longrightarrow> list_all is_root_char p \<Longrightarrow> list_all is_root_char s \<and> s \<noteq> []"
  by (auto simp: word_id_def starts_with_iff list_all_iff is_root_char_def)

lemma is_root_topup:
  assumes "sku = CUSTOM_TOPUP_SKU \<or> word_id ''ai_pack_'' sku" and "word_id ''pi_'' pid"
  shows "is_root (topup_root sku pid)"
proof -
  have "list_all is_root_char ''ai_pack_''" "list_all is_root_char ''pi_''" "list_all is_root_char CUSTOM_TOPUP_SKU"
    by code_simp+
  with assms word_id_chars have "list_all is_root_char sku" "list_all is_root_char pid" by blast+
  moreover have "topup_root sku pid = ''ezil-os:v1:'' @ (''topup:'' @ sku @ '':'' @ pid)" by (simp add: topup_root_def)
  moreover have "list_all is_root_char ''topup:''" "is_root_char CHR '':''" by code_simp+
  ultimately show ?thesis unfolding is_root_def by (simp add: starts_with_def)
qed

lemma topup_Inr:
  assumes "aiTopupOutboxItem u pk pid x = Inr (Some item)"
  obtains credits ms where "pk_aiCredits pk = Some credits" "1 \<le> credits" "credits \<le> 1000000" "x = Some ms" "u \<noteq> []"
    "pk_sku pk = CUSTOM_TOPUP_SKU \<or> word_id ''ai_pack_'' (pk_sku pk)" "word_id ''pi_'' pid" "1 \<le> pk_creditCents pk"
    "length (topup_root (pk_sku pk) pid) \<le> 193"
    "item = (aiCreditOutboxItem u \<lparr>ae_entitlementId = topup_root (pk_sku pk) pid, ae_credits = credits, ae_expiresAt = iso_string ms\<rparr> Act_grant None)
       \<lparr>ob_payload := ob_payload (aiCreditOutboxItem u \<lparr>ae_entitlementId = topup_root (pk_sku pk) pid, ae_credits = credits, ae_expiresAt = iso_string ms\<rparr> Act_grant None) @
         [(''packSku'', JStr (pk_sku pk)), (''paymentIntentId'', JStr pid),
          (''amountUsdMicro'', JStr (show_int (pk_creditCents pk * 10000))), (''bucket'', JStr ''purchased''),
          (''provider'', JStr ''stripe''), (''providerObjectId'', JStr pid)]\<rparr>"
proof -
  from assms obtain credits where c: "pk_aiCredits pk = Some credits" "1 \<le> credits" "credits \<le> 1000000"
    by (auto simp: aiTopupOutboxItem_def aiPackCheckoutEligible_def split: option.splits bool.splits)
  with assms obtain ms where ms: "x = Some ms"
    by (auto simp: aiTopupOutboxItem_def Let_def split: option.splits bool.splits)
  have e: "aiPackCheckoutEligible (Some pk) = True"
    using assms by (cases "aiPackCheckoutEligible (Some pk)") (auto simp: aiTopupOutboxItem_def)
  show ?thesis
    using assms [unfolded aiTopupOutboxItem_def Let_def e c(1) ms prod.case bool.case option.case]
    by (intro that [OF c ms]) (auto split: if_splits)
qed

lemma copied_member [simp]: "member_of (copied p k) k' = (if k = k' then member_of p k else None)"
  by (simp add: copied_def member_of_def split: option.split)

lemma member_cons: "member_of ((a, v) # xs) k = (if a = k then Some v else member_of xs k)"
  and member_nil: "member_of [] k = None"
  by (simp_all add: member_of_def)

lemma member_append: "member_of (xs @ ys) k = (case member_of xs k of None \<Rightarrow> member_of ys k | Some v \<Rightarrow> Some v)"
  by (simp add: member_of_def map_add_def split: option.split)

lemma revoke_payload_members:
  "member_of (revoke_payload p root credits expires eid) ''credits'' = Some credits"
  "member_of (revoke_payload p root credits expires eid) ''entitlementId'' = Some (JStr root)"
  "member_of (revoke_payload p root credits expires eid) ''action'' = Some (JStr ''revoke'')"
  "member_of (revoke_payload p root credits expires eid) ''expiresAt'' = Some (JStr expires)"
  "member_of (revoke_payload p root credits expires eid) ''eventId'' = Some (JStr eid)"
  "member_of (revoke_payload p root credits expires eid) ''protocol'' = member_of p ''protocol''"
  "member_of (revoke_payload p root credits expires eid) ''invoiceId'' = member_of p ''invoiceId''"
  by (simp_all add: revoke_payload_def member_append member_cons member_nil split: option.split)

subsection \<open>Properties\<close>

text \<open>An upgrade entitlement is read back exactly: the identifier made for a paid upgrade is at most 193
  characters and parses to the same subscription and the same effective instant, to the millisecond; so two
  upgrades of one account share an identifier only when they are the same upgrade. Its credits are between
  none and the difference of the two plans.\<close>

lemma upgrade_entitlement_roundtrip:
  assumes "aiUpgradeEntitlement i = Inr e"
  shows "\<exists>at. au_effectiveAt i = Some at \<and>
    parseAiUpgradeEntitlement (ae_entitlementId e) = Inr (Some (au_subscriptionId i, at)) \<and>
    length (ae_entitlementId e) \<le> 193 \<and> 0 \<le> ae_credits e \<and> ae_credits e \<le> 800 \<and>
    (\<forall>j f. aiUpgradeEntitlement j = Inr f \<and> ae_entitlementId f = ae_entitlementId e \<longrightarrow>
       au_subscriptionId j = au_subscriptionId i \<and> au_effectiveAt j = au_effectiveAt i)"
proof -
  have key: "\<exists>at. au_effectiveAt k = Some at \<and>
      parseAiUpgradeEntitlement (ae_entitlementId g) = Inr (Some (au_subscriptionId k, at)) \<and> length (ae_entitlementId g) \<le> 193"
    if "aiUpgradeEntitlement k = Inr g" for k g
  proof -
    from that obtain at where a: "au_effectiveAt k = Some at" "ae_entitlementId g = upgrade_id (au_subscriptionId k) at"
      "length (ae_entitlementId g) \<le> 193" "match_upgrade (ae_entitlementId g) \<noteq> None"
      by (rule upgrade_Inr)
    then have m: "match_upgrade (upgrade_id (au_subscriptionId k) at) = Some (au_subscriptionId k, iso_string at)" "iso_year_ok at"
      using match_upgrade_id [of "au_subscriptionId k" at] by (auto split: if_splits)
    show ?thesis
      using a m parse_iso_string(2) [OF m(2)] by (simp add: parseAiUpgradeEntitlement_def)
  qed
  from assms have "0 \<le> ae_credits e \<and> ae_credits e \<le> 800"
    by (rule upgrade_Inr) (use upgrade_credits_bounds in simp)
  with key [OF assms] key show ?thesis by (metis Inr_inject option.inject prod.inject)
qed

definition demo_upgrade :: ai_upgrade_input where
  "demo_upgrade = \<lparr>au_userId = ''u1'', au_subscriptionId = ''sub_9'', au_periodStart = Some 1767225600000,
     au_periodEnd = Some 1769904000000, au_effectiveAt = Some 1768564800000\<rparr>"

definition demo_upgrade_entitlement :: ai_entitlement where
  "demo_upgrade_entitlement = \<lparr>ae_entitlementId = ''ezil-os:v1:premium_monthly_v3:sub_9:2026-01-16T12:00:00.000Z:upgrade'',
     ae_credits = 400, ae_expiresAt = ''2026-02-04T00:00:00.000Z''\<rparr>"

lemma demo_upgrade_eval: "aiUpgradeEntitlement demo_upgrade = Inr demo_upgrade_entitlement"
  by code_simp

lemma upgrade_entitlement_roundtrip_witness:
  "parseAiUpgradeEntitlement ''ezil-os:v1:premium_monthly_v3:sub_9:2026-01-16T12:00:00.000Z:upgrade'' =
     Inr (Some (''sub_9'', 1768564800000))"
  using upgrade_entitlement_roundtrip [OF demo_upgrade_eval]
  by (simp add: demo_upgrade_def demo_upgrade_entitlement_def)

text \<open>The events of an entitlement are read back exactly: the key of a revoke names its cause and the
  key of a restore its dispute, within the 200 characters of an event; for one receipt, different causes
  never share a key, so neither a second dispute nor a restore can be taken for a replay.\<close>

lemma ai_event_ids_roundtrip:
  assumes "aiCreditRevokeItem g c = Inr r"
  shows "\<exists>root. member_of (ob_payload g) ''entitlementId'' = Some (JStr root) \<and>
    parseAiCreditEventId root (ob_eventKey r) ''revoke'' =
      Some (case c of None \<Rightarrow> Ev_revoke | Some (k, d) \<Rightarrow> Ev_revoke_for k d) \<and> length (ob_eventKey r) \<le> 200 \<and>
    (\<forall>c' r'. aiCreditRevokeItem g c' = Inr r' \<and> ob_eventKey r' = ob_eventKey r \<longrightarrow> c' = c) \<and>
    (\<forall>d r'. aiCreditRestoreItem g d = Inr r' \<longrightarrow> ob_eventKey r' \<noteq> ob_eventKey r \<and>
       parseAiCreditEventId root (ob_eventKey r') ''restore'' = Some (Ev_restore d) \<and> length (ob_eventKey r') \<le> 200)"
proof -
  have key: "\<exists>root. member_of (ob_payload g) ''entitlementId'' = Some (JStr root) \<and> ob_eventKey s = revoke_id root k \<and>
      parseAiCreditEventId root (ob_eventKey s) ''revoke'' =
        Some (case k of None \<Rightarrow> Ev_revoke | Some (a, d) \<Rightarrow> Ev_revoke_for a d) \<and> length (ob_eventKey s) \<le> 200"
    if "aiCreditRevokeItem g k = Inr s" for k s
    using revoke_Inr [OF that] parse_revoke_id by (metis outbox_insert.select_convs(1))
  have inj: "(case k of None \<Rightarrow> Ev_revoke | Some (a, d) \<Rightarrow> Ev_revoke_for a d) =
      (case l of None \<Rightarrow> Ev_revoke | Some (a, d) \<Rightarrow> Ev_revoke_for a d) \<Longrightarrow> k = l" for k l
    by (auto split: option.splits)
  from key [OF assms] obtain root where root: "member_of (ob_payload g) ''entitlementId'' = Some (JStr root)" "ob_eventKey r = revoke_id root c"
      "parseAiCreditEventId root (ob_eventKey r) ''revoke'' = Some (case c of None \<Rightarrow> Ev_revoke | Some (k, d) \<Rightarrow> Ev_revoke_for k d)"
      "length (ob_eventKey r) \<le> 200"
    by metis
  have same: "c' = c" if "aiCreditRevokeItem g c' = Inr r'" "ob_eventKey r' = ob_eventKey r" for c' r'
  proof -
    from key [OF that(1)] root(1) that(2)
    have "parseAiCreditEventId root (ob_eventKey r) ''revoke'' = Some (case c' of None \<Rightarrow> Ev_revoke | Some (a, d) \<Rightarrow> Ev_revoke_for a d)"
      by (metis option.inject json.inject(3))
    with root(3) show ?thesis by (metis inj option.inject)
  qed
  have restore: "ob_eventKey r' \<noteq> ob_eventKey r \<and> parseAiCreditEventId root (ob_eventKey r') ''restore'' = Some (Ev_restore d) \<and>
      length (ob_eventKey r') \<le> 200" if z: "aiCreditRestoreItem g d = Inr r'" for d r'
  proof -
    obtain root' revoke where q: "member_of (ob_payload g) ''entitlementId'' = Some (JStr root')"
      "aiCreditRevokeItem g (Some (Cause_dispute, d)) = Inr revoke"
      "parseAiCreditEventId root' (restore_id root' d) ''restore'' \<noteq> None"
      "r' = revoke\<lparr>ob_eventKey := restore_id root' d, ob_kind := Ai_restore, ob_payload :=
         map_set ''action'' (JStr ''restore'') (map_set ''eventId'' (JStr (restore_id root' d)) (ob_payload revoke))\<rparr>"
      using z by (rule restore_Inr)
    from q(1) root(1) have "root' = root" by simp
    with q have k: "ob_eventKey r' = restore_id root d" "parseAiCreditEventId root (restore_id root d) ''restore'' \<noteq> None"
      by simp_all
    moreover have "restore_id root d \<noteq> revoke_id root c" by (simp add: restore_id_def revoke_id_def)
    ultimately show ?thesis using parse_restore_id [OF k(2)] root(2) by simp
  qed
  show ?thesis
    by (rule exI [of _ root], intro conjI allI impI) (use root same restore in \<open>blast+\<close>)
qed

definition demo_receipt :: outbox_insert where
  "demo_receipt = aiCreditOutboxItem ''u1'' demo_upgrade_entitlement Act_grant (Some ''in_1'')"

definition demo_revoke :: outbox_insert where
  "demo_revoke = (case aiCreditRevokeItem demo_receipt (Some (Cause_dispute, ''du_7'')) of Inr r \<Rightarrow> r | Inl _ \<Rightarrow> demo_receipt)"

lemma demo_revoke_eval: "aiCreditRevokeItem demo_receipt (Some (Cause_dispute, ''du_7'')) = Inr demo_revoke"
  by code_simp

lemma ai_event_ids_roundtrip_witness:
  "\<exists>root. parseAiCreditEventId root (ob_eventKey demo_revoke) ''revoke'' = Some (Ev_revoke_for Cause_dispute ''du_7'')"
  using ai_event_ids_roundtrip [OF demo_revoke_eval] by auto

text \<open>A top-up receipt is made only for a pack with a credit policy, for the whole credits of the pack and at
  10,000 micro-dollars the cent paid for; its key is a valid grant of its root, and the receipt can always be
  revoked, for the same credits and the same owner.\<close>

lemma topup_receipt_revocable:
  assumes "aiTopupOutboxItem u pk pid x = Inr (Some item)"
  shows "ob_userId item = u \<and> ob_kind item = Ai_grant \<and>
    member_of (ob_payload item) ''amountUsdMicro'' = Some (JStr (show_int (pk_creditCents pk * 10000))) \<and>
    (\<exists>credits root. pk_aiCredits pk = Some credits \<and> 1 \<le> credits \<and> credits \<le> 1000000 \<and>
       member_of (ob_payload item) ''credits'' = Some (JInt credits) \<and>
       parseAiCreditEventId root (ob_eventKey item) ''grant'' = Some Ev_grant \<and>
       (\<exists>r. aiCreditRevokeItem item None = Inr r \<and> ob_userId r = u \<and> ob_kind r = Ai_revoke \<and>
          parseAiCreditEventId root (ob_eventKey r) ''revoke'' = Some Ev_revoke \<and>
          member_of (ob_payload r) ''credits'' = Some (JInt credits)))"
proof -
  obtain credits ms where c: "pk_aiCredits pk = Some credits" "1 \<le> credits" "credits \<le> 1000000"
    and sku: "pk_sku pk = CUSTOM_TOPUP_SKU \<or> word_id ''ai_pack_'' (pk_sku pk)" "word_id ''pi_'' pid"
    and len: "length (topup_root (pk_sku pk) pid) \<le> 193"
    and item: "item = (aiCreditOutboxItem u \<lparr>ae_entitlementId = topup_root (pk_sku pk) pid, ae_credits = credits, ae_expiresAt = iso_string ms\<rparr> Act_grant None)
       \<lparr>ob_payload := ob_payload (aiCreditOutboxItem u \<lparr>ae_entitlementId = topup_root (pk_sku pk) pid, ae_credits = credits, ae_expiresAt = iso_string ms\<rparr> Act_grant None) @
         [(''packSku'', JStr (pk_sku pk)), (''paymentIntentId'', JStr pid),
          (''amountUsdMicro'', JStr (show_int (pk_creditCents pk * 10000))), (''bucket'', JStr ''purchased''),
          (''provider'', JStr ''stripe''), (''providerObjectId'', JStr pid)]\<rparr>"
    using assms by (rule topup_Inr)
  let ?root = "topup_root (pk_sku pk) pid"
  have root: "is_root ?root" using sku by (rule is_root_topup)
  have m: "member_of (ob_payload item) ''entitlementId'' = Some (JStr ?root)"
      "member_of (ob_payload item) ''credits'' = Some (JInt credits)"
      "member_of (ob_payload item) ''expiresAt'' = Some (JStr (iso_string ms))"
      "member_of (ob_payload item) ''protocol'' = Some (JStr AI_CREDIT_PROTOCOL)"
      "member_of (ob_payload item) ''action'' = Some (JStr ''grant'')"
      "member_of (ob_payload item) ''amountUsdMicro'' = Some (JStr (show_int (pk_creditCents pk * 10000)))"
      "ob_userId item = u" "ob_kind item = Ai_grant" "ob_eventKey item = ?root @ '':grant''"
    unfolding item by (simp_all add: aiCreditOutboxItem_def member_append member_cons member_nil Let_def)
  have "aiCreditRevokeItem item None = Inr \<lparr>ob_eventKey = revoke_id ?root None, ob_userId = u, ob_kind = Ai_revoke,
      ob_payload = revoke_payload (ob_payload item) ?root (JInt credits) (iso_string ms) (revoke_id ?root None)\<rparr>"
    using m revoke_id_parses [OF root len] by (simp add: aiCreditRevokeItem_def is_number_def Let_def)
  then show ?thesis
    using m c grant_id_parses [OF root len] revoke_id_parses [OF root len] revoke_payload_members(1) by auto
qed

definition demo_pack :: catalog_pack where
  "demo_pack = \<lparr>pk_sku = ''ai_custom_v2'', pk_aiCredits = Some 120, pk_creditCents = 1200, pk_discountPercent = 0,
     pk_serviceFeeCents = 0, pk_totalCents = 1200\<rparr>"

definition demo_topup :: outbox_insert where
  "demo_topup = (let item = aiCreditOutboxItem ''u1'' \<lparr>ae_entitlementId = ''ezil-os:v1:topup:ai_custom_v2:pi_3A'', ae_credits = 120,
       ae_expiresAt = ''2027-01-15T08:00:00.000Z''\<rparr> Act_grant None in item\<lparr>ob_payload := ob_payload item @
     [(''packSku'', JStr ''ai_custom_v2''), (''paymentIntentId'', JStr ''pi_3A''),
      (''amountUsdMicro'', JStr (show_int 12000000)), (''bucket'', JStr ''purchased''),
      (''provider'', JStr ''stripe''), (''providerObjectId'', JStr ''pi_3A'')]\<rparr>)"

lemma demo_topup_texts:
  "iso_string 1800000000000 = ''2027-01-15T08:00:00.000Z''" "word_id ''pi_'' ''pi_3A''"
  "topup_root ''ai_custom_v2'' ''pi_3A'' = ''ezil-os:v1:topup:ai_custom_v2:pi_3A''"
  by code_simp+

lemma demo_topup_eval: "aiTopupOutboxItem ''u1'' demo_pack ''pi_3A'' (Some 1800000000000) = Inr (Some demo_topup)"
  by (simp add: aiTopupOutboxItem_def demo_pack_def demo_topup_def aiPackCheckoutEligible_def is_safe_integer_def
      max_safe_integer_def CUSTOM_TOPUP_SKU_def demo_topup_texts Let_def)

lemma topup_receipt_revocable_witness:
  "member_of (ob_payload demo_topup) ''amountUsdMicro'' = Some (JStr (show_int 12000000)) \<and>
   (\<exists>r. aiCreditRevokeItem demo_topup None = Inr r)"
proof -
  have "pk_creditCents demo_pack * 10000 = 12000000" by (simp add: demo_pack_def)
  with topup_receipt_revocable [OF demo_topup_eval] show ?thesis by metis
qed

end
