(* ===== verification/AI_Reversal.thy ===== *)
theory AI_Reversal
  imports AI_Credits Stripe_Events
begin

text \<open>
  The reversal planner (\<^verbatim>\<open>app/src/server/billing/ai-credits.ts\<close>, \<^verbatim>\<open>planAiReversal\<close> and its helpers): a refund
  or a dispute of a purchase takes back what is left of its local grants and revokes its AI receipts, a won
  dispute gives back what that dispute took. The planner reads a snapshot and answers either a refusal, which
  changes nothing, or the ledger rows and receipts to insert.

  A stored JSON value is compared by structure without regard to the order of members, as
  \<^verbatim>\<open>isDeepStrictEqual\<close> does; two different rows never share an object, so \<^verbatim>\<open>===\<close> on members is equality of
  texts, numbers, booleans and null. A fraction is never compared by value: no receipt has one.
\<close>

datatype reversal_action = Do_suspend | Do_revoke | Do_restore

record ai_reversal_input =
  ar_action :: reversal_action
  ar_causeId :: string
  ar_chargeId :: string
  ar_customerId :: string
  ar_userId :: string
  ar_originals :: "grant_row list"
  ar_receipts :: "outbox_insert list"

record reversal_snapshot =
  rs_originals :: "grant_row list"
  rs_corrections :: "grant_row list"
  rs_receipts :: "outbox_row list"

subsection \<open>JSON values\<close>

function (sequential) json_eq :: "json \<Rightarrow> json \<Rightarrow> bool" where
  "json_eq JNull JNull = True"
| "json_eq (JBool a) (JBool b) = (a = b)"
| "json_eq (JInt a) (JInt b) = (a = b)"
| "json_eq (JStr a) (JStr b) = (a = b)"
| "json_eq (JArr xs) (JArr ys) = (length xs = length ys \<and> list_all (\<lambda>(x, y). json_eq x y) (zip xs ys))"
| "json_eq (JObj xs) (JObj ys) =
     (list_all (\<lambda>(k, v). case map_of ys k of None \<Rightarrow> False | Some w \<Rightarrow> json_eq v w) xs \<and> list_all (\<lambda>(k, w). map_of xs k \<noteq> None) ys)"
| "json_eq _ _ = False"
  by pat_completeness auto
termination
  by (relation "measure (size \<circ> fst)") (auto dest!: set_zip_leftD simp: less_Suc_eq_le intro: size_list_estimation' less_imp_le)

definition opt_json_eq :: "json option \<Rightarrow> json \<Rightarrow> bool" where
  "opt_json_eq a b = (case a of None \<Rightarrow> False | Some v \<Rightarrow> json_eq v b)"

text \<open>\<^verbatim>\<open>a === b\<close> on the members of two rows.\<close>

fun json_same :: "json option \<Rightarrow> json option \<Rightarrow> bool" where
  "json_same None None = True"
| "json_same (Some JNull) (Some JNull) = True"
| "json_same (Some (JBool a)) (Some (JBool b)) = (a = b)"
| "json_same (Some (JInt a)) (Some (JInt b)) = (a = b)"
| "json_same (Some (JStr a)) (Some (JStr b)) = (a = b)"
| "json_same _ _ = False"

text \<open>\<^verbatim>\<open>String(v)\<close> of a member; arrays and fractions never occur where it is used.\<close>

fun js_text :: "json option \<Rightarrow> string" where
  "js_text None = ''undefined''"
| "js_text (Some JNull) = ''null''"
| "js_text (Some (JBool b)) = (if b then ''true'' else ''false'')"
| "js_text (Some (JInt n)) = show_int n"
| "js_text (Some (JStr s)) = s"
| "js_text (Some (JObj _)) = ''[object Object]''"
| "js_text (Some _) = []"

definition pay :: "('a outbox_insert_scheme) \<Rightarrow> string \<Rightarrow> json option" where
  "pay r k = member_of (ob_payload r) k"

subsection \<open>Facts of the original grants\<close>

fun meter_text :: "GrantMeter \<Rightarrow> string" where
  "meter_text Workspace_seconds = ''workspace_seconds''"
| "meter_text Ai_usd_micro = ''ai_usd_micro''"
| "meter_text Compute_std_seconds = ''compute_std_seconds''"

fun kind_text :: "GrantKind \<Rightarrow> string" where
  "kind_text Pro_period = ''pro_period''"
| "kind_text Topup = ''topup''"
| "kind_text Plan_period = ''plan_period''"
| "kind_text Upgrade_prorated = ''upgrade_prorated''"
| "kind_text GrantKind.Revoke = ''revoke''"
| "kind_text GrantKind.Suspend = ''suspend''"
| "kind_text GrantKind.Restore = ''restore''"

fun source_text :: "GrantSource \<Rightarrow> string" where
  "source_text Src_invoice = ''invoice''"
| "source_text Src_payment_intent = ''payment_intent''"
| "source_text Src_refund = ''refund''"
| "source_text Src_dispute = ''dispute''"

definition iso_or_null :: "jsdate option \<Rightarrow> json res" where
  "iso_or_null d = (case d of None \<Rightarrow> Inr JNull | Some t \<Rightarrow> rbind (toISOString t) (\<lambda>s. Inr (JStr s)))"

definition original_fact :: "grant_row \<Rightarrow> json res" where
  "original_fact g =
     rbind (iso_or_null (g_periodStart g)) (\<lambda>start. rbind (iso_or_null (g_periodEnd g)) (\<lambda>stop.
       Inr (JObj [(''id'', JStr (g_id g)), (''userId'', JStr (g_userId g)), (''meter'', JStr (meter_text (g_meter g))),
         (''kind'', JStr (kind_text (g_kind g))), (''amount'', JStr (show_int (g_amount g))),
         (''subscriptionId'', jnullable (g_subscriptionId g)), (''sourceType'', JStr (source_text (g_sourceType g))),
         (''sourceId'', JStr (g_sourceId g)), (''periodStart'', start), (''periodEnd'', stop)])))"

text \<open>In the order of their identities, which are unique texts of one shape.\<close>

definition originalFacts :: "grant_row list \<Rightarrow> json res" where
  "originalFacts rows = rbind (res_map original_fact (sort_key g_id rows)) (\<lambda>fs. Inr (JArr fs))"

text \<open>\<^verbatim>\<open>a?.getTime() === b?.getTime()\<close>\<close>

definition same_time :: "jsdate option \<Rightarrow> jsdate option \<Rightarrow> bool" where
  "same_time a b = (case (a, b) of (None, None) \<Rightarrow> True | (Some (Some x), Some (Some y)) \<Rightarrow> x = y | _ \<Rightarrow> False)"

definition sameLocalGrant :: "('a grant_insert_scheme) \<Rightarrow> ('b grant_insert_scheme) \<Rightarrow> bool" where
  "sameLocalGrant a b \<longleftrightarrow> g_userId a = g_userId b \<and> g_meter a = g_meter b \<and> g_kind a = g_kind b \<and> g_amount a = g_amount b \<and>
     g_subscriptionId a = g_subscriptionId b \<and> g_sourceType a = g_sourceType b \<and> g_sourceId a = g_sourceId b \<and>
     same_time (g_periodStart a) (g_periodStart b) \<and> same_time (g_periodEnd a) (g_periodEnd b)"

text \<open>The parts of the key; joined with colons they determine each other, as only the source may contain one.\<close>

type_synonym local_key = "GrantSource \<times> string \<times> GrantMeter \<times> GrantKind"

definition localKey :: "('a grant_insert_scheme) \<Rightarrow> local_key" where
  "localKey g = (g_sourceType g, g_sourceId g, g_meter g, g_kind g)"

subsection \<open>Receipts\<close>

definition receiptTermsMatch :: "('a outbox_insert_scheme) \<Rightarrow> ('b outbox_insert_scheme) \<Rightarrow> bool" where
  "receiptTermsMatch a b \<longleftrightarrow> ob_userId a = ob_userId b \<and>
     (\<forall>k \<in> {''protocol'', ''entitlementId'', ''credits'', ''expiresAt'', ''invoiceId'', ''paymentIntentId''}. json_same (pay a k) (pay b k))"

text \<open>The last twenty characters of a correction root: \<^verbatim>\<open>:correction-YYYYMMDD\<close>.\<close>

definition correction_parent :: "string \<Rightarrow> string option" where
  "correction_parent s =
     (let n = length s - 20; tail = drop n s in
      if length s > 20 \<and> CHR 0x0A \<notin> set (take n s) \<and> starts_with '':correction-'' tail \<and> list_all is_digit (drop 12 tail)
      then Some (take n s) else None)"

definition bareRevoke :: "outbox_insert \<Rightarrow> outbox_row \<Rightarrow> bool" where
  "bareRevoke root r \<longleftrightarrow> ob_eventKey r = js_text (pay root ''entitlementId'') @ '':revoke'' \<and> ob_kind r = Ai_revoke \<and>
     pay r ''action'' = Some (JStr ''revoke'') \<and> pay r ''eventId'' = Some (JStr (ob_eventKey r)) \<and>
     receiptTermsMatch root (r\<lparr>ob_payload :=
       (if pay r ''invoiceId'' = Some JNull then copied (ob_payload root) ''invoiceId'' @ filter (\<lambda>m. fst m \<noteq> ''invoiceId'') (ob_payload r)
        else ob_payload r)\<rparr>)"

definition delivery_outcome :: "json option \<Rightarrow> string" where
  "delivery_outcome v = (case v of Some (JObj ms) \<Rightarrow> js_text (member_of ms ''outcome'') | _ \<Rightarrow> ''undefined'')"

definition deliveredRestore :: "outbox_row \<Rightarrow> bool" where
  "deliveredRestore r \<longleftrightarrow> ox_deliveredAt r \<noteq> None \<and>
     delivery_outcome (pay r ''delivery'') \<in> {''restored'', ''already_restored''}"

subsection \<open>What is left of the original grants\<close>

fun event_kind :: "credit_event \<Rightarrow> OutboxKind" where
  "event_kind Ev_grant = Ai_grant"
| "event_kind Ev_revoke = Ai_revoke"
| "event_kind (Ev_revoke_for _ _) = Ai_revoke"
| "event_kind (Ev_restore _) = Ai_restore"

fun event_cause :: "credit_event \<Rightarrow> (reversal_cause \<times> string \<times> GrantKind) option" where
  "event_cause (Ev_revoke_for Cause_refund d) = Some (Cause_refund, d, GrantKind.Revoke)"
| "event_cause (Ev_revoke_for Cause_dispute d) = Some (Cause_dispute, d, GrantKind.Suspend)"
| "event_cause (Ev_restore d) = Some (Cause_dispute, d, GrantKind.Restore)"
| "event_cause _ = None"

fun cause_source :: "reversal_cause \<Rightarrow> GrantSource" where
  "cause_source Cause_dispute = Src_dispute"
| "cause_source Cause_refund = Src_refund"

type_synonym linked_rows = "(local_key \<times> string \<times> grant_row) list"

definition cause_proof_ok :: "ai_reversal_input \<Rightarrow> json \<Rightarrow> reversal_cause \<Rightarrow> string \<Rightarrow> json option \<Rightarrow> bool" where
  "cause_proof_ok i facts c d proof = (case proof of
     Some (JObj ms) \<Rightarrow> member_of ms ''causeType'' = Some (JStr (cause_text c)) \<and> member_of ms ''causeId'' = Some (JStr d) \<and>
       member_of ms ''chargeId'' = Some (JStr (ar_chargeId i)) \<and> member_of ms ''customerId'' = Some (JStr (ar_customerId i)) \<and>
       opt_json_eq (member_of ms ''originals'') facts
   | _ \<Rightarrow> False)"

definition row_in_bounds :: "GrantKind \<Rightarrow> grant_row \<Rightarrow> grant_row \<Rightarrow> bool" where
  "row_in_bounds kind original row \<longleftrightarrow>
     (if kind = GrantKind.Restore then 0 \<le> g_amount row \<and> g_amount row \<le> g_amount original
      else g_amount row \<le> 0 \<and> - g_amount original \<le> g_amount row)"

definition reversed_of :: "grant_row \<Rightarrow> GrantKind \<Rightarrow> reversal_cause \<Rightarrow> string \<Rightarrow> grant_row \<Rightarrow> grant_row" where
  "reversed_of original kind c d row =
     original\<lparr>g_kind := kind, g_sourceType := cause_source c, g_sourceId := d, g_amount := g_amount row\<rparr>"

definition link_original :: "grant_row list \<Rightarrow> GrantKind \<Rightarrow> reversal_cause \<Rightarrow> string \<Rightarrow> grant_row \<Rightarrow> linked_rows \<Rightarrow> linked_rows option" where
  "link_original rows kind c d original linked =
     (case find (\<lambda>g. g_meter g = g_meter original) rows of
        None \<Rightarrow> None
      | Some row \<Rightarrow>
          if \<not> sameLocalGrant row (reversed_of original kind c d row) \<or> \<not> row_in_bounds kind original row then None
          else (case map_of linked (localKey row) of
                  Some (o', _) \<Rightarrow> if o' \<noteq> g_id original then None else Some (map_set (localKey row) (g_id original, row) linked)
                | None \<Rightarrow> Some (map_set (localKey row) (g_id original, row) linked)))"

fun opt_fold :: "('a \<Rightarrow> 's \<Rightarrow> 's option) \<Rightarrow> 'a list \<Rightarrow> 's \<Rightarrow> 's option" where
  "opt_fold f [] s = Some s"
| "opt_fold f (x # xs) s = (case f x s of None \<Rightarrow> None | Some t \<Rightarrow> opt_fold f xs t)"

definition delta_json :: "string \<Rightarrow> GrantMeter \<Rightarrow> int \<Rightarrow> json" where
  "delta_json oid meter amount = JObj [(''originalGrantId'', JStr oid), (''meter'', JStr (meter_text meter)), (''amount'', JStr (show_int amount))]"

definition frozen_deltas :: "grant_row list \<Rightarrow> grant_row list \<Rightarrow> json" where
  "frozen_deltas originals rows = JArr (map (\<lambda>original. delta_json (g_id original) (g_meter original)
     (case find (\<lambda>g. g_meter g = g_meter original) rows of None \<Rightarrow> 0 | Some row \<Rightarrow> g_amount row)) (sort_key g_id originals))"

definition cause_rows :: "grant_row list \<Rightarrow> reversal_cause \<Rightarrow> string \<Rightarrow> GrantKind \<Rightarrow> grant_row list" where
  "cause_rows corrections c d kind = filter (\<lambda>g. g_sourceType g = cause_source c \<and> g_sourceId g = d \<and> g_kind g = kind) corrections"

definition link_receipt :: "ai_reversal_input \<Rightarrow> json \<Rightarrow> grant_row list \<Rightarrow> outbox_row \<Rightarrow> linked_rows \<Rightarrow> linked_rows option" where
  "link_receipt i facts corrections receipt linked =
     (let root = js_text (pay receipt ''entitlementId'') in
      if \<not> (\<exists>r \<in> set (ar_receipts i). pay r ''entitlementId'' = Some (JStr root)) then Some linked
      else case parseAiCreditEventId root (ob_eventKey receipt) (js_text (pay receipt ''action'')) of
        None \<Rightarrow> None
      | Some event \<Rightarrow>
          if ob_kind receipt \<noteq> event_kind event then None
          else case event_cause event of
            None \<Rightarrow> Some linked
          | Some (c, d, kind) \<Rightarrow>
              if \<not> cause_proof_ok i facts c d (pay receipt ''reversal'') \<or> ob_userId receipt \<noteq> ar_userId i then None
              else let rows = cause_rows corrections c d kind in
                if length rows \<noteq> length (ar_originals i) then None
                else case opt_fold (link_original rows kind c d) (ar_originals i) linked of
                  None \<Rightarrow> None
                | Some linked' \<Rightarrow>
                    if pay receipt ''localDeltas'' \<noteq> None \<and>
                       \<not> opt_json_eq (pay receipt ''localDeltas'') (frozen_deltas (ar_originals i) rows)
                    then None else Some linked')"

definition linked_sum :: "string \<Rightarrow> linked_rows \<Rightarrow> int" where
  "linked_sum oid linked = sum_list (map (\<lambda>(k, o', row). if o' = oid then g_amount row else 0) linked)"

definition settle :: "ai_reversal_input \<Rightarrow> grant_row list \<Rightarrow> linked_rows \<Rightarrow> grant_row \<times> grant_insert \<Rightarrow> grant_insert option" where
  "settle i corrections linked = (\<lambda>(original, grant).
     let remaining = g_amount original + linked_sum (g_id original) linked in
     if remaining < 0 \<or> remaining > g_amount original then None
     else case find (\<lambda>g. localKey g = localKey grant) corrections of
       Some existing \<Rightarrow> if map_of linked (localKey existing) = None then None else Some (grant\<lparr>g_amount := g_amount existing\<rparr>)
     | None \<Rightarrow>
         if ar_action i = Do_restore
         then (case map_of linked (localKey (grant\<lparr>g_kind := GrantKind.Suspend\<rparr>)) of
                 None \<Rightarrow> None
               | Some (_, suspend) \<Rightarrow>
                   if - g_amount suspend > g_amount original - remaining then None
                   else Some (grant\<lparr>g_amount := - g_amount suspend\<rparr>))
         else Some (grant\<lparr>g_amount := - remaining\<rparr>))"

fun opt_map :: "('a \<Rightarrow> 'b option) \<Rightarrow> 'a list \<Rightarrow> 'b list option" where
  "opt_map f [] = Some []"
| "opt_map f (x # xs) = (case f x of None \<Rightarrow> None | Some y \<Rightarrow> map_option ((#) y) (opt_map f xs))"

definition bound_rows :: "ai_reversal_input \<Rightarrow> json \<Rightarrow> grant_row list \<Rightarrow> outbox_row list \<Rightarrow> linked_rows option" where
  "bound_rows i facts corrections receipts = opt_fold (link_receipt i facts corrections) receipts []"

definition localReversalDeltas :: "ai_reversal_input \<Rightarrow> json \<Rightarrow> grant_row list \<Rightarrow> outbox_row list \<Rightarrow> grant_insert list \<Rightarrow> grant_insert list option" where
  "localReversalDeltas i facts corrections receipts grants =
     (case bound_rows i facts corrections receipts of
        None \<Rightarrow> None
      | Some linked \<Rightarrow> opt_map (settle i corrections linked) (zip (ar_originals i) grants))"

subsection \<open>The sources of a receipt\<close>

definition upgradeRootMatches :: "string \<Rightarrow> string \<Rightarrow> grant_row \<Rightarrow> bool res" where
  "upgradeRootMatches entitlementId expiresAt g =
     rbind (parseAiUpgradeEntitlement entitlementId) (\<lambda>root.
       case (root, g_periodStart g, g_periodEnd g) of
         (Some (sub, at), Some (Some start), Some (Some stop)) \<Rightarrow>
           if g_subscriptionId g = Some sub \<and> start \<le> at \<and> at < stop
           then rbind (expires_text (stop + 3 * AI_DAY)) (\<lambda>x. Inr (expiresAt = x)) else Inr False
       | _ \<Rightarrow> Inr False)"

definition plan_roots :: "string \<Rightarrow> string \<Rightarrow> json option list" where
  "plan_roots sub start = map (\<lambda>sku. Some (JStr (''ezil-os:v1:'' @ sku3_string sku @ '':'' @ sub @ '':'' @ start)))
     [Standard_monthly_v3, Premium_monthly_v3]"

definition source_match :: "outbox_insert \<Rightarrow> grant_row \<Rightarrow> bool res" where
  "source_match r g =
     (if g_sourceType g = Src_payment_intent then
        if pay r ''paymentIntentId'' = Some (JStr (g_sourceId g)) \<and>
           pay r ''entitlementId'' = Some (JStr (topup_root (js_text (pay r ''packSku'')) (g_sourceId g)))
        then (case g_periodEnd g of None \<Rightarrow> Inr (pay r ''expiresAt'' = None)
              | Some t \<Rightarrow> rbind (toISOString t) (\<lambda>x. Inr (pay r ''expiresAt'' = Some (JStr x))))
        else Inr False
      else if pay r ''invoiceId'' \<noteq> Some (JStr (g_sourceId g)) then Inr False
      else if g_kind g = Plan_period \<and> \<not> blank (g_subscriptionId g) \<and> g_periodStart g \<noteq> None
        then rbind (toISOString (the (g_periodStart g))) (\<lambda>start.
               Inr (pay r ''entitlementId'' \<in> set (plan_roots (the (g_subscriptionId g)) start)))
      else if g_kind g = Upgrade_prorated
        then upgradeRootMatches (js_text (pay r ''entitlementId'')) (js_text (pay r ''expiresAt'')) g
      else Inr False)"

definition matchesSource :: "reversal_snapshot \<Rightarrow> outbox_insert \<Rightarrow> bool res" where
  "matchesSource snap r = rbind (find_res (source_match r) (rs_originals snap)) (\<lambda>o'. Inr (o' \<noteq> None))"

definition same_root :: "('a outbox_insert_scheme) \<Rightarrow> ('b outbox_insert_scheme) \<Rightarrow> bool" where
  "same_root a b \<longleftrightarrow> json_same (pay a ''entitlementId'') (pay b ''entitlementId'')"

definition account_of :: "('a outbox_insert_scheme) \<Rightarrow> string list" where
  "account_of r = (case pay r ''accountPublicId'' of Some (JStr s) \<Rightarrow> if s \<noteq> [] then [s] else [] | _ \<Rightarrow> [])"

text \<open>A \<^verbatim>\<open>Set\<close> keeps the first occurrence.\<close>

definition accountsOf :: "reversal_snapshot \<Rightarrow> outbox_insert \<Rightarrow> string list" where
  "accountsOf snap root =
     rev (remdups (rev (account_of root @ concat (map account_of (filter (\<lambda>r. same_root r root) (rs_receipts snap))))))"

definition operatorRevoked :: "reversal_snapshot \<Rightarrow> outbox_insert \<Rightarrow> bool" where
  "operatorRevoked snap root \<longleftrightarrow> (\<exists>r \<in> set (rs_receipts snap). same_root r root \<and> bareRevoke root r)"

subsection \<open>Planning one receipt\<close>

datatype plan_stop = Refused string | Thrown jserror

definition or_throw :: "'a res \<Rightarrow> plan_stop + 'a" where
  "or_throw r = (case r of Inl e \<Rightarrow> Inl (Thrown e) | Inr x \<Rightarrow> Inr x)"

definition require :: "bool \<Rightarrow> string \<Rightarrow> plan_stop + unit" where
  "require ok outcome = (if ok then Inr () else Inl (Refused outcome))"

definition mismatch :: string where "mismatch = ''review:restore_mismatch''"

definition whole_credits :: "json option \<Rightarrow> int option" where
  "whole_credits v = (case v of Some (JInt n) \<Rightarrow> if is_safe_integer n then Some n else None | _ \<Rightarrow> None)"

text \<open>The entitlement of a receipt that is a well-formed grant of the owner.\<close>

definition valid_root :: "ai_reversal_input \<Rightarrow> outbox_insert \<Rightarrow> string option" where
  "valid_root i root =
     (case (pay root ''entitlementId'', pay root ''eventId'', whole_credits (pay root ''credits''), pay root ''expiresAt'') of
        (Some (JStr eid), Some (JStr ev), Some credits, Some (JStr expires)) \<Rightarrow>
          if ob_userId root = ar_userId i \<and> ob_kind root = Ai_grant \<and> pay root ''protocol'' = Some (JStr AI_CREDIT_PROTOCOL) \<and>
             ob_eventKey root = ev \<and> parseAiCreditEventId eid ev ''grant'' \<noteq> None \<and> pay root ''action'' = Some (JStr ''grant'') \<and>
             1 \<le> credits \<and> credits \<le> 1000000 \<and> parse_iso expires \<noteq> None
          then Some eid else None
      | _ \<Rightarrow> None)"

definition number_le :: "json option \<Rightarrow> json option \<Rightarrow> bool" where
  "number_le a b = (case (a, b) of (Some (JInt x), Some (JInt y)) \<Rightarrow> x \<le> y | _ \<Rightarrow> False)"

definition child_of :: "reversal_snapshot \<Rightarrow> outbox_insert \<Rightarrow> outbox_insert \<Rightarrow> bool" where
  "child_of snap parent root \<longleftrightarrow> json_same (pay parent ''invoiceId'') (pay root ''invoiceId'') \<and>
     json_same (pay parent ''expiresAt'') (pay root ''expiresAt'') \<and>
     json_same (pay parent ''paymentIntentId'') (pay root ''paymentIntentId'') \<and>
     number_le (pay root ''credits'') (pay parent ''credits'') \<and> accountsOf snap parent = accountsOf snap root"

definition sourced :: "ai_reversal_input \<Rightarrow> reversal_snapshot \<Rightarrow> string \<Rightarrow> outbox_insert \<Rightarrow> bool res" where
  "sourced i snap eid root =
     rbind (matchesSource snap root) (\<lambda>own.
       if own then Inr True
       else case (case correction_parent eid of None \<Rightarrow> None
                  | Some pid \<Rightarrow> find (\<lambda>r. pay r ''entitlementId'' = Some (JStr pid)) (ar_receipts i)) of
              None \<Rightarrow> Inr False
            | Some parent \<Rightarrow> rbind (matchesSource snap parent) (\<lambda>m. Inr (m \<and> child_of snap parent root)))"

definition cause_type :: "reversal_action \<Rightarrow> reversal_cause" where
  "cause_type a = (if a = Do_revoke then Cause_refund else Cause_dispute)"

definition reversal_proof :: "ai_reversal_input \<Rightarrow> json \<Rightarrow> json" where
  "reversal_proof i facts = JObj [(''causeType'', JStr (cause_text (cause_type (ar_action i)))), (''causeId'', JStr (ar_causeId i)),
     (''chargeId'', JStr (ar_chargeId i)), (''customerId'', JStr (ar_customerId i)), (''originals'', facts)]"

definition reversal_item :: "ai_reversal_input \<Rightarrow> outbox_insert \<Rightarrow> outbox_insert res" where
  "reversal_item i root = (if ar_action i = Do_restore then aiCreditRestoreItem root (ar_causeId i)
     else aiCreditRevokeItem root (Some (cause_type (ar_action i), ar_causeId i)))"

definition with_proof :: "json \<Rightarrow> string list \<Rightarrow> outbox_insert \<Rightarrow> outbox_insert" where
  "with_proof proof accounts item = item\<lparr>ob_payload :=
     (case accounts of [] \<Rightarrow> map_set ''reversal'' proof (ob_payload item)
      | a # _ \<Rightarrow> map_set ''accountPublicId'' (JStr a) (map_set ''reversal'' proof (ob_payload item)))\<rparr>"

text \<open>A row of the same dispute or refund must be of this very purchase and owner.\<close>

definition foreign_cause :: "ai_reversal_input \<Rightarrow> json \<Rightarrow> outbox_row \<Rightarrow> bool" where
  "foreign_cause i proof r = (case pay r ''reversal'' of
     Some (JObj ms) \<Rightarrow> member_of ms ''causeType'' = Some (JStr (cause_text (cause_type (ar_action i)))) \<and>
       member_of ms ''causeId'' = Some (JStr (ar_causeId i)) \<and>
       (\<not> json_eq (JObj ms) proof \<or> ob_userId r \<noteq> ar_userId i \<or> \<not> (\<exists>x \<in> set (ar_receipts i). same_root x r))
   | _ \<Rightarrow> False)"

definition family_of :: "reversal_snapshot \<Rightarrow> string \<Rightarrow> outbox_row list" where
  "family_of snap eid = filter (\<lambda>r. pay r ''entitlementId'' = Some (JStr eid)) (rs_receipts snap)"

definition event_of :: "string \<Rightarrow> outbox_row \<Rightarrow> credit_event option" where
  "event_of eid r = parseAiCreditEventId eid (ob_eventKey r) (js_text (pay r ''action''))"

text \<open>Another dispute of the same root whose credits were not delivered back.\<close>

definition other_dispute_open :: "ai_reversal_input \<Rightarrow> string \<Rightarrow> outbox_row list \<Rightarrow> outbox_row \<Rightarrow> bool" where
  "other_dispute_open i eid family r = (case event_of eid r of
     Some (Ev_revoke_for Cause_dispute d) \<Rightarrow>
       d \<noteq> ar_causeId i \<and> \<not> (\<exists>done \<in> set family. ob_eventKey done = restore_id eid d \<and> deliveredRestore done)
   | _ \<Rightarrow> False)"

definition terminal_revoke :: "string \<Rightarrow> outbox_row \<Rightarrow> bool" where
  "terminal_revoke eid r = (case event_of eid r of
     Some Ev_revoke \<Rightarrow> True | Some (Ev_revoke_for Cause_refund _) \<Rightarrow> True | _ \<Rightarrow> False)"

definition suspended_by :: "ai_reversal_input \<Rightarrow> grant_row list \<Rightarrow> grant_insert list \<Rightarrow> bool" where
  "suspended_by i corrections grants =
     (let suspended = filter (\<lambda>g. g_sourceType g = Src_dispute \<and> g_sourceId g = ar_causeId i \<and> g_kind g = GrantKind.Suspend) corrections in
      length suspended = length grants \<and>
      (\<forall>g \<in> set grants. \<exists>x \<in> set suspended. g_amount x \<le> 0 \<and> - g_amount g \<le> g_amount x \<and>
         sameLocalGrant x (g\<lparr>g_kind := GrantKind.Suspend, g_amount := g_amount x\<rparr>)))"

definition restore_allowed :: "ai_reversal_input \<Rightarrow> reversal_snapshot \<Rightarrow> grant_insert list \<Rightarrow> json \<Rightarrow> string \<Rightarrow> string list \<Rightarrow> bool
    \<Rightarrow> plan_stop + unit" where
  "restore_allowed i snap grants proof eid accounts revoked =
     (let family = family_of snap eid in
      rbind (require (\<not> revoked) ''review:restore_refused_terminal'') (\<lambda>_.
      case find (\<lambda>r. ob_eventKey r = revoke_id eid (Some (Cause_dispute, ar_causeId i))) family of
        None \<Rightarrow> Inl (Refused ''failed:restore_suspend_pending'')
      | Some suspend \<Rightarrow>
          rbind (require (ob_kind suspend = Ai_revoke \<and> pay suspend ''action'' = Some (JStr ''revoke'') \<and>
                   opt_json_eq (pay suspend ''reversal'') proof) mismatch) (\<lambda>_.
          rbind (require (accounts \<noteq> [] \<and> pay suspend ''accountPublicId'' = Some (JStr (hd accounts)))
                   ''failed:restore_account_pending'') (\<lambda>_.
          rbind (require (\<not> list_ex (terminal_revoke eid) family) ''review:restore_refused_terminal'') (\<lambda>_.
          rbind (require (\<not> list_ex (\<lambda>r. pay r ''overlappingDisputes'' = Some (JBool True) \<or> other_dispute_open i eid family r) family)
                   ''review:restore_review_required'') (\<lambda>_.
            require (suspended_by i (rs_corrections snap) grants) mismatch))))))"

definition restore_gate :: "ai_reversal_input \<Rightarrow> reversal_snapshot \<Rightarrow> grant_insert list \<Rightarrow> json \<Rightarrow> string \<Rightarrow> string list \<Rightarrow> bool
    \<Rightarrow> outbox_row option \<Rightarrow> plan_stop + unit" where
  "restore_gate i snap grants proof eid accounts revoked previous =
     (if ar_action i = Do_restore \<and> previous = None then restore_allowed i snap grants proof eid accounts revoked else Inr ())"

text \<open>The item to insert for one receipt, or none when it exists or the operator revoked the root.\<close>

definition emitted :: "ai_reversal_input \<Rightarrow> string \<Rightarrow> outbox_row list \<Rightarrow> bool \<Rightarrow> outbox_row option \<Rightarrow> outbox_insert \<Rightarrow> outbox_insert option" where
  "emitted i eid family revoked previous item =
     (if previous \<noteq> None \<or> revoked then None
      else if ar_action i = Do_suspend
      then Some (item\<lparr>ob_payload := map_set ''overlappingDisputes'' (JBool (list_ex (other_dispute_open i eid family) family)) (ob_payload item)\<rparr>)
      else Some item)"

definition plan_root :: "ai_reversal_input \<Rightarrow> reversal_snapshot \<Rightarrow> grant_insert list \<Rightarrow> json \<Rightarrow> outbox_insert
    \<Rightarrow> plan_stop + outbox_insert option" where
  "plan_root i snap grants proof root =
     (case valid_root i root of None \<Rightarrow> Inl (Refused mismatch) | Some eid \<Rightarrow>
      rbind (or_throw (sourced i snap eid root)) (\<lambda>ok.
      rbind (require ok mismatch) (\<lambda>_.
      let family = family_of snap eid; revoked = operatorRevoked snap root; accounts = accountsOf snap root in
      rbind (require (\<forall>r \<in> set family. receiptTermsMatch root r \<or> bareRevoke root r) mismatch) (\<lambda>_.
      rbind (require (length accounts \<le> 1) mismatch) (\<lambda>_.
      case reversal_item i root of Inl _ \<Rightarrow> Inl (Refused ''review:invalid_ai_event_id'') | Inr made \<Rightarrow>
      let item = with_proof proof accounts made;
          previous = find (\<lambda>r. ob_eventKey r = ob_eventKey item) (rs_receipts snap) in
      rbind (require (case previous of None \<Rightarrow> True | Some r \<Rightarrow> receiptTermsMatch item r \<and> ob_kind r = ob_kind item \<and>
               opt_json_eq (pay r ''reversal'') proof \<and> json_same (pay r ''accountPublicId'') (pay item ''accountPublicId'')) mismatch) (\<lambda>_.
      rbind (require (\<not> list_ex (foreign_cause i proof) (rs_receipts snap)) mismatch) (\<lambda>_.
      rbind (restore_gate i snap grants proof eid accounts revoked previous) (\<lambda>_.
        Inr (emitted i eid family revoked previous item)))))))))"

subsection \<open>The plan\<close>

definition reversal_kind :: "reversal_action \<Rightarrow> GrantKind" where
  "reversal_kind a = (case a of Do_suspend \<Rightarrow> GrantKind.Suspend | Do_revoke \<Rightarrow> GrantKind.Revoke | Do_restore \<Rightarrow> GrantKind.Restore)"

definition reversal_grant :: "ai_reversal_input \<Rightarrow> grant_row \<Rightarrow> grant_insert" where
  "reversal_grant i g = \<lparr>g_userId = ar_userId i, g_meter = g_meter g, g_kind = reversal_kind (ar_action i),
     g_amount = (if ar_action i = Do_restore then g_amount g else - g_amount g),
     g_periodStart = g_periodStart g, g_periodEnd = g_periodEnd g,
     g_sourceType = cause_source (cause_type (ar_action i)), g_sourceId = ar_causeId i, g_subscriptionId = g_subscriptionId g\<rparr>"

record reversal_plan =
  rp_grants :: "grant_insert list"
  rp_outbox :: "outbox_insert list"

definition with_deltas :: "json \<Rightarrow> outbox_insert \<Rightarrow> outbox_insert" where
  "with_deltas deltas item = item\<lparr>ob_payload := map_set ''localDeltas'' deltas (ob_payload item)\<rparr>"

definition planned_deltas :: "grant_row list \<Rightarrow> grant_insert list \<Rightarrow> json" where
  "planned_deltas originals grants = JArr (map (\<lambda>(original, g). delta_json (g_id original) (g_meter original) (g_amount g))
     (sort_key (\<lambda>(original, _). g_id original) (zip originals grants)))"

definition finish_plan :: "ai_reversal_input \<Rightarrow> reversal_snapshot \<Rightarrow> grant_insert list \<Rightarrow> outbox_insert list \<Rightarrow> plan_stop + reversal_plan" where
  "finish_plan i snap grants outbox =
     (let corrections = rs_corrections snap;
          missing = filter (\<lambda>g. \<not> (\<exists>x \<in> set corrections. localKey x = localKey g)) grants in
      rbind (require (\<not> (\<exists>g \<in> set grants. \<exists>x \<in> set corrections. localKey x = localKey g \<and> \<not> sameLocalGrant x g)) mismatch) (\<lambda>_.
      rbind (require (ar_action i = Do_restore \<longrightarrow> (outbox = [] \<longleftrightarrow> missing = []) \<and>
          (outbox \<noteq> [] \<longrightarrow> length outbox = length (ar_receipts i) \<and> length missing = length grants)) mismatch) (\<lambda>_.
        Inr \<lparr>rp_grants = missing, rp_outbox = map (with_deltas (planned_deltas (ar_originals i) grants)) outbox\<rparr>)))"

definition originals_ok :: "ai_reversal_input \<Rightarrow> bool" where
  "originals_ok i \<longleftrightarrow> ar_originals i \<noteq> [] \<and> (\<forall>g \<in> set (ar_originals i). g_userId g = ar_userId i \<and> 0 < g_amount g \<and>
     g_sourceType g \<in> {Src_invoice, Src_payment_intent})"

definition plan_reversal :: "ai_reversal_input \<Rightarrow> reversal_snapshot \<Rightarrow> plan_stop + reversal_plan" where
  "plan_reversal i snap =
     rbind (require (ar_receipts i \<noteq> []) ''review:restore_receipt_missing'') (\<lambda>_.
     rbind (require (originals_ok i) mismatch) (\<lambda>_.
     rbind (or_throw (originalFacts (ar_originals i))) (\<lambda>facts.
     rbind (or_throw (originalFacts (rs_originals snap))) (\<lambda>stored.
     rbind (require (json_eq facts stored) mismatch) (\<lambda>_.
     let grants = map (reversal_grant i) (ar_originals i); proof = reversal_proof i stored in
     rbind (require (distinct (map localKey grants)) mismatch) (\<lambda>_.
     rbind (require (ar_action i = Do_restore \<or> \<not> list_all (operatorRevoked snap) (ar_receipts i)) mismatch) (\<lambda>_.
     rbind (res_map (plan_root i snap grants proof) (ar_receipts i)) (\<lambda>items.
     rbind (require (distinct (map (\<lambda>r. pay r ''entitlementId'') (ar_receipts i))) mismatch) (\<lambda>_.
       case localReversalDeltas i facts (rs_corrections snap) (rs_receipts snap) grants of
         None \<Rightarrow> Inl (Refused (if ar_action i = Do_restore then mismatch else ''review:local_reversal_mismatch''))
       | Some settled \<Rightarrow> finish_plan i snap settled (concat (map opt_list items)))))))))))"

record plan_answer =
  pa_outcome :: string
  pa_grants :: "grant_insert list"
  pa_outbox :: "outbox_insert list"

definition planAiReversal :: "ai_reversal_input \<Rightarrow> reversal_snapshot \<Rightarrow> plan_answer res" where
  "planAiReversal i snap = (case plan_reversal i snap of
     Inl (Thrown e) \<Rightarrow> Inl e
   | Inl (Refused outcome) \<Rightarrow> Inr \<lparr>pa_outcome = outcome, pa_grants = [], pa_outbox = []\<rparr>
   | Inr p \<Rightarrow> Inr \<lparr>pa_outcome = ''applied'', pa_grants = rp_grants p, pa_outbox = rp_outbox p\<rparr>)"

subsection \<open>Inversion\<close>

lemma require_Inr [simp]: "require ok out = Inr u \<longleftrightarrow> ok"
  by (simp add: require_def)

lemma or_throw_Inr [simp]: "or_throw r = Inr x \<longleftrightarrow> r = Inr x"
  by (simp add: or_throw_def split: sum.split)

lemma opt_fold_invariant:
  assumes "opt_fold f xs s = Some t" and "P s" and "\<And>x s t. x \<in> set xs \<Longrightarrow> P s \<Longrightarrow> f x s = Some t \<Longrightarrow> P t"
  shows "P t"
  using assms
proof (induction xs arbitrary: s)
  case (Cons x xs)
  then obtain u where u: "f x s = Some u" "opt_fold f xs u = Some t" by (auto split: option.splits)
  have "P u" by (rule Cons.prems(3) [OF _ Cons.prems(2) u(1)]) simp
  then show ?case by (rule Cons.IH [OF u(2)]) (rule Cons.prems(3), auto)
qed simp

lemma opt_map_Some: "opt_map f xs = Some ys \<Longrightarrow> list_all2 (\<lambda>x y. f x = Some y) xs ys"
  by (induction xs arbitrary: ys) (auto split: option.splits)

lemma list_all2_mem: "list_all2 P xs ys \<Longrightarrow> y \<in> set ys \<Longrightarrow> \<exists>x \<in> set xs. P x y"
  by (induction rule: list_all2_induct) auto

lemma mem_map_set: "p \<in> set (map_set k v l) \<Longrightarrow> p = (k, v) \<or> p \<in> set l"
  by (induction l) (auto split: if_splits)

text \<open>What is linked is a row of the ledger, under its own key, and a suspension never gives.\<close>

definition linked_ok :: "grant_row list \<Rightarrow> linked_rows \<Rightarrow> bool" where
  "linked_ok corrections linked \<longleftrightarrow> (\<forall>(k, o', row) \<in> set linked. k = localKey row \<and> row \<in> set corrections \<and>
     (g_kind row = GrantKind.Suspend \<longrightarrow> g_amount row \<le> 0))"

lemma link_original_ok:
  assumes "link_original rows kind c d original linked = Some linked'" and "linked_ok corrections linked"
    and rows: "\<And>g. g \<in> set rows \<Longrightarrow> g \<in> set corrections \<and> g_kind g = kind"
  shows "linked_ok corrections linked'"
proof -
  from assms(1) obtain row where f: "find (\<lambda>g. g_meter g = g_meter original) rows = Some row"
    by (auto simp: link_original_def split: option.splits)
  then have row: "row \<in> set corrections" "g_kind row = kind" using rows find_Some_iff_first by force+
  from assms(1) f have l: "linked' = map_set (localKey row) (g_id original, row) linked" "row_in_bounds kind original row"
    by (auto simp: link_original_def split: option.splits if_splits)
  have b: "g_kind row = GrantKind.Suspend \<Longrightarrow> g_amount row \<le> 0" using l(2) row(2) by (simp add: row_in_bounds_def split: if_splits)
  show ?thesis
    unfolding linked_ok_def l(1)
  proof (rule ballI)
    fix p assume "p \<in> set (map_set (localKey row) (g_id original, row) linked)"
    then have "p = (localKey row, g_id original, row) \<or> p \<in> set linked" by (rule mem_map_set)
    then show "case p of (k, o', row) \<Rightarrow> k = localKey row \<and> row \<in> set corrections \<and> (g_kind row = GrantKind.Suspend \<longrightarrow> g_amount row \<le> 0)"
      using b row(1) assms(2) by (auto simp: linked_ok_def)
  qed
qed

lemma link_receipt_cases:
  assumes "link_receipt i facts corrections receipt linked = Some linked'"
  shows "linked' = linked \<or> (\<exists>c d kind. opt_fold (link_original (cause_rows corrections c d kind) kind c d) (ar_originals i) linked = Some linked')"
  using assms unfolding link_receipt_def Let_def
  by (simp split: if_split_asm option.split_asm prod.split_asm) blast

lemma link_receipt_ok:
  assumes "link_receipt i facts corrections receipt linked = Some linked'" and "linked_ok corrections linked"
  shows "linked_ok corrections linked'"
  using link_receipt_cases [OF assms(1)]
proof (elim disjE exE)
  fix c d kind assume f: "opt_fold (link_original (cause_rows corrections c d kind) kind c d) (ar_originals i) linked = Some linked'"
  show ?thesis
  proof (rule opt_fold_invariant [where P = "linked_ok corrections", OF f assms(2)])
    fix x l l' assume "linked_ok corrections l" "link_original (cause_rows corrections c d kind) kind c d x l = Some l'"
    then show "linked_ok corrections l'" by (intro link_original_ok [of "cause_rows corrections c d kind" kind c d x l l' corrections]) (auto simp: cause_rows_def)
  qed
qed (use assms in simp)

lemma bound_rows_ok:
  assumes "bound_rows i facts corrections receipts = Some linked" shows "linked_ok corrections linked"
  using assms unfolding bound_rows_def
proof (rule opt_fold_invariant)
  show "linked_ok corrections []" by (simp add: linked_ok_def)
qed (rule link_receipt_ok)

lemma plan_Inr:
  assumes "plan_reversal i snap = Inr p"
  obtains facts stored items settled where "originals_ok i" "originalFacts (ar_originals i) = Inr facts"
    "originalFacts (rs_originals snap) = Inr stored" "json_eq facts stored"
    "distinct (map localKey (map (reversal_grant i) (ar_originals i)))"
    "res_map (plan_root i snap (map (reversal_grant i) (ar_originals i)) (reversal_proof i stored)) (ar_receipts i) = Inr items"
    "localReversalDeltas i facts (rs_corrections snap) (rs_receipts snap) (map (reversal_grant i) (ar_originals i)) = Some settled"
    "finish_plan i snap settled (concat (map opt_list items)) = Inr p"
  using assms by (auto simp: plan_reversal_def Let_def split: option.splits)

lemma finish_Inr:
  assumes "finish_plan i snap grants outbox = Inr p"
  shows "rp_grants p = filter (\<lambda>g. \<not> (\<exists>x \<in> set (rs_corrections snap). localKey x = localKey g)) grants \<and>
    rp_outbox p = map (with_deltas (planned_deltas (ar_originals i) grants)) outbox"
  using assms by (auto simp: finish_plan_def Let_def)

text \<open>A settled row of an original that no row of the ledger settles yet.\<close>

lemma settle_bounds:
  assumes "settle i corrections linked (original, grant) = Some g" and "linked_ok corrections linked"
    and "\<not> (\<exists>x \<in> set corrections. localKey x = localKey g)"
  shows "let left = g_amount original + linked_sum (g_id original) linked in
     0 \<le> left \<and> left \<le> g_amount original \<and> 0 \<le> left + g_amount g \<and> left + g_amount g \<le> g_amount original \<and>
     (ar_action i \<noteq> Do_restore \<longrightarrow> g_amount g = - left) \<and> (ar_action i = Do_restore \<longrightarrow> 0 \<le> g_amount g)"
proof -
  let ?left = "g_amount original + linked_sum (g_id original) linked"
  have b: "0 \<le> ?left" "?left \<le> g_amount original"
    using assms(1) by (auto simp: settle_def Let_def split: if_splits)
  have key: "localKey g = localKey grant"
    using assms(1) by (auto simp: settle_def Let_def localKey_def split: if_splits option.splits)
  then have none: "find (\<lambda>g. localKey g = localKey grant) corrections = None"
    using assms(3) by (auto simp: find_None_iff)
  show ?thesis
  proof (cases "ar_action i = Do_restore")
    case True
    then obtain o' suspend where l: "map_of linked (localKey (grant\<lparr>g_kind := GrantKind.Suspend\<rparr>)) = Some (o', suspend)"
        "- g_amount suspend \<le> g_amount original - ?left" "g_amount g = - g_amount suspend"
      using assms(1) b none by (auto simp: settle_def Let_def split: option.splits if_splits)
    from map_of_SomeD [OF l(1)] assms(2) have "g_amount suspend \<le> 0"
      by (auto simp: linked_ok_def localKey_def)
    with True b l show ?thesis by (simp add: Let_def)
  next
    case False
    then have "g_amount g = - ?left" using assms(1) b none by (auto simp: settle_def Let_def)
    with False b show ?thesis by (simp add: Let_def)
  qed
qed

lemma settle_terms:
  "settle i corrections linked (original, grant) = Some g \<Longrightarrow> g = grant\<lparr>g_amount := g_amount g\<rparr>"
  by (auto simp: settle_def Let_def split: if_splits option.splits)

lemma localReversalDeltas_Some:
  assumes "localReversalDeltas i facts corrections receipts (map (reversal_grant i) (ar_originals i)) = Some settled"
  obtains linked where "bound_rows i facts corrections receipts = Some linked" "linked_ok corrections linked"
    "list_all2 (\<lambda>o' g. settle i corrections linked (o', reversal_grant i o') = Some g) (ar_originals i) settled"
proof -
  from assms obtain linked where l: "bound_rows i facts corrections receipts = Some linked"
      "opt_map (settle i corrections linked) (zip (ar_originals i) (map (reversal_grant i) (ar_originals i))) = Some settled"
    by (auto simp: localReversalDeltas_def split: option.splits)
  have "zip (ar_originals i) (map (reversal_grant i) (ar_originals i)) = map (\<lambda>o'. (o', reversal_grant i o')) (ar_originals i)"
    by (simp add: zip_map2 zip_same_conv_map)
  with opt_map_Some [OF l(2)] have "list_all2 (\<lambda>o' g. settle i corrections linked (o', reversal_grant i o') = Some g) (ar_originals i) settled"
    by (simp add: list_all2_map1)
  with l(1) bound_rows_ok [OF l(1)] show ?thesis by (rule that)
qed

lemma settled_keys:
  assumes "list_all2 (\<lambda>o' g. settle i corrections linked (o', reversal_grant i o') = Some g) os settled"
  shows "map localKey settled = map localKey (map (reversal_grant i) os)"
  using assms
proof (induction rule: list_all2_induct)
  case (Cons o' os g gs)
  have "localKey g = localKey (reversal_grant i o')"
    using settle_terms [OF Cons.hyps(1)] by (metis localKey_def grant_insert.update_convs(4) grant_insert.select_convs grant_insert.surjective)
  with Cons show ?case by simp
qed simp

lemma pay_map_set [simp]: "pay (item\<lparr>ob_payload := map_set k v p\<rparr>) k' = (if k = k' then Some v else member_of p k')"
  by (simp add: pay_def member_of_def)

lemma member_map_set [simp]: "member_of (map_set k v p) k' = (if k = k' then Some v else member_of p k')"
  by (simp add: member_of_def)

lemma plan_root_Some:
  assumes "plan_root i snap grants proof root = Inr (Some item)"
  obtains eid made item' where "valid_root i root = Some eid" "reversal_item i root = Inr made"
    "item' = with_proof proof (accountsOf snap root) made" "\<not> operatorRevoked snap root"
    "\<forall>r \<in> set (rs_receipts snap). ob_eventKey r \<noteq> ob_eventKey item'"
    "ar_action i = Do_restore \<longrightarrow> restore_allowed i snap grants proof eid (accountsOf snap root) False = Inr ()"
    "item = item' \<or> (\<exists>b. ar_action i = Do_suspend \<and> item = item'\<lparr>ob_payload := map_set ''overlappingDisputes'' (JBool b) (ob_payload item')\<rparr>)"
proof -
  from assms obtain eid where v: "valid_root i root = Some eid" by (auto simp: plan_root_def split: option.splits)
  from assms v obtain made where m: "reversal_item i root = Inr made"
    by (auto simp: plan_root_def Let_def split: sum.splits)
  let ?item = "with_proof proof (accountsOf snap root) made"
  let ?prev = "find (\<lambda>r. ob_eventKey r = ob_eventKey ?item) (rs_receipts snap)"
  from assms v m have g: "restore_gate i snap grants proof eid (accountsOf snap root) (operatorRevoked snap root) ?prev = Inr ()"
      and o': "emitted i eid (family_of snap eid) (operatorRevoked snap root) ?prev ?item = Some item"
    by (auto simp: plan_root_def Let_def)
  from o' have n: "?prev = None" "\<not> operatorRevoked snap root" by (auto simp: emitted_def split: if_splits)
  have keys: "\<forall>r \<in> set (rs_receipts snap). ob_eventKey r \<noteq> ob_eventKey ?item" using n(1) by (auto simp: find_None_iff)
  have gate: "ar_action i = Do_restore \<longrightarrow> restore_allowed i snap grants proof eid (accountsOf snap root) False = Inr ()"
    using g n by (simp add: restore_gate_def split: if_splits)
  have last: "item = ?item \<or> (\<exists>b. ar_action i = Do_suspend \<and> item = ?item\<lparr>ob_payload := map_set ''overlappingDisputes'' (JBool b) (ob_payload ?item)\<rparr>)"
    using o' n by (auto simp: emitted_def split: if_splits)
  show ?thesis by (rule that [OF v m refl n(2) keys gate last])
qed

lemma valid_root_Some:
  "valid_root i root = Some eid \<Longrightarrow> pay root ''entitlementId'' = Some (JStr eid) \<and> ob_userId root = ar_userId i \<and> ob_kind root = Ai_grant \<and>
     (\<exists>n. pay root ''credits'' = Some (JInt n) \<and> 1 \<le> n \<and> n \<le> 1000000)"
  by (auto simp: valid_root_def whole_credits_def split: option.splits json.splits if_splits)

lemma with_proof_fields:
  "ob_eventKey (with_proof proof acc made) = ob_eventKey made" "ob_userId (with_proof proof acc made) = ob_userId made"
  "ob_kind (with_proof proof acc made) = ob_kind made"
  "pay (with_proof proof acc made) ''credits'' = pay made ''credits''"
  "pay (with_proof proof acc made) ''reversal'' = Some proof"
  by (auto simp: with_proof_def pay_def split: list.splits)

lemma with_deltas_fields:
  "ob_eventKey (with_deltas d item) = ob_eventKey item" "ob_userId (with_deltas d item) = ob_userId item"
  "ob_kind (with_deltas d item) = ob_kind item" "pay (with_deltas d item) ''credits'' = pay item ''credits''"
  "pay (with_deltas d item) ''reversal'' = pay item ''reversal''"
  by (simp_all add: with_deltas_def pay_def)

definition reversal_event :: "ai_reversal_input \<Rightarrow> credit_event" where
  "reversal_event i = (if ar_action i = Do_restore then Ev_restore (ar_causeId i)
     else Ev_revoke_for (cause_type (ar_action i)) (ar_causeId i))"

definition reversal_text :: "ai_reversal_input \<Rightarrow> string" where
  "reversal_text i = (if ar_action i = Do_restore then ''restore'' else ''revoke'')"

lemma reversal_item_Inr:
  assumes "reversal_item i root = Inr made" and "pay root ''entitlementId'' = Some (JStr eid)"
  shows "ob_userId made = ob_userId root \<and> ob_kind made = event_kind (reversal_event i) \<and>
    parseAiCreditEventId eid (ob_eventKey made) (reversal_text i) = Some (reversal_event i) \<and> pay made ''credits'' = pay root ''credits''"
proof -
  have rev: "ob_userId m = ob_userId root \<and> ob_kind m = Ai_revoke \<and>
      parseAiCreditEventId eid (ob_eventKey m) ''revoke'' = Some (Ev_revoke_for c d) \<and> pay m ''credits'' = pay root ''credits''"
    if z: "aiCreditRevokeItem root (Some (c, d)) = Inr m" for c d m
  proof -
    obtain r credits expires where r: "member_of (ob_payload root) ''entitlementId'' = Some (JStr r)"
      "member_of (ob_payload root) ''credits'' = Some credits" "is_number credits"
      "member_of (ob_payload root) ''expiresAt'' = Some (JStr expires)"
      "member_of (ob_payload root) ''action'' = Some (JStr ''grant'')"
      "member_of (ob_payload root) ''protocol'' = Some (JStr AI_CREDIT_PROTOCOL)"
      "parseAiCreditEventId r (revoke_id r (Some (c, d))) ''revoke'' \<noteq> None"
      "m = \<lparr>ob_eventKey = revoke_id r (Some (c, d)), ob_userId = ob_userId root, ob_kind = Ai_revoke,
                 ob_payload = revoke_payload (ob_payload root) r credits expires (revoke_id r (Some (c, d)))\<rparr>"
      using z by (rule revoke_Inr)
    from r(1) assms(2) have "r = eid" by (simp add: pay_def)
    with r parse_revoke_id(1) [OF r(7)] show ?thesis by (simp add: pay_def revoke_payload_members)
  qed
  show ?thesis
  proof (cases "ar_action i = Do_restore")
    case True
    then have z: "aiCreditRestoreItem root (ar_causeId i) = Inr made" using assms(1) by (simp add: reversal_item_def)
    obtain r revoke where r: "member_of (ob_payload root) ''entitlementId'' = Some (JStr r)"
      "aiCreditRevokeItem root (Some (Cause_dispute, ar_causeId i)) = Inr revoke"
      "parseAiCreditEventId r (restore_id r (ar_causeId i)) ''restore'' \<noteq> None"
      "made = revoke\<lparr>ob_eventKey := restore_id r (ar_causeId i), ob_kind := Ai_restore, ob_payload :=
             map_set ''action'' (JStr ''restore'') (map_set ''eventId'' (JStr (restore_id r (ar_causeId i))) (ob_payload revoke))\<rparr>"
      using z by (rule restore_Inr)
    from r(1) assms(2) have "r = eid" by (simp add: pay_def)
    with r(3,4) rev [OF r(2)] parse_restore_id(1) [OF r(3)] True show ?thesis
      by (simp add: reversal_event_def reversal_text_def pay_def)
  next
    case False
    then have "aiCreditRevokeItem root (Some (cause_type (ar_action i), ar_causeId i)) = Inr made"
      using assms(1) by (simp add: reversal_item_def)
    from rev [OF this] False show ?thesis by (simp add: reversal_event_def reversal_text_def)
  qed
qed

lemma planAiReversal_grants:
  assumes "planAiReversal i snap = Inr a" and "g \<in> set (pa_grants a)"
  obtains p where "plan_reversal i snap = Inr p" "g \<in> set (rp_grants p)" "pa_grants a = rp_grants p"
  using assms by (auto simp: planAiReversal_def split: sum.splits plan_stop.splits)

lemma planAiReversal_outbox:
  assumes "planAiReversal i snap = Inr a" and "item \<in> set (pa_outbox a)"
  obtains p where "plan_reversal i snap = Inr p" "item \<in> set (rp_outbox p)"
  using assms by (auto simp: planAiReversal_def split: sum.splits plan_stop.splits)

subsection \<open>Properties\<close>



subsection \<open>A dispute of a subscription invoice\<close>

definition demo_original :: grant_row where
  "demo_original = \<lparr>g_userId = ''u1'', g_meter = Compute_std_seconds, g_kind = Plan_period, g_amount = 9,
     g_periodStart = Some (Some 1767225600000), g_periodEnd = Some (Some 1769904000000), g_sourceType = Src_invoice,
     g_sourceId = ''in_1'', g_subscriptionId = Some ''sub_1'', g_id = ''g1''\<rparr>"

definition demo_plan_receipt :: outbox_insert where
  "demo_plan_receipt = aiCreditOutboxItem ''u1'' \<lparr>ae_entitlementId = ''ezil-os:v1:standard_monthly_v3:sub_1:2026-01-01T00:00:00.000Z'',
     ae_credits = 200, ae_expiresAt = ''2026-02-04T00:00:00.000Z''\<rparr> Act_grant (Some ''in_1'')"

definition demo_reversal :: ai_reversal_input where
  "demo_reversal = \<lparr>ar_action = Do_suspend, ar_causeId = ''du_7'', ar_chargeId = ''ch_1'', ar_customerId = ''cus_1'', ar_userId = ''u1'',
     ar_originals = [demo_original], ar_receipts = [demo_plan_receipt]\<rparr>"

definition demo_snapshot :: reversal_snapshot where
  "demo_snapshot = \<lparr>rs_originals = [demo_original], rs_corrections = [], rs_receipts = [mk_outbox ''o1'' 0 demo_plan_receipt]\<rparr>"

definition demo_answer :: plan_answer where
  "demo_answer = (case planAiReversal demo_reversal demo_snapshot of Inr a \<Rightarrow> a
     | Inl _ \<Rightarrow> \<lparr>pa_outcome = ''error'', pa_grants = [], pa_outbox = []\<rparr>)"

definition demo_taken :: grant_insert where
  "demo_taken = \<lparr>g_userId = ''u1'', g_meter = Compute_std_seconds, g_kind = GrantKind.Suspend, g_amount = -9,
     g_periodStart = Some (Some 1767225600000), g_periodEnd = Some (Some 1769904000000), g_sourceType = Src_dispute,
     g_sourceId = ''du_7'', g_subscriptionId = Some ''sub_1''\<rparr>"

lemma demo_reversal_eval:
  "map_sum id (\<lambda>a. (pa_outcome a, pa_grants a, map ob_eventKey (pa_outbox a))) (planAiReversal demo_reversal demo_snapshot) =
     Inr (''applied'', [demo_taken], [''ezil-os:v1:standard_monthly_v3:sub_1:2026-01-01T00:00:00.000Z:revoke:dispute:du_7''])"
  by code_simp

lemma demo_answer_eval: "planAiReversal demo_reversal demo_snapshot = Inr demo_answer" "pa_grants demo_answer = [demo_taken]"
  "map ob_eventKey (pa_outbox demo_answer) = [''ezil-os:v1:standard_monthly_v3:sub_1:2026-01-01T00:00:00.000Z:revoke:dispute:du_7'']"
  using demo_reversal_eval by (auto simp: demo_answer_def map_sum_def split: sum.splits)



end
