(* ===== verification/Store_AI.thy ===== *)
theory Store_AI
  imports AI_Reversal
begin

text \<open>
  The store's operations on AI credit receipts (\<^verbatim>\<open>app/src/server/billing/store.ts\<close>,
  \<^verbatim>\<open>aiCreditGrantsByInvoice\<close>, \<^verbatim>\<open>aiTopupReceipt\<close>, \<^verbatim>\<open>recordAiTopup\<close> and \<^verbatim>\<open>recordAiReversal\<close>). The last two
  are transactions: an exception undoes every write. Their advisory locks order the transactions on one
  payment intent, cause or root, so a transaction is one step. A JSON member that is compared as text
  (\<^verbatim>\<open>->>\<close>) is a string or a number here; other values never equal an identifier.
\<close>

fun pg_text :: "json option \<Rightarrow> string option" where
  "pg_text (Some (JStr s)) = Some s"
| "pg_text (Some (JInt n)) = Some (show_int n)"
| "pg_text _ = None"

definition is_receipt :: "outbox_row \<Rightarrow> bool" where
  "is_receipt r \<longleftrightarrow> pg_text (pay r ''protocol'') = Some AI_CREDIT_PROTOCOL"

definition aiCreditGrantsByInvoice :: "string \<Rightarrow> string \<Rightarrow> (db, outbox_insert list) prog" where
  "aiCreditGrantsByInvoice userId invoiceId = sget (\<lambda>s. map outbox_insert.truncate (filter (\<lambda>r. ob_userId r = userId \<and>
     ob_kind r = Ai_grant \<and> is_receipt r \<and> pg_text (pay r ''invoiceId'') = Some invoiceId) (db_outbox s)))"

definition topup_receipts :: "string \<Rightarrow> outbox_row list \<Rightarrow> outbox_row list" where
  "topup_receipts paymentIntentId rows =
     filter (\<lambda>r. ob_kind r = Ai_grant \<and> is_receipt r \<and> pg_text (pay r ''paymentIntentId'') = Some paymentIntentId) rows"

definition receipt_conflict :: jserror where
  "receipt_conflict = PlainError ''ai_topup_receipt_conflict''"

definition aiTopupReceipt :: "string \<Rightarrow> string \<Rightarrow> (db, outbox_insert option) prog" where
  "aiTopupReceipt userId paymentIntentId =
     sbind (sget (\<lambda>s. filter (\<lambda>r. ob_userId r = userId) (topup_receipts paymentIntentId (db_outbox s)))) (\<lambda>rows.
       case rows of [] \<Rightarrow> sreturn None | [r] \<Rightarrow> sreturn (Some (outbox_insert.truncate r)) | _ \<Rightarrow> sthrow receipt_conflict)"

definition receipt_expires :: "outbox_insert \<Rightarrow> jsdate option \<Rightarrow> bool res" where
  "receipt_expires receipt periodEnd = (case periodEnd of
     None \<Rightarrow> Inr (pay receipt ''expiresAt'' = None)
   | Some t \<Rightarrow> rbind (toISOString t) (\<lambda>x. Inr (pay receipt ''expiresAt'' = Some (JStr x))))"

definition valid_topup :: "grant_insert \<Rightarrow> outbox_insert \<Rightarrow> bool res" where
  "valid_topup grant receipt =
     (if g_sourceType grant \<noteq> Src_payment_intent \<or> g_kind grant \<noteq> Topup \<or> g_meter grant \<noteq> Ai_usd_micro \<or>
         ob_userId receipt \<noteq> g_userId grant \<or> ob_kind receipt \<noteq> Ai_grant \<or>
         pay receipt ''protocol'' \<noteq> Some (JStr AI_CREDIT_PROTOCOL) \<or>
         pay receipt ''paymentIntentId'' \<noteq> Some (JStr (g_sourceId grant)) \<or>
         pay receipt ''amountUsdMicro'' \<noteq> Some (JStr (show_int (g_amount grant))) then Inr False
      else receipt_expires receipt (g_periodEnd grant))"

definition is_topup_of :: "string \<Rightarrow> grant_row \<Rightarrow> bool" where
  "is_topup_of paymentIntentId g \<longleftrightarrow> g_sourceType g = Src_payment_intent \<and> g_sourceId g = paymentIntentId \<and>
     g_kind g = Topup \<and> g_meter g = Ai_usd_micro"

definition insert_both :: "jserror \<Rightarrow> grant_insert list \<Rightarrow> outbox_insert list \<Rightarrow> (db, unit) prog" where
  "insert_both conflict grants outbox =
     sbind (sfor grants (\<lambda>g. sbind (insertGrant g) (\<lambda>ok. if ok then sreturn () else sthrow conflict))) (\<lambda>_.
       sfor outbox (\<lambda>item. sbind (enqueueOutbox item) (\<lambda>ok. if ok then sreturn () else sthrow conflict)))"

definition fund_topup :: "grant_insert \<Rightarrow> outbox_insert \<Rightarrow> (db, string) prog" where
  "fund_topup grant receipt =
     sbind (sget (\<lambda>s. find (is_topup_of (g_sourceId grant)) (db_grants s))) (\<lambda>original.
     sbind (sget (\<lambda>s. take 2 (topup_receipts (g_sourceId grant) (db_outbox s)))) (\<lambda>receipts.
       if (case original of None \<Rightarrow> False | Some o' \<Rightarrow> g_userId o' \<noteq> g_userId grant) \<or>
          (\<exists>r \<in> set receipts. ob_userId r \<noteq> g_userId grant) then sreturn ''review:customer_mismatch''
       else if length receipts > 1 \<or> length receipts = 1 \<and> original = None then sthrow receipt_conflict
       else if length receipts = 1 then sreturn ''applied''
       else sbind (sget (\<lambda>s. \<exists>r \<in> set (db_outbox s). ob_eventKey r = ''payment_intent:'' @ g_sourceId grant @ '':ai_topup'')) (\<lambda>legacy.
         if original \<noteq> None \<or> legacy then sreturn ''review:legacy_topup_unfunded''
         else sbind (insert_both receipt_conflict [grant] [receipt]) (\<lambda>_. sreturn ''applied''))))"

definition recordAiTopup :: "grant_insert \<Rightarrow> outbox_insert \<Rightarrow> (db, string) prog" where
  "recordAiTopup grant receipt = sbind (slift (valid_topup grant receipt)) (\<lambda>ok.
     if \<not> ok then sthrow (PlainError ''invalid_ai_topup_receipt'') else transaction (fund_topup grant receipt))"

subsection \<open>Reversals\<close>

definition reversal_member :: "outbox_row \<Rightarrow> string \<Rightarrow> json option" where
  "reversal_member r k = (case pay r ''reversal'' of Some (JObj ms) \<Rightarrow> member_of ms k | _ \<Rightarrow> None)"

definition receipt_cause :: "outbox_row \<Rightarrow> (reversal_cause \<times> string) option" where
  "receipt_cause r = (case (reversal_member r ''causeType'', reversal_member r ''causeId'') of
     (Some (JStr t), Some (JStr d)) \<Rightarrow>
       if t = ''dispute'' then Some (Cause_dispute, d) else if t = ''refund'' then Some (Cause_refund, d) else None
   | _ \<Rightarrow> None)"

definition reversal_roots :: "ai_reversal_input \<Rightarrow> string list" where
  "reversal_roots i = sort (remdups (map (\<lambda>r. js_text (pay r ''entitlementId'')) (ar_receipts i)))"

definition reversal_receipts :: "ai_reversal_input \<Rightarrow> outbox_row list \<Rightarrow> outbox_row list" where
  "reversal_receipts i rows = filter (\<lambda>r. is_receipt r \<and>
     ((\<exists>root \<in> set (reversal_roots i). pg_text (pay r ''entitlementId'') = Some root) \<or>
      pg_text (reversal_member r ''causeType'') = Some (cause_text (cause_type (ar_action i))) \<and>
      pg_text (reversal_member r ''causeId'') = Some (ar_causeId i))) rows"

definition reversal_causes :: "ai_reversal_input \<Rightarrow> outbox_row list \<Rightarrow> (reversal_cause \<times> string) list" where
  "reversal_causes i receipts = (cause_type (ar_action i), ar_causeId i) # concat (map (\<lambda>r. opt_list (receipt_cause r)) receipts)"

definition take_snapshot :: "ai_reversal_input \<Rightarrow> grant_row \<Rightarrow> db \<Rightarrow> reversal_snapshot" where
  "take_snapshot i original s =
     (let receipts = reversal_receipts i (db_outbox s); causes = reversal_causes i receipts in
      \<lparr>rs_originals = filter (\<lambda>g. g_sourceType g = g_sourceType original \<and> g_sourceId g = g_sourceId original) (db_grants s),
       rs_corrections = filter (\<lambda>g. \<exists>(c, d) \<in> set causes. g_sourceType g = cause_source c \<and> g_sourceId g = d) (db_grants s),
       rs_receipts = receipts\<rparr>)"

definition reversal_conflict :: jserror where
  "reversal_conflict = PlainError ''ai_reversal_receipt_conflict''"

definition apply_plan :: "plan_answer \<Rightarrow> (db, string) prog" where
  "apply_plan a = (if pa_outcome a \<noteq> ''applied'' then sreturn (pa_outcome a)
     else sbind (insert_both reversal_conflict (pa_grants a) (pa_outbox a)) (\<lambda>_. sreturn ''applied''))"

definition reverse_step :: "ai_reversal_input \<Rightarrow> (db, string) prog" where
  "reverse_step i =
     sbind (userForStripeCustomer (ar_customerId i)) (\<lambda>owner.
       if owner \<noteq> Some (ar_userId i) then sreturn ''review:customer_mismatch''
       else (case ar_originals i of
          [] \<Rightarrow> sreturn ''review:restore_receipt_missing''
        | original # _ \<Rightarrow>
            if ar_receipts i = [] then sreturn ''review:restore_receipt_missing''
            else sbind (sget (take_snapshot i original)) (\<lambda>snap.
                 sbind (slift (planAiReversal i snap)) apply_plan)))"

definition recordAiReversal :: "ai_reversal_input \<Rightarrow> (db, string) prog" where
  "recordAiReversal i = transaction (reverse_step i)"

subsection \<open>The invariant\<close>

lemma insert_both_inv [billing_intros]: "preserves db_inv (insert_both e gs os)"
  unfolding insert_both_def by (intro billing_intros)

lemma recordAiTopup_inv [billing_intros]: "preserves db_inv (recordAiTopup g r)"
  unfolding recordAiTopup_def fund_topup_def by (intro billing_intros)

lemma recordAiReversal_inv [billing_intros]: "preserves db_inv (recordAiReversal i)"
  unfolding recordAiReversal_def reverse_step_def apply_plan_def userForStripeCustomer_def by (intro billing_intros)

subsection \<open>What an insert of a plan writes\<close>

lemma truncate_mk_grant [simp]: "grant_insert.truncate (mk_grant rid g) = g"
  by (simp add: mk_grant_def grant_insert.truncate_def)

lemma truncate_mk_outbox [simp]: "outbox_insert.truncate (mk_outbox rid now i) = i"
  by (simp add: mk_outbox_def outbox_insert.truncate_def)

lemma insertGrant_True:
  assumes "insertGrant g s = (Inr True, t)"
  shows "\<exists>rid. t = s\<lparr>db_next := Suc (db_next s), db_grants := db_grants s @ [mk_grant rid g]\<rparr>"
  using assms by (auto simp: insertGrant_def send_dates_def sbind_def fresh_id_def insert_ignore_def split: if_splits)

lemma enqueueOutbox_True:
  assumes "enqueueOutbox i s = (Inr True, t)"
  shows "\<exists>rid now. t = s\<lparr>db_next := Suc (db_next s), db_outbox := db_outbox s @ [mk_outbox rid now i]\<rparr>"
  using assms by (auto simp: enqueueOutbox_def sbind_def fresh_id_def insert_ignore_def split: if_splits)

lemma insert_grant_rows:
  assumes "sfor gs (\<lambda>g. sbind (insertGrant g) (\<lambda>ok. if ok then sreturn () else sthrow e)) s = (Inr (), t)"
  shows "\<exists>n rows. map grant_insert.truncate rows = gs \<and> t = s\<lparr>db_next := n, db_grants := db_grants s @ rows\<rparr>"
  using assms
proof (induction gs arbitrary: s)
  case Nil
  then show ?case by (auto intro!: exI [of _ "db_next s"] exI [of _ "[]"])
next
  case (Cons g gs)
  let ?f = "\<lambda>g. sbind (insertGrant g) (\<lambda>ok. if ok then sreturn () else sthrow e)"
  from Cons.prems obtain u where u: "?f g s = (Inr (), u)" "sfor gs ?f u = (Inr (), t)"
    by (auto dest!: sbind_eq_InrD)
  from u(1) have ins: "insertGrant g s = (Inr True, u)" by (auto dest!: sbind_eq_InrD split: if_splits)
  from insertGrant_True [OF ins] obtain rid where
    ru: "u = s\<lparr>db_next := Suc (db_next s), db_grants := db_grants s @ [mk_grant rid g]\<rparr>" by blast
  from Cons.IH [OF u(2)] obtain n rows where
    "map grant_insert.truncate rows = gs" "t = u\<lparr>db_next := n, db_grants := db_grants u @ rows\<rparr>" by blast
  with ru show ?case by (intro exI [of _ n] exI [of _ "mk_grant rid g # rows"]) simp
qed

lemma insert_items:
  assumes "sfor items (\<lambda>i. sbind (enqueueOutbox i) (\<lambda>ok. if ok then sreturn () else sthrow e)) s = (Inr (), t)"
  shows "\<exists>n rows. map outbox_insert.truncate rows = items \<and> t = s\<lparr>db_next := n, db_outbox := db_outbox s @ rows\<rparr>"
  using assms
proof (induction items arbitrary: s)
  case Nil
  then show ?case by (auto intro!: exI [of _ "db_next s"] exI [of _ "[]"])
next
  case (Cons i items)
  let ?f = "\<lambda>i. sbind (enqueueOutbox i) (\<lambda>ok. if ok then sreturn () else sthrow e)"
  from Cons.prems obtain u where u: "?f i s = (Inr (), u)" "sfor items ?f u = (Inr (), t)"
    by (auto dest!: sbind_eq_InrD)
  from u(1) have ins: "enqueueOutbox i s = (Inr True, u)" by (auto dest!: sbind_eq_InrD split: if_splits)
  from enqueueOutbox_True [OF ins] obtain rid now where
    ru: "u = s\<lparr>db_next := Suc (db_next s), db_outbox := db_outbox s @ [mk_outbox rid now i]\<rparr>" by blast
  from Cons.IH [OF u(2)] obtain n rows where
    "map outbox_insert.truncate rows = items" "t = u\<lparr>db_next := n, db_outbox := db_outbox u @ rows\<rparr>" by blast
  with ru show ?case by (intro exI [of _ n] exI [of _ "mk_outbox rid now i # rows"]) simp
qed

lemma insert_both_Inr:
  assumes "insert_both e gs os s = (Inr (), t)"
  shows "\<exists>n grants items. map grant_insert.truncate grants = gs \<and> map outbox_insert.truncate items = os \<and>
    t = s\<lparr>db_next := n, db_grants := db_grants s @ grants, db_outbox := db_outbox s @ items\<rparr>"
proof -
  from assms [unfolded insert_both_def] obtain u where
    u: "sfor gs (\<lambda>g. sbind (insertGrant g) (\<lambda>ok. if ok then sreturn () else sthrow e)) s = (Inr (), u)"
      "sfor os (\<lambda>i. sbind (enqueueOutbox i) (\<lambda>ok. if ok then sreturn () else sthrow e)) u = (Inr (), t)"
    by (auto dest!: sbind_eq_InrD)
  from insert_grant_rows [OF u(1)] obtain m grants where
    g: "map grant_insert.truncate grants = gs" "u = s\<lparr>db_next := m, db_grants := db_grants s @ grants\<rparr>" by blast
  from insert_items [OF u(2)] obtain n items where
    "map outbox_insert.truncate items = os" "t = u\<lparr>db_next := n, db_outbox := db_outbox u @ items\<rparr>" by blast
  with g show ?thesis by (intro exI [of _ n] exI [of _ grants] exI [of _ items]) simp
qed

subsection \<open>Properties\<close>

lemma userForStripeCustomer_read: "userForStripeCustomer c s = (Inr (map_option fst (find (\<lambda>r. snd r = c) (db_customers s))), s)"
  by (simp add: userForStripeCustomer_def)

text \<open>C15: a reversal commits exactly the plan or nothing: it answers that it was applied only when the planner
  accepts it on the stored rows of this purchase and its causes, for the customer's own user, and then the
  ledger and the outbox have grown by exactly the planned rows; with any other answer, or an exception, the
  database is as before.\<close>

theorem reversal_commits_plan:
  "case recordAiReversal i s of (r, t) \<Rightarrow>
     if r = Inr ''applied''
     then (\<exists>original rest a. ar_originals i = original # rest \<and> planAiReversal i (take_snapshot i original s) = Inr a \<and>
            pa_outcome a = ''applied'' \<and> (\<exists>c \<in> set (db_customers s). c = (ar_userId i, ar_customerId i)) \<and>
            map grant_insert.truncate (db_grants t) = map grant_insert.truncate (db_grants s) @ pa_grants a \<and>
            map outbox_insert.truncate (db_outbox t) = map outbox_insert.truncate (db_outbox s) @ pa_outbox a \<and>
            db_customers t = db_customers s \<and> db_subscriptions t = db_subscriptions s \<and> db_epochs t = db_epochs s)
     else t = s"
proof (cases "recordAiReversal i s")
  case (Pair r t)
  show ?thesis
  proof (cases r)
    case (Inl e)
    with Pair transaction_Inl [of "reverse_step i" s e t] show ?thesis by (simp add: recordAiReversal_def)
  next
    case (Inr out)
    with Pair have step: "reverse_step i s = (Inr out, t)" using transaction_Inr by (simp add: recordAiReversal_def)
    let ?owner = "map_option fst (find (\<lambda>r. snd r = ar_customerId i) (db_customers s))"
    show ?thesis
    proof (cases "?owner = Some (ar_userId i) \<and> ar_receipts i \<noteq> [] \<and> ar_originals i \<noteq> []")
      case False
      then have "t = s \<and> out \<noteq> ''applied''"
        using step by (auto simp: reverse_step_def userForStripeCustomer_read sbind_def split: if_splits list.splits)
      with Pair Inr show ?thesis by simp
    next
      case True
      then obtain original rest where o': "ar_originals i = original # rest" by (cases "ar_originals i") auto
      let ?plan = "planAiReversal i (take_snapshot i original s)"
      from step True o' obtain a where a: "?plan = Inr a" "apply_plan a s = (Inr out, t)"
        by (auto simp: reverse_step_def userForStripeCustomer_read sbind_def split: sum.splits)
      from True obtain c where c: "find (\<lambda>r. snd r = ar_customerId i) (db_customers s) = Some c" "fst c = ar_userId i" by auto
      then have c': "c \<in> set (db_customers s)" "c = (ar_userId i, ar_customerId i)"
        using find_Some_iff_first [OF c(1)] by (auto simp: prod_eq_iff)
      show ?thesis
      proof (cases "pa_outcome a = ''applied''")
        case False
        with a(2) Pair Inr show ?thesis by (auto simp: apply_plan_def)
      next
        case True
        with a(2) have w: "insert_both reversal_conflict (pa_grants a) (pa_outbox a) s = (Inr (), t)" "out = ''applied''"
          by (auto simp: apply_plan_def dest!: sbind_eq_InrD)
        from insert_both_Inr [OF w(1)] show ?thesis using Pair Inr w(2) o' a(1) True c' by auto
      qed
    qed
  qed
qed

lemma recordAiTopup_applied:
  assumes "recordAiTopup g r s = (Inr out, t)"
  shows "valid_topup g r = Inr True" and "fund_topup g r s = (Inr out, t)"
  using assms transaction_Inr by (auto simp: recordAiTopup_def sbind_def split: sum.splits if_splits)

lemma valid_topup_True:
  "valid_topup g r = Inr True \<Longrightarrow> g_sourceType g = Src_payment_intent \<and> g_kind g = Topup \<and> g_meter g = Ai_usd_micro \<and>
     ob_userId r = g_userId g \<and> ob_kind r = Ai_grant \<and> pay r ''protocol'' = Some (JStr AI_CREDIT_PROTOCOL) \<and>
     pay r ''paymentIntentId'' = Some (JStr (g_sourceId g)) \<and> pay r ''amountUsdMicro'' = Some (JStr (show_int (g_amount g)))"
  by (auto simp: valid_topup_def split: if_splits)

lemma pay_truncate: "pay (outbox_insert.truncate r) k = pay r k" "ob_userId (outbox_insert.truncate r) = ob_userId r"
  "ob_kind (outbox_insert.truncate r) = ob_kind r"
  by (simp_all add: pay_def outbox_insert.truncate_def)

lemma is_topup_truncate: "is_topup_of p x \<longleftrightarrow> g_sourceType (grant_insert.truncate x) = Src_payment_intent \<and>
    g_sourceId (grant_insert.truncate x) = p \<and> g_kind (grant_insert.truncate x) = Topup \<and> g_meter (grant_insert.truncate x) = Ai_usd_micro"
  by (simp add: is_topup_of_def grant_insert.truncate_def)

text \<open>Two top-up rows of one payment intent would clash.\<close>

lemma topup_unique: "uniq grant_clash rows \<Longrightarrow> x \<in> set rows \<Longrightarrow> is_topup_of p x \<Longrightarrow> filter (is_topup_of p) rows = [x]"
proof (induction rows)
  case (Cons y rows)
  have c: "grant_clash y z" if "is_topup_of p y" "is_topup_of p z" for z
    using that by (simp add: is_topup_of_def grant_clash_def)
  show ?case
  proof (cases "is_topup_of p y")
    case True
    then have "\<forall>z \<in> set rows. \<not> is_topup_of p z" using Cons.prems(1) c by (auto simp: uniq_def)
    with True Cons.prems show ?thesis by auto
  next
    case False
    with Cons show ?thesis by (auto simp: uniq_def)
  qed
qed simp

lemma fund_topup_applied:
  assumes "fund_topup g r s = (Inr ''applied'', t)" and v: "valid_topup g r = Inr True" and inv: "db_inv s"
  shows "(\<exists>x. filter (is_topup_of (g_sourceId g)) (db_grants t) = [x] \<and> g_userId x = g_userId g) \<and>
    (\<exists>y. topup_receipts (g_sourceId g) (db_outbox t) = [y] \<and> ob_userId y = g_userId g) \<and> (t = s \<or>
     (\<exists>n x y. t = s\<lparr>db_next := n, db_grants := db_grants s @ [x], db_outbox := db_outbox s @ [y]\<rparr> \<and>
        grant_insert.truncate x = g \<and> outbox_insert.truncate y = r))"
proof -
  let ?p = "g_sourceId g"
  let ?original = "find (is_topup_of ?p) (db_grants s)" and ?receipts = "topup_receipts ?p (db_outbox s)"
  note u = assms(1) [unfolded fund_topup_def, simplified sbind_def, simplified]
  show ?thesis
  proof (cases "?receipts")
    case Nil
    with assms(1) have n: "?original = None" "insert_both receipt_conflict [g] [r] s = (Inr (), t)"
      by (auto simp: fund_topup_def sbind_def split: if_splits prod.splits sum.splits option.splits)
    from insert_both_Inr [OF n(2)] obtain m x y where w: "grant_insert.truncate x = g" "outbox_insert.truncate y = r"
        "t = s\<lparr>db_next := m, db_grants := db_grants s @ [x], db_outbox := db_outbox s @ [y]\<rparr>"
      by (auto simp: map_eq_Cons_conv)
    note vt = valid_topup_True [OF v]
    have x: "is_topup_of ?p x" "g_userId x = g_userId g" using w(1) vt is_topup_truncate by (auto simp: grant_insert.truncate_def)
    have y: "ob_kind y = Ai_grant" "is_receipt y" "pg_text (pay y ''paymentIntentId'') = Some ?p" "ob_userId y = g_userId g"
      using vt w(2) pay_truncate [of y] by (auto simp: is_receipt_def)
    have "filter (is_topup_of ?p) (db_grants s) = []" using n(1) by (auto simp: find_None_iff filter_empty_conv)
    with x have f1: "filter (is_topup_of ?p) (db_grants t) = [x]" using w(3) by simp
    have "topup_receipts ?p (db_outbox t) = topup_receipts ?p (db_outbox s) @ [y]"
      using y w(3) by (simp add: topup_receipts_def)
    with Nil have f2: "topup_receipts ?p (db_outbox t) = [y]" by simp
    from f1 f2 x y w show ?thesis by blast
  next
    case (Cons y ys)
    with assms(1) have o': "ys = []" "?original \<noteq> None" "t = s" "ob_userId y = g_userId g" "g_userId (the ?original) = g_userId g"
      by (auto simp: fund_topup_def sbind_def numeral_2_eq_2 split: if_splits prod.splits sum.splits option.splits list.splits)
    from o'(2) obtain x where x: "?original = Some x" by auto
    have "filter (is_topup_of ?p) (db_grants s) = [x]"
      using find_Some_iff_first [OF x] inv by (intro topup_unique) (auto simp: db_inv_def)
    with o' x Cons show ?thesis by auto
  qed
qed

lemma find_filter: "find P xs = (case filter P xs of [] \<Rightarrow> None | x # _ \<Rightarrow> Some x)"
  by (induction xs) auto

text \<open>C14: a top-up is funded once: when recording a paid top-up succeeds, the ledger has exactly one top-up row for
  its payment intent and the outbox exactly one receipt, both of that user; the database changed by at most
  that row and that receipt, and recording it again answers the same and changes nothing.\<close>

theorem topup_funded_once:
  assumes "db_inv s" and "recordAiTopup g r s = (Inr ''applied'', t)"
  shows "(\<exists>x. filter (is_topup_of (g_sourceId g)) (db_grants t) = [x] \<and> g_userId x = g_userId g) \<and>
    (\<exists>y. topup_receipts (g_sourceId g) (db_outbox t) = [y] \<and> ob_userId y = g_userId g) \<and>
    (t = s \<or> (\<exists>n x y. t = s\<lparr>db_next := n, db_grants := db_grants s @ [x], db_outbox := db_outbox s @ [y]\<rparr> \<and>
        grant_insert.truncate x = g \<and> outbox_insert.truncate y = r)) \<and>
    recordAiTopup g r t = (Inr ''applied'', t)"
proof -
  note v = recordAiTopup_applied [OF assms(2)]
  from fund_topup_applied [OF v(2,1) assms(1)] obtain x y where
    x: "filter (is_topup_of (g_sourceId g)) (db_grants t) = [x]" "g_userId x = g_userId g" and
    y: "topup_receipts (g_sourceId g) (db_outbox t) = [y]" "ob_userId y = g_userId g" by auto
  have "find (is_topup_of (g_sourceId g)) (db_grants t) = Some x"
    using x(1) by (simp add: find_filter)
  then have "fund_topup g r t = (Inr ''applied'', t)" using y x(2) by (simp add: fund_topup_def sbind_def)
  then have "recordAiTopup g r t = (Inr ''applied'', t)" using v(1) by (simp add: recordAiTopup_def sbind_def transaction_def)
  with fund_topup_applied [OF v(2,1) assms(1)] show ?thesis by blast
qed

definition demo_topup_grant :: grant_insert where
  "demo_topup_grant = \<lparr>g_userId = ''u1'', g_meter = Ai_usd_micro, g_kind = Topup, g_amount = 12000000,
     g_periodStart = Some (Some 1768464000000), g_periodEnd = Some (Some 1800000000000), g_sourceType = Src_payment_intent,
     g_sourceId = ''pi_3A'', g_subscriptionId = None\<rparr>"

lemma demo_topup_valid: "valid_topup demo_topup_grant demo_topup = Inr True"
  by (simp add: valid_topup_def demo_topup_grant_def demo_topup_def aiCreditOutboxItem_def pay_def member_append member_cons member_nil
      receipt_expires_def toISOString_def demo_topup_texts Let_def)

lemma demo_topup_recorded:
  "recordAiTopup demo_topup_grant demo_topup (empty_db [] 0) =
     (Inr ''applied'', (empty_db [] 0)\<lparr>db_next := 2, db_grants := [mk_grant (db_uuid (empty_db [] 0) 0) demo_topup_grant],
        db_outbox := [mk_outbox (db_uuid (empty_db [] 0) 1) 0 demo_topup]\<rparr>)"
proof -
  have d: "g_periodStart demo_topup_grant = Some (Some 1768464000000)" "g_periodEnd demo_topup_grant = Some (Some 1800000000000)"
    by (simp_all add: demo_topup_grant_def)
  have "fund_topup demo_topup_grant demo_topup (empty_db [] 0) = (Inr ''applied'', (empty_db [] 0)\<lparr>db_next := 2,
      db_grants := [mk_grant (db_uuid (empty_db [] 0) 0) demo_topup_grant], db_outbox := [mk_outbox (db_uuid (empty_db [] 0) 1) 0 demo_topup]\<rparr>)"
    by (simp add: fund_topup_def sbind_def topup_receipts_def empty_db_def insert_both_def insertGrant_def d send_dates_def opt_list_def
        fresh_id_def insert_ignore_def enqueueOutbox_def)
  then show ?thesis by (simp add: recordAiTopup_def demo_topup_valid sbind_def transaction_def)
qed

theorem topup_funded_once_witness:
  "\<exists>t. recordAiTopup demo_topup_grant demo_topup t = (Inr ''applied'', t) \<and>
     (\<exists>x. filter (is_topup_of ''pi_3A'') (db_grants t) = [x])"
proof -
  have "g_sourceId demo_topup_grant = ''pi_3A''" by (simp add: demo_topup_grant_def)
  with topup_funded_once [OF empty_db_inv demo_topup_recorded] show ?thesis by metis
qed

end
