(* ===== verification/Processor.thy ===== *)
theory Processor
  imports Close_Period Store_AI
begin

text \<open>
  The processor of Stripe events (\<^verbatim>\<open>app/src/server/billing/processor.ts\<close>, with the pack policy of
  \<^verbatim>\<open>stripe/packs.ts\<close> it uses): each planned action re-reads the provider's object and the customer mapping,
  then writes the store. The state is the database and the list of paid migrations scheduled so far
  (\<^verbatim>\<open>schedulePaidMigration\<close> of \<^verbatim>\<open>lib/compute/provider-migrate-orchestrator.ts\<close>, which never fails); the
  Stripe client is a parameter. The store is the one of \<^verbatim>\<open>store.ts\<close>, which has the receipt operations the
  code tests for. Outcomes are the strings of the code.
\<close>

type_synonym migrations = "(string \<times> string) list"
type_synonym 'a proc = "(db \<times> migrations, 'a) prog"

subsection \<open>AI credit packs\<close>

definition stripePackSku :: "string \<Rightarrow> string option" where
  "stripePackSku productId = (if word_id ''prod_'' productId then Some (''ai_pack_'' @ drop 5 productId) else None)"

definition stripePackCredits :: "stripe_product \<Rightarrow> int option" where
  "stripePackCredits product =
     (if map_of (pd_metadata product) ''ezil_kind'' \<noteq> Some ''ai_pack'' then None
      else case map_of (pd_metadata product) ''ezil_credits'' of
        Some (c # cs) \<Rightarrow> if is_digit c \<and> c \<noteq> CHR ''0'' \<and> list_all is_digit cs \<and> digits_val (c # cs) \<le> 10000
                       then Some (digits_val (c # cs)) else None
      | _ \<Rightarrow> None)"

subsection \<open>Rows, periods and invoices\<close>

definition subscriptionRow :: "stripe_subscription \<Rightarrow> string \<Rightarrow> string \<Rightarrow> int \<Rightarrow> subscription_upsert" where
  "subscriptionRow x sku userId stamp =
     \<lparr>sub_id = st_id x, sub_status = st_status x, sub_sku = sku, sub_periodStart = st_currentPeriodStart x,
      sub_periodEnd = st_currentPeriodEnd x, sub_cancelAtPeriodEnd = st_cancelAtPeriodEnd x,
      su_userId = userId, su_stripeEventCreated = new_Date (stamp * 1000)\<rparr>"

text \<open>\<^verbatim>\<open>setUTCFullYear(y + 1)\<close>, and \<^verbatim>\<open>setUTCDate(0)\<close> when that left the month.\<close>

definition year_later :: "int \<Rightarrow> int" where
  "year_later ms =
     (let (y, m, day) = civil (ms div day_ms); d = month_first (y + 1) m + day - 1; (y', m', day') = civil d;
          d' = (if m' \<noteq> m then month_first y' m' - 1 else d)
      in d' * day_ms + ms mod day_ms)"

definition purchasedPeriod :: "int \<Rightarrow> jsdate \<times> jsdate" where
  "purchasedPeriod stamp =
     (new_Date (stamp * 1000), (case new_Date (stamp * 1000) of None \<Rightarrow> None | Some ms \<Rightarrow> new_Date (year_later ms)))"

definition validPeriod :: "jsdate option \<Rightarrow> jsdate option \<Rightarrow> bool" where
  "validPeriod start stop = (case (start, stop) of (Some (Some a), Some (Some b)) \<Rightarrow> b > a | _ \<Rightarrow> False)"

datatype invoice_grant = IG_period | IG_overage | IG_none | IG_upgrade invoice_line

definition compute_v2_key :: "string option" where
  "compute_v2_key = po_stripeLookupKey (CATALOG_V2 Compute_monthly_v2)"

definition premium_key :: "string option" where
  "premium_key = o3_stripeLookupKey (CATALOG_V3 Premium_monthly_v3)"

definition is_premium_line :: "invoice_line \<Rightarrow> bool" where
  "is_premium_line line \<longleftrightarrow> il_lookupKey line = premium_key"

definition upgrade_line :: "invoice_line \<Rightarrow> bool" where
  "upgrade_line line \<longleftrightarrow> (il_lookupKey line = compute_v2_key \<or> is_premium_line line) \<and> il_amount line > 0 \<and>
     validPeriod (il_periodStart line) (il_periodEnd line)"

definition credit_key :: "invoice_line option \<Rightarrow> string option" where
  "credit_key compute = (if (case compute of None \<Rightarrow> False | Some l \<Rightarrow> is_premium_line l)
     then o3_stripeLookupKey (CATALOG_V3 Standard_monthly_v3) else po_stripeLookupKey (CATALOG_V2 Standard_monthly_v2))"

definition upgrade_of :: "stripe_invoice \<Rightarrow> invoice_line option" where
  "upgrade_of invoice =
     (let owned = filter (\<lambda>l. il_subscriptionId l = in_subscriptionId invoice \<or> il_subscriptionId l = None) (in_lines invoice);
          compute = find upgrade_line owned
      in if find (\<lambda>l. il_lookupKey l = credit_key compute) owned = None then None else compute)"

definition invoiceGrantKind :: "stripe_invoice \<Rightarrow> invoice_grant" where
  "invoiceGrantKind invoice =
     (if in_metadataKind invoice = Some ''overage'' then IG_overage
      else if in_status invoice \<noteq> ''paid'' \<or> in_subscriptionId invoice = None then IG_none
      else if in_billingReason invoice \<in> Some ` set PERIOD_GRANT_BILLING_REASONS then IG_period
      else if in_billingReason invoice = Some UPGRADE_GRANT_BILLING_REASON
        then (case upgrade_of invoice of Some compute \<Rightarrow> IG_upgrade compute | None \<Rightarrow> IG_none)
      else IG_none)"

subsection \<open>Helpers of the handlers\<close>

record proc_event =
  pe_type :: string
  pe_created :: int
  pe_objectId :: "json option"

definition event_date :: "proc_event \<Rightarrow> jsdate" where
  "event_date ev = new_Date (pe_created ev * 1000)"

definition schedulePaidMigration :: "string \<Rightarrow> string \<Rightarrow> string \<Rightarrow> unit proc" where
  "schedulePaidMigration userId sku eventType s = (Inr (),
     (fst s, if eventType = ''invoice.paid'' \<and> sku \<in> {''standard_monthly_v3'', ''premium_monthly_v3''}
             then snd s @ [(userId, sku)] else snd s))"

definition paidGrant :: "proc_event \<Rightarrow> grant_insert \<Rightarrow> string \<Rightarrow> unit proc" where
  "paidGrant ev g sku = sbind (on_db (insertGrant g)) (\<lambda>_. schedulePaidMigration (g_userId g) sku (pe_type ev))"

text \<open>The early return of a handler: an outcome instead of a value.\<close>

definition or_return :: "string \<Rightarrow> 'a option \<Rightarrow> ('a \<Rightarrow> string proc) \<Rightarrow> string proc" where
  "or_return outcome v f = (case v of None \<Rightarrow> sreturn outcome | Some x \<Rightarrow> f x)"

definition owner_then :: "string \<Rightarrow> (string \<Rightarrow> string proc) \<Rightarrow> string proc" where
  "owner_then customer f = sbind (on_db (userForStripeCustomer customer)) (\<lambda>u. or_return ''unattributed:customer'' u f)"

text \<open>Store the subscription of a paid invoice, then close its payment issue.\<close>

definition settle_subscription :: "proc_event \<Rightarrow> string \<Rightarrow> subscription_upsert \<Rightarrow> string proc \<Rightarrow> string proc" where
  "settle_subscription ev invoiceId row rest =
     sbind (on_db (upsertSubscription row)) (\<lambda>result.
       if result = Up_conflict then sreturn ''review:customer_mismatch''
       else sbind (on_db (resolvePaymentIssue invoiceId (event_date ev))) (\<lambda>_. rest))"

definition jiso :: "jsdate option \<Rightarrow> json res" where
  "jiso d = (case d of None \<Rightarrow> Inl TypeError | Some t \<Rightarrow> rbind (toISOString t) (\<lambda>x. Inr (JStr x)))"

subsection \<open>Customer links\<close>

definition apply_link :: "stripe_api \<Rightarrow> proc_event \<Rightarrow> string \<Rightarrow> string proc" where
  "apply_link stripe ev clientReferenceId = (case pe_objectId ev of
     Some (JStr sessionId) \<Rightarrow>
       if js_trim sessionId = [] then sreturn ''review:invalid_session''
       else sbind (slift (retrieveCheckoutSession stripe sessionId)) (\<lambda>session.
         if cs_sku session = None then sreturn ''review:unknown_sku''
         else if cs_clientReferenceId session \<noteq> Some clientReferenceId then sreturn ''review:client_reference_mismatch''
         else or_return ''unattributed:customer'' (cs_customer session) (\<lambda>customer.
           sbind (on_db (linkCustomer clientReferenceId customer)) (\<lambda>result.
             sreturn (if result = Link_conflict then ''review:customer_conflict'' else ''applied''))))
   | _ \<Rightarrow> sreturn ''review:invalid_session'')"

subsection \<open>Paid invoices\<close>

definition pro_grant :: "string \<Rightarrow> stripe_invoice \<Rightarrow> grant_insert" where
  "pro_grant userId invoice = \<lparr>g_userId = userId, g_meter = Workspace_seconds, g_kind = Pro_period,
     g_amount = pp_workspaceSeconds PRO_PLAN, g_periodStart = in_periodStart invoice, g_periodEnd = in_periodEnd invoice,
     g_sourceType = Src_invoice, g_sourceId = in_id invoice, g_subscriptionId = None\<rparr>"

definition pro_receipt :: "string \<Rightarrow> string \<Rightarrow> json \<Rightarrow> json \<Rightarrow> outbox_insert" where
  "pro_receipt userId invoiceId start stop =
     \<lparr>ob_eventKey = ''invoice:'' @ invoiceId @ '':ai_included'', ob_userId = userId, ob_kind = Ai_grant, ob_payload =
       [(''amountUsdMicro'', JStr (show_int (pp_aiIncludedMicro PRO_PLAN))), (''bucket'', JStr ''included''),
        (''periodStart'', start), (''periodEnd'', stop), (''provider'', JStr ''stripe''), (''providerObjectId'', JStr invoiceId)]\<rparr>"

definition grant_pro :: "proc_event \<Rightarrow> stripe_invoice \<Rightarrow> string \<Rightarrow> subscription_upsert \<Rightarrow> string proc" where
  "grant_pro ev invoice userId row =
     (if \<not> validPeriod (in_periodStart invoice) (in_periodEnd invoice) then sreturn ''review:invalid_period''
      else settle_subscription ev (in_id invoice) row
        (sbind (on_db (insertGrant (pro_grant userId invoice))) (\<lambda>_.
         sbind (slift (jiso (in_periodStart invoice))) (\<lambda>start. sbind (slift (jiso (in_periodEnd invoice))) (\<lambda>stop.
         sbind (on_db (enqueueOutbox (pro_receipt userId (in_id invoice) start stop))) (\<lambda>_. sreturn ''applied''))))))"

definition base_line :: "stripe_invoice \<Rightarrow> string \<Rightarrow> billing_offer \<Rightarrow> invoice_line option" where
  "base_line invoice subscriptionId candidate = find (\<lambda>line. bo_stripeLookupKey candidate \<noteq> None \<and>
     il_lookupKey line = bo_stripeLookupKey candidate \<and>
     (il_subscriptionId line = Some subscriptionId \<or> il_subscriptionId line = None) \<and>
     validPeriod (il_periodStart line) (il_periodEnd line)) (in_lines invoice)"

definition base_lines :: "stripe_invoice \<Rightarrow> string \<Rightarrow> (invoice_line \<times> billing_offer) list" where
  "base_lines invoice subscriptionId = concat (map (\<lambda>candidate.
     case base_line invoice subscriptionId candidate of None \<Rightarrow> [] | Some l \<Rightarrow> [(l, candidate)]) paidBillingOffers)"

definition compute_grant :: "string \<Rightarrow> string \<Rightarrow> GrantKind \<Rightarrow> int \<Rightarrow> jsdate option \<Rightarrow> jsdate option \<Rightarrow> string \<Rightarrow> grant_insert" where
  "compute_grant userId subscriptionId kind amount start stop invoiceId = \<lparr>g_userId = userId, g_meter = GRANT_METER_COMPUTE,
     g_kind = kind, g_amount = amount, g_periodStart = start, g_periodEnd = stop, g_sourceType = Src_invoice,
     g_sourceId = invoiceId, g_subscriptionId = Some subscriptionId\<rparr>"

definition period_credits :: "string \<Rightarrow> billing_offer \<Rightarrow> string \<Rightarrow> invoice_line \<Rightarrow> string \<Rightarrow> unit proc" where
  "period_credits userId offer subscriptionId base invoiceId = (case bo_v3 offer of
     Some sku \<Rightarrow> if sku = Free_v3 then sreturn ()
       else sbind (slift (aiCreditEntitlement \<lparr>ag_userId = userId, ag_sku = sku, ag_subscriptionId = Some subscriptionId,
              ag_periodStart = (case il_periodStart base of None \<Rightarrow> None | Some d \<Rightarrow> d), ag_periodEnd = il_periodEnd base,
              ag_invoiceId = Some invoiceId\<rparr>)) (\<lambda>e.
            sbind (on_db (enqueueOutbox (aiCreditOutboxItem userId e Act_grant (Some invoiceId)))) (\<lambda>_. sreturn ()))
   | None \<Rightarrow> sreturn ())"

definition grant_plan :: "proc_event \<Rightarrow> stripe_invoice \<Rightarrow> string \<Rightarrow> subscription_upsert \<Rightarrow> string proc" where
  "grant_plan ev invoice userId row = (case base_lines invoice (sub_id row) of
     [] \<Rightarrow> sreturn ''review:no_base_line''
   | [(base, offer)] \<Rightarrow>
       settle_subscription ev (in_id invoice) row
        (sbind (paidGrant ev (compute_grant userId (sub_id row) Plan_period (bo_allowanceStdSeconds offer)
            (il_periodStart base) (il_periodEnd base) (in_id invoice)) (bo_sku offer)) (\<lambda>_.
         sbind (period_credits userId offer (sub_id row) base (in_id invoice)) (\<lambda>_. sreturn ''applied'')))
   | _ \<Rightarrow> sreturn ''review:ambiguous_base_line'')"

definition upgrade_amount :: "bool \<Rightarrow> jsdate \<Rightarrow> jsdate \<Rightarrow> jsdate \<Rightarrow> int res" where
  "upgrade_amount premium start stop at =
     (if premium then upgradeGrantSeconds start stop at
      else upgradeGrantStdSeconds Standard_monthly_v2 Compute_monthly_v2 start stop at)"

definition upgrade_change :: "string \<Rightarrow> string \<Rightarrow> jsdate \<Rightarrow> plan_change_update" where
  "upgrade_change userId subscriptionId at = \<lparr>pu_userId = userId, pu_subscriptionId = subscriptionId, pu_kind = PC_upgrade,
     pu_state = CS_applied, pu_stripeInvoiceId = None, pu_effectiveAt = Some (Some at), pu_hostedInvoiceUrl = None, pu_expiresAt = None\<rparr>"

definition upgrade_credits :: "string \<Rightarrow> ai_entitlement option \<Rightarrow> string \<Rightarrow> unit proc" where
  "upgrade_credits userId e invoiceId = (case e of
     None \<Rightarrow> sreturn ()
   | Some x \<Rightarrow> if ae_credits x > 0
       then sbind (on_db (enqueueOutbox (aiCreditOutboxItem userId x Act_grant (Some invoiceId)))) (\<lambda>_. sreturn ())
       else sreturn ())"

definition grant_upgrade_at :: "proc_event \<Rightarrow> stripe_invoice \<Rightarrow> string \<Rightarrow> subscription_upsert \<Rightarrow> bool \<Rightarrow> jsdate \<Rightarrow> jsdate \<Rightarrow> jsdate \<Rightarrow> string proc" where
  "grant_upgrade_at ev invoice userId row premium start stop at =
     sbind (slift (upgrade_amount premium start stop at)) (\<lambda>amount.
       case (if premium then map_sum id Some (aiUpgradeEntitlement \<lparr>au_userId = userId, au_subscriptionId = sub_id row,
               au_periodStart = start, au_periodEnd = stop, au_effectiveAt = at\<rparr>) else Inr None) of
         Inl _ \<Rightarrow> sreturn ''review:invalid_ai_upgrade''
       | Inr credits \<Rightarrow> settle_subscription ev (in_id invoice) row
          (sbind (paidGrant ev (compute_grant userId (sub_id row) Upgrade_prorated amount (Some start) (Some stop) (in_id invoice))
              (if premium then ''premium_monthly_v3'' else ''compute_monthly_v2'')) (\<lambda>_.
           sbind (upgrade_credits userId credits (in_id invoice)) (\<lambda>_.
           sbind (on_db (setPlanChangeState (upgrade_change userId (sub_id row) at))) (\<lambda>_. sreturn ''applied'')))))"

text \<open>A late upgrade invoice must not grant against a later renewal.\<close>

definition grant_upgrade :: "proc_event \<Rightarrow> stripe_invoice \<Rightarrow> stripe_subscription \<Rightarrow> string \<Rightarrow> subscription_upsert \<Rightarrow> invoice_line \<Rightarrow> string proc" where
  "grant_upgrade ev invoice x userId row compute =
     (case (st_currentPeriodStart x, st_currentPeriodEnd x, il_periodStart compute, il_periodEnd compute) of
        (Some (Some start), Some (Some currentEnd), Some (Some at), Some (Some stop)) \<Rightarrow>
          if \<not> currentEnd > start then sreturn ''review:invalid_period''
          else if stop div 1000 \<noteq> currentEnd div 1000 \<or> at < start \<or> at \<ge> stop then sreturn ''review:upgrade_period_mismatch''
          else grant_upgrade_at ev invoice userId row (is_premium_line compute) (Some start) (Some stop) (Some at)
      | _ \<Rightarrow> sreturn ''review:invalid_period'')"

definition resolve_ignored :: "proc_event \<Rightarrow> string \<Rightarrow> string proc" where
  "resolve_ignored ev invoiceId = sbind (on_db (resolvePaymentIssue invoiceId (event_date ev))) (\<lambda>_. sreturn ''ignored'')"

definition apply_grant_to :: "proc_event \<Rightarrow> stripe_invoice \<Rightarrow> stripe_subscription \<Rightarrow> string \<Rightarrow> string proc" where
  "apply_grant_to ev invoice x userId =
     (case st_sku x of None \<Rightarrow> sreturn ''review:unknown_sku'' | Some sku \<Rightarrow>
      or_return ''review:unknown_sku'' (billingOfferBySku sku) (\<lambda>offer.
        let row = subscriptionRow x sku userId (pe_created ev) in
        case invoiceGrantKind invoice of
          IG_period \<Rightarrow> if bo_sku offer = pp_sku PRO_PLAN then grant_pro ev invoice userId row else grant_plan ev invoice userId row
        | IG_upgrade compute \<Rightarrow> grant_upgrade ev invoice x userId row compute
        | _ \<Rightarrow> resolve_ignored ev (in_id invoice)))"

definition apply_overage_paid :: "proc_event \<Rightarrow> string \<Rightarrow> string proc" where
  "apply_overage_paid ev invoiceId =
     sbind (on_db (setOverageInvoiceStatus invoiceId OI_paid)) (\<lambda>updated.
     sbind (on_db (resolvePaymentIssue invoiceId (event_date ev))) (\<lambda>_.
       sreturn (if updated then ''applied'' else ''ignored'')))"

definition apply_grant_period :: "stripe_api \<Rightarrow> proc_event \<Rightarrow> string \<Rightarrow> string proc" where
  "apply_grant_period stripe ev invoiceId =
     sbind (slift (retrieveInvoice stripe invoiceId)) (\<lambda>invoice.
       if in_status invoice \<noteq> ''paid'' then sreturn ''ignored''
       else if invoiceGrantKind invoice = IG_overage then apply_overage_paid ev (in_id invoice)
       else if in_billingReason invoice = None \<or> in_billingReason invoice = Some ''manual'' then resolve_ignored ev (in_id invoice)
       else (case in_subscriptionId invoice of None \<Rightarrow> resolve_ignored ev (in_id invoice) | Some sid \<Rightarrow>
         sbind (slift (retrieveSubscription stripe sid)) (\<lambda>x.
           if st_customer x \<noteq> in_customer invoice then sreturn ''review:customer_mismatch''
           else owner_then (in_customer invoice) (apply_grant_to ev invoice x))))"

subsection \<open>Subscriptions and payment issues\<close>

definition change_to :: "string \<Rightarrow> string \<Rightarrow> PlanChangeKind \<Rightarrow> PlanChangeState \<Rightarrow> jsdate option option \<Rightarrow> string option option \<Rightarrow> plan_change_update" where
  "change_to userId subscriptionId kind st at invoiceId = \<lparr>pu_userId = userId, pu_subscriptionId = subscriptionId, pu_kind = kind,
     pu_state = st, pu_stripeInvoiceId = invoiceId, pu_effectiveAt = at, pu_hostedInvoiceUrl = None, pu_expiresAt = None\<rparr>"

definition scheduled_downgrade :: "string \<Rightarrow> string \<Rightarrow> plan_change_row \<Rightarrow> bool" where
  "scheduled_downgrade subscriptionId sku c \<longleftrightarrow> pc_subscriptionId c = subscriptionId \<and> pc_kind c = PC_downgrade \<and>
     pc_state c = CS_scheduled \<and> pc_toSku c = Some sku"

definition apply_downgrade :: "string \<Rightarrow> stripe_subscription \<Rightarrow> string \<Rightarrow> unit proc" where
  "apply_downgrade userId x sku =
     sbind (on_db (openPlanChanges userId)) (\<lambda>changes.
       case find (scheduled_downgrade (st_id x) sku) changes of
         None \<Rightarrow> sreturn ()
       | Some _ \<Rightarrow> on_db (setPlanChangeState (change_to userId (st_id x) PC_downgrade CS_applied (Some (st_currentPeriodStart x)) None)))"

definition sync_subscription :: "stripe_api \<Rightarrow> proc_event \<Rightarrow> string \<Rightarrow> (string \<Rightarrow> string \<Rightarrow> string proc) \<Rightarrow> string proc" where
  "sync_subscription stripe ev subscriptionId rest =
     sbind (slift (retrieveSubscription stripe subscriptionId)) (\<lambda>x.
       case st_sku x of None \<Rightarrow> sreturn ''review:unknown_sku'' | Some sku \<Rightarrow>
         if billingOfferBySku sku = None then sreturn ''review:unknown_sku''
         else owner_then (st_customer x) (\<lambda>userId.
           sbind (on_db (upsertSubscription (subscriptionRow x sku userId (pe_created ev)))) (\<lambda>result.
             if result = Up_conflict then sreturn ''review:customer_mismatch''
             else sbind (if result = Up_applied then apply_downgrade userId x sku else sreturn ()) (\<lambda>_. rest userId (st_id x)))))"

text \<open>A failure is recorded as the provider's current state says; \<open>None\<close> when there is none.\<close>

definition current_issue :: "stripe_api \<Rightarrow> stripe_invoice \<Rightarrow> InvoiceIssue \<Rightarrow> InvoiceIssue option proc" where
  "current_issue stripe invoice issue =
     (if issue \<notin> {II_payment_failed, II_requires_action} then sreturn (Some issue)
      else if in_status invoice = ''paid'' then sreturn None
      else sbind (slift (retrieveInvoicePaymentState stripe (in_id invoice))) (\<lambda>st.
        sreturn (if st = IP_paid \<or> st = IP_processing then None
                 else Some (if st = IP_requires_action then II_requires_action else II_payment_failed))))"

definition invoice_kind :: "stripe_invoice \<Rightarrow> InvoiceKind" where
  "invoice_kind invoice = (if in_metadataKind invoice = Some ''overage'' then IK_overage
     else if in_billingReason invoice = Some UPGRADE_GRANT_BILLING_REASON then IK_upgrade else IK_subscription)"

fun issue_status :: "InvoiceIssue \<Rightarrow> OverageInvoiceStatus" where
  "issue_status II_payment_failed = OI_payment_failed"
| "issue_status II_requires_action = OI_requires_action"
| "issue_status II_voided = OI_void"
| "issue_status II_uncollectible = OI_uncollectible"

text \<open>A failed overage invoice withdraws the consent.\<close>

definition withdraw_consent :: "string \<Rightarrow> string option \<Rightarrow> jsdate \<Rightarrow> unit proc" where
  "withdraw_consent userId subscriptionId at = (case subscriptionId of None \<Rightarrow> sreturn () | Some sid \<Rightarrow>
     sbind (on_db (latestConsent userId sid)) (\<lambda>consent. case consent of
       Some c \<Rightarrow> if \<not> oc_enabled c then sreturn ()
         else sbind (on_db (recordConsent \<lparr>oc_userId = userId, oc_subscriptionId = oc_subscriptionId c, oc_enabled = False,
              oc_capCents = oc_capCents c, oc_termsVersion = oc_termsVersion c, oc_catalogVersion = oc_catalogVersion c,
              oc_rateCentsPerStdHour = oc_rateCentsPerStdHour c, oc_actor = ''system:overage_payment_issue'', oc_acceptedAt = at\<rparr>)) (\<lambda>_. sreturn ())
     | None \<Rightarrow> sreturn ()))"

definition record_issue :: "stripe_invoice \<Rightarrow> InvoiceIssue \<Rightarrow> jsdate \<Rightarrow> string \<Rightarrow> InvoiceKind \<Rightarrow> string option \<Rightarrow> string proc" where
  "record_issue invoice issue eventCreated userId kind subscriptionId =
     sbind (on_db (recordPaymentIssue \<lparr>pi_stripeInvoiceId = in_id invoice, pi_userId = userId, pi_subscriptionId = subscriptionId,
        pi_invoiceKind = kind, pi_issue = issue, pi_hostedInvoiceUrl = in_hostedInvoiceUrl invoice, pi_stripeEventCreated = eventCreated\<rparr>)) (\<lambda>_.
     sbind (case kind of
         IK_overage \<Rightarrow> sbind (on_db (setOverageInvoiceStatus (in_id invoice) (issue_status issue))) (\<lambda>_.
           withdraw_consent userId subscriptionId eventCreated)
       | IK_upgrade \<Rightarrow> (case subscriptionId of None \<Rightarrow> sreturn ()
           | Some sid \<Rightarrow> on_db (setPlanChangeState (change_to userId sid PC_upgrade
               (if issue = II_requires_action then CS_requires_action else CS_payment_failed) None (Some (Some (in_id invoice))))))
       | IK_subscription \<Rightarrow> sreturn ()) (\<lambda>_. sreturn ''applied''))"

definition apply_invoice_issue :: "stripe_api \<Rightarrow> string \<Rightarrow> InvoiceIssue \<Rightarrow> jsdate \<Rightarrow> string proc" where
  "apply_invoice_issue stripe invoiceId issue0 eventCreated =
     sbind (slift (retrieveInvoice stripe invoiceId)) (\<lambda>invoice.
       if in_metadataKind invoice \<noteq> Some ''overage'' \<and> in_subscriptionId invoice = None then sreturn ''ignored''
       else sbind (current_issue stripe invoice issue0) (\<lambda>current. or_return ''ignored'' current (\<lambda>issue.
         owner_then (in_customer invoice) (\<lambda>userId.
           if invoice_kind invoice \<noteq> IK_overage
           then record_issue invoice issue eventCreated userId (invoice_kind invoice) (in_subscriptionId invoice)
           else sbind (on_db (overageInvoiceByStripeId (in_id invoice))) (\<lambda>overage.
             or_return ''review:unknown_overage_invoice'' overage (\<lambda>row.
               if oi_userId row \<noteq> userId then sreturn ''review:customer_mismatch''
               else record_issue invoice issue eventCreated userId IK_overage (Some (oi_subscriptionId row))))))))"

subsection \<open>Top-ups\<close>

text \<open>The pack of a discounted catalogue purchase, rebuilt from the sold line.\<close>

definition sold_pack :: "stripe_api \<Rightarrow> stripe_session \<Rightarrow> string \<Rightarrow> (string + catalog_pack) proc" where
  "sold_pack stripe session sku =
     sbind (slift (retrieveCheckoutLineItems stripe (cs_id session))) (\<lambda>items.
       case items of
         [line] \<Rightarrow> (case li_price line of
           Some price \<Rightarrow>
             if li_quantity line \<noteq> Some 1 \<or> blank (pp_productId price) then sreturn (Inl ''review:invalid_pack_line'')
             else sbind (slift (retrieveProduct stripe (the (pp_productId price)))) (\<lambda>product.
               sreturn (case stripePackCredits product of
                 None \<Rightarrow> Inl ''review:pack_credits_mismatch''
               | Some credits \<Rightarrow>
                   if cs_metadataCredits session \<noteq> Some (show_int credits) then Inl ''review:pack_credits_mismatch''
                   else if stripePackSku (pd_id product) \<noteq> Some sku then Inl ''review:unknown_sku''
                   else if pp_type price \<noteq> ''one_time'' \<or> pp_priceCurrency price \<noteq> ''usd'' \<or> pp_unitAmount price \<noteq> Some (credits * 10)
                   then Inl ''review:invalid_pack_price''
                   else (case cs_amountTotal session of
                       Some paid_total \<Rightarrow>
                         if cs_currency session \<noteq> Some ''usd'' \<or> \<not> is_safe_integer paid_total \<or> paid_total < 0 \<or> paid_total > credits * 10
                         then Inl ''review:invalid_pack_amount''
                         else Inr \<lparr>pk_sku = sku, pk_aiCredits = Some credits, pk_creditCents = credits * 10, pk_discountPercent = 0,
                                pk_serviceFeeCents = 0, pk_totalCents = paid_total\<rparr>
                     | None \<Rightarrow> Inl ''review:invalid_pack_amount'')))
         | None \<Rightarrow> sreturn (Inl ''review:invalid_pack_line''))
       | _ \<Rightarrow> sreturn (Inl ''review:invalid_pack_line''))"

definition fund_pack :: "proc_event \<Rightarrow> string \<Rightarrow> string \<Rightarrow> catalog_pack \<Rightarrow> string proc" where
  "fund_pack ev userId paymentIntentId pk =
     (let (start, stop) = purchasedPeriod (pe_created ev) in
      sbind (slift (aiTopupOutboxItem userId pk paymentIntentId stop)) (\<lambda>receipt.
        or_return ''review:pack_credits_unset'' receipt (\<lambda>item.
          on_db (recordAiTopup \<lparr>g_userId = userId, g_meter = Ai_usd_micro, g_kind = Topup, g_amount = pk_creditCents pk * 10000,
            g_periodStart = Some start, g_periodEnd = Some stop, g_sourceType = Src_payment_intent, g_sourceId = paymentIntentId,
            g_subscriptionId = None\<rparr> item))))"

definition is_custom :: "stripe_session \<Rightarrow> bool" where
  "is_custom session \<longleftrightarrow> cs_sku session = Some CUSTOM_TOPUP_SKU"

definition session_pack :: "stripe_session \<Rightarrow> catalog_pack option" where
  "session_pack session = (if is_custom session then customTopupPack (cs_amountTotal session)
     else case cs_sku session of None \<Rightarrow> None | Some sku \<Rightarrow> findPack sku)"

definition custom_refusal :: "stripe_session \<Rightarrow> string option" where
  "custom_refusal session =
     (if \<not> is_custom session then None
      else case session_pack session of
        None \<Rightarrow> Some ''review:invalid_custom_amount''
      | Some pk \<Rightarrow> if cs_currency session \<noteq> Some ''usd'' then Some ''review:invalid_custom_amount''
          else if cs_metadataCredits session \<noteq> map_option show_int (pk_aiCredits pk) then Some ''review:custom_credits_mismatch''
          else None)"

definition apply_topup :: "stripe_api \<Rightarrow> proc_event \<Rightarrow> string \<Rightarrow> string proc" where
  "apply_topup stripe ev sessionId =
     sbind (slift (retrieveCheckoutSession stripe sessionId)) (\<lambda>session.
       if cs_mode session \<noteq> ''payment'' \<or> cs_paymentStatus session \<noteq> ''paid'' then sreturn ''ignored''
       else case custom_refusal session of Some refusal \<Rightarrow> sreturn refusal | None \<Rightarrow>
       or_return ''unattributed:customer'' (cs_customer session) (\<lambda>customer.
         owner_then customer (\<lambda>userId.
           or_return ''review:missing_payment_intent'' (cs_paymentIntentId session) (\<lambda>paymentIntentId.
             sbind (on_db (aiTopupReceipt userId paymentIntentId)) (\<lambda>known.
               if known \<noteq> None then sreturn ''applied''
               else case session_pack session of
                 Some pk \<Rightarrow> fund_pack ev userId paymentIntentId pk
               | None \<Rightarrow> (case cs_sku session of
                   Some sku \<Rightarrow>
                     if \<not> starts_with ''ai_pack_'' sku then sreturn ''review:unknown_sku''
                     else sbind (sold_pack stripe session sku) (\<lambda>sold. case sold of
                       Inl refusal \<Rightarrow> sreturn refusal | Inr pk \<Rightarrow> fund_pack ev userId paymentIntentId pk)
                 | None \<Rightarrow> sreturn ''review:unknown_sku''))))))"

subsection \<open>Refunds and disputes\<close>

record reversal_request =
  rq_action :: reversal_action
  rq_chargeId :: string
  rq_causeId :: string

definition no_grant_outcome :: "stripe_api \<Rightarrow> reversal_request \<Rightarrow> stripe_charge \<Rightarrow> string proc" where
  "no_grant_outcome stripe q charge =
     (let missing = (if rq_action q = Do_revoke then ''failed:no_grant_for_refund'' else ''failed:no_grant_for_dispute'') in
      case ch_invoiceId charge of
        Some invoiceId \<Rightarrow> sbind (slift (retrieveInvoice stripe invoiceId)) (\<lambda>invoice.
          sreturn (case invoiceGrantKind invoice of
            IG_overage \<Rightarrow> if rq_action q = Do_revoke then ''review:refund_on_overage_invoice'' else ''review:dispute_on_overage_invoice''
          | IG_none \<Rightarrow> ''ignored''
          | _ \<Rightarrow> missing))
      | None \<Rightarrow> sreturn (if ch_paymentIntentId charge = None then ''ignored'' else missing))"

text \<open>Receipts rebuilt from the sold line and the grant; an invalid upgrade root is skipped.\<close>

definition rebuilt_upgrade :: "string \<Rightarrow> string \<Rightarrow> invoice_line \<Rightarrow> grant_row \<Rightarrow> outbox_insert list" where
  "rebuilt_upgrade userId invoiceId line g =
     (case (g_subscriptionId g, g_periodStart g, g_periodEnd g) of
        (Some sid, Some start, Some stop) \<Rightarrow>
          if sid = [] \<or> \<not> is_premium_line line \<or> \<not> same_time (il_periodEnd line) (Some stop) then []
          else (case aiUpgradeEntitlement \<lparr>au_userId = userId, au_subscriptionId = sid, au_periodStart = start, au_periodEnd = stop,
                  au_effectiveAt = (case il_periodStart line of None \<Rightarrow> None | Some d \<Rightarrow> d)\<rparr> of
              Inr e \<Rightarrow> if ae_credits e > 0 then [aiCreditOutboxItem userId e Act_grant (Some invoiceId)] else []
            | Inl _ \<Rightarrow> [])
      | _ \<Rightarrow> [])"

definition rebuilt_upgrades :: "string \<Rightarrow> stripe_invoice \<Rightarrow> grant_row list \<Rightarrow> outbox_insert list" where
  "rebuilt_upgrades userId invoice originals = (case invoiceGrantKind invoice of
     IG_upgrade line \<Rightarrow> concat (map (rebuilt_upgrade userId (in_id invoice) line) (filter (\<lambda>g. g_kind g = Upgrade_prorated) originals))
   | _ \<Rightarrow> [])"

definition sold_line :: "stripe_invoice \<Rightarrow> PlanSkuV3 \<Rightarrow> grant_row \<Rightarrow> bool" where
  "sold_line invoice sku g \<longleftrightarrow> (\<exists>l \<in> set (in_lines invoice). il_lookupKey l = o3_stripeLookupKey (CATALOG_V3 sku) \<and>
     (il_subscriptionId l = g_subscriptionId g \<or> il_subscriptionId l = None) \<and>
     same_time (il_periodStart l) (g_periodStart g) \<and> same_time (il_periodEnd l) (g_periodEnd g))"

definition rebuilt_period :: "string \<Rightarrow> stripe_invoice \<Rightarrow> grant_row \<times> PlanSkuV3 \<Rightarrow> outbox_insert list res" where
  "rebuilt_period userId invoice = (\<lambda>(g, sku).
     if sold_line invoice sku g \<and> \<not> blank (g_subscriptionId g) \<and> g_periodStart g \<noteq> None \<and> g_periodEnd g \<noteq> None
     then rbind (aiCreditEntitlement \<lparr>ag_userId = userId, ag_sku = sku, ag_subscriptionId = g_subscriptionId g,
            ag_periodStart = the (g_periodStart g), ag_periodEnd = g_periodEnd g, ag_invoiceId = Some (in_id invoice)\<rparr>)
          (\<lambda>e. Inr [aiCreditOutboxItem userId e Act_grant (Some (in_id invoice))])
     else Inr [])"

definition rebuilt_periods :: "string \<Rightarrow> stripe_invoice \<Rightarrow> grant_row list \<Rightarrow> outbox_insert list res" where
  "rebuilt_periods userId invoice originals =
     rbind (res_map (rebuilt_period userId invoice) (concat (map (\<lambda>g. [(g, Standard_monthly_v3), (g, Premium_monthly_v3)])
       (filter (\<lambda>g. g_kind g = Plan_period) originals)))) (\<lambda>xs. Inr (concat xs))"

definition rebuilt_receipts :: "stripe_api \<Rightarrow> stripe_charge \<Rightarrow> string \<Rightarrow> grant_row list \<Rightarrow> (string + outbox_insert list) proc" where
  "rebuilt_receipts stripe charge userId originals =
     sbind (slift (retrieveInvoice stripe (the (ch_invoiceId charge)))) (\<lambda>invoice.
       if Some (in_customer invoice) \<noteq> ch_customer charge then sreturn (Inl ''review:customer_mismatch'')
       else sbind (slift (rebuilt_periods userId invoice originals)) (\<lambda>periods.
         sreturn (Inr (rebuilt_upgrades userId invoice originals @ periods))))"

definition stored_receipts :: "stripe_charge \<Rightarrow> string \<Rightarrow> outbox_insert list proc" where
  "stored_receipts charge userId = (case (ch_invoiceId charge, ch_paymentIntentId charge) of
     (None, Some pid) \<Rightarrow> sbind (on_db (aiTopupReceipt userId pid)) (\<lambda>r. sreturn (opt_list r))
   | (Some invoiceId, _) \<Rightarrow> on_db (aiCreditGrantsByInvoice userId invoiceId)
   | _ \<Rightarrow> sreturn [])"

definition local_reversal :: "string \<Rightarrow> reversal_request \<Rightarrow> grant_row \<Rightarrow> grant_insert" where
  "local_reversal userId q g = \<lparr>g_userId = userId, g_meter = g_meter g, g_kind = reversal_kind (rq_action q), g_amount = - g_amount g,
     g_periodStart = g_periodStart g, g_periodEnd = g_periodEnd g, g_sourceType = cause_source (cause_type (rq_action q)),
     g_sourceId = rq_causeId q, g_subscriptionId = g_subscriptionId g\<rparr>"

definition ai_original :: "grant_row list \<Rightarrow> grant_row option" where
  "ai_original originals = (case find (\<lambda>g. g_meter g = Ai_usd_micro) originals of
     Some g \<Rightarrow> Some g | None \<Rightarrow> find (\<lambda>g. g_kind g = Pro_period) originals)"

definition legacy_ai_revoke :: "string \<Rightarrow> reversal_request \<Rightarrow> grant_row \<Rightarrow> outbox_insert res" where
  "legacy_ai_revoke userId q g =
     rbind (iso_or_null (g_periodStart g)) (\<lambda>start. rbind (iso_or_null (g_periodEnd g)) (\<lambda>stop.
       Inr \<lparr>ob_eventKey = cause_text (cause_type (rq_action q)) @ '':'' @ rq_causeId q @ '':ai_'' @ kind_text (reversal_kind (rq_action q)),
            ob_userId = userId, ob_kind = Ai_revoke, ob_payload =
         [(''amountUsdMicro'', JStr (show_int (if g_meter g = Ai_usd_micro then g_amount g else pp_aiIncludedMicro PRO_PLAN))),
          (''bucket'', JStr (if g_kind g = Pro_period then ''included'' else ''purchased'')),
          (''periodStart'', start), (''periodEnd'', stop), (''expiresAt'', stop),
          (''provider'', JStr ''stripe''), (''providerObjectId'', JStr (rq_causeId q))]\<rparr>))"

definition reverse_legacy :: "string \<Rightarrow> reversal_request \<Rightarrow> grant_row list \<Rightarrow> string proc" where
  "reverse_legacy userId q originals =
     sbind (sfor originals (\<lambda>g. sbind (on_db (insertGrant (local_reversal userId q g))) (\<lambda>_. sreturn ()))) (\<lambda>_.
     sbind (case ai_original originals of None \<Rightarrow> sreturn ()
       | Some g \<Rightarrow> sbind (slift (legacy_ai_revoke userId q g)) (\<lambda>item. sbind (on_db (enqueueOutbox item)) (\<lambda>_. sreturn ()))) (\<lambda>_.
       sreturn ''applied''))"

definition reverse_with :: "reversal_request \<Rightarrow> stripe_charge \<Rightarrow> string \<Rightarrow> string \<Rightarrow> grant_row list \<Rightarrow> outbox_insert list \<Rightarrow> string proc" where
  "reverse_with q charge customer userId originals receipts =
     (if rq_action q = Do_restore \<and> ch_refunded charge then sreturn ''review:restore_refused_terminal''
      else if receipts \<noteq> [] then on_db (recordAiReversal \<lparr>ar_action = rq_action q, ar_causeId = rq_causeId q,
         ar_chargeId = ch_id charge, ar_customerId = customer, ar_userId = userId, ar_originals = originals, ar_receipts = receipts\<rparr>)
      else if rq_action q = Do_restore then sreturn ''review:restore_receipt_missing''
      else reverse_legacy userId q originals)"

definition reverse_originals :: "stripe_api \<Rightarrow> reversal_request \<Rightarrow> stripe_charge \<Rightarrow> string \<Rightarrow> string \<Rightarrow> grant_row list \<Rightarrow> string proc" where
  "reverse_originals stripe q charge customer userId originals =
     sbind (stored_receipts charge userId) (\<lambda>receipts.
       if receipts = [] \<and> rq_action q \<noteq> Do_restore \<and> ch_invoiceId charge \<noteq> None \<and>
          (\<exists>g \<in> set originals. g_kind g = Plan_period \<or> g_kind g = Upgrade_prorated)
       then sbind (rebuilt_receipts stripe charge userId originals) (\<lambda>r. case r of
              Inl refusal \<Rightarrow> sreturn refusal | Inr rebuilt \<Rightarrow> reverse_with q charge customer userId originals rebuilt)
       else reverse_with q charge customer userId originals receipts)"

definition charge_grants :: "stripe_charge \<Rightarrow> (db, grant_row list) prog" where
  "charge_grants charge = (case (ch_invoiceId charge, ch_paymentIntentId charge) of
     (Some invoiceId, _) \<Rightarrow> grantsBySource Src_invoice invoiceId
   | (None, Some pid) \<Rightarrow> grantsBySource Src_payment_intent pid
   | _ \<Rightarrow> sreturn [])"

definition apply_reversal :: "stripe_api \<Rightarrow> reversal_request \<Rightarrow> string proc" where
  "apply_reversal stripe q =
     sbind (slift (retrieveCharge stripe (rq_chargeId q))) (\<lambda>charge.
       if rq_action q = Do_revoke \<and> \<not> ch_refunded charge then sreturn ''review:partial_refund''
       else or_return ''unattributed:customer'' (ch_customer charge) (\<lambda>customer.
         owner_then customer (\<lambda>userId.
           sbind (on_db (charge_grants charge)) (\<lambda>originals.
             if originals = [] then no_grant_outcome stripe q charge
             else if \<exists>g \<in> set originals. g_userId g \<noteq> userId then sreturn ''review:customer_mismatch''
             else reverse_originals stripe q charge customer userId originals))))"

subsection \<open>Actions and events\<close>

fun applyAction :: "stripe_api \<Rightarrow> proc_event \<Rightarrow> billing_action \<Rightarrow> string proc" where
  "applyAction stripe ev (Link_customer _ ref _) = apply_link stripe ev ref"
| "applyAction stripe ev (Grant_period invoiceId _ _ _ _ _) = apply_grant_period stripe ev invoiceId"
| "applyAction stripe ev (Sync_subscription sid _ stamp issue) = sync_subscription stripe ev sid (\<lambda>_ _.
     case issue of None \<Rightarrow> sreturn ''applied'' | Some invoiceId \<Rightarrow> apply_invoice_issue stripe invoiceId II_payment_failed stamp)"
| "applyAction stripe ev (Plan_change sid outcome _) = sync_subscription stripe ev sid (\<lambda>userId subscriptionId.
     sbind (on_db (setPlanChangeState (change_to userId subscriptionId PC_upgrade outcome None None))) (\<lambda>_. sreturn ''applied''))"
| "applyAction stripe ev (Invoice_issue invoiceId issue stamp) = apply_invoice_issue stripe invoiceId issue stamp"
| "applyAction stripe ev (Topup_paid _ _ sessionId _) = apply_topup stripe ev sessionId"
| "applyAction stripe ev (billing_action.Revoke chargeId refundId _) = apply_reversal stripe \<lparr>rq_action = Do_revoke, rq_chargeId = chargeId, rq_causeId = refundId\<rparr>"
| "applyAction stripe ev (billing_action.Suspend chargeId disputeId _) = apply_reversal stripe \<lparr>rq_action = Do_suspend, rq_chargeId = chargeId, rq_causeId = disputeId\<rparr>"
| "applyAction stripe ev (billing_action.Restore chargeId disputeId _) = apply_reversal stripe \<lparr>rq_action = Do_restore, rq_chargeId = chargeId, rq_causeId = disputeId\<rparr>"

text \<open>The members of the event the handlers read, after the plan has checked them.\<close>

definition event_view :: "json \<Rightarrow> proc_event" where
  "event_view event =
     (let ms = (case event of JObj ms \<Rightarrow> ms | _ \<Rightarrow> []) in
      \<lparr>pe_type = (case member_of ms ''type'' of Some (JStr t) \<Rightarrow> t | _ \<Rightarrow> []),
       pe_created = (case member_of ms ''created'' of Some (JInt n) \<Rightarrow> n | _ \<Rightarrow> 0),
       pe_objectId = (case member_of ms ''data'' of Some (JObj d) \<Rightarrow>
           (case member_of d ''object'' of Some (JObj p) \<Rightarrow> member_of p ''id'' | _ \<Rightarrow> None) | _ \<Rightarrow> None)\<rparr>)"

definition keep_outcome :: "string \<Rightarrow> string \<Rightarrow> string" where
  "keep_outcome outcome result =
     (if starts_with ''failed:'' result \<or> (outcome = ''applied'' \<and> result \<noteq> ''applied'') then result else outcome)"

fun run_actions :: "stripe_api \<Rightarrow> proc_event \<Rightarrow> string \<Rightarrow> billing_action list \<Rightarrow> string proc" where
  "run_actions stripe ev outcome [] = sreturn outcome"
| "run_actions stripe ev outcome (a # as) =
     sbind (applyAction stripe ev a) (\<lambda>result. run_actions stripe ev (keep_outcome outcome result) as)"

definition processPlannedEvent :: "stripe_api \<Rightarrow> json \<Rightarrow> string proc" where
  "processPlannedEvent stripe event = (case planStripeEvent event of
     Inl TypeError \<Rightarrow> sreturn ''review:invalid_event''
   | Inl e \<Rightarrow> sthrow e
   | Inr [] \<Rightarrow> sreturn ''ignored''
   | Inr actions \<Rightarrow> run_actions stripe (event_view event) ''applied'' actions)"

text \<open>Logging aside, the entry point adds nothing.\<close>

definition processStripeEvent :: "stripe_api \<Rightarrow> json \<Rightarrow> string proc" where
  "processStripeEvent = processPlannedEvent"

subsection \<open>Usage events\<close>

definition on_epochs :: "UsageEvent \<Rightarrow> string \<Rightarrow> (db, unit) prog" where
  "on_epochs ev userId = (case ev of
     Usage_start c at \<Rightarrow> sbind (openEpoch \<lparr>oe_sessionMax = None, oe_userId = userId, oe_computerId = c, oe_subscriptionId = None,
       oe_size = Free_cf, oe_readyAt = at, oe_deadlineAt = None, oe_overheadSeconds = 0\<rparr>) (\<lambda>_. sreturn ())
   | Usage_heartbeat c at \<Rightarrow> sbind (touchEpoch c at) (\<lambda>_. sreturn ())
   | Usage_stop c at reason \<Rightarrow> sbind (closeEpoch \<lparr>cl_computerId = c, cl_epochId = None, cl_readyBy = Some at, cl_endedAt = at,
       cl_reason = (if reason = Some ''idle'' then Idle_sleep else Provider_stop), cl_overheadSeconds = None\<rparr>) (\<lambda>_. sreturn ())
   | Usage_storage _ _ _ \<Rightarrow> sreturn ())"

definition touch_measurement :: "string \<Rightarrow> string \<Rightarrow> jsdate \<Rightarrow> string \<Rightarrow> (db, unit) prog" where
  "touch_measurement userId c at source = sbind (openInterval userId c at source) (\<lambda>_. touchInterval c at)"

text \<open>The answer says whether the event is accepted.\<close>

definition ingest_one :: "int \<Rightarrow> UsageEvent \<Rightarrow> (db, bool) prog" where
  "ingest_one latestAllowed ev =
     (let (c, at) = (case ev of Usage_start c at \<Rightarrow> (c, at) | Usage_heartbeat c at \<Rightarrow> (c, at)
                     | Usage_stop c at _ \<Rightarrow> (c, at) | Usage_storage c at _ \<Rightarrow> (c, at)) in
      sbind (computerOwner c) (\<lambda>owner. case owner of None \<Rightarrow> sreturn False | Some userId \<Rightarrow>
        if (case at of None \<Rightarrow> True | Some ms \<Rightarrow> ms > latestAllowed) then sreturn False
        else (case ev of
          Usage_start _ _ \<Rightarrow> sbind (touch_measurement userId c at ''start'') (\<lambda>_.
            sbind (on_epochs ev userId) (\<lambda>_. sreturn True))
        | Usage_heartbeat _ _ \<Rightarrow> sbind (latestIntervalFor c) (\<lambda>latest.
            sbind (if (\<exists>e. latest = Some (Some e)) then sreturn () else touch_measurement userId c at ''heartbeat'') (\<lambda>_.
            sbind (on_epochs ev userId) (\<lambda>_. sreturn True)))
        | Usage_stop _ _ reason \<Rightarrow> sbind (closeInterval c at (case reason of None \<Rightarrow> ''stop'' | Some r \<Rightarrow> r)) (\<lambda>_.
            sbind (placementProvider c) (\<lambda>provider.
              if provider = Some ''aws-ec2'' then sreturn True
              else sbind (on_epochs ev userId) (\<lambda>_. sreturn True)))
        | Usage_storage _ _ bytes \<Rightarrow>
            if bytes = [] \<or> \<not> list_all is_digit bytes then sreturn False
            else sbind (insertStorageSample userId \<lparr>ss_computerId = c, ss_bytes = digits_val bytes, ss_measuredAt = at\<rparr> ''worker'')
              (\<lambda>_. sreturn True))))"

fun ingest_all :: "int \<Rightarrow> UsageEvent list \<Rightarrow> nat \<times> nat \<Rightarrow> (db, nat \<times> nat) prog" where
  "ingest_all latestAllowed [] n = sreturn n"
| "ingest_all latestAllowed (ev # evs) (accepted, rejected) = sbind (ingest_one latestAllowed ev) (\<lambda>ok.
     ingest_all latestAllowed evs (if ok then (Suc accepted, rejected) else (accepted, Suc rejected)))"

definition ingestUsageEvents :: "int \<Rightarrow> UsageEvent list \<Rightarrow> (db, nat \<times> nat) prog" where
  "ingestUsageEvents now events = ingest_all (now + 5 * 60 * 1000) events (0, 0)"

subsection \<open>Reads, and what every answer of Stripe leaves true\<close>

lemma read_inv [billing_intros]:
  "preserves I (userForStripeCustomer c)" "preserves I (openPlanChanges u)" "preserves I (latestConsent u sid)"
  "preserves I (overageInvoiceByStripeId i)" "preserves I (aiCreditGrantsByInvoice u i)" "preserves I (grantsBySource t i)"
  "preserves I (computerOwner c)" "preserves I (latestIntervalFor c)" "preserves I (placementProvider c)"
  unfolding userForStripeCustomer_def openPlanChanges_def latestConsent_def overageInvoiceByStripeId_def
    aiCreditGrantsByInvoice_def grantsBySource_def computerOwner_def latestIntervalFor_def placementProvider_def
  by (rule preserves_get)+

lemma aiTopupReceipt_read [billing_intros]: "preserves I (aiTopupReceipt u p)"
  unfolding aiTopupReceipt_def by (intro billing_intros)

lemma charge_grants_read [billing_intros]: "preserves I (charge_grants c)"
  unfolding charge_grants_def by (auto split: option.splits intro: billing_intros)

definition on_fst :: "(db \<Rightarrow> bool) \<Rightarrow> db \<times> migrations \<Rightarrow> bool" where
  "on_fst I s = I (fst s)"

lemma on_db_keeps: "preserves I m \<Longrightarrow> preserves (on_fst I) (on_db m)"
  by (auto simp: preserves_def on_fst_def on_db_def split: prod.splits)

lemma schedule_keeps: "preserves (on_fst I) (schedulePaidMigration u sku t)"
  by (simp add: preserves_def on_fst_def schedulePaidMigration_def)

lemma preserves_bind_result:
  assumes "preserves I m" and "\<And>x s t. I s \<Longrightarrow> m s = (Inr x, t) \<Longrightarrow> I t \<Longrightarrow> I (snd (f x t))"
  shows "preserves I (sbind m f)"
  unfolding preserves_def sbind_def
proof (intro allI impI)
  fix s assume s: "I s"
  show "I (snd (case m s of (Inl e, s') \<Rightarrow> (Inl e, s') | (Inr x, s') \<Rightarrow> f x s'))"
    using assms s by (cases "m s") (force simp: preserves_def split: sum.split)
qed

lemma or_return_keeps: "(\<And>x. v = Some x \<Longrightarrow> preserves I (f x)) \<Longrightarrow> preserves I (or_return out v f)"
  by (cases v) (auto simp: or_return_def intro: billing_intros)

lemma sum_case_keeps: "(\<And>e. v = Inl e \<Longrightarrow> preserves I (g e)) \<Longrightarrow> (\<And>x. v = Inr x \<Longrightarrow> preserves I (f x)) \<Longrightarrow>
  preserves I (case v of Inl e \<Rightarrow> g e | Inr x \<Rightarrow> f x)"
  by (cases v) auto

lemma if_keeps: "(c \<Longrightarrow> preserves I a) \<Longrightarrow> (\<not> c \<Longrightarrow> preserves I b) \<Longrightarrow> preserves I (if c then a else b)"
  by simp

lemma option_case_keeps: "(v = None \<Longrightarrow> preserves I a) \<Longrightarrow> (\<And>x. v = Some x \<Longrightarrow> preserves I (f x)) \<Longrightarrow>
  preserves I (case v of None \<Rightarrow> a | Some x \<Rightarrow> f x)"
  by (cases v) auto

lemmas keeps = preserves_return preserves_throw preserves_get preserves_bind preserves_lift preserves_for
  on_db_keeps schedule_keeps or_return_keeps sum_case_keeps if_keeps option_case_keeps

lemma owner_then_keeps: "(\<And>u. preserves (on_fst I) (f u)) \<Longrightarrow> preserves (on_fst I) (owner_then c f)"
  unfolding owner_then_def by (intro keeps read_inv)

lemma settle_keeps:
  "preserves I (upsertSubscription row) \<Longrightarrow> preserves I (resolvePaymentIssue i (event_date ev)) \<Longrightarrow> preserves (on_fst I) rest \<Longrightarrow>
   preserves (on_fst I) (settle_subscription ev i row rest)"
  unfolding settle_subscription_def by (intro keeps)

lemma sold_pack_keeps: "preserves I (sold_pack stripe session sku)"
  unfolding sold_pack_def by (auto split: list.splits option.splits intro!: keeps)

lemma no_grant_outcome_keeps: "preserves I (no_grant_outcome stripe q charge)"
  unfolding no_grant_outcome_def Let_def by (auto split: option.splits intro!: keeps)

lemma current_issue_keeps: "preserves I (current_issue stripe invoice issue)"
  unfolding current_issue_def by (intro keeps)

subsection \<open>What the handlers leave true of the store\<close>

text \<open>
  The store as the handlers of Stripe events see it: what all its writes keep, every handler keeps, whatever
  Stripe answers and wherever the handler stops.
\<close>

locale event_store =
  fixes I :: "db \<Rightarrow> bool"
  assumes writes:
    "preserves I (linkCustomer u c)" "preserves I (upsertSubscription row)" "preserves I (resolvePaymentIssue i at)"
    "preserves I (recordPaymentIssue p)" "preserves I (insertGrant g)" "preserves I (enqueueOutbox item)"
    "preserves I (setOverageInvoiceStatus i st)" "preserves I (setPlanChangeState change)" "preserves I (recordConsent consent)"
    "preserves I (recordAiTopup g item)" "preserves I (recordAiReversal r)"
begin

lemma apply_link_keeps: "preserves (on_fst I) (apply_link stripe ev ref)"
  unfolding apply_link_def by (auto split: option.splits json.splits intro!: keeps writes read_inv aiTopupReceipt_read charge_grants_read)

lemma resolve_ignored_keeps: "preserves (on_fst I) (resolve_ignored ev i)"
  unfolding resolve_ignored_def by (intro keeps writes read_inv aiTopupReceipt_read charge_grants_read)

lemma paidGrant_keeps: "preserves (on_fst I) (paidGrant ev g sku)"
  unfolding paidGrant_def by (intro keeps writes read_inv aiTopupReceipt_read charge_grants_read)

lemma grant_plan_keeps: "preserves (on_fst I) (grant_plan ev invoice u row)"
  unfolding grant_plan_def period_credits_def
  by (auto split: list.splits intro!: keeps settle_keeps writes read_inv aiTopupReceipt_read charge_grants_read paidGrant_keeps)

lemma apply_grant_to_keeps: "preserves (on_fst I) (apply_grant_to ev invoice x u)"
  unfolding apply_grant_to_def grant_pro_def grant_upgrade_def grant_upgrade_at_def upgrade_credits_def Let_def
  by (auto split: option.splits invoice_grant.splits sum.splits
      intro!: keeps settle_keeps writes read_inv aiTopupReceipt_read charge_grants_read paidGrant_keeps grant_plan_keeps resolve_ignored_keeps)

lemma apply_grant_period_keeps: "preserves (on_fst I) (apply_grant_period stripe ev i)"
  unfolding apply_grant_period_def apply_overage_paid_def
  by (intro keeps owner_then_keeps apply_grant_to_keeps resolve_ignored_keeps writes read_inv aiTopupReceipt_read charge_grants_read)

lemma apply_downgrade_keeps: "preserves (on_fst I) (apply_downgrade u x sku)"
  unfolding apply_downgrade_def by (intro keeps writes read_inv aiTopupReceipt_read charge_grants_read)

lemma sync_subscription_keeps:
  "(\<And>u i. preserves (on_fst I) (rest u i)) \<Longrightarrow> preserves (on_fst I) (sync_subscription stripe ev sid rest)"
  unfolding sync_subscription_def by (intro keeps owner_then_keeps apply_downgrade_keeps writes read_inv aiTopupReceipt_read charge_grants_read)

lemma record_issue_keeps: "preserves (on_fst I) (record_issue invoice issue at u k sid)"
  unfolding record_issue_def withdraw_consent_def
  by (auto split: InvoiceKind.splits option.splits intro!: keeps writes read_inv aiTopupReceipt_read charge_grants_read)

lemma apply_invoice_issue_keeps: "preserves (on_fst I) (apply_invoice_issue stripe i issue at)"
  unfolding apply_invoice_issue_def
  by (intro keeps owner_then_keeps record_issue_keeps current_issue_keeps writes read_inv aiTopupReceipt_read charge_grants_read)

lemma fund_pack_keeps: "preserves (on_fst I) (fund_pack ev u p pk)"
  unfolding fund_pack_def Let_def by (auto split: prod.splits intro!: keeps writes read_inv aiTopupReceipt_read charge_grants_read)

lemma apply_topup_keeps: "preserves (on_fst I) (apply_topup stripe ev sid)"
  unfolding apply_topup_def
  by (auto split: option.splits sum.splits intro!: keeps owner_then_keeps sold_pack_keeps fund_pack_keeps writes read_inv aiTopupReceipt_read charge_grants_read)

lemma reverse_with_keeps: "preserves (on_fst I) (reverse_with q charge c u originals receipts)"
  unfolding reverse_with_def reverse_legacy_def by (auto split: option.splits intro!: keeps writes read_inv aiTopupReceipt_read charge_grants_read)

lemma reverse_originals_keeps: "preserves (on_fst I) (reverse_originals stripe q charge c u originals)"
  unfolding reverse_originals_def stored_receipts_def rebuilt_receipts_def
  by (auto split: option.splits sum.splits intro!: keeps reverse_with_keeps writes read_inv aiTopupReceipt_read charge_grants_read)

lemma apply_reversal_keeps: "preserves (on_fst I) (apply_reversal stripe q)"
  unfolding apply_reversal_def
  by (intro keeps owner_then_keeps reverse_originals_keeps no_grant_outcome_keeps writes read_inv aiTopupReceipt_read charge_grants_read)

lemma applyAction_keeps: "preserves (on_fst I) (applyAction stripe ev a)"
  by (cases a) (auto split: option.splits intro!: keeps apply_link_keeps apply_grant_period_keeps sync_subscription_keeps apply_invoice_issue_keeps
      apply_topup_keeps apply_reversal_keeps writes read_inv aiTopupReceipt_read charge_grants_read)

lemma run_actions_keeps: "preserves (on_fst I) (run_actions stripe ev out as)"
  by (induction as arbitrary: out) (auto intro!: keeps applyAction_keeps)

lemma processStripeEvent_keeps: "preserves (on_fst I) (processStripeEvent stripe event)"
  unfolding processStripeEvent_def processPlannedEvent_def
  by (auto split: sum.splits jserror.splits list.splits intro!: keeps run_actions_keeps applyAction_keeps)

end

interpretation invariant_store: event_store db_inv
  by unfold_locales (rule billing_intros)+

lemma preserves_Pair: "preserves I (Pair r)"
  by (simp add: preserves_def)

text \<open>The store as the ingestion of usage events sees it.\<close>

locale usage_store =
  fixes I :: "db \<Rightarrow> bool"
  assumes usage_writes:
    "preserves I (openInterval u c at source)" "preserves I (touchInterval c at)" "preserves I (closeInterval c at reason)"
    "preserves I (insertStorageSample u sample source)" "preserves I (openEpoch i)" "preserves I (touchEpoch c at)" "preserves I (closeEpoch j)"
begin

lemma ingest_one_keeps: "preserves I (ingest_one latest ev)"
  unfolding ingest_one_def on_epochs_def touch_measurement_def Let_def
  by (auto split: UsageEvent.splits option.splits intro!: keeps usage_writes read_inv)

lemma ingest_all_keeps: "preserves I (ingest_all latest evs n)"
  by (induction latest evs n rule: ingest_all.induct) (auto intro!: keeps ingest_one_keeps preserves_Pair)

end

interpretation usage_invariant: usage_store db_inv
  by unfold_locales (rule billing_intros)+

end
