(* ===== verification/Processor_Props.thy ===== *)
theory Processor_Props
  imports Processor
begin

text \<open>
  What the processor promises: the entitlement of a paid invoice, the rows its handlers may add to the ledger
  and to the outbox, and the properties of the processor of Stripe and usage events.
\<close>

subsection \<open>Entitlements\<close>

text \<open>
  The specification of a grant: an invoice, paid and billed automatically for a subscription of the same
  customer, entitles the customer's user to one ledger row, and to the receipts of the credits it includes.
  The amount is that of the offer on the invoice's own line, or the prorated difference of an upgrade.
\<close>

definition pro_entitles :: "stripe_invoice \<Rightarrow> string \<Rightarrow> grant_insert \<Rightarrow> outbox_insert list \<Rightarrow> bool" where
  "pro_entitles invoice u g items \<longleftrightarrow> g = pro_grant u invoice \<and>
     (\<exists>start stop. in_periodStart invoice = Some (Some start) \<and> in_periodEnd invoice = Some (Some stop) \<and> start < stop \<and>
        items = [pro_receipt u (in_id invoice) (JStr (iso_string start)) (JStr (iso_string stop))])"

definition credit_items :: "string \<Rightarrow> string \<Rightarrow> ai_entitlement res \<Rightarrow> outbox_insert list" where
  "credit_items u invoiceId e = (case e of Inr x \<Rightarrow> [aiCreditOutboxItem u x Act_grant (Some invoiceId)] | Inl _ \<Rightarrow> [])"

definition plan_entitles :: "stripe_invoice \<Rightarrow> string \<Rightarrow> string \<Rightarrow> grant_insert \<Rightarrow> outbox_insert list \<Rightarrow> bool" where
  "plan_entitles invoice sid u g items \<longleftrightarrow> (\<exists>base offer. base_lines invoice sid = [(base, offer)] \<and>
     g = compute_grant u sid Plan_period (bo_allowanceStdSeconds offer) (il_periodStart base) (il_periodEnd base) (in_id invoice) \<and>
     items = (case bo_v3 offer of None \<Rightarrow> [] | Some sku \<Rightarrow> if sku = Free_v3 then [] else credit_items u (in_id invoice)
       (aiCreditEntitlement \<lparr>ag_userId = u, ag_sku = sku, ag_subscriptionId = Some sid,
          ag_periodStart = (case il_periodStart base of None \<Rightarrow> None | Some d \<Rightarrow> d), ag_periodEnd = il_periodEnd base,
          ag_invoiceId = Some (in_id invoice)\<rparr>)))"

definition upgrade_entitles :: "stripe_invoice \<Rightarrow> stripe_subscription \<Rightarrow> invoice_line \<Rightarrow> string \<Rightarrow> grant_insert \<Rightarrow> outbox_insert list \<Rightarrow> bool" where
  "upgrade_entitles invoice x line u g items \<longleftrightarrow> (\<exists>start stop at amount.
     st_currentPeriodStart x = Some (Some start) \<and> il_periodStart line = Some (Some at) \<and> il_periodEnd line = Some (Some stop) \<and>
     start \<le> at \<and> at < stop \<and> upgrade_amount (is_premium_line line) (Some start) (Some stop) (Some at) = Inr amount \<and>
     g = compute_grant u (st_id x) Upgrade_prorated amount (Some (Some start)) (Some (Some stop)) (in_id invoice) \<and>
     items = (if is_premium_line line then filter (\<lambda>_. upgradeAiCredits Standard_monthly_v3 Premium_monthly_v3 (Some start) (Some stop) (Some at) > 0)
        (credit_items u (in_id invoice) (aiUpgradeEntitlement \<lparr>au_userId = u, au_subscriptionId = st_id x, au_periodStart = Some start,
           au_periodEnd = Some stop, au_effectiveAt = Some at\<rparr>)) else []))"

definition entitles :: "stripe_api \<Rightarrow> string \<Rightarrow> string \<Rightarrow> string \<Rightarrow> grant_insert \<Rightarrow> outbox_insert list \<Rightarrow> bool" where
  "entitles stripe invoiceId customer u g items \<longleftrightarrow> (\<exists>invoice sid x sku offer.
     retrieveInvoice stripe invoiceId = Inr invoice \<and> in_status invoice = ''paid'' \<and> in_customer invoice = customer \<and>
     in_billingReason invoice \<noteq> None \<and> in_billingReason invoice \<noteq> Some ''manual'' \<and>
     in_subscriptionId invoice = Some sid \<and> retrieveSubscription stripe sid = Inr x \<and> st_customer x = customer \<and>
     st_sku x = Some sku \<and> billingOfferBySku sku = Some offer \<and>
     (case invoiceGrantKind invoice of
        IG_period \<Rightarrow> if bo_sku offer = pp_sku PRO_PLAN then pro_entitles invoice u g items else plan_entitles invoice (st_id x) u g items
      | IG_upgrade line \<Rightarrow> upgrade_entitles invoice x line u g items
      | _ \<Rightarrow> False))"

lemma entitles_determined:
  assumes "entitles stripe i c u g items" and "entitles stripe i c' u g' items'"
  shows "c' = c \<and> g' = g \<and> items' = items"
  using assms unfolding entitles_def
  by (auto simp: pro_entitles_def plan_entitles_def upgrade_entitles_def split: invoice_grant.splits if_splits)

subsection \<open>Rows the handlers may add\<close>

text \<open>A property of the ledger and the outbox, for a fixed mapping of customers.\<close>

definition books :: "(string \<times> string) list \<Rightarrow> (grant_row list \<Rightarrow> outbox_row list \<Rightarrow> bool) \<Rightarrow> db \<Rightarrow> bool" where
  "books cs L d \<longleftrightarrow> db_customers d = cs \<and> L (db_grants d) (db_outbox d)"

lemma preserves_books_frame:
  assumes "\<And>s. db_customers (snd (m s)) = db_customers s \<and> db_grants (snd (m s)) = db_grants s \<and> db_outbox (snd (m s)) = db_outbox s"
  shows "preserves (books cs L) m"
  using assms by (simp add: preserves_def books_def)

lemma send_dates_frame: "(\<And>s. f (snd (m s)) = f s) \<Longrightarrow> f (snd (send_dates ds m s)) = f s"
  by (simp add: send_dates_def)

lemma books_frames:
  "preserves (books cs L) (setOverageInvoiceStatus i st)" "preserves (books cs L) (resolvePaymentIssue i at)"
  "preserves (books cs L) (upsertSubscription row)" "preserves (books cs L) (setPlanChangeState u)"
  "preserves (books cs L) (recordPaymentIssue p)" "preserves (books cs L) (recordConsent c)"
  by (rule preserves_books_frame; auto simp: setOverageInvoiceStatus_def resolvePaymentIssue_def upsertSubscription_def
      setPlanChangeState_def recordPaymentIssue_def recordConsent_def send_dates_def Let_def split: option.split prod.split bool.split)+

lemma books_insertGrant:
  assumes "\<And>rid gs os. L gs os \<Longrightarrow> L (snd (insert_ignore grant_clash (mk_grant rid g) gs)) os"
  shows "preserves (books cs L) (insertGrant g)"
  using assms by (auto simp: preserves_def books_def insertGrant_def send_dates_def sbind_def fresh_id_def split_beta)

lemma books_enqueue:
  assumes "\<And>rid now gs os. L gs os \<Longrightarrow> L gs (snd (insert_ignore outbox_clash (mk_outbox rid now item) os))"
  shows "preserves (books cs L) (enqueueOutbox item)"
  using assms by (auto simp: preserves_def books_def enqueueOutbox_def sbind_def fresh_id_def split_beta)

text \<open>The user a customer is mapped to: the first row, as the query reads it.\<close>

definition customer_owner :: "(string \<times> string) list \<Rightarrow> string \<Rightarrow> string option" where
  "customer_owner cs customer = map_option fst (find (\<lambda>r. snd r = customer) cs)"

lemma books_owner:
  assumes "\<And>u. customer_owner cs c = Some u \<Longrightarrow> preserves (on_fst (books cs L)) (f u)"
  shows "preserves (on_fst (books cs L)) (owner_then c f)"
  unfolding owner_then_def
proof (rule preserves_bind_result [OF on_db_keeps [OF read_inv(1)]])
  fix x s t assume s: "on_fst (books cs L) s" and m: "on_db (userForStripeCustomer c) s = (Inr x, t)" and t: "on_fst (books cs L) t"
  have x: "x = customer_owner cs c"
    using m s by (auto simp: on_db_def userForStripeCustomer_def customer_owner_def on_fst_def books_def)
  show "on_fst (books cs L) (snd (or_return ''unattributed:customer'' x f t))"
  proof (cases x)
    case None
    with t show ?thesis by (simp add: or_return_def)
  next
    case (Some u)
    with x have "preserves (on_fst (books cs L)) (f u)" by (intro assms) simp
    with t have "on_fst (books cs L) (snd (f u t))" unfolding preserves_def by blast
    with Some show ?thesis by (simp add: or_return_def)
  qed
qed

lemma jiso_Inr: "jiso (Some (Some ms)) = Inr (JStr (iso_string ms))"
  by (simp add: jiso_def toISOString_def)

lemma sbind_lift_Inr: "sbind (slift (Inr v)) f = f v"
  by (simp add: sbind_def slift_def fun_eq_iff)

lemma paidGrant_books: "preserves (books cs L) (insertGrant g) \<Longrightarrow> preserves (on_fst (books cs L)) (paidGrant ev g sku)"
  unfolding paidGrant_def by (intro keeps)

lemma resolve_ignored_books: "preserves (on_fst (books cs L)) (resolve_ignored ev k)"
  unfolding resolve_ignored_def by (intro keeps books_frames)

lemma grant_pro_books:
  assumes "\<And>g items. pro_entitles invoice u g items \<Longrightarrow> preserves (books cs L) (insertGrant g)"
    and "\<And>g items item. pro_entitles invoice u g items \<Longrightarrow> item \<in> set items \<Longrightarrow> preserves (books cs L) (enqueueOutbox item)"
  shows "preserves (on_fst (books cs L)) (grant_pro ev invoice u row)"
  unfolding grant_pro_def
proof (rule if_keeps)
  show "preserves (on_fst (books cs L)) (sreturn ''review:invalid_period'')" by (rule keeps)
  assume "\<not> \<not> validPeriod (in_periodStart invoice) (in_periodEnd invoice)"
  then obtain a b where ab: "in_periodStart invoice = Some (Some a)" "in_periodEnd invoice = Some (Some b)" "a < b"
    by (auto simp: validPeriod_def split: option.splits)
  have en: "pro_entitles invoice u (pro_grant u invoice) [pro_receipt u (in_id invoice) (JStr (iso_string a)) (JStr (iso_string b))]"
    using ab by (simp add: pro_entitles_def)
  have item: "preserves (books cs L) (enqueueOutbox (pro_receipt u (in_id invoice) (JStr (iso_string a)) (JStr (iso_string b))))"
    by (rule assms(2) [OF en]) simp
  show "preserves (on_fst (books cs L)) (settle_subscription ev (in_id invoice) row
        (sbind (on_db (insertGrant (pro_grant u invoice))) (\<lambda>_.
         sbind (slift (jiso (in_periodStart invoice))) (\<lambda>start. sbind (slift (jiso (in_periodEnd invoice))) (\<lambda>stop.
         sbind (on_db (enqueueOutbox (pro_receipt u (in_id invoice) start stop))) (\<lambda>_. sreturn ''applied''))))))"
    unfolding ab jiso_Inr sbind_lift_Inr
    by (intro settle_keeps books_frames preserves_bind on_db_keeps assms(1) [OF en] item preserves_return)
qed

lemma grant_plan_books:
  assumes "\<And>g items. plan_entitles invoice (sub_id row) u g items \<Longrightarrow> preserves (books cs L) (insertGrant g)"
    and "\<And>g items item. plan_entitles invoice (sub_id row) u g items \<Longrightarrow> item \<in> set items \<Longrightarrow> preserves (books cs L) (enqueueOutbox item)"
  shows "preserves (on_fst (books cs L)) (grant_plan ev invoice u row)"
proof (cases "\<exists>base offer. base_lines invoice (sub_id row) = [(base, offer)]")
  case False
  then show ?thesis unfolding grant_plan_def by (auto split: list.splits intro: keeps)
next
  case True
  then obtain base offer where b: "base_lines invoice (sub_id row) = [(base, offer)]" by blast
  let ?g = "compute_grant u (sub_id row) Plan_period (bo_allowanceStdSeconds offer) (il_periodStart base) (il_periodEnd base) (in_id invoice)"
  let ?e = "\<lambda>sku. aiCreditEntitlement \<lparr>ag_userId = u, ag_sku = sku, ag_subscriptionId = Some (sub_id row),
          ag_periodStart = (case il_periodStart base of None \<Rightarrow> None | Some d \<Rightarrow> d), ag_periodEnd = il_periodEnd base,
          ag_invoiceId = Some (in_id invoice)\<rparr>"
  let ?items = "case bo_v3 offer of None \<Rightarrow> [] | Some sku \<Rightarrow> if sku = Free_v3 then [] else credit_items u (in_id invoice) (?e sku)"
  have en: "plan_entitles invoice (sub_id row) u ?g ?items"
    unfolding plan_entitles_def by (intro exI [of _ base] exI [of _ offer] conjI b refl)
  have items: "preserves (books cs L) (enqueueOutbox item)" if "item \<in> set ?items" for item by (rule assms(2) [OF en that])
  have "preserves (on_fst (books cs L)) (period_credits u offer (sub_id row) base (in_id invoice))"
    unfolding period_credits_def
  proof (intro option_case_keeps if_keeps preserves_return preserves_lift_bind preserves_bind on_db_keeps)
    fix sku e assume "bo_v3 offer = Some sku" "sku \<noteq> Free_v3" "?e sku = Inr e"
    then show "preserves (books cs L) (enqueueOutbox (aiCreditOutboxItem u e Act_grant (Some (in_id invoice))))"
      by (intro items) (simp add: credit_items_def)
  qed
  then show ?thesis
    unfolding grant_plan_def b list.case prod.case
    by (intro settle_keeps books_frames preserves_bind paidGrant_books assms(1) [OF en] preserves_return)
qed

lemma grant_upgrade_books:
  assumes "\<And>g items. upgrade_entitles invoice x line u g items \<Longrightarrow> preserves (books cs L) (insertGrant g)"
    and "\<And>g items item. upgrade_entitles invoice x line u g items \<Longrightarrow> item \<in> set items \<Longrightarrow> preserves (books cs L) (enqueueOutbox item)"
    and row: "sub_id row = st_id x"
  shows "preserves (on_fst (books cs L)) (grant_upgrade ev invoice x u row line)"
proof -
  have at: "preserves (on_fst (books cs L)) (grant_upgrade_at ev invoice u row (is_premium_line line) (Some start) (Some stop) (Some at))"
    if d: "st_currentPeriodStart x = Some (Some start)" "il_periodStart line = Some (Some at)" "il_periodEnd line = Some (Some stop)"
      "start \<le> at" "at < stop" for start stop at
    unfolding grant_upgrade_at_def row
  proof (rule preserves_lift_bind, rule sum_case_keeps)
    let ?e = "aiUpgradeEntitlement \<lparr>au_userId = u, au_subscriptionId = st_id x, au_periodStart = Some start,
           au_periodEnd = Some stop, au_effectiveAt = Some at\<rparr>"
    fix amount assume amount: "upgrade_amount (is_premium_line line) (Some start) (Some stop) (Some at) = Inr amount"
    show "preserves (on_fst (books cs L)) (sreturn ''review:invalid_ai_upgrade'')" by (rule keeps)
    fix credits assume credits: "(if is_premium_line line then map_sum id Some ?e else Inr None) = Inr credits"
    let ?g = "compute_grant u (st_id x) Upgrade_prorated amount (Some (Some start)) (Some (Some stop)) (in_id invoice)"
    let ?items = "if is_premium_line line then filter (\<lambda>_. upgradeAiCredits Standard_monthly_v3 Premium_monthly_v3 (Some start) (Some stop) (Some at) > 0)
        (credit_items u (in_id invoice) ?e) else []"
    have en: "upgrade_entitles invoice x line u ?g ?items"
      unfolding upgrade_entitles_def using d amount by blast
    have "preserves (on_fst (books cs L)) (upgrade_credits u credits (in_id invoice))"
      unfolding upgrade_credits_def
    proof (intro option_case_keeps if_keeps preserves_return preserves_bind on_db_keeps)
      fix c assume c: "credits = Some c" "0 < ae_credits c"
      with credits have p: "is_premium_line line" "?e = Inr c" by (auto split: if_splits sum.splits simp: map_sum_def)
      have "ae_credits c = upgradeAiCredits Standard_monthly_v3 Premium_monthly_v3 (Some start) (Some stop) (Some at)"
        using p(2) by (rule upgrade_Inr) simp
      with p c show "preserves (books cs L) (enqueueOutbox (aiCreditOutboxItem u c Act_grant (Some (in_id invoice))))"
        by (intro assms(2) [OF en]) (simp add: credit_items_def)
    qed
    then show "preserves (on_fst (books cs L)) (settle_subscription ev (in_id invoice) row
          (sbind (paidGrant ev ?g (if is_premium_line line then ''premium_monthly_v3'' else ''compute_monthly_v2'')) (\<lambda>_.
           sbind (upgrade_credits u credits (in_id invoice)) (\<lambda>_.
           sbind (on_db (setPlanChangeState (upgrade_change u (st_id x) (Some at)))) (\<lambda>_. sreturn ''applied'')))))"
      by (intro settle_keeps books_frames preserves_bind paidGrant_books assms(1) [OF en] preserves_return on_db_keeps)
  qed
  show ?thesis
    unfolding grant_upgrade_def by (auto split: option.splits intro!: if_keeps preserves_return at)
qed

text \<open>
  A handler of a paid invoice changes ledger and outbox only by inserting what the invoice entitles its
  customer's user to: any property of the books that such inserts keep is kept.
\<close>

lemma apply_grant_period_books:
  assumes ins: "\<And>u c g items. customer_owner cs c = Some u \<Longrightarrow> entitles stripe i c u g items \<Longrightarrow> preserves (books cs L) (insertGrant g)"
    and enq: "\<And>u c g items item. customer_owner cs c = Some u \<Longrightarrow> entitles stripe i c u g items \<Longrightarrow> item \<in> set items \<Longrightarrow> preserves (books cs L) (enqueueOutbox item)"
  shows "preserves (on_fst (books cs L)) (apply_grant_period stripe ev i)"
proof -
  have grant: "preserves (on_fst (books cs L)) (apply_grant_to ev invoice x u)"
    if r: "retrieveInvoice stripe i = Inr invoice" "in_status invoice = ''paid''" "in_billingReason invoice \<noteq> None"
      "in_billingReason invoice \<noteq> Some ''manual''" "in_subscriptionId invoice = Some sid" "retrieveSubscription stripe sid = Inr x"
      "st_customer x = in_customer invoice" and u: "customer_owner cs (in_customer invoice) = Some u" for invoice sid x u
    unfolding apply_grant_to_def
  proof (rule option_case_keeps, rule preserves_return, rule or_return_keeps)
    fix sku offer assume sku: "st_sku x = Some sku" "billingOfferBySku sku = Some offer"
    let ?row = "subscriptionRow x sku u (pe_created ev)"
    have row: "sub_id ?row = st_id x" by (simp add: subscriptionRow_def)
    let ?case = "\<lambda>g items. case invoiceGrantKind invoice of
        IG_period \<Rightarrow> if bo_sku offer = pp_sku PRO_PLAN then pro_entitles invoice u g items else plan_entitles invoice (st_id x) u g items
      | IG_upgrade line \<Rightarrow> upgrade_entitles invoice x line u g items
      | _ \<Rightarrow> False"
    have e: "entitles stripe i (in_customer invoice) u g items" if "?case g items" for g items
      unfolding entitles_def using r sku that by blast
    note I = ins [OF u e] and E = enq [OF u e]
    show "preserves (on_fst (books cs L)) (let row = ?row in case invoiceGrantKind invoice of
          IG_period \<Rightarrow> if bo_sku offer = pp_sku PRO_PLAN then grant_pro ev invoice u row else grant_plan ev invoice u row
        | IG_upgrade compute \<Rightarrow> grant_upgrade ev invoice x u row compute
        | _ \<Rightarrow> resolve_ignored ev (in_id invoice))"
    proof (cases "invoiceGrantKind invoice")
      case IG_period
      show ?thesis
      proof (cases "bo_sku offer = pp_sku PRO_PLAN")
        case True
        with IG_period have "preserves (on_fst (books cs L)) (grant_pro ev invoice u ?row)"
          by (intro grant_pro_books I E) simp_all
        with True IG_period show ?thesis by (simp add: Let_def)
      next
        case False
        with IG_period row have "preserves (on_fst (books cs L)) (grant_plan ev invoice u ?row)"
          by (intro grant_plan_books I E) simp_all
        with False IG_period show ?thesis by (simp add: Let_def)
      qed
    next
      case (IG_upgrade line)
      with row have "preserves (on_fst (books cs L)) (grant_upgrade ev invoice x u ?row line)"
        by (intro grant_upgrade_books I E) simp_all
      with IG_upgrade show ?thesis by (simp add: Let_def)
    qed (simp_all add: Let_def resolve_ignored_books)
  qed
  have period: "preserves (on_fst (books cs L))
      (if in_status invoice \<noteq> ''paid'' then sreturn ''ignored''
       else if invoiceGrantKind invoice = IG_overage then apply_overage_paid ev (in_id invoice)
       else if in_billingReason invoice = None \<or> in_billingReason invoice = Some ''manual'' then resolve_ignored ev (in_id invoice)
       else (case in_subscriptionId invoice of None \<Rightarrow> resolve_ignored ev (in_id invoice) | Some sid \<Rightarrow>
         sbind (slift (retrieveSubscription stripe sid)) (\<lambda>x.
           if st_customer x \<noteq> in_customer invoice then sreturn ''review:customer_mismatch''
           else owner_then (in_customer invoice) (apply_grant_to ev invoice x))))"
    if "retrieveInvoice stripe i = Inr invoice" for invoice
    unfolding apply_overage_paid_def
    by (intro if_keeps preserves_return preserves_bind on_db_keeps books_frames resolve_ignored_books option_case_keeps
        preserves_lift_bind books_owner grant that) simp_all
  show ?thesis unfolding apply_grant_period_def by (rule preserves_lift_bind) (rule period)
qed

subsection \<open>Properties\<close>



text \<open>The deliveries of one event, one after the other: only their envelopes differ.\<close>

primrec deliveries :: "(proc_event \<Rightarrow> 'a proc) \<Rightarrow> proc_event list \<Rightarrow> db \<times> migrations \<Rightarrow> db \<times> migrations" where
  "deliveries f [] s = s"
| "deliveries f (ev # evs) s = deliveries f evs (snd (f ev s))"

lemma deliveries_keep: "(\<And>ev. preserves I (f ev)) \<Longrightarrow> I s \<Longrightarrow> I (deliveries f evs s)"
  by (induction evs arbitrary: s) (simp_all add: preserves_def del: split_paired_All)

definition granted_rows :: "stripe_api \<Rightarrow> string \<Rightarrow> (string \<times> string) list \<Rightarrow> grant_row list \<Rightarrow> grant_row list set" where
  "granted_rows stripe i cs rows = {rows} \<union> {rows @ [mk_grant rid g] |rid g. \<exists>u c items. customer_owner cs c = Some u \<and> entitles stripe i c u g items}"

definition credited_rows :: "stripe_api \<Rightarrow> string \<Rightarrow> (string \<times> string) list \<Rightarrow> outbox_row list \<Rightarrow> outbox_row list set" where
  "credited_rows stripe i cs rows = {rows} \<union> {rows @ [mk_outbox rid now item] |rid now item. \<exists>u c g. customer_owner cs c = Some u \<and>
     entitles stripe i c u g [item]}"

lemma entitles_one:
  assumes "customer_owner cs c = Some u" "entitles stripe i c u g items" "customer_owner cs c' = Some u'" "entitles stripe i c' u' g' items'"
  shows "g' = g \<and> items' = items"
proof -
  have c: "c' = c" using assms(2,4) by (auto simp: entitles_def)
  with assms(1,3) have "u' = u" by simp
  with c assms(2,4) show ?thesis using entitles_determined by blast
qed

lemma singleton_items:
  "item \<in> set (credit_items u i e) \<Longrightarrow> credit_items u i e = [item]"
  "pro_entitles invoice u g items \<Longrightarrow> item \<in> set items \<Longrightarrow> items = [item]"
  by (auto simp: credit_items_def pro_entitles_def split: sum.splits)

lemma plan_items: "plan_entitles invoice sid u g items \<Longrightarrow> item \<in> set items \<Longrightarrow> items = [item]"
  unfolding plan_entitles_def using singleton_items(1) by (auto split: option.splits if_splits)

lemma upgrade_items: "upgrade_entitles invoice x line u g items \<Longrightarrow> item \<in> set items \<Longrightarrow> items = [item]"
  unfolding upgrade_entitles_def by (auto simp: credit_items_def split: if_splits sum.splits)

lemma entitles_items:
  assumes "entitles stripe i c u g items" "item \<in> set items"
  shows "items = [item]"
  using assms(1) singleton_items(2) [OF _ assms(2)] plan_items [OF _ assms(2)] upgrade_items [OF _ assms(2)]
  unfolding entitles_def by (elim exE conjE) (auto split: invoice_grant.splits if_splits)

lemma granted_rows_intro: "customer_owner cs c = Some u \<Longrightarrow> entitles stripe i c u g items \<Longrightarrow> rows @ [mk_grant rid g] \<in> granted_rows stripe i cs rows"
  unfolding granted_rows_def by blast

lemma credited_rows_intro: "customer_owner cs c = Some u \<Longrightarrow> entitles stripe i c u g [item] \<Longrightarrow> rows @ [mk_outbox rid now item] \<in> credited_rows stripe i cs rows"
  unfolding credited_rows_def by blast

lemma granted_rows_insert:
  assumes "gs \<in> granted_rows stripe i cs G" "customer_owner cs c = Some u" "entitles stripe i c u g items"
  shows "snd (insert_ignore grant_clash (mk_grant rid g) gs) \<in> granted_rows stripe i cs G"
proof (cases "gs = G")
  case True
  then show ?thesis using assms(1) granted_rows_intro [OF assms(2,3)] by (simp add: insert_ignore_def)
next
  case False
  with assms(1) obtain rid' g' u' c' items' where g: "gs = G @ [mk_grant rid' g']" "customer_owner cs c' = Some u'" "entitles stripe i c' u' g' items'"
    unfolding granted_rows_def by blast
  with assms(2,3) have "g' = g" using entitles_one by blast
  with g have "grant_clash (mk_grant rid' g') (mk_grant rid g)" by (simp add: grant_clash_def mk_grant_def)
  with g(1) have "insert_ignore grant_clash (mk_grant rid g) gs = (False, gs)" by (auto simp: insert_ignore_def)
  with assms(1) show ?thesis by simp
qed

lemma credited_rows_insert:
  assumes "os \<in> credited_rows stripe i cs R" "customer_owner cs c = Some u" "entitles stripe i c u g items" "item \<in> set items"
  shows "snd (insert_ignore outbox_clash (mk_outbox rid now item) os) \<in> credited_rows stripe i cs R"
proof (cases "os = R")
  case True
  have "entitles stripe i c u g [item]" using assms(3,4) entitles_items by metis
  from True assms(1) credited_rows_intro [OF assms(2) this] show ?thesis by (simp add: insert_ignore_def)
next
  case False
  with assms(1) obtain rid' now' item' u' c' g' where g: "os = R @ [mk_outbox rid' now' item']" "customer_owner cs c' = Some u'"
    "entitles stripe i c' u' g' [item']" unfolding credited_rows_def by blast
  with assms(2,3) have "items = [item']" using entitles_one by blast
  with assms(4) have "item' = item" by simp
  with g have "outbox_clash (mk_outbox rid' now' item') (mk_outbox rid now item)" by (simp add: outbox_clash_def mk_outbox_def)
  with g(1) have "insert_ignore outbox_clash (mk_outbox rid now item) os = (False, os)" by (auto simp: insert_ignore_def)
  with assms(1) show ?thesis by simp
qed

text \<open>C1: a paid invoice grants once, and only what it entitles to: after any number of deliveries of the
  invoice, whatever their envelopes and wherever a handler stopped, the ledger is the old one or the old one
  and one row, and the outbox is the old one or the old one and one receipt: the row and the receipt that the
  invoice, paid and billed automatically for a subscription of the same customer, entitles that customer's user to.\<close>

theorem invoice_granted_once:
  "db_grants (fst (deliveries (\<lambda>ev. apply_grant_period stripe ev i) evs s)) \<in> granted_rows stripe i (db_customers (fst s)) (db_grants (fst s)) \<and>
   db_outbox (fst (deliveries (\<lambda>ev. apply_grant_period stripe ev i) evs s)) \<in> credited_rows stripe i (db_customers (fst s)) (db_outbox (fst s))"
proof -
  let ?cs = "db_customers (fst s)"
  let ?L = "\<lambda>gs os. gs \<in> granted_rows stripe i ?cs (db_grants (fst s)) \<and> os \<in> credited_rows stripe i ?cs (db_outbox (fst s))"
  have "preserves (on_fst (books ?cs ?L)) (apply_grant_period stripe ev i)" for ev
    by (rule apply_grant_period_books)
      (auto intro!: books_insertGrant books_enqueue granted_rows_insert credited_rows_insert)
  then have "on_fst (books ?cs ?L) (deliveries (\<lambda>ev. apply_grant_period stripe ev i) evs s)"
    by (rule deliveries_keep) (simp add: on_fst_def books_def granted_rows_def credited_rows_def)
  then show ?thesis by (simp add: on_fst_def books_def)
qed

subsection \<open>What an applied event leaves behind\<close>

text \<open>Programs that, from a state with \<open>P\<close>, leave \<open>Q\<close> whenever they return, and whenever they return \<open>applied\<close>.\<close>

definition reach :: "('s \<Rightarrow> bool) \<Rightarrow> ('s, 'a) prog \<Rightarrow> ('s \<Rightarrow> bool) \<Rightarrow> bool" where
  "reach P m Q \<longleftrightarrow> (\<forall>s t r. P s \<longrightarrow> m s = (Inr r, t) \<longrightarrow> Q t)"

definition applies :: "('s \<Rightarrow> bool) \<Rightarrow> ('s, string) prog \<Rightarrow> ('s \<Rightarrow> bool) \<Rightarrow> bool" where
  "applies P m Q \<longleftrightarrow> (\<forall>s t. P s \<longrightarrow> m s = (Inr ''applied'', t) \<longrightarrow> Q t)"

lemma reach_keep: "preserves P m \<Longrightarrow> reach P m P"
  by (force simp: preserves_def reach_def)

lemma applies_done: "applies Q (sreturn ''applied'') Q"
  by (simp add: applies_def sreturn_def)

lemma applies_other: "out \<noteq> ''applied'' \<Longrightarrow> applies P (sreturn out) Q"
  by (simp add: applies_def sreturn_def)

lemma applies_bind:
  assumes "reach P m R" and "\<And>x. applies R (f x) Q"
  shows "applies P (sbind m f) Q"
  unfolding applies_def
proof (intro allI impI)
  fix s t assume P: "P s" and run: "sbind m f s = (Inr ''applied'', t)"
  from run obtain x u where m: "m s = (Inr x, u)" and f: "f x u = (Inr ''applied'', t)"
    by (auto simp: sbind_def split: prod.splits sum.splits)
  from assms(1) P m have "R u" unfolding reach_def by blast
  with assms(2) f show "Q t" unfolding applies_def by blast
qed

lemma applies_lift: "(\<And>v. r = Inr v \<Longrightarrow> applies P (f v) Q) \<Longrightarrow> applies P (sbind (slift r) f) Q"
  by (cases r) (simp_all add: applies_def sbind_def slift_def)

lemma applies_if: "(c \<Longrightarrow> applies P a Q) \<Longrightarrow> (\<not> c \<Longrightarrow> applies P b Q) \<Longrightarrow> applies P (if c then a else b) Q"
  by simp

lemma applies_option: "(v = None \<Longrightarrow> applies P a Q) \<Longrightarrow> (\<And>x. v = Some x \<Longrightarrow> applies P (f x) Q) \<Longrightarrow>
    applies P (case v of None \<Rightarrow> a | Some x \<Rightarrow> f x) Q"
  by (cases v) simp_all

lemma applies_or_return: "out \<noteq> ''applied'' \<Longrightarrow> (\<And>x. v = Some x \<Longrightarrow> applies P (f x) Q) \<Longrightarrow> applies P (or_return out v f) Q"
  unfolding or_return_def by (intro applies_option applies_other) simp_all

lemmas applying = applies_done applies_other applies_lift applies_if applies_option applies_or_return

lemma applies_settle:
  assumes "applies (on_fst (books cs L)) m Q"
  shows "applies (on_fst (books cs L)) (settle_subscription ev i row m) Q"
  unfolding settle_subscription_def
  by (intro applies_bind [OF reach_keep] applies_if applies_other on_db_keeps books_frames assms) simp

lemma applies_owner:
  assumes "\<And>u. customer_owner cs c = Some u \<Longrightarrow> applies (on_fst (books cs L)) (f u) Q"
  shows "applies (on_fst (books cs L)) (owner_then c f) Q"
  unfolding applies_def
proof (intro allI impI)
  fix s t assume s: "on_fst (books cs L) s" and run: "owner_then c f s = (Inr ''applied'', t)"
  have "userForStripeCustomer c (fst s) = (Inr (customer_owner cs c), fst s)"
    using s by (simp add: userForStripeCustomer_def customer_owner_def on_fst_def books_def)
  with run have "or_return ''unattributed:customer'' (customer_owner cs c) f s = (Inr ''applied'', t)"
    by (simp add: owner_then_def sbind_def on_db_def)
  then obtain u where "customer_owner cs c = Some u" "f u s = (Inr ''applied'', t)"
    by (auto simp: or_return_def sreturn_def split: option.splits)
  with assms s show "Q t" unfolding applies_def by blast
qed

lemma reach_grant: "reach (on_fst (books cs L)) (on_db (insertGrant g)) (on_fst (books cs (\<lambda>gs os. grants.present g gs)))"
  unfolding reach_def
proof (intro allI impI)
  fix s t r assume s: "on_fst (books cs L) s" and run: "on_db (insertGrant g) s = (Inr r, t)"
  from run obtain rid where "db_grants (fst t) = snd (insert_ignore grant_clash (mk_grant rid g) (db_grants (fst s)))"
      "db_customers (fst t) = db_customers (fst s)"
    by (auto simp: on_db_def insertGrant_def send_dates_def sbind_def fresh_id_def split_beta split: if_splits)
  then show "on_fst (books cs (\<lambda>gs os. grants.present g gs)) t"
    using s grants.present_after by (simp add: on_fst_def books_def)
qed

lemma reach_item:
  "reach (on_fst (books cs (\<lambda>gs os. grants.present g gs))) (on_db (enqueueOutbox item))
     (on_fst (books cs (\<lambda>gs os. grants.present g gs \<and> outbox.present item os)))"
  unfolding reach_def
proof (intro allI impI)
  fix s t r assume s: "on_fst (books cs (\<lambda>gs os. grants.present g gs)) s" and run: "on_db (enqueueOutbox item) s = (Inr r, t)"
  from run obtain rid now where "db_outbox (fst t) = snd (insert_ignore outbox_clash (mk_outbox rid now item) (db_outbox (fst s)))"
      "db_customers (fst t) = db_customers (fst s)" "db_grants (fst t) = db_grants (fst s)"
    by (auto simp: on_db_def sbind_def enqueueOutbox_def fresh_id_def split_beta)
  then show "on_fst (books cs (\<lambda>gs os. grants.present g gs \<and> outbox.present item os)) t"
    using s outbox.present_after [of item "(rid, now)"] by (simp add: on_fst_def books_def)
qed

lemma reach_bind: "reach P m R \<Longrightarrow> (\<And>x. reach R (f x) Q) \<Longrightarrow> reach P (sbind m f) Q"
  unfolding reach_def by (fastforce simp: sbind_def split: prod.splits sum.splits)

lemma reach_weaken: "reach P m Q \<Longrightarrow> (\<And>t. Q t \<Longrightarrow> Q' t) \<Longrightarrow> reach P m Q'"
  unfolding reach_def by blast

lemma applies_weaken: "applies P m Q \<Longrightarrow> (\<And>t. Q t \<Longrightarrow> Q' t) \<Longrightarrow> applies P m Q'"
  unfolding applies_def by blast

lemma reach_paid: "reach (on_fst (books cs L)) (paidGrant ev g sku) (on_fst (books cs (\<lambda>gs os. grants.present g gs)))"
  unfolding paidGrant_def by (rule reach_bind [OF reach_grant reach_keep]) (rule schedule_keeps)

text \<open>The rows of an entitlement are in the books.\<close>

definition held :: "(string \<times> string) list \<Rightarrow> grant_insert \<Rightarrow> outbox_insert list \<Rightarrow> db \<times> migrations \<Rightarrow> bool" where
  "held cs g items = on_fst (books cs (\<lambda>gs os. grants.present g gs \<and> (\<forall>item \<in> set items. outbox.present item os)))"

lemma held_none: "held cs g [] = on_fst (books cs (\<lambda>gs os. grants.present g gs))"
  by (simp add: held_def)

lemma held_one: "held cs g [item] = on_fst (books cs (\<lambda>gs os. grants.present g gs \<and> outbox.present item os))"
  by (simp add: held_def)

lemma reach_credit:
  "reach (held cs g []) (sbind (on_db (enqueueOutbox item)) (\<lambda>_. sreturn ())) (held cs g [item])"
  unfolding held_none held_one by (rule reach_bind [OF reach_item reach_keep]) (rule preserves_return)

lemma reach_period_credits:
  "reach (held cs g []) (period_credits u offer sid base i) (held cs g (case bo_v3 offer of None \<Rightarrow> [] | Some sku \<Rightarrow>
     if sku = Free_v3 then [] else credit_items u i (aiCreditEntitlement \<lparr>ag_userId = u, ag_sku = sku, ag_subscriptionId = Some sid,
          ag_periodStart = (case il_periodStart base of None \<Rightarrow> None | Some d \<Rightarrow> d), ag_periodEnd = il_periodEnd base,
          ag_invoiceId = Some i\<rparr>)))"
proof -
  have lift: "reach (held cs g []) (sbind (slift e) (\<lambda>e. sbind (on_db (enqueueOutbox (aiCreditOutboxItem u e Act_grant (Some i)))) (\<lambda>_. sreturn ())))
      (held cs g (credit_items u i e))" for e
  proof (cases e)
    case (Inl x)
    then show ?thesis by (simp add: reach_def sbind_def slift_def)
  next
    case (Inr x)
    then show ?thesis by (simp add: sbind_lift_Inr credit_items_def reach_credit)
  qed
  show ?thesis
    unfolding period_credits_def
    by (cases "bo_v3 offer") (auto intro: lift reach_keep preserves_return)
qed

lemma applies_plan:
  "applies (on_fst (books cs L)) (grant_plan ev invoice u row) (\<lambda>t. \<exists>g items. plan_entitles invoice (sub_id row) u g items \<and> held cs g items t)"
proof (cases "\<exists>base offer. base_lines invoice (sub_id row) = [(base, offer)]")
  case False
  then show ?thesis unfolding grant_plan_def by (auto split: list.splits intro: applies_other)
next
  case True
  then obtain base offer where b: "base_lines invoice (sub_id row) = [(base, offer)]" by blast
  show ?thesis
    unfolding grant_plan_def b list.case prod.case
  proof (rule applies_settle, rule applies_bind [OF reach_paid [folded held_none]], rule applies_bind [OF reach_period_credits],
      rule applies_weaken [OF applies_done], rule exI, rule exI, rule conjI)
    show "plan_entitles invoice (sub_id row) u (compute_grant u (sub_id row) Plan_period (bo_allowanceStdSeconds offer)
        (il_periodStart base) (il_periodEnd base) (in_id invoice)) (case bo_v3 offer of None \<Rightarrow> [] | Some sku \<Rightarrow>
     if sku = Free_v3 then [] else credit_items u (in_id invoice) (aiCreditEntitlement \<lparr>ag_userId = u, ag_sku = sku, ag_subscriptionId = Some (sub_id row),
          ag_periodStart = (case il_periodStart base of None \<Rightarrow> None | Some d \<Rightarrow> d), ag_periodEnd = il_periodEnd base,
          ag_invoiceId = Some (in_id invoice)\<rparr>))"
      unfolding plan_entitles_def by (intro exI [of _ base] exI [of _ offer] conjI b refl)
  qed
qed

lemma applies_pro:
  "applies (on_fst (books cs L)) (grant_pro ev invoice u row) (\<lambda>t. \<exists>g items. pro_entitles invoice u g items \<and> held cs g items t)"
  unfolding grant_pro_def
proof (rule applies_if)
  show "applies (on_fst (books cs L)) (sreturn ''review:invalid_period'') (\<lambda>t. \<exists>g items. pro_entitles invoice u g items \<and> held cs g items t)"
    by (rule applies_other) simp
  assume "\<not> \<not> validPeriod (in_periodStart invoice) (in_periodEnd invoice)"
  then obtain a b where ab: "in_periodStart invoice = Some (Some a)" "in_periodEnd invoice = Some (Some b)" "a < b"
    by (auto simp: validPeriod_def split: option.splits)
  have en: "pro_entitles invoice u (pro_grant u invoice) [pro_receipt u (in_id invoice) (JStr (iso_string a)) (JStr (iso_string b))]"
    using ab by (simp add: pro_entitles_def)
  show "applies (on_fst (books cs L)) (settle_subscription ev (in_id invoice) row
        (sbind (on_db (insertGrant (pro_grant u invoice))) (\<lambda>_.
         sbind (slift (jiso (in_periodStart invoice))) (\<lambda>start. sbind (slift (jiso (in_periodEnd invoice))) (\<lambda>stop.
         sbind (on_db (enqueueOutbox (pro_receipt u (in_id invoice) start stop))) (\<lambda>_. sreturn ''applied'')))))) 
      (\<lambda>t. \<exists>g items. pro_entitles invoice u g items \<and> held cs g items t)"
    unfolding ab jiso_Inr sbind_lift_Inr
    by (rule applies_settle, rule applies_bind [OF reach_grant], rule applies_bind [OF reach_item [folded held_one]],
        rule applies_weaken [OF applies_done]) (use en in blast)
qed

lemma reach_upgrade_credits:
  assumes "credits = (if premium then map_sum id Some e else Inr None)" "credits = Inr c"
    and amount: "\<And>x. e = Inr x \<Longrightarrow> ae_credits x = n"
  shows "reach (held cs g []) (upgrade_credits u c i) (held cs g (if premium then filter (\<lambda>_. n > 0) (credit_items u i e) else []))"
proof (cases "premium")
  case False
  with assms have "c = None" by simp
  with False show ?thesis by (simp add: upgrade_credits_def reach_keep preserves_return)
next
  case True
  with assms obtain x where x: "e = Inr x" "c = Some x" by (cases e) auto
  with True amount show ?thesis
    by (auto simp: upgrade_credits_def credit_items_def intro: reach_credit reach_keep preserves_return)
qed

lemma applies_upgrade:
  assumes row: "sub_id row = st_id x"
  shows "applies (on_fst (books cs L)) (grant_upgrade ev invoice x u row line) (\<lambda>t. \<exists>g items. upgrade_entitles invoice x line u g items \<and> held cs g items t)"
proof -
  have at: "applies (on_fst (books cs L)) (grant_upgrade_at ev invoice u row (is_premium_line line) (Some start) (Some stop) (Some at))
      (\<lambda>t. \<exists>g items. upgrade_entitles invoice x line u g items \<and> held cs g items t)"
    if d: "st_currentPeriodStart x = Some (Some start)" "il_periodStart line = Some (Some at)" "il_periodEnd line = Some (Some stop)"
      "start \<le> at" "at < stop" for start stop at
    unfolding grant_upgrade_at_def row
  proof (rule applies_lift)
    let ?e = "aiUpgradeEntitlement \<lparr>au_userId = u, au_subscriptionId = st_id x, au_periodStart = Some start,
           au_periodEnd = Some stop, au_effectiveAt = Some at\<rparr>"
    fix amount assume amount: "upgrade_amount (is_premium_line line) (Some start) (Some stop) (Some at) = Inr amount"
    let ?g = "compute_grant u (st_id x) Upgrade_prorated amount (Some (Some start)) (Some (Some stop)) (in_id invoice)"
    let ?items = "if is_premium_line line then filter (\<lambda>_. upgradeAiCredits Standard_monthly_v3 Premium_monthly_v3 (Some start) (Some stop) (Some at) > 0)
        (credit_items u (in_id invoice) ?e) else []"
    let ?Q = "\<lambda>t. \<exists>g items. upgrade_entitles invoice x line u g items \<and> held cs g items t"
    have en: "upgrade_entitles invoice x line u ?g ?items"
      unfolding upgrade_entitles_def using d amount by blast
    show "applies (on_fst (books cs L)) (case if is_premium_line line then map_sum id Some ?e else Inr None of
         Inl _ \<Rightarrow> sreturn ''review:invalid_ai_upgrade''
       | Inr credits \<Rightarrow> settle_subscription ev (in_id invoice) row
          (sbind (paidGrant ev ?g (if is_premium_line line then ''premium_monthly_v3'' else ''compute_monthly_v2'')) (\<lambda>_.
           sbind (upgrade_credits u credits (in_id invoice)) (\<lambda>_.
           sbind (on_db (setPlanChangeState (upgrade_change u (st_id x) (Some at)))) (\<lambda>_. sreturn ''applied''))))) ?Q"
    proof (cases "if is_premium_line line then map_sum id Some ?e else Inr None")
      case (Inl e)
      then show ?thesis by (simp add: applies_other)
    next
      case (Inr c)
      have "reach (held cs ?g []) (upgrade_credits u c (in_id invoice)) (held cs ?g ?items)"
        by (rule reach_upgrade_credits [OF refl Inr]) (rule upgrade_Inr, assumption, simp)
      moreover have fin: "applies (held cs ?g ?items) (sreturn ''applied'') ?Q"
        by (rule applies_weaken [OF applies_done]) (use en in blast)
      have last: "applies (held cs ?g ?items) (sbind (on_db (setPlanChangeState (upgrade_change u (st_id x) (Some at)))) (\<lambda>_. sreturn ''applied'')) ?Q"
        by (rule applies_bind [OF reach_keep fin]) (simp add: held_def on_db_keeps books_frames)
      ultimately have "applies (on_fst (books cs L)) (settle_subscription ev (in_id invoice) row
          (sbind (paidGrant ev ?g (if is_premium_line line then ''premium_monthly_v3'' else ''compute_monthly_v2'')) (\<lambda>_.
           sbind (upgrade_credits u c (in_id invoice)) (\<lambda>_.
           sbind (on_db (setPlanChangeState (upgrade_change u (st_id x) (Some at)))) (\<lambda>_. sreturn ''applied''))))) ?Q"
        by (intro applies_settle applies_bind [OF reach_paid [folded held_none]] applies_bind [OF _ last]) simp_all
      with Inr show ?thesis by simp
    qed
  qed
  show ?thesis
    unfolding grant_upgrade_def by (auto split: option.splits intro!: applies_if applies_other at)
qed

text \<open>What is left when a paid invoice is applied: it is an overage invoice, or its entitlement is in the books.\<close>

definition granted :: "stripe_api \<Rightarrow> string \<Rightarrow> (string \<times> string) list \<Rightarrow> db \<times> migrations \<Rightarrow> bool" where
  "granted stripe i cs t \<longleftrightarrow> (\<exists>invoice. retrieveInvoice stripe i = Inr invoice \<and> in_metadataKind invoice = Some ''overage'') \<or>
    (\<exists>c u g items. customer_owner cs c = Some u \<and> entitles stripe i c u g items \<and> held cs g items t)"

lemma applies_ignored: "applies (on_fst (books cs L)) (resolve_ignored ev k) Q"
  unfolding resolve_ignored_def by (rule applies_bind [OF reach_keep applies_other]) (intro on_db_keeps books_frames, simp)

lemma applies_grant_to:
  assumes r: "retrieveInvoice stripe i = Inr invoice" "in_status invoice = ''paid''" "in_billingReason invoice \<noteq> None"
      "in_billingReason invoice \<noteq> Some ''manual''" "in_subscriptionId invoice = Some sid" "retrieveSubscription stripe sid = Inr x"
      "st_customer x = in_customer invoice" and u: "customer_owner cs (in_customer invoice) = Some u"
  shows "applies (on_fst (books cs L)) (apply_grant_to ev invoice x u) (granted stripe i cs)"
  unfolding apply_grant_to_def
  proof (rule applies_option, rule applies_other, simp, rule applies_or_return, simp)
  fix sku offer assume sku: "st_sku x = Some sku" "billingOfferBySku sku = Some offer"
  let ?row = "subscriptionRow x sku u (pe_created ev)"
  have row: "sub_id ?row = st_id x" by (simp add: subscriptionRow_def)
  let ?case = "\<lambda>g items. case invoiceGrantKind invoice of
      IG_period \<Rightarrow> if bo_sku offer = pp_sku PRO_PLAN then pro_entitles invoice u g items else plan_entitles invoice (st_id x) u g items
    | IG_upgrade line \<Rightarrow> upgrade_entitles invoice x line u g items
    | _ \<Rightarrow> False"
  have e: "granted stripe i cs t" if "\<exists>g items. ?case g items \<and> held cs g items t" for t
    unfolding entitles_def granted_def using r sku that u by blast
  show "applies (on_fst (books cs L)) (let row = ?row in case invoiceGrantKind invoice of
        IG_period \<Rightarrow> if bo_sku offer = pp_sku PRO_PLAN then grant_pro ev invoice u row else grant_plan ev invoice u row
      | IG_upgrade compute \<Rightarrow> grant_upgrade ev invoice x u row compute
      | _ \<Rightarrow> resolve_ignored ev (in_id invoice)) (granted stripe i cs)"
  proof (cases "invoiceGrantKind invoice")
    case IG_period
    show ?thesis
    proof (cases "bo_sku offer = pp_sku PRO_PLAN")
      case True
      have "applies (on_fst (books cs L)) (grant_pro ev invoice u ?row) (granted stripe i cs)"
        by (rule applies_weaken [OF applies_pro], rule e) (simp add: True IG_period)
      with True IG_period show ?thesis by (simp add: Let_def)
    next
      case False
      have "applies (on_fst (books cs L)) (grant_plan ev invoice u ?row) (granted stripe i cs)"
        by (rule applies_weaken [OF applies_plan], rule e) (use False IG_period row in simp)
      with False IG_period show ?thesis by (simp add: Let_def)
    qed
  next
    case (IG_upgrade line)
    have "applies (on_fst (books cs L)) (grant_upgrade ev invoice x u ?row line) (granted stripe i cs)"
      by (rule applies_weaken [OF applies_upgrade [OF row]], rule e) (simp add: IG_upgrade)
    with IG_upgrade show ?thesis by (simp add: Let_def)
  qed (simp only: Let_def invoice_grant.case, rule applies_ignored)+
  qed


text \<open>A customer who pays a month of the Standard plan.\<close>

definition demo_key :: "string option" where
  "demo_key = po_stripeLookupKey (CATALOG_V2 Standard_monthly_v2)"

definition demo_invoice :: stripe_invoice where
  "demo_invoice = \<lparr>in_id = ''in_1'', in_customer = ''cus_1'', in_status = ''paid'', in_subscriptionId = Some ''sub_1'',
     in_billingReason = Some ''subscription_cycle'', in_metadataKind = None, in_hostedInvoiceUrl = None,
     in_lines = [\<lparr>il_id = ''il_1'', il_lookupKey = demo_key, il_subscriptionId = Some ''sub_1'', il_proration = False, il_amount = 500,
       il_periodStart = Some (Some 1000), il_periodEnd = Some (Some 2000)\<rparr>],
     in_periodStart = Some (Some 1000), in_periodEnd = Some (Some 2000)\<rparr>"

definition demo_stripe :: stripe_api where
  "demo_stripe = \<lparr>retrieveSubscription = (\<lambda>x. Inr \<lparr>st_id = x, st_customer = ''cus_1'', st_status = ''active'', st_cancelAtPeriodEnd = False,
       st_currentPeriodStart = Some (Some 1000), st_currentPeriodEnd = Some (Some 2000), st_sku = Some ''standard_monthly_v2''\<rparr>),
     retrieveInvoice = (\<lambda>_. Inr demo_invoice), retrieveInvoicePaymentState = (\<lambda>_. Inl TypeError),
     retrieveCheckoutSession = (\<lambda>_. Inl TypeError), retrieveCharge = (\<lambda>_. Inl TypeError),
     retrieveCheckoutLineItems = (\<lambda>_. Inl TypeError), retrieveProduct = (\<lambda>_. Inl TypeError)\<rparr>"

definition demo_pe :: proc_event where
  "demo_pe = \<lparr>pe_type = ''invoice.paid'', pe_created = 1, pe_objectId = None\<rparr>"

definition demo_paid_db :: db where
  "demo_paid_db = (empty_db [] 5)\<lparr>db_customers := [(''u1'', ''cus_1'')]\<rparr>"

lemma demo_applied: "fst (apply_grant_period demo_stripe demo_pe ''in_1'' (demo_paid_db, [])) = Inr ''applied''"
  by code_simp



end
