(* ===== verification/Stripe_Signature.thy ===== *)
theory Stripe_Signature
  imports Texts Billing_Config "HOL-Library.Word"
begin

text \<open>
  The signature of a Stripe delivery (\<^verbatim>\<open>app/src/server/billing/stripe/verify.ts\<close>): the header of
  timestamp and candidates, hexadecimal bytes, the comparison in constant time, and the verification. The
  HMAC-SHA-256 of the platform is a parameter from a secret and a text to bytes.
\<close>

unbundle bit_operations_syntax

type_synonym bytes = "8 word list"
type_synonym hmac = "string \<Rightarrow> string \<Rightarrow> bytes"

subsection \<open>Bytes\<close>

definition equalInConstantTime :: "bytes \<Rightarrow> bytes \<Rightarrow> bool" where
  "equalInConstantTime left right =
     (if length left \<noteq> length right then False
      else foldl (\<lambda>difference (a, b). difference OR (a XOR b)) 0 (zip left right) = 0)"

definition is_hex :: "char \<Rightarrow> bool" where
  "is_hex c \<longleftrightarrow> is_digit c \<or> CHR ''a'' \<le> c \<and> c \<le> CHR ''f'' \<or> CHR ''A'' \<le> c \<and> c \<le> CHR ''F''"

definition hex_val :: "char \<Rightarrow> nat" where
  "hex_val c = (if is_digit c then of_char c - 48 else if CHR ''a'' \<le> c then of_char c - 87 else of_char c - 55)"

fun hex_pairs :: "string \<Rightarrow> bytes" where
  "hex_pairs (a # b # s) = of_nat (16 * hex_val a + hex_val b) # hex_pairs s"
| "hex_pairs _ = []"

definition bytesFromHex :: "string \<Rightarrow> bytes option" where
  "bytesFromHex hex = (if hex = [] \<or> odd (length hex) \<or> \<not> list_all is_hex hex then None else Some (hex_pairs hex))"

text \<open>\<^verbatim>\<open>byte.toString(16).padStart(2, '0')\<close>, joined.\<close>

definition hex_digit :: "nat \<Rightarrow> char" where
  "hex_digit n = char_of (if n < 10 then 48 + n else 87 + n)"

definition hexFromBytes :: "bytes \<Rightarrow> string" where
  "hexFromBytes bs = concat (map (\<lambda>b. [hex_digit (unat b div 16), hex_digit (unat b mod 16)]) bs)"

subsection \<open>The header\<close>

fun js_split :: "char \<Rightarrow> string \<Rightarrow> string list" where
  "js_split sep [] = [[]]"
| "js_split sep (c # s) = (if c = sep then [] # js_split sep s
     else case js_split sep s of p # ps \<Rightarrow> (c # p) # ps | [] \<Rightarrow> [[c]])"

text \<open>Without a separator \<^verbatim>\<open>indexOf\<close> is \<open>-1\<close>: the name is all but the last character, the value is all of it.\<close>

definition named_value :: "string \<Rightarrow> string \<times> string" where
  "named_value component =
     (if CHR ''='' \<in> set component
      then (takeWhile (\<lambda>c. c \<noteq> CHR ''='') component, tl (dropWhile (\<lambda>c. c \<noteq> CHR ''='') component))
      else (butlast component, component))"

datatype not_verified = WebhookNotVerified string

type_synonym signature_header = "string option \<times> bytes list"

definition malformed_timestamp :: not_verified where
  "malformed_timestamp = WebhookNotVerified ''the Stripe-Signature timestamp is malformed''"

definition read_part :: "string \<Rightarrow> signature_header \<Rightarrow> not_verified + signature_header" where
  "read_part part = (\<lambda>(timestamp, candidates).
     let (name, v) = named_value (js_trim part) in
     if name = ''t'' then
       if timestamp \<noteq> None \<or> v = [] \<or> \<not> list_all is_digit v then Inl malformed_timestamp else Inr (Some v, candidates)
     else if name = ''v1'' then
       Inr (timestamp, candidates @ (case bytesFromHex v of None \<Rightarrow> [] | Some b \<Rightarrow> [b]))
     else Inr (timestamp, candidates))"

fun read_parts :: "string list \<Rightarrow> signature_header \<Rightarrow> not_verified + signature_header" where
  "read_parts [] h = Inr h"
| "read_parts (p # ps) h = rbind (read_part p h) (read_parts ps)"

subsection \<open>Verification\<close>

definition guard :: "bool \<Rightarrow> string \<Rightarrow> not_verified + unit" where
  "guard ok message = (if ok then Inr () else Inl (WebhookNotVerified message))"

definition verifyStripeSignature :: "hmac \<Rightarrow> string \<Rightarrow> string option \<Rightarrow> string \<Rightarrow> jsdate \<Rightarrow> int \<Rightarrow> not_verified + unit" where
  "verifyStripeSignature hmac rawBody header secret now toleranceSeconds =
     rbind (guard (js_trim secret \<noteq> []) ''the Stripe webhook secret is absent'') (\<lambda>_.
     case header of None \<Rightarrow> Inl (WebhookNotVerified ''the Stripe-Signature header is absent'') | Some h \<Rightarrow>
     rbind (guard (js_trim h \<noteq> []) ''the Stripe-Signature header is absent'') (\<lambda>_.
     case now of None \<Rightarrow> Inl (WebhookNotVerified ''the signature clock or tolerance is invalid'') | Some nowMs \<Rightarrow>
     rbind (guard (toleranceSeconds \<ge> 0) ''the signature clock or tolerance is invalid'') (\<lambda>_.
     rbind (read_parts (js_split (CHR '','') h) (None, [])) (\<lambda>(timestamp, candidates).
     case timestamp of None \<Rightarrow> Inl (WebhookNotVerified ''the Stripe-Signature header is malformed'') | Some t \<Rightarrow>
     rbind (guard (is_safe_integer (digits_val t) \<and> candidates \<noteq> []) ''the Stripe-Signature header is malformed'') (\<lambda>_.
     rbind (guard (abs (nowMs div 1000 - digits_val t) \<le> toleranceSeconds) ''its timestamp is outside the accepted window'') (\<lambda>_.
       guard (foldl (\<lambda>verified c. if equalInConstantTime (hmac secret (t @ ''.'' @ rawBody)) c then True else verified) False candidates)
         ''the signature does not match the body''))))))"

subsection \<open>Lemmas\<close>

lemma or_zero: "a OR b = (0 :: 8 word) \<longleftrightarrow> a = 0 \<and> b = 0"
  by (auto simp: bit_eq_iff bit_simps)

lemma xor_zero: "a XOR b = (0 :: 8 word) \<longleftrightarrow> a = b"
  by (auto simp: bit_eq_iff bit_simps)

lemma difference_zero:
  "foldl (\<lambda>d (a, b). d OR (a XOR b)) d ps = (0 :: 8 word) \<longleftrightarrow> d = 0 \<and> (\<forall>(a, b) \<in> set ps. a = b)"
  by (induction ps arbitrary: d) (auto simp: or_zero xor_zero)

lemma equalInConstantTime_iff: "equalInConstantTime left right \<longleftrightarrow> left = right"
proof (cases "length left = length right")
  case True
  then have "(\<forall>(a, b) \<in> set (zip left right). a = b) \<longleftrightarrow> left = right"
    by (induction rule: list_induct2) auto
  with True show ?thesis by (simp add: equalInConstantTime_def difference_zero)
qed (auto simp: equalInConstantTime_def)

lemma hex_digit_val: "n < 16 \<Longrightarrow> is_hex (hex_digit n) \<and> hex_val (hex_digit n) = n"
proof -
  have "\<forall>n \<in> set [0..<16]. is_hex (hex_digit n) \<and> hex_val (hex_digit n) = n" by code_simp
  then show "n < 16 \<Longrightarrow> is_hex (hex_digit n) \<and> hex_val (hex_digit n) = n" by simp
qed

lemma unat_byte: "unat (b :: 8 word) < 256"
  using unsigned_less [of b, where 'a = nat] by simp

lemma hex_pairs_bytes: "hex_pairs (hexFromBytes bs) = bs \<and> list_all is_hex (hexFromBytes bs) \<and> even (length (hexFromBytes bs))"
proof (induction bs)
  case (Cons b bs)
  have "unat b div 16 < 16" using unat_byte [of b] by simp
  with Cons show ?case using hex_digit_val [of "unat b div 16"] hex_digit_val [of "unat b mod 16"] by (simp add: hexFromBytes_def)
qed (simp add: hexFromBytes_def)

lemma verified_foldl: "foldl (\<lambda>v c. if equalInConstantTime x c then True else v) v cs \<longleftrightarrow> v \<or> x \<in> set cs"
  by (induction cs arbitrary: v) (auto simp: equalInConstantTime_iff)

text \<open>The values of a name in the header, in order.\<close>

definition header_values :: "string \<Rightarrow> string list \<Rightarrow> string list" where
  "header_values name parts = map snd (filter (\<lambda>p. fst p = name) (map (\<lambda>p. named_value (js_trim p)) parts))"

lemma header_values_Cons: "header_values name (p # ps) =
    (if fst (named_value (js_trim p)) = name then [snd (named_value (js_trim p))] else []) @ header_values name ps"
  by (simp add: header_values_def)

definition candidates_of :: "string list \<Rightarrow> bytes list" where
  "candidates_of parts = concat (map (\<lambda>v. case bytesFromHex v of None \<Rightarrow> [] | Some b \<Rightarrow> [b]) (header_values ''v1'' parts))"

lemma candidates_of_Cons: "candidates_of (p # ps) =
    (if fst (named_value (js_trim p)) = ''v1'' then (case bytesFromHex (snd (named_value (js_trim p))) of None \<Rightarrow> [] | Some b \<Rightarrow> [b]) else [])
      @ candidates_of ps"
  by (simp add: candidates_of_def header_values_Cons)

lemma mem_candidates_of: "b \<in> set (candidates_of parts) \<longleftrightarrow> (\<exists>v \<in> set (header_values ''v1'' parts). bytesFromHex v = Some b)"
  by (auto simp: candidates_of_def split: option.splits) (metis)

lemma read_parts_Inr:
  "read_parts ps (t, cs) = Inr (t', cs') \<longleftrightarrow> cs' = cs @ candidates_of ps \<and>
     (case header_values ''t'' ps of [] \<Rightarrow> t' = t | [v] \<Rightarrow> t = None \<and> t' = Some v \<and> v \<noteq> [] \<and> list_all is_digit v | _ \<Rightarrow> False)"
proof (induction ps arbitrary: t cs)
  case Nil
  then show ?case by (auto simp: header_values_def candidates_of_def)
next
  case (Cons p ps)
  obtain name v where nv: "named_value (js_trim p) = (name, v)" by (cases "named_value (js_trim p)")
  consider "name = ''t''" | "name = ''v1''" | "name \<noteq> ''t''" "name \<noteq> ''v1''" by blast
  then show ?case
    using Cons.IH nv
    by cases (auto simp: read_part_def header_values_Cons candidates_of_Cons split: list.splits)
qed

lemma read_parts_Some:
  "read_parts ps (None, []) = Inr (Some t, cs) \<longleftrightarrow>
     cs = candidates_of ps \<and> header_values ''t'' ps = [t] \<and> t \<noteq> [] \<and> list_all is_digit t"
proof (cases "header_values ''t'' ps")
  case (Cons v vs)
  then show ?thesis by (cases vs) (auto simp: read_parts_Inr)
qed (simp add: read_parts_Inr)

lemma guard_Inr [simp]: "guard ok m = Inr u \<longleftrightarrow> ok"
  by (simp add: guard_def)

subsection \<open>Properties\<close>

text \<open>C40: a delivery is verified exactly when a secret is configured and the header names one timestamp, of
  digits and within the tolerance of the clock, and some candidate that is the hexadecimal HMAC of that
  timestamp and the body: the comparison in constant time over all candidates accepts just these, whatever
  other parts the header has.\<close>

theorem signature_verified_iff:
  "verifyStripeSignature hmac rawBody header secret now tolerance = Inr () \<longleftrightarrow>
     js_trim secret \<noteq> [] \<and> 0 \<le> tolerance \<and> (\<exists>h nowMs t v. header = Some h \<and> js_trim h \<noteq> [] \<and> now = Some nowMs \<and>
       header_values ''t'' (js_split (CHR '','') h) = [t] \<and> t \<noteq> [] \<and> list_all is_digit t \<and> is_safe_integer (digits_val t) \<and>
       abs (nowMs div 1000 - digits_val t) \<le> tolerance \<and>
       v \<in> set (header_values ''v1'' (js_split (CHR '','') h)) \<and> bytesFromHex v = Some (hmac secret (t @ ''.'' @ rawBody)))"
proof (cases header; cases now)
  fix h nowMs assume h: "header = Some h" and now: "now = Some nowMs"
  let ?parts = "js_split (CHR '','') h"
  have "verifyStripeSignature hmac rawBody header secret now tolerance = Inr () \<longleftrightarrow>
      js_trim secret \<noteq> [] \<and> js_trim h \<noteq> [] \<and> 0 \<le> tolerance \<and>
      (\<exists>t cs. read_parts ?parts (None, []) = Inr (Some t, cs) \<and> is_safe_integer (digits_val t) \<and> cs \<noteq> [] \<and>
         abs (nowMs div 1000 - digits_val t) \<le> tolerance \<and> hmac secret (t @ ''.'' @ rawBody) \<in> set cs)"
  proof (cases "read_parts ?parts (None, [])")
    case (Inr r)
    then show ?thesis
      by (cases r; cases "fst r") (auto simp: verifyStripeSignature_def h now verified_foldl)
  qed (auto simp: verifyStripeSignature_def h now)
  also have "\<dots> \<longleftrightarrow> js_trim secret \<noteq> [] \<and> js_trim h \<noteq> [] \<and> 0 \<le> tolerance \<and>
      (\<exists>t. header_values ''t'' ?parts = [t] \<and> t \<noteq> [] \<and> list_all is_digit t \<and> is_safe_integer (digits_val t) \<and>
         abs (nowMs div 1000 - digits_val t) \<le> tolerance \<and> hmac secret (t @ ''.'' @ rawBody) \<in> set (candidates_of ?parts))"
    by (auto simp: read_parts_Some)
  finally show ?thesis
    unfolding mem_candidates_of h now by auto
qed (auto simp: verifyStripeSignature_def split: option.splits)

text \<open>The hexadecimal text of a digest is read back to its bytes: what one side prints with two digits a
  byte is what the other side parses, so no candidate of a genuine sender is lost.\<close>

lemma hex_roundtrip:
  "bytesFromHex (hexFromBytes bs) = (if bs = [] then None else Some bs)"
proof -
  have "hexFromBytes bs = [] \<longleftrightarrow> bs = []" by (cases bs) (simp_all add: hexFromBytes_def)
  with hex_pairs_bytes [of bs] show ?thesis by (simp add: bytesFromHex_def)
qed

end
