(* ===== verification/Webhook.thy ===== *)
theory Webhook
  imports Processor Stripe_Signature
begin

text \<open>
  The webhook of Stripe deliveries (\<^verbatim>\<open>app/src/server/billing/http/stripe-webhook.ts\<close>): the bounded read of
  the body, the signature, the envelope, the mode of the keys, and the inbox that tells a completed delivery
  from one whose effects still need applying. The platform (text decoding, JSON, HMAC, SHA-256) is a parameter;
  so is the processor of events in the handler, which \<open>stripeWebhook\<close> instantiates with the modelled one.
  Logging, a stream that cannot be cancelled and a digest that fails are left out.
\<close>

record platform =
  pf_decode :: "bytes \<Rightarrow> string"
  pf_json :: "string \<Rightarrow> json option"
  pf_hmac :: hmac
  pf_sha256 :: "string \<Rightarrow> bytes"

record billing_deps =
  bd_config :: billing_config
  bd_stripe :: "stripe_api option"
  bd_now :: jsdate

text \<open>The body is \<open>None\<close> or a stream of chunks, of which any read may fail.\<close>

record webhook_request =
  wr_body :: "bytes res list option"
  wr_signature :: "string option"

datatype response = Failure int string | Received bool

definition MAX_BODY_BYTES :: nat where "MAX_BODY_BYTES = 256 * 1024"

fun read_chunks :: "bytes res list \<Rightarrow> bytes \<Rightarrow> bytes option res" where
  "read_chunks [] body = Inr (Some body)"
| "read_chunks (Inl e # chunks) body = Inl e"
| "read_chunks (Inr chunk # chunks) body =
     (if length body + length chunk > MAX_BODY_BYTES then Inr None else read_chunks chunks (body @ chunk))"

definition readBillingBody :: "platform \<Rightarrow> webhook_request \<Rightarrow> string option res" where
  "readBillingBody pf request = (case wr_body request of
     None \<Rightarrow> Inr (Some [])
   | Some chunks \<Rightarrow> rbind (read_chunks chunks []) (\<lambda>body. Inr (map_option (pf_decode pf) body)))"

text \<open>Unknown members are stripped, as the schema does.\<close>

definition envelope :: "json \<Rightarrow> (string \<times> string \<times> bool \<times> json) option" where
  "envelope v = (case v of JObj ms \<Rightarrow>
       (case (member_of ms ''id'', member_of ms ''type'', member_of ms ''created'', member_of ms ''livemode'', member_of ms ''data'') of
          (Some (JStr eid), Some (JStr type), Some (JInt stamp), Some (JBool live), Some (JObj d)) \<Rightarrow>
            (case member_of d ''object'' of
               Some (JObj p) \<Rightarrow>
                 if eid = [] \<or> type = [] \<or> stamp < 0 then None
                 else Some (eid, type, live, JObj [(''id'', JStr eid), (''type'', JStr type), (''created'', JInt stamp),
                   (''livemode'', JBool live), (''data'', JObj [(''object'', JObj p)])])
             | _ \<Rightarrow> None)
        | _ \<Rightarrow> None)
     | _ \<Rightarrow> None)"

record delivery =
  dl_event :: json
  dl_stripe :: stripe_api
  dl_receipt :: event_insert

definition receipt_of :: "platform \<Rightarrow> string \<Rightarrow> string \<times> string \<times> bool \<times> json \<Rightarrow> event_insert" where
  "receipt_of pf rawBody = (\<lambda>(eid, type, live, _).
     \<lparr>ev_eventId = eid, ev_type = type, ev_livemode = live, ev_payloadSha256 = hexFromBytes (pf_sha256 pf rawBody)\<rparr>)"

text \<open>Everything before the inbox: a refusal, or an authentic delivery of the keys' mode.\<close>

definition read_event :: "platform \<Rightarrow> billing_deps \<Rightarrow> string \<Rightarrow> response + delivery" where
  "read_event pf deps rawBody =
     (case (case pf_json pf rawBody of None \<Rightarrow> None | Some v \<Rightarrow> envelope v) of
        None \<Rightarrow> Inl (Failure 400 ''invalid_event'')
      | Some e \<Rightarrow>
          (case stripeMode (bd_config deps) of
             Inl _ \<Rightarrow> Inl (Failure 400 ''livemode_mismatch'')
           | Inr mode \<Rightarrow>
               if fst (snd (snd e)) \<noteq> (mode = Mode_live) then Inl (Failure 400 ''livemode_mismatch'')
               else (case bd_stripe deps of
                   None \<Rightarrow> Inl (Failure 503 ''billing_not_configured'')
                 | Some stripe \<Rightarrow> Inr \<lparr>dl_event = snd (snd (snd e)), dl_stripe = stripe, dl_receipt = receipt_of pf rawBody e\<rparr>)))"

definition read_delivery :: "platform \<Rightarrow> billing_deps \<Rightarrow> webhook_request \<Rightarrow> response + delivery" where
  "read_delivery pf deps request =
     (case cfg_stripeWebhookSecret (bd_config deps) of
        None \<Rightarrow> Inl (Failure 503 ''billing_not_configured'')
      | Some secret \<Rightarrow>
          if secret = [] then Inl (Failure 503 ''billing_not_configured'')
          else (case readBillingBody pf request of
              Inl _ \<Rightarrow> Inl (Failure 400 ''invalid_body'')
            | Inr None \<Rightarrow> Inl (Failure 413 ''body_too_large'')
            | Inr (Some rawBody) \<Rightarrow>
                (case verifyStripeSignature (pf_hmac pf) rawBody (wr_signature request) secret (bd_now deps) 300 of
                   Inl _ \<Rightarrow> Inl (Failure 400 ''invalid_signature'')
                 | Inr _ \<Rightarrow> read_event pf deps rawBody)))"

type_synonym 's handled = "'s \<Rightarrow> response \<times> 's"

text \<open>The effects of an accepted delivery; when one of them throws, the receipt is marked as failed.\<close>

definition run_delivery :: "(stripe_api \<Rightarrow> json \<Rightarrow> string proc) \<Rightarrow> delivery \<Rightarrow> (db \<times> migrations) handled" where
  "run_delivery process d s =
     (let eid = ev_eventId (dl_receipt d) in
      case sbind (process (dl_stripe d) (dl_event d)) (\<lambda>outcome. sbind (on_db (markEventProcessed eid outcome)) (\<lambda>_. sreturn outcome)) s of
        (Inr outcome, t) \<Rightarrow> (if starts_with ''failed:'' outcome then Failure 500 ''processing_failed'' else Received False, t)
      | (Inl _, t) \<Rightarrow> (Failure 500 ''processing_failed'', snd (on_db (markEventProcessed eid ''failed:processing_unavailable'') t)))"

definition handleStripeWebhook :: "platform \<Rightarrow> billing_deps \<Rightarrow> (stripe_api \<Rightarrow> json \<Rightarrow> string proc) \<Rightarrow> webhook_request
    \<Rightarrow> (db \<times> migrations) handled" where
  "handleStripeWebhook pf deps process request s =
     (case read_delivery pf deps request of
        Inl refusal \<Rightarrow> (refusal, s)
      | Inr d \<Rightarrow> (case on_db (recordEvent (dl_receipt d)) s of
            (Inl _, t) \<Rightarrow> (Failure 500 ''processing_failed'', t)
          | (Inr recorded, t) \<Rightarrow>
              if recorded = Rec_conflict then (Failure 409 ''event_conflict'', t)
              else if recorded = Rec_processed then (Received True, t)
              else run_delivery process d t))"

definition stripeWebhook :: "platform \<Rightarrow> billing_deps \<Rightarrow> webhook_request \<Rightarrow> (db \<times> migrations) handled" where
  "stripeWebhook pf deps request = handleStripeWebhook pf deps processStripeEvent request"

subsection \<open>The inbox\<close>

text \<open>No write of a handler touches the inbox, so neither does any event.\<close>

interpretation inbox_frame: event_store "\<lambda>d. db_events d = E" for E
proof
  have b: "preserves (\<lambda>d. db_events d = E) (insertGrant g)" "preserves (\<lambda>d. db_events d = E) (enqueueOutbox item)" for g item
    by (auto simp: preserves_def insertGrant_def enqueueOutbox_def send_dates_def sbind_def fresh_id_def split: prod.split)
  then have i: "preserves (\<lambda>d. db_events d = E) (insert_both e gs os)" for e gs os
    unfolding insert_both_def by (intro billing_intros)
  fix u c row i at p g item st change consent r
  show "preserves (\<lambda>d. db_events d = E) (insertGrant g)" "preserves (\<lambda>d. db_events d = E) (enqueueOutbox item)" by (rule b)+
  show "preserves (\<lambda>d. db_events d = E) (recordAiTopup g item)"
    unfolding recordAiTopup_def fund_topup_def by (intro billing_intros i)
  show "preserves (\<lambda>d. db_events d = E) (recordAiReversal r)"
    unfolding recordAiReversal_def reverse_step_def apply_plan_def userForStripeCustomer_def by (intro billing_intros i)
qed (auto simp: preserves_def linkCustomer_def upsertSubscription_def resolvePaymentIssue_def recordPaymentIssue_def
    setOverageInvoiceStatus_def setPlanChangeState_def recordConsent_def send_dates_def sbind_def fresh_id_def Let_def
    split: prod.split option.split bool.split)

definition same_receipt :: "event_insert \<Rightarrow> event_row \<Rightarrow> bool" where
  "same_receipt e r \<longleftrightarrow> ev_eventId r = ev_eventId e \<and> ev_payloadSha256 r = ev_payloadSha256 e \<and> ev_type r = ev_type e \<and>
     ev_livemode r = ev_livemode e"

definition inbox_row :: "event_insert \<Rightarrow> db \<Rightarrow> event_row option" where
  "inbox_row e d = find (\<lambda>r. ev_eventId r = ev_eventId e) (db_events d)"

lemma recordEvent_accepts:
  assumes "recordEvent e s = (Inr r, t)" and "r \<noteq> Rec_conflict"
  shows "\<exists>row. inbox_row e t = Some row \<and> same_receipt e row"
proof (cases "\<exists>y \<in> set (db_events s). event_clash y (event_row_of e)")
  case True
  then have "insert_ignore event_clash (event_row_of e) (db_events s) = (False, db_events s)" by (auto simp: insert_ignore_def)
  with assms show ?thesis
    by (auto simp: recordEvent_def inbox_row_def same_receipt_def split: option.splits if_splits dest: find_Some_iff_first)
next
  case False
  then have i: "insert_ignore event_clash (event_row_of e) (db_events s) = (True, db_events s @ [event_row_of e])"
    by (auto simp: insert_ignore_def)
  have "find (\<lambda>r. ev_eventId r = ev_eventId e) (db_events s) = None"
    using False by (auto simp: find_None_iff event_clash_def event_row_of_def)
  with i assms show ?thesis
    by (auto simp: recordEvent_def inbox_row_def same_receipt_def find_append_None event_row_of_def)
qed

lemma recordEvent_known:
  assumes "inbox_row e s = Some row" and "same_receipt e row"
  shows "recordEvent e s = (Inr (if er_processedAt row \<noteq> None \<and> \<not> failed_outcome (er_outcome row) then Rec_processed else Rec_unprocessed), s)"
proof -
  from assms have "\<exists>y \<in> set (db_events s). event_clash y (event_row_of e)"
    unfolding inbox_row_def by (auto simp: event_clash_def event_row_of_def dest!: find_Some_iff_first)
  then have "insert_ignore event_clash (event_row_of e) (db_events s) = (False, db_events s)" by (auto simp: insert_ignore_def)
  with assms show ?thesis by (simp add: recordEvent_def inbox_row_def same_receipt_def)
qed

lemma recordEvent_total: "\<exists>r. fst (recordEvent e s) = Inr r"
proof (cases "\<exists>y \<in> set (db_events s). event_clash y (event_row_of e)")
  case True
  then have "find (\<lambda>r. ev_eventId r = ev_eventId e) (db_events s) \<noteq> None"
    by (auto simp: find_None_iff event_clash_def event_row_of_def)
  with True show ?thesis by (auto simp: recordEvent_def insert_ignore_def)
qed (auto simp: recordEvent_def insert_ignore_def)

lemma recordEvent_processed: "recordEvent e s = (Inr Rec_processed, t) \<Longrightarrow> t = s"
  by (auto simp: recordEvent_def split: prod.splits bool.splits option.splits if_splits)

lemma marked_row:
  assumes "inbox_row e s = Some row" and "same_receipt e row"
  shows "recordEvent e (snd (markEventProcessed (ev_eventId e) outcome s)) =
     (Inr (if failed_outcome (Some outcome) then Rec_unprocessed else Rec_processed), snd (markEventProcessed (ev_eventId e) outcome s))"
proof -
  let ?mark = "\<lambda>r. r\<lparr>er_processedAt := Some (db_now s), er_outcome := Some outcome\<rparr>"
  have "find (\<lambda>r. ev_eventId r = ev_eventId e) (update_where (\<lambda>r. ev_eventId r = ev_eventId e) ?mark (db_events s)) = Some (?mark row)"
    using assms(1) by (intro find_update_where) (simp_all add: inbox_row_def)
  then have "inbox_row e (snd (markEventProcessed (ev_eventId e) outcome s)) = Some (?mark row)"
    by (simp add: inbox_row_def markEventProcessed_def)
  with assms(2) show ?thesis
    by (subst recordEvent_known [of e _ "?mark row"]) (simp_all add: same_receipt_def)
qed

subsection \<open>Outcomes\<close>

text \<open>The inbox retries outcomes that start with \<open>failed\<close>, the handler those that start with \<open>failed:\<close>; they are the same.\<close>

definition outcome_ok :: "string \<Rightarrow> bool" where
  "outcome_ok out \<longleftrightarrow> (starts_with ''failed'' out \<longrightarrow> starts_with ''failed:'' out)"

definition yields :: "('a \<Rightarrow> bool) \<Rightarrow> ('s, 'a) prog \<Rightarrow> bool" where
  "yields P m \<longleftrightarrow> (\<forall>s x t. m s = (Inr x, t) \<longrightarrow> P x)"

named_theorems yielding "rules for what programs return"

lemma yields_return [yielding]: "P x \<Longrightarrow> yields P (sreturn x)"
  by (simp add: yields_def sreturn_def)

lemma yields_throw [yielding]: "yields P (sthrow e)"
  by (simp add: yields_def sthrow_def)

lemma yields_any [yielding]: "yields (\<lambda>_. True) m"
  by (simp add: yields_def)

lemma yields_on_db [yielding]: "yields P m \<Longrightarrow> yields P (on_db m)"
  by (auto simp: yields_def on_db_def split: prod.splits)

lemma yields_transaction [yielding]: "yields P m \<Longrightarrow> yields P (transaction m)"
  unfolding yields_def transaction_def by (auto split: prod.splits sum.splits)

lemma yields_bind:
  assumes "yields P m" and "\<And>x. P x \<Longrightarrow> yields Q (f x)"
  shows "yields Q (sbind m f)"
  using assms unfolding yields_def sbind_def by (fastforce split: prod.splits sum.splits)

lemma yields_then [yielding]: "(\<And>x. yields Q (f x)) \<Longrightarrow> yields Q (sbind m f)"
  by (rule yields_bind [OF yields_any])

lemma yields_reads:
  "(\<And>x. yields Q (f x)) \<Longrightarrow> yields Q (sbind (on_db m) f)" "(\<And>x. yields Q (f x)) \<Longrightarrow> yields Q (sbind (slift r) f)"
  by (simp_all add: yields_then)

lemma yields_if [yielding]: "(c \<Longrightarrow> yields P a) \<Longrightarrow> (\<not> c \<Longrightarrow> yields P b) \<Longrightarrow> yields P (if c then a else b)"
  by simp

lemma yields_option [yielding]: "yields P a \<Longrightarrow> (\<And>x. v = Some x \<Longrightarrow> yields P (f x)) \<Longrightarrow> yields P (case v of None \<Rightarrow> a | Some x \<Rightarrow> f x)"
  by (cases v) simp_all

lemma yields_sum: "(\<And>e. yields P (g e)) \<Longrightarrow> (\<And>x. yields P (f x)) \<Longrightarrow> yields P (case v of Inl e \<Rightarrow> g e | Inr x \<Rightarrow> f x)"
  by (cases v) simp_all

lemma yields_or_return [yielding]: "outcome_ok out \<Longrightarrow> (\<And>x. yields outcome_ok (f x)) \<Longrightarrow> yields outcome_ok (or_return out v f)"
  unfolding or_return_def by (intro yielding)

lemmas literal_outcome = outcome_ok_def starts_with_def

lemma yields_owner: "(\<And>u. yields outcome_ok (f u)) \<Longrightarrow> yields outcome_ok (owner_then c f)"
  unfolding owner_then_def by (intro yielding) (simp_all add: literal_outcome)

lemma yields_settle: "yields outcome_ok rest \<Longrightarrow> yields outcome_ok (settle_subscription ev i row rest)"
  unfolding settle_subscription_def by (intro yielding) (simp_all add: literal_outcome)

lemma grant_pro_yields: "yields outcome_ok (grant_pro ev invoice u row)"
  unfolding grant_pro_def by (intro yielding yields_settle) (simp_all add: literal_outcome)

lemma grant_plan_yields: "yields outcome_ok (grant_plan ev invoice u row)"
proof (cases "base_lines invoice (sub_id row)")
  case Nil
  then show ?thesis by (simp add: grant_plan_def yielding literal_outcome)
next
  case (Cons p ps)
  then show ?thesis
    by (cases p; cases ps) (simp_all add: grant_plan_def yielding yields_settle literal_outcome)
qed

lemma grant_upgrade_yields: "yields outcome_ok (grant_upgrade ev invoice x u row line)"
proof -
  have "yields outcome_ok (grant_upgrade_at ev invoice u row premium start stop at)" for premium start stop at
    unfolding grant_upgrade_at_def
    by (rule yields_then, rule yields_sum) (intro yielding yields_settle; simp add: literal_outcome)+
  then show ?thesis
    unfolding grant_upgrade_def by (auto split: option.splits intro!: yields_if yields_return simp: literal_outcome)
qed

lemma apply_grant_to_yields: "yields outcome_ok (apply_grant_to ev invoice x u)"
proof -
  have "yields outcome_ok (resolve_ignored ev k)" for k
    unfolding resolve_ignored_def by (intro yielding) (simp add: literal_outcome)
  then have inner: "yields outcome_ok (let row = r in case invoiceGrantKind invoice of
          IG_period \<Rightarrow> if bo_sku offer = pp_sku PRO_PLAN then grant_pro ev invoice u row else grant_plan ev invoice u row
        | IG_upgrade compute \<Rightarrow> grant_upgrade ev invoice x u row compute
        | _ \<Rightarrow> resolve_ignored ev (in_id invoice))" for r offer
    by (cases "invoiceGrantKind invoice") (simp_all add: Let_def grant_pro_yields grant_plan_yields grant_upgrade_yields)
  show ?thesis
    unfolding apply_grant_to_def by (intro yields_option yields_or_return yields_return inner) (simp_all add: literal_outcome)
qed

lemma apply_grant_period_yields: "yields outcome_ok (apply_grant_period stripe ev i)"
  unfolding apply_grant_period_def apply_overage_paid_def resolve_ignored_def
  by (auto simp: literal_outcome intro!: yielding yields_owner apply_grant_to_yields)

lemma apply_link_yields: "yields outcome_ok (apply_link stripe ev ref)"
  unfolding apply_link_def by (auto simp: literal_outcome split: option.splits json.splits intro!: yielding)

lemma record_issue_yields: "yields outcome_ok (record_issue invoice issue at u k sid)"
  unfolding record_issue_def by (auto simp: literal_outcome split: InvoiceKind.splits option.splits intro!: yielding)

lemma apply_invoice_issue_yields: "yields outcome_ok (apply_invoice_issue stripe i issue at)"
  unfolding apply_invoice_issue_def
  by (auto simp: literal_outcome intro!: yielding yields_owner record_issue_yields)

lemma sync_yields: "(\<And>u i. yields outcome_ok (rest u i)) \<Longrightarrow> yields outcome_ok (sync_subscription stripe ev sid rest)"
  unfolding sync_subscription_def by (auto simp: literal_outcome intro!: yielding yields_owner)

lemma recordAiTopup_yields: "yields outcome_ok (recordAiTopup g item)"
  unfolding recordAiTopup_def fund_topup_def by (auto simp: literal_outcome split: list.splits option.splits intro!: yielding)

lemma fund_pack_yields: "yields outcome_ok (fund_pack ev u p pk)"
  unfolding fund_pack_def Let_def by (auto simp: literal_outcome split: prod.splits intro!: yielding recordAiTopup_yields)

lemma sold_pack_yields: "yields (\<lambda>r. case r of Inl out \<Rightarrow> outcome_ok out | Inr _ \<Rightarrow> True) (sold_pack stripe session sku)"
  unfolding sold_pack_def by (auto simp: literal_outcome split: list.splits option.splits intro!: yielding)

lemma apply_topup_yields: "yields outcome_ok (apply_topup stripe ev sid)"
proof -
  have sold: "yields outcome_ok (sbind (sold_pack stripe session sku) (\<lambda>sold. case sold of
      Inl refusal \<Rightarrow> sreturn refusal | Inr pk \<Rightarrow> fund_pack ev u p pk))" for session sku u p
    by (rule yields_bind [OF sold_pack_yields]) (auto split: sum.splits intro: yielding fund_pack_yields)
  have c: "outcome_ok refusal" if "custom_refusal session = Some refusal" for session refusal
    using that by (auto simp: custom_refusal_def literal_outcome split: if_splits option.splits)
  show ?thesis
    unfolding apply_topup_def
    by (intro yields_reads yields_if yields_option yields_or_return yields_return yields_owner fund_pack_yields sold;
        (erule c | simp add: literal_outcome))
qed

definition refuses_ok :: "plan_stop + 'a \<Rightarrow> bool" where
  "refuses_ok m \<longleftrightarrow> (\<forall>out. m = Inl (Refused out) \<longrightarrow> outcome_ok out)"

named_theorems refusing "rules for what plans refuse with"

lemma refusing_rules [refusing]:
  "refuses_ok (Inr x)" "outcome_ok out \<Longrightarrow> refuses_ok (Inl (Refused out))" "outcome_ok out \<Longrightarrow> refuses_ok (require ok out)"
  "refuses_ok (or_throw r)"
  by (auto simp: refuses_ok_def require_def or_throw_def split: sum.splits)

lemma refusing_bind [refusing]: "refuses_ok m \<Longrightarrow> (\<And>x. refuses_ok (f x)) \<Longrightarrow> refuses_ok (rbind m f)"
  by (cases m) (auto simp: refuses_ok_def)

lemma refusing_cases [refusing]:
  "refuses_ok a \<Longrightarrow> (\<And>x. refuses_ok (f x)) \<Longrightarrow> refuses_ok (case v of None \<Rightarrow> a | Some x \<Rightarrow> f x)"
  "(\<And>e. refuses_ok (g e)) \<Longrightarrow> (\<And>x. refuses_ok (h x)) \<Longrightarrow> refuses_ok (case w of Inl e \<Rightarrow> g e | Inr x \<Rightarrow> h x)"
  by (cases v; simp) (cases w; simp)

lemma refusing_if [refusing]: "refuses_ok a \<Longrightarrow> refuses_ok b \<Longrightarrow> refuses_ok (if c then a else b)"
  by simp

lemma refusing_map [refusing]: "(\<And>x. refuses_ok (f x)) \<Longrightarrow> refuses_ok (res_map f xs)"
  by (induction xs) (auto intro!: refusing)

lemma restore_gate_refuses: "refuses_ok (restore_gate i snap grants proof eid accounts revoked previous)"
  unfolding restore_gate_def restore_allowed_def Let_def mismatch_def
  by (intro refusing) (simp_all add: literal_outcome)

lemma plan_root_refuses: "refuses_ok (plan_root i snap grants proof root)"
  unfolding plan_root_def Let_def mismatch_def
  by (intro refusing restore_gate_refuses) (simp_all add: literal_outcome)

lemma plan_reversal_refuses: "refuses_ok (plan_reversal i snap)"
  unfolding plan_reversal_def finish_plan_def Let_def mismatch_def
  by (intro refusing plan_root_refuses) (simp_all add: literal_outcome)

lemma planAiReversal_outcome: "planAiReversal i snap = Inr a \<Longrightarrow> outcome_ok (pa_outcome a)"
  using plan_reversal_refuses [of i snap]
  by (auto simp: planAiReversal_def refuses_ok_def literal_outcome split: sum.splits plan_stop.splits)

lemma recordAiReversal_yields: "yields outcome_ok (recordAiReversal i)"
proof -
  have "yields outcome_ok (sbind (slift (planAiReversal i snap)) apply_plan)" for snap
  proof (rule yields_bind [where P = "\<lambda>a. outcome_ok (pa_outcome a)"])
    show "yields (\<lambda>a. outcome_ok (pa_outcome a)) (slift (planAiReversal i snap))"
      using planAiReversal_outcome by (auto simp: yields_def slift_def)
  qed (auto simp: apply_plan_def literal_outcome intro!: yielding)
  then have "yields outcome_ok (sbind (sget f) (\<lambda>snap. sbind (slift (planAiReversal i snap)) apply_plan))" for f
    by (rule yields_then)
  then show ?thesis
    unfolding recordAiReversal_def reverse_step_def
    by (cases "ar_originals i")
      (auto simp: literal_outcome intro!: yields_transaction yields_return yields_if yields_then [where m = "userForStripeCustomer c" for c])
qed

lemma reverse_with_yields: "yields outcome_ok (reverse_with q charge c u originals receipts)"
  unfolding reverse_with_def reverse_legacy_def
  by (auto simp: literal_outcome intro!: yielding recordAiReversal_yields)

lemma rebuilt_receipts_yields: "yields (\<lambda>r. case r of Inl out \<Rightarrow> outcome_ok out | Inr _ \<Rightarrow> True) (rebuilt_receipts stripe charge u originals)"
  unfolding rebuilt_receipts_def by (auto simp: literal_outcome intro!: yielding)

lemma reverse_originals_yields: "yields outcome_ok (reverse_originals stripe q charge c u originals)"
proof -
  have "yields outcome_ok (sbind (rebuilt_receipts stripe charge u originals) (\<lambda>r. case r of
      Inl refusal \<Rightarrow> sreturn refusal | Inr rebuilt \<Rightarrow> reverse_with q charge c u originals rebuilt))"
    by (rule yields_bind [OF rebuilt_receipts_yields]) (auto split: sum.splits intro: yielding reverse_with_yields)
  then show ?thesis
    unfolding reverse_originals_def by (auto intro!: yielding reverse_with_yields)
qed

lemma apply_reversal_yields: "yields outcome_ok (apply_reversal stripe q)"
  unfolding apply_reversal_def no_grant_outcome_def Let_def
  by (auto simp: literal_outcome split: option.splits invoice_grant.splits intro!: yielding yields_owner reverse_originals_yields)

lemma applyAction_yields: "yields outcome_ok (applyAction stripe ev a)"
  by (cases a) (auto simp: literal_outcome split: option.splits intro!: apply_link_yields apply_grant_period_yields sync_yields
      apply_invoice_issue_yields apply_topup_yields apply_reversal_yields yielding)

lemma run_actions_yields: "outcome_ok out \<Longrightarrow> yields outcome_ok (run_actions stripe ev out as)"
proof (induction as arbitrary: out)
  case (Cons a as)
  have "outcome_ok (keep_outcome out result)" if "outcome_ok result" for result
    using that Cons.prems by (simp add: keep_outcome_def)
  then show ?case using Cons.IH by (auto intro!: yields_bind [OF applyAction_yields])
qed (simp add: yielding)

lemma processStripeEvent_yields: "yields outcome_ok (processStripeEvent stripe event)"
  unfolding processStripeEvent_def processPlannedEvent_def
  by (auto simp: literal_outcome simp del: run_actions.simps split: sum.splits jserror.splits list.splits intro!: yielding run_actions_yields)

subsection \<open>Properties\<close>

lemma process_keeps_inbox:
  "db_events (fst (snd (processStripeEvent stripe event s))) = db_events (fst s)"
  using inbox_frame.processStripeEvent_keeps [of "db_events (fst s)" stripe event]
  by (simp add: preserves_def on_fst_def del: split_paired_All)

lemma starts_with_shorter: "starts_with (p @ q) s \<Longrightarrow> starts_with p s"
proof -
  assume "starts_with (p @ q) s"
  then have "take (length p) (take (length (p @ q)) s) = p" by (simp add: starts_with_def)
  then show "starts_with p s" by (simp add: starts_with_def min_def)
qed

lemma failed_outcome_iff: "outcome_ok out \<Longrightarrow> failed_outcome (Some out) \<longleftrightarrow> starts_with ''failed:'' out"
  using starts_with_shorter [of "''failed''" "'':''" out] by (auto simp: outcome_ok_def failed_outcome_def)

text \<open>How a run of an accepted delivery ends: its receipt is in the inbox, marked with an outcome that the inbox
  takes for a failure exactly when the answer is one.\<close>

lemma run_marks_receipt:
  assumes "inbox_row (dl_receipt d) (fst s) = Some row" and "same_receipt (dl_receipt d) row"
    and run: "run_delivery processStripeEvent d s = (answer, t)"
  shows "answer \<in> {Received False, Failure 500 ''processing_failed''} \<and>
    recordEvent (dl_receipt d) (fst t) = (Inr (if answer = Received False then Rec_processed else Rec_unprocessed), fst t)"
proof -
  let ?e = "dl_receipt d" and ?r = "processStripeEvent (dl_stripe d) (dl_event d) s"
  have row: "inbox_row ?e (fst (snd ?r)) = Some row"
    using assms(1) by (simp add: inbox_row_def process_keeps_inbox)
  note marked = marked_row [OF row assms(2)]
  obtain res u where Pair: "?r = (res, u)" by (cases ?r)
  show ?thesis
  proof (cases res)
      case (Inl e)
      with Pair run have t: "answer = Failure 500 ''processing_failed''"
          "fst t = snd (markEventProcessed (ev_eventId ?e) ''failed:processing_unavailable'' (fst u))"
        by (auto simp: run_delivery_def sbind_def Let_def on_db_def split: prod.splits)
      have "failed_outcome (Some ''failed:processing_unavailable'')" by (simp add: failed_outcome_def starts_with_def)
      with t marked [of "''failed:processing_unavailable''"] Pair show ?thesis by simp
    next
      case (Inr out)
      with Pair run have t: "answer = (if starts_with ''failed:'' out then Failure 500 ''processing_failed'' else Received False)"
          "fst t = snd (markEventProcessed (ev_eventId ?e) out (fst u))"
        by (auto simp: run_delivery_def sbind_def Let_def on_db_def markEventProcessed_def sreturn_def split: prod.splits)
      have "failed_outcome (Some out) \<longleftrightarrow> starts_with ''failed:'' out"
        using processStripeEvent_yields Inr Pair unfolding yields_def by (intro failed_outcome_iff) blast
      with t marked [of out] Pair show ?thesis by simp
  qed
qed

lemma webhook_run:
  assumes "stripeWebhook pf deps request s = (answer, t)" and "read_delivery pf deps request = Inr d"
    and "answer = Received False \<or> answer = Failure 500 ''processing_failed''"
  shows "recordEvent (dl_receipt d) (fst t) = (Inr (if answer = Received False then Rec_processed else Rec_unprocessed), fst t)"
proof -
  obtain r u where rec: "recordEvent (dl_receipt d) (fst s) = (r, u)" by (cases "recordEvent (dl_receipt d) (fst s)")
  have total: "\<exists>x. r = Inr x"
    using rec recordEvent_total by (metis fst_conv)
  then obtain x where x: "r = Inr x" by blast
  with assms rec have run: "x \<noteq> Rec_conflict" "run_delivery processStripeEvent d (u, snd s) = (answer, t)"
    by (auto simp: stripeWebhook_def handleStripeWebhook_def on_db_def split: if_splits)
  from recordEvent_accepts [of "dl_receipt d" "fst s" x u] rec x run(1)
  obtain row where row: "inbox_row (dl_receipt d) (fst (u, snd s)) = Some row" "same_receipt (dl_receipt d) row" by auto
  from run_marks_receipt [OF row run(2)] show ?thesis by blast
qed

lemma read_event_Inr:
  assumes "read_event pf deps rawBody = Inr d"
  shows "\<exists>v e. pf_json pf rawBody = Some v \<and> envelope v = Some e \<and> dl_receipt d = receipt_of pf rawBody e"
proof -
  obtain v where v: "pf_json pf rawBody = Some v"
    using assms by (cases "pf_json pf rawBody") (simp_all add: read_event_def)
  obtain e where e: "envelope v = Some e"
    using assms v by (cases "envelope v") (simp_all add: read_event_def)
  obtain mode where m: "stripeMode (bd_config deps) = Inr mode"
    using assms v e by (cases "stripeMode (bd_config deps)") (simp_all add: read_event_def)
  obtain stripe where "bd_stripe deps = Some stripe"
    using assms v e m by (cases "bd_stripe deps") (simp_all add: read_event_def split: if_splits)
  with assms v e m have "dl_receipt d = receipt_of pf rawBody e" by (simp add: read_event_def split: if_splits) auto
  with v e show ?thesis by blast
qed

lemma read_delivery_Inr:
  assumes "read_delivery pf deps request = Inr d"
  shows "\<exists>rawBody. readBillingBody pf request = Inr (Some rawBody) \<and> read_event pf deps rawBody = Inr d"
proof -
  obtain secret where c: "cfg_stripeWebhookSecret (bd_config deps) = Some secret" "secret \<noteq> []"
    using assms by (auto simp: read_delivery_def split: option.splits if_splits)
  obtain body where r: "readBillingBody pf request = Inr body"
    using assms c by (cases "readBillingBody pf request") (simp_all add: read_delivery_def)
  obtain rawBody where "body = Some rawBody"
    using assms c r by (cases body) (simp_all add: read_delivery_def)
  with assms c r show ?thesis
    by (cases "verifyStripeSignature (pf_hmac pf) rawBody (wr_signature request) secret (bd_now deps) 300")
      (simp_all add: read_delivery_def)
qed

lemma same_body_receipt:
  assumes "read_delivery pf deps request = Inr d" and "read_delivery pf deps' request' = Inr d'"
    and "readBillingBody pf request' = readBillingBody pf request"
  shows "dl_receipt d' = dl_receipt d"
proof -
  from read_delivery_Inr [OF assms(1)] obtain raw where raw: "readBillingBody pf request = Inr (Some raw)" "read_event pf deps raw = Inr d" by blast
  from read_delivery_Inr [OF assms(2)] assms(3) raw(1) have raw': "read_event pf deps' raw = Inr d'" by auto
  from read_event_Inr [OF raw(2)] read_event_Inr [OF raw'] show ?thesis by auto
qed

text \<open>C3: a delivery is completed once: after it was answered as received, every authentic redelivery of the same
  body, under whatever signature, clock or configuration, is answered as a duplicate and changes nothing.\<close>

theorem webhook_received_once:
  assumes "stripeWebhook pf deps request s = (Received b, t)"
    and deliveries: "read_delivery pf deps request = Inr d" "read_delivery pf deps' request' = Inr d'"
    and body: "readBillingBody pf request' = readBillingBody pf request"
  shows "stripeWebhook pf deps' request' t = (Received True, t)"
proof (cases b)
  case False
  with webhook_run [OF assms(1) deliveries(1)] have "recordEvent (dl_receipt d) (fst t) = (Inr Rec_processed, fst t)" by simp
  with deliveries same_body_receipt [OF deliveries body] show ?thesis by (simp add: stripeWebhook_def handleStripeWebhook_def on_db_def)
next
  case True
  obtain r u where rec: "recordEvent (dl_receipt d) (fst s) = (r, u)" by (cases "recordEvent (dl_receipt d) (fst s)")
  obtain x where x: "r = Inr x" using rec recordEvent_total by (metis fst_conv)
  have "x = Rec_processed \<and> t = (u, snd s)"
  proof (rule ccontr)
    assume "\<not> (x = Rec_processed \<and> t = (u, snd s))"
    with assms(1) deliveries(1) rec x True have run: "x \<noteq> Rec_conflict" "run_delivery processStripeEvent d (u, snd s) = (Received True, t)"
      by (auto simp: stripeWebhook_def handleStripeWebhook_def on_db_def split: if_splits)
    then show False by (auto simp: run_delivery_def Let_def split: prod.splits sum.splits if_splits)
  qed
  with rec x recordEvent_processed [of "dl_receipt d" "fst s" u] deliveries same_body_receipt [OF deliveries body] show ?thesis
    by (simp add: stripeWebhook_def handleStripeWebhook_def on_db_def)
qed


text \<open>A delivery of an event the processor ignores, and one it cannot read.\<close>

definition demo_platform :: "string \<Rightarrow> (string \<times> json) list \<Rightarrow> platform" where
  "demo_platform type ms = \<lparr>pf_decode = (\<lambda>_. []), pf_json = (\<lambda>_. Some (JObj [(''id'', JStr ''evt_1''), (''type'', JStr type), (''created'', JInt 1),
     (''livemode'', JBool False), (''data'', JObj [(''object'', JObj ms)])])), pf_hmac = (\<lambda>_ _. [7]), pf_sha256 = (\<lambda>_. [1])\<rparr>"

definition demo_webhook_deps :: billing_deps where
  "demo_webhook_deps = \<lparr>bd_config = (readBillingConfig (\<lambda>_. None))\<lparr>cfg_stripeSecret := Some ''sk_test_1'', cfg_stripeWebhookSecret := Some ''w''\<rparr>,
     bd_stripe = Some \<lparr>retrieveSubscription = (\<lambda>_. Inl TypeError), retrieveInvoice = (\<lambda>_. Inl TypeError),
       retrieveInvoicePaymentState = (\<lambda>_. Inl TypeError), retrieveCheckoutSession = (\<lambda>_. Inl TypeError),
       retrieveCharge = (\<lambda>_. Inl TypeError), retrieveCheckoutLineItems = (\<lambda>_. Inl TypeError), retrieveProduct = (\<lambda>_. Inl TypeError)\<rparr>,
     bd_now = Some 2000\<rparr>"

definition demo_request :: webhook_request where
  "demo_request = \<lparr>wr_body = None, wr_signature = Some ''t=1, v1=07''\<rparr>"

lemma demo_delivery: "\<exists>d. read_delivery (demo_platform type ms) demo_webhook_deps demo_request = Inr d" if "type \<noteq> []"
proof -
  have "verifyStripeSignature (\<lambda>_ _. [7]) [] (Some ''t=1, v1=07'') ''w'' (Some 2000) 300 = Inr ()" by code_simp
  with that show ?thesis
    by (simp add: read_delivery_def demo_webhook_deps_def demo_request_def demo_platform_def readBillingBody_def read_event_def envelope_def
        member_of_def stripeMode_def secret_mode_def starts_with_def readBillingConfig_sel nullish_or_def nonEmpty_def publishable_def)
qed

definition demo_store :: "db \<times> migrations" where
  "demo_store = (empty_db [] 0, [])"

lemma demo_received: "fst (stripeWebhook (demo_platform ''ping'' []) demo_webhook_deps demo_request demo_store) = Received False"
  by code_simp

theorem webhook_received_once_witness:
  "\<exists>t. stripeWebhook (demo_platform ''ping'' []) demo_webhook_deps demo_request demo_store = (Received False, t) \<and>
     stripeWebhook (demo_platform ''ping'' []) demo_webhook_deps demo_request t = (Received True, t)"
proof -
  obtain t where t: "stripeWebhook (demo_platform ''ping'' []) demo_webhook_deps demo_request demo_store = (Received False, t)"
    using demo_received by (metis prod.collapse)
  obtain d where "read_delivery (demo_platform ''ping'' []) demo_webhook_deps demo_request = Inr d" using demo_delivery [of "''ping''" "[]"] by auto
  with webhook_received_once [OF t this this refl] t show ?thesis by blast
qed

definition demo_refund_platform :: platform where
  "demo_refund_platform = demo_platform ''charge.refunded'' [(''id'', JStr ''ch_1''), (''refunds'', JObj [(''data'', JArr [JObj [(''id'', JStr ''re_1'')]])])]"

lemma demo_failed: "fst (stripeWebhook demo_refund_platform demo_webhook_deps demo_request demo_store) = Failure 500 ''processing_failed''"
  by code_simp


end
