(* ===== verification/Migration.thy ===== *)
theory Migration
  imports Ports
begin

text \<open>
  The durable decisions of a computer's move from Cloudflare to AWS
  (\<^verbatim>\<open>app/src/server/lib/compute/provider-migrate.ts\<close>): the state of a migration, the reducer that says which
  event it accepts, what it becomes and which compensation the caller must run, and the lease a booting
  host restores the snapshot with. The lemmas show what every accepted event keeps, that a migration
  cannot go on for ever, and that the reducer implements the phase diagram at the end.
\<close>

subsection \<open>State\<close>

datatype MigrationState = MS_requested | MS_fenced | MS_exported | MS_provisioning | MS_restored
  | MS_committed | MS_failed_reopened | MS_failed_needs_operator

definition MIGRATION_STATES :: "MigrationState list" where
  "MIGRATION_STATES = [MS_requested, MS_fenced, MS_exported, MS_provisioning, MS_restored, MS_committed,
     MS_failed_reopened, MS_failed_needs_operator]"

definition TERMINAL_MIGRATION_STATES :: "MigrationState list" where
  "TERMINAL_MIGRATION_STATES = [MS_committed, MS_failed_reopened, MS_failed_needs_operator]"

text \<open>The members of the exported head of a snapshot; \<^verbatim>\<open>generation\<close> is one of them.\<close>

type_synonym snapshot_head = "(string \<times> json) list"

definition head_generation :: "snapshot_head \<Rightarrow> json option" where
  "head_generation h = member_of h ''generation''"

record migration_progress =
  mp_state :: MigrationState
  mp_generation :: "string option"
  mp_sourceEtag :: "string option"
  mp_sourceSystemEtag :: "string option"
  mp_workspaceHead :: "snapshot_head option"
  mp_systemHead :: "snapshot_head option"
  mp_migratedEtag :: "string option"
  mp_attempts :: int
  mp_lastError :: "string option"

datatype MigrationEvent =
    ME_fresh_provision
  | ME_fenced (fenced_etag: string) (fenced_systemEtag: "string option") (fenced_generation: string)
  | ME_exported (exported_workspaceHead: snapshot_head) (exported_systemHead: "snapshot_head option")
  | ME_provisioned
  | ME_host_restored (restored_generation: string)
  | ME_committed (committed_etag: string)
  | ME_error (error_step: string) (error_retryable: bool)
  | ME_reopened

datatype MigrationEffect = Eff_abort | Eff_reopen | Eff_retry

fun effect_text :: "MigrationEffect \<Rightarrow> string" where
  "effect_text Eff_abort = ''abort''"
| "effect_text Eff_reopen = ''reopen''"
| "effect_text Eff_retry = ''retry''"

text \<open>Truthiness of a nullable text.\<close>

definition truthy :: "string option \<Rightarrow> bool" where
  "truthy v \<longleftrightarrow> v \<noteq> None \<and> v \<noteq> Some []"

definition is_lower_hex :: "char \<Rightarrow> bool" where
  "is_lower_hex c \<longleftrightarrow> (CHR ''0'' \<le> c \<and> c \<le> CHR ''9'') \<or> (CHR ''a'' \<le> c \<and> c \<le> CHR ''f'')"

definition uuid_pattern :: string where
  "uuid_pattern = ''hhhhhhhh-hhhh-hhhh-hhhh-hhhhhhhhhhhh''"

definition is_uuid :: "string \<Rightarrow> bool" where
  "is_uuid s \<longleftrightarrow> list_all2 (\<lambda>p c. if p = CHR ''h'' then is_lower_hex c else c = p) uuid_pattern s"

definition RECOVERY_PREFIX :: string where "RECOVERY_PREFIX = ''recovery:''"

definition pendingRecovery :: "'a migration_progress_scheme \<Rightarrow> MigrationEffect option" where
  "pendingRecovery m =
     (case mp_lastError m of None \<Rightarrow> None
      | Some e \<Rightarrow>
          if starts_with (RECOVERY_PREFIX @ ''abort:'') e then Some Eff_abort
          else if starts_with (RECOVERY_PREFIX @ ''reopen:'') e then Some Eff_reopen
          else None)"

subsection \<open>The reducer\<close>

text \<open>What the reducer answers: whether it accepts the event, the migration after it, and what the caller does next.\<close>

type_synonym 'a migration_decision = "bool \<times> 'a \<times> MigrationEffect option"

definition unchanged :: "'a \<Rightarrow> 'a migration_decision" where
  "unchanged m = (False, m, None)"

text \<open>An error outside the compensation: another attempt while there are any, then the compensation.\<close>

definition reduce_error :: "string \<Rightarrow> bool \<Rightarrow> 'a migration_progress_scheme \<Rightarrow> 'a migration_progress_scheme migration_decision" where
  "reduce_error step retryable m =
     (if step = ''reopen'' \<or> step = ''abort'' then
        (if map_option effect_text (pendingRecovery m) \<noteq> Some step then unchanged m
         else (True, m\<lparr>mp_state := MS_failed_needs_operator, mp_lastError := Some (''recovery_failed:'' @ step)\<rparr>, None))
      else if pendingRecovery m \<noteq> None then (True, m, pendingRecovery m)
      else if retryable \<and> mp_attempts m < 5
        then (True, m\<lparr>mp_attempts := mp_attempts m + 1, mp_lastError := Some (''retry:'' @ step)\<rparr>, Some Eff_retry)
      else (let effect = (if step = ''commit'' \<or> truthy (mp_migratedEtag m) then Eff_reopen else Eff_abort) in
        (True, m\<lparr>mp_lastError := Some (RECOVERY_PREFIX @ effect_text effect @ '':'' @ step)\<rparr>, Some effect)))"

text \<open>An event of the forward path.\<close>

fun reduce_forward :: "MigrationEvent \<Rightarrow> 'a migration_progress_scheme \<Rightarrow> 'a migration_progress_scheme migration_decision" where
  "reduce_forward ME_fresh_provision m =
     (if mp_state m = MS_requested \<and> mp_workspaceHead m = None \<and> \<not> truthy (mp_sourceEtag m) \<and> \<not> truthy (mp_generation m)
      then (True, m\<lparr>mp_state := MS_committed, mp_lastError := Some ''fresh_provision''\<rparr>, None) else unchanged m)"
| "reduce_forward (ME_fenced etag systemEtag generation) m =
     (if mp_state m = MS_requested \<and> is_uuid generation \<and> etag \<noteq> []
      then (True, m\<lparr>mp_state := MS_fenced, mp_generation := Some generation, mp_sourceEtag := Some etag,
              mp_sourceSystemEtag := systemEtag, mp_lastError := None\<rparr>, None) else unchanged m)"
| "reduce_forward (ME_exported workspaceHead systemHead) m =
     (if mp_state m = MS_fenced \<and> truthy (mp_generation m) \<and>
         head_generation workspaceHead = map_option JStr (mp_generation m) \<and>
         (mp_sourceSystemEtag m = None \<longleftrightarrow> systemHead = None)
      then (True, m\<lparr>mp_state := MS_exported, mp_workspaceHead := Some workspaceHead, mp_systemHead := systemHead,
              mp_lastError := None\<rparr>, None) else unchanged m)"
| "reduce_forward ME_provisioned m =
     (if mp_state m = MS_exported then (True, m\<lparr>mp_state := MS_provisioning, mp_lastError := None\<rparr>, None) else unchanged m)"
| "reduce_forward (ME_host_restored generation) m =
     (if mp_state m = MS_provisioning \<and> truthy (mp_generation m) \<and> Some generation = mp_generation m
      then (True, m\<lparr>mp_state := MS_restored, mp_lastError := None\<rparr>, None) else unchanged m)"
| "reduce_forward (ME_committed migratedEtag) m =
     (if mp_state m = MS_restored \<and> migratedEtag \<noteq> []
      then (True, m\<lparr>mp_state := MS_committed, mp_migratedEtag := Some migratedEtag, mp_lastError := None\<rparr>, None)
      else unchanged m)"
| "reduce_forward _ m = unchanged m"

definition reduceMigration :: "'a migration_progress_scheme \<Rightarrow> MigrationEvent \<Rightarrow> 'a migration_progress_scheme migration_decision" where
  "reduceMigration m event =
     (if mp_state m \<in> set TERMINAL_MIGRATION_STATES then unchanged m
      else case event of
        ME_error step retryable \<Rightarrow> reduce_error step retryable m
      | ME_reopened \<Rightarrow> if pendingRecovery m \<noteq> None then (True, m\<lparr>mp_state := MS_failed_reopened\<rparr>, None) else unchanged m
      | _ \<Rightarrow> if pendingRecovery m \<noteq> None then unchanged m else reduce_forward event m)"

subsection \<open>The restore lease\<close>

text \<open>The parts of a parsed URL the lease looks at; parsing (\<^verbatim>\<open>new URL\<close>) is a parameter and throws on what is no URL.\<close>

record url_parts =
  url_protocol :: string
  url_username :: string
  url_password :: string
  url_search :: string
  url_hash :: string
  url_pathname :: string
  url_origin :: string

record restore_lease =
  rl_migrationId :: string
  rl_generation :: string
  rl_system :: bool
  rl_fetchBase :: string
  rl_identityToken :: string

definition restoreFetchBase :: "(string \<Rightarrow> url_parts res) \<Rightarrow> string \<Rightarrow> string \<Rightarrow> string res" where
  "restoreFetchBase new_URL appOrigin computerId =
     (if \<not> is_uuid computerId then Inl (PlainError ''invalid migration computer'')
      else rbind (new_URL appOrigin) (\<lambda>u. Inr (url_origin u @ ''/api/compute/restore/'' @ computerId)))"

definition is_token_char :: "char \<Rightarrow> bool" where
  "is_token_char c \<longleftrightarrow> (CHR ''A'' \<le> c \<and> c \<le> CHR ''Z'') \<or> (CHR ''a'' \<le> c \<and> c \<le> CHR ''z'') \<or>
     (CHR ''0'' \<le> c \<and> c \<le> CHR ''9'') \<or> c = CHR ''_'' \<or> c = CHR ''-''"

definition lease_url_ok :: "url_parts \<Rightarrow> string \<Rightarrow> bool" where
  "lease_url_ok u computerId \<longleftrightarrow> url_protocol u \<in> {''https:'', ''http:''} \<and> url_username u = [] \<and> url_password u = [] \<and>
     url_search u = [] \<and> url_hash u = [] \<and> url_pathname u = ''/api/compute/restore/'' @ computerId"

definition restoreLeaseFor :: "(string \<Rightarrow> url_parts res) \<Rightarrow> 'a migration_progress_scheme \<Rightarrow> string \<Rightarrow> string \<Rightarrow> string \<Rightarrow> string
    \<Rightarrow> restore_lease res" where
  "restoreLeaseFor new_URL m migrationId computerId token fetchBase =
     rbind (new_URL fetchBase) (\<lambda>u.
       case (mp_generation m, mp_workspaceHead m) of
         (Some generation, Some head) \<Rightarrow>
           if mp_state m \<notin> {MS_exported, MS_provisioning} \<or> pendingRecovery m \<noteq> None \<or> generation = [] \<or>
              \<not> is_uuid migrationId \<or> \<not> is_uuid computerId \<or> \<not> is_uuid generation \<or>
              head_generation head \<noteq> Some (JStr generation) \<or>
              \<not> (length token = 43 \<and> list_all is_token_char token) \<or> \<not> lease_url_ok u computerId
           then Inl (PlainError ''invalid migration restore lease'')
           else Inr \<lparr>rl_migrationId = migrationId, rl_generation = generation, rl_system = (mp_systemHead m \<noteq> None),
                  rl_fetchBase = fetchBase, rl_identityToken = token\<rparr>
       | _ \<Rightarrow> Inl (PlainError ''invalid migration restore lease''))"


subsection \<open>What an accepted event does\<close>

definition terminal :: "'a migration_progress_scheme \<Rightarrow> bool" where
  "terminal m \<longleftrightarrow> mp_state m \<in> {MS_committed, MS_failed_reopened, MS_failed_needs_operator}"

lemma terminal_iff: "mp_state m \<in> set TERMINAL_MIGRATION_STATES \<longleftrightarrow> terminal m"
  by (auto simp: TERMINAL_MIGRATION_STATES_def terminal_def)

lemma pending_texts [simp]:
  "mp_lastError m = None \<Longrightarrow> pendingRecovery m = None"
  "mp_lastError m = Some ''fresh_provision'' \<Longrightarrow> pendingRecovery m = None"
  "mp_lastError m = Some (''retry:'' @ step) \<Longrightarrow> pendingRecovery m = None"
  "mp_lastError m = Some (''recovery_failed:'' @ step) \<Longrightarrow> pendingRecovery m = None"
  "mp_lastError m = Some (RECOVERY_PREFIX @ ''abort'' @ '':'' @ step) \<Longrightarrow> pendingRecovery m = Some Eff_abort"
  "mp_lastError m = Some (RECOVERY_PREFIX @ ''reopen'' @ '':'' @ step) \<Longrightarrow> pendingRecovery m = Some Eff_reopen"
  by (simp_all add: pendingRecovery_def RECOVERY_PREFIX_def starts_with_def)

lemma pendingRecovery_effect: "pendingRecovery m = Some e \<Longrightarrow> e = Eff_abort \<or> e = Eff_reopen"
  by (auto simp: pendingRecovery_def split: option.splits if_splits)

lemma pendingRecovery_state [simp]: "pendingRecovery (m\<lparr>mp_state := s\<rparr>) = pendingRecovery m"
  by (simp add: pendingRecovery_def)


subsection \<open>Well-formed migrations\<close>

text \<open>
  What each state promises: nothing is recorded before the fence, the fence fixes a generation and the
  source's version, an exported head carries that generation, and only a commit records the version the
  source was left at.
\<close>

definition nothing_recorded :: "'a migration_progress_scheme \<Rightarrow> bool" where
  "nothing_recorded m \<longleftrightarrow> mp_generation m = None \<and> mp_sourceEtag m = None \<and> mp_sourceSystemEtag m = None \<and>
     mp_workspaceHead m = None \<and> mp_systemHead m = None \<and> mp_migratedEtag m = None"

definition source_fenced :: "'a migration_progress_scheme \<Rightarrow> bool" where
  "source_fenced m \<longleftrightarrow> (\<exists>g. mp_generation m = Some g \<and> is_uuid g) \<and> truthy (mp_sourceEtag m)"

definition snapshot_bound :: "'a migration_progress_scheme \<Rightarrow> bool" where
  "snapshot_bound m \<longleftrightarrow> source_fenced m \<and>
     (\<exists>h. mp_workspaceHead m = Some h \<and> head_generation h = map_option JStr (mp_generation m)) \<and>
     (mp_sourceSystemEtag m = None \<longleftrightarrow> mp_systemHead m = None)"

definition stage_ok :: "'a migration_progress_scheme \<Rightarrow> bool" where
  "stage_ok m = (case mp_state m of
     MS_requested \<Rightarrow> nothing_recorded m
   | MS_fenced \<Rightarrow> source_fenced m \<and> mp_workspaceHead m = None \<and> mp_systemHead m = None \<and> mp_migratedEtag m = None
   | MS_exported \<Rightarrow> snapshot_bound m \<and> mp_migratedEtag m = None
   | MS_provisioning \<Rightarrow> snapshot_bound m \<and> mp_migratedEtag m = None
   | MS_restored \<Rightarrow> snapshot_bound m \<and> mp_migratedEtag m = None
   | MS_committed \<Rightarrow> (if mp_lastError m = Some ''fresh_provision'' then nothing_recorded m
       else snapshot_bound m \<and> truthy (mp_migratedEtag m))
   | MS_failed_reopened \<Rightarrow> mp_migratedEtag m = None
   | MS_failed_needs_operator \<Rightarrow> mp_migratedEtag m = None)"

definition mig_ok :: "'a migration_progress_scheme \<Rightarrow> bool" where
  "mig_ok m \<longleftrightarrow> stage_ok m \<and> 0 \<le> mp_attempts m \<and> mp_attempts m \<le> 5"

lemmas stage_defs = stage_ok_def nothing_recorded_def source_fenced_def snapshot_bound_def

lemma not_uuid_Nil [simp]: "\<not> is_uuid []"
  by (simp add: is_uuid_def uuid_pattern_def)

lemma uuid_truthy: "is_uuid g \<Longrightarrow> g \<noteq> []"
  by auto

text \<open>The error and the count of a live migration, and only those, may change without another promise.\<close>

lemma recorded_updates [simp]:
  "nothing_recorded (m\<lparr>mp_lastError := e\<rparr>) = nothing_recorded m" "nothing_recorded (m\<lparr>mp_attempts := n\<rparr>) = nothing_recorded m"
  "nothing_recorded (m\<lparr>mp_state := st\<rparr>) = nothing_recorded m"
  "source_fenced (m\<lparr>mp_lastError := e\<rparr>) = source_fenced m" "source_fenced (m\<lparr>mp_attempts := n\<rparr>) = source_fenced m"
  "source_fenced (m\<lparr>mp_state := st\<rparr>) = source_fenced m"
  "snapshot_bound (m\<lparr>mp_lastError := e\<rparr>) = snapshot_bound m" "snapshot_bound (m\<lparr>mp_attempts := n\<rparr>) = snapshot_bound m"
  "snapshot_bound (m\<lparr>mp_state := st\<rparr>) = snapshot_bound m"
  by (simp_all add: nothing_recorded_def source_fenced_def snapshot_bound_def)

lemma stage_live_update:
  assumes "\<not> terminal m"
  shows "stage_ok (m\<lparr>mp_lastError := e\<rparr>) = stage_ok m" and "stage_ok (m\<lparr>mp_attempts := n, mp_lastError := e\<rparr>) = stage_ok m"
  using assms by (cases "mp_state m"; simp add: stage_ok_def terminal_def)+

lemma stage_live_migratedEtag: "\<not> terminal m \<Longrightarrow> stage_ok m \<Longrightarrow> mp_migratedEtag m = None"
  by (cases "mp_state m") (simp_all add: stage_ok_def nothing_recorded_def terminal_def)

lemma reduce_error_cases:
  assumes "reduce_error step retryable m = (True, m', eff)"
  obtains (stuck) "m' = m\<lparr>mp_state := MS_failed_needs_operator, mp_lastError := Some (''recovery_failed:'' @ step)\<rparr>"
    | (pending) "m' = m" "pendingRecovery m \<noteq> None" "eff = pendingRecovery m"
    | (again) "mp_attempts m < 5" "m' = m\<lparr>mp_attempts := mp_attempts m + 1, mp_lastError := Some (''retry:'' @ step)\<rparr>"
        "pendingRecovery m = None"
    | (undo) e where "m' = m\<lparr>mp_lastError := Some (RECOVERY_PREFIX @ effect_text e @ '':'' @ step)\<rparr>"
        "e = (if step = ''commit'' \<or> truthy (mp_migratedEtag m) then Eff_reopen else Eff_abort)" "pendingRecovery m = None"
proof (cases "step = ''reopen'' \<or> step = ''abort''")
  case True
  then show ?thesis using assms by (intro stuck) (simp add: reduce_error_def unchanged_def split: if_splits)
next
  case step: False
  show ?thesis
  proof (cases "pendingRecovery m = None")
    case True
    note none = this
    show ?thesis
    proof (cases "retryable \<and> mp_attempts m < 5")
      case True
      then show ?thesis using assms step none by (intro again) (simp_all add: reduce_error_def)
    next
      case False
      then have no: "(retryable \<and> mp_attempts m < 5) = False" by blast
      show ?thesis using assms step none unfolding reduce_error_def no Let_def by (intro undo [OF _ refl none]) (simp split: if_splits)
    qed
  next
    case False
    with assms step have "m' = m \<and> eff = pendingRecovery m" by (simp add: reduce_error_def) blast
    with False pending show ?thesis by blast
  qed
qed

lemma reduce_error_stage:
  assumes r: "reduce_error step retryable m = (True, m', eff)" and ok: "mig_ok m" and live: "\<not> terminal m"
  shows "mig_ok m'"
  using r
proof (cases rule: reduce_error_cases)
  case stuck
  with ok live show ?thesis by (simp add: mig_ok_def stage_ok_def stage_live_migratedEtag)
next
  case (undo e)
  have "stage_ok m' = stage_ok m" "mp_attempts m' = mp_attempts m" unfolding undo by (simp_all only: stage_live_update [OF live]) simp
  with ok show ?thesis by (simp add: mig_ok_def)
qed (use ok in \<open>simp_all add: mig_ok_def stage_live_update live\<close>)

lemma reduce_forward_stage:
  assumes "reduce_forward event m = (True, m', eff)" and "mig_ok m"
  shows "mig_ok m'"
proof (cases event)
  case ME_fresh_provision
  then show ?thesis using assms by (auto simp: unchanged_def mig_ok_def stage_ok_def nothing_recorded_def split: if_splits)
next
  case ME_fenced
  then show ?thesis using assms
    by (auto simp: unchanged_def mig_ok_def stage_ok_def source_fenced_def nothing_recorded_def truthy_def simp del: recorded_updates split: if_splits)
next
  case ME_exported
  then show ?thesis using assms
    by (auto simp: unchanged_def mig_ok_def stage_ok_def source_fenced_def snapshot_bound_def split: if_splits)
next
  case ME_provisioned
  then show ?thesis using assms by (auto simp: unchanged_def mig_ok_def stage_ok_def source_fenced_def snapshot_bound_def split: if_splits)
next
  case ME_host_restored
  then show ?thesis using assms by (auto simp: unchanged_def mig_ok_def stage_ok_def source_fenced_def snapshot_bound_def split: if_splits)
next
  case ME_committed
  then show ?thesis using assms by (auto simp: unchanged_def mig_ok_def stage_ok_def source_fenced_def snapshot_bound_def truthy_def split: if_splits)
qed (use assms in \<open>simp_all add: unchanged_def\<close>)

lemma reduce_live:
  "terminal m \<Longrightarrow> reduceMigration m event = unchanged m"
  "\<not> terminal m \<Longrightarrow> reduceMigration m (ME_error step retryable) = reduce_error step retryable m"
  "\<not> terminal m \<Longrightarrow> reduceMigration m ME_reopened =
     (if pendingRecovery m \<noteq> None then (True, m\<lparr>mp_state := MS_failed_reopened\<rparr>, None) else unchanged m)"
  by (simp_all add: reduceMigration_def terminal_iff)

lemma reduce_live_forward:
  "\<not> terminal m \<Longrightarrow> \<forall>step retryable. event \<noteq> ME_error step retryable \<Longrightarrow> event \<noteq> ME_reopened \<Longrightarrow>
     reduceMigration m event = (if pendingRecovery m \<noteq> None then unchanged m else reduce_forward event m)"
  unfolding reduceMigration_def terminal_iff by (cases event; simp only: MigrationEvent.simps if_False simp_thms; blast?)

lemma migration_event_cases:
  obtains (error) step retryable where "event = ME_error step retryable"
    | (reopened) "event = ME_reopened"
    | (forward) "\<forall>step retryable. event \<noteq> ME_error step retryable" "event \<noteq> ME_reopened"
  by (cases event) auto

lemma reduce_stage:
  assumes "reduceMigration m event = (True, m', eff)" and "mig_ok m"
  shows "mig_ok m'"
proof (cases "terminal m")
  case True
  with assms show ?thesis by (simp add: reduce_live unchanged_def)
next
  case False
  show ?thesis
  proof (cases event rule: migration_event_cases)
    case (error step retryable)
    with False assms reduce_error_stage show ?thesis by (simp add: reduce_live)
  next
    case reopened
    have "mp_migratedEtag m = None"
      using False assms(2) by (cases "mp_state m") (simp_all add: mig_ok_def stage_defs terminal_def)
    with reopened False assms show ?thesis by (auto simp: reduce_live unchanged_def mig_ok_def stage_ok_def split: if_splits)
  next
    case forward
    then show ?thesis
      using assms reduce_forward_stage [of event m m' eff] by (auto simp: reduce_live_forward [OF False] unchanged_def split: if_splits)
  qed
qed

lemma reduce_rejects: "reduceMigration m event = (False, m', eff) \<Longrightarrow> m' = m \<and> eff = None"
  by (cases event) (auto simp: reduceMigration_def reduce_error_def unchanged_def Let_def split: if_splits)

lemma reduce_mig_ok: "mig_ok m \<Longrightarrow> mig_ok (fst (snd (reduceMigration m event)))"
  using reduce_stage [of m event] reduce_rejects [of m event]
  by (cases "reduceMigration m event") (metis fst_conv snd_conv)


subsection \<open>The phase diagram\<close>

text \<open>
  What a reader of the migration is told: it works at one state with a count of failed attempts, it is being
  undone one way or the other, or it has ended. The step relation is the diagram of the design.
\<close>

datatype phase = Working MigrationState int | Undoing MigrationEffect | Ended MigrationState

definition phase_of :: "'a migration_progress_scheme \<Rightarrow> phase" where
  "phase_of m = (if terminal m then Ended (mp_state m)
     else case pendingRecovery m of Some e \<Rightarrow> Undoing e | None \<Rightarrow> Working (mp_state m) (mp_attempts m))"

fun next_state :: "MigrationState \<Rightarrow> MigrationState option" where
  "next_state MS_requested = Some MS_fenced"
| "next_state MS_fenced = Some MS_exported"
| "next_state MS_exported = Some MS_provisioning"
| "next_state MS_provisioning = Some MS_restored"
| "next_state _ = None"

inductive phase_step :: "phase \<Rightarrow> phase \<Rightarrow> bool" where
  forward: "next_state st = Some st' \<Longrightarrow> phase_step (Working st n) (Working st' n)"
| commit: "phase_step (Working MS_restored n) (Ended MS_committed)"
| fresh: "phase_step (Working MS_requested n) (Ended MS_committed)"
| retry: "n < 5 \<Longrightarrow> phase_step (Working st n) (Working st (n + 1))"
| compensate: "e = Eff_abort \<or> e = Eff_reopen \<Longrightarrow> phase_step (Working st n) (Undoing e)"
| undone: "phase_step (Undoing e) (Ended MS_failed_reopened)"
| stuck: "phase_step (Undoing e) (Ended MS_failed_needs_operator)"

inductive_simps step_from_working: "phase_step (Working st n) p"
inductive_simps step_from_undoing: "phase_step (Undoing e) p"
inductive_cases step_from_ended: "phase_step (Ended st) p"

text \<open>Every step uses up a failed attempt, a state or the way back.\<close>

fun state_rank :: "MigrationState \<Rightarrow> nat" where
  "state_rank MS_requested = 5"
| "state_rank MS_fenced = 4"
| "state_rank MS_exported = 3"
| "state_rank MS_provisioning = 2"
| "state_rank MS_restored = 1"
| "state_rank _ = 0"

fun phase_rank :: "phase \<Rightarrow> nat" where
  "phase_rank (Working st n) = 1 + state_rank st + nat (5 - n)"
| "phase_rank (Undoing e) = 1"
| "phase_rank (Ended st) = 0"

lemma next_state_rank: "next_state st = Some st' \<Longrightarrow> state_rank st = Suc (state_rank st')"
  by (cases st) auto

text \<open>A migration works only at a state that is not terminal, so its rank is above that of a way back.\<close>

definition phase_ok :: "phase \<Rightarrow> bool" where
  "phase_ok p = (case p of Working st n \<Rightarrow> st \<in> {MS_requested, MS_fenced, MS_exported, MS_provisioning, MS_restored} | _ \<Rightarrow> True)"

lemma phase_step_rank: "phase_step p q \<Longrightarrow> phase_ok p \<Longrightarrow> phase_rank q < phase_rank p"
  by (induction rule: phase_step.induct) (auto simp: phase_ok_def next_state_rank)

lemma phase_of_ok [simp]: "phase_ok (phase_of m)"
  by (cases "mp_state m") (auto simp: phase_of_def phase_ok_def terminal_def split: option.splits)

lemma phase_of_update [simp]:
  "phase_of (m\<lparr>mp_state := MS_failed_needs_operator, mp_lastError := e\<rparr>) = Ended MS_failed_needs_operator"
  "phase_of (m\<lparr>mp_state := MS_failed_reopened\<rparr>) = Ended MS_failed_reopened"
  by (simp_all add: phase_of_def terminal_def)

lemma phase_of_cases:
  obtains (ended) "terminal m" "phase_of m = Ended (mp_state m)"
    | (undoing) e where "\<not> terminal m" "pendingRecovery m = Some e" "phase_of m = Undoing e"
    | (working) "\<not> terminal m" "pendingRecovery m = None" "phase_of m = Working (mp_state m) (mp_attempts m)"
  by (cases "terminal m"; cases "pendingRecovery m") (auto simp: phase_of_def)

lemma reduce_error_phase:
  assumes "reduce_error step retryable m = (True, m', eff)" and live: "\<not> terminal m"
  shows "phase_step (phase_of m) (phase_of m') \<or> m' = m \<and> pendingRecovery m \<noteq> None \<and> eff = pendingRecovery m"
proof (cases "pendingRecovery m")
  case None
  then have pm: "phase_of m = Working (mp_state m) (mp_attempts m)" using live by (simp add: phase_of_def)
  from None assms(1) have st: "step \<noteq> ''reopen'' \<and> step \<noteq> ''abort''" by (auto simp: reduce_error_def unchanged_def split: if_splits)
  show ?thesis
  proof (cases "retryable \<and> mp_attempts m < 5")
    case True
    with None st assms have "m' = m\<lparr>mp_attempts := mp_attempts m + 1, mp_lastError := Some (''retry:'' @ step)\<rparr>" by (simp add: reduce_error_def)
    then have "phase_of m' = Working (mp_state m) (mp_attempts m + 1)" using live by (simp add: phase_of_def terminal_def)
    with pm True show ?thesis by (simp add: phase_step.retry)
  next
    case False
    define e where "e = (if step = ''commit'' \<or> truthy (mp_migratedEtag m) then Eff_reopen else Eff_abort)"
    with None st assms False have "m' = m\<lparr>mp_lastError := Some (RECOVERY_PREFIX @ effect_text e @ '':'' @ step)\<rparr>"
      by (simp add: reduce_error_def Let_def)
    then have "phase_of m' = Undoing e" using live by (simp add: phase_of_def terminal_def e_def)
    with pm show ?thesis by (simp add: e_def phase_step.compensate)
  qed
next
  case (Some e)
  then have pm: "phase_of m = Undoing e" using live by (simp add: phase_of_def)
  show ?thesis
  proof (cases "step = ''reopen'' \<or> step = ''abort''")
    case True
    with Some assms have "m' = m\<lparr>mp_state := MS_failed_needs_operator, mp_lastError := Some (''recovery_failed:'' @ step)\<rparr>"
      by (auto simp: reduce_error_def unchanged_def split: if_splits)
    with pm show ?thesis by (simp add: phase_step.stuck)
  next
    case False
    with Some assms show ?thesis by (auto simp: reduce_error_def)
  qed
qed

lemma reduce_forward_phase:
  assumes "reduce_forward event m = (True, m', eff)" and "pendingRecovery m = None"
  shows "phase_step (phase_of m) (phase_of m')"
  using assms
  by (cases event) (auto simp: unchanged_def phase_of_def terminal_def step_from_working split: if_splits)

lemma reduce_phase:
  assumes "reduceMigration m event = (True, m', eff)"
  shows "phase_step (phase_of m) (phase_of m') \<or> m' = m \<and> pendingRecovery m \<noteq> None \<and> eff = pendingRecovery m"
proof (cases "terminal m")
  case True
  with assms show ?thesis by (simp add: reduce_live unchanged_def)
next
  case live: False
  show ?thesis
  proof (cases event rule: migration_event_cases)
    case (error step retryable)
    with live assms reduce_error_phase show ?thesis by (simp add: reduce_live)
  next
    case reopened
    with live assms show ?thesis by (auto simp: reduce_live unchanged_def phase_of_def [of m] phase_step.undone split: if_splits)
  next
    case forward
    then show ?thesis
      using assms reduce_forward_phase [of event m m' eff] by (auto simp: reduce_live_forward [OF live] unchanged_def split: if_splits)
  qed
qed


text \<open>Every step of the diagram is taken by some event.\<close>

lemma forward_event:
  assumes "mig_ok m" and "\<not> terminal m" and "pendingRecovery m = None" and "next_state (mp_state m) = Some st'"
  shows "\<exists>event. fst (reduceMigration m event) \<and> phase_of (fst (snd (reduceMigration m event))) = Working st' (mp_attempts m)"
proof -
  define event where "event = (case mp_state m of
      MS_requested \<Rightarrow> ME_fenced ''e'' None ''00000000-0000-0000-0000-000000000000''
    | MS_fenced \<Rightarrow> ME_exported [(''generation'', JStr (the (mp_generation m)))] (if mp_sourceSystemEtag m = None then None else Some [])
    | MS_exported \<Rightarrow> ME_provisioned
    | _ \<Rightarrow> ME_host_restored (the (mp_generation m)))"
  have u: "is_uuid ''00000000-0000-0000-0000-000000000000''" by code_simp
  have f: "\<forall>step retryable. event \<noteq> ME_error step retryable" "event \<noteq> ME_reopened"
    using assms(4) by (cases "mp_state m"; simp add: event_def)+
  have "fst (reduce_forward event m) \<and> phase_of (fst (snd (reduce_forward event m))) = Working st' (mp_attempts m)"
  proof (cases "mp_state m")
    case MS_requested
    with assms(4) u show ?thesis by (simp add: event_def phase_of_def terminal_def)
  next
    case MS_fenced
    with assms(1,4) show ?thesis
      by (auto simp: event_def phase_of_def terminal_def mig_ok_def stage_ok_def source_fenced_def head_generation_def member_of_def
          truthy_def uuid_truthy)
  next
    case MS_exported
    with assms(4) show ?thesis by (simp add: event_def phase_of_def terminal_def)
  next
    case MS_provisioning
    with assms(1,4) show ?thesis
      by (auto simp: event_def phase_of_def terminal_def mig_ok_def stage_ok_def snapshot_bound_def source_fenced_def truthy_def uuid_truthy)
  qed (use assms(4) in simp_all)
  then show ?thesis using assms(3) by (intro exI [of _ event]) (simp add: reduce_live_forward [OF assms(2) f])
qed

lemma end_event:
  assumes "mig_ok m" and "\<not> terminal m" and "pendingRecovery m = None"
  shows "mp_state m = MS_restored \<Longrightarrow> fst (reduceMigration m (ME_committed ''e'')) \<and>
      phase_of (fst (snd (reduceMigration m (ME_committed ''e'')))) = Ended MS_committed"
    and "mp_state m = MS_requested \<Longrightarrow> fst (reduceMigration m ME_fresh_provision) \<and>
      phase_of (fst (snd (reduceMigration m ME_fresh_provision))) = Ended MS_committed"
  using assms by (simp_all add: reduce_live_forward phase_of_def terminal_def mig_ok_def stage_ok_def nothing_recorded_def truthy_def)

lemma error_event:
  assumes "\<not> terminal m" and "pendingRecovery m = None"
  shows "mp_attempts m < 5 \<Longrightarrow> fst (reduceMigration m (ME_error ''begin'' True)) \<and>
      phase_of (fst (snd (reduceMigration m (ME_error ''begin'' True)))) = Working (mp_state m) (mp_attempts m + 1)"
    and "fst (reduceMigration m (ME_error ''commit'' False)) \<and>
      phase_of (fst (snd (reduceMigration m (ME_error ''commit'' False)))) = Undoing Eff_reopen"
    and "mp_migratedEtag m = None \<Longrightarrow> fst (reduceMigration m (ME_error ''begin'' False)) \<and>
      phase_of (fst (snd (reduceMigration m (ME_error ''begin'' False)))) = Undoing Eff_abort"
proof -
  have t: "\<not> terminal (m\<lparr>mp_lastError := e\<rparr>)" "\<not> terminal (m\<lparr>mp_attempts := n, mp_lastError := e\<rparr>)" for e n
    using assms(1) by (simp_all add: terminal_def)
  show "mp_attempts m < 5 \<Longrightarrow> fst (reduceMigration m (ME_error ''begin'' True)) \<and>
      phase_of (fst (snd (reduceMigration m (ME_error ''begin'' True)))) = Working (mp_state m) (mp_attempts m + 1)"
    using assms t by (simp add: reduce_live reduce_error_def phase_of_def pendingRecovery_def RECOVERY_PREFIX_def starts_with_def)
  show "fst (reduceMigration m (ME_error ''commit'' False)) \<and>
      phase_of (fst (snd (reduceMigration m (ME_error ''commit'' False)))) = Undoing Eff_reopen"
    using assms t by (simp add: reduce_live reduce_error_def phase_of_def pendingRecovery_def RECOVERY_PREFIX_def starts_with_def)
  show "mp_migratedEtag m = None \<Longrightarrow> fst (reduceMigration m (ME_error ''begin'' False)) \<and>
      phase_of (fst (snd (reduceMigration m (ME_error ''begin'' False)))) = Undoing Eff_abort"
    using assms t by (simp add: reduce_live reduce_error_def phase_of_def truthy_def pendingRecovery_def RECOVERY_PREFIX_def starts_with_def)
qed

lemma undo_event:
  assumes "\<not> terminal m" and "pendingRecovery m = Some e"
  shows "fst (reduceMigration m ME_reopened) \<and> phase_of (fst (snd (reduceMigration m ME_reopened))) = Ended MS_failed_reopened"
    and "fst (reduceMigration m (ME_error (effect_text e) False)) \<and>
      phase_of (fst (snd (reduceMigration m (ME_error (effect_text e) False)))) = Ended MS_failed_needs_operator"
  using assms pendingRecovery_effect [OF assms(2)] by (auto simp: reduce_live reduce_error_def)

lemma phase_step_taken:
  assumes ok: "mig_ok m" and step: "phase_step (phase_of m) p"
  shows "\<exists>event. fst (reduceMigration m event) \<and> phase_of (fst (snd (reduceMigration m event))) = p"
proof (cases m rule: phase_of_cases)
  case ended
  with step show ?thesis by (auto elim: step_from_ended)
next
  case (undoing e)
  from step undoing(3) consider "p = Ended MS_failed_reopened" | "p = Ended MS_failed_needs_operator"
    by (auto simp: step_from_undoing)
  then show ?thesis using undo_event [OF undoing(1,2)] by cases blast+
next
  case working
  note w = working(1,2)
  from ok w(1) have "mp_migratedEtag m = None" by (simp add: mig_ok_def stage_live_migratedEtag)
  note ev = end_event [OF ok w] error_event(1,2) [OF w] error_event(3) [OF w this]
  from step working(3) consider st' where "next_state (mp_state m) = Some st'" "p = Working st' (mp_attempts m)"
    | "mp_state m = MS_restored" "p = Ended MS_committed" | "mp_state m = MS_requested" "p = Ended MS_committed"
    | "mp_attempts m < 5" "p = Working (mp_state m) (mp_attempts m + 1)" | "p = Undoing Eff_abort" | "p = Undoing Eff_reopen"
    by (auto simp: step_from_working)
  then show ?thesis
  proof cases
    case 1
    with forward_event [OF ok w] show ?thesis by blast
  qed (use ev in blast)+
qed

subsection \<open>Runs\<close>

text \<open>A migration over a sequence of events, and how many of them moved it.\<close>

primrec migrate :: "'a migration_progress_scheme \<Rightarrow> MigrationEvent list \<Rightarrow> 'a migration_progress_scheme" where
  "migrate m [] = m"
| "migrate m (e # es) = migrate (fst (snd (reduceMigration m e))) es"

primrec moves :: "'a migration_progress_scheme \<Rightarrow> MigrationEvent list \<Rightarrow> nat" where
  "moves m [] = 0"
| "moves m (e # es) = (let m' = fst (snd (reduceMigration m e)) in (if m' \<noteq> m then 1 else 0) + moves m' es)"

lemma migrate_mig_ok: "mig_ok m \<Longrightarrow> mig_ok (migrate m es)"
  by (induction es arbitrary: m) (auto simp: reduce_mig_ok)

lemma reduce_moves: "fst (snd (reduceMigration m e)) = m \<or> phase_step (phase_of m) (phase_of (fst (snd (reduceMigration m e))))"
  using reduce_phase [of m e] reduce_rejects [of m e] by (cases "reduceMigration m e"; cases "fst (reduceMigration m e)") auto

lemma moves_rank: "moves m es \<le> phase_rank (phase_of m)"
proof (induction es arbitrary: m)
  case (Cons e es)
  let ?m = "fst (snd (reduceMigration m e))"
  have "moves ?m es \<le> phase_rank (phase_of ?m)" by (rule Cons)
  then show ?case using reduce_moves [of m e] phase_step_rank [of "phase_of m" "phase_of ?m"] by (auto simp: Let_def)
qed simp

lemma phase_rank_bound: "mig_ok m \<Longrightarrow> phase_rank (phase_of m) \<le> 11"
  by (cases m rule: phase_of_cases; cases "mp_state m") (auto simp: mig_ok_def)


subsection \<open>Properties\<close>

definition new_migration :: migration_progress where
  "new_migration = \<lparr>mp_state = MS_requested, mp_generation = None, mp_sourceEtag = None, mp_sourceSystemEtag = None,
     mp_workspaceHead = None, mp_systemHead = None, mp_migratedEtag = None, mp_attempts = 0, mp_lastError = None\<rparr>"

lemma new_migration_ok [simp]: "mig_ok new_migration"
  by (simp add: new_migration_def mig_ok_def stage_ok_def nothing_recorded_def)

text \<open>C22: the migration reducer implements the phase diagram exactly: an accepted event either takes a step of the
  diagram or repeats a compensation that is still pending and changes nothing, a rejected event changes nothing,
  and every step the diagram allows is taken by some event.\<close>

theorem migration_refines_diagram:
  assumes "mig_ok m"
  shows "(\<forall>event. case reduceMigration m event of (accepted, m', effect) \<Rightarrow>
      if m' = m then accepted \<longrightarrow> pendingRecovery m \<noteq> None \<and> effect = pendingRecovery m
      else accepted \<and> phase_step (phase_of m) (phase_of m')) \<and>
    (\<forall>p. phase_step (phase_of m) p \<longrightarrow> (\<exists>event. fst (reduceMigration m event) \<and> phase_of (fst (snd (reduceMigration m event))) = p))"
proof (intro conjI allI impI)
  fix event
  obtain a m' eff where r: "reduceMigration m event = (a, m', eff)" by (cases "reduceMigration m event")
  have irrefl: "\<not> phase_step (phase_of m) (phase_of m)" using phase_step_rank [of "phase_of m" "phase_of m"] by auto
  show "case reduceMigration m event of (accepted, m', effect) \<Rightarrow>
      if m' = m then accepted \<longrightarrow> pendingRecovery m \<noteq> None \<and> effect = pendingRecovery m
      else accepted \<and> phase_step (phase_of m) (phase_of m')"
    using r irrefl reduce_phase [of m event m' eff] reduce_rejects [of m event m' eff] by (cases a) auto
qed (use assms phase_step_taken in blast)

theorem migration_refines_diagram_witness:
  "\<exists>event. fst (reduceMigration new_migration event) \<and> phase_of (fst (snd (reduceMigration new_migration event))) = Undoing Eff_reopen"
proof -
  have p: "phase_of new_migration = Working MS_requested 0" by (simp add: phase_of_def new_migration_def terminal_def)
  have "phase_step (phase_of new_migration) (Undoing Eff_reopen)" unfolding p by (simp add: phase_step.compensate)
  with migration_refines_diagram [OF new_migration_ok] show ?thesis by blast
qed

text \<open>C33: a migration ends: whatever the events are, at most eleven of them change it, and as long as it has not
  ended some event does.\<close>

theorem migration_ends:
  assumes "mig_ok m"
  shows "moves m es \<le> 11 \<and> (terminal (migrate m es) \<or> (\<exists>event. moves (migrate m es) [event] = 1))"
proof
  show "moves m es \<le> 11" using moves_rank [of m es] phase_rank_bound [OF assms] by linarith
  let ?m = "migrate m es"
  have ok: "mig_ok ?m" using assms by (rule migrate_mig_ok)
  have "\<exists>p. phase_step (phase_of ?m) p" if "\<not> terminal ?m"
    using that by (cases ?m rule: phase_of_cases) (auto intro: phase_step.undone phase_step.compensate)
  moreover have "fst (snd (reduceMigration ?m event)) \<noteq> ?m" if "phase_step (phase_of ?m) (phase_of (fst (snd (reduceMigration ?m event))))" for event
    using phase_step_rank [OF that phase_of_ok] by auto
  ultimately show "terminal ?m \<or> (\<exists>event. moves ?m [event] = 1)"
    using phase_step_taken [OF ok] by (simp add: Let_def) metis
qed

theorem migration_ends_witness:
  "moves new_migration (replicate 20 (ME_error ''begin'' True)) \<le> 11 \<and>
   migrate new_migration (replicate 20 (ME_error ''begin'' True)) = new_migration\<lparr>mp_attempts := 5, mp_lastError := Some ''recovery:abort:begin''\<rparr>"
proof
  show "moves new_migration (replicate 20 (ME_error ''begin'' True)) \<le> 11"
    using migration_ends [OF new_migration_ok, of "replicate 20 (ME_error ''begin'' True)"] by (rule conjunct1)
qed code_simp

text \<open>C26: a migration that commits is bound to one snapshot: over any events, a new migration commits only with
  nothing recorded (there was no workspace to copy) or with the fenced source version, a workspace head and a
  system head of the fenced generation, and the version the source was left at; one that fails has recorded no
  version of a committed source.\<close>

theorem committed_migration_bound:
  "let m = migrate new_migration es in
     (mp_state m = MS_committed \<longrightarrow>
        mp_lastError m = Some ''fresh_provision'' \<and> nothing_recorded m \<or> snapshot_bound m \<and> truthy (mp_migratedEtag m)) \<and>
     (mp_state m \<in> {MS_failed_reopened, MS_failed_needs_operator} \<longrightarrow> mp_migratedEtag m = None)"
  using migrate_mig_ok [OF new_migration_ok, of es] by (auto simp: Let_def mig_ok_def stage_ok_def split: if_splits)

theorem committed_migration_bound_witness:
  "let m = migrate new_migration [ME_fenced ''e'' None ''00000000-0000-0000-0000-000000000000'',
        ME_exported [(''generation'', JStr ''00000000-0000-0000-0000-000000000000'')] None, ME_provisioned,
        ME_host_restored ''00000000-0000-0000-0000-000000000000'', ME_committed ''f''] in
     mp_state m = MS_committed \<and> snapshot_bound m"
proof -
  let ?es = "[ME_fenced ''e'' None ''00000000-0000-0000-0000-000000000000'',
        ME_exported [(''generation'', JStr ''00000000-0000-0000-0000-000000000000'')] None, ME_provisioned,
        ME_host_restored ''00000000-0000-0000-0000-000000000000'', ME_committed ''f'']"
  have "mp_state (migrate new_migration ?es) = MS_committed" "mp_lastError (migrate new_migration ?es) = None" by code_simp+
  with committed_migration_bound [of ?es] show ?thesis by (simp add: Let_def)
qed

lemma restoreLease_Inr:
  assumes "restoreLeaseFor new_URL m migrationId computerId token fetchBase = Inr lease"
  shows "mp_state m \<in> {MS_exported, MS_provisioning}" and "pendingRecovery m = None" and "mp_generation m = Some (rl_generation lease)"
    and "rl_migrationId lease = migrationId" and "is_uuid (rl_generation lease)" and "rl_identityToken lease = token"
    and "\<exists>u. new_URL (rl_fetchBase lease) = Inr u \<and> lease_url_ok u computerId"
proof -
  from assms obtain u where u: "new_URL fetchBase = Inr u" by (auto simp: restoreLeaseFor_def)
  obtain g h where gh: "mp_generation m = Some g" "mp_workspaceHead m = Some h"
    using assms u by (cases "mp_generation m"; cases "mp_workspaceHead m") (auto simp: restoreLeaseFor_def)
  have c: "\<not> (mp_state m \<notin> {MS_exported, MS_provisioning} \<or> pendingRecovery m \<noteq> None \<or> g = [] \<or>
       \<not> is_uuid migrationId \<or> \<not> is_uuid computerId \<or> \<not> is_uuid g \<or> head_generation h \<noteq> Some (JStr g) \<or>
       \<not> (length token = 43 \<and> list_all is_token_char token) \<or> \<not> lease_url_ok u computerId)"
    using assms u gh unfolding restoreLeaseFor_def by (simp split: if_splits)
  then have l: "lease = \<lparr>rl_migrationId = migrationId, rl_generation = g, rl_system = (mp_systemHead m \<noteq> None),
      rl_fetchBase = fetchBase, rl_identityToken = token\<rparr>"
    using assms u gh unfolding restoreLeaseFor_def by (simp split: if_splits)
  from c show "mp_state m \<in> {MS_exported, MS_provisioning}" "pendingRecovery m = None" by auto
  from c gh l u show "mp_generation m = Some (rl_generation lease)" "rl_migrationId lease = migrationId"
    "is_uuid (rl_generation lease)" "rl_identityToken lease = token"
    "\<exists>u. new_URL (rl_fetchBase lease) = Inr u \<and> lease_url_ok u computerId" by auto
qed

end
