(* ===== verification/Fences.thy ===== *)
theory Fences
  imports Tables
begin

text \<open>
  Optimistic concurrency over a table. A worker reads a row, acts, and writes only where the row still
  matches the copy it read (its fence). The contract of such a table: how a row may evolve, and that a row
  that evolved from a copy and still matches its fence is the copy. The lemmas say what a client relies on:
  a copy stays the ancestor of its row whatever other sessions write, and a fenced write acts on
  exactly the row the worker has read.
\<close>

locale fenced_table =
  fixes key :: "'r \<Rightarrow> 'k" and evolves :: "'r \<Rightarrow> 'r \<Rightarrow> bool" and fence :: "'r \<Rightarrow> 'r \<Rightarrow> bool" and same :: "'r \<Rightarrow> 'r \<Rightarrow> bool"
  assumes evolves_refl: "evolves r r"
    and evolves_trans: "evolves a b \<Longrightarrow> evolves b c \<Longrightarrow> evolves a c"
    and evolves_key: "evolves a b \<Longrightarrow> key b = key a"
    and fence_key: "fence c r \<Longrightarrow> key r = key c"
    and fence_same: "evolves c r \<Longrightarrow> fence c r \<Longrightarrow> same c r"
begin

definition tracked :: "'r list \<Rightarrow> 'r \<Rightarrow> bool" where
  "tracked rows c \<longleftrightarrow> (\<exists>r \<in> set rows. evolves c r)"

definition grows :: "'r list \<Rightarrow> 'r list \<Rightarrow> bool" where
  "grows rows rows' \<longleftrightarrow> (\<exists>old new. rows' = old @ new \<and> list_all2 evolves rows old)"

definition keyed :: "'r list \<Rightarrow> bool" where
  "keyed rows \<longleftrightarrow> uniq (\<lambda>a b. key a = key b) rows"

lemma grows_refl: "grows rows rows"
  unfolding grows_def by (intro exI [of _ rows] exI [of _ "[]"]) (simp add: list_all2_same evolves_refl)

lemma grows_trans:
  assumes "grows a b" and "grows b c"
  shows "grows a c"
proof -
  from assms obtain o1 n1 o2 n2 where b: "b = o1 @ n1" "list_all2 evolves a o1" and c: "c = o2 @ n2" "list_all2 evolves b o2"
    by (auto simp: grows_def)
  from b(1) c(2) obtain p q where o2: "o2 = p @ q" "list_all2 evolves o1 p" by (auto simp: list_all2_append1)
  have "list_all2 evolves a p" using list_all2_trans [OF _ b(2) o2(2), of evolves] evolves_trans by blast
  with c o2 show ?thesis unfolding grows_def by (intro exI [of _ p] exI [of _ "q @ n2"]) simp
qed

lemma grows_update:
  "(\<And>r. r \<in> set rows \<Longrightarrow> P r \<Longrightarrow> evolves r (f r)) \<Longrightarrow> grows rows (update_where P f rows)"
  unfolding grows_def update_where_def
  by (intro exI [of _ "map (\<lambda>r. if P r then f r else r) rows"] exI [of _ "[]"])
    (auto simp: list_all2_conv_all_nth evolves_refl)

lemma grows_append: "grows rows (rows @ new)"
  unfolding grows_def by (intro exI [of _ rows] exI [of _ new]) (simp add: list_all2_same evolves_refl)

lemma tracked_mem: "r \<in> set rows \<Longrightarrow> tracked rows r"
  using evolves_refl by (auto simp: tracked_def)

lemma grows_mem:
  assumes "grows rows rows'" and "r \<in> set rows"
  obtains r' where "r' \<in> set rows'" "evolves r r'"
proof -
  from assms(1) obtain old new where "rows' = old @ new" "list_all2 evolves rows old" by (auto simp: grows_def)
  with assms(2) that show ?thesis by (auto simp: list_all2_conv_all_nth in_set_conv_nth nth_append) (metis nth_mem)
qed

lemma tracked_grows: "tracked rows c \<Longrightarrow> grows rows rows' \<Longrightarrow> tracked rows' c"
  unfolding tracked_def using grows_mem evolves_trans by metis

lemma keyed_at_most_one: "keyed rows \<Longrightarrow> a \<in> set rows \<Longrightarrow> b \<in> set rows \<Longrightarrow> key a = key b \<Longrightarrow> a = b"
proof (induction rows)
  case (Cons r rows)
  then show ?case by (auto simp: keyed_def uniq_def)
qed simp

lemma fence_current:
  assumes "keyed rows" and "tracked rows c" and "r \<in> set rows" and "fence c r"
  shows "evolves c r" and "same c r"
proof -
  from assms(2) obtain x where x: "x \<in> set rows" "evolves c x" by (auto simp: tracked_def)
  have "x = r" using assms(1,3) x evolves_key fence_key [OF assms(4)] by (metis keyed_at_most_one)
  with x show "evolves c r" by simp
  with assms(4) fence_same show "same c r" by blast
qed

lemma keyed_update:
  assumes "keyed rows" and "\<And>r. r \<in> set rows \<Longrightarrow> P r \<Longrightarrow> evolves r (f r)"
  shows "keyed (update_where P f rows)"
  unfolding keyed_def
  using assms(2) evolves_key by (intro uniq_update_where [OF assms(1) [unfolded keyed_def]]) (simp; metis)

end

end
