(* ===== verification/Migration_Store.thy ===== *)
theory Migration_Store
  imports Migration Fences Texts "HOL-Library.Word" "HOL-Library.Product_Lexorder"
begin

text \<open>
  The durable rows of the migrations to AWS (\<^verbatim>\<open>app/src/server/lib/compute/provider-migrate-store.ts\<close>): every
  operation of the store, each one SQL statement or transaction over the table. A worker acts on a copy it
  read earlier, and the row's timestamp decides whether the copy is still current: each write moves it forward by at
  least one microsecond, so a stale copy never matches. Timestamps are microseconds, the application's
  clock is in milliseconds, the progress of a restore keeps its two sets of 512 bits as words.
  A row that has no head is not given one by \<^verbatim>\<open>jsonb_set\<close>; its callers have one, here the operation fails.
\<close>

subsection \<open>Rows\<close>

datatype migrate_size = Size_standard | Size_premium

record restore_progress =
  rg_workspace :: "512 word"
  rg_system :: "512 word"
  rg_bytes :: int
  rg_first :: string
  rg_last :: string

record compute_migration = migration_progress +
  cm_id :: string
  cm_userId :: string
  cm_computerId :: string
  cm_toSize :: migrate_size
  cm_restoreTokenSha256 :: "string option"
  cm_restoreTokenExpiresAt :: "int option"
  cm_restoreProgress :: "restore_progress option"
  cm_createdAt :: int
  cm_updatedAt :: int

text \<open>The table, the database's clock and identities, and the computers a reverse move holds.\<close>

record move_db =
  mv_rows :: "compute_migration list"
  mv_clock :: int
  mv_next :: nat
  mv_uuid :: "nat \<Rightarrow> string"
  mv_reverse :: "string list"

datatype migration_error = Migration_conflict | Step_error bool "string option" | Store_failure string

type_synonym 'a store_op = "move_db \<Rightarrow> (migration_error + 'a) \<times> move_db"

definition lower_char :: "char \<Rightarrow> char" where
  "lower_char c = (if CHR ''A'' \<le> c \<and> c \<le> CHR ''Z'' then char_of (of_char c + 32 :: nat) else c)"

definition toLowerCase :: "string \<Rightarrow> string" where
  "toLowerCase = map lower_char"

text \<open>\<^verbatim>\<open>::uuid\<close> of a text; the identities the callers pass are in the hyphenated form.\<close>

definition as_uuid :: "string \<Rightarrow> (string \<Rightarrow> 'a store_op) \<Rightarrow> 'a store_op" where
  "as_uuid s f = (if is_uuid (toLowerCase s) then f (toLowerCase s) else sthrow (Store_failure ''invalid uuid''))"

definition active :: "compute_migration \<Rightarrow> bool" where
  "active r \<longleftrightarrow> mp_state r \<notin> {MS_committed, MS_failed_reopened, MS_failed_needs_operator}"

text \<open>The partial unique index: one active migration per computer.\<close>

definition migration_clash :: "compute_migration \<Rightarrow> compute_migration \<Rightarrow> bool" where
  "migration_clash a b \<longleftrightarrow> active a \<and> active b \<and> cm_computerId a = cm_computerId b"

text \<open>\<^verbatim>\<open>STAMP\<close>\<close>

definition stamp :: "move_db \<Rightarrow> compute_migration \<Rightarrow> int" where
  "stamp s r = max (mv_clock s) (cm_updatedAt r + 1)"

subsection \<open>Reading\<close>

definition readById :: "string \<Rightarrow> compute_migration option store_op" where
  "readById i = as_uuid i (\<lambda>i. sget (\<lambda>s. find (\<lambda>r. cm_id r = i) (mv_rows s)))"

text \<open>\<^verbatim>\<open>ORDER BY created_at DESC, id DESC LIMIT 1\<close>\<close>

definition created_later :: "compute_migration \<Rightarrow> compute_migration \<Rightarrow> bool" where
  "created_later a b \<longleftrightarrow> cm_createdAt b < cm_createdAt a \<or> cm_createdAt a = cm_createdAt b \<and> cm_id b < cm_id a"

definition readByComputer :: "string \<Rightarrow> compute_migration option store_op" where
  "readByComputer c = as_uuid c (\<lambda>c. sget (\<lambda>s. pick created_later None (filter (\<lambda>r. cm_computerId r = c) (mv_rows s))))"

definition readActiveByComputer :: "string \<Rightarrow> compute_migration option store_op" where
  "readActiveByComputer c = as_uuid c (\<lambda>c. sget (\<lambda>s. find (\<lambda>r. cm_computerId r = c \<and> active r) (mv_rows s)))"

datatype migrate_status = Status_preparing | Status_failed

definition statusFor :: "string \<Rightarrow> migrate_status option store_op" where
  "statusFor u = as_uuid u (\<lambda>u. sget (\<lambda>s. case pick created_later None (filter (\<lambda>r. cm_userId r = u) (mv_rows s)) of
     None \<Rightarrow> None
   | Some r \<Rightarrow> if mp_state r = MS_committed then None
       else if mp_state r \<in> {MS_failed_reopened, MS_failed_needs_operator} then Some Status_failed else Some Status_preparing))"

subsection \<open>Transitions\<close>

text \<open>The cause of an error is appended to what the reducer recorded; a compensation keeps its original cause.\<close>

definition with_reason :: "compute_migration \<Rightarrow> MigrationEvent \<Rightarrow> string option \<Rightarrow> compute_migration \<Rightarrow> compute_migration" where
  "with_reason expected event reason m =
     (case (event, reason, mp_lastError m) of
        (ME_error step _, Some why, Some e) \<Rightarrow>
          if why \<noteq> [] \<and> e \<noteq> [] \<and> (pendingRecovery expected = None \<or> step = ''abort'' \<or> step = ''reopen'')
          then m\<lparr>mp_lastError := Some (e @ '':'' @ why)\<rparr> else m
      | _ \<Rightarrow> m)"

text \<open>A lease that may still be served keeps its token; every other state revokes it.\<close>

definition restorable :: "compute_migration \<Rightarrow> bool" where
  "restorable m \<longleftrightarrow> mp_state m \<in> {MS_exported, MS_provisioning} \<and> pendingRecovery m = None"

definition transition_row :: "move_db \<Rightarrow> compute_migration \<Rightarrow> compute_migration \<Rightarrow> compute_migration \<Rightarrow> compute_migration" where
  "transition_row s expected m r = r\<lparr>mp_state := mp_state m, mp_generation := mp_generation m, mp_sourceEtag := mp_sourceEtag m,
     mp_sourceSystemEtag := mp_sourceSystemEtag m, mp_workspaceHead := mp_workspaceHead m, mp_systemHead := mp_systemHead m,
     mp_migratedEtag := mp_migratedEtag m, mp_attempts := mp_attempts m, mp_lastError := mp_lastError m,
     cm_restoreTokenSha256 := (if restorable m then cm_restoreTokenSha256 expected else None),
     cm_restoreTokenExpiresAt := (if restorable m then cm_restoreTokenExpiresAt expected else None),
     cm_updatedAt := stamp s r\<rparr>"

text \<open>\<^verbatim>\<open>WHERE id = ... AND state = ... AND updated_at::text = ...\<close>\<close>

definition current :: "compute_migration \<Rightarrow> compute_migration \<Rightarrow> bool" where
  "current expected r \<longleftrightarrow> cm_id r = cm_id expected \<and> mp_state r = mp_state expected \<and> cm_updatedAt r = cm_updatedAt expected"

text \<open>\<^verbatim>\<open>UPDATE ... WHERE P ... RETURNING\<close> one row, or a conflict.\<close>

definition update_one :: "(compute_migration \<Rightarrow> bool) \<Rightarrow> (compute_migration \<Rightarrow> compute_migration) \<Rightarrow> compute_migration store_op" where
  "update_one P f s = (case find P (mv_rows s) of
     None \<Rightarrow> (Inl Migration_conflict, s)
   | Some r \<Rightarrow> (Inr (f r), s\<lparr>mv_rows := update_where P f (mv_rows s)\<rparr>))"

definition applyTransition :: "compute_migration \<Rightarrow> MigrationEvent \<Rightarrow> string option \<Rightarrow> compute_migration migration_decision store_op" where
  "applyTransition expected event reason s =
     (case reduceMigration expected event of (accepted, m, effect) \<Rightarrow>
        if \<not> accepted then (Inr (False, expected, effect), s)
        else let m' = with_reason expected event reason m in
          sbind (update_one (current expected) (transition_row s expected m')) (\<lambda>r. sreturn (True, r, effect)) s)"

subsection \<open>Creating\<close>

record move_input =
  mi_computerId :: string
  mi_userId :: string
  mi_toSize :: migrate_size

definition new_row :: "move_db \<Rightarrow> string \<Rightarrow> string \<Rightarrow> migrate_size \<Rightarrow> compute_migration" where
  "new_row s c u to_size = \<lparr>mp_state = MS_requested, mp_generation = None, mp_sourceEtag = None, mp_sourceSystemEtag = None,
     mp_workspaceHead = None, mp_systemHead = None, mp_migratedEtag = None, mp_attempts = 0, mp_lastError = None,
     cm_id = mv_uuid s (mv_next s), cm_userId = u, cm_computerId = c, cm_toSize = to_size,
     cm_restoreTokenSha256 = None, cm_restoreTokenExpiresAt = None, cm_restoreProgress = None,
     cm_createdAt = mv_clock s, cm_updatedAt = mv_clock s\<rparr>"

text \<open>
  The transaction: the insert that yields to an active row, kept only when no reverse move holds the
  computer (a conflict rolls it back).
\<close>

definition insert_active :: "string \<Rightarrow> string \<Rightarrow> migrate_size \<Rightarrow> compute_migration option store_op" where
  "insert_active c u to_size s =
     (let row = new_row s c u to_size in
      case insert_ignore migration_clash row (mv_rows s) of
        (False, _) \<Rightarrow> (Inr None, s\<lparr>mv_next := Suc (mv_next s)\<rparr>)
      | (True, rows) \<Rightarrow>
          if c \<in> set (mv_reverse s) then (Inl Migration_conflict, s)
          else (Inr (Some row), s\<lparr>mv_rows := rows, mv_next := Suc (mv_next s)\<rparr>))"

text \<open>
  Five attempts: another session may end the active row between the insert and the read of one. What other
  sessions do there is the parameter.
\<close>

fun create_attempts :: "nat \<Rightarrow> (nat \<Rightarrow> move_db \<Rightarrow> move_db) \<Rightarrow> move_input \<Rightarrow> string \<Rightarrow> string \<Rightarrow> compute_migration store_op" where
  "create_attempts 0 others i c u = sthrow Migration_conflict"
| "create_attempts (Suc n) others i c u =
     sbind (insert_active c u (mi_toSize i)) (\<lambda>inserted.
     sbind (case inserted of Some r \<Rightarrow> sreturn (Some r)
            | None \<Rightarrow> (\<lambda>s. readActiveByComputer (mi_computerId i) (others n s))) (\<lambda>found.
     case found of None \<Rightarrow> create_attempts n others i c u
     | Some m \<Rightarrow> if cm_userId m \<noteq> toLowerCase (mi_userId i) \<or> cm_toSize m \<noteq> mi_toSize i then sthrow Migration_conflict
         else sreturn m))"

definition createOrGetActive :: "(nat \<Rightarrow> move_db \<Rightarrow> move_db) \<Rightarrow> move_input \<Rightarrow> compute_migration store_op" where
  "createOrGetActive others i = as_uuid (mi_computerId i) (\<lambda>c. as_uuid (mi_userId i) (\<lambda>u. create_attempts 5 others i c u))"

subsection \<open>The provision intent\<close>

definition with_provision :: "json \<Rightarrow> snapshot_head \<Rightarrow> snapshot_head" where
  "with_provision p h = map_set ''_awsProvision'' p h"

definition saveProvision :: "compute_migration \<Rightarrow> json \<Rightarrow> unit store_op" where
  "saveProvision m p s =
     (case find (current m) (mv_rows s) of
        Some r \<Rightarrow> (case mp_workspaceHead r of
            None \<Rightarrow> (Inl (Store_failure ''cannot set path in scalar''), s)
          | Some h \<Rightarrow> (Inr (), s\<lparr>mv_rows := update_where (current m)
              (\<lambda>r. r\<lparr>mp_workspaceHead := map_option (with_provision p) (mp_workspaceHead r), cm_updatedAt := stamp s r\<rparr>) (mv_rows s)\<rparr>))
      | None \<Rightarrow> (Inl Migration_conflict, s))"

text \<open>\<^verbatim>\<open>workspace_head ? '_awsProvision' AND COALESCE(... 'released' ..., 'false') <> 'true'\<close>\<close>

definition unreleased :: "compute_migration \<Rightarrow> bool" where
  "unreleased r = (case mp_workspaceHead r of None \<Rightarrow> False
     | Some h \<Rightarrow> (case member_of h ''_awsProvision'' of None \<Rightarrow> False
         | Some (JObj p) \<Rightarrow> (case member_of p ''released'' of Some (JBool b) \<Rightarrow> \<not> b | Some (JStr t) \<Rightarrow> t \<noteq> ''true'' | _ \<Rightarrow> True)
         | Some _ \<Rightarrow> True))"

definition stale :: "move_db \<Rightarrow> string list \<Rightarrow> compute_migration \<Rightarrow> bool" where
  "stale s locked r \<longleftrightarrow> (active r \<or> mp_state r \<in> {MS_failed_reopened, MS_failed_needs_operator} \<and> unreleased r) \<and>
     cm_updatedAt r < mv_clock s - 30000000 \<and> cm_id r \<notin> set locked"

text \<open>
  The rows another session has locked are skipped. The oldest come first; the answer lists the rows in the table's order
  (\<^verbatim>\<open>RETURNING\<close> promises none).
\<close>

definition claimStale :: "string list \<Rightarrow> int \<Rightarrow> compute_migration list store_op" where
  "claimStale locked limit s =
     (let ids = take (nat (max 0 (min 10 limit)))
          (map snd (sort (map (\<lambda>r. (cm_updatedAt r, cm_id r)) (filter (stale s locked) (mv_rows s)))));
          touched = (\<lambda>r. r\<lparr>cm_updatedAt := stamp s r\<rparr>) in
      (Inr (map touched (filter (\<lambda>r. cm_id r \<in> set ids) (mv_rows s))),
       s\<lparr>mv_rows := update_where (\<lambda>r. cm_id r \<in> set ids) touched (mv_rows s)\<rparr>))"


subsection \<open>The restore capability\<close>

text \<open>
  \<^verbatim>\<open>sha256\<close> is the digest of a token in hexadecimal, a parameter; the new token is the random source's, fifteen
  minutes from the application's clock.
\<close>

definition mintRestoreToken :: "(string \<Rightarrow> string) \<Rightarrow> string \<Rightarrow> int \<Rightarrow> compute_migration \<Rightarrow> string store_op" where
  "mintRestoreToken sha256 token now m =
     (case (mp_generation m, mp_workspaceHead m) of
        (Some g, Some h) \<Rightarrow>
          if g = [] \<or> head_generation h \<noteq> Some (JStr g) \<or> \<not> restorable m then sthrow (Store_failure ''migration_not_exported'')
          else sbind (sget id) (\<lambda>s. sbind (update_one
              (\<lambda>r. current m r \<and> cm_computerId r = cm_computerId m \<and> mp_generation r = Some g \<and> mp_state r \<in> {MS_exported, MS_provisioning})
              (\<lambda>r. r\<lparr>cm_restoreTokenSha256 := Some (sha256 token), cm_restoreTokenExpiresAt := Some (now + 900000),
                     cm_updatedAt := stamp s r\<rparr>)) (\<lambda>_. sreturn token))
      | _ \<Rightarrow> sthrow (Store_failure ''migration_not_exported''))"

definition valid_hash :: "string \<Rightarrow> bool" where
  "valid_hash h \<longleftrightarrow> length h = 64 \<and> list_all is_lower_hex h"

definition restoreTokenMatches :: "(string \<Rightarrow> string) \<Rightarrow> compute_migration option \<Rightarrow> string \<Rightarrow> string \<Rightarrow> string \<Rightarrow> int \<Rightarrow> bool" where
  "restoreTokenMatches sha256 m computerId generation token now =
     (case m of None \<Rightarrow> False
      | Some m \<Rightarrow> (case (cm_restoreTokenSha256 m, cm_restoreTokenExpiresAt m) of
          (Some stored, Some expires) \<Rightarrow>
            valid_hash stored \<and> sha256 token = stored \<and> cm_computerId m = computerId \<and> mp_generation m = Some generation \<and>
            restorable m \<and> now < expires
        | _ \<Rightarrow> False))"

definition verifyRestoreToken :: "(string \<Rightarrow> string) \<Rightarrow> string \<Rightarrow> string \<Rightarrow> string \<Rightarrow> int \<Rightarrow> bool store_op" where
  "verifyRestoreToken sha256 computerId generation token now =
     sbind (readActiveByComputer computerId) (\<lambda>m. sreturn (restoreTokenMatches sha256 m computerId generation token now))"

subsection \<open>The progress of a restore\<close>

datatype restore_kind = Kind_workspace | Kind_system

definition chunk_size :: "json \<Rightarrow> int option" where
  "chunk_size c = (case c of JObj o' \<Rightarrow> (case member_of o' ''size'' of
       Some (JInt n) \<Rightarrow> if is_safe_integer n \<and> 0 \<le> n then Some n else None | _ \<Rightarrow> None) | _ \<Rightarrow> None)"

fun chunk_sizes :: "json list \<Rightarrow> int list option" where
  "chunk_sizes [] = Some []"
| "chunk_sizes (c # cs) = (case chunk_size c of None \<Rightarrow> None | Some n \<Rightarrow> map_option ((#) n) (chunk_sizes cs))"

definition snapshotChunkSizes :: "snapshot_head option \<Rightarrow> int list option" where
  "snapshotChunkSizes head = (case head of None \<Rightarrow> None
     | Some h \<Rightarrow> (case member_of h ''chunks'' of Some (JArr cs) \<Rightarrow> chunk_sizes cs | _ \<Rightarrow> None))"

fun head_of :: "restore_kind \<Rightarrow> 'a migration_progress_scheme \<Rightarrow> snapshot_head option" where
  "head_of Kind_workspace m = mp_workspaceHead m"
| "head_of Kind_system m = mp_systemHead m"

definition sizes_of :: "restore_kind \<Rightarrow> 'a migration_progress_scheme \<Rightarrow> int list" where
  "sizes_of k m = (case snapshotChunkSizes (head_of k m) of None \<Rightarrow> [] | Some ns \<Rightarrow> ns)"

text \<open>\<^verbatim>\<open>sizes?.[index]\<close>\<close>

definition size_at :: "restore_kind \<Rightarrow> 'a migration_progress_scheme \<Rightarrow> int \<Rightarrow> int option" where
  "size_at k m i = (if 0 \<le> i \<and> nat i < length (sizes_of k m) then Some (sizes_of k m ! nat i) else None)"

fun bits_of :: "restore_kind \<Rightarrow> restore_progress \<Rightarrow> 512 word" where
  "bits_of Kind_workspace p = rg_workspace p"
| "bits_of Kind_system p = rg_system p"

fun with_bits :: "restore_kind \<Rightarrow> 512 word \<Rightarrow> restore_progress \<Rightarrow> restore_progress" where
  "with_bits Kind_workspace w p = p\<lparr>rg_workspace := w\<rparr>"
| "with_bits Kind_system w p = p\<lparr>rg_system := w\<rparr>"

definition record_chunk :: "restore_kind \<Rightarrow> nat \<Rightarrow> int \<Rightarrow> string \<Rightarrow> restore_progress option \<Rightarrow> restore_progress" where
  "record_chunk k i n at progress =
     (let p = (case progress of Some p \<Rightarrow> p | None \<Rightarrow> \<lparr>rg_workspace = 0, rg_system = 0, rg_bytes = 0, rg_first = at, rg_last = at\<rparr>) in
      (with_bits k (set_bit i (bits_of k p)) p)\<lparr>rg_bytes := rg_bytes p + (if bit (bits_of k p) i then 0 else n),
         rg_last := max (rg_last p) at\<rparr>)"

definition recordRestoreChunk :: "int \<Rightarrow> compute_migration \<Rightarrow> restore_kind \<Rightarrow> int \<Rightarrow> unit store_op" where
  "recordRestoreChunk now m k i s =
     (case (mp_generation m, size_at k m i) of
        (Some g, Some n) \<Rightarrow>
          if g = [] \<or> i < 0 \<or> 511 < i then (Inl (Store_failure ''invalid_restore_chunk''), s)
          else (Inr (), s\<lparr>mv_rows := update_where (\<lambda>r. cm_id r = cm_id m \<and> mp_generation r = Some g)
                 (\<lambda>r. r\<lparr>cm_restoreProgress := Some (record_chunk k (nat i) n (iso_string now) (cm_restoreProgress r))\<rparr>) (mv_rows s)\<rparr>)
      | _ \<Rightarrow> (Inl (Store_failure ''invalid_restore_chunk''), s))"


subsection \<open>How a row evolves\<close>

text \<open>What the reducer looks at; the progress of a restore is written without touching the row's timestamp.\<close>

definition same_but_progress :: "compute_migration \<Rightarrow> compute_migration \<Rightarrow> bool" where
  "same_but_progress c r \<longleftrightarrow> (\<exists>p. r = c\<lparr>cm_restoreProgress := p\<rparr>)"

definition heads_kept :: "compute_migration \<Rightarrow> compute_migration \<Rightarrow> bool" where
  "heads_kept c r \<longleftrightarrow> (\<forall>k. head_of k c \<noteq> None \<longrightarrow> head_of k r \<noteq> None \<and> sizes_of k r = sizes_of k c)"

definition ended_kept :: "compute_migration \<Rightarrow> compute_migration \<Rightarrow> bool" where
  "ended_kept c r \<longleftrightarrow> (terminal c \<longrightarrow> mp_state r = mp_state c \<and> mp_lastError r = mp_lastError c \<and>
     mp_migratedEtag r = mp_migratedEtag c \<and> mp_generation r = mp_generation c \<and> mp_attempts r = mp_attempts c)"

definition migration_evolves :: "compute_migration \<Rightarrow> compute_migration \<Rightarrow> bool" where
  "migration_evolves c r \<longleftrightarrow> cm_id r = cm_id c \<and> cm_computerId r = cm_computerId c \<and> cm_userId r = cm_userId c \<and>
     cm_updatedAt c \<le> cm_updatedAt r \<and> (cm_updatedAt r = cm_updatedAt c \<longrightarrow> same_but_progress c r) \<and>
     heads_kept c r \<and> ended_kept c r"

interpretation moves: fenced_table cm_id migration_evolves current same_but_progress
proof
  show "migration_evolves r r" for r
  proof -
    have "same_but_progress r r" unfolding same_but_progress_def by (rule exI [of _ "cm_restoreProgress r"]) simp
    then show ?thesis by (simp add: migration_evolves_def heads_kept_def ended_kept_def)
  qed
  show "migration_evolves a c" if ab: "migration_evolves a b" and bc: "migration_evolves b c" for a b c
  proof -
    have "same_but_progress a c" if e: "cm_updatedAt c = cm_updatedAt a"
    proof -
      from e ab bc have "cm_updatedAt b = cm_updatedAt a" "cm_updatedAt c = cm_updatedAt b" by (auto simp: migration_evolves_def)
      with ab bc have "same_but_progress a b" "same_but_progress b c" by (auto simp: migration_evolves_def)
      then show ?thesis by (auto simp: same_but_progress_def)
    qed
    moreover have "heads_kept a c" using ab bc by (auto simp: migration_evolves_def heads_kept_def)
    moreover have "ended_kept a c" using ab bc by (auto simp: migration_evolves_def ended_kept_def terminal_def)
    ultimately show ?thesis using ab bc by (auto simp: migration_evolves_def)
  qed
qed (auto simp: migration_evolves_def current_def)

interpretation active_moves: unique_rule migration_clash
  by unfold_locales (auto simp: migration_clash_def)

lemma active_iff: "active r \<longleftrightarrow> \<not> terminal r"
  by (auto simp: active_def terminal_def)

lemma evolves_active: "migration_evolves c r \<Longrightarrow> active r \<Longrightarrow> active c"
  by (auto simp: migration_evolves_def ended_kept_def active_iff terminal_def)

text \<open>What a write must show: the row's identity, a later timestamp, and what is kept.\<close>

lemma evolvesI:
  "cm_id r = cm_id c \<Longrightarrow> cm_computerId r = cm_computerId c \<Longrightarrow> cm_userId r = cm_userId c \<Longrightarrow> cm_updatedAt c < cm_updatedAt r \<Longrightarrow>
   heads_kept c r \<Longrightarrow> ended_kept c r \<Longrightarrow> migration_evolves c r"
  by (simp add: migration_evolves_def)

lemma stamp_later [simp]: "cm_updatedAt r < stamp s r"
  by (simp add: stamp_def)

subsection \<open>What a row promises\<close>

text \<open>
  The bytes a restore reports are those of the chunks it has recorded, each counted once; nothing is
  recorded of a head that has not been exported.
\<close>

definition covered :: "restore_kind \<Rightarrow> compute_migration \<Rightarrow> restore_progress \<Rightarrow> int" where
  "covered k r p = (\<Sum>i<length (sizes_of k r). if bit (bits_of k p) i then sizes_of k r ! i else 0)"

definition progress_exact :: "compute_migration \<Rightarrow> bool" where
  "progress_exact r = (case cm_restoreProgress r of None \<Rightarrow> True
     | Some p \<Rightarrow> rg_bytes p = covered Kind_workspace r p + covered Kind_system r p \<and>
         (\<forall>k. head_of k r = None \<longrightarrow> bits_of k p = 0))"

definition token_scoped :: "compute_migration \<Rightarrow> bool" where
  "token_scoped r \<longleftrightarrow> (cm_restoreTokenSha256 r \<noteq> None \<longrightarrow> restorable r)"

definition row_ok :: "compute_migration \<Rightarrow> bool" where
  "row_ok r \<longleftrightarrow> mig_ok r \<and> token_scoped r \<and> progress_exact r"

text \<open>The table: identities come from the generator, one active migration per computer, every row keeps its promises.\<close>

definition table_ok :: "move_db \<Rightarrow> bool" where
  "table_ok s \<longleftrightarrow> inj (mv_uuid s) \<and> (\<forall>r \<in> set (mv_rows s). \<exists>n < mv_next s. cm_id r = mv_uuid s n) \<and>
     moves.keyed (mv_rows s) \<and> uniq migration_clash (mv_rows s) \<and> (\<forall>r \<in> set (mv_rows s). row_ok r)"

text \<open>What an operation must do: keep the table's promises and let rows only evolve or be added.\<close>

definition table_step :: "move_db \<Rightarrow> move_db \<Rightarrow> bool" where
  "table_step s t \<longleftrightarrow> table_ok t \<and> moves.grows (mv_rows s) (mv_rows t)"

lemma table_step_refl: "table_ok s \<Longrightarrow> table_step s s"
  by (simp add: table_step_def moves.grows_refl)

lemma table_step_trans: "table_step a b \<Longrightarrow> table_step b c \<Longrightarrow> table_step a c"
  using moves.grows_trans by (auto simp: table_step_def)

lemma table_step_update:
  assumes ok: "table_ok s" and f: "\<And>r. r \<in> set (mv_rows s) \<Longrightarrow> P r \<Longrightarrow> migration_evolves r (f r) \<and> row_ok (f r)"
  shows "table_step s (s\<lparr>mv_rows := update_where P f (mv_rows s)\<rparr>)"
  unfolding table_step_def
proof
  let ?rows = "update_where P f (mv_rows s)"
  have e: "migration_evolves r (f r)" if "r \<in> set (mv_rows s)" "P r" for r using f that by blast
  then show "moves.grows (mv_rows s) (mv_rows (s\<lparr>mv_rows := ?rows\<rparr>))" by (simp add: moves.grows_update)
  have k: "moves.keyed ?rows" using ok e by (simp add: table_ok_def moves.keyed_update)
  have "uniq migration_clash ?rows"
  proof (rule uniq_update_where)
    fix a b assume ab: "a \<in> set (mv_rows s)" "b \<in> set (mv_rows s)" "\<not> migration_clash a b"
    have "migration_evolves a (if P a then f a else a)" "migration_evolves b (if P b then f b else b)"
      using ab e moves.evolves_refl by simp_all
    then show "\<not> migration_clash (if P a then f a else a) (if P b then f b else b)"
      using ab(3) evolves_active unfolding migration_clash_def by (metis migration_evolves_def)
  qed (use ok in \<open>simp add: table_ok_def\<close>)
  moreover have "\<exists>n < mv_next s. cm_id r = mv_uuid s n" if "r \<in> set ?rows" for r
    using that ok e moves.evolves_key unfolding table_ok_def mem_update_where by metis
  moreover have "row_ok r" if "r \<in> set ?rows" for r
    using that ok f by (auto simp: mem_update_where table_ok_def)
  ultimately show "table_ok (s\<lparr>mv_rows := ?rows\<rparr>)" using ok k by (simp add: table_ok_def)
qed


subsection \<open>Transitions keep the promises\<close>

lemma mig_ok_truncate: "mig_ok (migration_progress.truncate m) = mig_ok m"
  by (cases "mp_state m") (simp_all add: migration_progress.truncate_def mig_ok_def stage_defs)

lemma mig_ok_same: "migration_progress.truncate a = migration_progress.truncate b \<Longrightarrow> mig_ok a = mig_ok b"
  by (metis mig_ok_truncate)

lemma mig_ok_lastError: "mp_state m \<noteq> MS_committed \<Longrightarrow> mig_ok (m\<lparr>mp_lastError := e\<rparr>) = mig_ok m"
  by (cases "mp_state m") (simp_all add: mig_ok_def stage_ok_def)

lemma reduce_error_not_committed:
  assumes "reduceMigration m (ME_error step retryable) = (True, m', eff)"
  shows "mp_state m' \<noteq> MS_committed"
proof (cases "terminal m")
  case True
  with assms show ?thesis by (simp add: reduce_live unchanged_def)
next
  case False
  then have s: "mp_state m \<noteq> MS_committed" by (auto simp: terminal_def)
  from assms False have "reduce_error step retryable m = (True, m', eff)" by (simp add: reduce_live)
  then show ?thesis using s by (cases rule: reduce_error_cases) simp_all
qed

lemma with_reason_cases:
  obtains "with_reason expected event reason m = m"
    | e step retryable where "event = ME_error step retryable" "with_reason expected event reason m = m\<lparr>mp_lastError := Some e\<rparr>"
proof (cases "\<exists>step retryable why e. event = ME_error step retryable \<and> reason = Some why \<and> mp_lastError m = Some e")
  case True
  then obtain step retryable why e where e: "event = ME_error step retryable" "reason = Some why" "mp_lastError m = Some e" by blast
  show ?thesis
  proof (cases "why \<noteq> [] \<and> e \<noteq> [] \<and> (pendingRecovery expected = None \<or> step = ''abort'' \<or> step = ''reopen'')")
    case True
    then have "with_reason expected event reason m = m\<lparr>mp_lastError := Some (e @ '':'' @ why)\<rparr>" by (simp add: with_reason_def e)
    with e that(2) show ?thesis by blast
  next
    case False
    then have "with_reason expected event reason m = m" by (auto simp: with_reason_def e)
    with that(1) show ?thesis by blast
  qed
next
  case False
  then have "with_reason expected event reason m = m"
    unfolding with_reason_def by (cases event; cases reason; cases "mp_lastError m") simp_all
  with that(1) show ?thesis by blast
qed

lemma with_reason_ok:
  assumes "reduceMigration m0 event = (True, m, eff)" and "mig_ok m"
  shows "mig_ok (with_reason expected event reason m)"
proof (cases rule: with_reason_cases [of expected event reason m])
  case 2
  with assms reduce_error_not_committed show ?thesis by (metis mig_ok_lastError)
qed (use assms in simp)

lemma with_reason_heads [simp]: "head_of k (with_reason expected event reason m) = head_of k m"
  by (cases rule: with_reason_cases [of expected event reason m]; cases k) simp_all

lemma reduce_heads:
  assumes r: "reduceMigration m event = (True, m', eff)" and ok: "mig_ok m" and h: "head_of k m \<noteq> None"
  shows "head_of k m' = head_of k m"
proof -
  have live: "\<not> terminal m" using r by (auto simp: reduce_live unchanged_def)
  show ?thesis
  proof (cases event rule: migration_event_cases)
    case (error step retryable)
    with live r have "reduce_error step retryable m = (True, m', eff)" by (simp add: reduce_live)
    then show ?thesis by (cases rule: reduce_error_cases; cases k) simp_all
  next
    case reopened
    with live r show ?thesis by (cases k) (auto simp: reduce_live unchanged_def split: if_splits)
  next
    case forward
    with live r have "reduce_forward event m = (True, m', eff)" by (auto simp: reduce_live_forward unchanged_def split: if_splits)
    with ok h show ?thesis
      by (cases event; cases k) (auto simp: unchanged_def mig_ok_def stage_ok_def split: if_splits)
  qed
qed

lemma sizes_of_head: "head_of k a = head_of k b \<Longrightarrow> sizes_of k a = sizes_of k b"
  by (simp add: sizes_of_def)

lemma covered_kept:
  assumes "head_of k r \<noteq> None \<Longrightarrow> sizes_of k r' = sizes_of k r" and "head_of k r = None \<Longrightarrow> bits_of k p = 0"
  shows "covered k r' p = covered k r p"
proof (cases "head_of k r = None")
  case True
  with assms(2) show ?thesis by (simp add: covered_def)
next
  case False
  with assms(1) have "sizes_of k r' = sizes_of k r" by simp
  then show ?thesis unfolding covered_def by (simp only:)
qed

lemma progress_kept:
  assumes "progress_exact r" and "heads_kept r r'" and "cm_restoreProgress r' = cm_restoreProgress r"
  shows "progress_exact r'"
proof (cases "cm_restoreProgress r")
  case (Some p)
  with assms(1) have b: "rg_bytes p = covered Kind_workspace r p + covered Kind_system r p" "\<And>k. head_of k r = None \<Longrightarrow> bits_of k p = 0"
    by (auto simp: progress_exact_def)
  have "covered k r' p = covered k r p" for k
    using assms(2) b(2) by (intro covered_kept) (auto simp: heads_kept_def)
  moreover have "bits_of k p = 0" if "head_of k r' = None" for k
    using assms(2) b(2) [of k] that by (cases "head_of k r") (auto simp: heads_kept_def)
  ultimately show ?thesis using Some assms(3) b(1) by (simp add: progress_exact_def)
qed (use assms(3) in \<open>simp add: progress_exact_def\<close>)

lemma transition_row_simps [simp]:
  "migration_progress.truncate (transition_row s expected m r) = migration_progress.truncate m"
  "head_of k (transition_row s expected m r) = head_of k m"
  "restorable (transition_row s expected m r) = restorable m"
  "cm_restoreProgress (transition_row s expected m r) = cm_restoreProgress r"
  "cm_id (transition_row s expected m r) = cm_id r" "cm_computerId (transition_row s expected m r) = cm_computerId r"
  "cm_userId (transition_row s expected m r) = cm_userId r" "cm_updatedAt (transition_row s expected m r) = stamp s r"
  by (cases k; simp add: transition_row_def migration_progress.truncate_def restorable_def pendingRecovery_def)+

text \<open>A fenced copy has everything the reducer looks at.\<close>

lemma same_but_progress_fields:
  assumes "same_but_progress c r"
  shows "mig_ok c = mig_ok r" and "terminal c = terminal r" and "head_of k c = head_of k r" and "restorable c = restorable r"
    and "cm_id c = cm_id r" and "mp_generation c = mp_generation r"
proof -
  from assms obtain p where r: "r = c\<lparr>cm_restoreProgress := p\<rparr>" by (auto simp: same_but_progress_def)
  have "migration_progress.truncate c = migration_progress.truncate r" by (simp add: r migration_progress.truncate_def)
  then show "mig_ok c = mig_ok r" by (rule mig_ok_same)
  show "terminal c = terminal r" "head_of k c = head_of k r" "restorable c = restorable r" "cm_id c = cm_id r" "mp_generation c = mp_generation r"
    by (cases k; simp add: r terminal_def restorable_def pendingRecovery_def)+
qed

lemma transition_row_ok:
  assumes red: "reduceMigration expected event = (True, m, eff)" and same: "same_but_progress expected r" and ok: "row_ok r"
  shows "migration_evolves r (transition_row s expected (with_reason expected event reason m) r) \<and>
    row_ok (transition_row s expected (with_reason expected event reason m) r)"
proof -
  let ?m = "with_reason expected event reason m" let ?r = "transition_row s expected ?m r"
  note f = same_but_progress_fields [OF same]
  have live: "\<not> terminal r" using red f(2) by (auto simp: reduce_live unchanged_def)
  have okm: "mig_ok m" using reduce_stage [OF red] f(1) ok by (simp add: row_ok_def)
  have "mig_ok ?r" using with_reason_ok [OF red okm] mig_ok_same transition_row_simps(1) by blast
  moreover have "token_scoped ?r" unfolding token_scoped_def transition_row_simps by (simp add: transition_row_def)
  moreover have h: "heads_kept r ?r"
    unfolding heads_kept_def using reduce_heads [OF red] f(1,3) ok sizes_of_head [of _ ?r r] by (simp add: row_ok_def)
  moreover have "ended_kept r ?r" using live by (simp add: ended_kept_def)
  moreover have "progress_exact ?r" by (rule progress_kept [OF _ h]) (use ok in \<open>simp_all add: row_ok_def\<close>)
  ultimately show ?thesis by (auto intro: evolvesI simp: row_ok_def)
qed


subsection \<open>Every operation keeps the promises\<close>

lemma tracked_same:
  assumes "table_ok s" and "moves.tracked (mv_rows s) c" and "r \<in> set (mv_rows s)" and "current c r"
  shows "same_but_progress c r"
  using assms moves.fence_current(2) [of "mv_rows s" c r] by (simp add: table_ok_def)

lemma update_one_Inr:
  "update_one P f s = (Inr r', t) \<Longrightarrow> \<exists>r \<in> set (mv_rows s). P r \<and> r' = f r \<and> t = s\<lparr>mv_rows := update_where P f (mv_rows s)\<rparr>"
  unfolding update_one_def using find_Some_iff_first [of P "mv_rows s"] by (auto split: option.splits)

lemma update_one_Inl: "update_one P f s = (Inl e, t) \<Longrightarrow> e = Migration_conflict \<and> t = s \<and> (\<forall>r \<in> set (mv_rows s). \<not> P r)"
  unfolding update_one_def by (auto simp: find_None_iff split: option.splits)

lemma update_one_step:
  assumes "table_ok s" and "update_one P f s = (res, t)"
    and "\<And>r. r \<in> set (mv_rows s) \<Longrightarrow> P r \<Longrightarrow> migration_evolves r (f r) \<and> row_ok (f r)"
  shows "table_step s t"
proof (cases res)
  case (Inl e)
  with assms(1,2) update_one_Inl show ?thesis by (metis table_step_refl)
next
  case (Inr r)
  with assms(2) update_one_Inr have "t = s\<lparr>mv_rows := update_where P f (mv_rows s)\<rparr>" by blast
  with assms(1,3) table_step_update show ?thesis by simp
qed

lemma applyTransition_cases:
  assumes "applyTransition expected event reason s = (res, t)"
  obtains (rejected) eff where "reduceMigration expected event = (False, expected, eff)" "res = Inr (False, expected, eff)" "t = s"
    | (conflict) "res = Inl Migration_conflict" "t = s" "\<forall>r \<in> set (mv_rows s). \<not> current expected r"
    | (applied) m eff r where "reduceMigration expected event = (True, m, eff)" "r \<in> set (mv_rows s)" "current expected r"
        "res = Inr (True, transition_row s expected (with_reason expected event reason m) r, eff)"
        "t = s\<lparr>mv_rows := update_where (current expected) (transition_row s expected (with_reason expected event reason m)) (mv_rows s)\<rparr>"
proof -
  obtain a m eff where r: "reduceMigration expected event = (a, m, eff)" by (cases "reduceMigration expected event")
  show ?thesis
  proof (cases a)
    case False
    with r reduce_rejects [of expected event m eff] assms show ?thesis by (intro rejected [of eff]) (simp_all add: applyTransition_def)
  next
    case True
    let ?f = "transition_row s expected (with_reason expected event reason m)"
    obtain u t' where u: "update_one (current expected) ?f s = (u, t')" by (cases "update_one (current expected) ?f s")
    show ?thesis
    proof (cases u)
      case (Inl e)
      with u update_one_Inl have "e = Migration_conflict" "t' = s" "\<forall>r \<in> set (mv_rows s). \<not> current expected r" by blast+
      with assms r True u Inl show ?thesis by (intro conflict) (simp_all add: applyTransition_def Let_def)
    next
      case (Inr x)
      with u update_one_Inr obtain y where y: "y \<in> set (mv_rows s)" "current expected y" "x = ?f y"
        "t' = s\<lparr>mv_rows := update_where (current expected) ?f (mv_rows s)\<rparr>" by blast
      with assms r True u Inr show ?thesis by (intro applied [of m eff y]) (simp_all add: applyTransition_def Let_def)
    qed
  qed
qed

lemma applyTransition_step:
  assumes ok: "table_ok s" and c: "moves.tracked (mv_rows s) expected" and op: "applyTransition expected event reason s = (res, t)"
  shows "table_step s t"
  using op
proof (cases rule: applyTransition_cases)
  case (applied m eff r)
  show ?thesis unfolding applied(5)
  proof (rule table_step_update [OF ok])
    fix r assume r: "r \<in> set (mv_rows s)" "current expected r"
    then have "same_but_progress expected r" using ok c tracked_same by blast
    moreover have "row_ok r" using ok r by (simp add: table_ok_def)
    ultimately show "migration_evolves r (transition_row s expected (with_reason expected event reason m) r) \<and>
        row_ok (transition_row s expected (with_reason expected event reason m) r)"
      using applied(1) by (intro transition_row_ok)
  qed
qed (use ok table_step_refl in simp_all)

lemma truncate_same:
  assumes "migration_progress.truncate a = migration_progress.truncate b"
  shows "mp_state a = mp_state b" and "mp_lastError a = mp_lastError b" and "mp_generation a = mp_generation b"
    and "mp_migratedEtag a = mp_migratedEtag b" and "mp_attempts a = mp_attempts b" and "head_of k a = head_of k b"
  using assms by (cases k; simp add: migration_progress.truncate_def)+

text \<open>A write that leaves the reducer's fields alone.\<close>

lemma aside_ok:
  assumes ok: "row_ok r" and same: "migration_progress.truncate r' = migration_progress.truncate r"
    and ids: "cm_id r' = cm_id r" "cm_computerId r' = cm_computerId r" "cm_userId r' = cm_userId r"
    and later: "cm_updatedAt r < cm_updatedAt r'" and progress: "cm_restoreProgress r' = cm_restoreProgress r"
    and token: "cm_restoreTokenSha256 r' \<noteq> None \<Longrightarrow> cm_restoreTokenSha256 r \<noteq> None \<or> restorable r"
  shows "migration_evolves r r' \<and> row_ok r'"
proof -
  note f = truncate_same [OF same]
  have h: "heads_kept r r'" using f(6) by (simp add: heads_kept_def sizes_of_def)
  have e: "ended_kept r r'" using f by (simp add: ended_kept_def)
  have "mig_ok r'" using mig_ok_same [OF same] ok by (simp add: row_ok_def)
  moreover have "restorable r' = restorable r" using f by (simp add: restorable_def pendingRecovery_def)
  then have "token_scoped r'" using token ok by (auto simp: row_ok_def token_scoped_def)
  moreover have "progress_exact r'" by (rule progress_kept [of r]) (use ok h progress in \<open>simp_all add: row_ok_def\<close>)
  moreover have "migration_evolves r r'" by (rule evolvesI [OF ids later h e])
  ultimately show ?thesis unfolding row_ok_def by (intro conjI)
qed

lemma touch_ok: "row_ok r \<Longrightarrow> migration_evolves r (r\<lparr>cm_updatedAt := stamp s r\<rparr>) \<and> row_ok (r\<lparr>cm_updatedAt := stamp s r\<rparr>)"
  by (rule aside_ok) (simp_all add: migration_progress.truncate_def)

lemma claimStale_step: "table_ok s \<Longrightarrow> claimStale locked limit s = (res, t) \<Longrightarrow> table_step s t"
  unfolding claimStale_def Let_def using touch_ok by (auto intro!: table_step_update simp: table_ok_def)

lemma mint_row_ok:
  "row_ok r \<Longrightarrow> restorable r \<Longrightarrow>
   migration_evolves r (r\<lparr>cm_restoreTokenSha256 := h, cm_restoreTokenExpiresAt := e, cm_updatedAt := stamp s r\<rparr>) \<and>
   row_ok (r\<lparr>cm_restoreTokenSha256 := h, cm_restoreTokenExpiresAt := e, cm_updatedAt := stamp s r\<rparr>)"
  by (rule aside_ok) (simp_all add: migration_progress.truncate_def)

lemma mintRestoreToken_step:
  assumes ok: "table_ok s" and c: "moves.tracked (mv_rows s) m" and op: "mintRestoreToken sha256 token now m s = (res, t)"
  shows "table_step s t"
proof (cases "\<exists>g h. mp_generation m = Some g \<and> mp_workspaceHead m = Some h \<and> g \<noteq> [] \<and> head_generation h = Some (JStr g) \<and> restorable m")
  case False
  then have "t = s" using op by (auto simp: mintRestoreToken_def split: option.splits if_splits)
  with ok show ?thesis by (simp add: table_step_refl)
next
  case True
  then obtain g h where g: "mp_generation m = Some g" "mp_workspaceHead m = Some h" "g \<noteq> []" "head_generation h = Some (JStr g)"
    and rm: "restorable m" by blast
  let ?P = "\<lambda>r. current m r \<and> cm_computerId r = cm_computerId m \<and> mp_generation r = Some g \<and> mp_state r \<in> {MS_exported, MS_provisioning}"
  let ?f = "\<lambda>r. r\<lparr>cm_restoreTokenSha256 := Some (sha256 token), cm_restoreTokenExpiresAt := Some (now + 900000), cm_updatedAt := stamp s r\<rparr>"
  have "mintRestoreToken sha256 token now m s = sbind (update_one ?P ?f) (\<lambda>_. sreturn token) s"
    using g rm by (simp add: mintRestoreToken_def)
  then obtain u where u: "update_one ?P ?f s = (u, t)"
    using op by (cases "update_one ?P ?f s"; cases "fst (update_one ?P ?f s)") auto
  show ?thesis
  proof (rule update_one_step [OF ok u])
    fix r assume r: "r \<in> set (mv_rows s)" "?P r"
    then have "same_but_progress m r" using ok c tracked_same by blast
    then have "restorable r" using rm same_but_progress_fields(4) by blast
    then show "migration_evolves r (?f r) \<and> row_ok (?f r)" using ok r by (intro mint_row_ok) (simp_all add: table_ok_def)
  qed
qed

lemma with_provision_members [simp]:
  "head_generation (with_provision p h) = head_generation h" "member_of (with_provision p h) ''chunks'' = member_of h ''chunks''"
  by (simp_all add: head_generation_def member_of_def with_provision_def)

lemma provision_row_ok:
  assumes "row_ok r"
  shows "migration_evolves r (r\<lparr>mp_workspaceHead := map_option (with_provision p) (mp_workspaceHead r), cm_updatedAt := stamp s r\<rparr>) \<and>
    row_ok (r\<lparr>mp_workspaceHead := map_option (with_provision p) (mp_workspaceHead r), cm_updatedAt := stamp s r\<rparr>)"
proof -
  let ?r = "r\<lparr>mp_workspaceHead := map_option (with_provision p) (mp_workspaceHead r), cm_updatedAt := stamp s r\<rparr>"
  have "sizes_of k ?r = sizes_of k r" for k
    by (cases k; cases "mp_workspaceHead r") (simp_all add: sizes_of_def snapshotChunkSizes_def)
  moreover have "(head_of k ?r = None) = (head_of k r = None)" for k by (cases k) simp_all
  ultimately have k: "heads_kept r ?r" by (simp add: heads_kept_def)
  have "nothing_recorded ?r = nothing_recorded r" "source_fenced ?r = source_fenced r" "snapshot_bound ?r = snapshot_bound r"
    by (auto simp: nothing_recorded_def source_fenced_def snapshot_bound_def)
  then have "mig_ok ?r" using assms by (cases "mp_state r") (simp_all add: row_ok_def mig_ok_def stage_ok_def)
  moreover have "progress_exact ?r" by (rule progress_kept [of r]) (use assms k in \<open>simp_all add: row_ok_def\<close>)
  moreover have "token_scoped ?r" using assms by (simp add: row_ok_def token_scoped_def restorable_def pendingRecovery_def)
  moreover have "ended_kept r ?r" by (simp add: ended_kept_def)
  moreover have "migration_evolves r ?r" by (rule evolvesI) (simp_all add: k ended_kept_def)
  ultimately show ?thesis unfolding row_ok_def by (intro conjI)
qed

lemma saveProvision_step: "table_ok s \<Longrightarrow> saveProvision m p s = (res, t) \<Longrightarrow> table_step s t"
  unfolding saveProvision_def
  by (auto split: option.splits intro!: table_step_update provision_row_ok simp: table_ok_def table_step_refl)


lemma sum_set_bit:
  fixes w :: "512 word" and f :: "nat \<Rightarrow> int"
  assumes "i < L" and "i < 512"
  shows "(\<Sum>j<L. if bit (set_bit i w) j then f j else 0) = (\<Sum>j<L. if bit w j then f j else 0) + (if bit w i then 0 else f i)"
proof -
  have b: "bit (set_bit i w) j = (bit w j \<or> i = j)" for j using assms(2) by (auto simp: bit_set_bit_iff)
  have "(\<Sum>j<L. if bit (set_bit i w) j then f j else 0) = f i + (\<Sum>j\<in>{..<L} - {i}. if bit w j then f j else 0)"
    using assms(1) by (subst sum.remove [of _ i]) (auto simp: b intro!: sum.cong)
  also have "\<dots> = (\<Sum>j<L. if bit w j then f j else 0) + (if bit w i then 0 else f i)"
    using assms(1) by (simp add: sum.remove [of "{..<L}" i])
  finally show ?thesis .
qed

lemma bits_with_bits [simp]:
  "bits_of k (with_bits k w p) = w" "k' \<noteq> k \<Longrightarrow> bits_of k' (with_bits k w p) = bits_of k' p"
  "bits_of k (p\<lparr>rg_bytes := b\<rparr>) = bits_of k p" "bits_of k (p\<lparr>rg_last := l\<rparr>) = bits_of k p"
  by (cases k; cases k'; simp)+

definition no_progress :: "string \<Rightarrow> restore_progress" where
  "no_progress at = \<lparr>rg_workspace = 0, rg_system = 0, rg_bytes = 0, rg_first = at, rg_last = at\<rparr>"

lemma no_progress_bits [simp]: "bits_of k (no_progress at) = 0" "rg_bytes (no_progress at) = 0"
  by (cases k; simp add: no_progress_def)+

lemma record_chunk_Some: "record_chunk k i n at v =
   (let p = (case v of Some p \<Rightarrow> p | None \<Rightarrow> no_progress at) in
     (with_bits k (set_bit i (bits_of k p)) p)\<lparr>rg_bytes := rg_bytes p + (if bit (bits_of k p) i then 0 else n), rg_last := max (rg_last p) at\<rparr>)"
  by (simp add: record_chunk_def no_progress_def cong: option.case_cong)

lemma restoreProgress_update [simp]:
  "head_of k (r\<lparr>cm_restoreProgress := v\<rparr>) = head_of k r" "sizes_of k (r\<lparr>cm_restoreProgress := v\<rparr>) = sizes_of k r"
  "covered k (r\<lparr>cm_restoreProgress := v\<rparr>) p = covered k r p"
proof -
  show h: "head_of k (r\<lparr>cm_restoreProgress := v\<rparr>) = head_of k r" by (cases k) simp_all
  then show z: "sizes_of k (r\<lparr>cm_restoreProgress := v\<rparr>) = sizes_of k r" by (rule sizes_of_head)
  show "covered k (r\<lparr>cm_restoreProgress := v\<rparr>) p = covered k r p" unfolding covered_def z ..
qed

lemma record_chunk_exact:
  assumes ok: "progress_exact r" and i: "i < length (sizes_of k r)" "i < 512" and h: "head_of k r \<noteq> None"
  shows "progress_exact (r\<lparr>cm_restoreProgress := Some (record_chunk k i (sizes_of k r ! i) at (cm_restoreProgress r))\<rparr>)"
proof -
  define p where "p = (case cm_restoreProgress r of Some p \<Rightarrow> p | None \<Rightarrow> no_progress at)"
  define q where "q = record_chunk k i (sizes_of k r ! i) at (cm_restoreProgress r)"
  have p: "rg_bytes p = covered Kind_workspace r p + covered Kind_system r p" "\<And>k. head_of k r = None \<Longrightarrow> bits_of k p = 0"
    using ok by (cases "cm_restoreProgress r"; simp add: p_def progress_exact_def covered_def)+
  have q: "bits_of k q = set_bit i (bits_of k p)" "\<And>k'. k' \<noteq> k \<Longrightarrow> bits_of k' q = bits_of k' p"
    "rg_bytes q = rg_bytes p + (if bit (bits_of k p) i then 0 else sizes_of k r ! i)"
    by (simp_all add: q_def p_def record_chunk_Some Let_def)
  have c: "covered k r q = covered k r p + (if bit (bits_of k p) i then 0 else sizes_of k r ! i)"
    unfolding covered_def q(1) by (rule sum_set_bit [OF i])
  have o': "covered k' r q = covered k' r p" if "k' \<noteq> k" for k' using that by (simp add: covered_def q(2))
  have z: "bits_of k' q = 0" if "head_of k' r = None" for k'
    using that h p(2) q(2) by (cases "k' = k") auto
  have "rg_bytes q = covered Kind_workspace r q + covered Kind_system r q"
    using c o' p(1) q(3) by (cases k) simp_all
  then have "progress_exact (r\<lparr>cm_restoreProgress := Some q\<rparr>)" using z unfolding progress_exact_def by simp
  then show ?thesis by (simp only: q_def)
qed

lemma size_at_Some: "size_at k m i = Some n \<Longrightarrow> head_of k m \<noteq> None \<and> 0 \<le> i \<and> nat i < length (sizes_of k m) \<and> n = sizes_of k m ! nat i"
  by (auto simp: size_at_def sizes_of_def snapshotChunkSizes_def split: if_splits option.splits)

lemma recordRestoreChunk_step:
  assumes ok: "table_ok s" and c: "moves.tracked (mv_rows s) m" and op: "recordRestoreChunk now m k i s = (res, t)"
  shows "table_step s t"
proof (cases "\<exists>g n. mp_generation m = Some g \<and> size_at k m i = Some n \<and> g \<noteq> [] \<and> 0 \<le> i \<and> i \<le> 511")
  case False
  then have "t = s" using op by (auto simp: recordRestoreChunk_def split: option.splits if_splits)
  with ok show ?thesis by (simp add: table_step_refl)
next
  case True
  then obtain g n where g: "mp_generation m = Some g" "size_at k m i = Some n" "g \<noteq> []" "0 \<le> i" "i \<le> 511" by blast
  let ?P = "\<lambda>r. cm_id r = cm_id m \<and> mp_generation r = Some g"
  let ?f = "\<lambda>r. r\<lparr>cm_restoreProgress := Some (record_chunk k (nat i) n (iso_string now) (cm_restoreProgress r))\<rparr>"
  note sz = size_at_Some [OF g(2)]
  have t: "t = s\<lparr>mv_rows := update_where ?P ?f (mv_rows s)\<rparr>" using op g by (simp add: recordRestoreChunk_def)
  show ?thesis unfolding t
  proof (rule table_step_update [OF ok])
    fix r assume r: "r \<in> set (mv_rows s)" "?P r"
    from c obtain x where x: "x \<in> set (mv_rows s)" "migration_evolves m x" by (auto simp: moves.tracked_def)
    have "x = r" using ok x r moves.keyed_at_most_one [of "mv_rows s" x r] by (simp add: table_ok_def migration_evolves_def)
    with x have hk: "head_of k r \<noteq> None" "sizes_of k r = sizes_of k m" using sz by (auto simp: migration_evolves_def heads_kept_def)
    have rok: "row_ok r" using ok r by (simp add: table_ok_def)
    have same: "migration_progress.truncate (?f r) = migration_progress.truncate r" by (simp add: migration_progress.truncate_def)
    have "progress_exact (?f r)"
      using record_chunk_exact [of r "nat i" k "iso_string now"] rok hk sz g(4,5) by (simp add: row_ok_def)
    moreover have "mig_ok (?f r)" using mig_ok_same [OF same] rok by (simp add: row_ok_def)
    moreover have "token_scoped (?f r)" using rok by (simp add: row_ok_def token_scoped_def restorable_def pendingRecovery_def)
    moreover have "heads_kept r (?f r)" using truncate_same(6) [OF same] by (simp add: heads_kept_def sizes_of_def)
    moreover have "same_but_progress r (?f r)" by (auto simp: same_but_progress_def)
    ultimately show "migration_evolves r (?f r) \<and> row_ok (?f r)" by (simp add: migration_evolves_def row_ok_def ended_kept_def)
  qed
qed

subsection \<open>Creating\<close>

lemma new_row_ok: "row_ok (new_row s c u z)"
  by (simp add: row_ok_def new_row_def mig_ok_def stage_ok_def nothing_recorded_def token_scoped_def progress_exact_def)

lemma insert_active_step:
  assumes ok: "table_ok s" and op: "insert_active c u z s = (res, t)"
  shows "table_step s t"
proof -
  let ?row = "new_row s c u z"
  have skip: "table_ok (s\<lparr>mv_next := Suc (mv_next s)\<rparr>)" using ok unfolding table_ok_def by (simp, meson less_SucI)
  show ?thesis
  proof (cases "\<exists>x \<in> set (mv_rows s). migration_clash x ?row")
    case True
    then have "t = s\<lparr>mv_next := Suc (mv_next s)\<rparr>" using op by (simp add: insert_active_def insert_ignore_def)
    with skip show ?thesis by (simp add: table_step_def moves.grows_refl)
  next
    case False
    show ?thesis
    proof (cases "c \<in> set (mv_reverse s)")
      case True
      with False op ok show ?thesis by (simp add: insert_active_def insert_ignore_def table_step_refl)
    next
      case held: False
      with False op have t: "t = s\<lparr>mv_rows := mv_rows s @ [?row], mv_next := Suc (mv_next s)\<rparr>"
        by (simp add: insert_active_def insert_ignore_def Let_def)
      have "cm_id r \<noteq> cm_id ?row" if "r \<in> set (mv_rows s)" for r
      proof -
        from ok that obtain n where "n < mv_next s" "cm_id r = mv_uuid s n" by (auto simp: table_ok_def)
        moreover have "inj (mv_uuid s)" using ok by (simp add: table_ok_def)
        ultimately show ?thesis by (auto simp: new_row_def dest: injD)
      qed
      then have "moves.keyed (mv_rows s @ [?row])" using ok by (simp add: table_ok_def moves.keyed_def uniq_append)
      moreover have "uniq migration_clash (mv_rows s @ [?row])" using False ok by (simp add: table_ok_def uniq_append)
      moreover have "\<exists>n < mv_next t. cm_id r = mv_uuid s n" if "r \<in> set (mv_rows s @ [?row])" for r
        using that skip t by (auto simp: table_ok_def new_row_def)
      ultimately have "table_ok t" using ok new_row_ok [of s c u z] by (auto simp: t table_ok_def)
      then show ?thesis using moves.grows_append by (simp add: table_step_def t)
    qed
  qed
qed

lemma insert_active_Inr:
  assumes "insert_active c u z s = (Inr v, t)"
  shows "(\<exists>x \<in> set (mv_rows s). migration_clash x (new_row s c u z)) \<and> v = None \<and> mv_rows t = mv_rows s \<or>
    (\<forall>x \<in> set (mv_rows s). \<not> migration_clash x (new_row s c u z)) \<and> c \<notin> set (mv_reverse s) \<and> v = Some (new_row s c u z) \<and>
    mv_rows t = mv_rows s @ [new_row s c u z]"
  using assms by (auto simp: insert_active_def insert_ignore_def Let_def split: if_splits)

lemma clash_new_row: "migration_clash x (new_row s c u z) \<longleftrightarrow> active x \<and> cm_computerId x = c"
  by (auto simp: migration_clash_def new_row_def active_def)

subsection \<open>Workers\<close>

text \<open>
  Any number of workers, the sweeps and the restore endpoint over one table. The second component holds every
  copy some worker has read, and a worker may act on any of them at any later time. The clock may jump either
  way, and reverse moves come and go.
\<close>

inductive worker_step :: "(string \<Rightarrow> string) \<Rightarrow> move_db \<times> compute_migration list \<Rightarrow> move_db \<times> compute_migration list \<Rightarrow> bool"
  for sha256 :: "string \<Rightarrow> string" where
  reads: "r \<in> set (mv_rows s) \<Longrightarrow> worker_step sha256 (s, cs) (s, r # cs)"
| creates: "insert_active c u z s = (created, t) \<Longrightarrow> worker_step sha256 (s, cs) (t, cs)"
| transits: "c \<in> set cs \<Longrightarrow> applyTransition c event reason s = (decision, t) \<Longrightarrow> worker_step sha256 (s, cs) (t, cs)"
| mints: "c \<in> set cs \<Longrightarrow> mintRestoreToken sha256 token now c s = (minted, t) \<Longrightarrow> worker_step sha256 (s, cs) (t, cs)"
| saves: "c \<in> set cs \<Longrightarrow> saveProvision c p s = (saved, t) \<Longrightarrow> worker_step sha256 (s, cs) (t, cs)"
| records: "c \<in> set cs \<Longrightarrow> recordRestoreChunk now c k i s = (recorded, t) \<Longrightarrow> worker_step sha256 (s, cs) (t, cs)"
| claims: "claimStale locked limit s = (claimed, t) \<Longrightarrow> worker_step sha256 (s, cs) (t, cs)"
| time: "worker_step sha256 (s, cs) (s\<lparr>mv_clock := now, mv_reverse := held\<rparr>, cs)"

inductive workers :: "(string \<Rightarrow> string) \<Rightarrow> move_db \<times> compute_migration list \<Rightarrow> bool" for sha256 :: "string \<Rightarrow> string" where
  empty: "mv_rows s = [] \<Longrightarrow> inj (mv_uuid s) \<Longrightarrow> workers sha256 (s, [])"
| step: "workers sha256 w \<Longrightarrow> worker_step sha256 w w' \<Longrightarrow> workers sha256 w'"

definition workers_ok :: "move_db \<times> compute_migration list \<Rightarrow> bool" where
  "workers_ok w \<longleftrightarrow> table_ok (fst w) \<and> (\<forall>c \<in> set (snd w). moves.tracked (mv_rows (fst w)) c)"

lemma worker_step_table:
  assumes "worker_step sha256 w w'" and "workers_ok w"
  shows "table_step (fst w) (fst w')"
  using assms
proof (induction rule: worker_step.induct)
  case (time s cs held now)
  then have "table_ok (s\<lparr>mv_clock := now, mv_reverse := held\<rparr>)" by (simp add: workers_ok_def table_ok_def)
  then show ?case by (simp add: table_step_def moves.grows_refl)
qed (auto simp: workers_ok_def table_step_refl intro: insert_active_step applyTransition_step mintRestoreToken_step saveProvision_step
    recordRestoreChunk_step claimStale_step)

lemma worker_step_copies: "worker_step sha256 w w' \<Longrightarrow> c \<in> set (snd w') \<Longrightarrow> c \<in> set (snd w) \<or> c \<in> set (mv_rows (fst w))"
  by (induction rule: worker_step.induct) auto

lemma worker_step_ok:
  assumes "worker_step sha256 w w'" and "workers_ok w"
  shows "workers_ok w'"
proof -
  note t = worker_step_table [OF assms]
  have "moves.tracked (mv_rows (fst w')) c" if "c \<in> set (snd w')" for c
  proof -
    have "moves.tracked (mv_rows (fst w)) c"
      using worker_step_copies [OF assms(1) that] assms(2) moves.tracked_mem by (auto simp: workers_ok_def)
    with t moves.tracked_grows show ?thesis by (auto simp: table_step_def)
  qed
  with t show ?thesis by (simp add: workers_ok_def table_step_def)
qed

lemma workers_invariant: "workers sha256 w \<Longrightarrow> workers_ok w"
proof (induction rule: workers.induct)
  case (empty s)
  then show ?case by (simp add: workers_ok_def table_ok_def moves.keyed_def)
qed (rule worker_step_ok)

lemma worker_steps_table: "(worker_step sha256)\<^sup>*\<^sup>* w w' \<Longrightarrow> workers_ok w \<Longrightarrow> table_step (fst w) (fst w') \<and> workers_ok w'"
proof (induction rule: rtranclp_induct)
  case base
  then show ?case by (simp add: workers_ok_def table_step_refl)
next
  case (step y z)
  then show ?case using worker_step_table worker_step_ok table_step_trans by blast
qed

subsection \<open>Properties\<close>

text \<open>C20: however the workers interleave, a computer has at most one active migration, every migration keeps the
  promises of its state, and a restore capability is stored only with a migration that may still be restored.\<close>

theorem one_active_migration:
  assumes "workers sha256 (s, copies)"
  shows "(\<forall>a \<in> set (mv_rows s). \<forall>b \<in> set (mv_rows s). active a \<longrightarrow> active b \<longrightarrow> cm_computerId a = cm_computerId b \<longrightarrow> a = b) \<and>
    (\<forall>r \<in> set (mv_rows s). mig_ok r \<and> (cm_restoreTokenSha256 r \<noteq> None \<longrightarrow> restorable r))"
proof -
  from workers_invariant [OF assms] have ok: "table_ok s" by (simp add: workers_ok_def)
  then have u: "uniq migration_clash (mv_rows s)" by (simp add: table_ok_def)
  have "a = b" if "a \<in> set (mv_rows s)" "b \<in> set (mv_rows s)" "active a" "active b" "cm_computerId a = cm_computerId b" for a b
    using active_moves.uniq_at_most_one [OF u that(1,2)] that by (simp add: migration_clash_def)
  with ok show ?thesis by (auto simp: table_ok_def row_ok_def token_scoped_def)
qed

text \<open>C21: a transition never overwrites what its worker has not seen: when it is applied, the row in the table is the copy
  the worker acted on (up to the progress of a restore, which it keeps), the row becomes what the reducer says,
  and no other row changes.\<close>

theorem no_lost_transition:
  assumes "workers sha256 (s, copies)" and "c \<in> set copies" and "applyTransition c event reason s = (Inr (True, r', effect), t)"
  shows "\<exists>m. reduceMigration c event = (True, m, effect) \<and> (\<exists>r \<in> set (mv_rows s). same_but_progress c r \<and>
      r' = transition_row s c (with_reason c event reason m) r \<and>
      mv_rows t = map (\<lambda>x. if cm_id x = cm_id r then r' else x) (mv_rows s))"
  using assms(3)
proof (cases rule: applyTransition_cases)
  case (applied m eff r)
  from workers_invariant [OF assms(1)] assms(2) have ok: "table_ok s" and c: "moves.tracked (mv_rows s) c" by (simp_all add: workers_ok_def)
  have same: "same_but_progress c r" using applied(2,3) ok c tracked_same by blast
  have r: "x = r" if "x \<in> set (mv_rows s)" "cm_id x = cm_id r" for x
    using ok that applied(2) moves.keyed_at_most_one [of "mv_rows s" x r] by (simp add: table_ok_def)
  let ?f = "transition_row s c (with_reason c event reason m)"
  have r': "r' = ?f r" and e: "effect = eff" using applied(4) by simp_all
  have "(if current c x then ?f x else x) = (if cm_id x = cm_id r then r' else x)" if "x \<in> set (mv_rows s)" for x
  proof (cases "cm_id x = cm_id r")
    case True
    with that r have "x = r" by blast
    with applied(3) r' show ?thesis by simp
  next
    case False
    with applied(3) show ?thesis by (simp add: current_def)
  qed
  then have "mv_rows t = map (\<lambda>x. if cm_id x = cm_id r then r' else x) (mv_rows s)"
    unfolding applied(5) update_where_def by simp
  with applied(1,2) same r' e show ?thesis by blast
qed simp_all

text \<open>C34: what has ended stays as it ended: whatever the workers do later, a migration in a terminal state keeps its
  state, its outcome, its attempts and its generation.\<close>

theorem ended_migration_final:
  assumes "workers sha256 (s, copies)" and "r \<in> set (mv_rows s)" and "terminal r" and "(worker_step sha256)\<^sup>*\<^sup>* (s, copies) (t, copies')"
  shows "\<exists>r' \<in> set (mv_rows t). cm_id r' = cm_id r \<and> mp_state r' = mp_state r \<and> mp_lastError r' = mp_lastError r \<and>
    mp_migratedEtag r' = mp_migratedEtag r \<and> mp_generation r' = mp_generation r \<and> mp_attempts r' = mp_attempts r"
proof -
  have "moves.grows (mv_rows s) (mv_rows t)"
    using worker_steps_table [OF assms(4) workers_invariant [OF assms(1)]] by (simp add: table_step_def)
  then obtain r' where "r' \<in> set (mv_rows t)" "migration_evolves r r'" using assms(2) by (rule moves.grows_mem)
  with assms(3) show ?thesis by (auto simp: migration_evolves_def ended_kept_def)
qed

text \<open>C35: the progress of a restore is exact: the bytes of a migration are the sizes of the chunks its two sets record, each counted once
  however often and by whom it was fetched.\<close>

theorem restore_progress_exact:
  assumes "workers sha256 (s, copies)" and "r \<in> set (mv_rows s)" and "cm_restoreProgress r = Some p"
  shows "rg_bytes p = (\<Sum>i<length (sizes_of Kind_workspace r). if bit (rg_workspace p) i then sizes_of Kind_workspace r ! i else 0) +
    (\<Sum>i<length (sizes_of Kind_system r). if bit (rg_system p) i then sizes_of Kind_system r ! i else 0)"
  using workers_invariant [OF assms(1)] assms(2,3)
  by (auto simp: workers_ok_def table_ok_def row_ok_def progress_exact_def covered_def)

text \<open>Starting a migration joins the active one or opens exactly one: without interference, the answer is the computer's
  active migration when it is of this user and size (a conflict otherwise), and else a new row, unless a
  reverse move holds the computer, which is a conflict and leaves the table alone.\<close>

lemma create_or_get_active:
  assumes "is_uuid (toLowerCase (mi_computerId i))" and "is_uuid (toLowerCase (mi_userId i))"
  shows "createOrGetActive (\<lambda>_ s. s) i s =
    (let c = toLowerCase (mi_computerId i); u = toLowerCase (mi_userId i); next = s\<lparr>mv_next := Suc (mv_next s)\<rparr> in
     case find (\<lambda>r. cm_computerId r = c \<and> active r) (mv_rows s) of
       Some m \<Rightarrow> (if cm_userId m = u \<and> cm_toSize m = mi_toSize i then Inr m else Inl Migration_conflict, next)
     | None \<Rightarrow> if c \<in> set (mv_reverse s) then (Inl Migration_conflict, s)
         else (Inr (new_row s c u (mi_toSize i)), next\<lparr>mv_rows := mv_rows s @ [new_row s c u (mi_toSize i)]\<rparr>))"
proof -
  let ?c = "toLowerCase (mi_computerId i)" and ?u = "toLowerCase (mi_userId i)" and ?next = "s\<lparr>mv_next := Suc (mv_next s)\<rparr>"
  let ?P = "\<lambda>r. cm_computerId r = ?c \<and> active r"
  define n where "n = (4 :: nat)"
  have five: "5 = Suc n" by (simp add: n_def)
  have c: "createOrGetActive (\<lambda>_ s. s) i s = create_attempts (Suc n) (\<lambda>_ s. s) i ?c ?u s"
    using assms by (simp only: createOrGetActive_def as_uuid_def five if_True)
  show ?thesis
  proof (cases "find ?P (mv_rows s)")
    case None
    then have n: "\<forall>x \<in> set (mv_rows s). \<not> migration_clash x (new_row s ?c ?u (mi_toSize i))"
      by (auto simp: clash_new_row find_None_iff)
    have ids: "cm_userId (new_row s ?c ?u z) = ?u" "cm_toSize (new_row s ?c ?u z) = z" for z by (simp_all add: new_row_def)
    show ?thesis
    proof (cases "?c \<in> set (mv_reverse s)")
      case True
      with n have "insert_active ?c ?u (mi_toSize i) s = (Inl Migration_conflict, s)"
        by (simp add: insert_active_def insert_ignore_def Let_def)
      with None True show ?thesis unfolding c by (simp add: Let_def)
    next
      case False
      with n have "insert_active ?c ?u (mi_toSize i) s = (Inr (Some (new_row s ?c ?u (mi_toSize i))),
          s\<lparr>mv_rows := mv_rows s @ [new_row s ?c ?u (mi_toSize i)], mv_next := Suc (mv_next s)\<rparr>)"
        by (simp add: insert_active_def insert_ignore_def Let_def)
      with None False ids show ?thesis unfolding c by (simp add: Let_def)
    qed
  next
    case (Some m)
    then have "m \<in> set (mv_rows s)" "?P m" using find_Some_iff_first [of ?P] by blast+
    then have "\<exists>x \<in> set (mv_rows s). migration_clash x (new_row s ?c ?u (mi_toSize i))" using clash_new_row by blast
    then have "insert_active ?c ?u (mi_toSize i) s = (Inr None, ?next)"
      by (simp add: insert_active_def insert_ignore_def)
    moreover have "readActiveByComputer (mi_computerId i) ?next = (Inr (Some m), ?next)"
      using Some assms(1) by (simp add: readActiveByComputer_def as_uuid_def)
    ultimately show ?thesis using Some unfolding c by (simp add: Let_def)
  qed
qed

subsection \<open>Witnesses\<close>

text \<open>A table with one migration, driven by a worker that reads the row before each transition.\<close>

definition demo_moves :: move_db where
  "demo_moves = \<lparr>mv_rows = [], mv_clock = 0, mv_next = 0, mv_uuid = (\<lambda>n. replicate n CHR ''x''), mv_reverse = []\<rparr>"

definition demo_created :: move_db where
  "demo_created = snd (insert_active ''c'' ''u'' Size_standard demo_moves)"

primrec advance_all :: "move_db \<Rightarrow> MigrationEvent list \<Rightarrow> move_db" where
  "advance_all s [] = s"
| "advance_all s (e # es) = advance_all (snd (applyTransition (hd (mv_rows s)) e None s)) es"

definition demo_generation :: string where
  "demo_generation = ''00000000-0000-0000-0000-000000000000''"

definition demo_head :: snapshot_head where
  "demo_head = [(''generation'', JStr demo_generation), (''chunks'', JArr [JObj [(''size'', JInt 5)], JObj [(''size'', JInt 7)]])]"

definition demo_exported :: move_db where
  "demo_exported = advance_all demo_created [ME_fenced ''e'' None demo_generation, ME_exported demo_head None]"

lemma demo_created_workers: "workers sha256 (demo_created, [])"
proof -
  have "workers sha256 (demo_moves, [])"
    by (rule workers.empty) (auto simp: demo_moves_def inj_def intro: injI dest: arg_cong [of _ _ length])
  moreover obtain v where "insert_active ''c'' ''u'' Size_standard demo_moves = (v, demo_created)"
    unfolding demo_created_def by (cases "insert_active ''c'' ''u'' Size_standard demo_moves") auto
  ultimately show ?thesis by (blast intro: workers.step worker_step.creates)
qed

lemma workers_read: "workers sha256 (s, cs) \<Longrightarrow> mv_rows s \<noteq> [] \<Longrightarrow> workers sha256 (s, hd (mv_rows s) # cs)"
  by (erule workers.step) (rule worker_step.reads, simp)

lemma advance_workers:
  assumes "workers sha256 (s, cs)" and "mv_rows s \<noteq> []"
  shows "\<exists>cs'. workers sha256 (advance_all s es, cs') \<and> mv_rows (advance_all s es) \<noteq> []"
  using assms
proof (induction es arbitrary: s cs)
  case (Cons e es)
  let ?c = "hd (mv_rows s)"
  obtain v t where a: "applyTransition ?c e None s = (v, t)" by (cases "applyTransition ?c e None s")
  have r: "workers sha256 (s, ?c # cs)" using Cons.prems by (rule workers_read)
  then have t: "workers sha256 (t, ?c # cs)" by (rule workers.step) (rule worker_step.transits [OF _ a], simp)
  have "table_step s t" using a workers_invariant [OF r] by (auto simp: workers_ok_def intro: applyTransition_step)
  then have "mv_rows t \<noteq> []" using Cons.prems(2) by (auto simp: table_step_def moves.grows_def)
  with t Cons.IH show ?case by (simp add: a)
qed auto

lemma demo_rows: "mv_rows demo_created \<noteq> []" "cm_id (hd (mv_rows demo_created)) = []"
  by code_simp+

theorem one_active_migration_witness:
  "\<not> (\<exists>a \<in> set (mv_rows demo_created). \<exists>b \<in> set (mv_rows demo_created). active a \<and> active b \<and> cm_computerId a = cm_computerId b \<and> a \<noteq> b) \<and>
    active (hd (mv_rows demo_created)) \<and> mig_ok (hd (mv_rows demo_created))"
proof -
  note one = one_active_migration [OF demo_created_workers [of id]]
  have "active (hd (mv_rows demo_created))" by code_simp
  moreover have "mig_ok (hd (mv_rows demo_created))" using one demo_rows(1) by simp
  ultimately show ?thesis using one by blast
qed

theorem no_lost_transition_witness:
  "\<exists>r \<in> set (mv_rows demo_created). same_but_progress (hd (mv_rows demo_created)) r"
proof -
  let ?c = "hd (mv_rows demo_created)"
  have w: "workers id (demo_created, [?c])"
    using demo_created_workers demo_rows(1) by (rule workers_read)
  have "(case fst (applyTransition ?c (ME_fenced ''e'' None demo_generation) None demo_created) of
      Inr (a, _, _) \<Rightarrow> a | Inl _ \<Rightarrow> False)" by code_simp
  then obtain r' eff t where "applyTransition ?c (ME_fenced ''e'' None demo_generation) None demo_created = (Inr (True, r', eff), t)"
    by (cases "applyTransition ?c (ME_fenced ''e'' None demo_generation) None demo_created") (auto split: sum.splits)
  from no_lost_transition [OF w _ this] show ?thesis by auto
qed

theorem ended_migration_final_witness:
  "\<exists>r' \<in> set (mv_rows ((advance_all demo_created [ME_fresh_provision])\<lparr>mv_clock := 5, mv_reverse := []\<rparr>)).
     mp_state r' = MS_committed"
proof -
  let ?s = "advance_all demo_created [ME_fresh_provision]"
  obtain cs where w: "workers id (?s, cs)" "mv_rows ?s \<noteq> []" using advance_workers [OF demo_created_workers demo_rows(1)] by blast
  have st: "mp_state (hd (mv_rows ?s)) = MS_committed" by code_simp
  then have "terminal (hd (mv_rows ?s))" by (simp add: terminal_def)
  moreover have "hd (mv_rows ?s) \<in> set (mv_rows ?s)" using w(2) by simp
  moreover have "(worker_step id)\<^sup>*\<^sup>* (?s, cs) (?s\<lparr>mv_clock := 5, mv_reverse := []\<rparr>, cs)" by (rule r_into_rtranclp) (rule worker_step.time)
  ultimately show ?thesis using ended_migration_final [OF w(1)] st by metis
qed

theorem restore_progress_exact_witness:
  "map_option rg_bytes (cm_restoreProgress (hd (mv_rows (snd (recordRestoreChunk 0 (hd (mv_rows demo_exported)) Kind_workspace 1 demo_exported))))) = Some 7"
proof -
  let ?c = "hd (mv_rows demo_exported)"
  obtain v t where r: "recordRestoreChunk 0 ?c Kind_workspace 1 demo_exported = (v, t)" by (cases "recordRestoreChunk 0 ?c Kind_workspace 1 demo_exported")
  obtain cs where w: "workers id (demo_exported, cs)" "mv_rows demo_exported \<noteq> []"
    unfolding demo_exported_def using advance_workers [OF demo_created_workers demo_rows(1)] by blast
  then have "workers id (demo_exported, ?c # cs)" by (rule workers_read)
  then have "workers id (t, ?c # cs)" by (rule workers.step) (rule worker_step.records [OF _ r], simp)
  note exact = restore_progress_exact [OF this]
  have "mv_rows (snd (recordRestoreChunk 0 ?c Kind_workspace 1 demo_exported)) \<noteq> []"
    "cm_restoreProgress (hd (mv_rows (snd (recordRestoreChunk 0 ?c Kind_workspace 1 demo_exported)))) \<noteq> None"
    "sizes_of Kind_workspace (hd (mv_rows (snd (recordRestoreChunk 0 ?c Kind_workspace 1 demo_exported)))) = [5, 7]"
    "sizes_of Kind_system (hd (mv_rows (snd (recordRestoreChunk 0 ?c Kind_workspace 1 demo_exported)))) = []"
    "map_option (\<lambda>p. (bit (rg_workspace p) 0, bit (rg_workspace p) 1))
      (cm_restoreProgress (hd (mv_rows (snd (recordRestoreChunk 0 ?c Kind_workspace 1 demo_exported))))) = Some (False, True)"
    by code_simp+
  then show ?thesis using exact [of "hd (mv_rows t)"] unfolding r snd_conv
    by (auto simp: lessThan_Suc numeral_2_eq_2)
qed

lemma create_or_get_active_witness:
  "fst (createOrGetActive (\<lambda>_ s. s) \<lparr>mi_computerId = demo_generation, mi_userId = demo_generation, mi_toSize = Size_premium\<rparr>
     (demo_moves\<lparr>mv_reverse := [demo_generation]\<rparr>)) = Inl Migration_conflict"
proof -
  let ?i = "\<lparr>mi_computerId = demo_generation, mi_userId = demo_generation, mi_toSize = Size_premium\<rparr>"
  have "is_uuid (toLowerCase (mi_computerId ?i))" "is_uuid (toLowerCase (mi_userId ?i))" "toLowerCase demo_generation = demo_generation"
    by code_simp+
  with create_or_get_active [of ?i "demo_moves\<lparr>mv_reverse := [demo_generation]\<rparr>"] show ?thesis
    by (simp add: Let_def demo_moves_def)
qed

end
