(* ===== verification/Procedures.thy ===== *)
theory Procedures
  imports Ports
begin

text \<open>
  Reasoning about procedures that may throw: a triple says what holds when a procedure returns and what holds
  when it throws, from any state of its precondition. The rules follow the shape of the code, one per construct.
\<close>

text \<open>\<^verbatim>\<open>try { m } catch (error) { h(error) }\<close>: what was done before the exception stays done.\<close>

definition try_catch :: "('e, 's, 'a) procedure \<Rightarrow> ('e \<Rightarrow> ('f, 's, 'a) procedure) \<Rightarrow> ('f, 's, 'a) procedure" where
  "try_catch m h s = (case m s of (Inl e, t) \<Rightarrow> h e t | (Inr x, t) \<Rightarrow> (Inr x, t))"

definition valid :: "('s \<Rightarrow> bool) \<Rightarrow> ('e, 's, 'a) procedure \<Rightarrow> ('a \<Rightarrow> 's \<Rightarrow> bool) \<Rightarrow> ('e \<Rightarrow> 's \<Rightarrow> bool) \<Rightarrow> bool" where
  "valid P m Q E \<longleftrightarrow> (\<forall>s. P s \<longrightarrow> (case m s of (Inr x, t) \<Rightarrow> Q x t | (Inl e, t) \<Rightarrow> E e t))"

named_theorems triple "rules for procedures, one per construct"

lemma validI: "(\<And>s x t. P s \<Longrightarrow> m s = (Inr x, t) \<Longrightarrow> Q x t) \<Longrightarrow> (\<And>s e t. P s \<Longrightarrow> m s = (Inl e, t) \<Longrightarrow> E e t) \<Longrightarrow> valid P m Q E"
  by (auto simp: valid_def split: prod.split sum.split)

lemma valid_Inr: "valid P m Q E \<Longrightarrow> P s \<Longrightarrow> m s = (Inr x, t) \<Longrightarrow> Q x t"
  and valid_Inl: "valid P m Q E \<Longrightarrow> P s \<Longrightarrow> m s = (Inl e, t) \<Longrightarrow> E e t"
  by (force simp: valid_def)+

lemma valid_return [triple]: "(\<And>s. P s \<Longrightarrow> Q x s) \<Longrightarrow> valid P (sreturn x) Q E"
  and valid_throw [triple]: "(\<And>s. P s \<Longrightarrow> E e s) \<Longrightarrow> valid P (sthrow e) Q E"
  by (simp_all add: valid_def)

lemma valid_bind:
  assumes m: "valid P m R E" and f: "\<And>x. valid (R x) (f x) Q E"
  shows "valid P (sbind m f) Q E"
  unfolding valid_def
proof (intro allI impI)
  fix s assume "P s"
  obtain r t where r: "m s = (r, t)" by (cases "m s")
  show "case sbind m f s of (Inr x, t) \<Rightarrow> Q x t | (Inl e, t) \<Rightarrow> E e t"
  proof (cases r)
    case (Inl e)
    have "E e t" using valid_Inl [OF m \<open>P s\<close>] r Inl by simp
    then show ?thesis by (simp add: r Inl)
  next
    case (Inr x)
    have "R x t" using valid_Inr [OF m \<open>P s\<close>] r Inr by simp
    with f [of x] Inr r show ?thesis by (simp add: valid_def)
  qed
qed

lemma valid_catch:
  assumes m: "valid P m Q R" and h: "\<And>e. valid (R e) (h e) Q E"
  shows "valid P (try_catch m h) Q E"
  unfolding valid_def
proof (intro allI impI)
  fix s assume "P s"
  obtain r t where r: "m s = (r, t)" by (cases "m s")
  show "case try_catch m h s of (Inr x, t) \<Rightarrow> Q x t | (Inl e, t) \<Rightarrow> E e t"
  proof (cases r)
    case (Inl e)
    have "R e t" using valid_Inl [OF m \<open>P s\<close>] r Inl by simp
    with h [of e] Inl r show ?thesis by (simp add: valid_def try_catch_def)
  next
    case (Inr x)
    have "Q x t" using valid_Inr [OF m \<open>P s\<close>] r Inr by simp
    then show ?thesis by (simp add: try_catch_def r Inr)
  qed
qed

lemma valid_if [triple]: "(c \<Longrightarrow> valid P a Q E) \<Longrightarrow> (\<not> c \<Longrightarrow> valid P b Q E) \<Longrightarrow> valid P (if c then a else b) Q E"
  by simp

lemma valid_case_option [triple]:
  "(v = None \<Longrightarrow> valid P a Q E) \<Longrightarrow> (\<And>x. v = Some x \<Longrightarrow> valid P (f x) Q E) \<Longrightarrow> valid P (case v of None \<Rightarrow> a | Some x \<Rightarrow> f x) Q E"
  by (cases v) auto

lemma valid_weaken:
  assumes "valid P m Q E" and "\<And>s. P' s \<Longrightarrow> P s" and "\<And>x s. Q x s \<Longrightarrow> Q' x s" and "\<And>e s. E e s \<Longrightarrow> E' e s"
  shows "valid P' m Q' E'"
  using assms unfolding valid_def by (metis (no_types, lifting) case_prod_beta sum.case_eq_if)

lemma valid_pure: "(c \<Longrightarrow> valid P m Q E) \<Longrightarrow> valid (\<lambda>s. P s \<and> c) m Q E"
  by (simp add: valid_def)

lemma valid_False [triple]: "valid (\<lambda>_. False) m Q E"
  by (simp add: valid_def)

subsection \<open>Views that a procedure leaves alone\<close>

text \<open>Whether it returns or throws.\<close>

definition leaves :: "('s \<Rightarrow> 'b) \<Rightarrow> ('e, 's, 'a) procedure \<Rightarrow> bool" where
  "leaves v m \<longleftrightarrow> (\<forall>s. v (snd (m s)) = v s)"

named_theorems untouched "operations that leave a view of the state as it is"

lemma leavesI: "(\<And>s r t. m s = (r, t) \<Longrightarrow> v t = v s) \<Longrightarrow> leaves v m"
  by (auto simp: leaves_def) (metis prod.collapse)

lemma leavesD: "leaves v m \<Longrightarrow> m s = (r, t) \<Longrightarrow> v t = v s"
  by (metis leaves_def snd_conv)

lemma leaves_basic [untouched]: "leaves v (sreturn x)" "leaves v (sthrow e)" "leaves v (sget f)" "leaves v (slift r)"
  by (simp_all add: leaves_def sreturn_def sthrow_def sget_def slift_def)

lemma leaves_bind [untouched]: "leaves v m \<Longrightarrow> (\<And>x. leaves v (f x)) \<Longrightarrow> leaves v (sbind m f)"
proof (rule leavesI)
  fix s r t assume m: "leaves v m" and f: "\<And>x. leaves v (f x)" and run: "sbind m f s = (r, t)"
  show "v t = v s"
  proof (cases "m s")
    case (Pair x u)
    with leavesD [OF m] have "v u = v s" by blast
    moreover have "v t = v u"
    proof (cases x)
      case (Inl e)
      with run Pair show ?thesis by (simp add: sbind_def)
    next
      case (Inr y)
      with run Pair have "f y u = (r, t)" by (simp add: sbind_def)
      with leavesD [OF f] show ?thesis by blast
    qed
    ultimately show ?thesis by simp
  qed
qed

lemma leaves_if [untouched]: "(c \<Longrightarrow> leaves v a) \<Longrightarrow> (\<not> c \<Longrightarrow> leaves v b) \<Longrightarrow> leaves v (if c then a else b)"
  by simp

lemma leaves_option [untouched]: "leaves v a \<Longrightarrow> (\<And>x. leaves v (f x)) \<Longrightarrow> leaves v (case r of None \<Rightarrow> a | Some x \<Rightarrow> f x)"
  by (cases r) auto

lemma leaves_transaction [untouched]: "leaves v m \<Longrightarrow> leaves v (transaction m)"
  by (rule leavesI) (auto simp: transaction_def dest: leavesD split: prod.splits sum.splits)

lemma leaves_case_list [untouched]:
  "leaves v a \<Longrightarrow> (\<And>x. leaves v (f x)) \<Longrightarrow> (\<And>x y zs. leaves v (g x y zs)) \<Longrightarrow>
     leaves v (case r of [] \<Rightarrow> a | [x] \<Rightarrow> f x | x # y # zs \<Rightarrow> g x y zs)"
  by (auto split: list.split)

lemma leaves_case_sum [untouched]: "(\<And>p. leaves v (f p)) \<Longrightarrow> (\<And>a. leaves v (g a)) \<Longrightarrow> leaves v (case r of Inl p \<Rightarrow> f p | Inr a \<Rightarrow> g a)"
  by (cases r) auto

lemma leaves_case_pair [untouched]: "(\<And>a b. leaves v (f a b)) \<Longrightarrow> leaves v (case r of (a, b) \<Rightarrow> f a b)"
  by (cases r) auto

subsection \<open>Sequences of writes\<close>

text \<open>A relation between states that writes compose to: what holds of every write holds of a transaction.\<close>

locale transition_preorder =
  fixes R :: "'s \<Rightarrow> 's \<Rightarrow> bool"
  assumes R_refl: "R s s" and R_trans: "R a b \<Longrightarrow> R b c \<Longrightarrow> R a c"
begin

definition within :: "('e, 's, 'a) procedure \<Rightarrow> bool" where
  "within m \<longleftrightarrow> (\<forall>s x t. m s = (Inr x, t) \<longrightarrow> R s t)"

lemma withinI: "(\<And>s x t. m s = (Inr x, t) \<Longrightarrow> R s t) \<Longrightarrow> within m"
  by (simp add: within_def)

lemma withinD: "within m \<Longrightarrow> m s = (Inr x, t) \<Longrightarrow> R s t"
  by (simp add: within_def)

lemma within_still: "(\<And>s x t. m s = (Inr x, t) \<Longrightarrow> t = s) \<Longrightarrow> within m"
  using R_refl by (auto simp: within_def)

lemma within_return: "within (sreturn x)" and within_throw: "within (sthrow e)" and within_get: "within (sget f)" and within_lift: "within (slift r)"
  by (auto intro: within_still)

lemma within_bind_on: "within m \<Longrightarrow> (\<And>s x t. m s = (Inr x, t) \<Longrightarrow> within (f x)) \<Longrightarrow> within (sbind m f)"
proof (rule withinI)
  fix s y u assume m: "within m" and f: "\<And>s x t. m s = (Inr x, t) \<Longrightarrow> within (f x)" and b: "sbind m f s = (Inr y, u)"
  from sbind_eq_InrD [OF b] obtain x t where "m s = (Inr x, t)" "f x t = (Inr y, u)" by blast
  then show "R s u" using withinD [OF m] withinD [OF f] R_trans by blast
qed

lemma within_bind: "within m \<Longrightarrow> (\<And>x. within (f x)) \<Longrightarrow> within (sbind m f)"
  by (rule within_bind_on)

lemma within_if: "(c \<Longrightarrow> within a) \<Longrightarrow> (\<not> c \<Longrightarrow> within b) \<Longrightarrow> within (if c then a else b)"
  by simp

lemma within_case_option: "within a \<Longrightarrow> (\<And>x. v = Some x \<Longrightarrow> within (f x)) \<Longrightarrow> within (case v of None \<Rightarrow> a | Some x \<Rightarrow> f x)"
  by (cases v) auto

lemma transaction_within: "within m \<Longrightarrow> R s (snd (transaction m s))"
  by (auto simp: transaction_def within_def R_refl split: prod.split sum.split)

lemma within_transaction: "within m \<Longrightarrow> within (transaction m)"
  by (auto simp: within_def transaction_def split: prod.splits sum.splits)

lemmas within_rules = within_return within_throw within_get within_lift within_if within_case_option

end

end
