(* ===== verification/Placement.thy ===== *)
theory Placement
  imports Migration_Store Procedures
begin

text \<open>
  Where a computer lives (\<^verbatim>\<open>app/src/server/lib/compute/placement.ts\<close>): the only writer of the placements and of the
  usage ledger. A stored row has texts where the code has enumerations; reading parses it strictly. Every write of an existing row
  is a compare-and-swap on its generation, lease epoch and state, with the guards its caller adds. The database's clock
  and \<^verbatim>\<open>updated_at\<close> are in microseconds, the instants the application writes and sees in milliseconds. Identities are
  hyphenated uuids, so \<^verbatim>\<open>::uuid\<close> only lowers their case. A transaction that throws changes nothing; the
  locks that order the transactions are the order of the operations here.
\<close>

subsection \<open>Enumerations\<close>

datatype PlacementProvider = Cloudflare | Aws_ec2
datatype WorkspaceStore = R2 | S3 | Ebs

datatype PlacementState = PROVISIONING | STOPPED | LEASED | STARTING | MOUNTING | RUNNING | DRAINING | STOPPING
  | UNCONFIRMED | RECOVERING | RETIRING | RETIRED | PURGE_ELIGIBLE | WARMING | READY | CLAIMED

definition PLACEMENT_PROVIDERS :: "PlacementProvider list" where
  "PLACEMENT_PROVIDERS = [Cloudflare, Aws_ec2]"

definition WORKSPACE_STORES :: "WorkspaceStore list" where
  "WORKSPACE_STORES = [R2, S3, Ebs]"

definition PLACEMENT_STATES :: "PlacementState list" where
  "PLACEMENT_STATES = [PROVISIONING, STOPPED, LEASED, STARTING, MOUNTING, RUNNING, DRAINING, STOPPING,
     UNCONFIRMED, RECOVERING, RETIRING, RETIRED, PURGE_ELIGIBLE, WARMING, READY, CLAIMED]"

fun provider_text :: "PlacementProvider \<Rightarrow> string" where
  "provider_text Cloudflare = ''cloudflare''"
| "provider_text Aws_ec2 = ''aws-ec2''"

fun workspace_store_text :: "WorkspaceStore \<Rightarrow> string" where
  "workspace_store_text R2 = ''r2''"
| "workspace_store_text S3 = ''s3''"
| "workspace_store_text Ebs = ''ebs''"

fun placement_state_text :: "PlacementState \<Rightarrow> string" where
  "placement_state_text PROVISIONING = ''PROVISIONING''"
| "placement_state_text STOPPED = ''STOPPED''"
| "placement_state_text LEASED = ''LEASED''"
| "placement_state_text STARTING = ''STARTING''"
| "placement_state_text MOUNTING = ''MOUNTING''"
| "placement_state_text RUNNING = ''RUNNING''"
| "placement_state_text DRAINING = ''DRAINING''"
| "placement_state_text STOPPING = ''STOPPING''"
| "placement_state_text UNCONFIRMED = ''UNCONFIRMED''"
| "placement_state_text RECOVERING = ''RECOVERING''"
| "placement_state_text RETIRING = ''RETIRING''"
| "placement_state_text RETIRED = ''RETIRED''"
| "placement_state_text PURGE_ELIGIBLE = ''PURGE_ELIGIBLE''"
| "placement_state_text WARMING = ''WARMING''"
| "placement_state_text READY = ''READY''"
| "placement_state_text CLAIMED = ''CLAIMED''"

fun STORES_FOR_PROVIDER :: "PlacementProvider \<Rightarrow> WorkspaceStore list" where
  "STORES_FOR_PROVIDER Cloudflare = [R2, S3]"
| "STORES_FOR_PROVIDER Aws_ec2 = [Ebs]"

fun DEFAULT_STORE :: "PlacementProvider \<Rightarrow> WorkspaceStore" where
  "DEFAULT_STORE Cloudflare = R2"
| "DEFAULT_STORE Aws_ec2 = Ebs"

fun INITIAL_LEASE_EPOCH :: "PlacementProvider \<Rightarrow> int" where
  "INITIAL_LEASE_EPOCH Cloudflare = 0"
| "INITIAL_LEASE_EPOCH Aws_ec2 = 1"

definition RUNNING_CLASS_STATES :: "PlacementState list" where
  "RUNNING_CLASS_STATES = filter (\<lambda>s. s \<noteq> STOPPED \<and> s \<noteq> RETIRED \<and> s \<noteq> PURGE_ELIGIBLE) PLACEMENT_STATES"

fun PLACEMENT_TRANSITIONS :: "PlacementState \<Rightarrow> PlacementState list" where
  "PLACEMENT_TRANSITIONS PROVISIONING = [RUNNING, STOPPED, UNCONFIRMED]"
| "PLACEMENT_TRANSITIONS STOPPED = [RETIRING]"
| "PLACEMENT_TRANSITIONS LEASED = [STARTING, STOPPED, UNCONFIRMED]"
| "PLACEMENT_TRANSITIONS STARTING = [MOUNTING, UNCONFIRMED]"
| "PLACEMENT_TRANSITIONS MOUNTING = [RUNNING, UNCONFIRMED]"
| "PLACEMENT_TRANSITIONS RUNNING = [DRAINING, RETIRING, UNCONFIRMED]"
| "PLACEMENT_TRANSITIONS DRAINING = [STOPPING, UNCONFIRMED]"
| "PLACEMENT_TRANSITIONS STOPPING = [STOPPED, UNCONFIRMED]"
| "PLACEMENT_TRANSITIONS UNCONFIRMED = [RECOVERING]"
| "PLACEMENT_TRANSITIONS RECOVERING = [STOPPED, RETIRING, UNCONFIRMED]"
| "PLACEMENT_TRANSITIONS RETIRING = [RETIRED, STOPPED, RUNNING, UNCONFIRMED]"
| "PLACEMENT_TRANSITIONS RETIRED = [PURGE_ELIGIBLE]"
| "PLACEMENT_TRANSITIONS PURGE_ELIGIBLE = []"
| "PLACEMENT_TRANSITIONS WARMING = [READY, UNCONFIRMED]"
| "PLACEMENT_TRANSITIONS READY = [CLAIMED, UNCONFIRMED]"
| "PLACEMENT_TRANSITIONS CLAIMED = [UNCONFIRMED]"

fun RECONCILER_TRANSITIONS :: "PlacementState \<Rightarrow> PlacementState list" where
  "RECONCILER_TRANSITIONS RUNNING = [STOPPED]"
| "RECONCILER_TRANSITIONS UNCONFIRMED = [RETIRED]"
| "RECONCILER_TRANSITIONS RECOVERING = [RETIRED]"
| "RECONCILER_TRANSITIONS _ = []"

subsection \<open>Rows\<close>

text \<open>The columns a transition may set.\<close>

record boot_columns =
  bt_region :: "string option"
  bt_zoneId :: "string option"
  bt_instanceId :: "string option"
  bt_instanceType :: "string option"
  bt_volumeId :: "string option"
  bt_fsUuid :: "string option"
  bt_tunnelId :: "string option"
  bt_enrollNonceHash :: "string option"
  bt_enrollExpiresAt :: "int option"
  bt_enrollConsumedHash :: "string option"
  bt_leaseUntil :: "int option"
  bt_presenceAt :: "int option"
  bt_fenceToken :: "string option"
  bt_lifecycleJobId :: "string option"
  bt_lifecycleDigest :: "string option"
  bt_lastError :: "string option"

record placement_row =
  rw_computerId :: string
  rw_ownerUserId :: string
  rw_provider :: "string option"
  rw_store :: "string option"
  rw_generation :: int
  rw_leaseEpoch :: int
  rw_state :: "string option"
  rw_boot :: boot_columns
  rw_imageJob :: "string option"
  rw_imageDigest :: "string option"
  rw_digestAt :: "int option"
  rw_updatedAt :: int

record Placement =
  pl_computerId :: string
  pl_ownerUserId :: string
  pl_provider :: PlacementProvider
  pl_store :: WorkspaceStore
  pl_generation :: int
  pl_leaseEpoch :: int
  pl_state :: PlacementState
  pl_boot :: boot_columns
  pl_updatedAt :: int

record ResolvedPlacement =
  rp_provider :: PlacementProvider
  rp_store :: WorkspaceStore
  rp_record :: "Placement option"

definition DEFAULT_PLACEMENT :: ResolvedPlacement where
  "DEFAULT_PLACEMENT = \<lparr>rp_provider = Cloudflare, rp_store = R2, rp_record = None\<rparr>"

text \<open>\<^verbatim>\<open>PlacementFields\<close>: an absent key leaves its column, a present one sets it, to \<^verbatim>\<open>null\<close> too.\<close>

record placement_fields =
  fd_region :: "string option option"
  fd_zoneId :: "string option option"
  fd_instanceId :: "string option option"
  fd_instanceType :: "string option option"
  fd_volumeId :: "string option option"
  fd_fsUuid :: "string option option"
  fd_tunnelId :: "string option option"
  fd_enrollNonceHash :: "string option option"
  fd_enrollExpiresAt :: "int option option"
  fd_enrollConsumedHash :: "string option option"
  fd_leaseUntil :: "int option option"
  fd_presenceAt :: "int option option"
  fd_fenceToken :: "string option option"
  fd_lifecycleJobId :: "string option option"
  fd_lifecycleDigest :: "string option option"
  fd_lastError :: "string option option"

definition no_fields :: placement_fields where
  "no_fields = \<lparr>fd_region = None, fd_zoneId = None, fd_instanceId = None, fd_instanceType = None, fd_volumeId = None,
     fd_fsUuid = None, fd_tunnelId = None, fd_enrollNonceHash = None, fd_enrollExpiresAt = None, fd_enrollConsumedHash = None,
     fd_leaseUntil = None, fd_presenceAt = None, fd_fenceToken = None, fd_lifecycleJobId = None, fd_lifecycleDigest = None,
     fd_lastError = None\<rparr>"

definition no_boot :: boot_columns where
  "no_boot = \<lparr>bt_region = None, bt_zoneId = None, bt_instanceId = None, bt_instanceType = None, bt_volumeId = None,
     bt_fsUuid = None, bt_tunnelId = None, bt_enrollNonceHash = None, bt_enrollExpiresAt = None, bt_enrollConsumedHash = None,
     bt_leaseUntil = None, bt_presenceAt = None, bt_fenceToken = None, bt_lifecycleJobId = None, bt_lifecycleDigest = None,
     bt_lastError = None\<rparr>"

text \<open>A placement used as fields (\<^verbatim>\<open>fields: source\<close>).\<close>

definition fields_of :: "boot_columns \<Rightarrow> placement_fields" where
  "fields_of b = \<lparr>fd_region = Some (bt_region b), fd_zoneId = Some (bt_zoneId b), fd_instanceId = Some (bt_instanceId b),
     fd_instanceType = Some (bt_instanceType b), fd_volumeId = Some (bt_volumeId b), fd_fsUuid = Some (bt_fsUuid b),
     fd_tunnelId = Some (bt_tunnelId b), fd_enrollNonceHash = Some (bt_enrollNonceHash b),
     fd_enrollExpiresAt = Some (bt_enrollExpiresAt b), fd_enrollConsumedHash = Some (bt_enrollConsumedHash b),
     fd_leaseUntil = Some (bt_leaseUntil b), fd_presenceAt = Some (bt_presenceAt b), fd_fenceToken = Some (bt_fenceToken b),
     fd_lifecycleJobId = Some (bt_lifecycleJobId b), fd_lifecycleDigest = Some (bt_lifecycleDigest b),
     fd_lastError = Some (bt_lastError b)\<rparr>"

fun set_column :: "'a option option \<Rightarrow> 'a option \<Rightarrow> 'a option" where
  "set_column None c = c"
| "set_column (Some v) c = v"

text \<open>\<^verbatim>\<open>GREATEST\<close> ignores \<^verbatim>\<open>NULL\<close>.\<close>

fun greatest :: "int option \<Rightarrow> int option \<Rightarrow> int option" where
  "greatest None v = v"
| "greatest c None = c"
| "greatest (Some a) (Some b) = Some (max a b)"

definition set_time :: "bool \<Rightarrow> int option option \<Rightarrow> int option \<Rightarrow> int option" where
  "set_time monotonic f c = (case f of None \<Rightarrow> c | Some v \<Rightarrow> if monotonic then greatest c v else v)"

definition set_boot :: "bool \<Rightarrow> placement_fields \<Rightarrow> boot_columns \<Rightarrow> boot_columns" where
  "set_boot monotonic f b = \<lparr>bt_region = set_column (fd_region f) (bt_region b), bt_zoneId = set_column (fd_zoneId f) (bt_zoneId b),
     bt_instanceId = set_column (fd_instanceId f) (bt_instanceId b), bt_instanceType = set_column (fd_instanceType f) (bt_instanceType b),
     bt_volumeId = set_column (fd_volumeId f) (bt_volumeId b), bt_fsUuid = set_column (fd_fsUuid f) (bt_fsUuid b),
     bt_tunnelId = set_column (fd_tunnelId f) (bt_tunnelId b),
     bt_enrollNonceHash = set_column (fd_enrollNonceHash f) (bt_enrollNonceHash b),
     bt_enrollExpiresAt = set_column (fd_enrollExpiresAt f) (bt_enrollExpiresAt b),
     bt_enrollConsumedHash = set_column (fd_enrollConsumedHash f) (bt_enrollConsumedHash b),
     bt_leaseUntil = set_time monotonic (fd_leaseUntil f) (bt_leaseUntil b),
     bt_presenceAt = set_time monotonic (fd_presenceAt f) (bt_presenceAt b),
     bt_fenceToken = set_column (fd_fenceToken f) (bt_fenceToken b),
     bt_lifecycleJobId = set_column (fd_lifecycleJobId f) (bt_lifecycleJobId b),
     bt_lifecycleDigest = set_column (fd_lifecycleDigest f) (bt_lifecycleDigest b),
     bt_lastError = set_column (fd_lastError f) (bt_lastError b)\<rparr>"

subsection \<open>The database\<close>

record compute_usage =
  cu_computerId :: string
  cu_userId :: string
  cu_instanceId :: string
  cu_instanceType :: string
  cu_startedAt :: int
  cu_stoppedAt :: "int option"
  cu_egressBytes :: "int option"
  cu_observedBy :: string
  cu_updatedAt :: int

text \<open>A computer of the application and a demand for capacity: the columns the code here reads.\<close>

record computer_row =
  co_id :: string
  co_userId :: string
  co_deleted :: bool
  co_createdAt :: int

record capacity_demand =
  dm_ownerUserId :: string
  dm_computerId :: string
  dm_region :: string
  dm_vcpu :: int
  dm_expiresAt :: int
  dm_closedAt :: "int option"

text \<open>
  An admission ticket: proof that a request was admitted in this transaction, single use. The tickets and the lock of the running
  admission transaction are kept with the tables; an image job is its computer and its phase.
\<close>

datatype ticket_kind = For_create | For_lease

record admission_ticket =
  tk_computerId :: string
  tk_userId :: string
  tk_kind :: ticket_kind
  tk_used :: bool

record compute_db =
  db_moves :: move_db
  db_placements :: "placement_row list"
  db_imageJobs :: "(string \<times> string) list"
  db_usage :: "compute_usage list"
  db_computers :: "computer_row list"
  db_demands :: "capacity_demand list"
  db_isolation :: string
  adm_held :: bool
  adm_counted :: "string option"
  adm_tickets :: "admission_ticket list"

datatype integrity_reason = Duplicate_placement | Unknown_provider | Unknown_store | Unknown_state | Invalid_row

datatype compute_error = Placement_integrity integrity_reason | Placement_owner | Image_job_conflict
  | Placement_isolation string | Refused string | Of_moves migration_error

type_synonym 'a compute_op = "(compute_error, compute_db, 'a) procedure"

definition db_now :: "compute_db \<Rightarrow> int" where
  "db_now s = mv_clock (db_moves s)"

text \<open>An operation of the migrations' store, in the same database.\<close>

definition in_moves :: "'a store_op \<Rightarrow> 'a compute_op" where
  "in_moves m s = (case m (db_moves s) of
     (Inl e, t) \<Rightarrow> (Inl (Of_moves e), s\<lparr>db_moves := t\<rparr>)
   | (Inr x, t) \<Rightarrow> (Inr x, s\<lparr>db_moves := t\<rparr>))"

definition whole_ms :: "int \<Rightarrow> int" where
  "whole_ms t = t div 1000 * 1000"

definition PLACEMENT_INSERT_TIME :: "compute_db \<Rightarrow> int" where
  "PLACEMENT_INSERT_TIME s = whole_ms (db_now s)"

definition PLACEMENT_UPDATE_TIME :: "compute_db \<Rightarrow> placement_row \<Rightarrow> int" where
  "PLACEMENT_UPDATE_TIME s r = max (whole_ms (db_now s)) (whole_ms (rw_updatedAt r) + 1000)"

subsection \<open>Reading\<close>

definition one_of :: "('a \<Rightarrow> string) \<Rightarrow> 'a list \<Rightarrow> string option \<Rightarrow> 'a option" where
  "one_of text_of values v = (case v of None \<Rightarrow> None | Some t \<Rightarrow> find (\<lambda>x. text_of x = t) values)"

text \<open>A \<^verbatim>\<open>bigint\<close> as the application counts: not negative and exactly representable.\<close>

definition placement_counter :: "int \<Rightarrow> int option" where
  "placement_counter n = (if 0 \<le> n \<and> is_safe_integer n then Some n else None)"

definition or_fail :: "integrity_reason \<Rightarrow> 'a option \<Rightarrow> compute_error + 'a" where
  "or_fail reason v = (case v of None \<Rightarrow> Inl (Placement_integrity reason) | Some x \<Rightarrow> Inr x)"

definition parsePlacementRow :: "placement_row \<Rightarrow> string \<Rightarrow> compute_error + Placement" where
  "parsePlacementRow r computerId =
     rbind (or_fail Unknown_provider (one_of provider_text PLACEMENT_PROVIDERS (rw_provider r))) (\<lambda>provider.
     rbind (or_fail Unknown_store (one_of workspace_store_text WORKSPACE_STORES (rw_store r))) (\<lambda>store.
     rbind (or_fail Unknown_store (if store \<in> set (STORES_FOR_PROVIDER provider) then Some () else None)) (\<lambda>_.
     rbind (or_fail Unknown_state (one_of placement_state_text PLACEMENT_STATES (rw_state r))) (\<lambda>state.
     rbind (or_fail Invalid_row (placement_counter (rw_generation r))) (\<lambda>generation.
     rbind (or_fail Invalid_row (placement_counter (rw_leaseEpoch r))) (\<lambda>leaseEpoch.
     rbind (or_fail Invalid_row (if toLowerCase (rw_computerId r) = toLowerCase computerId then Some () else None)) (\<lambda>_.
     rbind (or_fail Invalid_row (if is_uuid (toLowerCase (rw_ownerUserId r)) then Some (toLowerCase (rw_ownerUserId r)) else None)) (\<lambda>owner.
     Inr \<lparr>pl_computerId = rw_computerId r, pl_ownerUserId = owner, pl_provider = provider, pl_store = store,
          pl_generation = generation, pl_leaseEpoch = leaseEpoch, pl_state = state, pl_boot = rw_boot r,
          pl_updatedAt = rw_updatedAt r div 1000\<rparr>))))))))"

definition of_computer :: "string \<Rightarrow> placement_row \<Rightarrow> bool" where
  "of_computer computerId r \<longleftrightarrow> rw_computerId r = toLowerCase computerId"

text \<open>\<^verbatim>\<open>LIMIT 2\<close>: enough to see a duplicate.\<close>

definition selectRows :: "string \<Rightarrow> placement_row list compute_op" where
  "selectRows computerId = sget (\<lambda>s. take 2 (filter (of_computer computerId) (db_placements s)))"

definition image_reserved :: "string \<Rightarrow> compute_db \<Rightarrow> bool" where
  "image_reserved computerId s \<longleftrightarrow>
     (\<exists>j \<in> set (db_imageJobs s). fst j = toLowerCase computerId \<and> snd j \<notin> {''succeeded'', ''recovered'', ''cancelled''}) \<or>
     (\<exists>r \<in> set (db_placements s). of_computer computerId r \<and> rw_imageJob r \<noteq> None)"

definition assertNoImageReservation :: "string \<Rightarrow> unit compute_op" where
  "assertNoImageReservation computerId s = (if image_reserved computerId s then (Inl Image_job_conflict, s) else (Inr (), s))"

definition readPlacement :: "string \<Rightarrow> string option \<Rightarrow> ResolvedPlacement compute_op" where
  "readPlacement rawComputerId expectedOwner = (let computerId = toLowerCase rawComputerId in
     sbind (selectRows computerId) (\<lambda>rows. case rows of
       [] \<Rightarrow> sbind (assertNoImageReservation computerId) (\<lambda>_. sreturn DEFAULT_PLACEMENT)
     | [r] \<Rightarrow> sbind (slift (parsePlacementRow r computerId)) (\<lambda>p.
         if expectedOwner \<noteq> None \<and> pl_ownerUserId p \<noteq> toLowerCase (the expectedOwner) then sthrow Placement_owner
         else sbind (assertNoImageReservation computerId) (\<lambda>_.
           sreturn \<lparr>rp_provider = pl_provider p, rp_store = pl_store p, rp_record = Some p\<rparr>))
     | _ \<Rightarrow> sthrow (Placement_integrity Duplicate_placement)))"

definition findDuplicatePlacements :: "compute_db \<Rightarrow> (string \<times> nat) list" where
  "findDuplicatePlacements s = filter (\<lambda>(c, n). 1 < n)
     (map (\<lambda>c. (c, length (filter (\<lambda>r. rw_computerId r = c) (db_placements s)))) (remdups (map rw_computerId (db_placements s))))"

definition readPlacementProvider :: "string \<Rightarrow> string option compute_op" where
  "readPlacementProvider rawComputerId = sget (\<lambda>s. case filter (of_computer rawComputerId) (db_placements s) of [] \<Rightarrow> None | r # _ \<Rightarrow> rw_provider r)"


subsection \<open>Locks and tickets\<close>

definition assertReadCommitted :: "unit compute_op" where
  "assertReadCommitted s = (if db_isolation s = ''read committed'' then (Inr (), s) else (Inl (Placement_isolation (db_isolation s)), s))"

definition lockComputer :: "string \<Rightarrow> unit compute_op" where
  "lockComputer computerId = assertReadCommitted"

definition takeAdmissionLock :: "unit compute_op" where
  "takeAdmissionLock = sbind assertReadCommitted (\<lambda>_ s. (Inr (), s\<lparr>adm_held := True, adm_counted := None, adm_tickets := []\<rparr>))"

definition releaseAdmission :: "unit compute_op" where
  "releaseAdmission s = (Inr (), s\<lparr>adm_held := False, adm_counted := None, adm_tickets := []\<rparr>)"

text \<open>A scope that holds the lock already is used again.\<close>

definition withAdmission :: "'a compute_op \<Rightarrow> 'a compute_op" where
  "withAdmission f s = (if adm_held s then f s
     else transaction (sbind takeAdmissionLock (\<lambda>_. sbind f (\<lambda>x. sbind releaseAdmission (\<lambda>_. sreturn x)))) s)"

definition assertAdmissionLock :: "unit compute_op" where
  "assertAdmissionLock s =
     (if adm_held s then (Inr (), s) else (Inl (Refused ''admission lock is not held by this transaction''), s))"

definition lockComputerUnderAdmission :: "string \<Rightarrow> unit compute_op" where
  "lockComputerUnderAdmission computerId = sbind assertAdmissionLock (\<lambda>_. lockComputer (toLowerCase computerId))"

text \<open>A ticket is its position among the tickets of the transaction.\<close>

definition mintAdmissionTicket :: "string \<Rightarrow> string \<Rightarrow> ticket_kind \<Rightarrow> nat compute_op" where
  "mintAdmissionTicket computerId userId kind = sbind assertAdmissionLock (\<lambda>_ s.
     if adm_counted s \<noteq> Some (toLowerCase computerId)
     then (Inl (Refused ''admission counters were not read for this computer under this lock''), s)
     else (Inr (length (adm_tickets s)), s\<lparr>adm_tickets := adm_tickets s @
       [\<lparr>tk_computerId = toLowerCase computerId, tk_userId = toLowerCase userId, tk_kind = kind, tk_used = False\<rparr>]\<rparr>))"

definition ticket_fits :: "admission_ticket \<Rightarrow> string \<Rightarrow> string \<Rightarrow> ticket_kind \<Rightarrow> bool" where
  "ticket_fits t computerId userId kind \<longleftrightarrow> \<not> tk_used t \<and> tk_kind t = kind \<and>
     tk_computerId t = toLowerCase computerId \<and> tk_userId t = toLowerCase userId"

definition consumeTicket :: "nat \<Rightarrow> string \<Rightarrow> string \<Rightarrow> ticket_kind \<Rightarrow> unit compute_op" where
  "consumeTicket i computerId userId kind s =
     (if i < length (adm_tickets s) \<and> ticket_fits (adm_tickets s ! i) computerId userId kind
      then (Inr (), s\<lparr>adm_tickets := (adm_tickets s)[i := (adm_tickets s ! i)\<lparr>tk_used := True\<rparr>]\<rparr>)
      else (Inl (Refused ''admission ticket is not valid for this request''), s))"

subsection \<open>The usage ledger\<close>

datatype usage_effect = Usage_open string string "int option" string | Usage_close string "int option"

definition open_usage :: "string \<Rightarrow> compute_usage \<Rightarrow> bool" where
  "open_usage computerId u \<longleftrightarrow> cu_computerId u = computerId \<and> cu_stoppedAt u = None"

definition usage_closed :: "compute_db \<Rightarrow> int \<Rightarrow> string \<Rightarrow> compute_usage \<Rightarrow> compute_usage" where
  "usage_closed s at observedBy u = u\<lparr>cu_stoppedAt := Some at, cu_observedBy := observedBy, cu_updatedAt := db_now s\<rparr>"

fun applyUsageInTx :: "Placement \<Rightarrow> usage_effect \<Rightarrow> unit compute_op" where
  "applyUsageInTx p (Usage_close observedBy stoppedAt) s =
     (let at = (case stoppedAt of None \<Rightarrow> db_now s | Some t \<Rightarrow> t * 1000) in
      (Inr (), s\<lparr>db_usage := update_where (open_usage (toLowerCase (pl_computerId p))) (usage_closed s at observedBy) (db_usage s)\<rparr>))"
| "applyUsageInTx p (Usage_open instanceId instanceType startedAt observedBy) s =
     (let c = toLowerCase (pl_computerId p);
          rows = update_where (\<lambda>u. open_usage c u \<and> cu_instanceId u \<noteq> instanceId) (usage_closed s (db_now s) observedBy) (db_usage s) in
      (Inr (), s\<lparr>db_usage := snd (insert_ignore
         (\<lambda>u v. open_usage (cu_computerId v) u \<and> cu_instanceId u = cu_instanceId v)
         \<lparr>cu_computerId = c, cu_userId = toLowerCase (pl_ownerUserId p), cu_instanceId = instanceId, cu_instanceType = instanceType,
          cu_startedAt = (case startedAt of None \<Rightarrow> db_now s | Some t \<Rightarrow> t * 1000), cu_stoppedAt = None, cu_egressBytes = None,
          cu_observedBy = observedBy, cu_updatedAt = db_now s\<rparr> rows)\<rparr>))"

definition settled :: "PlacementState \<Rightarrow> bool" where
  "settled st \<longleftrightarrow> st = STOPPED \<or> st = RETIRED \<or> st = PURGE_ELIGIBLE"

fun observer :: "usage_effect \<Rightarrow> string" where
  "observer (Usage_open _ _ _ o') = o'"
| "observer (Usage_close o' _) = o'"

text \<open>A terminal write closes the usage, whatever its caller asks for.\<close>

definition applyTransitionUsageInTx :: "Placement \<Rightarrow> usage_effect option \<Rightarrow> unit compute_op" where
  "applyTransitionUsageInTx p effect =
     (if settled (pl_state p) then applyUsageInTx p (Usage_close
        (case effect of None \<Rightarrow> ''placement-transition'' | Some e \<Rightarrow> observer e)
        (case effect of Some (Usage_close _ (Some t)) \<Rightarrow> Some t | _ \<Rightarrow> None))
      else (case effect of None \<Rightarrow> sreturn () | Some e \<Rightarrow> applyUsageInTx p e))"

definition assertUnopenedAdoptUsage :: "Placement \<Rightarrow> unit compute_op" where
  "assertUnopenedAdoptUsage p s =
     (if \<exists>u \<in> set (db_usage s). open_usage (pl_computerId p) u \<or> Some (cu_instanceId u) = bt_instanceId (pl_boot p)
      then (Inl (Refused ''adopt_recovery_usage''), s) else (Inr (), s))"

subsection \<open>Creation\<close>

datatype create_result = Created Placement | Placement_exists

definition new_placement :: "compute_db \<Rightarrow> string \<Rightarrow> string \<Rightarrow> PlacementProvider \<Rightarrow> PlacementState \<Rightarrow> placement_fields \<Rightarrow> placement_row" where
  "new_placement s computerId ownerUserId provider st flds =
     \<lparr>rw_computerId = computerId, rw_ownerUserId = ownerUserId, rw_provider = Some (provider_text provider),
      rw_store = Some (workspace_store_text (DEFAULT_STORE provider)), rw_generation = 1, rw_leaseEpoch = INITIAL_LEASE_EPOCH provider,
      rw_state = Some (placement_state_text st), rw_boot = set_boot False flds no_boot, rw_imageJob = None, rw_imageDigest = None,
      rw_digestAt = None, rw_updatedAt = PLACEMENT_INSERT_TIME s\<rparr>"

text \<open>The caller holds the computer's lock, or the operation takes it.\<close>

definition createInTx :: "string \<Rightarrow> string \<Rightarrow> PlacementProvider \<Rightarrow> PlacementState \<Rightarrow> placement_fields \<Rightarrow> bool \<Rightarrow> create_result compute_op" where
  "createInTx rawComputerId rawOwner provider st flds computerLocked =
     (let computerId = toLowerCase rawComputerId; ownerUserId = toLowerCase rawOwner in
      sbind (if computerLocked then sreturn () else lockComputer computerId) (\<lambda>_.
      sbind (assertNoImageReservation computerId) (\<lambda>_.
      sbind (selectRows computerId) (\<lambda>rows.
        if rows \<noteq> [] then sreturn Placement_exists
        else (\<lambda>s. let r = new_placement s computerId ownerUserId provider st flds in
          sbind (slift (parsePlacementRow r computerId)) (\<lambda>p. sreturn (Created p)) (s\<lparr>db_placements := db_placements s @ [r]\<rparr>))))))"

definition createPlacement :: "string \<Rightarrow> string \<Rightarrow> PlacementProvider \<Rightarrow> PlacementState \<Rightarrow> placement_fields \<Rightarrow> create_result compute_op" where
  "createPlacement computerId ownerUserId provider st flds =
     (if provider \<noteq> Cloudflare then sthrow (Refused ''aws-ec2 placements are created only through admission'')
      else transaction (createInTx computerId ownerUserId provider st flds False))"

definition createAwsPlacement :: "nat \<Rightarrow> string \<Rightarrow> string \<Rightarrow> placement_fields \<Rightarrow> create_result compute_op" where
  "createAwsPlacement ticket computerId ownerUserId flds =
     sbind assertAdmissionLock (\<lambda>_. sbind (consumeTicket ticket computerId ownerUserId For_create) (\<lambda>_.
       createInTx computerId ownerUserId Aws_ec2 PROVISIONING flds False))"

subsection \<open>Compare and swap\<close>

record cas_expectation =
  ex_generation :: int
  ex_leaseEpoch :: int
  ex_state :: PlacementState

text \<open>An absent guard is \<open>None\<close>; a guard on a nullable column that must be \<^verbatim>\<open>null\<close> is \<open>Some None\<close>.\<close>

record cas_guard =
  gd_provider :: "PlacementProvider option"
  gd_ownerUserId :: "string option"
  gd_enrollNonceHash :: "string option"
  gd_enrollUnexpired :: bool
  gd_states :: "PlacementState list option"
  gd_preserveState :: bool
  gd_availableInstanceId :: "string option"
  gd_instanceId :: "string option option"
  gd_lastError :: "string option option"
  gd_nonceConsumed :: bool
  gd_confirmedGeneration :: "int option"
  gd_lifecycleJobId :: "string option"
  gd_lifecycleDigest :: "string option"
  gd_fenceToken :: "string option"
  gd_volumeId :: "string option"
  gd_updatedAt :: "int option"
  gd_monotonic :: bool

definition no_guard :: cas_guard where
  "no_guard = \<lparr>gd_provider = None, gd_ownerUserId = None, gd_enrollNonceHash = None, gd_enrollUnexpired = False, gd_states = None,
     gd_preserveState = False, gd_availableInstanceId = None, gd_instanceId = None, gd_lastError = None, gd_nonceConsumed = False,
     gd_confirmedGeneration = None, gd_lifecycleJobId = None, gd_lifecycleDigest = None, gd_fenceToken = None, gd_volumeId = None,
     gd_updatedAt = None, gd_monotonic = False\<rparr>"

fun required :: "'a option \<Rightarrow> ('a \<Rightarrow> bool) \<Rightarrow> bool" where
  "required None P = True"
| "required (Some x) P = P x"

definition guard_holds :: "cas_guard \<Rightarrow> int \<Rightarrow> placement_row \<Rightarrow> bool" where
  "guard_holds g now r \<longleftrightarrow>
     required (gd_provider g) (\<lambda>p. rw_provider r = Some (provider_text p)) \<and>
     required (gd_ownerUserId g) (\<lambda>u. rw_ownerUserId r = toLowerCase u) \<and>
     required (gd_enrollNonceHash g) (\<lambda>h. bt_enrollNonceHash (rw_boot r) = Some h) \<and>
     (gd_enrollUnexpired g \<longrightarrow> (case bt_enrollExpiresAt (rw_boot r) of None \<Rightarrow> False | Some t \<Rightarrow> now < t * 1000)) \<and>
     required (gd_availableInstanceId g) (\<lambda>i. bt_instanceId (rw_boot r) = None \<or> bt_instanceId (rw_boot r) = Some i) \<and>
     required (gd_instanceId g) (\<lambda>i. bt_instanceId (rw_boot r) = i) \<and>
     required (gd_lastError g) (\<lambda>e. bt_lastError (rw_boot r) = e) \<and>
     (gd_nonceConsumed g \<longrightarrow> bt_enrollNonceHash (rw_boot r) = None) \<and>
     required (gd_lifecycleJobId g) (\<lambda>j. bt_lifecycleJobId (rw_boot r) = Some j) \<and>
     required (gd_lifecycleDigest g) (\<lambda>d. bt_lifecycleDigest (rw_boot r) = Some d) \<and>
     required (gd_fenceToken g) (\<lambda>t. bt_fenceToken (rw_boot r) = Some t) \<and>
     required (gd_volumeId g) (\<lambda>v. bt_volumeId (rw_boot r) = Some v) \<and>
     required (gd_updatedAt g) (\<lambda>t. rw_updatedAt r = t * 1000)"

definition in_state :: "PlacementState \<Rightarrow> placement_row \<Rightarrow> bool" where
  "in_state st r \<longleftrightarrow> rw_state r = Some (placement_state_text st)"

definition cas_matches :: "string \<Rightarrow> cas_expectation \<Rightarrow> cas_guard \<Rightarrow> int \<Rightarrow> placement_row \<Rightarrow> bool" where
  "cas_matches computerId e g now r \<longleftrightarrow> of_computer computerId r \<and> rw_generation r = ex_generation e \<and> rw_leaseEpoch r = ex_leaseEpoch e \<and>
     rw_imageJob r = None \<and>
     (case gd_states g of Some sts \<Rightarrow> \<exists>st \<in> set sts. in_state st r | None \<Rightarrow> in_state (ex_state e) r) \<and> guard_holds g now r"

text \<open>What the swap adds to the generation and to the lease epoch.\<close>

record cas_bump =
  bp_generation :: int
  bp_leaseEpoch :: int

definition no_bump :: cas_bump where
  "no_bump = \<lparr>bp_generation = 0, bp_leaseEpoch = 0\<rparr>"

definition cas_write :: "compute_db \<Rightarrow> PlacementState \<Rightarrow> cas_bump \<Rightarrow> placement_fields \<Rightarrow> cas_guard \<Rightarrow> placement_row \<Rightarrow> placement_row" where
  "cas_write s to_state bump flds g r = r\<lparr>
     rw_state := (if gd_preserveState g then rw_state r else Some (placement_state_text to_state)),
     rw_generation := (case gd_confirmedGeneration g of None \<Rightarrow> rw_generation r + bp_generation bump | Some n \<Rightarrow> n),
     rw_leaseEpoch := rw_leaseEpoch r + bp_leaseEpoch bump,
     rw_boot := set_boot (gd_monotonic g) flds (rw_boot r),
     rw_updatedAt := PLACEMENT_UPDATE_TIME s r\<rparr>"

text \<open>\<^verbatim>\<open>UPDATE ... WHERE P RETURNING\<close>: every row that matches.\<close>

definition update_placements :: "(compute_db \<Rightarrow> placement_row \<Rightarrow> bool) \<Rightarrow> (compute_db \<Rightarrow> placement_row \<Rightarrow> placement_row) \<Rightarrow> placement_row list compute_op" where
  "update_placements P f s = (Inr (map (f s) (filter (P s) (db_placements s))),
     s\<lparr>db_placements := update_where (P s) (f s) (db_placements s)\<rparr>)"

datatype TransitionResult = Moved Placement | Cas_conflict | Illegal_transition

definition casInTx :: "string \<Rightarrow> cas_expectation \<Rightarrow> PlacementState \<Rightarrow> cas_bump \<Rightarrow> placement_fields \<Rightarrow> cas_guard
    \<Rightarrow> usage_effect option \<Rightarrow> bool \<Rightarrow> TransitionResult compute_op" where
  "casInTx rawComputerId expected to_state bump flds g usage unopenedAdopt =
     (let computerId = toLowerCase rawComputerId in
      sbind (selectRows computerId) (\<lambda>rows.
        if 1 < length rows then sthrow (Placement_integrity Duplicate_placement)
        else sbind (assertNoImageReservation computerId) (\<lambda>_.
          sbind (update_placements (\<lambda>s. cas_matches computerId expected g (db_now s)) (\<lambda>s. cas_write s to_state bump flds g)) (\<lambda>rows.
            case rows of
              [] \<Rightarrow> sreturn Cas_conflict
            | [r] \<Rightarrow> sbind (slift (parsePlacementRow r computerId)) (\<lambda>p.
                sbind (if unopenedAdopt then sreturn () else applyTransitionUsageInTx p usage) (\<lambda>_. sreturn (Moved p)))
            | _ \<Rightarrow> sthrow (Placement_integrity Duplicate_placement)))))"

definition expect :: "Placement \<Rightarrow> cas_expectation" where
  "expect p = \<lparr>ex_generation = pl_generation p, ex_leaseEpoch = pl_leaseEpoch p, ex_state = pl_state p\<rparr>"

subsection \<open>Transitions\<close>

definition valid_caller :: "string \<Rightarrow> bool" where
  "valid_caller u \<longleftrightarrow> is_uuid (toLowerCase u)"

definition transitionPlacement :: "string \<Rightarrow> string \<Rightarrow> cas_expectation \<Rightarrow> PlacementState \<Rightarrow> placement_fields \<Rightarrow> TransitionResult compute_op" where
  "transitionPlacement computerId ownerUserId expected to_state flds =
     (if \<not> valid_caller ownerUserId then sthrow (Refused ''transitionPlacement requires the caller ownerUserId'')
      else if to_state \<notin> set (PLACEMENT_TRANSITIONS (ex_state expected)) then sreturn Illegal_transition
      else transaction (casInTx computerId expected to_state no_bump flds (no_guard\<lparr>gd_ownerUserId := Some ownerUserId\<rparr>) None False))"

definition renewPlacementLease :: "string \<Rightarrow> string \<Rightarrow> cas_expectation \<Rightarrow> int \<Rightarrow> int \<Rightarrow> TransitionResult compute_op" where
  "renewPlacementLease computerId ownerUserId expected presenceAt leaseUntil =
     (if \<not> valid_caller ownerUserId then sthrow (Refused ''renewPlacementLease requires the caller ownerUserId'')
      else if ex_state expected \<noteq> RUNNING then sreturn Illegal_transition
      else transaction (casInTx computerId expected RUNNING no_bump
        (no_fields\<lparr>fd_presenceAt := Some (Some presenceAt), fd_leaseUntil := Some (Some leaseUntil)\<rparr>)
        (no_guard\<lparr>gd_ownerUserId := Some ownerUserId, gd_provider := Some Aws_ec2, gd_preserveState := True, gd_monotonic := True\<rparr>) None False))"

definition LIFECYCLE_START_UNKNOWN :: string where "LIFECYCLE_START_UNKNOWN = ''lifecycle_start_unknown''"
definition LIFECYCLE_START_FAILED :: string where "LIFECYCLE_START_FAILED = ''lifecycle_start_failed''"
definition INSTANCE_LOST :: string where "INSTANCE_LOST = ''instance_lost''"

text \<open>\<^verbatim>\<open>s.split(':', 1)[0]\<close>\<close>

definition before_colon :: "string \<Rightarrow> string" where
  "before_colon = takeWhile (\<lambda>c. c \<noteq> CHR '':'')"

definition lifecycleStartUnknownUndo :: "PlacementState \<Rightarrow> string option \<Rightarrow> PlacementState option" where
  "lifecycleStartUnknownUndo st lastError = (let prefix = LIFECYCLE_START_UNKNOWN @ '':'' in
     case lastError of None \<Rightarrow> None
     | Some e \<Rightarrow> if \<not> starts_with prefix e then None
         else (case find (\<lambda>u. placement_state_text u = before_colon (drop (length prefix) e)) (PLACEMENT_TRANSITIONS st) of
             Some undo \<Rightarrow> Some undo | None \<Rightarrow> Some UNCONFIRMED))"

definition start_unknown_mark :: "PlacementState \<Rightarrow> string option \<Rightarrow> string" where
  "start_unknown_mark undo ctxt = LIFECYCLE_START_UNKNOWN @ '':'' @ placement_state_text undo @
     (case ctxt of None \<Rightarrow> [] | Some c \<Rightarrow> if c = [] then [] else '':'' @ c)"

definition markLifecycleStartUnknown :: "string \<Rightarrow> string option \<Rightarrow> cas_expectation \<Rightarrow> string option \<Rightarrow> PlacementState \<Rightarrow> string option \<Rightarrow> TransitionResult compute_op" where
  "markLifecycleStartUnknown computerId ownerUserId expected lastError undo ctxt =
     (if undo \<notin> set (PLACEMENT_TRANSITIONS (ex_state expected)) then sreturn Illegal_transition
      else transaction (casInTx computerId expected (ex_state expected) no_bump
        (no_fields\<lparr>fd_lastError := Some (Some (start_unknown_mark undo ctxt))\<rparr>)
        (no_guard\<lparr>gd_provider := Some Aws_ec2, gd_preserveState := True, gd_lastError := Some lastError, gd_ownerUserId := ownerUserId\<rparr>) None False))"

definition transitionPlacementAsReconciler :: "string \<Rightarrow> cas_expectation \<Rightarrow> string option option \<Rightarrow> string option option \<Rightarrow> PlacementState
    \<Rightarrow> placement_fields \<Rightarrow> usage_effect option \<Rightarrow> TransitionResult compute_op" where
  "transitionPlacementAsReconciler computerId expected instanceId lastError to_state flds usage =
     (let st = ex_state expected in
      if to_state \<notin> set (PLACEMENT_TRANSITIONS st) \<and> to_state \<notin> set (RECONCILER_TRANSITIONS st) then sreturn Illegal_transition
      else transaction (casInTx computerId expected to_state no_bump flds
        (no_guard\<lparr>gd_instanceId := instanceId, gd_lastError := lastError\<rparr>) usage False))"

text \<open>A verified boot takes the generation back that the volume's tags prove.\<close>

definition is_instance_id :: "string \<Rightarrow> bool" where
  "is_instance_id s \<longleftrightarrow> take 2 s = ''i-'' \<and> length s = 19 \<and> list_all is_lower_hex (drop 2 s)"

record confirmed_boot =
  cf_generation :: int
  cf_fenceToken :: string
  cf_instanceId :: string
  cf_instanceLost :: bool
  cf_instanceType :: "string option"

definition reconcileReplacementGeneration :: "Placement \<Rightarrow> confirmed_boot \<Rightarrow> TransitionResult compute_op" where
  "reconcileReplacementGeneration p c = (let b = pl_boot p in
     if \<not> truthy (bt_lifecycleJobId b) \<or> \<not> truthy (bt_lifecycleDigest b) \<or> \<not> truthy (bt_volumeId b) \<or> \<not> truthy (bt_fenceToken b) \<or>
        pl_state p \<notin> {LEASED, STARTING, MOUNTING, UNCONFIRMED} \<or> cf_generation c < 1 \<or> pl_generation p < cf_generation c \<or>
        \<not> is_uuid (toLowerCase (cf_fenceToken c)) \<or> \<not> is_instance_id (cf_instanceId c)
     then sreturn Cas_conflict
     else withAdmission (sbind (lockComputer (pl_computerId p)) (\<lambda>_. sbind (readPlacement (pl_computerId p) None) (\<lambda>found.
       case rp_record found of None \<Rightarrow> sreturn Cas_conflict
       | Some q \<Rightarrow> if pl_ownerUserId q \<noteq> pl_ownerUserId p \<or> pl_provider q \<noteq> Aws_ec2 then sreturn Cas_conflict
           else casInTx (pl_computerId p) (expect p) STOPPED no_bump
             (no_fields\<lparr>fd_fenceToken := Some (Some (cf_fenceToken c)), fd_instanceId := Some (Some (cf_instanceId c)),
                fd_instanceType := map_option Some (cf_instanceType c), fd_lifecycleJobId := Some None, fd_lifecycleDigest := Some None,
                fd_enrollNonceHash := Some None, fd_enrollConsumedHash := Some None, fd_enrollExpiresAt := Some None,
                fd_leaseUntil := Some None, fd_lastError := Some (Some (if cf_instanceLost c then INSTANCE_LOST else LIFECYCLE_START_FAILED))\<rparr>)
             (no_guard\<lparr>gd_provider := Some Aws_ec2, gd_ownerUserId := Some (pl_ownerUserId p), gd_confirmedGeneration := Some (cf_generation c),
                gd_lifecycleJobId := bt_lifecycleJobId b, gd_lifecycleDigest := bt_lifecycleDigest b, gd_fenceToken := bt_fenceToken b,
                gd_volumeId := bt_volumeId b, gd_updatedAt := Some (pl_updatedAt p)\<rparr>)
             (Some (Usage_close ''generation-reconcile'' None)) False))))"

text \<open>Bookkeeping of a pool open. The retirement of the host (\<^verbatim>\<open>retire\<close>) is the caller's, in the same transaction.\<close>

definition writePoolOpen :: "Placement \<Rightarrow> PlacementState \<Rightarrow> placement_fields \<Rightarrow> int \<Rightarrow> unit compute_op option \<Rightarrow> TransitionResult compute_op" where
  "writePoolOpen p to_state flds generation retire = (let b = pl_boot p in
     if pl_provider p \<noteq> Aws_ec2 \<or> \<not> truthy (bt_instanceId b) \<or> \<not> truthy (bt_volumeId b) \<or> \<not> truthy (bt_fenceToken b) \<or>
        \<not> is_safe_integer generation \<or> generation < 1 \<or> pl_generation p < generation \<or>
        \<not> (if to_state = STOPPING then pl_state p = STOPPED else pl_state p \<in> {LEASED, STARTING, MOUNTING, STOPPING, UNCONFIRMED})
     then sreturn Cas_conflict
     else withAdmission (sbind (lockComputer (pl_computerId p)) (\<lambda>_.
       sbind (casInTx (pl_computerId p) (expect p) to_state no_bump flds
         (no_guard\<lparr>gd_provider := Some Aws_ec2, gd_ownerUserId := Some (pl_ownerUserId p), gd_instanceId := Some (bt_instanceId b),
            gd_volumeId := bt_volumeId b, gd_fenceToken := bt_fenceToken b, gd_confirmedGeneration := Some generation,
            gd_lifecycleJobId := bt_lifecycleJobId b, gd_lifecycleDigest := bt_lifecycleDigest b,
            gd_lastError := Some (bt_lastError b), gd_updatedAt := Some (pl_updatedAt p)\<rparr>) None False) (\<lambda>result.
       case (result, retire) of (Moved q, Some m) \<Rightarrow> sbind m (\<lambda>_. sreturn result) | _ \<Rightarrow> sreturn result))))"

definition publishAttachedPoolClaim :: "Placement \<Rightarrow> string \<Rightarrow> unit compute_op \<Rightarrow> unit compute_op" where
  "publishAttachedPoolClaim p volumeId publish = (let b = pl_boot p in
     withAdmission (sbind (lockComputer (pl_computerId p)) (\<lambda>_.
       sbind (casInTx (pl_computerId p) (expect p) (pl_state p) no_bump (no_fields\<lparr>fd_volumeId := Some (Some volumeId)\<rparr>)
         (no_guard\<lparr>gd_provider := Some Aws_ec2, gd_instanceId := Some (bt_instanceId b), gd_lifecycleJobId := bt_lifecycleJobId b,
            gd_lifecycleDigest := bt_lifecycleDigest b, gd_fenceToken := bt_fenceToken b, gd_lastError := Some (bt_lastError b),
            gd_updatedAt := Some (pl_updatedAt p)\<rparr>) None False) (\<lambda>bound.
       case bound of Moved _ \<Rightarrow> publish | _ \<Rightarrow> sreturn ()))))"

subsection \<open>Leasing\<close>

definition ENROLLMENT_PENDING :: string where "ENROLLMENT_PENDING = ''enroll_tunnel_pending''"
definition ENROLLMENT_SUCCEEDED :: string where "ENROLLMENT_SUCCEEDED = ''enroll_succeeded''"
definition ENROLLMENT_FAILED :: string where "ENROLLMENT_FAILED = ''enroll_tunnel_failed''"
definition ENROLLMENT_HOST_RETIRE :: string where "ENROLLMENT_HOST_RETIRE = ''enroll_host_retire''"
definition POOL_SESSION_PENDING :: string where "POOL_SESSION_PENDING = ''pool_session_pending''"

text \<open>
  The type and the region are admission's or the row's, whatever the caller's fields say; a replace forgets
  the instance. A failed enrollment still owns a live instance, which only a replace may lease.
\<close>

definition lease_fields :: "Placement option \<Rightarrow> int \<Rightarrow> bool \<Rightarrow> string option \<Rightarrow> placement_fields \<Rightarrow> placement_fields" where
  "lease_fields cur leaseUntil replace resizeInstanceType flds =
     (let f = (if replace then flds\<lparr>fd_instanceId := Some None\<rparr> else flds) in
      f\<lparr>fd_leaseUntil := Some (Some leaseUntil), fd_lastError := Some None,
        fd_instanceType := (case resizeInstanceType of Some t \<Rightarrow> Some (Some t) | None \<Rightarrow> map_option (\<lambda>p. bt_instanceType (pl_boot p)) cur),
        fd_region := map_option (\<lambda>p. bt_region (pl_boot p)) cur\<rparr>)"

definition leasePlacement :: "nat \<Rightarrow> string \<Rightarrow> string \<Rightarrow> int \<Rightarrow> int \<Rightarrow> int \<Rightarrow> bool \<Rightarrow> string option \<Rightarrow> placement_fields \<Rightarrow> TransitionResult compute_op" where
  "leasePlacement ticket computerId ownerUserId generation leaseEpoch leaseUntil replace resizeInstanceType flds =
     sbind assertAdmissionLock (\<lambda>_. sbind (consumeTicket ticket computerId ownerUserId For_lease) (\<lambda>_.
     sbind (readPlacement computerId None) (\<lambda>found. let cur = rp_record found in
       if (case resizeInstanceType of None \<Rightarrow> False
           | Some t \<Rightarrow> \<not> replace \<or> t = [] \<or> map_option (\<lambda>p. bt_instanceType (pl_boot p)) cur = Some (Some t)) then sreturn Illegal_transition
       else (let recover = (replace \<and> (case cur of None \<Rightarrow> False
                 | Some p \<Rightarrow> pl_state p = UNCONFIRMED \<and> bt_lastError (pl_boot p) = Some ENROLLMENT_FAILED));
                 from_state = (if recover then UNCONFIRMED
                   else if truthy resizeInstanceType \<and> map_option pl_state cur = Some RUNNING then RUNNING else STOPPED) in
         casInTx computerId \<lparr>ex_generation = generation, ex_leaseEpoch = leaseEpoch, ex_state = from_state\<rparr> LEASED
           \<lparr>bp_generation = (if replace then 1 else 0), bp_leaseEpoch = 1\<rparr>
           (lease_fields cur leaseUntil replace resizeInstanceType flds)
           (no_guard\<lparr>gd_provider := Some Aws_ec2, gd_ownerUserId := Some ownerUserId,
              gd_lastError := (if recover then Some (Some ENROLLMENT_FAILED) else None)\<rparr>) None False))))"

subsection \<open>Enrollment\<close>

definition ENROLLABLE_STATES :: "PlacementState list" where
  "ENROLLABLE_STATES = [PROVISIONING, STARTING, MOUNTING]"

definition isEnrollmentHostRetire :: "PlacementState \<Rightarrow> string option \<Rightarrow> bool" where
  "isEnrollmentHostRetire st lastError \<longleftrightarrow> (st = RECOVERING \<or> st = RETIRING) \<and>
     (lastError = Some ENROLLMENT_HOST_RETIRE \<or>
      lastError = Some (LIFECYCLE_START_UNKNOWN @ '':UNCONFIRMED:'' @ ENROLLMENT_HOST_RETIRE))"

definition is_sha256_digest :: "string \<Rightarrow> bool" where
  "is_sha256_digest s \<longleftrightarrow> take 7 s = ''sha256:'' \<and> valid_hash (drop 7 s)"

text \<open>The digest the host proved is written with the nonce it consumed, or the transaction is undone.\<close>

definition write_digest :: "string \<Rightarrow> Placement \<Rightarrow> string \<Rightarrow> (string \<times> int option) option \<Rightarrow> unit compute_op" where
  "write_digest computerId p nonceHash observed = (case observed of None \<Rightarrow> sreturn ()
     | Some (digest, at) \<Rightarrow>
         if \<not> is_sha256_digest digest \<or> at = None then sthrow Image_job_conflict
         else sbind (update_placements (\<lambda>_ r. of_computer computerId r \<and> rw_generation r = pl_generation p \<and> rw_leaseEpoch r = pl_leaseEpoch p \<and>
               bt_enrollConsumedHash (rw_boot r) = Some nonceHash \<and> rw_imageJob r = None)
             (\<lambda>_ r. r\<lparr>rw_imageDigest := Some digest, rw_digestAt := at\<rparr>))
           (\<lambda>rows. if length rows \<noteq> 1 then sthrow Image_job_conflict else sreturn ()))"

definition consumeEnrollmentNonce :: "string \<Rightarrow> cas_expectation \<Rightarrow> string \<Rightarrow> string \<Rightarrow> string \<Rightarrow> (string \<times> int option) option \<Rightarrow> TransitionResult compute_op" where
  "consumeEnrollmentNonce computerId expected nonceHash instanceId volumeId observed =
     (if ex_state expected \<notin> set ENROLLABLE_STATES then sreturn Illegal_transition
      else if \<not> valid_hash nonceHash then sreturn Cas_conflict
      else transaction (sbind (casInTx computerId expected (ex_state expected) no_bump
          (no_fields\<lparr>fd_instanceId := Some (Some instanceId), fd_volumeId := Some (Some volumeId), fd_enrollNonceHash := Some None,
             fd_enrollConsumedHash := Some (Some nonceHash), fd_lastError := Some (Some ENROLLMENT_PENDING)\<rparr>)
          (no_guard\<lparr>gd_provider := Some Aws_ec2, gd_enrollNonceHash := Some nonceHash, gd_enrollUnexpired := True,
             gd_states := Some ENROLLABLE_STATES, gd_preserveState := True, gd_availableInstanceId := Some instanceId\<rparr>) None False)
        (\<lambda>result. case result of Moved p \<Rightarrow> sbind (write_digest computerId p nonceHash observed) (\<lambda>_. sreturn result) | _ \<Rightarrow> sreturn result)))"

definition checkEnrollmentDigest :: "Placement \<Rightarrow> string \<Rightarrow> bool compute_op" where
  "checkEnrollmentDigest p digest = sget (\<lambda>s.
     case filter (\<lambda>r. of_computer (pl_computerId p) r \<and> rw_generation r = pl_generation p \<and> rw_leaseEpoch r = pl_leaseEpoch p \<and>
       bt_enrollConsumedHash (rw_boot r) \<noteq> None \<and> bt_enrollConsumedHash (rw_boot r) = bt_enrollConsumedHash (pl_boot p) \<and> rw_imageJob r = None)
       (db_placements s) of [r] \<Rightarrow> rw_imageDigest r = Some digest | _ \<Rightarrow> False)"

definition finishEnrollment :: "string \<Rightarrow> Placement \<Rightarrow> bool \<Rightarrow> bool \<Rightarrow> bool \<Rightarrow> TransitionResult compute_op" where
  "finishEnrollment computerId p success poolClaim sessionReady = transaction (casInTx computerId (expect p)
     (if success then pl_state p else UNCONFIRMED) no_bump
     (if success then no_fields\<lparr>fd_lastError := Some (Some (if poolClaim \<and> \<not> sessionReady then POOL_SESSION_PENDING else ENROLLMENT_SUCCEEDED))\<rparr>
      else no_fields\<lparr>fd_lastError := Some (Some ENROLLMENT_FAILED), fd_enrollConsumedHash := Some None, fd_enrollExpiresAt := Some None\<rparr>)
     (no_guard\<lparr>gd_provider := Some Aws_ec2, gd_states := Some ENROLLABLE_STATES, gd_preserveState := success,
        gd_instanceId := Some (bt_instanceId (pl_boot p)),
        gd_lastError := Some (Some (if sessionReady then POOL_SESSION_PENDING else ENROLLMENT_PENDING)), gd_nonceConsumed := True\<rparr>) None False)"

definition ENROLLMENT_GRACE_MS :: int where "ENROLLMENT_GRACE_MS = 60000"

text \<open>\<^verbatim>\<open>ENROLL_NONCE_TTL_SECONDS\<close> (\<^verbatim>\<open>aws-rebase-lease.ts\<close>)\<close>

definition ENROLL_NONCE_TTL_SECONDS :: int where "ENROLL_NONCE_TTL_SECONDS = 600"

definition isUnenrolledPastGrace :: "Placement \<Rightarrow> int \<Rightarrow> bool" where
  "isUnenrolledPastGrace x now = (let b = pl_boot x in
     if pl_provider x \<noteq> Aws_ec2 \<or> pl_state x \<noteq> MOUNTING \<or> bt_lifecycleJobId b \<noteq> None \<or>
        bt_lastError b = Some ENROLLMENT_SUCCEEDED \<or> bt_lastError b = Some POOL_SESSION_PENDING then False
     else (case bt_enrollExpiresAt b of None \<Rightarrow> False
       | Some deadline \<Rightarrow>
           \<not> (case bt_presenceAt b of None \<Rightarrow> False | Some t \<Rightarrow> deadline - ENROLL_NONCE_TTL_SECONDS * 1000 \<le> t) \<and>
           deadline + ENROLLMENT_GRACE_MS \<le> now))"

definition lockPoolClaimPlacement :: "string \<Rightarrow> Placement option compute_op" where
  "lockPoolClaimPlacement computerId = sbind (readPlacement computerId None) (\<lambda>found. sreturn (rp_record found))"

text \<open>The write that ends an enrollment: the proofs are cleared and the host is a failed one.\<close>

definition enrollment_failure :: placement_fields where
  "enrollment_failure = no_fields\<lparr>fd_lastError := Some (Some ENROLLMENT_FAILED), fd_enrollNonceHash := Some None,
     fd_enrollConsumedHash := Some None, fd_enrollExpiresAt := Some None\<rparr>"

definition same_snapshot :: "Placement \<Rightarrow> Placement \<Rightarrow> bool" where
  "same_snapshot c p \<longleftrightarrow> pl_generation c = pl_generation p \<and> pl_leaseEpoch c = pl_leaseEpoch p \<and>
     pl_updatedAt c = pl_updatedAt p \<and> bt_lastError (pl_boot c) = bt_lastError (pl_boot p)"

text \<open>\<^verbatim>\<open>stalled\<close> and \<^verbatim>\<open>retire\<close> are the pool's part of the transaction.\<close>

definition failStalledPoolEnrollment :: "Placement \<Rightarrow> bool compute_op \<Rightarrow> unit compute_op \<Rightarrow> TransitionResult compute_op" where
  "failStalledPoolEnrollment p stalled retire = (let b = pl_boot p in
     if pl_provider p \<noteq> Aws_ec2 \<or> pl_state p \<notin> set ENROLLABLE_STATES \<or> bt_lastError b = Some ENROLLMENT_SUCCEEDED \<or>
        \<not> truthy (bt_instanceId b) \<or> \<not> truthy (bt_volumeId b) \<or> \<not> truthy (bt_fenceToken b) \<or> \<not> truthy (bt_lifecycleJobId b) \<or>
        \<not> truthy (bt_lifecycleDigest b)
     then sreturn Cas_conflict
     else withAdmission (sbind (lockComputer (pl_computerId p)) (\<lambda>_. sbind (lockPoolClaimPlacement (pl_computerId p)) (\<lambda>cur.
       case cur of None \<Rightarrow> sreturn Cas_conflict
       | Some c \<Rightarrow> if pl_state c \<noteq> pl_state p \<or> \<not> same_snapshot c p then sreturn Cas_conflict
           else sbind stalled (\<lambda>st. if \<not> st then sreturn Cas_conflict
           else sbind (assertUnopenedAdoptUsage p) (\<lambda>_.
             sbind (casInTx (pl_computerId p) (expect p) UNCONFIRMED no_bump enrollment_failure
               (no_guard\<lparr>gd_provider := Some Aws_ec2, gd_ownerUserId := Some (pl_ownerUserId p), gd_instanceId := Some (bt_instanceId b),
                  gd_volumeId := bt_volumeId b, gd_fenceToken := bt_fenceToken b, gd_lifecycleJobId := bt_lifecycleJobId b,
                  gd_lifecycleDigest := bt_lifecycleDigest b, gd_lastError := Some (bt_lastError b),
                  gd_updatedAt := Some (pl_updatedAt p)\<rparr>) None False) (\<lambda>result.
             case result of Moved _ \<Rightarrow> sbind retire (\<lambda>_. sreturn result) | _ \<Rightarrow> sreturn result)))))))"

definition failUnenrolledPlacement :: "Placement \<Rightarrow> int \<Rightarrow> unit compute_op option \<Rightarrow> TransitionResult compute_op" where
  "failUnenrolledPlacement p now retire = (let b = pl_boot p in
     if \<not> isUnenrolledPastGrace p now then sreturn Cas_conflict
     else withAdmission (sbind (lockComputer (pl_computerId p)) (\<lambda>_. sbind (lockPoolClaimPlacement (pl_computerId p)) (\<lambda>cur.
       case cur of None \<Rightarrow> sreturn Cas_conflict
       | Some c \<Rightarrow> if \<not> isUnenrolledPastGrace c now \<or> \<not> same_snapshot c p \<or> bt_enrollExpiresAt (pl_boot c) \<noteq> bt_enrollExpiresAt b
           then sreturn Cas_conflict
           else sbind (casInTx (pl_computerId p) (expect p) UNCONFIRMED no_bump enrollment_failure
               (no_guard\<lparr>gd_provider := Some Aws_ec2, gd_ownerUserId := Some (pl_ownerUserId p), gd_instanceId := Some (bt_instanceId b),
                  gd_volumeId := bt_volumeId b, gd_fenceToken := bt_fenceToken b, gd_lastError := Some (bt_lastError b),
                  gd_updatedAt := Some (pl_updatedAt p)\<rparr>) None False) (\<lambda>result.
             case (result, retire) of (Moved _, Some m) \<Rightarrow> sbind m (\<lambda>_. sreturn result) | _ \<Rightarrow> sreturn result)))))"

definition releasable :: "int \<Rightarrow> int \<Rightarrow> Placement \<Rightarrow> bool" where
  "releasable generation leaseEpoch x \<longleftrightarrow> pl_provider x = Aws_ec2 \<and> pl_state x = MOUNTING \<and> bt_lifecycleJobId (pl_boot x) = None \<and>
     pl_generation x = generation \<and> pl_leaseEpoch x = leaseEpoch \<and> bt_instanceId (pl_boot x) \<noteq> None"

definition releaseExportBoot :: "Placement \<Rightarrow> int \<Rightarrow> int \<Rightarrow> TransitionResult compute_op" where
  "releaseExportBoot p generation leaseEpoch =
     (if \<not> releasable generation leaseEpoch p then sreturn Cas_conflict
      else withAdmission (sbind (lockComputer (pl_computerId p)) (\<lambda>_. sbind (readPlacement (pl_computerId p) None) (\<lambda>found.
        case rp_record found of None \<Rightarrow> sreturn Cas_conflict
        | Some c \<Rightarrow>
            if \<not> releasable generation leaseEpoch c \<or> pl_ownerUserId c \<noteq> pl_ownerUserId p \<or>
               bt_instanceId (pl_boot c) \<noteq> bt_instanceId (pl_boot p) \<or> bt_volumeId (pl_boot c) \<noteq> bt_volumeId (pl_boot p) \<or>
               pl_updatedAt c \<noteq> pl_updatedAt p then sreturn Cas_conflict
            else casInTx (pl_computerId p) (expect c) UNCONFIRMED no_bump enrollment_failure
              (no_guard\<lparr>gd_provider := Some Aws_ec2, gd_ownerUserId := Some (pl_ownerUserId c), gd_instanceId := Some (bt_instanceId (pl_boot c)),
                 gd_volumeId := bt_volumeId (pl_boot c), gd_fenceToken := bt_fenceToken (pl_boot c),
                 gd_lastError := Some (bt_lastError (pl_boot c)), gd_updatedAt := Some (pl_updatedAt c)\<rparr>) None False))))"

text \<open>
  The nonce of a pool claim. The row's timestamp becomes \<^verbatim>\<open>clock_timestamp()\<close>, which unlike every other
  write is not cut to whole milliseconds (\<open>clock\<close>, in microseconds).
\<close>

definition savePoolEnrollmentNonce :: "int \<Rightarrow> Placement \<Rightarrow> string \<Rightarrow> int \<Rightarrow> bool compute_op" where
  "savePoolEnrollmentNonce clock p nonceHash expiresAt = sbind (update_placements
     (\<lambda>_ r. of_computer (pl_computerId p) r \<and> rw_generation r = pl_generation p \<and> rw_leaseEpoch r = pl_leaseEpoch p \<and>
        bt_instanceId (rw_boot r) \<noteq> None \<and> bt_instanceId (rw_boot r) = bt_instanceId (pl_boot p) \<and>
        bt_enrollConsumedHash (rw_boot r) = None \<and> bt_enrollNonceHash (rw_boot r) = None)
     (\<lambda>_ r. r\<lparr>rw_boot := (rw_boot r)\<lparr>bt_enrollNonceHash := Some nonceHash, bt_enrollExpiresAt := Some expiresAt\<rparr>,
        rw_updatedAt := max (rw_updatedAt r + 1000) clock\<rparr>)) (\<lambda>rows. sreturn (length rows = 1))"

subsection \<open>Image reservations and further reads\<close>

text \<open>A reserved placement is moved by the image store only: reads and swaps of everyone else refuse it.\<close>

record ImagePlacement =
  ip_placement :: Placement
  ip_lowerImageDigest :: "string option"
  ip_lowerDigestObservedAt :: "int option"
  ip_imageUpgradeJobId :: "string option"

definition lockImagePlacement :: "string \<Rightarrow> ImagePlacement option compute_op" where
  "lockImagePlacement computerId = sbind assertAdmissionLock (\<lambda>_. sbind (lockComputer (toLowerCase computerId)) (\<lambda>_.
     sbind (sget (\<lambda>s. filter (of_computer computerId) (db_placements s))) (\<lambda>rows. case rows of
       [] \<Rightarrow> sreturn None
     | [r] \<Rightarrow> sbind (slift (parsePlacementRow r computerId)) (\<lambda>p.
         if (rw_imageDigest r = None) \<noteq> (rw_digestAt r = None) \<or>
            (case rw_imageDigest r of None \<Rightarrow> False | Some d \<Rightarrow> \<not> is_sha256_digest d) \<or>
            (case rw_imageJob r of None \<Rightarrow> False | Some j \<Rightarrow> \<not> is_uuid (toLowerCase j)) then sthrow Image_job_conflict
         else sreturn (Some \<lparr>ip_placement = p, ip_lowerImageDigest = rw_imageDigest r, ip_lowerDigestObservedAt = rw_digestAt r,
           ip_imageUpgradeJobId = rw_imageJob r\<rparr>))
     | _ \<Rightarrow> sthrow Image_job_conflict)))"

definition setImageReservation :: "ImagePlacement \<Rightarrow> string option \<Rightarrow> unit compute_op" where
  "setImageReservation ip jobId = (let p = ip_placement ip in
     sbind assertAdmissionLock (\<lambda>_. sbind (update_placements
       (\<lambda>_ r. of_computer (pl_computerId p) r \<and> rw_ownerUserId r = toLowerCase (pl_ownerUserId p) \<and> rw_generation r = pl_generation p \<and>
          rw_leaseEpoch r = pl_leaseEpoch p \<and> rw_imageJob r = ip_imageUpgradeJobId ip)
       (\<lambda>s r. r\<lparr>rw_imageJob := jobId, rw_updatedAt := PLACEMENT_UPDATE_TIME s r\<rparr>))
     (\<lambda>rows. if length rows \<noteq> 1 then sthrow Image_job_conflict else sreturn ())))"

text \<open>\<^verbatim>\<open>max(stopped_at)\<close>\<close>

definition readLastUsageStop :: "string \<Rightarrow> string \<Rightarrow> int option compute_op" where
  "readLastUsageStop computerId userId = sget (\<lambda>s. map_option (\<lambda>t. t div 1000)
     (fold greatest (map cu_stoppedAt (filter (\<lambda>u. cu_computerId u = toLowerCase computerId \<and> cu_userId u = toLowerCase userId) (db_usage s))) None))"

record canary_computer =
  cc_userId :: string
  cc_deleted :: bool
  cc_createdAt :: int

definition readCanaryComputer :: "string \<Rightarrow> canary_computer option compute_op" where
  "readCanaryComputer computerId = sbind (sget (\<lambda>s. filter (\<lambda>c. co_id c = toLowerCase computerId) (db_computers s))) (\<lambda>rows. case rows of
     [] \<Rightarrow> sreturn None
   | [c] \<Rightarrow> sreturn (Some \<lparr>cc_userId = toLowerCase (co_userId c), cc_deleted = co_deleted c, cc_createdAt = co_createdAt c\<rparr>)
   | _ \<Rightarrow> sthrow (Placement_integrity Invalid_row))"

definition readRetentionCandidates :: "(string \<times> PlacementState \<times> int) list compute_op" where
  "readRetentionCandidates s = (Inr (List.map_filter (\<lambda>r. map_option (\<lambda>st. (rw_computerId r, st, rw_updatedAt r div 1000))
       (one_of placement_state_text PLACEMENT_STATES (rw_state r)))
     (filter (\<lambda>r. rw_provider r = Some (provider_text Aws_ec2) \<and> (in_state STOPPED r \<or> in_state RETIRED r)) (db_placements s))), s)"

end
