(* ===== verification/Placement_Moves.thy ===== *)
theory Placement_Moves
  imports Placement
begin

text \<open>
  Placements that change their provider (\<^verbatim>\<open>app/src/server/lib/compute/placement.ts\<close>: the pin to Cloudflare, the flips of the moves, the
  compensation of a migration, and the reads of \<^verbatim>\<open>capacity-demand.ts\<close> they honour). Each is one
  transaction over the placements and the migrations: either all of it happened or nothing.
\<close>

subsection \<open>Removal\<close>

text \<open>\<^verbatim>\<open>DELETE ... WHERE P RETURNING\<close>, of which exactly one row is expected.\<close>

definition remove_one :: "(placement_row \<Rightarrow> bool) \<Rightarrow> compute_error \<Rightarrow> unit compute_op" where
  "remove_one P err s = (if length (filter P (db_placements s)) \<noteq> 1 then (Inl err, s\<lparr>db_placements := filter (\<lambda>r. \<not> P r) (db_placements s)\<rparr>)
     else (Inr (), s\<lparr>db_placements := filter (\<lambda>r. \<not> P r) (db_placements s)\<rparr>))"

definition removable :: "string \<Rightarrow> string \<Rightarrow> PlacementProvider \<Rightarrow> PlacementState \<Rightarrow> int \<Rightarrow> int \<Rightarrow> placement_row \<Rightarrow> bool" where
  "removable computerId ownerUserId provider st generation leaseEpoch r \<longleftrightarrow> of_computer computerId r \<and> rw_ownerUserId r = toLowerCase ownerUserId \<and>
     rw_provider r = Some (provider_text provider) \<and> in_state st r \<and> rw_generation r = generation \<and> rw_leaseEpoch r = leaseEpoch"

text \<open>A creation that must succeed.\<close>

definition create_or :: "compute_error \<Rightarrow> create_result compute_op \<Rightarrow> Placement compute_op" where
  "create_or err m = sbind m (\<lambda>created. case created of Created p \<Rightarrow> sreturn p | Placement_exists \<Rightarrow> sthrow err)"

definition moved_or :: "compute_error \<Rightarrow> TransitionResult compute_op \<Rightarrow> Placement compute_op" where
  "moved_or err m = sbind m (\<lambda>result. case result of Moved p \<Rightarrow> sreturn p | _ \<Rightarrow> sthrow err)"

subsection \<open>Publishing the migrated host\<close>

record flip_input =
  fl_computerId :: string
  fl_ownerUserId :: string
  fl_migrationId :: string
  fl_pendingReady :: bool
  fl_region :: string
  fl_instanceId :: string
  fl_volumeId :: string
  fl_fsUuid :: string
  fl_fields :: placement_fields

definition flip_fields :: "flip_input \<Rightarrow> placement_fields" where
  "flip_fields i = (fl_fields i)\<lparr>fd_region := Some (Some (fl_region i)), fd_instanceId := Some (Some (fl_instanceId i)),
     fd_volumeId := Some (Some (fl_volumeId i)), fd_fsUuid := Some (Some (fl_fsUuid i))\<rparr>"

definition flip_state :: "flip_input \<Rightarrow> PlacementState" where
  "flip_state i = (if fl_pendingReady i then PROVISIONING else RUNNING)"

definition recovering :: "compute_migration \<Rightarrow> bool" where
  "recovering m \<longleftrightarrow> (case mp_lastError m of None \<Rightarrow> False | Some e \<Rightarrow> starts_with RECOVERY_PREFIX e)"

definition ready_to_flip :: "flip_input \<Rightarrow> compute_migration \<Rightarrow> bool" where
  "ready_to_flip i m \<longleftrightarrow> mp_state m = MS_restored \<and> cm_userId m = toLowerCase (fl_ownerUserId i) \<and>
     cm_computerId m = toLowerCase (fl_computerId i) \<and> \<not> recovering m"

text \<open>The host is published already: a repeated flip answers its placement.\<close>

definition flipped_already :: "flip_input \<Rightarrow> Placement \<Rightarrow> bool" where
  "flipped_already i p \<longleftrightarrow> pl_provider p = Aws_ec2 \<and> pl_ownerUserId p = toLowerCase (fl_ownerUserId i) \<and>
     bt_instanceId (pl_boot p) = Some (fl_instanceId i) \<and> bt_volumeId (pl_boot p) = Some (fl_volumeId i) \<and>
     bt_fsUuid (pl_boot p) = Some (fl_fsUuid i) \<and>
     bt_fenceToken (pl_boot p) = (case fd_fenceToken (fl_fields i) of None \<Rightarrow> None | Some t \<Rightarrow> t) \<and> pl_state p = flip_state i"

definition retire_towards :: "string \<Rightarrow> string \<Rightarrow> PlacementState \<Rightarrow> Placement \<Rightarrow> Placement compute_op" where
  "retire_towards computerId ownerUserId to_state retired =
     (if pl_state retired = RETIRED \<or> pl_state retired = to_state then sreturn retired
      else if to_state \<notin> set (PLACEMENT_TRANSITIONS (pl_state retired)) then sthrow (Refused ''migration_source_not_retirable'')
      else moved_or (Refused ''migration_placement_conflict'') (casInTx computerId (expect retired) to_state no_bump no_fields
        (no_guard\<lparr>gd_ownerUserId := Some ownerUserId, gd_provider := Some Cloudflare\<rparr>) None False))"

definition retire_source :: "string \<Rightarrow> string \<Rightarrow> Placement \<Rightarrow> unit compute_op" where
  "retire_source computerId ownerUserId p =
     (if pl_provider p \<noteq> Cloudflare \<or> pl_ownerUserId p \<noteq> ownerUserId then sthrow (Refused ''migration_source_mismatch'')
      else sbind (retire_towards computerId ownerUserId RETIRING p) (\<lambda>p1. sbind (retire_towards computerId ownerUserId RETIRED p1) (\<lambda>p2.
        remove_one (removable computerId ownerUserId Cloudflare RETIRED (pl_generation p2) (pl_leaseEpoch p2))
          (Refused ''migration_placement_conflict''))))"

definition flipPlacementToAws :: "flip_input \<Rightarrow> Placement compute_op" where
  "flipPlacementToAws i = (let computerId = toLowerCase (fl_computerId i); ownerUserId = toLowerCase (fl_ownerUserId i) in
     withAdmission (sbind (lockComputer computerId) (\<lambda>_.
       sbind (sget (\<lambda>s. find (\<lambda>m. cm_id m = toLowerCase (fl_migrationId i)) (mv_rows (db_moves s)))) (\<lambda>migration.
       if (case migration of None \<Rightarrow> True | Some m \<Rightarrow> \<not> ready_to_flip i m) then sthrow (Refused ''migration_not_restored'')
       else if fl_region i \<noteq> ''ap-south-1'' \<or> fl_instanceId i = [] \<or> fl_volumeId i = [] \<or> fl_fsUuid i = []
         then sthrow (Refused ''migration_aws_receipt_invalid'')
       else sbind (readPlacement computerId None) (\<lambda>found.
         let publish = create_or (Refused ''migration_placement_conflict'') (createInTx computerId ownerUserId Aws_ec2 (flip_state i) (flip_fields i) True) in
         case rp_record found of
           None \<Rightarrow> publish
         | Some p \<Rightarrow> if flipped_already i p then sreturn p
             else sbind (retire_source computerId ownerUserId p) (\<lambda>_. publish))))))"

subsection \<open>The reverse move\<close>

text \<open>\<^verbatim>\<open>finishInTx\<close> ends the reverse move in the same transaction.\<close>

definition flipPlacementToCloudflare :: "string \<Rightarrow> string \<Rightarrow> int \<Rightarrow> int \<Rightarrow> string \<Rightarrow> string \<Rightarrow> unit compute_op \<Rightarrow> Placement compute_op" where
  "flipPlacementToCloudflare rawComputerId rawOwner placementGeneration leaseEpoch volumeId store finishInTx =
     (let computerId = toLowerCase rawComputerId; ownerUserId = toLowerCase rawOwner;
          g = no_guard\<lparr>gd_ownerUserId := Some ownerUserId, gd_provider := Some Aws_ec2\<rparr>;
          conflict = Refused ''reverse_flip_placement_conflict'' in
      if store \<noteq> ''r2'' then sthrow (Refused ''reverse_flip_store_unsupported'')
      else withAdmission (sbind (lockComputer computerId) (\<lambda>_. sbind (readPlacement computerId None) (\<lambda>found.
        case rp_record found of None \<Rightarrow> sthrow (Refused ''reverse_flip_source_mismatch'')
        | Some p \<Rightarrow>
            if pl_provider p \<noteq> Aws_ec2 \<or> pl_ownerUserId p \<noteq> ownerUserId \<or> pl_state p \<noteq> STOPPED \<or> pl_generation p \<noteq> placementGeneration \<or>
               pl_leaseEpoch p \<noteq> leaseEpoch \<or> bt_lifecycleJobId (pl_boot p) \<noteq> None \<or> bt_volumeId (pl_boot p) \<noteq> Some volumeId
            then sthrow (Refused ''reverse_flip_source_mismatch'')
            else sbind (moved_or conflict (casInTx computerId (expect p) RETIRING no_bump no_fields g None False)) (\<lambda>p1.
              sbind (moved_or conflict (casInTx computerId (expect p1) RETIRED no_bump no_fields g None False)) (\<lambda>_.
              sbind (remove_one (removable computerId ownerUserId Aws_ec2 RETIRED placementGeneration leaseEpoch) conflict) (\<lambda>_.
              sbind (create_or conflict (createInTx computerId ownerUserId Cloudflare STOPPED no_fields True)) (\<lambda>created.
              sbind finishInTx (\<lambda>_. sreturn created)))))))))"

subsection \<open>The pin\<close>

definition hasDemandHoldForRouting :: "string \<Rightarrow> string \<Rightarrow> bool compute_op" where
  "hasDemandHoldForRouting computerId ownerUserId = sget (\<lambda>s.
     \<exists>d \<in> set (db_demands s). dm_computerId d = toLowerCase computerId \<and> dm_ownerUserId d = toLowerCase ownerUserId)"

definition AWS_WITHOUT_ROW :: ResolvedPlacement where
  "AWS_WITHOUT_ROW = \<lparr>rp_provider = Aws_ec2, rp_store = Ebs, rp_record = None\<rparr>"

definition pinCloudflarePlacement :: "string \<Rightarrow> string \<Rightarrow> bool \<Rightarrow> ResolvedPlacement compute_op" where
  "pinCloudflarePlacement computerId userId honorDemand = transaction (sbind (lockComputer computerId) (\<lambda>_.
     sbind (readPlacement computerId (Some userId)) (\<lambda>existing.
     if rp_record existing \<noteq> None then sreturn existing
     else sbind (if honorDemand then hasDemandHoldForRouting computerId userId else sreturn False) (\<lambda>hold.
     if hold then sreturn AWS_WITHOUT_ROW
     else sbind (in_moves (readByComputer computerId)) (\<lambda>m.
     if (case m of None \<Rightarrow> False | Some m \<Rightarrow> cm_userId m = toLowerCase userId \<and> mp_state m = MS_committed \<and>
           mp_lastError m = Some ''fresh_provision'') then sreturn AWS_WITHOUT_ROW
     else sbind (create_or (Placement_integrity Invalid_row) (createInTx computerId userId Cloudflare STOPPED no_fields True)) (\<lambda>p.
       sreturn \<lparr>rp_provider = Cloudflare, rp_store = pl_store p, rp_record = Some p\<rparr>))))))"

subsection \<open>Finishing and undoing a migration\<close>

definition finishFreshProvision :: "compute_migration \<Rightarrow> bool compute_op \<Rightarrow> unit compute_op" where
  "finishFreshProvision m proveEmpty = (let conflict = Of_moves Migration_conflict in
     withAdmission (sbind (lockComputer (cm_computerId m)) (\<lambda>_. sbind (in_moves (readById (cm_id m))) (\<lambda>cur.
       case cur of None \<Rightarrow> sthrow conflict
       | Some c \<Rightarrow>
         if cm_userId c \<noteq> cm_userId m \<or> cm_computerId c \<noteq> cm_computerId m \<or> mp_state c \<noteq> MS_requested \<or> cm_updatedAt c \<noteq> cm_updatedAt m
         then sthrow conflict
         else sbind (readPlacement (cm_computerId m) None) (\<lambda>found.
           if (case rp_record found of None \<Rightarrow> False
               | Some p \<Rightarrow> pl_provider p \<noteq> Cloudflare \<or> pl_ownerUserId p \<noteq> cm_userId m \<or> pl_state p \<noteq> STOPPED) then sthrow conflict
           else sbind proveEmpty (\<lambda>empty. if \<not> empty then sthrow conflict
           else sbind (case rp_record found of None \<Rightarrow> sreturn ()
               | Some p \<Rightarrow> remove_one (removable (cm_computerId m) (cm_userId m) Cloudflare STOPPED (pl_generation p) (pl_leaseEpoch p)) conflict) (\<lambda>_.
             sbind (in_moves (applyTransition c ME_fresh_provision None)) (\<lambda>result.
               if fst result then sreturn () else sthrow conflict)))))))) "

definition migration_pending :: "compute_migration \<Rightarrow> string" where
  "migration_pending m = ''migration_pending:'' @ cm_id m"

definition rollbackMigrationPlacement :: "compute_migration \<Rightarrow> Placement option \<Rightarrow> unit compute_op" where
  "rollbackMigrationPlacement m source = (let conflict = Refused ''migration_rollback_conflict'' in
     withAdmission (sbind (lockComputer (cm_computerId m)) (\<lambda>_.
       sbind (sget (\<lambda>s. find (\<lambda>r. cm_id r = cm_id m \<and> cm_computerId r = cm_computerId m \<and> cm_userId r = cm_userId m) (mv_rows (db_moves s)))) (\<lambda>locked.
       if (case locked of None \<Rightarrow> True | Some r \<Rightarrow> \<not> recovering r) then sthrow (Refused ''migration_not_recovering'')
       else sbind (readPlacement (cm_computerId m) None) (\<lambda>found.
         case rp_record found of None \<Rightarrow> sreturn ()
         | Some p \<Rightarrow>
             if pl_provider p = Cloudflare then sreturn ()
             else if pl_ownerUserId p \<noteq> cm_userId m \<or> pl_state p \<noteq> PROVISIONING \<or> bt_lastError (pl_boot p) \<noteq> Some (migration_pending m)
               then sthrow conflict
             else sbind (remove_one (\<lambda>r. removable (cm_computerId m) (cm_userId m) Aws_ec2 PROVISIONING (pl_generation p) (pl_leaseEpoch p) r \<and>
                 bt_lastError (rw_boot r) = bt_lastError (pl_boot p)) conflict) (\<lambda>_.
               case source of None \<Rightarrow> sreturn ()
               | Some src \<Rightarrow> sbind (create_or conflict (createInTx (cm_computerId m) (cm_userId m) Cloudflare (pl_state src)
                   (fields_of (pl_boot src)) True)) (\<lambda>_. sreturn ())))))))"

end
