(* ===== verification/Admission.thy ===== *)
theory Admission
  imports Placement_Moves Billing_Config Calendar
begin

text \<open>
  Admission to AWS (\<^verbatim>\<open>app/src/server/lib/compute/admission.ts\<close> with its configuration \<^verbatim>\<open>aws-config.ts\<close>, the usage totals
  \<^verbatim>\<open>usage.ts\<close> and the counters \<^verbatim>\<open>placement.ts\<close> reads). One transaction under the global lock counts what runs and what
  is promised, decides, and only then creates or leases the placement. Capacity is counted in vCPU; a cap is in units
  of two. The application's clock is an argument, in milliseconds.
\<close>

subsection \<open>Configuration\<close>

datatype AwsTier = Tier_free | Tier_plus | Tier_compute4 | Tier_compute8

fun AWS_TIERS :: "AwsTier \<Rightarrow> string list" where
  "AWS_TIERS Tier_free = [''t3a.medium'', ''t3.medium'']"
| "AWS_TIERS Tier_plus = [sz_machine (SIZES Std_2)]"
| "AWS_TIERS Tier_compute4 = [sz_machine (SIZES Cmp_4)]"
| "AWS_TIERS Tier_compute8 = [sz_machine (SIZES Cmp_8)]"

definition instanceTypeForTier :: "AwsTier \<Rightarrow> string" where
  "instanceTypeForTier t = hd (AWS_TIERS t)"

fun awsTierForSize :: "SizeCode \<Rightarrow> AwsTier option" where
  "awsTierForSize Std_2 = Some Tier_plus"
| "awsTierForSize Cmp_4 = Some Tier_compute4"
| "awsTierForSize Cmp_8 = Some Tier_compute8"
| "awsTierForSize Free_cf = None"

definition INSTANCE_VCPU :: "(string \<times> int) list" where
  "INSTANCE_VCPU = [(''t3a.medium'', 2), (''t3.medium'', 2), (''m6i.large'', 2), (''c6i.xlarge'', 4), (''m6i.xlarge'', 4), (''m6i.2xlarge'', 8)]"

definition instanceVcpu :: "string option \<Rightarrow> int" where
  "instanceVcpu t = (case t of None \<Rightarrow> 8 | Some x \<Rightarrow> (case map_of INSTANCE_VCPU x of None \<Rightarrow> 8 | Some n \<Rightarrow> n))"

definition meteredSizeForInstanceType :: "string option \<Rightarrow> SizeCode option" where
  "meteredSizeForInstanceType t = (case t of None \<Rightarrow> None | Some x \<Rightarrow> (case map_of INSTANCE_VCPU x of None \<Rightarrow> None
     | Some n \<Rightarrow> if n = 2 then Some Std_2 else if n = 4 then Some Cmp_4 else if n = 8 then Some Cmp_8 else None))"

record aws_caps =
  cap_maxRunning :: int
  cap_userMonthlyHours :: int
  cap_globalMonthlyHours :: int
  cap_userMonthlyEgressGb :: int
  cap_globalMonthlyEgressGb :: int

record aws_region =
  rg_name :: string
  rg_maxRunning :: int

datatype AdmissionRefusal = Aws_disabled | Aws_config_invalid | Computer_not_owned | Computer_deleted | Kill_switch
  | Duplicated_placement | Max_running | User_has_aws_computer | User_hours_cap | Global_hours_cap | User_egress_cap
  | Global_egress_cap | Aws_tier_invalid | Region_not_configured | Region_capacity

datatype AwsAdmissionConfig = Aws_off AdmissionRefusal | Aws_on bool aws_caps "aws_region list"

definition isAwsComputersEnabled :: "env \<Rightarrow> bool" where
  "isAwsComputersEnabled e \<longleftrightarrow> e ''EZIL_AWS_COMPUTERS_ENABLED'' = Some ''1''"

definition isPlacementReadEnabled :: "env \<Rightarrow> bool" where
  "isPlacementReadEnabled e \<longleftrightarrow> e ''EZIL_COMPUTE_PLACEMENT_READS'' = Some ''1'' \<or> isAwsComputersEnabled e"

definition strictCount :: "string option \<Rightarrow> int option" where
  "strictCount v = (case v of None \<Rightarrow> None
     | Some t \<Rightarrow> if t = [] \<or> \<not> list_all is_digit t then None
         else if is_safe_integer (digits_val t) then Some (digits_val t) else None)"

definition upper_char :: "char \<Rightarrow> char" where
  "upper_char c = (if CHR ''a'' \<le> c \<and> c \<le> CHR ''z'' then char_of (of_char c - 32 :: nat) else c)"

definition regionCapEnv :: "string \<Rightarrow> string" where
  "regionCapEnv region = ''EZIL_AWS_MAX_RUNNING_'' @ map (\<lambda>c. if c = CHR ''-'' then CHR ''_'' else upper_char c) region"

text \<open>\<^verbatim>\<open>raw.split(',')\<close>\<close>

fun split_commas :: "string \<Rightarrow> string \<Rightarrow> string list" where
  "split_commas acc [] = [rev acc]"
| "split_commas acc (c # cs) = (if c = CHR '','' then rev acc # split_commas [] cs else split_commas (c # acc) cs)"

definition is_lower :: "char \<Rightarrow> bool" where
  "is_lower c \<longleftrightarrow> CHR ''a'' \<le> c \<and> c \<le> CHR ''z''"

text \<open>\<^verbatim>\<open>AWS_REGION_PATTERN\<close>\<close>

definition is_aws_region :: "string \<Rightarrow> bool" where
  "is_aws_region s \<longleftrightarrow> (\<exists>d \<in> set [''north'', ''south'', ''east'', ''west'', ''central'', ''northeast'', ''southeast'', ''northwest'', ''southwest''].
     length s = 5 + length d \<and> list_all is_lower (take 2 s) \<and> take (2 + length d) (drop 2 s) = ''-'' @ d @ ''-'' \<and>
     CHR ''1'' \<le> last s \<and> last s \<le> CHR ''9'')"

definition MAX_AWS_REGIONS :: nat where "MAX_AWS_REGIONS = 4"

text \<open>The names of the invalid settings are only reported, so the answer here is that there are some.\<close>

definition readAwsRegions :: "env \<Rightarrow> aws_region list option" where
  "readAwsRegions e = (let names = (case e ''AWS_REGIONS'' of None \<Rightarrow> [] | Some raw \<Rightarrow> split_commas [] raw) in
     if names = [] \<or> MAX_AWS_REGIONS < length names \<or> \<not> list_all is_aws_region names \<or> \<not> distinct names then None
     else if list_ex (\<lambda>n. strictCount (e (regionCapEnv n)) = None) names then None
     else Some (map (\<lambda>n. \<lparr>rg_name = n, rg_maxRunning = the (strictCount (e (regionCapEnv n)))\<rparr>) names))"

definition readAwsCaps :: "env \<Rightarrow> aws_caps option" where
  "readAwsCaps e = (case (strictCount (e ''AWS_MAX_RUNNING''), strictCount (e ''EZIL_AWS_USER_MONTHLY_HOURS''),
       strictCount (e ''EZIL_AWS_GLOBAL_MONTHLY_HOURS''), strictCount (e ''EZIL_AWS_USER_MONTHLY_EGRESS_GB''),
       strictCount (e ''EZIL_AWS_GLOBAL_MONTHLY_EGRESS_GB'')) of
     (Some a, Some b, Some c, Some d, Some f) \<Rightarrow> Some \<lparr>cap_maxRunning = a, cap_userMonthlyHours = b, cap_globalMonthlyHours = c,
       cap_userMonthlyEgressGb = d, cap_globalMonthlyEgressGb = f\<rparr>
   | _ \<Rightarrow> None)"

definition readAwsAdmissionConfig :: "env \<Rightarrow> AwsAdmissionConfig" where
  "readAwsAdmissionConfig e =
     (if \<not> isAwsComputersEnabled e then Aws_off Aws_disabled
      else (case (readAwsCaps e, readAwsRegions e) of
          (Some caps, Some regions) \<Rightarrow>
            Aws_on (e ''EZIL_AWS_KILL_SWITCH'' \<noteq> None \<and> e ''EZIL_AWS_KILL_SWITCH'' \<noteq> Some ''0'') caps regions
        | _ \<Rightarrow> Aws_off Aws_config_invalid))"

subsection \<open>Usage of a month\<close>

text \<open>
  The rows as the application reads them, in milliseconds, and their totals: the time a row ran in the month, its whole
  seconds weighted by the size, and its egress. The hours are kept as milliseconds.
\<close>

record usage_totals =
  ut_milliseconds :: int
  ut_weightedSeconds :: int
  ut_egressBytes :: int

definition ZERO_TOTALS :: usage_totals where
  "ZERO_TOTALS = \<lparr>ut_milliseconds = 0, ut_weightedSeconds = 0, ut_egressBytes = 0\<rparr>"

definition utcMonthStart :: "int \<Rightarrow> int" where
  "utcMonthStart now = fst (month_window now)"

definition utcNextMonthStart :: "int \<Rightarrow> int" where
  "utcNextMonthStart now = snd (month_window now)"

text \<open>A row as the application sees it: a ledger row with its instants cut to milliseconds.\<close>

definition in_ms :: "compute_usage \<Rightarrow> compute_usage" where
  "in_ms u = u\<lparr>cu_startedAt := cu_startedAt u div 1000, cu_stoppedAt := map_option (\<lambda>t. t div 1000) (cu_stoppedAt u)\<rparr>"

definition rowMillisecondsInMonth :: "compute_usage \<Rightarrow> int \<Rightarrow> int" where
  "rowMillisecondsInMonth u now = (let from_t = max (cu_startedAt u) (utcMonthStart now);
     to_t = min (case cu_stoppedAt u of None \<Rightarrow> now | Some t \<Rightarrow> t) (min now (utcNextMonthStart now)) in
     if from_t < to_t then to_t - from_t else 0)"

text \<open>Every known size is an even number of vCPU, so the division is exact.\<close>

definition rowWeightedSecondsInMonth :: "compute_usage \<Rightarrow> int \<Rightarrow> int" where
  "rowWeightedSecondsInMonth u now = rowMillisecondsInMonth u now div 1000 * (instanceVcpu (Some (cu_instanceType u)) div 2)"

definition rowOverlapsMonth :: "compute_usage \<Rightarrow> int \<Rightarrow> bool" where
  "rowOverlapsMonth u now \<longleftrightarrow> cu_startedAt u < min now (utcNextMonthStart now) \<and>
     (case cu_stoppedAt u of None \<Rightarrow> True | Some t \<Rightarrow> utcMonthStart now \<le> t)"

definition add_totals :: "usage_totals \<Rightarrow> usage_totals \<Rightarrow> usage_totals" where
  "add_totals a b = \<lparr>ut_milliseconds = ut_milliseconds a + ut_milliseconds b, ut_weightedSeconds = ut_weightedSeconds a + ut_weightedSeconds b,
     ut_egressBytes = ut_egressBytes a + ut_egressBytes b\<rparr>"

definition row_totals :: "compute_usage \<Rightarrow> int \<Rightarrow> usage_totals" where
  "row_totals u now = \<lparr>ut_milliseconds = rowMillisecondsInMonth u now, ut_weightedSeconds = rowWeightedSecondsInMonth u now,
     ut_egressBytes = (case cu_egressBytes u of None \<Rightarrow> 0 | Some n \<Rightarrow> n)\<rparr>"

definition totalsOf :: "usage_totals list \<Rightarrow> usage_totals" where
  "totalsOf ts = fold (\<lambda>t acc. add_totals acc t) ts ZERO_TOTALS"

definition totalsFor :: "compute_usage list \<Rightarrow> int \<Rightarrow> usage_totals" where
  "totalsFor rows now = totalsOf (map (\<lambda>u. row_totals u now) (filter (\<lambda>u. rowOverlapsMonth u now) rows))"

definition summarizeUsage :: "compute_usage list \<Rightarrow> string \<Rightarrow> int \<Rightarrow> usage_totals \<times> usage_totals" where
  "summarizeUsage rows userId now = (totalsFor (filter (\<lambda>u. cu_userId u = userId) rows) now, totalsFor rows now)"

record month_usage =
  mu_global :: usage_totals
  mu_byUser :: "(string \<times> usage_totals) list"

definition totals_at :: "string \<Rightarrow> (string \<times> usage_totals) list \<Rightarrow> usage_totals" where
  "totals_at k m = (case map_of m k of None \<Rightarrow> ZERO_TOTALS | Some t \<Rightarrow> t)"

fun by_user :: "int \<Rightarrow> compute_usage list \<Rightarrow> (string \<times> usage_totals) list \<Rightarrow> (string \<times> usage_totals) list" where
  "by_user now [] m = m"
| "by_user now (u # us) m = by_user now us (if \<not> rowOverlapsMonth u now then m
     else (let k = toLowerCase (cu_userId u) in map_set k (add_totals (totals_at k m) (row_totals u now)) m))"

definition monthUsageFromRows :: "compute_usage list \<Rightarrow> int \<Rightarrow> month_usage" where
  "monthUsageFromRows rows now = (let m = by_user now rows [] in \<lparr>mu_global = totalsOf (map snd m), mu_byUser = m\<rparr>)"

definition usageFor :: "month_usage \<Rightarrow> string \<Rightarrow> usage_totals" where
  "usageFor usage userId = totals_at (toLowerCase userId) (mu_byUser usage)"

definition awsMonthlyCapReached :: "month_usage \<Rightarrow> string \<Rightarrow> int \<Rightarrow> bool" where
  "awsMonthlyCapReached usage userId userMonthlyHours \<longleftrightarrow> userMonthlyHours * 3600 \<le> ut_weightedSeconds (usageFor usage userId)"

text \<open>The same totals in the database: microseconds, floored to seconds, one group per user.\<close>

definition sql_micros :: "int \<Rightarrow> compute_usage \<Rightarrow> int" where
  "sql_micros now u = max 0 (min (case cu_stoppedAt u of None \<Rightarrow> now * 1000 | Some t \<Rightarrow> t) (min (now * 1000) (utcNextMonthStart now * 1000))
     - max (cu_startedAt u) (utcMonthStart now * 1000))"

definition sql_in_month :: "int \<Rightarrow> compute_usage \<Rightarrow> bool" where
  "sql_in_month now u \<longleftrightarrow> cu_startedAt u < min (now * 1000) (utcNextMonthStart now * 1000) \<and>
     (case cu_stoppedAt u of None \<Rightarrow> True | Some t \<Rightarrow> utcMonthStart now * 1000 \<le> t)"

definition sql_totals :: "int \<Rightarrow> compute_usage list \<Rightarrow> usage_totals" where
  "sql_totals now us = \<lparr>ut_milliseconds = sum_list (map (sql_micros now) us) div 1000,
     ut_weightedSeconds = sum_list (map (\<lambda>u. sql_micros now u div 1000000 * (instanceVcpu (Some (cu_instanceType u)) div 2)) us),
     ut_egressBytes = sum_list (map (\<lambda>u. case cu_egressBytes u of None \<Rightarrow> 0 | Some n \<Rightarrow> n) us)\<rparr>"

definition readMonthUsage :: "int \<Rightarrow> compute_db \<Rightarrow> month_usage" where
  "readMonthUsage now s = (let us = filter (sql_in_month now) (db_usage s);
     m = map (\<lambda>k. (k, sql_totals now (filter (\<lambda>u. cu_userId u = k) us))) (remdups (map cu_userId us)) in
     \<lparr>mu_global = totalsOf (map snd m), mu_byUser = m\<rparr>)"

subsection \<open>Counters\<close>

text \<open>
  What admission counts: the fleet, the region, the user's other computers, the demands promised to others. A missing
  regional figure is \<open>None\<close>, as for callers that decide without reading it.
\<close>

record AdmissionCounters =
  ac_targetOwnerId :: "string option"
  ac_targetPlacementOwnerId :: "string option"
  ac_targetDeleted :: bool
  ac_targetForeignUsage :: int
  ac_runningCount :: int
  ac_runningVcpu :: "int option"
  ac_runningByRegion :: "(string \<times> int) list option"
  ac_runningUnplaced :: "int option"
  ac_runningVcpuByRegion :: "(string \<times> int) list option"
  ac_runningVcpuUnplaced :: "int option"
  ac_userOtherAwsComputers :: int
  ac_duplicates :: "(string \<times> nat) list"
  ac_usage :: month_usage

text \<open>Launched placements and the boots that migrations have reserved.\<close>

record capacity_row =
  cr_computerId :: string
  cr_ownerUserId :: string
  cr_provider :: "string option"
  cr_state :: "string option"
  cr_region :: "string option"
  cr_instanceType :: "string option"

text \<open>\<^verbatim>\<open>head #>> path\<close>\<close>

fun json_path :: "json \<Rightarrow> string list \<Rightarrow> json option" where
  "json_path j [] = Some j"
| "json_path (JObj o') (k # ks) = (case member_of o' k of None \<Rightarrow> None | Some v \<Rightarrow> json_path v ks)"
| "json_path _ (k # ks) = None"

definition path_text :: "snapshot_head option \<Rightarrow> string list \<Rightarrow> string option" where
  "path_text head ks = (case head of None \<Rightarrow> None | Some h \<Rightarrow>
     (case json_path (JObj h) ks of Some (JStr t) \<Rightarrow> Some t | Some (JInt n) \<Rightarrow> Some (show_int n) | _ \<Rightarrow> None))"

definition placement_capacity :: "placement_row \<Rightarrow> capacity_row" where
  "placement_capacity r = \<lparr>cr_computerId = rw_computerId r, cr_ownerUserId = rw_ownerUserId r, cr_provider = rw_provider r,
     cr_state = rw_state r, cr_region = bt_region (rw_boot r), cr_instanceType = bt_instanceType (rw_boot r)\<rparr>"

definition is_aws :: "placement_row \<Rightarrow> bool" where
  "is_aws r \<longleftrightarrow> rw_provider r = Some (provider_text Aws_ec2)"

definition migration_capacity :: "compute_migration \<Rightarrow> capacity_row" where
  "migration_capacity m = \<lparr>cr_computerId = cm_computerId m, cr_ownerUserId = cm_userId m, cr_provider = Some (provider_text Aws_ec2),
     cr_state = Some (placement_state_text PROVISIONING),
     cr_region = path_text (mp_workspaceHead m) [''_awsProvision'', ''placement'', ''region''],
     cr_instanceType = path_text (mp_workspaceHead m) [''_awsProvision'', ''placement'', ''instanceType'']\<rparr>"

definition reserves_capacity :: "compute_db \<Rightarrow> compute_migration \<Rightarrow> bool" where
  "reserves_capacity s m \<longleftrightarrow> unreleased m \<and> mp_state m \<noteq> MS_committed \<and>
     \<not> (\<exists>r \<in> set (db_placements s). rw_computerId r = cm_computerId m \<and> is_aws r)"

definition CAPACITY_PLACEMENTS :: "compute_db \<Rightarrow> capacity_row list" where
  "CAPACITY_PLACEMENTS s = map placement_capacity (db_placements s) @
     map migration_capacity (filter (reserves_capacity s) (mv_rows (db_moves s)))"

definition runs :: "capacity_row \<Rightarrow> bool" where
  "runs c \<longleftrightarrow> cr_provider c = Some (provider_text Aws_ec2) \<and>
     (\<exists>st \<in> set RUNNING_CLASS_STATES. cr_state c = Some (placement_state_text st))"

definition running_rows :: "compute_db \<Rightarrow> capacity_row list" where
  "running_rows s = filter runs (CAPACITY_PLACEMENTS s)"

definition vcpu_of :: "capacity_row list \<Rightarrow> int" where
  "vcpu_of cs = sum_list (map (\<lambda>c. instanceVcpu (cr_instanceType c)) cs)"

text \<open>One figure per region that has rows, and the rows without a region.\<close>

definition per_region :: "('a \<Rightarrow> string option) \<Rightarrow> ('a list \<Rightarrow> int) \<Rightarrow> 'a list \<Rightarrow> (string \<times> int) list" where
  "per_region region figure cs = map (\<lambda>r. (r, figure (filter (\<lambda>c. region c = Some r) cs))) (remdups (List.map_filter region cs))"

definition count_of :: "'a list \<Rightarrow> int" where
  "count_of xs = int (length xs)"

definition counts_for_user :: "string \<Rightarrow> string \<Rightarrow> compute_db \<Rightarrow> capacity_row \<Rightarrow> bool" where
  "counts_for_user userId computerId s c \<longleftrightarrow> cr_provider c = Some (provider_text Aws_ec2) \<and> cr_computerId c \<noteq> computerId \<and>
     cr_state c \<noteq> None \<and> cr_state c \<noteq> Some (placement_state_text PURGE_ELIGIBLE) \<and>
     (cr_ownerUserId c = userId \<or> (\<exists>u \<in> set (db_usage s). cu_computerId u = cr_computerId c \<and> cu_userId u = userId))"

definition active_demand :: "compute_db \<Rightarrow> string \<Rightarrow> capacity_demand \<Rightarrow> bool" where
  "active_demand s computerId d \<longleftrightarrow> dm_closedAt d = None \<and> db_now s < dm_expiresAt d \<and> dm_computerId d \<noteq> computerId"

text \<open>\<^verbatim>\<open>m[k] = (m[k] ?? 0) + n\<close> for every entry of another map.\<close>

definition figure_at :: "string \<Rightarrow> (string \<times> int) list \<Rightarrow> int" where
  "figure_at k m = (case map_of m k of None \<Rightarrow> 0 | Some n \<Rightarrow> n)"

fun add_figures :: "(string \<times> int) list \<Rightarrow> (string \<times> int) list \<Rightarrow> (string \<times> int) list" where
  "add_figures [] m = m"
| "add_figures ((k, n) # ds) m = add_figures ds (map_set k (figure_at k m + n) m)"

definition demand_vcpu :: "capacity_demand list \<Rightarrow> int" where
  "demand_vcpu ds = sum_list (map dm_vcpu ds)"

definition count_all :: "string \<Rightarrow> string \<Rightarrow> int \<Rightarrow> Placement option \<Rightarrow> compute_db \<Rightarrow> AdmissionCounters" where
  "count_all userId computerId now target s =
     (let owner = find (\<lambda>c. co_id c = computerId) (db_computers s);
          rows = running_rows s; unplaced = filter (\<lambda>c. cr_region c = None) rows;
          demands = filter (active_demand s computerId) (db_demands s) in
      \<lparr>ac_targetOwnerId = map_option co_userId owner,
       ac_targetPlacementOwnerId = map_option pl_ownerUserId target,
       ac_targetDeleted = (case owner of None \<Rightarrow> False | Some c \<Rightarrow> co_deleted c),
       ac_targetForeignUsage = count_of (filter (\<lambda>u. cu_computerId u = computerId \<and> cu_userId u \<noteq> userId) (db_usage s)),
       ac_runningCount = count_of rows + count_of demands,
       ac_runningVcpu = Some (vcpu_of rows + demand_vcpu demands),
       ac_runningByRegion = Some (add_figures (per_region (\<lambda>d. Some (dm_region d)) count_of demands) (per_region cr_region count_of rows)),
       ac_runningUnplaced = Some (count_of unplaced),
       ac_runningVcpuByRegion = Some (add_figures (per_region (\<lambda>d. Some (dm_region d)) demand_vcpu demands) (per_region cr_region vcpu_of rows)),
       ac_runningVcpuUnplaced = Some (vcpu_of unplaced),
       ac_userOtherAwsComputers = count_of (remdups (map cr_computerId (filter (counts_for_user userId computerId s) (CAPACITY_PLACEMENTS s)))) +
         count_of (filter (\<lambda>d. dm_ownerUserId d = userId) demands),
       ac_duplicates = findDuplicatePlacements s,
       ac_usage = readMonthUsage now s\<rparr>)"

definition readCounters :: "string \<Rightarrow> string \<Rightarrow> int \<Rightarrow> AdmissionCounters compute_op" where
  "readCounters userId computerId now = sbind (readPlacement computerId None) (\<lambda>target.
     sget (count_all (toLowerCase userId) (toLowerCase computerId) now (rp_record target)))"

definition readAdmissionCounters :: "string \<Rightarrow> string \<Rightarrow> int \<Rightarrow> AdmissionCounters compute_op" where
  "readAdmissionCounters userId computerId now = sbind assertAdmissionLock (\<lambda>_. sbind (readCounters userId computerId now) (\<lambda>counters s.
     (Inr counters, s\<lparr>adm_counted := Some (toLowerCase computerId)\<rparr>)))"

definition peekAdmissionCounters :: "string \<Rightarrow> string \<Rightarrow> int \<Rightarrow> AdmissionCounters compute_op" where
  "peekAdmissionCounters = readCounters"

subsection \<open>The decision\<close>

datatype RegionPlan = Plan_create | Plan_lease "string option"
datatype AdmissionDecision = Admitted_to "string option" | Refused_for "AdmissionRefusal list"

definition or_else :: "int option \<Rightarrow> int \<Rightarrow> int" where
  "or_else v d = (case v of None \<Rightarrow> d | Some n \<Rightarrow> n)"

definition regionRunningVcpu :: "AdmissionCounters \<Rightarrow> string \<Rightarrow> int" where
  "regionRunningVcpu c region =
     (case (ac_runningVcpuByRegion c, ac_runningByRegion c) of
        (Some m, _) \<Rightarrow> figure_at region m + or_else (ac_runningVcpuUnplaced c) (or_else (ac_runningUnplaced c) 0 * 8)
      | (None, Some m) \<Rightarrow> figure_at region m * 8 + or_else (ac_runningVcpuUnplaced c) (or_else (ac_runningUnplaced c) 0 * 8)
      | (None, None) \<Rightarrow> or_else (ac_runningVcpu c) (ac_runningCount c * 8))"

definition region_refusals :: "aws_region list \<Rightarrow> AdmissionCounters \<Rightarrow> int \<Rightarrow> RegionPlan option \<Rightarrow> AdmissionRefusal list \<times> string option" where
  "region_refusals regions c vcpu plan = (case plan of
     None \<Rightarrow> ([], None)
   | Some Plan_create \<Rightarrow> (case find (\<lambda>r. regionRunningVcpu c (rg_name r) + vcpu \<le> rg_maxRunning r * 2) regions of
         None \<Rightarrow> ([Region_capacity], None) | Some r \<Rightarrow> ([], Some (rg_name r)))
   | Some (Plan_lease home) \<Rightarrow> (case (case home of None \<Rightarrow> None | Some h \<Rightarrow> find (\<lambda>r. rg_name r = h) regions) of
         None \<Rightarrow> ([Region_not_configured], None)
       | Some r \<Rightarrow> if rg_maxRunning r * 2 < regionRunningVcpu c (rg_name r) + vcpu then ([Region_capacity], None) else ([], Some (rg_name r))))"

definition BYTES_PER_GB :: int where "BYTES_PER_GB = 1000000000"

definition not_caller :: "string \<Rightarrow> AdmissionCounters \<Rightarrow> bool" where
  "not_caller userId c \<longleftrightarrow> (case ac_targetPlacementOwnerId c of None \<Rightarrow> False | Some o' \<Rightarrow> toLowerCase o' \<noteq> toLowerCase userId) \<or>
     (case ac_targetOwnerId c of None \<Rightarrow> True | Some o' \<Rightarrow> toLowerCase o' \<noteq> toLowerCase userId) \<or> 0 < ac_targetForeignUsage c"

definition refuse_if :: "bool \<Rightarrow> AdmissionRefusal \<Rightarrow> AdmissionRefusal list" where
  "refuse_if b r = (if b then [r] else [])"

text \<open>Every refusal, in their order of priority.\<close>

definition decideAdmission :: "AwsAdmissionConfig \<Rightarrow> AdmissionCounters \<Rightarrow> string \<Rightarrow> RegionPlan option \<Rightarrow> string option \<Rightarrow> AdmissionDecision" where
  "decideAdmission config c userId plan instanceType = (case config of
     Aws_off reason \<Rightarrow> Refused_for [reason]
   | Aws_on killSwitch caps regions \<Rightarrow>
       (let vcpu = instanceVcpu instanceType; mine = usageFor (ac_usage c) userId; all_users = mu_global (ac_usage c);
            region = region_refusals regions c vcpu plan;
            reasons = refuse_if (not_caller userId c) Computer_not_owned @
              refuse_if (ac_targetDeleted c) Computer_deleted @
              refuse_if killSwitch Kill_switch @
              refuse_if (ac_duplicates c \<noteq> []) Duplicated_placement @
              refuse_if (cap_maxRunning caps * 2 < or_else (ac_runningVcpu c) (ac_runningCount c * 8) + vcpu) Max_running @
              refuse_if (1 \<le> ac_userOtherAwsComputers c) User_has_aws_computer @
              refuse_if (cap_userMonthlyHours caps * 3600 \<le> ut_weightedSeconds mine) User_hours_cap @
              refuse_if (cap_globalMonthlyHours caps * 3600 \<le> ut_weightedSeconds all_users) Global_hours_cap @
              refuse_if (cap_userMonthlyEgressGb caps * BYTES_PER_GB \<le> ut_egressBytes mine) User_egress_cap @
              refuse_if (cap_globalMonthlyEgressGb caps * BYTES_PER_GB \<le> ut_egressBytes all_users) Global_egress_cap @
              fst region in
        if reasons \<noteq> [] then Refused_for reasons else Admitted_to (snd region)))"

definition releaseOwnSlot :: "Placement \<Rightarrow> AdmissionCounters \<Rightarrow> AdmissionCounters" where
  "releaseOwnSlot p c = (case bt_region (pl_boot p) of None \<Rightarrow> c
   | Some region \<Rightarrow> if region = [] then c else
       (let vcpu = instanceVcpu (bt_instanceType (pl_boot p)); byVcpu = (case ac_runningVcpuByRegion c of None \<Rightarrow> [] | Some m \<Rightarrow> m);
            byCount = (case ac_runningByRegion c of None \<Rightarrow> [] | Some m \<Rightarrow> m) in
        c\<lparr>ac_runningCount := max 0 (ac_runningCount c - 1), ac_runningVcpu := map_option (\<lambda>n. max 0 (n - vcpu)) (ac_runningVcpu c),
          ac_runningVcpuByRegion := Some (map_set region (max 0 (figure_at region byVcpu - vcpu)) byVcpu),
          ac_runningByRegion := Some (map_set region (max 0 (figure_at region byCount - 1)) byCount)\<rparr>))"

subsection \<open>Running an admission\<close>

record lease_request =
  lr_userId :: string
  lr_computerId :: string
  lr_generation :: int
  lr_leaseEpoch :: int
  lr_leaseUntil :: int
  lr_replace :: bool
  lr_resizeTo :: "AwsTier option"
  lr_fields :: placement_fields

record create_request =
  cq_userId :: string
  cq_computerId :: string
  cq_tier :: AwsTier
  cq_fields :: placement_fields
  cq_fieldsFor :: "(string \<Rightarrow> placement_fields) option"

datatype AdmissionRequest = Lease_request lease_request | Create_request create_request

datatype outcome_reason = Not_admitted AdmissionRefusal | Lost_race | Exists_already | Capacity_waiting
datatype AdmissionOutcome = Admitted Placement | Unadmitted outcome_reason "AdmissionRefusal list"

definition refused :: "AdmissionRefusal list \<Rightarrow> AdmissionOutcome" where
  "refused rs = Unadmitted (Not_admitted (hd rs)) rs"

text \<open>\<^verbatim>\<open>{ ...a, ...b }\<close>\<close>

definition over :: "'a option \<Rightarrow> 'a option \<Rightarrow> 'a option" where
  "over a b = (case b of None \<Rightarrow> a | Some v \<Rightarrow> Some v)"

definition merge_fields :: "placement_fields \<Rightarrow> placement_fields \<Rightarrow> placement_fields" where
  "merge_fields a b = \<lparr>fd_region = over (fd_region a) (fd_region b), fd_zoneId = over (fd_zoneId a) (fd_zoneId b),
     fd_instanceId = over (fd_instanceId a) (fd_instanceId b), fd_instanceType = over (fd_instanceType a) (fd_instanceType b),
     fd_volumeId = over (fd_volumeId a) (fd_volumeId b), fd_fsUuid = over (fd_fsUuid a) (fd_fsUuid b),
     fd_tunnelId = over (fd_tunnelId a) (fd_tunnelId b), fd_enrollNonceHash = over (fd_enrollNonceHash a) (fd_enrollNonceHash b),
     fd_enrollExpiresAt = over (fd_enrollExpiresAt a) (fd_enrollExpiresAt b),
     fd_enrollConsumedHash = over (fd_enrollConsumedHash a) (fd_enrollConsumedHash b),
     fd_leaseUntil = over (fd_leaseUntil a) (fd_leaseUntil b), fd_presenceAt = over (fd_presenceAt a) (fd_presenceAt b),
     fd_fenceToken = over (fd_fenceToken a) (fd_fenceToken b), fd_lifecycleJobId = over (fd_lifecycleJobId a) (fd_lifecycleJobId b),
     fd_lifecycleDigest = over (fd_lifecycleDigest a) (fd_lifecycleDigest b), fd_lastError = over (fd_lastError a) (fd_lastError b)\<rparr>"

definition admit_create :: "AwsAdmissionConfig \<Rightarrow> int \<Rightarrow> create_request \<Rightarrow> AdmissionOutcome compute_op" where
  "admit_create config now q = sbind (readAdmissionCounters (cq_userId q) (cq_computerId q) now) (\<lambda>counters.
     let instanceType = instanceTypeForTier (cq_tier q) in
     case decideAdmission config counters (cq_userId q) (Some Plan_create) (Some instanceType) of
       Refused_for rs \<Rightarrow> sreturn (refused rs)
     | Admitted_to region \<Rightarrow>
         sbind (mintAdmissionTicket (cq_computerId q) (cq_userId q) For_create) (\<lambda>ticket.
         let own = (case cq_fieldsFor q of None \<Rightarrow> cq_fields q | Some f \<Rightarrow> merge_fields (cq_fields q) (f (the region))) in
         sbind (createAwsPlacement ticket (cq_computerId q) (cq_userId q)
           (own\<lparr>fd_region := Some (Some (the region)), fd_instanceType := Some (Some instanceType)\<rparr>)) (\<lambda>result.
           case result of Created p \<Rightarrow> sreturn (Admitted p) | Placement_exists \<Rightarrow> sreturn (Unadmitted Exists_already []))))"

text \<open>A replaced slot is counted with its new type only.\<close>

definition reuses_slot :: "lease_request \<Rightarrow> Placement \<Rightarrow> bool" where
  "reuses_slot q p \<longleftrightarrow> (lr_replace q \<or> lr_resizeTo q \<noteq> None) \<and> pl_provider p = Aws_ec2 \<and>
     (pl_state p = UNCONFIRMED \<and> bt_lastError (pl_boot p) = Some ENROLLMENT_FAILED \<or> pl_state p = RUNNING \<and> lr_resizeTo q \<noteq> None) \<and>
     truthy (bt_region (pl_boot p)) \<and> pl_generation p = lr_generation q \<and> pl_leaseEpoch p = lr_leaseEpoch q"

definition admit_lease :: "AwsAdmissionConfig \<Rightarrow> int \<Rightarrow> lease_request \<Rightarrow> AdmissionOutcome compute_op" where
  "admit_lease config now q = sbind (readAdmissionCounters (lr_userId q) (lr_computerId q) now) (\<lambda>counters.
     sbind (readPlacement (lr_computerId q) None) (\<lambda>found. let placement = rp_record found in
     if (case placement of None \<Rightarrow> False | Some p \<Rightarrow> pl_generation p \<noteq> lr_generation q \<or> pl_leaseEpoch p \<noteq> lr_leaseEpoch q)
     then sreturn (Unadmitted Lost_race [])
     else (let replace = (lr_replace q \<or> lr_resizeTo q \<noteq> None);
               region = (case placement of None \<Rightarrow> None | Some p \<Rightarrow> bt_region (pl_boot p));
               counted = (case placement of None \<Rightarrow> counters | Some p \<Rightarrow> if reuses_slot q p then releaseOwnSlot p counters else counters);
               instanceType = (case lr_resizeTo q of Some t \<Rightarrow> Some (instanceTypeForTier t)
                 | None \<Rightarrow> (case placement of None \<Rightarrow> None | Some p \<Rightarrow> bt_instanceType (pl_boot p))) in
       case decideAdmission config counted (lr_userId q) (Some (Plan_lease region)) instanceType of
         Refused_for rs \<Rightarrow> sreturn (refused rs)
       | Admitted_to _ \<Rightarrow>
           sbind (mintAdmissionTicket (lr_computerId q) (lr_userId q) For_lease) (\<lambda>ticket.
           sbind (leasePlacement ticket (lr_computerId q) (lr_userId q) (lr_generation q) (lr_leaseEpoch q) (lr_leaseUntil q) replace
             (map_option instanceTypeForTier (lr_resizeTo q)) (lr_fields q)) (\<lambda>result.
             case result of Moved p \<Rightarrow> sreturn (Admitted p) | _ \<Rightarrow> sreturn (Unadmitted Lost_race []))))))"

definition runAdmission :: "env \<Rightarrow> int \<Rightarrow> AdmissionRequest \<Rightarrow> AdmissionOutcome compute_op" where
  "runAdmission e now request = (let config = readAwsAdmissionConfig e in
     case config of Aws_off reason \<Rightarrow> sreturn (refused [reason])
     | Aws_on _ _ _ \<Rightarrow> (case request of
         Create_request q \<Rightarrow> withAdmission (admit_create config now q)
       | Lease_request q \<Rightarrow>
           if lr_resizeTo q = Some Tier_free then sreturn (refused [Aws_tier_invalid])
           else withAdmission (admit_lease config now q)))"

definition precheckAdmission :: "env \<Rightarrow> int \<Rightarrow> string \<Rightarrow> string \<Rightarrow> AwsTier \<Rightarrow> AdmissionDecision compute_op" where
  "precheckAdmission e now userId computerId tier = (let config = readAwsAdmissionConfig e in
     case config of Aws_off reason \<Rightarrow> sreturn (Refused_for [reason])
     | Aws_on _ _ _ \<Rightarrow> sbind (peekAdmissionCounters userId computerId now) (\<lambda>c.
         sreturn (decideAdmission config c userId (Some Plan_create) (Some (instanceTypeForTier tier)))))"

definition admissionDryRun :: "env \<Rightarrow> int \<Rightarrow> string \<Rightarrow> Placement \<Rightarrow> string \<Rightarrow> AdmissionDecision compute_op" where
  "admissionDryRun e now userId p instanceType = (let config = readAwsAdmissionConfig e in
     case config of Aws_off reason \<Rightarrow> sreturn (Refused_for [reason])
     | Aws_on _ _ _ \<Rightarrow> sbind (peekAdmissionCounters userId (pl_computerId p) now) (\<lambda>c.
         let counted = (if pl_provider p = Aws_ec2 \<and> pl_state p \<in> set RUNNING_CLASS_STATES then releaseOwnSlot p c else c) in
         sreturn (decideAdmission config counted userId (Some (Plan_lease (bt_region (pl_boot p)))) (Some instanceType))))"

text \<open>The pool reserves a host before the admission's transaction commits; what it asks of the pool are its arguments.\<close>

definition reservePoolHostForBoot :: "AdmissionOutcome compute_op \<Rightarrow> (Placement \<Rightarrow> placement_fields option compute_op)
    \<Rightarrow> (Placement \<Rightarrow> unit compute_op) option \<Rightarrow> (Placement \<Rightarrow> unit compute_op) option \<Rightarrow> AdmissionOutcome compute_op" where
  "reservePoolHostForBoot admit fieldsFor validate beforeLease = withAdmission (sbind admit (\<lambda>result. case result of
       Unadmitted _ _ \<Rightarrow> sreturn result
     | Admitted p \<Rightarrow>
         sbind (case beforeLease of None \<Rightarrow> sreturn () | Some m \<Rightarrow> m p) (\<lambda>_.
         sbind (fieldsFor p) (\<lambda>flds. case flds of
           None \<Rightarrow> sbind (case validate of None \<Rightarrow> sreturn () | Some m \<Rightarrow> m p) (\<lambda>_. sreturn result)
         | Some f \<Rightarrow>
             sbind (casInTx (pl_computerId p) (expect p) (pl_state p) no_bump f
               (no_guard\<lparr>gd_ownerUserId := Some (pl_ownerUserId p), gd_provider := Some Aws_ec2,
                  gd_lifecycleJobId := bt_lifecycleJobId (pl_boot p), gd_lifecycleDigest := bt_lifecycleDigest (pl_boot p)\<rparr>) None False) (\<lambda>bound.
             case bound of
               Moved q \<Rightarrow> sbind (case validate of None \<Rightarrow> sreturn () | Some m \<Rightarrow> m q) (\<lambda>_. sreturn (Admitted q))
             | _ \<Rightarrow> sthrow (Refused ''pool_reservation_conflict''))))))"

end
