(* ===== verification/Placement_Inv.thy ===== *)
theory Placement_Inv
  imports Admission
begin

text \<open>
  What the placements promise. The life of a computer's placement is the abstract state machine of
  \<open>life_step\<close>: it is born with its provider's first epoch, moves along the legal edges, is leased with the next epoch,
  and leaves only from the states that own nothing. Every operation of \<^verbatim>\<open>placement.ts\<close> modelled here refines it
  and keeps the invariant: one well-formed row per computer, and no open usage for a computer that cannot run.
\<close>

subsection \<open>Well-formed rows\<close>

lemma lower_char_idem [simp]: "lower_char (lower_char c) = lower_char c"
proof (cases "CHR ''A'' \<le> c \<and> c \<le> CHR ''Z''")
  case True
  then have n: "65 \<le> (of_char c :: nat)" "of_char c \<le> (90 :: nat)" by (auto simp: less_eq_char_def)
  then have "of_char (char_of (of_char c + 32 :: nat) :: char) = (of_char c + 32 :: nat)" by simp
  with n have "\<not> char_of (of_char c + 32 :: nat) \<le> CHR ''Z''" by (simp add: less_eq_char_def)
  with True show ?thesis by (simp add: lower_char_def)
qed (auto simp: lower_char_def)

lemma toLowerCase_idem [simp]: "toLowerCase (toLowerCase s) = toLowerCase s"
  by (simp add: toLowerCase_def)

lemma of_computer_lower [simp]: "of_computer (toLowerCase c) r = of_computer c r"
  by (simp add: of_computer_def)

lemma one_of_Some: "one_of f xs v = Some x \<Longrightarrow> v = Some (f x) \<and> x \<in> set xs"
  by (auto simp: one_of_def find_Some_iff split: option.splits)

lemma one_of_text: "inj f \<Longrightarrow> x \<in> set xs \<Longrightarrow> one_of f xs (Some (f x)) = Some x"
proof -
  assume f: "inj f" and x: "x \<in> set xs"
  then obtain y where y: "find (\<lambda>y. f y = f x) xs = Some y" by (cases "find (\<lambda>y. f y = f x) xs") (auto simp: find_None_iff)
  then have "f y = f x" by (auto simp: find_Some_iff)
  with f y show ?thesis by (simp add: one_of_def inj_eq)
qed

lemma text_inj [simp]: "inj provider_text" "inj workspace_store_text" "inj placement_state_text"
proof -
  have "a = b" if "provider_text a = provider_text b" for a b using that by (cases a; cases b) auto
  then show "inj provider_text" by (rule injI)
  have "a = b" if "workspace_store_text a = workspace_store_text b" for a b using that by (cases a; cases b) auto
  then show "inj workspace_store_text" by (rule injI)
  have "a = b" if "placement_state_text a = placement_state_text b" for a b using that by (cases a; cases b) auto
  then show "inj placement_state_text" by (rule injI)
qed

lemma text_eq [simp]:
  "provider_text a = provider_text b \<longleftrightarrow> a = b" "workspace_store_text u = workspace_store_text v \<longleftrightarrow> u = v"
  "placement_state_text x = placement_state_text y \<longleftrightarrow> x = y"
  by (simp_all add: inj_eq)

lemma in_providers [simp]: "p \<in> set PLACEMENT_PROVIDERS"
  by (cases p) (simp_all add: PLACEMENT_PROVIDERS_def)

lemma in_stores [simp]: "w \<in> set WORKSPACE_STORES"
  by (cases w) (simp_all add: WORKSPACE_STORES_def)

lemma in_states [simp]: "st \<in> set PLACEMENT_STATES"
  by (cases st) (simp_all add: PLACEMENT_STATES_def)

text \<open>The row that stores a placement; what a successful parse says of the row.\<close>

definition stores :: "placement_row \<Rightarrow> Placement \<Rightarrow> bool" where
  "stores r p \<longleftrightarrow> rw_provider r = Some (provider_text (pl_provider p)) \<and> rw_store r = Some (workspace_store_text (pl_store p)) \<and>
     pl_store p \<in> set (STORES_FOR_PROVIDER (pl_provider p)) \<and> in_state (pl_state p) r \<and>
     rw_generation r = pl_generation p \<and> 0 \<le> pl_generation p \<and> is_safe_integer (pl_generation p) \<and>
     rw_leaseEpoch r = pl_leaseEpoch p \<and> 0 \<le> pl_leaseEpoch p \<and> is_safe_integer (pl_leaseEpoch p) \<and>
     pl_computerId p = rw_computerId r \<and> pl_ownerUserId p = toLowerCase (rw_ownerUserId r) \<and> is_uuid (pl_ownerUserId p) \<and>
     pl_boot p = rw_boot r \<and> pl_updatedAt p = rw_updatedAt r div 1000"

lemma parse_iff: "parsePlacementRow r c = Inr p \<longleftrightarrow> stores r p \<and> toLowerCase (rw_computerId r) = toLowerCase c"
proof
  assume "parsePlacementRow r c = Inr p"
  then show "stores r p \<and> toLowerCase (rw_computerId r) = toLowerCase c"
    by (auto simp: parsePlacementRow_def or_fail_def placement_counter_def stores_def in_state_def
        dest!: one_of_Some split: option.splits if_splits)
next
  assume "stores r p \<and> toLowerCase (rw_computerId r) = toLowerCase c"
  then show "parsePlacementRow r c = Inr p"
    by (auto simp: parsePlacementRow_def or_fail_def placement_counter_def stores_def in_state_def one_of_text)
qed

lemma parse_error: "parsePlacementRow r c = Inl e \<Longrightarrow> \<exists>why. e = Placement_integrity why"
  by (auto simp: parsePlacementRow_def or_fail_def rbind_eq_Inl split: option.splits if_splits)

subsection \<open>The life of a placement\<close>

record placement_life =
  lf_provider :: PlacementProvider
  lf_owner :: string
  lf_state :: PlacementState
  lf_epoch :: int

text \<open>
  The edges: the legal transitions, the reconciler's, and those of a pool open, which takes a stopped computer
  through \<^verbatim>\<open>STOPPING\<close> and burns a refused lease.
\<close>

definition POOL_EDGES :: "PlacementState \<Rightarrow> PlacementState list" where
  "POOL_EDGES st = (if st = STOPPED then [STOPPING] else if st \<in> {LEASED, STARTING, MOUNTING, STOPPING, UNCONFIRMED} then [STOPPED] else [])"

definition placement_edge :: "PlacementState \<Rightarrow> PlacementState \<Rightarrow> bool" where
  "placement_edge a b \<longleftrightarrow> b \<in> set (PLACEMENT_TRANSITIONS a) \<or> b \<in> set (RECONCILER_TRANSITIONS a) \<or> b \<in> set (POOL_EDGES a)"

inductive life_step :: "(string \<Rightarrow> placement_life option) \<Rightarrow> (string \<Rightarrow> placement_life option) \<Rightarrow> bool" where
  born: "m c = None \<Longrightarrow> life_step m (m(c \<mapsto> \<lparr>lf_provider = provider, lf_owner = u, lf_state = st, lf_epoch = INITIAL_LEASE_EPOCH provider\<rparr>))"
| moved: "m c = Some l \<Longrightarrow> placement_edge (lf_state l) st \<Longrightarrow> life_step m (m(c \<mapsto> l\<lparr>lf_state := st\<rparr>))"
| leased: "m c = Some l \<Longrightarrow> lf_provider l = Aws_ec2 \<Longrightarrow> lf_state l \<in> {STOPPED, RUNNING, UNCONFIRMED} \<Longrightarrow>
    life_step m (m(c \<mapsto> l\<lparr>lf_state := LEASED, lf_epoch := lf_epoch l + 1\<rparr>))"
| gone: "m c = Some l \<Longrightarrow> lf_state l = RETIRED \<or> lf_provider l = Cloudflare \<and> lf_state l = STOPPED \<or>
      lf_provider l = Aws_ec2 \<and> lf_state l = PROVISIONING \<Longrightarrow> life_step m (m(c := None))"

inductive_cases life_stepE: "life_step m m'"

lemma edge_not_provisioning: "placement_edge a b \<Longrightarrow> b \<noteq> PROVISIONING"
  by (cases a) (auto simp: placement_edge_def POOL_EDGES_def)

definition life_of :: "placement_row \<Rightarrow> placement_life" where
  "life_of r = \<lparr>lf_provider = the (one_of provider_text PLACEMENT_PROVIDERS (rw_provider r)), lf_owner = rw_ownerUserId r,
     lf_state = the (one_of placement_state_text PLACEMENT_STATES (rw_state r)), lf_epoch = rw_leaseEpoch r\<rparr>"

definition lives :: "placement_row list \<Rightarrow> string \<Rightarrow> placement_life option" where
  "lives rows = map_of (map (\<lambda>r. (rw_computerId r, life_of r)) rows)"

definition life :: "compute_db \<Rightarrow> string \<Rightarrow> placement_life option" where
  "life s = lives (db_placements s)"

lemma life_of_stores: "stores r p \<Longrightarrow> life_of r = \<lparr>lf_provider = pl_provider p, lf_owner = rw_ownerUserId r, lf_state = pl_state p, lf_epoch = pl_leaseEpoch p\<rparr>"
  by (simp add: life_of_def stores_def in_state_def one_of_text)

subsection \<open>The invariant\<close>

definition well_placed :: "placement_row \<Rightarrow> bool" where
  "well_placed r \<longleftrightarrow> (\<exists>p. stores r p) \<and> toLowerCase (rw_computerId r) = rw_computerId r \<and> toLowerCase (rw_ownerUserId r) = rw_ownerUserId r"

definition same_computer :: "placement_row \<Rightarrow> placement_row \<Rightarrow> bool" where
  "same_computer a b \<longleftrightarrow> rw_computerId a = rw_computerId b"

definition one_open :: "compute_usage \<Rightarrow> compute_usage \<Rightarrow> bool" where
  "one_open u v \<longleftrightarrow> cu_stoppedAt u = None \<and> cu_stoppedAt v = None \<and> cu_computerId u = cu_computerId v"

interpretation placements: unique_rule same_computer
  by unfold_locales (simp add: same_computer_def)

interpretation open_usages: unique_rule one_open
  by unfold_locales (auto simp: one_open_def)

text \<open>A computer that may run: every state but the settled ones and the first boot.\<close>

definition idle_states :: "PlacementState set" where
  "idle_states = {STOPPED, RETIRED, PURGE_ELIGIBLE, PROVISIONING}"

definition busy :: "placement_row \<Rightarrow> bool" where
  "busy r \<longleftrightarrow> (\<forall>st \<in> idle_states. \<not> in_state st r)"

definition usage_ok :: "placement_row list \<Rightarrow> compute_usage list \<Rightarrow> bool" where
  "usage_ok rows us \<longleftrightarrow> uniq one_open us \<and>
     (\<forall>u \<in> set us. cu_stoppedAt u = None \<longrightarrow> (\<exists>r \<in> set rows. rw_computerId r = cu_computerId u \<and> busy r))"

definition placement_inv :: "compute_db \<Rightarrow> bool" where
  "placement_inv s \<longleftrightarrow> uniq same_computer (db_placements s) \<and> (\<forall>r \<in> set (db_placements s). well_placed r) \<and>
     usage_ok (db_placements s) (db_usage s)"

lemma busy_stores: "stores r p \<Longrightarrow> busy r \<longleftrightarrow> pl_state p \<notin> idle_states"
  by (auto simp: busy_def stores_def in_state_def)

lemma keys_distinct: "uniq same_computer rows \<longleftrightarrow> distinct (map rw_computerId rows)"
  by (induction rows) (auto simp: uniq_def same_computer_def)

lemma only_row:
  assumes "uniq same_computer rows" and "r \<in> set rows" and "P r" and "\<And>x. P x \<Longrightarrow> rw_computerId x = rw_computerId r"
  shows "filter P rows = [r]"
proof -
  have d: "distinct rows" using assms(1) by (simp add: keys_distinct distinct_map)
  have "x = r" if "x \<in> set rows" "P x" for x
    using placements.uniq_at_most_one [OF assms(1) that(1) assms(2)] assms(4) [OF that(2)] by (simp add: same_computer_def)
  with assms(2,3) have e: "set (filter P rows) = {r}" unfolding set_filter by blast
  have d': "distinct (filter P rows)" using d by simp
  from e obtain a xs where f: "filter P rows = a # xs" by (cases "filter P rows") auto
  with e d' have a: "a = r" "set xs \<subseteq> {r}" "r \<notin> set xs" by auto
  then have "xs = []" by (cases xs) auto
  with f a show ?thesis by simp
qed

lemma filter_only: "filter P rows = [r] \<Longrightarrow> r \<in> set rows \<and> P r \<and> (\<forall>x \<in> set rows. P x \<longrightarrow> x = r)"
proof -
  assume "filter P rows = [r]"
  then have "set (filter P rows) = {r}" by simp
  then show ?thesis by auto
qed

text \<open>Writing one row, adding one and removing one, in the abstract.\<close>

lemma lives_simps [simp]: "lives [] = Map.empty" "lives (r # rows) = (lives rows)(rw_computerId r \<mapsto> life_of r)"
  by (simp_all add: lives_def)

lemma lives_none: "c \<notin> rw_computerId ` set rows \<Longrightarrow> lives rows c = None"
  by (induction rows) auto

lemma lives_at: "uniq same_computer rows \<Longrightarrow> r \<in> set rows \<Longrightarrow> lives rows (rw_computerId r) = Some (life_of r)"
  unfolding lives_def by (rule map_of_is_SomeI) (auto simp: keys_distinct comp_def)

lemma uniq_Cons: "uniq same_computer (x # rows) \<longleftrightarrow> rw_computerId x \<notin> rw_computerId ` set rows \<and> uniq same_computer rows"
  by (auto simp: keys_distinct)

lemma life_write:
  assumes "filter P rows = [r]" and "rw_computerId (f r) = rw_computerId r" and "uniq same_computer rows"
  shows "lives (update_where P f rows) = (lives rows)(rw_computerId r \<mapsto> life_of (f r))"
  using assms
proof (induction rows)
  case (Cons x rows)
  note n = Cons.prems(3) [unfolded uniq_Cons]
  show ?case
  proof (cases "P x")
    case True
    then have e: "x = r" "filter P rows = []" using Cons.prems(1) by simp_all
    then have "update_where P f rows = rows" by (intro update_where_none) (simp add: filter_empty_conv)
    then have "update_where P f (x # rows) = f x # rows" using True by (simp add: update_where_def)
    with e Cons.prems(2) show ?thesis by (simp add: fun_eq_iff)
  next
    case False
    then have r: "filter P rows = [r]" using Cons.prems(1) by simp
    with n have "rw_computerId x \<noteq> rw_computerId r" using filter_only [OF r] by blast
    moreover have "update_where P f (x # rows) = x # update_where P f rows" using False by (simp add: update_where_def)
    ultimately show ?thesis using Cons.IH [OF r Cons.prems(2)] n by (auto simp: fun_eq_iff)
  qed
qed simp

lemma life_add: "rw_computerId r \<notin> rw_computerId ` set rows \<Longrightarrow> lives (rows @ [r]) = (lives rows)(rw_computerId r \<mapsto> life_of r)"
proof (induction rows)
  case (Cons x rows)
  then have "rw_computerId x \<noteq> rw_computerId r" by auto
  with Cons show ?case by (auto simp: fun_eq_iff)
qed simp

lemma life_remove:
  assumes "filter P rows = [r]" and "uniq same_computer rows"
  shows "lives (filter (\<lambda>r. \<not> P r) rows) = (lives rows)(rw_computerId r := None)"
  using assms
proof (induction rows)
  case (Cons x rows)
  note n = Cons.prems(2) [unfolded uniq_Cons]
  show ?case
  proof (cases "P x")
    case True
    then have e: "x = r" "filter P rows = []" using Cons.prems(1) by simp_all
    then have k: "filter (\<lambda>r. \<not> P r) rows = rows" by (simp add: filter_empty_conv)
    have "lives rows (rw_computerId r) = None" using lives_none [of "rw_computerId r" rows] n e by simp
    with True e k show ?thesis by (simp add: fun_eq_iff)
  next
    case False
    then have r: "filter P rows = [r]" using Cons.prems(1) by simp
    with n have "rw_computerId x \<noteq> rw_computerId r" using filter_only [OF r] by blast
    with Cons.IH [OF r] n False show ?thesis by (auto simp: fun_eq_iff)
  qed
qed simp

text \<open>What every operation does.\<close>

definition placement_moves :: "compute_db \<Rightarrow> compute_db \<Rightarrow> bool" where
  "placement_moves s t \<longleftrightarrow> (placement_inv s \<longrightarrow> placement_inv t \<and> life_step\<^sup>*\<^sup>* (life s) (life t))"

interpretation plc: transition_preorder placement_moves
proof
  show "placement_moves a c" if "placement_moves a b" "placement_moves b c" for a b c
    using that unfolding placement_moves_def by (meson rtranclp_trans)
qed (simp add: placement_moves_def)

lemma moves_untouched: "db_placements t = db_placements s \<Longrightarrow> db_usage t = db_usage s \<Longrightarrow> placement_moves s t"
  by (simp add: placement_moves_def placement_inv_def life_def)

subsection \<open>Usage\<close>

definition others_kept :: "string \<Rightarrow> placement_row list \<Rightarrow> placement_row list \<Rightarrow> bool" where
  "others_kept c rows rows' \<longleftrightarrow> (\<forall>r \<in> set rows. rw_computerId r \<noteq> c \<longrightarrow> r \<in> set rows')"

definition open_for :: "string \<Rightarrow> compute_usage list \<Rightarrow> bool" where
  "open_for c us \<longleftrightarrow> (\<exists>u \<in> set us. open_usage c u)"

lemma usage_closed_simps [simp]:
  "cu_stoppedAt (usage_closed s at o' u) = Some at" "cu_computerId (usage_closed s at o' u) = cu_computerId u"
  by (simp_all add: usage_closed_def)

lemma uniq_close: "uniq one_open us \<Longrightarrow> uniq one_open (update_where P (usage_closed s at o') us)"
  by (rule open_usages.uniq_map_update) (auto simp: one_open_def)

lemma still_open:
  assumes "u \<in> set (update_where P (usage_closed s at o') us)" and "cu_stoppedAt u = None"
  shows "u \<in> set us \<and> \<not> P u"
proof -
  from assms(1) obtain x where x: "x \<in> set us" "u = (if P x then usage_closed s at o' x else x)" unfolding mem_update_where by blast
  with assms(2) have "\<not> P x" by (cases "P x") simp_all
  with x show ?thesis by simp
qed

lemma usage_moved:
  assumes "usage_ok rows us" and "others_kept c rows rows'"
    and "open_for c us \<Longrightarrow> \<exists>r \<in> set rows'. rw_computerId r = c \<and> busy r"
  shows "usage_ok rows' us"
  unfolding usage_ok_def
proof (intro conjI ballI impI)
  show "uniq one_open us" using assms(1) by (simp add: usage_ok_def)
  fix u assume u: "u \<in> set us" "cu_stoppedAt u = None"
  show "\<exists>r \<in> set rows'. rw_computerId r = cu_computerId u \<and> busy r"
  proof (cases "cu_computerId u = c")
    case True
    with u assms(3) show ?thesis by (auto simp: open_for_def open_usage_def)
  next
    case False
    with u assms(1,2) show ?thesis unfolding usage_ok_def others_kept_def by metis
  qed
qed

lemma usage_close:
  assumes "usage_ok rows us" and "others_kept c rows rows'"
  shows "usage_ok rows' (update_where (open_usage c) (usage_closed s at o') us)"
proof (rule usage_moved)
  let ?us = "update_where (open_usage c) (usage_closed s at o') us"
  show "usage_ok rows ?us"
    unfolding usage_ok_def
  proof (intro conjI ballI impI)
    show "uniq one_open ?us" using assms(1) by (simp add: usage_ok_def uniq_close)
    fix u assume "u \<in> set ?us" "cu_stoppedAt u = None"
    then have "u \<in> set us" using still_open by blast
    with \<open>cu_stoppedAt u = None\<close> show "\<exists>r \<in> set rows. rw_computerId r = cu_computerId u \<and> busy r" using assms(1) by (simp add: usage_ok_def)
  qed
  have "\<not> open_for c ?us"
  proof
    assume "open_for c ?us"
    then obtain u where u: "u \<in> set ?us" "open_usage c u" unfolding open_for_def by blast
    with still_open [OF u(1)] show False by (simp add: open_usage_def)
  qed
  then show "open_for c ?us \<Longrightarrow> \<exists>r \<in> set rows'. rw_computerId r = c \<and> busy r" by blast
qed (fact assms(2))

lemma usage_opened:
  assumes ok: "usage_ok rows us" and "others_kept c rows rows'" and busy: "\<exists>r \<in> set rows'. rw_computerId r = c \<and> busy r"
    and v: "cu_computerId v = c" "cu_instanceId v = i" "cu_stoppedAt v = None"
  shows "usage_ok rows' (snd (insert_ignore (\<lambda>u v. open_usage (cu_computerId v) u \<and> cu_instanceId u = cu_instanceId v) v
     (update_where (\<lambda>u. open_usage c u \<and> cu_instanceId u \<noteq> i) (usage_closed s at o') us)))"
proof -
  let ?us = "update_where (\<lambda>u. open_usage c u \<and> cu_instanceId u \<noteq> i) (usage_closed s at o') us"
  have old: "u \<in> set us" if "u \<in> set ?us" "cu_stoppedAt u = None" for u using still_open [OF that] by blast
  have "usage_ok rows ?us"
    unfolding usage_ok_def
  proof (intro conjI ballI impI)
    show "uniq one_open ?us" using ok by (simp add: usage_ok_def uniq_close)
    fix u assume "u \<in> set ?us" "cu_stoppedAt u = None"
    then show "\<exists>r \<in> set rows. rw_computerId r = cu_computerId u \<and> busy r" using old ok by (simp add: usage_ok_def)
  qed
  then have k: "usage_ok rows' ?us" by (rule usage_moved) (use assms(2) busy in auto)
  show ?thesis
  proof (cases "\<exists>x \<in> set ?us. open_usage c x \<and> cu_instanceId x = i")
    case True
    with k v show ?thesis by (simp add: insert_ignore_def)
  next
    case False
    have "\<not> one_open x v" if x: "x \<in> set ?us" for x
    proof
      assume "one_open x v"
      with v have o: "open_usage c x" by (simp add: one_open_def open_usage_def)
      with x False have "cu_instanceId x \<noteq> i" by blast
      with o still_open [OF x] show False by (simp add: open_usage_def)
    qed
    then have "uniq one_open (?us @ [v])" using k by (simp add: usage_ok_def uniq_append)
    with k False v busy show ?thesis by (auto simp: insert_ignore_def usage_ok_def)
  qed
qed

text \<open>The usage effect of a write of the row \<open>r'\<close>, read as \<open>p\<close>.\<close>

lemma usage_effect_shape:
  "\<exists>us. applyTransitionUsageInTx p effect s = (Inr (), s\<lparr>db_usage := us\<rparr>)"
  by (cases effect; cases "the effect") (auto simp: applyTransitionUsageInTx_def Let_def intro: exI [of _ "db_usage s"])

lemma usage_effect_ok:
  assumes ok: "usage_ok rows (db_usage s)" and k: "others_kept c rows rows'" and p: "toLowerCase (pl_computerId p) = c"
    and r': "r' \<in> set rows'" "rw_computerId r' = c" "busy r' \<longleftrightarrow> pl_state p \<notin> idle_states"
    and same: "open_for c (db_usage s) \<Longrightarrow> \<not> settled (pl_state p) \<Longrightarrow> busy r'"
    and open_ok: "\<And>i t a o'. effect = Some (Usage_open i t a o') \<Longrightarrow> pl_state p \<noteq> PROVISIONING"
    and t: "applyTransitionUsageInTx p effect s = (res, t)"
  shows "usage_ok rows' (db_usage t)"
proof (cases "settled (pl_state p)")
  case True
  with t p k ok show ?thesis by (auto simp: applyTransitionUsageInTx_def Let_def intro: usage_close)
next
  case False
  show ?thesis
  proof (cases effect)
    case None
    with False t have "t = s" by (simp add: applyTransitionUsageInTx_def)
    with ok k show ?thesis using same False r' by (auto intro: usage_moved)
  next
    case (Some e)
    show ?thesis
    proof (cases e)
      case (Usage_close o' at)
      with Some False t p k ok show ?thesis by (auto simp: applyTransitionUsageInTx_def Let_def intro: usage_close)
    next
      case (Usage_open i ty a o')
      with False open_ok Some have "busy r'" using r'(3) by (auto simp: idle_states_def settled_def)
      with r' have b: "\<exists>r \<in> set rows'. rw_computerId r = c \<and> busy r" by blast
      from Some Usage_open False t p have "db_usage t = snd (insert_ignore (\<lambda>u v. open_usage (cu_computerId v) u \<and> cu_instanceId u = cu_instanceId v)
         \<lparr>cu_computerId = c, cu_userId = toLowerCase (pl_ownerUserId p), cu_instanceId = i, cu_instanceType = ty,
          cu_startedAt = (case a of None \<Rightarrow> db_now s | Some t \<Rightarrow> t * 1000), cu_stoppedAt = None, cu_egressBytes = None,
          cu_observedBy = o', cu_updatedAt = db_now s\<rparr>
        (update_where (\<lambda>u. open_usage c u \<and> cu_instanceId u \<noteq> i) (usage_closed s (db_now s) o') (db_usage s)))"
        by (auto simp: applyTransitionUsageInTx_def Let_def)
      then show ?thesis by (simp only:) (rule usage_opened [OF ok k b]; simp)
    qed
  qed
qed

subsection \<open>The operations\<close>

lemma cas_matches_lower [simp]: "cas_matches (toLowerCase c) = cas_matches c"
  by (simp add: cas_matches_def fun_eq_iff)

lemma casInTx_Inr:
  assumes "casInTx c e to_state b f g us False s = (Inr res, t)"
  shows "res = Cas_conflict \<and> t = s \<or>
    (\<exists>r p. filter (cas_matches c e g (db_now s)) (db_placements s) = [r] \<and> stores (cas_write s to_state b f g r) p \<and> res = Moved p \<and>
       applyTransitionUsageInTx p us (s\<lparr>db_placements := update_where (cas_matches c e g (db_now s)) (cas_write s to_state b f g) (db_placements s)\<rparr>)
         = (Inr (), t))"
proof -
  let ?w = "cas_write s to_state b f g" and ?P = "cas_matches c e g (db_now s)"
  let ?s = "s\<lparr>db_placements := update_where ?P ?w (db_placements s)\<rparr>"
  from assms have run: "(case map ?w (filter ?P (db_placements s)) of [] \<Rightarrow> sreturn Cas_conflict
      | [r] \<Rightarrow> sbind (slift (parsePlacementRow r (toLowerCase c))) (\<lambda>p. sbind (applyTransitionUsageInTx p us) (\<lambda>_. sreturn (Moved p)))
      | _ \<Rightarrow> sthrow (Placement_integrity Duplicate_placement)) ?s = (Inr res, t)"
    by (simp add: casInTx_def Let_def sbind_def selectRows_def assertNoImageReservation_def update_placements_def split: if_splits)
  show ?thesis
  proof (cases "filter ?P (db_placements s)")
    case Nil
    then have "update_where ?P ?w (db_placements s) = db_placements s" by (intro update_where_none) (simp add: filter_empty_conv)
    with run Nil show ?thesis by simp
  next
    case (Cons r rs)
    show ?thesis
    proof (cases rs)
      case Nil
      with run Cons have one: "sbind (slift (parsePlacementRow (?w r) (toLowerCase c))) (\<lambda>p. sbind (applyTransitionUsageInTx p us) (\<lambda>_. sreturn (Moved p))) ?s = (Inr res, t)"
        by simp
      then obtain p where p: "parsePlacementRow (?w r) (toLowerCase c) = Inr p"
        by (cases "parsePlacementRow (?w r) (toLowerCase c)") (simp_all add: sbind_def)
      obtain u where "applyTransitionUsageInTx p us ?s = (Inr (), ?s\<lparr>db_usage := u\<rparr>)" using usage_effect_shape by blast
      with one p have "res = Moved p" "applyTransitionUsageInTx p us ?s = (Inr (), t)" by (auto simp: sbind_def)
      with Cons Nil p parse_iff show ?thesis by blast
    next
      case (Cons r' rs')
      with run \<open>filter ?P (db_placements s) = r # rs\<close> show ?thesis by simp
    qed
  qed
qed

lemma cas_write_simps [simp]:
  "rw_computerId (cas_write s st b f g r) = rw_computerId r" "rw_ownerUserId (cas_write s st b f g r) = rw_ownerUserId r"
  "rw_provider (cas_write s st b f g r) = rw_provider r" "rw_store (cas_write s st b f g r) = rw_store r"
  "rw_leaseEpoch (cas_write s st b f g r) = rw_leaseEpoch r + bp_leaseEpoch b" "rw_imageJob (cas_write s st b f g r) = rw_imageJob r"
  "rw_state (cas_write s st b f g r) = (if gd_preserveState g then rw_state r else Some (placement_state_text st))"
  by (simp_all add: cas_write_def)

text \<open>The states a swap starts from, and the moves of the life that it may make.\<close>

definition starts_from :: "cas_expectation \<Rightarrow> cas_guard \<Rightarrow> PlacementState \<Rightarrow> bool" where
  "starts_from e g st \<longleftrightarrow> (case gd_states g of None \<Rightarrow> st = ex_state e | Some sts \<Rightarrow> st \<in> set sts)"

definition cas_lawful :: "cas_expectation \<Rightarrow> PlacementState \<Rightarrow> cas_bump \<Rightarrow> cas_guard \<Rightarrow> usage_effect option \<Rightarrow> bool" where
  "cas_lawful e to_state b g us \<longleftrightarrow>
     (bp_leaseEpoch b = 0 \<and> (gd_preserveState g \<or> (\<forall>st. starts_from e g st \<longrightarrow> to_state = st \<or> placement_edge st to_state)) \<or>
      bp_leaseEpoch b = 1 \<and> to_state = LEASED \<and> \<not> gd_preserveState g \<and> gd_provider g = Some Aws_ec2 \<and>
        (\<forall>st. starts_from e g st \<longrightarrow> st \<in> {STOPPED, RUNNING, UNCONFIRMED})) \<and>
     (us = None \<or> to_state \<noteq> PROVISIONING \<and> \<not> gd_preserveState g)"

lemma others_written: "filter P rows = [r] \<Longrightarrow> others_kept (rw_computerId r) rows (update_where P f rows)"
  using filter_only [of P rows r] unfolding others_kept_def update_where_def by fastforce

lemma uniq_written: "uniq same_computer rows \<Longrightarrow> (\<And>x. rw_computerId (f x) = rw_computerId x) \<Longrightarrow> uniq same_computer (update_where P f rows)"
  by (rule placements.uniq_map_update) (auto simp: same_computer_def)

lemma well_written:
  assumes "\<forall>x \<in> set rows. well_placed x" and one: "filter P rows = [r]" and "well_placed (f r)"
  shows "\<forall>x \<in> set (update_where P f rows). well_placed x"
proof
  fix x assume "x \<in> set (update_where P f rows)"
  then obtain y where y: "y \<in> set rows" "x = (if P y then f y else y)" unfolding mem_update_where by blast
  then show "well_placed x" using assms filter_only [OF one] by (cases "P y") auto
qed

lemma busy_row:
  assumes "placement_inv s" and "r \<in> set (db_placements s)" and "open_for (rw_computerId r) (db_usage s)"
  shows "busy r"
proof -
  from assms(3) obtain u where u: "u \<in> set (db_usage s)" "cu_computerId u = rw_computerId r" "cu_stoppedAt u = None"
    by (auto simp: open_for_def open_usage_def)
  with assms(1) obtain x where x: "x \<in> set (db_placements s)" "rw_computerId x = rw_computerId r" "busy x"
    by (fastforce simp: placement_inv_def usage_ok_def)
  with placements.uniq_at_most_one [OF _ x(1) assms(2)] assms(1) show ?thesis by (simp add: placement_inv_def same_computer_def)
qed

lemma cas_within:
  assumes lawful: "cas_lawful e to_state b g us"
  shows "plc.within (casInTx c e to_state b f g us False)"
proof (rule plc.withinI, unfold placement_moves_def, intro impI)
  fix s res t assume run: "casInTx c e to_state b f g us False s = (Inr res, t)" and inv: "placement_inv s"
  let ?P = "cas_matches c e g (db_now s)" and ?w = "cas_write s to_state b f g"
  from casInTx_Inr [OF run] show "placement_inv t \<and> life_step\<^sup>*\<^sup>* (life s) (life t)"
  proof (elim disjE exE conjE)
    assume "res = Cas_conflict" "t = s"
    with inv show ?thesis by simp
  next
    fix r p
    let ?s = "s\<lparr>db_placements := update_where ?P ?w (db_placements s)\<rparr>"
    assume one: "filter ?P (db_placements s) = [r]" and p: "stores (?w r) p" and eff: "applyTransitionUsageInTx p us ?s = (Inr (), t)"
    obtain u where "applyTransitionUsageInTx p us ?s = (Inr (), ?s\<lparr>db_usage := u\<rparr>)" using usage_effect_shape by blast
    with eff have t: "t = ?s\<lparr>db_usage := u\<rparr>" by simp
    have r: "r \<in> set (db_placements s)" "?P r" using filter_only [OF one] by blast+
    from inv have uq: "uniq same_computer (db_placements s)" by (simp add: placement_inv_def)
    from inv r obtain q where q: "stores r q" "toLowerCase (rw_computerId r) = rw_computerId r" "toLowerCase (rw_ownerUserId r) = rw_ownerUserId r"
      by (auto simp: placement_inv_def well_placed_def)
    have from_q: "starts_from e g (pl_state q)"
      using r(2) q(1) by (auto simp: cas_matches_def starts_from_def stores_def in_state_def split: option.splits)
    have state: "pl_state p = (if gd_preserveState g then pl_state q else to_state)"
      using p q(1) by (auto simp: stores_def in_state_def split: if_splits)
    have epoch: "pl_leaseEpoch p = pl_leaseEpoch q + bp_leaseEpoch b" using p q(1) by (simp add: stores_def)
    have prov: "pl_provider p = pl_provider q" using p q(1) by (simp add: stores_def)
    have wp: "well_placed (?w r)" using p q by (auto simp: well_placed_def)
    have kept: "others_kept (rw_computerId r) (db_placements s) (db_placements ?s)" using one by (simp add: others_written)
    have mem: "?w r \<in> set (db_placements ?s)" using r by (auto simp: mem_update_where)
    have "usage_ok (db_placements ?s) (db_usage t)"
    proof (rule usage_effect_ok [OF _ kept _ mem _ _ _ _ eff])
      show "usage_ok (db_placements s) (db_usage ?s)" using inv by (simp add: placement_inv_def)
      show "toLowerCase (pl_computerId p) = rw_computerId r" using p q by (simp add: stores_def)
      show "busy (?w r) \<longleftrightarrow> pl_state p \<notin> idle_states" using p by (rule busy_stores)
      assume o: "open_for (rw_computerId r) (db_usage ?s)" and n: "\<not> settled (pl_state p)"
      from o busy_row [OF inv r(1)] have "busy r" by simp
      with busy_stores [OF q(1)] have "pl_state q \<notin> idle_states" by simp
      with n state lawful from_q have "pl_state p \<notin> idle_states"
        unfolding cas_lawful_def idle_states_def settled_def by (auto dest: edge_not_provisioning split: if_splits)
      with busy_stores [OF p] show "busy (?w r)" by simp
    next
      show "\<And>i ty a o'. us = Some (Usage_open i ty a o') \<Longrightarrow> pl_state p \<noteq> PROVISIONING"
        using lawful state by (auto simp: cas_lawful_def)
    qed simp
    moreover have "uniq same_computer (db_placements t)" using uniq_written [OF uq] t by simp
    moreover have "\<forall>x \<in> set (db_placements t). well_placed x"
      using well_written [where f = ?w and P = ?P, OF _ one] wp inv t by (simp add: placement_inv_def)
    ultimately have "placement_inv t" using t by (simp add: placement_inv_def)
    moreover have "life_step\<^sup>*\<^sup>* (life s) (life t)"
    proof -
      have lt: "life t = (life s)(rw_computerId r \<mapsto> life_of (?w r))"
        using life_write [OF one _ uq, of ?w] t by (simp add: life_def)
      have ls: "life s (rw_computerId r) = Some (life_of r)" using lives_at [OF uq r(1)] by (simp add: life_def)
      have lq: "life_of r = \<lparr>lf_provider = pl_provider q, lf_owner = rw_ownerUserId r, lf_state = pl_state q, lf_epoch = pl_leaseEpoch q\<rparr>"
        by (rule life_of_stores [OF q(1)])
      have lp: "life_of (?w r) = (life_of r)\<lparr>lf_state := pl_state p, lf_epoch := pl_leaseEpoch q + bp_leaseEpoch b\<rparr>"
        using life_of_stores [OF p] lq epoch prov by simp
      consider (stay) "bp_leaseEpoch b = 0" "pl_state p = pl_state q" | (edge) "bp_leaseEpoch b = 0" "placement_edge (pl_state q) (pl_state p)"
        | (lease) "bp_leaseEpoch b = 1" "pl_state p = LEASED" "pl_provider q = Aws_ec2" "pl_state q \<in> {STOPPED, RUNNING, UNCONFIRMED}"
      proof (cases "bp_leaseEpoch b = 0")
        case True
        with lawful state from_q that(1,2) show ?thesis by (auto simp: cas_lawful_def split: if_splits)
      next
        case False
        with lawful have l: "bp_leaseEpoch b = 1" "to_state = LEASED" "\<not> gd_preserveState g" "gd_provider g = Some Aws_ec2"
          "\<forall>st. starts_from e g st \<longrightarrow> st \<in> {STOPPED, RUNNING, UNCONFIRMED}" by (auto simp: cas_lawful_def)
        have "rw_provider r = Some (provider_text Aws_ec2)" using r(2) l(4) by (simp add: cas_matches_def guard_holds_def)
        moreover have "rw_provider r = Some (provider_text (pl_provider q))" using q(1) by (simp add: stores_def)
        ultimately have "pl_provider q = Aws_ec2" by (simp del: provider_text.simps)
        with l state from_q that(3) show ?thesis by auto
      qed
      then show ?thesis
      proof cases
        case stay
        with lp lq have "life_of (?w r) = life_of r" by simp
        with lt ls have "life t = life s" by (auto simp: fun_eq_iff)
        then show ?thesis by simp
      next
        case edge
        with lp lq have "life_of (?w r) = (life_of r)\<lparr>lf_state := pl_state p\<rparr>" by simp
        with lt ls life_step.moved [of "life s" "rw_computerId r" "life_of r" "pl_state p"] edge lq have "life_step (life s) (life t)" by simp
        then show ?thesis by blast
      next
        case lease
        with lp lq have "life_of (?w r) = (life_of r)\<lparr>lf_state := LEASED, lf_epoch := lf_epoch (life_of r) + 1\<rparr>" by simp
        with lt ls life_step.leased [of "life s" "rw_computerId r" "life_of r"] lease lq have "life_step (life s) (life t)" by simp
        then show ?thesis by blast
      qed
    qed
    ultimately show ?thesis by blast
  qed
qed

lemma withAdmission_within: "plc.within f \<Longrightarrow> plc.within (withAdmission f)"
proof (rule plc.withinI)
  fix s x t assume f: "plc.within f" and run: "withAdmission f s = (Inr x, t)"
  have r: "plc.within (sbind takeAdmissionLock (\<lambda>_. sbind f (\<lambda>x. sbind releaseAdmission (\<lambda>_. sreturn x))))"
  proof (intro plc.within_bind plc.within_return f)
    show "plc.within takeAdmissionLock"
      by (rule plc.withinI, rule moves_untouched) (auto simp: takeAdmissionLock_def sbind_def assertReadCommitted_def split: if_splits)
    show "plc.within releaseAdmission" by (rule plc.withinI, rule moves_untouched) (auto simp: releaseAdmission_def)
  qed
  show "placement_moves s t"
  proof (cases "adm_held s")
    case True
    with run plc.withinD [OF f] show ?thesis by (simp add: withAdmission_def)
  next
    case False
    with run plc.withinD [OF plc.within_transaction [OF r]] show ?thesis by (simp add: withAdmission_def)
  qed
qed

lemma withAdmission_always: "plc.within f \<Longrightarrow> \<not> adm_held s \<Longrightarrow> placement_moves s (snd (withAdmission f s))"
proof -
  assume f: "plc.within f" and n: "\<not> adm_held s"
  show ?thesis
  proof (cases "withAdmission f s")
    case (Pair r t)
    then show ?thesis
    proof (cases r)
      case (Inl e)
      with n Pair have "t = s" by (auto simp: withAdmission_def dest: transaction_Inl)
      with Pair plc.R_refl show ?thesis by simp
    next
      case (Inr x)
      with Pair plc.withinD [OF withAdmission_within [OF f]] show ?thesis by simp
    qed
  qed
qed

lemma still_within:
  "plc.within assertReadCommitted" "plc.within (lockComputer c)" "plc.within assertAdmissionLock" "plc.within (selectRows c)"
  "plc.within (assertNoImageReservation c)" "plc.within (readPlacement c ou)" "plc.within (consumeTicket i c u k)"
  "plc.within (mintAdmissionTicket c u k)" "plc.within (in_moves m)" "plc.within (lockPoolClaimPlacement c)"
  "plc.within (assertUnopenedAdoptUsage p)" "plc.within (readAdmissionCounters u c now)" "plc.within (hasDemandHoldForRouting c u)"
proof -
  show a: "plc.within assertReadCommitted" by (rule plc.within_still) (auto simp: assertReadCommitted_def split: if_splits)
  show "plc.within (lockComputer c)" using a by (simp add: lockComputer_def)
  show b: "plc.within assertAdmissionLock" by (rule plc.within_still) (auto simp: assertAdmissionLock_def split: if_splits)
  show c: "plc.within (selectRows c)" for c by (simp add: selectRows_def plc.within_get)
  show d: "plc.within (assertNoImageReservation c)" for c by (rule plc.within_still) (auto simp: assertNoImageReservation_def split: if_splits)
  show e: "plc.within (readPlacement c ou)" for c ou
    unfolding readPlacement_def Let_def
    by (intro plc.within_bind c) (auto split: list.splits intro!: plc.within_bind plc.within_rules d)
  show "plc.within (consumeTicket i c u k)" by (rule plc.withinI, rule moves_untouched) (auto simp: consumeTicket_def split: if_splits)
  show "plc.within (mintAdmissionTicket c u k)" unfolding mintAdmissionTicket_def
    by (intro plc.within_bind b) (auto intro!: plc.withinI moves_untouched split: if_splits)
  show "plc.within (in_moves m)" by (rule plc.withinI, rule moves_untouched) (auto simp: in_moves_def split: prod.splits sum.splits)
  show "plc.within (lockPoolClaimPlacement c)" unfolding lockPoolClaimPlacement_def by (intro plc.within_bind e plc.within_return)
  show "plc.within (assertUnopenedAdoptUsage p)" by (rule plc.within_still) (auto simp: assertUnopenedAdoptUsage_def split: if_splits)
  show "plc.within (readAdmissionCounters u c now)" unfolding readAdmissionCounters_def readCounters_def
    by (intro plc.within_bind b e plc.within_get) (auto intro!: plc.withinI moves_untouched)
  show "plc.within (hasDemandHoldForRouting c u)" by (simp add: hasDemandHoldForRouting_def plc.within_get)
qed

text \<open>Adding a row.\<close>

lemma stores_initial: "stores r p \<Longrightarrow> rw_provider r = Some (provider_text q) \<Longrightarrow> pl_provider p = q"
  by (simp add: stores_def del: provider_text.simps)

lemma create_row:
  assumes inv: "placement_inv s" and new: "\<forall>x \<in> set (db_placements s). \<not> of_computer c x"
    and r: "r = new_placement s (toLowerCase c) (toLowerCase u) provider st f" and p: "parsePlacementRow r (toLowerCase c) = Inr p"
  shows "placement_inv (s\<lparr>db_placements := db_placements s @ [r]\<rparr>) \<and> life_step (life s) (life (s\<lparr>db_placements := db_placements s @ [r]\<rparr>))"
proof -
  from p have st: "stores r p" by (simp add: parse_iff)
  have id: "rw_computerId r = toLowerCase c" "rw_ownerUserId r = toLowerCase u" "rw_provider r = Some (provider_text provider)"
    "rw_leaseEpoch r = INITIAL_LEASE_EPOCH provider" using r by (simp_all add: new_placement_def)
  have n: "rw_computerId r \<notin> rw_computerId ` set (db_placements s)" using new id by (auto simp: of_computer_def)
  have "\<forall>x \<in> set (db_placements s). rw_computerId x \<noteq> rw_computerId r" using n by (metis imageI)
  then have "uniq same_computer (db_placements s @ [r])" using inv by (simp add: placement_inv_def uniq_append same_computer_def)
  moreover have "well_placed r" using st id by (auto simp: well_placed_def)
  moreover have "usage_ok (db_placements s @ [r]) (db_usage s)" using inv by (fastforce simp: placement_inv_def usage_ok_def)
  ultimately have "placement_inv (s\<lparr>db_placements := db_placements s @ [r]\<rparr>)" using inv by (auto simp: placement_inv_def)
  moreover have "life_step (life s) (life (s\<lparr>db_placements := db_placements s @ [r]\<rparr>))"
  proof -
    have none: "life s (rw_computerId r) = None" using lives_none [OF n] by (simp add: life_def)
    have "life_of r = \<lparr>lf_provider = provider, lf_owner = toLowerCase u, lf_state = pl_state p, lf_epoch = INITIAL_LEASE_EPOCH provider\<rparr>"
      using life_of_stores [OF st] stores_initial [OF st id(3)] id st by (simp add: stores_def)
    moreover have "life (s\<lparr>db_placements := db_placements s @ [r]\<rparr>) = (life s)(rw_computerId r \<mapsto> life_of r)"
      using life_add [OF n] by (simp add: life_def)
    ultimately show ?thesis using life_step.born [of "life s" "rw_computerId r" provider "toLowerCase u" "pl_state p", OF none] by simp
  qed
  ultimately show ?thesis by blast
qed

lemma createInTx_Inr:
  assumes run: "createInTx c u provider st f locked s = (Inr res, t)"
  shows "res = Placement_exists \<and> t = s \<and> (\<exists>x \<in> set (db_placements s). of_computer c x) \<or>
    (\<exists>p. (\<forall>x \<in> set (db_placements s). \<not> of_computer c x) \<and>
       parsePlacementRow (new_placement s (toLowerCase c) (toLowerCase u) provider st f) (toLowerCase c) = Inr p \<and> res = Created p \<and>
       t = s\<lparr>db_placements := db_placements s @ [new_placement s (toLowerCase c) (toLowerCase u) provider st f]\<rparr>)"
proof -
  let ?r = "new_placement s (toLowerCase c) (toLowerCase u) provider st f"
  have sel: "take 2 xs = [] \<longleftrightarrow> xs = []" for xs :: "placement_row list" by (cases xs) auto
  from sbind_eq_InrD [OF run [unfolded createInTx_def Let_def]] obtain x s1
    where lock: "(if locked then sreturn () else lockComputer (toLowerCase c)) s = (Inr x, s1)"
      and r1: "sbind (assertNoImageReservation (toLowerCase c)) (\<lambda>_. sbind (selectRows (toLowerCase c)) (\<lambda>rows.
        if rows \<noteq> [] then sreturn Placement_exists
        else (\<lambda>s. sbind (slift (parsePlacementRow (new_placement s (toLowerCase c) (toLowerCase u) provider st f) (toLowerCase c)))
          (\<lambda>p. sreturn (Created p)) (s\<lparr>db_placements := db_placements s @ [new_placement s (toLowerCase c) (toLowerCase u) provider st f]\<rparr>)))) s1 = (Inr res, t)"
    by blast
  have "s1 = s" using lock by (cases locked) (auto simp: lockComputer_def assertReadCommitted_def split: if_splits)
  from sbind_eq_InrD [OF r1] obtain y s2 where a: "assertNoImageReservation (toLowerCase c) s1 = (Inr y, s2)"
      and r2: "sbind (selectRows (toLowerCase c)) (\<lambda>rows.
        if rows \<noteq> [] then sreturn Placement_exists
        else (\<lambda>s. sbind (slift (parsePlacementRow (new_placement s (toLowerCase c) (toLowerCase u) provider st f) (toLowerCase c)))
          (\<lambda>p. sreturn (Created p)) (s\<lparr>db_placements := db_placements s @ [new_placement s (toLowerCase c) (toLowerCase u) provider st f]\<rparr>))) s2 = (Inr res, t)"
    by blast
  have "s2 = s" using a \<open>s1 = s\<close> by (auto simp: assertNoImageReservation_def split: if_splits)
  show ?thesis
  proof (cases "filter (of_computer (toLowerCase c)) (db_placements s) = []")
    case True
    with r2 \<open>s2 = s\<close> have "sbind (slift (parsePlacementRow ?r (toLowerCase c))) (\<lambda>p. sreturn (Created p)) (s\<lparr>db_placements := db_placements s @ [?r]\<rparr>) = (Inr res, t)"
      by (simp add: selectRows_def sbind_def)
    then show ?thesis using True by (cases "parsePlacementRow ?r (toLowerCase c)") (auto simp: filter_empty_conv sbind_def)
  next
    case False
    then have "\<exists>x \<in> set (db_placements s). of_computer c x" by (simp add: filter_empty_conv)
    with False r2 \<open>s2 = s\<close> show ?thesis by (simp add: selectRows_def sbind_def sel)
  qed
qed

lemma create_within: "plc.within (createInTx c u provider st f locked)"
proof (rule plc.withinI, unfold placement_moves_def, intro impI)
  fix s res t assume run: "createInTx c u provider st f locked s = (Inr res, t)" and inv: "placement_inv s"
  from createInTx_Inr [OF run] show "placement_inv t \<and> life_step\<^sup>*\<^sup>* (life s) (life t)"
  proof (elim disjE exE conjE)
    assume "t = s"
    with inv show ?thesis by simp
  next
    fix p assume "\<forall>x \<in> set (db_placements s). \<not> of_computer c x"
      "parsePlacementRow (new_placement s (toLowerCase c) (toLowerCase u) provider st f) (toLowerCase c) = Inr p"
      "t = s\<lparr>db_placements := db_placements s @ [new_placement s (toLowerCase c) (toLowerCase u) provider st f]\<rparr>"
    with create_row [OF inv _ refl] show ?thesis by blast
  qed
qed

text \<open>Removing a row that owns nothing.\<close>

lemma remove_within:
  assumes "\<And>r. P r \<Longrightarrow> rw_computerId r = c"
    and "\<And>r. P r \<Longrightarrow> in_state RETIRED r \<or> rw_provider r = Some (provider_text Cloudflare) \<and> in_state STOPPED r \<or> is_aws r \<and> in_state PROVISIONING r"
  shows "plc.within (remove_one P err)"
proof (rule plc.withinI, unfold placement_moves_def, intro impI)
  fix s res t assume run: "remove_one P err s = (Inr res, t)" and inv: "placement_inv s"
  then obtain r where one: "filter P (db_placements s) = [r]" and t: "t = s\<lparr>db_placements := filter (\<lambda>r. \<not> P r) (db_placements s)\<rparr>"
    by (auto simp: remove_one_def length_Suc_conv split: if_splits)
  have r: "r \<in> set (db_placements s)" "P r" using filter_only [OF one] by blast+
  from inv have uq: "uniq same_computer (db_placements s)" by (simp add: placement_inv_def)
  from inv r obtain q where q: "stores r q" by (auto simp: placement_inv_def well_placed_def)
  have st: "pl_state q = RETIRED \<or> pl_provider q = Cloudflare \<and> pl_state q = STOPPED \<or> pl_provider q = Aws_ec2 \<and> pl_state q = PROVISIONING"
    using assms(2) [OF r(2)] q by (auto simp: stores_def in_state_def is_aws_def simp del: provider_text.simps placement_state_text.simps)
  then have "\<not> busy r" using busy_stores [OF q] by (auto simp: idle_states_def)
  then have no: "\<not> open_for (rw_computerId r) (db_usage s)" using busy_row [OF inv r(1)] by blast
  have "others_kept (rw_computerId r) (db_placements s) (db_placements t)" using t assms(1) r(2) by (auto simp: others_kept_def)
  then have "usage_ok (db_placements t) (db_usage s)" by (rule usage_moved [rotated]) (use inv no in \<open>auto simp: placement_inv_def\<close>)
  then have "placement_inv t" using inv t by (auto simp: placement_inv_def uniq_filter)
  moreover have "life_step (life s) (life t)"
  proof -
    have "life s (rw_computerId r) = Some (life_of r)" using lives_at [OF uq r(1)] by (simp add: life_def)
    moreover have "life t = (life s)(rw_computerId r := None)" using life_remove [OF one uq] t by (simp add: life_def)
    ultimately show ?thesis using life_step.gone [of "life s" "rw_computerId r" "life_of r"] st life_of_stores [OF q] by auto
  qed
  ultimately show "placement_inv t \<and> life_step\<^sup>*\<^sup>* (life s) (life t)" by blast
qed

lemma removable_within: "st = RETIRED \<or> provider = Cloudflare \<and> st = STOPPED \<Longrightarrow> plc.within (remove_one (removable c u provider st g e) err)"
  by (rule remove_within [where c = "toLowerCase c"]) (auto simp: removable_def of_computer_def)

text \<open>Writes that leave the life of the row alone.\<close>

definition same_life :: "placement_row \<Rightarrow> placement_row \<Rightarrow> bool" where
  "same_life a b \<longleftrightarrow> rw_computerId a = rw_computerId b \<and> rw_ownerUserId a = rw_ownerUserId b \<and> rw_provider a = rw_provider b \<and>
     rw_store a = rw_store b \<and> rw_state a = rw_state b \<and> rw_generation a = rw_generation b \<and> rw_leaseEpoch a = rw_leaseEpoch b"

lemma touch_within:
  assumes "\<And>s r. same_life (f s r) r"
  shows "plc.within (update_placements P f)"
proof (rule plc.withinI, unfold placement_moves_def, intro impI)
  fix s res t assume run: "update_placements P f s = (Inr res, t)" and inv: "placement_inv s"
  have t: "t = s\<lparr>db_placements := update_where (P s) (f s) (db_placements s)\<rparr>" using run by (simp add: update_placements_def)
  have k: "rw_computerId (f s r) = rw_computerId r" "life_of (f s r) = life_of r" "busy (f s r) = busy r" for r
    using assms [of s r] by (simp_all add: same_life_def life_of_def busy_def in_state_def)
  have w: "well_placed (f s r)" if wr: "well_placed r" for r
  proof -
    from wr obtain p where "stores r p" by (auto simp: well_placed_def)
    with assms [of s r] have "stores (f s r) (p\<lparr>pl_boot := rw_boot (f s r), pl_updatedAt := rw_updatedAt (f s r) div 1000\<rparr>)"
      by (auto simp: same_life_def stores_def in_state_def)
    with wr assms [of s r] show ?thesis by (auto simp: well_placed_def same_life_def)
  qed
  have "lives (update_where (P s) (f s) rows) = lives rows" for rows
    by (induction rows) (auto simp: update_where_def k)
  then have "life t = life s" using t by (simp add: life_def)
  moreover have "placement_inv t"
    unfolding placement_inv_def
  proof (intro conjI ballI)
    show "uniq same_computer (db_placements t)" using t inv uniq_written k by (simp add: placement_inv_def)
    show "well_placed x" if "x \<in> set (db_placements t)" for x
    proof -
      from that t obtain y where "y \<in> set (db_placements s)" "x = (if P s y then f s y else y)" by (auto simp: mem_update_where)
      with inv w show ?thesis by (simp add: placement_inv_def)
    qed
    show "usage_ok (db_placements t) (db_usage t)"
      unfolding usage_ok_def
    proof (intro conjI ballI impI)
      show "uniq one_open (db_usage t)" using inv t by (simp add: placement_inv_def usage_ok_def)
      fix u assume "u \<in> set (db_usage t)" "cu_stoppedAt u = None"
      then obtain r where r: "r \<in> set (db_placements s)" "rw_computerId r = cu_computerId u" "busy r"
        using inv t by (auto simp: placement_inv_def usage_ok_def)
      then have "(if P s r then f s r else r) \<in> set (db_placements t)" using t by (auto simp: mem_update_where)
      with r k show "\<exists>r \<in> set (db_placements t). rw_computerId r = cu_computerId u \<and> busy r" by (metis (full_types))
    qed
  qed
  ultimately show "placement_inv t \<and> life_step\<^sup>*\<^sup>* (life s) (life t)" by simp
qed

text \<open>Each operation of the placements, as a sequence of lawful writes.\<close>

lemma within_case_result:
  "(\<And>p. plc.within (f p)) \<Longrightarrow> plc.within a \<Longrightarrow> plc.within b \<Longrightarrow> plc.within (case r of Moved p \<Rightarrow> f p | Cas_conflict \<Rightarrow> a | Illegal_transition \<Rightarrow> b)"
  by (cases r) auto

lemma within_case_created:
  "(\<And>p. plc.within (f p)) \<Longrightarrow> plc.within a \<Longrightarrow> plc.within (case r of Created p \<Rightarrow> f p | Placement_exists \<Rightarrow> a)"
  by (cases r) auto

lemma within_case_pair: "(\<And>a b. plc.within (f a b)) \<Longrightarrow> plc.within (case x of (a, b) \<Rightarrow> f a b)"
  by (cases x) auto

lemma within_case_outcome:
  "(\<And>p. plc.within (f p)) \<Longrightarrow> (\<And>a b. plc.within (g a b)) \<Longrightarrow> plc.within (case r of Admitted p \<Rightarrow> f p | Unadmitted a b \<Rightarrow> g a b)"
  by (cases r) auto

lemma within_case_decision:
  "(\<And>p. plc.within (f p)) \<Longrightarrow> (\<And>a. plc.within (g a)) \<Longrightarrow> plc.within (case r of Admitted_to p \<Rightarrow> f p | Refused_for a \<Rightarrow> g a)"
  by (cases r) auto

lemmas within = plc.within_rules plc.within_bind still_within withAdmission_within plc.within_transaction within_case_result
  within_case_created within_case_outcome within_case_decision create_within

lemmas lawful = cas_lawful_def starts_from_def no_guard_def no_bump_def expect_def placement_edge_def POOL_EDGES_def

lemma transitionPlacement_within: "plc.within (transitionPlacement c u e st f)"
  unfolding transitionPlacement_def by (intro within cas_within) (auto simp: lawful)

lemma renewPlacementLease_within: "plc.within (renewPlacementLease c u e a b)"
  unfolding renewPlacementLease_def by (intro within cas_within) (auto simp: lawful)

lemma markLifecycleStartUnknown_within: "plc.within (markLifecycleStartUnknown c u e le undo x)"
  unfolding markLifecycleStartUnknown_def by (intro within cas_within) (auto simp: lawful)

lemma transitionPlacementAsReconciler_within: "plc.within (transitionPlacementAsReconciler c e i le st f us)"
proof -
  have "cas_lawful e st no_bump (no_guard\<lparr>gd_instanceId := i, gd_lastError := le\<rparr>) us"
    if "\<not> (st \<notin> set (PLACEMENT_TRANSITIONS (ex_state e)) \<and> st \<notin> set (RECONCILER_TRANSITIONS (ex_state e)))"
  proof -
    from that have edge: "placement_edge (ex_state e) st" by (auto simp: placement_edge_def)
    with edge_not_provisioning [OF edge] show ?thesis by (simp add: cas_lawful_def starts_from_def no_guard_def no_bump_def)
  qed
  then show ?thesis unfolding transitionPlacementAsReconciler_def Let_def by (intro within cas_within)
qed

lemma reconcileReplacementGeneration_within: "plc.within (reconcileReplacementGeneration p c)"
  unfolding reconcileReplacementGeneration_def Let_def by (intro within cas_within) (auto simp: lawful)

lemma within_retire:
  "(\<And>m. retire = Some m \<Longrightarrow> plc.within m) \<Longrightarrow>
     plc.within (case (result, retire) of (Moved q, Some m) \<Rightarrow> sbind m (\<lambda>_. sreturn result) | _ \<Rightarrow> sreturn result)"
  by (cases result; cases retire) (auto intro!: within)

lemma writePoolOpen_within:
  assumes "to_state = STOPPING \<or> to_state = STOPPED" and "\<And>m. retire = Some m \<Longrightarrow> plc.within m"
  shows "plc.within (writePoolOpen p to_state f g retire)"
  unfolding writePoolOpen_def Let_def
  by (intro within_retire within cas_within) (use assms in \<open>auto simp: lawful split: if_splits\<close>)

lemma publishAttachedPoolClaim_within: "plc.within publish \<Longrightarrow> plc.within (publishAttachedPoolClaim p v publish)"
  unfolding publishAttachedPoolClaim_def Let_def by (intro within cas_within; (simp add: lawful)?)

lemma write_digest_within: "plc.within (write_digest c p h o')"
  unfolding write_digest_def
  by (intro within within_case_pair touch_within) (auto simp: same_life_def)

lemma consumeEnrollmentNonce_within: "plc.within (consumeEnrollmentNonce c e h i v o')"
  unfolding consumeEnrollmentNonce_def by (intro within cas_within write_digest_within) (auto simp: lawful)

lemma finishEnrollment_within: "plc.within (finishEnrollment c p a b d)"
  unfolding finishEnrollment_def by (intro within cas_within) (auto simp: lawful ENROLLABLE_STATES_def)

lemma failStalledPoolEnrollment_within:
  "plc.within stalled \<Longrightarrow> plc.within retire \<Longrightarrow> plc.within (failStalledPoolEnrollment p stalled retire)"
  unfolding failStalledPoolEnrollment_def Let_def
  by (intro within cas_within; (assumption | (auto simp: lawful ENROLLABLE_STATES_def)[1])?)

lemma unenrolled_mounting: "isUnenrolledPastGrace p now \<Longrightarrow> pl_state p = MOUNTING"
  by (auto simp: isUnenrolledPastGrace_def Let_def split: if_splits)

lemma failUnenrolledPlacement_within:
  assumes "\<And>m. retire = Some m \<Longrightarrow> plc.within m"
  shows "plc.within (failUnenrolledPlacement p now retire)"
  unfolding failUnenrolledPlacement_def Let_def
  by (intro within_retire within cas_within) (use assms in \<open>auto simp: lawful dest: unenrolled_mounting\<close>)

lemma releaseExportBoot_within: "plc.within (releaseExportBoot p g e)"
  unfolding releaseExportBoot_def by (intro within cas_within) (auto simp: lawful releasable_def)

lemma savePoolEnrollmentNonce_within: "plc.within (savePoolEnrollmentNonce now p h x)"
  unfolding savePoolEnrollmentNonce_def by (intro within touch_within) (simp add: same_life_def)

lemma setImageReservation_within: "plc.within (setImageReservation ip j)"
  unfolding setImageReservation_def Let_def by (intro within touch_within) (simp add: same_life_def)

lemma leasePlacement_within: "plc.within (leasePlacement i c u g e until r z f)"
  unfolding leasePlacement_def Let_def by (intro within cas_within) (auto simp: lawful)

lemma createAwsPlacement_within: "plc.within (createAwsPlacement i c u f)"
  unfolding createAwsPlacement_def by (intro within)

lemma createPlacement_within: "plc.within (createPlacement c u p st f)"
  unfolding createPlacement_def by (intro within)

lemma create_or_within: "plc.within m \<Longrightarrow> plc.within (create_or err m)"
  unfolding create_or_def by (intro within)

lemma moved_or_within: "plc.within m \<Longrightarrow> plc.within (moved_or err m)"
  unfolding moved_or_def by (intro within)

lemma retire_towards_within: "to_state = RETIRING \<or> to_state = RETIRED \<Longrightarrow> plc.within (retire_towards c u to_state p)"
  unfolding retire_towards_def by (intro within moved_or_within cas_within) (auto simp: lawful)

lemma retire_source_within: "plc.within (retire_source c u p)"
  unfolding retire_source_def by (intro within retire_towards_within removable_within) auto

lemma flipPlacementToAws_within: "plc.within (flipPlacementToAws i)"
  unfolding flipPlacementToAws_def Let_def by (intro within create_or_within retire_source_within)

lemma moved_or_Inr: "moved_or err m s = (Inr p, t) \<Longrightarrow> m s = (Inr (Moved p), t)"
  by (auto simp: moved_or_def sbind_def split: prod.splits sum.splits TransitionResult.splits)

lemma cas_reaches: "casInTx c e st b f g us False s = (Inr (Moved p), t) \<Longrightarrow> \<not> gd_preserveState g \<Longrightarrow> pl_state p = st"
  using casInTx_Inr [of c e st b f g us s "Moved p" t] by (auto simp: stores_def in_state_def)

lemma flipPlacementToCloudflare_within:
  assumes "plc.within fin"
  shows "plc.within (flipPlacementToCloudflare c u g e v store fin)"
proof -
  let ?g = "no_guard\<lparr>gd_ownerUserId := Some (toLowerCase u), gd_provider := Some Aws_ec2\<rparr>" and ?e = "Refused ''reverse_flip_placement_conflict''"
  have tail: "plc.within (sbind (moved_or ?e (casInTx (toLowerCase c) (expect p) RETIRING no_bump no_fields ?g None False))
     (\<lambda>p1. sbind (moved_or ?e (casInTx (toLowerCase c) (expect p1) RETIRED no_bump no_fields ?g None False)) (f p1)))"
    if st: "pl_state p = STOPPED" and f: "\<And>p1 x. plc.within (f p1 x)" for p f
  proof (rule plc.within_bind_on)
    show "plc.within (moved_or ?e (casInTx (toLowerCase c) (expect p) RETIRING no_bump no_fields ?g None False))"
      by (intro moved_or_within cas_within) (simp add: lawful st)
    fix s t and p1 :: Placement
    assume "moved_or ?e (casInTx (toLowerCase c) (expect p) RETIRING no_bump no_fields ?g None False) s = (Inr p1, t)"
    then have "pl_state p1 = RETIRING" by (rule cas_reaches [OF moved_or_Inr]) (simp add: no_guard_def)
    then show "plc.within (sbind (moved_or ?e (casInTx (toLowerCase c) (expect p1) RETIRED no_bump no_fields ?g None False)) (f p1))"
      by (intro within moved_or_within cas_within f) (simp add: lawful)
  qed
  show ?thesis unfolding flipPlacementToCloudflare_def Let_def
    by (intro tail within create_or_within removable_within assms) simp_all
qed

lemma pinCloudflarePlacement_within: "plc.within (pinCloudflarePlacement c u h)"
  unfolding pinCloudflarePlacement_def by (intro within create_or_within)

lemma finishFreshProvision_within: "plc.within proveEmpty \<Longrightarrow> plc.within (finishFreshProvision m proveEmpty)"
  unfolding finishFreshProvision_def Let_def by (intro within removable_within; simp)

lemma rollbackMigrationPlacement_within: "plc.within (rollbackMigrationPlacement m source)"
  unfolding rollbackMigrationPlacement_def Let_def
proof (intro within create_or_within)
  fix p
  show "plc.within (remove_one (\<lambda>r. removable (cm_computerId m) (cm_userId m) Aws_ec2 PROVISIONING (pl_generation p) (pl_leaseEpoch p) r \<and>
     bt_lastError (rw_boot r) = bt_lastError (pl_boot p)) (Refused ''migration_rollback_conflict''))"
    by (rule remove_within [where c = "toLowerCase (cm_computerId m)"]) (auto simp: removable_def of_computer_def is_aws_def)
qed

lemma runAdmission_within: "plc.within (runAdmission e now q)"
proof -
  have c: "plc.within (admit_create conf now r)" for conf r
    unfolding admit_create_def Let_def by (intro within createAwsPlacement_within)
  have l: "plc.within (admit_lease conf now r)" for conf r
    unfolding admit_lease_def Let_def by (intro within leasePlacement_within)
  show ?thesis unfolding runAdmission_def Let_def
    by (cases q; cases "readAwsAdmissionConfig e") (auto intro!: within c l)
qed

lemma reservePoolHostForBoot_within:
  assumes "plc.within admit" and "\<And>p. plc.within (fieldsFor p)" and "\<And>m p. validate = Some m \<Longrightarrow> plc.within (m p)"
    and "\<And>m p. beforeLease = Some m \<Longrightarrow> plc.within (m p)"
  shows "plc.within (reservePoolHostForBoot admit fieldsFor validate beforeLease)"
  unfolding reservePoolHostForBoot_def
  by (intro within cas_within assms) (auto simp: lawful intro: assms)

subsection \<open>Any sequence of operations\<close>

text \<open>A failed operation changes nothing: each one is a transaction, or throws before it writes.\<close>

definition atomic :: "'a compute_op \<Rightarrow> bool" where
  "atomic m \<longleftrightarrow> (\<forall>s e t. \<not> adm_held s \<longrightarrow> m s = (Inl e, t) \<longrightarrow> t = s)"

lemma atomic_rules:
  "atomic (sreturn x)" "atomic (sthrow e)" "atomic (transaction m)" "atomic (withAdmission m)"
  "(c \<Longrightarrow> atomic a) \<Longrightarrow> (\<not> c \<Longrightarrow> atomic b) \<Longrightarrow> atomic (if c then a else b)"
  by (auto simp: atomic_def withAdmission_def dest: transaction_Inl)

lemma atomic_run:
  assumes "atomic m" and "plc.within m" and "\<not> adm_held s"
  shows "placement_moves s (snd (m s))"
proof (cases "m s")
  case (Pair r t)
  show ?thesis
  proof (cases r)
    case (Inl e)
    with assms Pair have "t = s" unfolding atomic_def by blast
    with Pair plc.R_refl show ?thesis by simp
  next
    case (Inr x)
    with assms Pair plc.withinD show ?thesis by fastforce
  qed
qed

text \<open>
  The operations of every session, in any order and with any arguments, and everything that touches neither the placements
  nor the usage (the clock, the image jobs, the migrations, the demands). The pool's part of a transaction is any
  procedure that itself only writes placements through lawful writes.
\<close>

inductive placement_op :: "compute_db \<Rightarrow> compute_db \<Rightarrow> bool" where
  elsewhere: "db_placements t = db_placements s \<Longrightarrow> db_usage t = db_usage s \<Longrightarrow> placement_op s t"
| created: "\<not> adm_held s \<Longrightarrow> placement_op s (snd (createPlacement c u p st f s))"
| transitioned: "\<not> adm_held s \<Longrightarrow> placement_op s (snd (transitionPlacement c u e st f s))"
| renewed: "\<not> adm_held s \<Longrightarrow> placement_op s (snd (renewPlacementLease c u e a b s))"
| marked: "\<not> adm_held s \<Longrightarrow> placement_op s (snd (markLifecycleStartUnknown c ou e le st x s))"
| reconciled: "\<not> adm_held s \<Longrightarrow> placement_op s (snd (transitionPlacementAsReconciler c e oi ole st f us s))"
| settled_generation: "\<not> adm_held s \<Longrightarrow> placement_op s (snd (reconcileReplacementGeneration p cb s))"
| pool_opened: "\<not> adm_held s \<Longrightarrow> st \<in> {STOPPING, STOPPED} \<Longrightarrow> (\<And>m. retire = Some m \<Longrightarrow> plc.within m) \<Longrightarrow>
    placement_op s (snd (writePoolOpen p st f g retire s))"
| claim_published: "\<not> adm_held s \<Longrightarrow> plc.within publish \<Longrightarrow> placement_op s (snd (publishAttachedPoolClaim p v publish s))"
| nonce_consumed: "\<not> adm_held s \<Longrightarrow> placement_op s (snd (consumeEnrollmentNonce c e h i v o' s))"
| enrolled: "\<not> adm_held s \<Longrightarrow> placement_op s (snd (finishEnrollment c p b1 b2 b3 s))"
| stalled: "\<not> adm_held s \<Longrightarrow> plc.within q \<Longrightarrow> plc.within m \<Longrightarrow> placement_op s (snd (failStalledPoolEnrollment p q m s))"
| unenrolled: "\<not> adm_held s \<Longrightarrow> (\<And>m. retire = Some m \<Longrightarrow> plc.within m) \<Longrightarrow> placement_op s (snd (failUnenrolledPlacement p now retire s))"
| export_released: "\<not> adm_held s \<Longrightarrow> placement_op s (snd (releaseExportBoot p g ep s))"
| nonce_saved: "\<not> adm_held s \<Longrightarrow> placement_op s (snd (savePoolEnrollmentNonce now p h x s))"
| reserved: "\<not> adm_held s \<Longrightarrow> placement_op s (snd (withAdmission (setImageReservation ip j) s))"
| flipped: "\<not> adm_held s \<Longrightarrow> placement_op s (snd (flipPlacementToAws fi s))"
| flipped_back: "\<not> adm_held s \<Longrightarrow> plc.within fin \<Longrightarrow> placement_op s (snd (flipPlacementToCloudflare c u g ep v store fin s))"
| pinned: "\<not> adm_held s \<Longrightarrow> placement_op s (snd (pinCloudflarePlacement c u h s))"
| fresh_finished: "\<not> adm_held s \<Longrightarrow> plc.within proveEmpty \<Longrightarrow> placement_op s (snd (finishFreshProvision m proveEmpty s))"
| rolled_back: "\<not> adm_held s \<Longrightarrow> placement_op s (snd (rollbackMigrationPlacement m source s))"
| admitted: "\<not> adm_held s \<Longrightarrow> placement_op s (snd (runAdmission en now q s))"
| pool_reserved: "\<not> adm_held s \<Longrightarrow> (\<And>p. plc.within (fieldsFor p)) \<Longrightarrow> (\<And>m p. validate = Some m \<Longrightarrow> plc.within (m p)) \<Longrightarrow>
    (\<And>m p. before = Some m \<Longrightarrow> plc.within (m p)) \<Longrightarrow>
    placement_op s (snd (reservePoolHostForBoot (runAdmission en now q) fieldsFor validate before s))"

lemma placement_op_moves: "placement_op s t \<Longrightarrow> placement_moves s t"
proof (induction rule: placement_op.induct)
  case elsewhere
  then show ?case by (rule moves_untouched)
next
  case created
  then show ?case by (intro atomic_run createPlacement_within) (auto simp: createPlacement_def intro: atomic_rules)
next
  case transitioned
  then show ?case by (intro atomic_run transitionPlacement_within) (auto simp: transitionPlacement_def intro: atomic_rules)
next
  case renewed
  then show ?case by (intro atomic_run renewPlacementLease_within) (auto simp: renewPlacementLease_def intro: atomic_rules)
next
  case marked
  then show ?case by (intro atomic_run markLifecycleStartUnknown_within) (auto simp: markLifecycleStartUnknown_def intro: atomic_rules)
next
  case reconciled
  then show ?case by (intro atomic_run transitionPlacementAsReconciler_within) (auto simp: transitionPlacementAsReconciler_def Let_def intro: atomic_rules)
next
  case settled_generation
  then show ?case by (intro atomic_run reconcileReplacementGeneration_within) (auto simp: reconcileReplacementGeneration_def Let_def intro: atomic_rules)
next
  case (pool_opened s st retire)
  then show ?case by (intro atomic_run writePoolOpen_within) (auto simp: writePoolOpen_def Let_def intro!: atomic_rules)
next
  case claim_published
  then show ?case by (intro atomic_run publishAttachedPoolClaim_within) (auto simp: publishAttachedPoolClaim_def Let_def intro: atomic_rules)
next
  case nonce_consumed
  then show ?case by (intro atomic_run consumeEnrollmentNonce_within) (auto simp: consumeEnrollmentNonce_def intro: atomic_rules)
next
  case enrolled
  then show ?case by (intro atomic_run finishEnrollment_within) (auto simp: finishEnrollment_def intro: atomic_rules)
next
  case stalled
  then show ?case by (intro atomic_run failStalledPoolEnrollment_within) (auto simp: failStalledPoolEnrollment_def Let_def intro: atomic_rules)
next
  case unenrolled
  then show ?case by (intro atomic_run failUnenrolledPlacement_within) (auto simp: failUnenrolledPlacement_def Let_def intro!: atomic_rules)
next
  case export_released
  then show ?case by (intro atomic_run releaseExportBoot_within) (auto simp: releaseExportBoot_def intro: atomic_rules)
next
  case nonce_saved
  then show ?case by (intro atomic_run savePoolEnrollmentNonce_within) (auto simp: savePoolEnrollmentNonce_def sbind_def update_placements_def atomic_def)
next
  case reserved
  then show ?case by (intro atomic_run withAdmission_within setImageReservation_within atomic_rules)
next
  case flipped
  then show ?case by (intro atomic_run flipPlacementToAws_within) (auto simp: flipPlacementToAws_def Let_def intro: atomic_rules)
next
  case flipped_back
  then show ?case by (intro atomic_run flipPlacementToCloudflare_within) (auto simp: flipPlacementToCloudflare_def Let_def intro: atomic_rules)
next
  case pinned
  then show ?case by (intro atomic_run pinCloudflarePlacement_within) (auto simp: pinCloudflarePlacement_def intro: atomic_rules)
next
  case fresh_finished
  then show ?case by (intro atomic_run finishFreshProvision_within) (auto simp: finishFreshProvision_def Let_def intro: atomic_rules)
next
  case rolled_back
  then show ?case by (intro atomic_run rollbackMigrationPlacement_within) (auto simp: rollbackMigrationPlacement_def Let_def intro: atomic_rules)
next
  case (admitted s en now q)
  have "atomic (runAdmission en now q)"
    by (cases q; cases "readAwsAdmissionConfig en") (auto simp: runAdmission_def Let_def intro: atomic_rules)
  with admitted show ?case by (intro atomic_run runAdmission_within)
next
  case pool_reserved
  then show ?case
    by (intro atomic_run reservePoolHostForBoot_within runAdmission_within) (auto simp: reservePoolHostForBoot_def intro!: atomic_rules)
qed

lemma placement_ops_move: "placement_op\<^sup>*\<^sup>* s t \<Longrightarrow> placement_moves s t"
  by (induction rule: rtranclp_induct) (auto intro: plc.R_refl plc.R_trans placement_op_moves)

end
