(* ===== verification/Placement_Props.thy ===== *)
theory Placement_Props
  imports Placement_Inv
begin

text \<open>
  The properties of the placements: every sequence of operations refines the life of a placement and keeps the rows typed and the
  usage closed; what a swap, a nonce and a pool claim guarantee, each with its application at a concrete database.
\<close>

context unique_rule
begin

lemma uniq_alone:
  assumes "uniq clash rows" and "r \<in> set rows" and "\<And>x. P x \<longleftrightarrow> clash x r" and "P r"
  shows "filter P rows = [r]"
  using assms(1,2)
proof (induction rows)
  case (Cons x rows)
  have h: "\<not> clash x y" if "y \<in> set rows" for y using Cons.prems(1) that by (simp add: uniq_def)
  show ?case
  proof (cases "x = r")
    case True
    have "\<not> P y" if "y \<in> set rows" for y using h [OF that] True assms(3) clash_sym by blast
    with True assms(4) show ?thesis by (simp add: filter_empty_conv)
  next
    case False
    with Cons.prems(2) have "r \<in> set rows" by simp
    with h assms(3) have "\<not> P x" by blast
    with Cons \<open>r \<in> set rows\<close> show ?thesis by (simp add: uniq_def)
  qed
qed simp

end

subsection \<open>A database to apply the properties to\<close>

definition no_moves :: move_db where
  "no_moves = \<lparr>mv_rows = [], mv_clock = 1700000000000000, mv_next = 0, mv_uuid = (\<lambda>n. replicate n CHR ''x''), mv_reverse = []\<rparr>"

definition no_computers :: compute_db where
  "no_computers = \<lparr>db_moves = no_moves, db_placements = [], db_imageJobs = [], db_usage = [], db_computers = [], db_demands = [],
     db_isolation = ''read committed'', adm_held = False, adm_counted = None, adm_tickets = []\<rparr>"

definition sample_computer :: string where
  "sample_computer = ''11111111-1111-4111-8111-111111111111''"

definition sample_owner :: string where
  "sample_owner = ''22222222-2222-4222-8222-222222222222''"

text \<open>A host of the pool that waits for its enrollment.\<close>

definition waiting_host :: placement_row where
  "waiting_host = \<lparr>rw_computerId = sample_computer, rw_ownerUserId = sample_owner, rw_provider = Some (provider_text Aws_ec2),
     rw_store = Some (workspace_store_text Ebs), rw_generation = 1, rw_leaseEpoch = 1, rw_state = Some (placement_state_text PROVISIONING),
     rw_boot = no_boot\<lparr>bt_region := Some ''ap-south-1'', bt_instanceId := Some ''i-1'', bt_volumeId := Some ''vol-1'', bt_fenceToken := Some ''f'',
       bt_lifecycleJobId := Some ''j'', bt_lifecycleDigest := Some ''d''\<rparr>,
     rw_imageJob = None, rw_imageDigest = None, rw_digestAt = None, rw_updatedAt = 1699999999000000\<rparr>"

definition waiting_db :: compute_db where
  "waiting_db = no_computers\<lparr>db_placements := [waiting_host]\<rparr>"

lemma sample_lower [simp]: "toLowerCase sample_computer = sample_computer" "toLowerCase sample_owner = sample_owner"
  by code_simp+

lemma sample_uuid [simp]: "is_uuid sample_computer" "is_uuid sample_owner"
  by code_simp+

lemma no_computers_inv: "placement_inv no_computers"
  by (simp add: placement_inv_def no_computers_def usage_ok_def uniq_def)

definition waiting_placement :: Placement where
  "waiting_placement = \<lparr>pl_computerId = sample_computer, pl_ownerUserId = sample_owner, pl_provider = Aws_ec2, pl_store = Ebs,
     pl_generation = 1, pl_leaseEpoch = 1, pl_state = PROVISIONING, pl_boot = rw_boot waiting_host, pl_updatedAt = 1699999999000\<rparr>"

lemma waiting_stores: "stores waiting_host waiting_placement"
  by (simp add: stores_def waiting_host_def waiting_placement_def in_state_def is_safe_integer_def max_safe_integer_def)

lemma waiting_inv: "placement_inv waiting_db"
  using waiting_stores by (auto simp: placement_inv_def waiting_db_def no_computers_def usage_ok_def uniq_def well_placed_def waiting_host_def)

lemma empty_moves: "placement_op\<^sup>*\<^sup>* s s" by simp

definition placed_db :: compute_db where
  "placed_db = snd (createPlacement sample_computer sample_owner Cloudflare STOPPED no_fields no_computers)"

lemma placed_reached: "placement_op\<^sup>*\<^sup>* no_computers placed_db"
  unfolding placed_db_def by (rule r_into_rtranclp, rule placement_op.created) (simp add: no_computers_def)

definition placed_row :: placement_row where
  "placed_row = new_placement no_computers sample_computer sample_owner Cloudflare STOPPED no_fields"

lemma placed_db_rows: "db_placements placed_db = [placed_row]"
proof -
  have "parsePlacementRow placed_row sample_computer = Inr \<lparr>pl_computerId = sample_computer, pl_ownerUserId = sample_owner, pl_provider = Cloudflare,
      pl_store = R2, pl_generation = 1, pl_leaseEpoch = 0, pl_state = STOPPED, pl_boot = rw_boot placed_row, pl_updatedAt = rw_updatedAt placed_row div 1000\<rparr>"
    by (auto simp: parse_iff stores_def placed_row_def new_placement_def in_state_def is_safe_integer_def max_safe_integer_def)
  then show ?thesis
    by (simp add: placed_db_def createPlacement_def transaction_def createInTx_def lockComputer_def assertReadCommitted_def sbind_def
      assertNoImageReservation_def image_reserved_def selectRows_def Let_def placed_row_def [symmetric])
       (simp add: no_computers_def placed_row_def)
qed

subsection \<open>Every sequence of operations\<close>



text \<open>What a read of a placement may answer.\<close>

definition typed_placement :: "Placement \<Rightarrow> bool" where
  "typed_placement p \<longleftrightarrow> pl_store p \<in> set (STORES_FOR_PROVIDER (pl_provider p)) \<and> 0 \<le> pl_generation p \<and> is_safe_integer (pl_generation p) \<and>
     0 \<le> pl_leaseEpoch p \<and> is_safe_integer (pl_leaseEpoch p) \<and> is_uuid (pl_ownerUserId p)"

lemma stores_typed: "stores r p \<Longrightarrow> typed_placement p"
  by (auto simp: stores_def typed_placement_def)

lemma rows_of_one:
  assumes "placement_inv s"
  shows "take 2 (filter (of_computer c) (db_placements s)) = filter (of_computer c) (db_placements s)"
    and "filter (of_computer c) (db_placements s) = [] \<or> (\<exists>r p. filter (of_computer c) (db_placements s) = [r] \<and> stores r p \<and>
      toLowerCase (rw_computerId r) = toLowerCase c)"
proof -
  have one: "filter (of_computer c) (db_placements s) = [r]" if "r \<in> set (db_placements s)" "of_computer c r" for r
    using that assms by (intro only_row) (auto simp: placement_inv_def of_computer_def)
  have d: "filter (of_computer c) (db_placements s) = [] \<or> (\<exists>r. r \<in> set (db_placements s) \<and> of_computer c r \<and> filter (of_computer c) (db_placements s) = [r])"
    using one by (metis filter_empty_conv)
  then show "take 2 (filter (of_computer c) (db_placements s)) = filter (of_computer c) (db_placements s)" by auto
  from d assms show "filter (of_computer c) (db_placements s) = [] \<or> (\<exists>r p. filter (of_computer c) (db_placements s) = [r] \<and> stores r p \<and>
      toLowerCase (rw_computerId r) = toLowerCase c)"
    unfolding placement_inv_def well_placed_def of_computer_def by (metis toLowerCase_idem)
qed

lemma lower_rows: "filter (of_computer (toLowerCase c)) rows = filter (of_computer c) rows"
  by (rule filter_cong) simp_all

lemma read_typed:
  assumes "placement_inv s"
  shows "case readPlacement c owner s of
      (Inl e, u) \<Rightarrow> u = s \<and> (e = Image_job_conflict \<or> e = Placement_owner \<and> owner \<noteq> None)
    | (Inr x, u) \<Rightarrow> u = s \<and> rp_store x \<in> set (STORES_FOR_PROVIDER (rp_provider x)) \<and> required (rp_record x) typed_placement"
proof -
  have r0: "readPlacement c owner s = sbind (assertNoImageReservation (toLowerCase c)) (\<lambda>_. sreturn DEFAULT_PLACEMENT) s"
    if "filter (of_computer c) (db_placements s) = []"
    using that by (simp add: readPlacement_def Let_def sbind_def selectRows_def lower_rows)
  consider (none) "filter (of_computer c) (db_placements s) = []"
    | (one) r p where "filter (of_computer c) (db_placements s) = [r]" "stores r p" "toLowerCase (rw_computerId r) = toLowerCase c"
    using rows_of_one(2) [OF assms] by blast
  then show ?thesis
  proof cases
    case none
    from r0 [OF none] show ?thesis by (auto simp: sbind_def assertNoImageReservation_def DEFAULT_PLACEMENT_def)
  next
    case one
    then have "parsePlacementRow r (toLowerCase c) = Inr p" by (simp add: parse_iff)
    with one have "readPlacement c owner s =
       (if owner \<noteq> None \<and> pl_ownerUserId p \<noteq> toLowerCase (the owner) then sthrow Placement_owner
        else sbind (assertNoImageReservation (toLowerCase c)) (\<lambda>_. sreturn \<lparr>rp_provider = pl_provider p, rp_store = pl_store p, rp_record = Some p\<rparr>)) s"
      by (simp add: readPlacement_def Let_def sbind_def selectRows_def lower_rows)
    with stores_typed [OF one(2)] show ?thesis by (auto simp: sbind_def assertNoImageReservation_def typed_placement_def)
  qed
qed

text \<open>C25: Typing. In every database the operations reach, a read of any computer, with or without an expected owner, changes nothing
  and answers a placement whose store belongs to its provider and whose counters are exact, or fails only for a reserved image or a
  foreign owner: no stored row ever fails to parse or shows a duplicate.\<close>

theorem placements_typed:
  assumes "placement_inv s" and "placement_op\<^sup>*\<^sup>* s t"
  shows "case readPlacement c owner t of
      (Inl e, u) \<Rightarrow> u = t \<and> (e = Image_job_conflict \<or> e = Placement_owner \<and> owner \<noteq> None)
    | (Inr x, u) \<Rightarrow> u = t \<and> rp_store x \<in> set (STORES_FOR_PROVIDER (rp_provider x)) \<and> required (rp_record x) typed_placement"
  by (rule read_typed) (use placement_ops_move [OF assms(2)] assms(1) in \<open>simp add: placement_moves_def\<close>)

theorem placements_typed_witness:
  "case readPlacement sample_computer None placed_db of
      (Inl e, u) \<Rightarrow> u = placed_db \<and> (e = Image_job_conflict \<or> e = Placement_owner \<and> None \<noteq> (None :: string option))
    | (Inr x, u) \<Rightarrow> u = placed_db \<and> rp_store x \<in> set (STORES_FOR_PROVIDER (rp_provider x)) \<and> required (rp_record x) typed_placement"
  by (rule placements_typed [OF no_computers_inv placed_reached])

text \<open>C10: Invariant. In every reachable database a computer has at most one open usage interval, and an open one belongs to a computer
  whose placement exists and may run: no computer that is stopped, retired, purged, not launched yet or gone is still billed.\<close>

theorem usage_follows_placement:
  assumes "placement_inv s" and "placement_op\<^sup>*\<^sup>* s t" and "u \<in> set (db_usage t)" and "cu_stoppedAt u = None"
  shows "(\<exists>r p. filter (\<lambda>r. rw_computerId r = cu_computerId u) (db_placements t) = [r] \<and> parsePlacementRow r (cu_computerId u) = Inr p \<and>
       pl_state p \<notin> {STOPPED, RETIRED, PURGE_ELIGIBLE, PROVISIONING}) \<and>
     filter (\<lambda>v. cu_computerId v = cu_computerId u \<and> cu_stoppedAt v = None) (db_usage t) = [u]"
proof -
  have inv: "placement_inv t" using placement_ops_move [OF assms(2)] assms(1) by (simp add: placement_moves_def)
  then obtain r where r: "r \<in> set (db_placements t)" "rw_computerId r = cu_computerId u" "busy r"
    using assms(3,4) by (auto simp: placement_inv_def usage_ok_def)
  with inv obtain p where p: "stores r p" by (auto simp: placement_inv_def well_placed_def)
  have "filter (\<lambda>r. rw_computerId r = cu_computerId u) (db_placements t) = [r]"
    using inv r by (intro only_row) (auto simp: placement_inv_def)
  moreover have "parsePlacementRow r (cu_computerId u) = Inr p" using p r(2) by (simp add: parse_iff)
  moreover have "pl_state p \<notin> {STOPPED, RETIRED, PURGE_ELIGIBLE, PROVISIONING}" using busy_stores [OF p] r(3) by (simp add: idle_states_def)
  moreover have "filter (\<lambda>v. cu_computerId v = cu_computerId u \<and> cu_stoppedAt v = None) (db_usage t) = [u]"
    using inv assms(3,4) by (intro open_usages.uniq_alone) (auto simp: placement_inv_def usage_ok_def one_open_def)
  ultimately show ?thesis by blast
qed

definition running_db :: compute_db where
  "running_db = no_computers\<lparr>db_placements := [waiting_host\<lparr>rw_state := Some (placement_state_text RUNNING)\<rparr>],
     db_usage := [\<lparr>cu_computerId = sample_computer, cu_userId = sample_owner, cu_instanceId = ''i-1'', cu_instanceType = ''m6i.large'',
       cu_startedAt = 1699999999000000, cu_stoppedAt = None, cu_egressBytes = None, cu_observedBy = ''boot'', cu_updatedAt = 1699999999000000\<rparr>]\<rparr>"

lemma running_stores:
  "stores (waiting_host\<lparr>rw_state := Some (placement_state_text RUNNING)\<rparr>) (waiting_placement\<lparr>pl_state := RUNNING\<rparr>)"
  using waiting_stores by (auto simp: stores_def in_state_def)

lemma running_inv: "placement_inv running_db"
  using running_stores busy_stores [OF running_stores]
  by (auto simp: placement_inv_def running_db_def no_computers_def usage_ok_def uniq_def well_placed_def waiting_host_def idle_states_def waiting_placement_def)

theorem usage_follows_placement_witness:
  "(\<exists>r p. filter (\<lambda>r. rw_computerId r = sample_computer) (db_placements running_db) = [r] \<and> parsePlacementRow r sample_computer = Inr p \<and>
     pl_state p \<notin> {STOPPED, RETIRED, PURGE_ELIGIBLE, PROVISIONING})"
  using usage_follows_placement [OF running_inv empty_moves, of "hd (db_usage running_db)"]
  by (auto simp: running_db_def)

subsection \<open>The end of a workspace\<close>

lemma stores_state: "stores r p \<Longrightarrow> in_state st r \<longleftrightarrow> pl_state p = st"
  by (auto simp: stores_def in_state_def simp del: placement_state_text.simps)

lemma life_purged: "life_step\<^sup>*\<^sup>* m m' \<Longrightarrow> m c = Some l \<Longrightarrow> lf_state l = PURGE_ELIGIBLE \<Longrightarrow> m' c = Some l"
proof (induction rule: rtranclp_induct)
  case (step m1 m2)
  then have at: "m1 c = Some l" "lf_state l = PURGE_ELIGIBLE" by simp_all
  from \<open>life_step m1 m2\<close> show ?case
    by cases (use at in \<open>auto simp: placement_edge_def POOL_EDGES_def split: if_splits\<close>)
qed

lemma life_back: "life t c = Some l \<Longrightarrow> \<exists>r \<in> set (db_placements t). rw_computerId r = c \<and> life_of r = l"
  unfolding life_def lives_def by (auto dest!: map_of_SomeD)

text \<open>C24: Safety. A placement whose workspace may be purged stays so: once it is purge eligible, no sequence of operations
  leases, moves, replaces or removes it, and its provider, owner and lease epoch are the ones it had.\<close>

theorem purge_eligible_final:
  assumes "placement_inv s" and "placement_op\<^sup>*\<^sup>* s t" and "r \<in> set (db_placements s)" and "in_state PURGE_ELIGIBLE r"
  shows "\<exists>r'. filter (\<lambda>x. rw_computerId x = rw_computerId r) (db_placements t) = [r'] \<and> in_state PURGE_ELIGIBLE r' \<and>
    rw_provider r' = rw_provider r \<and> rw_ownerUserId r' = rw_ownerUserId r \<and> rw_leaseEpoch r' = rw_leaseEpoch r"
proof -
  have inv: "placement_inv t" and l: "life_step\<^sup>*\<^sup>* (life s) (life t)"
    using placement_ops_move [OF assms(2)] assms(1) by (simp_all add: placement_moves_def)
  from assms obtain p where p: "stores r p" by (auto simp: placement_inv_def well_placed_def)
  have st: "pl_state p = PURGE_ELIGIBLE" using stores_state [OF p] assms(4) by simp
  have "life s (rw_computerId r) = Some (life_of r)" using lives_at assms(1,3) by (simp add: life_def placement_inv_def)
  then have "life t (rw_computerId r) = Some (life_of r)" by (rule life_purged [OF l]) (simp add: life_of_stores [OF p] st)
  then obtain r' where r': "r' \<in> set (db_placements t)" "rw_computerId r' = rw_computerId r" "life_of r' = life_of r" by (blast dest: life_back)
  from r' inv obtain p' where p': "stores r' p'" by (auto simp: placement_inv_def well_placed_def)
  have eq: "pl_provider p' = pl_provider p" "rw_ownerUserId r' = rw_ownerUserId r" "pl_state p' = PURGE_ELIGIBLE" "pl_leaseEpoch p' = pl_leaseEpoch p"
    using r'(3) life_of_stores [OF p] life_of_stores [OF p'] st by simp_all
  have "filter (\<lambda>x. rw_computerId x = rw_computerId r) (db_placements t) = [r']"
    using inv r' by (intro only_row) (auto simp: placement_inv_def)
  with eq p p' show ?thesis by (auto simp: stores_def in_state_def)
qed

definition purged_row :: placement_row where
  "purged_row = waiting_host\<lparr>rw_state := Some (placement_state_text PURGE_ELIGIBLE)\<rparr>"

definition purged_db :: compute_db where
  "purged_db = no_computers\<lparr>db_placements := [purged_row]\<rparr>"

lemma purged_inv: "placement_inv purged_db"
proof -
  have "stores purged_row (waiting_placement\<lparr>pl_state := PURGE_ELIGIBLE\<rparr>)"
    using waiting_stores by (auto simp: stores_def in_state_def purged_row_def)
  then show ?thesis
    by (auto simp: placement_inv_def purged_db_def no_computers_def usage_ok_def uniq_def well_placed_def waiting_host_def purged_row_def)
qed

theorem purge_eligible_final_witness:
  "\<exists>r'. filter (\<lambda>x. rw_computerId x = sample_computer) (db_placements
      (snd (transitionPlacement sample_computer sample_owner \<lparr>ex_generation = 1, ex_leaseEpoch = 1, ex_state = RETIRED\<rparr> PURGE_ELIGIBLE no_fields purged_db))) = [r'] \<and>
    in_state PURGE_ELIGIBLE r'"
proof -
  have "placement_op\<^sup>*\<^sup>* purged_db (snd (transitionPlacement sample_computer sample_owner \<lparr>ex_generation = 1, ex_leaseEpoch = 1, ex_state = RETIRED\<rparr>
      PURGE_ELIGIBLE no_fields purged_db))"
    by (rule r_into_rtranclp, rule placement_op.transitioned) (simp add: purged_db_def no_computers_def)
  from purge_eligible_final [OF purged_inv this, of purged_row] show ?thesis
    by (auto simp: purged_db_def purged_row_def waiting_host_def in_state_def)
qed

subsection \<open>The enrollment\<close>

text \<open>A swap that no row can satisfy.\<close>

abbreviation any_outcome :: "'e \<Rightarrow> 's \<Rightarrow> bool" where
  "any_outcome \<equiv> \<lambda>_ _. True"

lemma valid_still: "(\<And>s x t. m s = (Inr x, t) \<Longrightarrow> P s \<Longrightarrow> P t) \<Longrightarrow> valid P m (\<lambda>_. P) any_outcome"
  by (auto simp: valid_def split: prod.split sum.split)

lemma cas_blocked:
  assumes "\<And>s x. P s \<Longrightarrow> x \<in> set (db_placements s) \<Longrightarrow> \<not> cas_matches c e g (db_now s) x"
  shows "valid P (casInTx c e st b f g us False) (\<lambda>res _. res = Cas_conflict) any_outcome"
proof (rule validI)
  fix s res t assume "P s" and run: "casInTx c e st b f g us False s = (Inr res, t)"
  from casInTx_Inr [OF run] show "res = Cas_conflict"
  proof (elim disjE exE conjE)
    fix r p assume "filter (cas_matches c e g (db_now s)) (db_placements s) = [r]"
    from filter_only [OF this] assms [OF \<open>P s\<close>] show ?thesis by blast
  qed
qed simp

text \<open>The reads and locks leave every fact about the tables as it was.\<close>

definition of_tables :: "(placement_row list \<Rightarrow> bool) \<Rightarrow> compute_db \<Rightarrow> bool" where
  "of_tables K s \<longleftrightarrow> K (db_placements s)"

lemma reads_rows:
  "valid (of_tables K) (lockComputer c) (\<lambda>_. of_tables K) any_outcome" "valid (of_tables K) (readPlacement c ou) (\<lambda>_. of_tables K) any_outcome"
  "valid (of_tables K) (lockPoolClaimPlacement c) (\<lambda>_. of_tables K) any_outcome" "valid (of_tables K) (assertUnopenedAdoptUsage p) (\<lambda>_. of_tables K) any_outcome"
proof -
  show "valid (of_tables K) (lockComputer c) (\<lambda>_. of_tables K) any_outcome"
    by (rule valid_still) (auto simp: lockComputer_def assertReadCommitted_def split: if_splits)
  have r: "t = s" if "readPlacement c ou s = (Inr x, t)" for s x t c ou
    using that by (auto simp: readPlacement_def Let_def sbind_def selectRows_def assertNoImageReservation_def split: list.splits if_splits sum.splits prod.splits)
  then show "valid (of_tables K) (readPlacement c ou) (\<lambda>_. of_tables K) any_outcome" by (intro valid_still) blast
  show "valid (of_tables K) (lockPoolClaimPlacement c) (\<lambda>_. of_tables K) any_outcome"
    by (rule valid_still) (auto simp: lockPoolClaimPlacement_def dest!: r sbind_eq_InrD)
  show "valid (of_tables K) (assertUnopenedAdoptUsage p) (\<lambda>_. of_tables K) any_outcome"
    by (rule valid_still) (auto simp: assertUnopenedAdoptUsage_def split: if_splits)
qed

lemma admission_rows:
  assumes "valid (of_tables K) m (\<lambda>res _. Q res) any_outcome"
  shows "valid (of_tables K) (withAdmission m) (\<lambda>res _. Q res) any_outcome"
proof (rule validI)
  fix s res t assume k: "of_tables K s" and run: "withAdmission m s = (Inr res, t)"
  show "Q res"
  proof (cases "adm_held s")
    case True
    with run have "m s = (Inr res, t)" by (simp add: withAdmission_def)
    from valid_Inr [OF assms k this] show ?thesis .
  next
    case False
    with run have "sbind takeAdmissionLock (\<lambda>_. sbind m (\<lambda>x. sbind releaseAdmission (\<lambda>_. sreturn x))) s = (Inr res, t)"
      by (auto simp: withAdmission_def dest: transaction_Inr)
    then obtain x1 s1 u where l: "takeAdmissionLock s = (Inr x1, s1)" and m: "m s1 = (Inr res, u)"
      by (fastforce simp: releaseAdmission_def dest!: sbind_eq_InrD)
    from l have "db_placements s1 = db_placements s" by (auto simp: takeAdmissionLock_def assertReadCommitted_def sbind_def split: if_splits)
    with k have "of_tables K s1" by (simp add: of_tables_def)
    from valid_Inr [OF assms this m] show ?thesis .
  qed
qed simp

definition computer_rows :: "string \<Rightarrow> (placement_row \<Rightarrow> bool) \<Rightarrow> placement_row list \<Rightarrow> bool" where
  "computer_rows c Q rows \<longleftrightarrow> (\<forall>x \<in> set rows. of_computer c x \<longrightarrow> Q x)"

lemma past_guard: "(if c then a else m) s = r \<Longrightarrow> a s \<noteq> r \<Longrightarrow> m s = r"
  by (cases c) simp_all

lemma updated_rows:
  assumes "sbind (update_placements P f) k s = (Inr x, t)" and "\<And>rows u. k rows u = (Inr x, t) \<Longrightarrow> u = t"
  shows "db_placements t = update_where (P s) (f s) (db_placements s)"
proof -
  from sbind_eq_InrD [OF assms(1)] obtain rows u where "update_placements P f s = (Inr rows, u)" "k rows u = (Inr x, t)" by blast
  then have u: "u = s\<lparr>db_placements := update_where (P s) (f s) (db_placements s)\<rparr>" and "u = t"
    using assms(2) by (simp_all add: update_placements_def)
  then show ?thesis by simp
qed

lemma write_digest_rows:
  assumes "write_digest c p h ob s = (Inr x, t)" and "y \<in> set (db_placements t)"
  shows "\<exists>z \<in> set (db_placements s). rw_boot y = rw_boot z \<and> rw_computerId y = rw_computerId z"
proof (cases ob)
  case None
  with assms have "t = s" by (simp add: write_digest_def)
  with assms(2) show ?thesis by blast
next
  case (Some da)
  then obtain d at where da: "ob = Some (d, at)" by (cases da) auto
  let ?P = "\<lambda>r. of_computer c r \<and> rw_generation r = pl_generation p \<and> rw_leaseEpoch r = pl_leaseEpoch p \<and>
               bt_enrollConsumedHash (rw_boot r) = Some h \<and> rw_imageJob r = None" and ?f = "\<lambda>r. r\<lparr>rw_imageDigest := Some d, rw_digestAt := at\<rparr>"
  have "sbind (update_placements (\<lambda>_. ?P) (\<lambda>_. ?f)) (\<lambda>rows. if length rows \<noteq> 1 then sthrow Image_job_conflict else sreturn ()) s = (Inr x, t)"
    by (rule past_guard [OF assms(1) [unfolded write_digest_def da option.case prod.case]]) simp
  then have "db_placements t = update_where ?P ?f (db_placements s)"
    by (rule updated_rows) (simp split: if_split_asm)
  with assms(2) obtain z where "z \<in> set (db_placements s)" "y = (if ?P z then ?f z else z)"
    by (simp only: mem_update_where) blast
  then show ?thesis by (cases "?P z") (simp_all, (metis placement_row.simps)+)
qed

lemma past_guards: "(if c then a else if d then b else m) s = r \<Longrightarrow> a s \<noteq> r \<Longrightarrow> b s \<noteq> r \<Longrightarrow> m s = r"
  by (cases c; cases d) simp_all

lemma consume_cas:
  assumes "consumeEnrollmentNonce c e h i v ob s = (Inr (Moved p), t)"
  obtains u where "casInTx c e (ex_state e) no_bump
      (no_fields\<lparr>fd_instanceId := Some (Some i), fd_volumeId := Some (Some v), fd_enrollNonceHash := Some None,
         fd_enrollConsumedHash := Some (Some h), fd_lastError := Some (Some ENROLLMENT_PENDING)\<rparr>)
      (no_guard\<lparr>gd_provider := Some Aws_ec2, gd_enrollNonceHash := Some h, gd_enrollUnexpired := True,
         gd_states := Some ENROLLABLE_STATES, gd_preserveState := True, gd_availableInstanceId := Some i\<rparr>) None False s = (Inr (Moved p), u)"
    "write_digest c p h ob u = (Inr (), t)"
proof -
  let ?cas = "casInTx c e (ex_state e) no_bump
      (no_fields\<lparr>fd_instanceId := Some (Some i), fd_volumeId := Some (Some v), fd_enrollNonceHash := Some None,
         fd_enrollConsumedHash := Some (Some h), fd_lastError := Some (Some ENROLLMENT_PENDING)\<rparr>)
      (no_guard\<lparr>gd_provider := Some Aws_ec2, gd_enrollNonceHash := Some h, gd_enrollUnexpired := True,
         gd_states := Some ENROLLABLE_STATES, gd_preserveState := True, gd_availableInstanceId := Some i\<rparr>) None False"
  from assms have "transaction (sbind ?cas (\<lambda>result. case result of Moved p \<Rightarrow> sbind (write_digest c p h ob) (\<lambda>_. sreturn result) | _ \<Rightarrow> sreturn result)) s
      = (Inr (Moved p), t)"
    unfolding consumeEnrollmentNonce_def by (rule past_guards) simp_all
  from sbind_eq_InrD [OF transaction_Inr [OF this]] obtain res u where cas: "?cas s = (Inr res, u)"
    and w: "(case res of Moved p \<Rightarrow> sbind (write_digest c p h ob) (\<lambda>_. sreturn res) | _ \<Rightarrow> sreturn res) u = (Inr (Moved p), t)" by blast
  from w obtain q where q: "res = Moved q" "sbind (write_digest c q h ob) (\<lambda>_. sreturn (Moved q)) u = (Inr (Moved p), t)"
    by (cases res) auto
  from sbind_eq_InrD [OF q(2)] have "q = p" "write_digest c p h ob u = (Inr (), t)" by auto
  with cas q that show ?thesis by blast
qed

text \<open>C13: Safety. An enrollment nonce is consumed once. When a host's consumption succeeds, the row held that nonce, unexpired by the
  database's clock, in a state that enrolls and with no other instance; and no further consumption for that computer succeeds
  afterwards with the same nonce, whatever epoch, instance, volume and digest it presents.\<close>

theorem enrollment_nonce_single_use:
  assumes inv: "placement_inv s" and run: "consumeEnrollmentNonce c e h i v ob s = (Inr (Moved p), t)"
  shows "(\<exists>r x. r \<in> set (db_placements s) \<and> of_computer c r \<and> bt_enrollNonceHash (rw_boot r) = Some h \<and>
      bt_enrollExpiresAt (rw_boot r) = Some x \<and> db_now s < x * 1000 \<and> (\<exists>st \<in> set ENROLLABLE_STATES. in_state st r) \<and>
      (bt_instanceId (rw_boot r) = None \<or> bt_instanceId (rw_boot r) = Some i)) \<and>
    fst (consumeEnrollmentNonce c e' h i' v' ob' t) \<noteq> Inr (Moved q)"
proof -
  let ?g = "\<lambda>i. no_guard\<lparr>gd_provider := Some Aws_ec2, gd_enrollNonceHash := Some h, gd_enrollUnexpired := True,
         gd_states := Some ENROLLABLE_STATES, gd_preserveState := True, gd_availableInstanceId := Some i\<rparr>"
  let ?f = "no_fields\<lparr>fd_instanceId := Some (Some i), fd_volumeId := Some (Some v), fd_enrollNonceHash := Some None,
         fd_enrollConsumedHash := Some (Some h), fd_lastError := Some (Some ENROLLMENT_PENDING)\<rparr>"
  let ?w = "cas_write s (ex_state e) no_bump ?f (?g i)" and ?P = "cas_matches c e (?g i) (db_now s)"
  obtain u where cas: "casInTx c e (ex_state e) no_bump ?f (?g i) None False s = (Inr (Moved p), u)" and w: "write_digest c p h ob u = (Inr (), t)"
    using consume_cas [OF run] by metis
  from casInTx_Inr [OF cas] obtain r q where one: "filter ?P (db_placements s) = [r]"
    and eff: "applyTransitionUsageInTx q None (s\<lparr>db_placements := update_where ?P ?w (db_placements s)\<rparr>) = (Inr (), u)" by blast
  have r: "r \<in> set (db_placements s)" "?P r" using filter_only [OF one] by blast+
  have rows: "db_placements u = update_where ?P ?w (db_placements s)"
    using usage_effect_shape [of q None "s\<lparr>db_placements := update_where ?P ?w (db_placements s)\<rparr>"] eff by auto
  have gone: "bt_enrollNonceHash (rw_boot x) = None" if x: "x \<in> set (db_placements u)" "of_computer c x" for x
  proof -
    from x(1) rows obtain y where y: "y \<in> set (db_placements s)" "x = (if ?P y then ?w y else y)" by (auto simp: mem_update_where)
    with x(2) have "of_computer c y" by (auto simp: of_computer_def split: if_splits)
    with r y(1) inv placements.uniq_at_most_one have "y = r" by (auto simp: placement_inv_def same_computer_def cas_matches_def of_computer_def)
    with y r show ?thesis by (simp add: cas_write_def set_boot_def)
  qed
  have "fst (consumeEnrollmentNonce c e' h i' v' ob' t) \<noteq> Inr (Moved q')" for q'
  proof
    assume "fst (consumeEnrollmentNonce c e' h i' v' ob' t) = Inr (Moved q')"
    then obtain t' where "consumeEnrollmentNonce c e' h i' v' ob' t = (Inr (Moved q'), t')" by (metis prod.collapse)
    then obtain f u' where "casInTx c e' (ex_state e') no_bump f (?g i') None False t = (Inr (Moved q'), u')" using consume_cas by metis
    from casInTx_Inr [OF this] obtain x where "filter (cas_matches c e' (?g i') (db_now t)) (db_placements t) = [x]" by blast
    from filter_only [OF this] have x: "x \<in> set (db_placements t)" "of_computer c x" "bt_enrollNonceHash (rw_boot x) = Some h"
      by (auto simp: cas_matches_def guard_holds_def)
    from write_digest_rows [OF w x(1)] obtain z where "z \<in> set (db_placements u)" "rw_boot x = rw_boot z" "rw_computerId x = rw_computerId z" by blast
    with gone [of z] x show False by (simp add: of_computer_def)
  qed
  moreover have "\<exists>x. bt_enrollExpiresAt (rw_boot r) = Some x \<and> db_now s < x * 1000"
    using r(2) by (cases "bt_enrollExpiresAt (rw_boot r)") (auto simp: cas_matches_def guard_holds_def)
  ultimately show ?thesis using r by (auto simp: cas_matches_def guard_holds_def no_guard_def)
qed

definition nonce_row :: placement_row where
  "nonce_row = waiting_host\<lparr>rw_boot := (rw_boot waiting_host)\<lparr>bt_enrollNonceHash := Some (replicate 64 CHR ''a''), bt_enrollExpiresAt := Some 1700000000100\<rparr>\<rparr>"

definition nonce_db :: compute_db where
  "nonce_db = no_computers\<lparr>db_placements := [nonce_row]\<rparr>"

lemma nonce_stores: "stores nonce_row (waiting_placement\<lparr>pl_boot := rw_boot nonce_row\<rparr>)"
  using waiting_stores by (auto simp: stores_def in_state_def nonce_row_def)

lemma nonce_inv: "placement_inv nonce_db"
  using nonce_stores by (auto simp: placement_inv_def nonce_db_def no_computers_def usage_ok_def uniq_def well_placed_def waiting_host_def nonce_row_def)

definition first_epoch :: cas_expectation where
  "first_epoch = \<lparr>ex_generation = 1, ex_leaseEpoch = 1, ex_state = PROVISIONING\<rparr>"

lemma nonce_consumed:
  "\<exists>p t. consumeEnrollmentNonce sample_computer first_epoch (replicate 64 CHR ''a'') ''i-1'' ''vol-1'' None nonce_db = (Inr (Moved p), t)"
proof -
  have "case fst (consumeEnrollmentNonce sample_computer first_epoch (replicate 64 CHR ''a'') ''i-1'' ''vol-1'' None nonce_db) of
      Inr (Moved p) \<Rightarrow> True | _ \<Rightarrow> False"
    by code_simp
  then show ?thesis by (auto split: sum.splits TransitionResult.splits intro: prod_eqI simp: fst_def split: prod.splits)
qed

theorem enrollment_nonce_single_use_witness:
  "\<exists>p t. consumeEnrollmentNonce sample_computer first_epoch (replicate 64 CHR ''a'') ''i-1'' ''vol-1'' None nonce_db = (Inr (Moved p), t) \<and>
    fst (consumeEnrollmentNonce sample_computer (first_epoch\<lparr>ex_leaseEpoch := 2\<rparr>) (replicate 64 CHR ''a'') ''i-2'' ''vol-2'' None t) \<noteq> Inr (Moved p)"
  using nonce_consumed enrollment_nonce_single_use [OF nonce_inv] by metis

subsection \<open>A timestamp finer than the snapshots\<close>

definition fine_stamp :: "string \<Rightarrow> placement_row list \<Rightarrow> bool" where
  "fine_stamp c = computer_rows c (\<lambda>x. rw_updatedAt x mod 1000 \<noteq> 0)"

lemma fine_blocks:
  assumes "gd_updatedAt g = Some n"
  shows "valid (of_tables (fine_stamp c)) (casInTx c e st b f g us False) (\<lambda>res _. res = Cas_conflict) any_outcome"
  by (rule cas_blocked) (use assms in \<open>auto simp: of_tables_def fine_stamp_def computer_rows_def cas_matches_def guard_holds_def\<close>)

lemma valid_case_result:
  "(\<And>p. valid (P (Moved p)) (f p) Q E) \<Longrightarrow> valid (P Cas_conflict) a Q E \<Longrightarrow> valid (P Illegal_transition) b Q E \<Longrightarrow>
     valid (P r) (case r of Moved p \<Rightarrow> f p | Cas_conflict \<Rightarrow> a | Illegal_transition \<Rightarrow> b) Q E"
  by (cases r) auto

lemma fine_stall:
  assumes "\<And>s x t. stalled s = (Inr x, t) \<Longrightarrow> db_placements t = db_placements s"
  shows "valid (of_tables (fine_stamp (pl_computerId q))) (failStalledPoolEnrollment q stalled retire) (\<lambda>res _. res = Cas_conflict) any_outcome"
proof -
  have st: "valid (of_tables K) stalled (\<lambda>_. of_tables K) any_outcome" for K
    by (rule valid_still) (simp add: assms of_tables_def)
  have cas: "valid (of_tables (fine_stamp (pl_computerId q)))
    (sbind (casInTx (pl_computerId q) (expect q) st b f (g\<lparr>gd_updatedAt := Some (pl_updatedAt q)\<rparr>) None False)
      (\<lambda>result. case result of Moved _ \<Rightarrow> sbind retire (\<lambda>_. sreturn result) | _ \<Rightarrow> sreturn result)) (\<lambda>res _. res = Cas_conflict) any_outcome" for st b f g
    by (rule valid_bind [OF fine_blocks]) (auto simp: valid_def split: TransitionResult.splits)
  show ?thesis
    unfolding failStalledPoolEnrollment_def Let_def
    by (intro triple admission_rows valid_bind [OF reads_rows(1)] valid_bind [OF reads_rows(3)] valid_bind [OF reads_rows(4)] valid_bind [OF st] cas) simp_all
qed

text \<open>C37: Error behaviour. The nonce of a pool claim stamps its row with the database's clock as it is, to the microsecond, while
  every snapshot the application holds is in whole milliseconds and the swaps compare the stamp exactly. After such a write (at least a
  millisecond after the previous one, at a clock that is not a whole millisecond) no snapshot of that computer whatsoever
  can fail its stalled enrollment: every attempt, current snapshots included, ends in a conflict.\<close>

theorem pool_nonce_blocks_stall:
  assumes saved: "savePoolEnrollmentNonce clock p h x s = (Inr True, t)" and inv: "placement_inv s" and fine: "clock mod 1000 \<noteq> 0"
    and later: "\<And>r. r \<in> set (db_placements s) \<Longrightarrow> of_computer (pl_computerId p) r \<Longrightarrow> rw_updatedAt r + 1000 \<le> clock"
    and reads: "\<And>a b c. stalled a = (Inr b, c) \<Longrightarrow> db_placements c = db_placements a"
    and same: "toLowerCase (pl_computerId q) = toLowerCase (pl_computerId p)"
    and run: "failStalledPoolEnrollment q stalled retire t = (Inr res, u)"
  shows "res = Cas_conflict"
proof -
  let ?P = "\<lambda>r. of_computer (pl_computerId p) r \<and> rw_generation r = pl_generation p \<and> rw_leaseEpoch r = pl_leaseEpoch p \<and>
        bt_instanceId (rw_boot r) \<noteq> None \<and> bt_instanceId (rw_boot r) = bt_instanceId (pl_boot p) \<and>
        bt_enrollConsumedHash (rw_boot r) = None \<and> bt_enrollNonceHash (rw_boot r) = None"
    and ?f = "\<lambda>r. r\<lparr>rw_boot := (rw_boot r)\<lparr>bt_enrollNonceHash := Some h, bt_enrollExpiresAt := Some x\<rparr>,
        rw_updatedAt := max (rw_updatedAt r + 1000) clock\<rparr>"
  from saved have one: "length (filter ?P (db_placements s)) = 1" and "t = s\<lparr>db_placements := update_where ?P ?f (db_placements s)\<rparr>"
    unfolding savePoolEnrollmentNonce_def by (auto simp only: sbind_def update_placements_def sreturn_def prod.case sum.case prod.inject sum.inject length_map)
  then have t: "db_placements t = update_where ?P ?f (db_placements s)" by simp
  from one obtain r where r: "filter ?P (db_placements s) = [r]" by (auto simp only: length_Suc_conv One_nat_def length_0_conv)
  have rin: "r \<in> set (db_placements s)" "?P r" using filter_only [OF r] by blast+
  have "rw_updatedAt y mod 1000 \<noteq> 0" if y: "y \<in> set (db_placements t)" "of_computer (pl_computerId q) y" for y
  proof -
    from y(1) t obtain z where z: "z \<in> set (db_placements s)" "y = (if ?P z then ?f z else z)" by (simp only: mem_update_where) blast
    from z(2) have "rw_computerId y = rw_computerId z" by (split if_split_asm) simp_all
    with y(2) same have "of_computer (pl_computerId p) z" by (simp add: of_computer_def)
    with rin z(1) inv placements.uniq_at_most_one have "z = r" by (auto simp: placement_inv_def same_computer_def of_computer_def)
    with z rin have "y = ?f r" by metis
    moreover have "max (rw_updatedAt r + 1000) clock = clock" using later [OF rin(1)] rin(2) by simp
    ultimately show ?thesis using fine by simp
  qed
  then have "of_tables (fine_stamp (pl_computerId q)) t" by (simp add: of_tables_def fine_stamp_def computer_rows_def)
  from valid_Inr [OF fine_stall this run] reads show ?thesis by blast
qed

definition saved_db :: "int \<Rightarrow> compute_db" where
  "saved_db clock = snd (savePoolEnrollmentNonce clock waiting_placement (replicate 64 CHR ''a'') 1700000000100 waiting_db)"

definition read_record :: "compute_db \<Rightarrow> Placement" where
  "read_record s = (case readPlacement sample_computer None s of (Inr x, _) \<Rightarrow> the (rp_record x) | _ \<Rightarrow> waiting_placement)"

definition stall_result :: "compute_db \<Rightarrow> bool option" where
  "stall_result s = (case fst (failStalledPoolEnrollment (read_record s) (sreturn True) (sreturn ()) s) of
     Inr (Moved p) \<Rightarrow> Some True | Inr Cas_conflict \<Rightarrow> Some False | _ \<Rightarrow> None)"

lemma sample_stalls: "stall_result (saved_db 1700000000000000) = Some True"
  by code_simp

theorem pool_nonce_blocks_stall_witness:
  "stall_result (saved_db 1700000000000123) = Some False \<and> stall_result (saved_db 1700000000000000) = Some True"
proof -
  let ?t = "saved_db 1700000000000123"
  have saved: "savePoolEnrollmentNonce 1700000000000123 waiting_placement (replicate 64 CHR ''a'') 1700000000100 waiting_db = (Inr True, ?t)"
    by (simp add: saved_db_def savePoolEnrollmentNonce_def sbind_def update_placements_def waiting_db_def no_computers_def)
       (simp add: waiting_host_def waiting_placement_def of_computer_def no_boot_def)
  have ok: "case fst (failStalledPoolEnrollment (read_record ?t) (sreturn True) (sreturn ()) ?t) of Inr _ \<Rightarrow> True | Inl _ \<Rightarrow> False"
    by code_simp
  obtain res u where run: "failStalledPoolEnrollment (read_record ?t) (sreturn True) (sreturn ()) ?t = (Inr res, u)"
    using ok by (cases "failStalledPoolEnrollment (read_record ?t) (sreturn True) (sreturn ()) ?t") (auto split: sum.splits)
  have "toLowerCase (pl_computerId (read_record ?t)) = toLowerCase (pl_computerId waiting_placement)"
    by code_simp
  from pool_nonce_blocks_stall [OF saved waiting_inv _ _ _ this run] have "res = Cas_conflict"
    by (auto simp: waiting_db_def no_computers_def waiting_host_def)
  then have "stall_result ?t = Some False" by (simp add: stall_result_def run)
  with sample_stalls show ?thesis by simp
qed

end
