(* ===== verification/Admission_Props.thy ===== *)
theory Admission_Props
  imports Placement_Props
begin

text \<open>
  What an admission guarantees: after it, the vCPUs that run or are promised fit the global cap and the region's, and the user
  has no other computer on AWS. The counters are shown to be the sums over the capacity rows, and the write of an
  admission adds no more than the vCPUs it was decided for.
\<close>

subsection \<open>Loads\<close>

text \<open>The weight of the capacity rows, for a measure of one row.\<close>

definition load :: "(capacity_row \<Rightarrow> int) \<Rightarrow> compute_db \<Rightarrow> int" where
  "load w s = sum_list (map w (CAPACITY_PLACEMENTS s))"

definition vcpu_weight :: "(capacity_row \<Rightarrow> bool) \<Rightarrow> capacity_row \<Rightarrow> int" where
  "vcpu_weight P c = (if runs c \<and> P c then instanceVcpu (cr_instanceType c) else 0)"

lemma instanceVcpu_pos: "0 \<le> instanceVcpu t"
  by (auto simp: instanceVcpu_def INSTANCE_VCPU_def map_of_Cons_code split: option.splits if_splits)

lemma vcpu_weight_nonneg: "0 \<le> vcpu_weight P c"
  by (simp add: vcpu_weight_def instanceVcpu_pos)

lemma vcpu_of_filter: "vcpu_of (filter (\<lambda>c. runs c \<and> P c) cs) = sum_list (map (vcpu_weight P) cs)"
  by (induction cs) (simp_all add: vcpu_of_def vcpu_weight_def)

lemma vcpu_running: "vcpu_of (filter P (running_rows s)) = load (vcpu_weight P) s"
  by (simp add: running_rows_def load_def vcpu_of_filter)

lemma load_split: "load w s = sum_list (map (\<lambda>r. w (placement_capacity r)) (db_placements s)) +
    sum_list (map (\<lambda>m. w (migration_capacity m)) (filter (reserves_capacity s) (mv_rows (db_moves s))))"
  by (simp add: load_def CAPACITY_PLACEMENTS_def comp_def)

lemma sum_fewer: "(\<And>x. 0 \<le> w x) \<Longrightarrow> (\<And>x. x \<in> set xs \<Longrightarrow> P x \<Longrightarrow> Q x) \<Longrightarrow>
    sum_list (map w (filter P xs)) \<le> (sum_list (map w (filter Q xs)) :: int)"
  by (induction xs) (auto simp: add_increasing add_mono)

lemma load_created:
  assumes "\<And>c. 0 \<le> w c" and "db_placements t = db_placements s @ [r]" and "db_moves t = db_moves s"
  shows "load w t \<le> load w s + w (placement_capacity r)"
proof -
  have "sum_list (map (\<lambda>m. w (migration_capacity m)) (filter (reserves_capacity t) (mv_rows (db_moves s)))) \<le>
      sum_list (map (\<lambda>m. w (migration_capacity m)) (filter (reserves_capacity s) (mv_rows (db_moves s))))"
    by (rule sum_fewer) (use assms in \<open>auto simp: reserves_capacity_def\<close>)
  then show ?thesis using assms(2,3) by (simp add: load_split)
qed

lemma sum_written:
  assumes "filter P rows = [r]" and "uniq same_computer rows"
  shows "sum_list (map g (update_where P f rows)) = sum_list (map g rows) - g r + (g (f r) :: int)"
  using assms
proof (induction rows)
  case (Cons x rows)
  note n = Cons.prems(2) [unfolded uniq_Cons]
  show ?case
  proof (cases "P x")
    case True
    then have e: "x = r" "filter P rows = []" using Cons.prems(1) by simp_all
    then have "update_where P f rows = rows" by (intro update_where_none) (simp add: filter_empty_conv)
    then have "update_where P f (x # rows) = f x # rows" using True by (simp add: update_where_def)
    with e show ?thesis by simp
  next
    case False
    then have "filter P rows = [r]" using Cons.prems(1) by simp
    moreover have "update_where P f (x # rows) = x # update_where P f rows" using False by (simp add: update_where_def)
    ultimately show ?thesis using Cons.IH n by simp
  qed
qed simp

lemma reserves_written:
  assumes t: "db_placements t = update_where P f (db_placements s)"
    and f: "\<And>x. rw_computerId (f x) = rw_computerId x" "\<And>x. is_aws (f x) = is_aws x"
  shows "reserves_capacity t = reserves_capacity s"
proof -
  have "(\<exists>x \<in> set (db_placements t). rw_computerId x = c \<and> is_aws x) \<longleftrightarrow> (\<exists>x \<in> set (db_placements s). rw_computerId x = c \<and> is_aws x)" for c
    using f unfolding t update_where_def by (simp only: set_map bex_simps if_distrib [of rw_computerId] if_distrib [of is_aws] if_cancel)
  then show ?thesis by (simp add: reserves_capacity_def fun_eq_iff)
qed

lemma load_written:
  assumes one: "filter P (db_placements s) = [r]" and uq: "uniq same_computer (db_placements s)"
    and t: "db_placements t = update_where P f (db_placements s)" "db_moves t = db_moves s"
    and f: "\<And>x. rw_computerId (f x) = rw_computerId x" "\<And>x. is_aws (f x) = is_aws x"
  shows "load w t = load w s - w (placement_capacity r) + w (placement_capacity (f r))"
  using reserves_written [OF t(1) f] t sum_written [OF one uq, of "\<lambda>r. w (placement_capacity r)" f] by (simp add: load_split)

subsection \<open>Figures per region\<close>

lemma figure_set: "figure_at k (map_set j n m) = (if k = j then n else figure_at k m)"
  by (auto simp: figure_at_def map_of_map_set)

lemma figure_add: "distinct (map fst ds) \<Longrightarrow> figure_at k (add_figures ds m) = figure_at k m + figure_at k ds"
proof (induction ds m rule: add_figures.induct)
  case (2 j n ds m)
  then have "figure_at k (add_figures ((j, n) # ds) m) = (if k = j then figure_at j m + n else figure_at k m) + figure_at k ds"
    by (simp add: figure_set)
  moreover have "k = j \<Longrightarrow> figure_at k ds = 0" using 2(2) by (simp add: figure_at_def map_of_eq_None_iff split: option.split) (metis fst_conv image_eqI map_of_SomeD)
  ultimately show ?case by (auto simp: figure_at_def)
qed (simp add: figure_at_def)

lemma map_of_image: "map_of (map (\<lambda>r. (r, g r)) ks) k = (if k \<in> set ks then Some (g k) else None)"
  by (induction ks) auto

lemma figure_region:
  assumes "fig [] = 0"
  shows "figure_at k (per_region region fig cs) = fig (filter (\<lambda>c. region c = Some k) cs)"
proof (cases "k \<in> set (List.map_filter region cs)")
  case True
  then show ?thesis by (simp add: figure_at_def per_region_def map_of_image)
next
  case False
  then have "filter (\<lambda>c. region c = Some k) cs = []" by (force simp: filter_empty_conv List.map_filter_def)
  with False assms show ?thesis by (simp add: figure_at_def per_region_def map_of_image)
qed

lemma region_distinct: "distinct (map fst (per_region region fig cs))"
  by (simp add: per_region_def comp_def)

subsection \<open>What the counters are\<close>

text \<open>The vCPUs that run or are promised to others, when the computer \<open>c\<close> asks: all of them, and those that may be in a region.\<close>

definition vcpu_in_use :: "compute_db \<Rightarrow> string \<Rightarrow> int" where
  "vcpu_in_use s c = vcpu_of (running_rows s) + demand_vcpu (filter (active_demand s c) (db_demands s))"

definition vcpu_in_region :: "compute_db \<Rightarrow> string \<Rightarrow> string \<Rightarrow> int" where
  "vcpu_in_region s c h = vcpu_of (filter (\<lambda>x. cr_region x = Some h \<or> cr_region x = None) (running_rows s)) +
     demand_vcpu (filter (\<lambda>d. active_demand s c d \<and> dm_region d = h) (db_demands s))"

abbreviation anywhere :: "capacity_row \<Rightarrow> bool" where "anywhere \<equiv> \<lambda>_. True"

abbreviation near :: "string \<Rightarrow> capacity_row \<Rightarrow> bool" where
  "near h \<equiv> \<lambda>x. cr_region x = Some h \<or> cr_region x = None"

lemma in_use_load: "vcpu_in_use s c = load (vcpu_weight anywhere) s + demand_vcpu (filter (active_demand s c) (db_demands s))"
  using vcpu_running [of anywhere s] by (simp add: vcpu_in_use_def)

lemma in_region_load: "vcpu_in_region s c h = load (vcpu_weight (near h)) s + demand_vcpu (filter (\<lambda>d. active_demand s c d \<and> dm_region d = h) (db_demands s))"
  using vcpu_running [of "near h" s] by (simp add: vcpu_in_region_def)

lemma counted_all: "ac_runningVcpu (count_all u c now target s) = Some (vcpu_in_use s c)"
  by (simp add: count_all_def vcpu_in_use_def Let_def)

lemma vcpu_near: "vcpu_of (filter (near h) cs) = vcpu_of (filter (\<lambda>x. cr_region x = Some h) cs) + vcpu_of (filter (\<lambda>x. cr_region x = None) cs)"
  by (induction cs) (auto simp: vcpu_of_def)

lemma counted_region: "regionRunningVcpu (count_all u c now target s) h = vcpu_in_region s c h"
proof -
  have "figure_at h (per_region (\<lambda>d. Some (dm_region d)) demand_vcpu ds) = demand_vcpu (filter (\<lambda>d. dm_region d = h) ds)" for ds
    by (subst figure_region) (simp_all add: demand_vcpu_def)
  moreover have "figure_at h (per_region cr_region vcpu_of cs) = vcpu_of (filter (\<lambda>c. cr_region c = Some h) cs)" for cs
    by (subst figure_region) (simp_all add: vcpu_of_def)
  ultimately show ?thesis
    by (simp add: regionRunningVcpu_def count_all_def Let_def figure_add region_distinct or_else_def vcpu_in_region_def vcpu_near conj_commute)
qed

definition none_other :: "compute_db \<Rightarrow> string \<Rightarrow> string \<Rightarrow> bool" where
  "none_other s u c \<longleftrightarrow> (\<forall>x \<in> set (CAPACITY_PLACEMENTS s). \<not> counts_for_user u c s x)"

lemma counted_other: "ac_userOtherAwsComputers (count_all u c now target s) < 1 \<Longrightarrow> none_other s u c"
proof -
  assume a: "ac_userOtherAwsComputers (count_all u c now target s) < 1"
  have "0 \<le> count_of (filter (\<lambda>d. dm_ownerUserId d = u) (filter (active_demand s c) (db_demands s)))" by (simp add: count_of_def)
  with a have "count_of (remdups (map cr_computerId (filter (counts_for_user u c s) (CAPACITY_PLACEMENTS s)))) < 1"
    by (simp add: count_all_def Let_def)
  then have "set (remdups (map cr_computerId (filter (counts_for_user u c s) (CAPACITY_PLACEMENTS s)))) = {}" by (simp add: count_of_def)
  then show ?thesis by (auto simp: none_other_def)
qed

subsection \<open>What the decision says\<close>

lemma refuse_if_Nil [simp]: "refuse_if b r = [] \<longleftrightarrow> \<not> b"
  by (simp add: refuse_if_def)

lemma decided:
  assumes "decideAdmission (Aws_on kill caps regions) c u plan ty = Admitted_to reg"
  shows "\<not> kill" "\<not> ac_targetDeleted c" "\<not> not_caller u c" "ac_userOtherAwsComputers c < 1"
    "or_else (ac_runningVcpu c) (ac_runningCount c * 8) + instanceVcpu ty \<le> cap_maxRunning caps * 2"
    "region_refusals regions c (instanceVcpu ty) plan = ([], reg)"
proof -
  have "\<not> kill \<and> \<not> ac_targetDeleted c \<and> \<not> not_caller u c \<and> ac_userOtherAwsComputers c < 1 \<and>
    or_else (ac_runningVcpu c) (ac_runningCount c * 8) + instanceVcpu ty \<le> cap_maxRunning caps * 2 \<and>
    fst (region_refusals regions c (instanceVcpu ty) plan) = [] \<and> snd (region_refusals regions c (instanceVcpu ty) plan) = reg"
    using assms by (simp add: decideAdmission_def Let_def split: if_split_asm)
  then show "\<not> kill" "\<not> ac_targetDeleted c" "\<not> not_caller u c" "ac_userOtherAwsComputers c < 1"
    "or_else (ac_runningVcpu c) (ac_runningCount c * 8) + instanceVcpu ty \<le> cap_maxRunning caps * 2"
    "region_refusals regions c (instanceVcpu ty) plan = ([], reg)" by (simp_all add: prod_eq_iff)
qed

lemma region_fits:
  assumes "region_refusals regions c v (Some plan) = ([], reg)"
  shows "\<exists>r \<in> set regions. reg = Some (rg_name r) \<and> regionRunningVcpu c (rg_name r) + v \<le> rg_maxRunning r * 2 \<and>
    (\<forall>home. plan = Plan_lease home \<longrightarrow> home = Some (rg_name r))"
proof (cases plan)
  case Plan_create
  with assms show ?thesis
    by (auto simp: region_refusals_def find_Some_iff split: option.split_asm)
next
  case (Plan_lease home)
  with assms show ?thesis
    by (auto simp: region_refusals_def find_Some_iff split: option.split_asm if_split_asm)
qed

subsection \<open>The steps of an admission\<close>

definition same_tables :: "compute_db \<Rightarrow> compute_db \<Rightarrow> bool" where
  "same_tables s t \<longleftrightarrow> db_placements t = db_placements s \<and> db_moves t = db_moves s \<and> db_usage t = db_usage s \<and> db_demands t = db_demands s"

lemma same_tables_refl: "same_tables s s" and same_tables_trans: "same_tables a b \<Longrightarrow> same_tables b c \<Longrightarrow> same_tables a c"
  by (simp_all add: same_tables_def)

lemma read_still: "readPlacement c ou s = (Inr x, t) \<Longrightarrow> t = s"
  by (auto simp: readPlacement_def Let_def sbind_def selectRows_def assertNoImageReservation_def split: list.splits if_splits sum.splits prod.splits)

lemma read_record_row:
  assumes "placement_inv s" and "readPlacement c ou s = (Inr x, t)" and "rp_record x = Some p"
  shows "\<exists>r. filter (of_computer c) (db_placements s) = [r] \<and> stores r p"
proof -
  from rows_of_one(2) [OF assms(1), of c] show ?thesis
  proof (elim disjE exE conjE)
    assume "filter (of_computer c) (db_placements s) = []"
    with assms(2,3) show ?thesis
      by (auto simp: readPlacement_def Let_def sbind_def selectRows_def lower_rows assertNoImageReservation_def DEFAULT_PLACEMENT_def split: if_splits)
  next
    fix r q assume r: "filter (of_computer c) (db_placements s) = [r]" "stores r q" "toLowerCase (rw_computerId r) = toLowerCase c"
    then have "parsePlacementRow r (toLowerCase c) = Inr q" by (simp add: parse_iff)
    with assms(2,3) r have "q = p"
      by (auto simp: readPlacement_def Let_def sbind_def selectRows_def lower_rows assertNoImageReservation_def split: if_splits)
    with r show ?thesis by blast
  qed
qed

lemma assert_still: "assertAdmissionLock s = (Inr x, t) \<Longrightarrow> t = s"
  by (auto simp: assertAdmissionLock_def split: if_splits)

lemma counters_step:
  assumes "readAdmissionCounters u c now s = (Inr k, t)"
  shows "same_tables s t" and "\<exists>target. k = count_all (toLowerCase u) (toLowerCase c) now target s"
proof -
  from sbind_eq_InrD [OF assms [unfolded readAdmissionCounters_def]] obtain y s1 where "assertAdmissionLock s = (Inr y, s1)"
    and r: "sbind (readCounters u c now) (\<lambda>counters s. (Inr counters, s\<lparr>adm_counted := Some (toLowerCase c)\<rparr>)) s1 = (Inr k, t)" by blast
  then have "s1 = s" by (blast dest: assert_still)
  from sbind_eq_InrD [OF r] obtain k' s2 where k: "readCounters u c now s1 = (Inr k', s2)" "(Inr k', s2\<lparr>adm_counted := Some (toLowerCase c)\<rparr>) = (Inr k, t)" by blast
  from sbind_eq_InrD [OF k(1) [unfolded readCounters_def]] obtain x s3 where "readPlacement c None s1 = (Inr x, s3)"
    "sget (count_all (toLowerCase u) (toLowerCase c) now (rp_record x)) s3 = (Inr k' :: compute_error + AdmissionCounters, s2)" by blast
  with read_still have "s2 = s1" "k' = count_all (toLowerCase u) (toLowerCase c) now (rp_record x) s1" by (auto dest: read_still)
  with k(2) \<open>s1 = s\<close> show "same_tables s t" "\<exists>target. k = count_all (toLowerCase u) (toLowerCase c) now target s"
    by (auto simp: same_tables_def)
qed

lemma mint_step: "mintAdmissionTicket c u kind s = (Inr i, t) \<Longrightarrow> same_tables s t"
  by (auto simp: mintAdmissionTicket_def same_tables_def sbind_def assertAdmissionLock_def split: if_splits)

lemma consume_step: "consumeTicket i c u kind s = (Inr x, t) \<Longrightarrow> same_tables s t"
  by (auto simp: consumeTicket_def same_tables_def split: if_splits)

lemma create_step:
  assumes "createAwsPlacement i c u f s = (Inr res, t)"
  shows "\<exists>s'. same_tables s s' \<and> createInTx c u Aws_ec2 PROVISIONING f False s' = (Inr res, t)"
proof -
  from sbind_eq_InrD [OF assms [unfolded createAwsPlacement_def]] obtain y s1 where "assertAdmissionLock s = (Inr y, s1)"
    and r: "sbind (consumeTicket i c u For_create) (\<lambda>_. createInTx c u Aws_ec2 PROVISIONING f False) s1 = (Inr res, t)" by blast
  then have "s1 = s" by (blast dest: assert_still)
  with sbind_eq_InrD [OF r] consume_step show ?thesis by blast
qed

lemma lease_step:
  assumes "leasePlacement i c u g e until replace resize f s = (Inr (Moved p), t)"
  shows "\<exists>s' x from_state gd bump. same_tables s s' \<and> readPlacement c None s' = (Inr x, s') \<and>
    (\<not> gd_preserveState gd \<and> gd_confirmedGeneration gd = None \<and> gd_ownerUserId gd = Some u) \<and>
    casInTx c \<lparr>ex_generation = g, ex_leaseEpoch = e, ex_state = from_state\<rparr> LEASED bump (lease_fields (rp_record x) until replace resize f) gd None False s'
      = (Inr (Moved p), t)"
proof -
  let ?recover = "\<lambda>found. replace \<and> (case rp_record found of None \<Rightarrow> False
       | Some p \<Rightarrow> pl_state p = UNCONFIRMED \<and> bt_lastError (pl_boot p) = Some ENROLLMENT_FAILED)"
  let ?from = "\<lambda>found. if ?recover found then UNCONFIRMED else if truthy resize \<and> map_option pl_state (rp_record found) = Some RUNNING then RUNNING else STOPPED"
  let ?gd = "\<lambda>found. no_guard\<lparr>gd_provider := Some Aws_ec2, gd_ownerUserId := Some u,
       gd_lastError := (if ?recover found then Some (Some ENROLLMENT_FAILED) else None)\<rparr>"
  let ?cas = "\<lambda>found. casInTx c \<lparr>ex_generation = g, ex_leaseEpoch = e, ex_state = ?from found\<rparr> LEASED
       \<lparr>bp_generation = (if replace then 1 else 0), bp_leaseEpoch = 1\<rparr> (lease_fields (rp_record found) until replace resize f) (?gd found) None False"
  let ?k = "\<lambda>found. if (case resize of None \<Rightarrow> False
       | Some t \<Rightarrow> \<not> replace \<or> t = [] \<or> map_option (\<lambda>p. bt_instanceType (pl_boot p)) (rp_record found) = Some (Some t))
     then sreturn Illegal_transition else ?cas found"
  from sbind_eq_InrD [OF assms [unfolded leasePlacement_def Let_def]] obtain y1 s1 where s1: "assertAdmissionLock s = (Inr y1, s1)"
    and r1: "sbind (consumeTicket i c u For_lease) (\<lambda>_. sbind (readPlacement c None) ?k) s1 = (Inr (Moved p), t)" by blast
  from sbind_eq_InrD [OF r1] obtain y2 s2 where s2: "consumeTicket i c u For_lease s1 = (Inr y2, s2)"
    and r2: "sbind (readPlacement c None) ?k s2 = (Inr (Moved p), t)" by blast
  from sbind_eq_InrD [OF r2] obtain x s3 where x: "readPlacement c None s2 = (Inr x, s3)" and r3: "?k x s3 = (Inr (Moved p), t)" by blast
  have s3: "s3 = s2" "same_tables s s2" using x s2 s1 assert_still read_still consume_step by blast+
  have "?cas x s2 = (Inr (Moved p), t)" using past_guard [OF r3] s3 by simp
  moreover have "\<not> gd_preserveState (?gd x) \<and> gd_confirmedGeneration (?gd x) = None \<and> gd_ownerUserId (?gd x) = Some u"
    by (simp add: no_guard_def)
  ultimately show ?thesis using x s3 by blast
qed

subsection \<open>What an admission leaves\<close>

definition fits :: "aws_caps \<Rightarrow> aws_region list \<Rightarrow> Placement \<Rightarrow> compute_db \<Rightarrow> bool" where
  "fits caps regions p t \<longleftrightarrow> vcpu_in_use t (pl_computerId p) \<le> cap_maxRunning caps * 2 \<and>
     (\<exists>r \<in> set regions. bt_region (pl_boot p) = Some (rg_name r) \<and> vcpu_in_region t (pl_computerId p) (rg_name r) \<le> rg_maxRunning r * 2) \<and>
     none_other t (pl_ownerUserId p) (pl_computerId p)"

lemma same_counts:
  assumes "same_tables s t"
  shows "CAPACITY_PLACEMENTS t = CAPACITY_PLACEMENTS s" "load w t = load w s" "active_demand t = active_demand s" "db_demands t = db_demands s"
    "none_other t u c = none_other s u c" "vcpu_in_use t c = vcpu_in_use s c" "vcpu_in_region t c h = vcpu_in_region s c h"
proof -
  have "reserves_capacity t = reserves_capacity s" using assms by (auto simp: reserves_capacity_def same_tables_def fun_eq_iff)
  then show c: "CAPACITY_PLACEMENTS t = CAPACITY_PLACEMENTS s" using assms by (simp add: CAPACITY_PLACEMENTS_def same_tables_def)
  have l: "load w t = load w s" for w using c by (simp add: load_def)
  then show "load w t = load w s" .
  show "active_demand t = active_demand s" using assms by (simp add: active_demand_def db_now_def same_tables_def fun_eq_iff)
  show "db_demands t = db_demands s" using assms by (simp add: same_tables_def)
  have "counts_for_user u c t = counts_for_user u c s" using assms by (simp add: counts_for_user_def same_tables_def fun_eq_iff)
  then show "none_other t u c = none_other s u c" using c by (simp add: none_other_def)
  show "vcpu_in_use t c = vcpu_in_use s c" "vcpu_in_region t c h = vcpu_in_region s c h"
    using l \<open>active_demand t = active_demand s\<close> \<open>db_demands t = db_demands s\<close>
    by (simp_all add: in_use_load in_region_load)
qed

lemma weight_le: "vcpu_weight P c \<le> instanceVcpu (cr_instanceType c)"
  by (simp add: vcpu_weight_def instanceVcpu_pos)

text \<open>The loads bound both figures, whatever the write added.\<close>

lemma fitsI:
  assumes n: "\<And>P. load (vcpu_weight P) t \<le> load (vcpu_weight P) s - own P + v"
    and d: "active_demand t = active_demand s" "db_demands t = db_demands s"
    and all: "vcpu_in_use s (pl_computerId p) - own anywhere + v \<le> cap_maxRunning caps * 2"
    and region: "r \<in> set regions" "bt_region (pl_boot p) = Some (rg_name r)"
      "vcpu_in_region s (pl_computerId p) (rg_name r) - own (near (rg_name r)) + v \<le> rg_maxRunning r * 2"
    and "none_other t (pl_ownerUserId p) (pl_computerId p)"
  shows "fits caps regions p t"
  unfolding fits_def
proof (intro conjI bexI [of _ r])
  show "vcpu_in_use t (pl_computerId p) \<le> cap_maxRunning caps * 2"
    using n [of anywhere] all d by (simp add: in_use_load)
  show "vcpu_in_region t (pl_computerId p) (rg_name r) \<le> rg_maxRunning r * 2"
    using n [of "near (rg_name r)"] region d by (simp add: in_region_load)
qed fact+

lemma none_other_kept:
  assumes "none_other s u c" and "db_usage t = db_usage s" and "db_moves t = db_moves s"
    and rows: "\<And>x. x \<in> set (db_placements t) \<Longrightarrow> rw_computerId x \<noteq> c \<Longrightarrow> x \<in> set (db_placements s)"
    and fewer: "\<And>m. reserves_capacity t m \<Longrightarrow> reserves_capacity s m"
  shows "none_other t u c"
proof -
  have "\<not> counts_for_user u c t x" if "x \<in> set (CAPACITY_PLACEMENTS t)" for x
  proof (cases "cr_computerId x = c")
    case False
    with that rows fewer assms(3) have "x \<in> set (CAPACITY_PLACEMENTS s)"
      by (auto simp: CAPACITY_PLACEMENTS_def placement_capacity_def)
    with assms(1,2) show ?thesis by (auto simp: none_other_def counts_for_user_def)
  qed (simp add: counts_for_user_def)
  then show ?thesis by (simp add: none_other_def)
qed

lemma admit_create_fits:
  assumes run: "admit_create (Aws_on kill caps regions) now q s = (Inr (Admitted p), t)"
  shows "fits caps regions p t \<and> \<not> kill"
proof -
  let ?c = "toLowerCase (cq_computerId q)" and ?u = "toLowerCase (cq_userId q)" and ?ty = "instanceTypeForTier (cq_tier q)"
  let ?own = "\<lambda>region. (case cq_fieldsFor q of None \<Rightarrow> cq_fields q | Some f \<Rightarrow> merge_fields (cq_fields q) (f (the region)))"
  let ?f = "\<lambda>region. (?own region)\<lparr>fd_region := Some (Some (the region)), fd_instanceType := Some (Some ?ty)\<rparr>"
  from sbind_eq_InrD [OF run [unfolded admit_create_def Let_def]] obtain counters s1
    where k: "readAdmissionCounters (cq_userId q) (cq_computerId q) now s = (Inr counters, s1)"
      and r1: "(case decideAdmission (Aws_on kill caps regions) counters (cq_userId q) (Some Plan_create) (Some ?ty) of
        Refused_for rs \<Rightarrow> sreturn (refused rs)
      | Admitted_to region \<Rightarrow> sbind (mintAdmissionTicket (cq_computerId q) (cq_userId q) For_create) (\<lambda>ticket.
          sbind (createAwsPlacement ticket (cq_computerId q) (cq_userId q) (?f region)) (\<lambda>result.
            case result of Created p \<Rightarrow> sreturn (Admitted p) | Placement_exists \<Rightarrow> sreturn (Unadmitted Exists_already [])))) s1 = (Inr (Admitted p), t)"
    by blast
  from r1 obtain reg where dec: "decideAdmission (Aws_on kill caps regions) counters (cq_userId q) (Some Plan_create) (Some ?ty) = Admitted_to reg"
    by (auto simp: refused_def split: AdmissionDecision.splits)
  from sbind_eq_InrD [OF r1 [unfolded dec AdmissionDecision.case]] obtain i s2 where m: "mintAdmissionTicket (cq_computerId q) (cq_userId q) For_create s1 = (Inr i, s2)"
    and r2: "sbind (createAwsPlacement i (cq_computerId q) (cq_userId q) (?f reg)) (\<lambda>result.
            case result of Created p \<Rightarrow> sreturn (Admitted p) | Placement_exists \<Rightarrow> sreturn (Unadmitted Exists_already [])) s2 = (Inr (Admitted p), t)" by blast
  from sbind_eq_InrD [OF r2] obtain res s3 where "createAwsPlacement i (cq_computerId q) (cq_userId q) (?f reg) s2 = (Inr res, s3)"
    "(case res of Created p \<Rightarrow> sreturn (Admitted p) | Placement_exists \<Rightarrow> sreturn (Unadmitted Exists_already [])) s3 = (Inr (Admitted p) :: compute_error + AdmissionOutcome, t)" by blast
  then have cr: "createAwsPlacement i (cq_computerId q) (cq_userId q) (?f reg) s2 = (Inr (Created p), t)" by (cases res) auto
  from create_step [OF cr] obtain s' where s': "same_tables s2 s'" "createInTx (cq_computerId q) (cq_userId q) Aws_ec2 PROVISIONING (?f reg) False s' = (Inr (Created p), t)"
    by blast
  have same: "same_tables s s'" using counters_step(1) [OF k] mint_step [OF m] s'(1) same_tables_trans by blast
  obtain target where cnt: "counters = count_all ?u ?c now target s" using counters_step(2) [OF k] by blast
  let ?r = "new_placement s' ?c ?u Aws_ec2 PROVISIONING (?f reg)"
  from createInTx_Inr [OF s'(2)] have p: "parsePlacementRow ?r ?c = Inr p" and t: "t = s'\<lparr>db_placements := db_placements s' @ [?r]\<rparr>" by auto
  from p have st: "stores ?r p" by (simp add: parse_iff)
  have id: "pl_computerId p = ?c" "pl_ownerUserId p = ?u" "bt_region (pl_boot p) = Some (the reg)"
    using st by (auto simp: stores_def new_placement_def set_boot_def)
  note dd = decided [OF dec]
  from region_fits [OF dd(6)] obtain g where g: "g \<in> set regions" "reg = Some (rg_name g)"
    "regionRunningVcpu counters (rg_name g) + instanceVcpu (Some ?ty) \<le> rg_maxRunning g * 2" by blast
  have "fits caps regions p t"
  proof (rule fitsI [where s = s' and own = "\<lambda>_. 0" and v = "instanceVcpu (Some ?ty)" and r = g])
    show "load (vcpu_weight P) t \<le> load (vcpu_weight P) s' - 0 + instanceVcpu (Some ?ty)" for P
    proof -
      have "load (vcpu_weight P) t \<le> load (vcpu_weight P) s' + vcpu_weight P (placement_capacity ?r)"
        by (rule load_created) (simp_all add: vcpu_weight_nonneg t)
      moreover have "cr_instanceType (placement_capacity ?r) = Some ?ty" by (simp add: placement_capacity_def new_placement_def set_boot_def)
      ultimately show ?thesis using weight_le [of P "placement_capacity ?r"] by simp
    qed
    show "active_demand t = active_demand s'" "db_demands t = db_demands s'" by (simp_all add: t active_demand_def db_now_def fun_eq_iff)
    show "vcpu_in_use s' (pl_computerId p) - 0 + instanceVcpu (Some ?ty) \<le> cap_maxRunning caps * 2"
      using dd(5) cnt id same_counts(6) [OF same] by (simp add: counted_all or_else_def)
    show "vcpu_in_region s' (pl_computerId p) (rg_name g) - 0 + instanceVcpu (Some ?ty) \<le> rg_maxRunning g * 2"
      using g(3) cnt id same_counts(7) [OF same] by (simp add: counted_region)
    show "none_other t (pl_ownerUserId p) (pl_computerId p)"
    proof (rule none_other_kept)
      show "none_other s' (pl_ownerUserId p) (pl_computerId p)"
        using counted_other dd(4) cnt id same_counts(5) [OF same] by simp
      show "\<And>x. x \<in> set (db_placements t) \<Longrightarrow> rw_computerId x \<noteq> pl_computerId p \<Longrightarrow> x \<in> set (db_placements s')"
        using t id by (auto simp: new_placement_def)
      show "\<And>m. reserves_capacity t m \<Longrightarrow> reserves_capacity s' m" using t by (auto simp: reserves_capacity_def)
    qed (simp_all add: t)
    show "bt_region (pl_boot p) = Some (rg_name g)" using id g by simp
  qed (fact g)
  with dd(1) show ?thesis by blast
qed

lemma released:
  assumes "bt_region (pl_boot p) = Some h" and "h \<noteq> []"
  shows "vcpu_in_use s c - instanceVcpu (bt_instanceType (pl_boot p)) \<le> or_else (ac_runningVcpu (releaseOwnSlot p (count_all u c now target s))) n"
    and "vcpu_in_region s c h - instanceVcpu (bt_instanceType (pl_boot p)) \<le> regionRunningVcpu (releaseOwnSlot p (count_all u c now target s)) h"
    and "ac_userOtherAwsComputers (releaseOwnSlot p k) = ac_userOtherAwsComputers k"
proof -
  let ?k = "count_all u c now target s"
  show "vcpu_in_use s c - instanceVcpu (bt_instanceType (pl_boot p)) \<le> or_else (ac_runningVcpu (releaseOwnSlot p ?k)) n"
    using assms by (simp add: releaseOwnSlot_def Let_def counted_all or_else_def)
  obtain m where m: "ac_runningVcpuByRegion ?k = Some m" by (simp add: count_all_def Let_def)
  have "regionRunningVcpu (releaseOwnSlot p ?k) h =
      max 0 (figure_at h m - instanceVcpu (bt_instanceType (pl_boot p))) + or_else (ac_runningVcpuUnplaced ?k) (or_else (ac_runningUnplaced ?k) 0 * 8)"
    using assms m by (simp add: releaseOwnSlot_def Let_def regionRunningVcpu_def figure_set)
  moreover have "vcpu_in_region s c h = figure_at h m + or_else (ac_runningVcpuUnplaced ?k) (or_else (ac_runningUnplaced ?k) 0 * 8)"
    using counted_region [of u c now target s h] m by (simp add: regionRunningVcpu_def)
  ultimately show "vcpu_in_region s c h - instanceVcpu (bt_instanceType (pl_boot p)) \<le> regionRunningVcpu (releaseOwnSlot p ?k) h" by simp
qed (use assms in \<open>simp add: releaseOwnSlot_def Let_def\<close>)

lemma lease_boot:
  assumes "\<And>p. cur = Some p \<Longrightarrow> pl_boot p = b"
  shows "bt_region (set_boot mon (lease_fields cur until replace resize f) b) = bt_region b"
    and "bt_instanceType (set_boot mon (lease_fields cur until replace resize f) b) = (case resize of Some t \<Rightarrow> Some t | None \<Rightarrow> bt_instanceType b)"
  using assms by (cases cur; cases resize; simp add: lease_fields_def set_boot_def Let_def)+

text \<open>The lease itself: one row changes, keeps its region and gets the type it was asked for.\<close>

lemma lease_writes:
  assumes inv: "placement_inv s" and run: "leasePlacement i c u g e until replace resize f s = (Inr (Moved p), t)"
    and row: "filter (of_computer c) (db_placements s) = [r]"
  shows "\<exists>s' r'. same_tables s s' \<and> (\<forall>w. load w t = load w s' - w (placement_capacity r) + w (placement_capacity r')) \<and>
    cr_instanceType (placement_capacity r') = (case resize of Some t \<Rightarrow> Some t | None \<Rightarrow> bt_instanceType (rw_boot r)) \<and>
    bt_region (pl_boot p) = bt_region (rw_boot r) \<and> pl_computerId p = toLowerCase c \<and> pl_ownerUserId p = toLowerCase u \<and>
    active_demand t = active_demand s' \<and> db_demands t = db_demands s' \<and>
    (none_other s' (toLowerCase u) (toLowerCase c) \<longrightarrow> none_other t (toLowerCase u) (toLowerCase c))"
proof -
  from lease_step [OF run] obtain s' x st gd bump where s': "same_tables s s'" and x: "readPlacement c None s' = (Inr x, s')"
    and gd: "\<not> gd_preserveState gd" "gd_confirmedGeneration gd = None" "gd_ownerUserId gd = Some u"
    and cas: "casInTx c \<lparr>ex_generation = g, ex_leaseEpoch = e, ex_state = st\<rparr> LEASED bump (lease_fields (rp_record x) until replace resize f) gd None False s'
      = (Inr (Moved p), t)" by blast
  let ?e = "\<lparr>ex_generation = g, ex_leaseEpoch = e, ex_state = st\<rparr>" and ?f = "lease_fields (rp_record x) until replace resize f"
  let ?P = "cas_matches c ?e gd (db_now s')" and ?w = "cas_write s' LEASED bump ?f gd"
  have inv': "placement_inv s'" using inv s' by (simp add: placement_inv_def same_tables_def)
  have row': "filter (of_computer c) (db_placements s') = [r]" using row s' by (simp add: same_tables_def)
  from casInTx_Inr [OF cas] obtain y where one: "filter ?P (db_placements s') = [y]" and p: "stores (?w y) p"
    and eff: "applyTransitionUsageInTx p None (s'\<lparr>db_placements := update_where ?P ?w (db_placements s')\<rparr>) = (Inr (), t)" by auto
  have y: "y \<in> set (db_placements s')" "?P y" using filter_only [OF one] by blast+
  then have "of_computer c y" by (simp add: cas_matches_def)
  with y filter_only [OF row'] have "y = r" by blast
  have "pl_state p = LEASED" using stores_state [OF p, of LEASED] gd(1) by (simp add: in_state_def)
  with eff have t: "t = s'\<lparr>db_placements := update_where ?P ?w (db_placements s')\<rparr>" by (simp add: applyTransitionUsageInTx_def settled_def)
  have boot: "rw_boot (?w r) = set_boot (gd_monotonic gd) ?f (rw_boot r)" by (simp add: cas_write_def)
  have cur: "pl_boot q = rw_boot r" if "rp_record x = Some q" for q
    using read_record_row [OF inv' x that] row' by (auto simp: stores_def)
  have "load w t = load w s' - w (placement_capacity r) + w (placement_capacity (?w r))" for w
    using one \<open>y = r\<close> inv' by (intro load_written [where P = ?P]) (auto simp: t placement_inv_def is_aws_def)
  moreover have "cr_instanceType (placement_capacity (?w r)) = (case resize of Some t \<Rightarrow> Some t | None \<Rightarrow> bt_instanceType (rw_boot r))"
    using lease_boot(2) [OF cur] by (simp add: placement_capacity_def boot)
  moreover have "bt_region (pl_boot p) = bt_region (rw_boot r)"
    using p lease_boot(1) [OF cur] \<open>y = r\<close> boot by (simp add: stores_def)
  moreover have "pl_computerId p = toLowerCase c" using p \<open>of_computer c y\<close> by (simp add: stores_def of_computer_def)
  moreover have "pl_ownerUserId p = toLowerCase u" using p y(2) gd(3) by (simp add: stores_def cas_matches_def guard_holds_def)
  moreover have "active_demand t = active_demand s'" "db_demands t = db_demands s'" by (simp_all add: t active_demand_def db_now_def fun_eq_iff)
  moreover have "none_other t (toLowerCase u) (toLowerCase c)" if "none_other s' (toLowerCase u) (toLowerCase c)"
  proof (rule none_other_kept [OF that])
    fix z assume z: "z \<in> set (db_placements t)" "rw_computerId z \<noteq> toLowerCase c"
    from z(1) t obtain a where a: "a \<in> set (db_placements s')" "z = (if ?P a then ?w a else a)" by (auto simp: mem_update_where)
    have "\<not> ?P a" using a(2) z(2) by (auto simp: cas_matches_def of_computer_def)
    with a show "z \<in> set (db_placements s')" by simp
  next
    have "reserves_capacity t = reserves_capacity s'"
      by (rule reserves_written [where P = ?P and f = ?w]) (simp_all add: t is_aws_def)
    then show "\<And>m. reserves_capacity t m \<Longrightarrow> reserves_capacity s' m" by simp
  qed (simp_all add: t)
  ultimately show ?thesis using s' by blast
qed

lemma admit_lease_fits:
  assumes inv: "placement_inv s" and run: "admit_lease (Aws_on kill caps regions) now q s = (Inr (Admitted p), t)"
  shows "fits caps regions p t \<and> \<not> kill"
proof -
  let ?c = "toLowerCase (lr_computerId q)" and ?u = "toLowerCase (lr_userId q)"
  let ?replace = "lr_replace q \<or> lr_resizeTo q \<noteq> None"
  let ?region = "\<lambda>found. case rp_record found of None \<Rightarrow> None | Some p \<Rightarrow> bt_region (pl_boot p)"
  let ?counted = "\<lambda>counters found. case rp_record found of None \<Rightarrow> counters | Some p \<Rightarrow> if reuses_slot q p then releaseOwnSlot p counters else counters"
  let ?ty = "\<lambda>found. case lr_resizeTo q of Some t \<Rightarrow> Some (instanceTypeForTier t)
     | None \<Rightarrow> (case rp_record found of None \<Rightarrow> None | Some p \<Rightarrow> bt_instanceType (pl_boot p))"
  let ?lease = "\<lambda>ticket. leasePlacement ticket (lr_computerId q) (lr_userId q) (lr_generation q) (lr_leaseEpoch q) (lr_leaseUntil q) ?replace
     (map_option instanceTypeForTier (lr_resizeTo q)) (lr_fields q)"
  let ?done = "\<lambda>ticket. sbind (?lease ticket) (\<lambda>result. case result of Moved p \<Rightarrow> sreturn (Admitted p) | _ \<Rightarrow> sreturn (Unadmitted Lost_race []))"
  let ?decide = "\<lambda>counters found. case decideAdmission (Aws_on kill caps regions) (?counted counters found) (lr_userId q) (Some (Plan_lease (?region found))) (?ty found) of
       Refused_for rs \<Rightarrow> sreturn (refused rs)
     | Admitted_to _ \<Rightarrow> sbind (mintAdmissionTicket (lr_computerId q) (lr_userId q) For_lease) ?done"
  from sbind_eq_InrD [OF run [unfolded admit_lease_def Let_def]] obtain counters s1
    where k: "readAdmissionCounters (lr_userId q) (lr_computerId q) now s = (Inr counters, s1)"
      and r1: "sbind (readPlacement (lr_computerId q) None) (\<lambda>found.
        if (case rp_record found of None \<Rightarrow> False | Some p \<Rightarrow> pl_generation p \<noteq> lr_generation q \<or> pl_leaseEpoch p \<noteq> lr_leaseEpoch q)
        then sreturn (Unadmitted Lost_race []) else ?decide counters found) s1 = (Inr (Admitted p), t)" by blast
  from sbind_eq_InrD [OF r1] obtain x s2 where x: "readPlacement (lr_computerId q) None s1 = (Inr x, s2)"
      and r2: "(if (case rp_record x of None \<Rightarrow> False | Some p \<Rightarrow> pl_generation p \<noteq> lr_generation q \<or> pl_leaseEpoch p \<noteq> lr_leaseEpoch q)
        then sreturn (Unadmitted Lost_race []) else ?decide counters x) s2 = (Inr (Admitted p), t)" by blast
  have r3: "?decide counters x s2 = (Inr (Admitted p), t)" by (rule past_guard [OF r2]) simp
  then obtain reg where dec: "decideAdmission (Aws_on kill caps regions) (?counted counters x) (lr_userId q) (Some (Plan_lease (?region x))) (?ty x) = Admitted_to reg"
    by (auto simp: refused_def split: AdmissionDecision.splits)
  from sbind_eq_InrD [OF r3 [unfolded dec AdmissionDecision.case]] obtain i s3
    where m: "mintAdmissionTicket (lr_computerId q) (lr_userId q) For_lease s2 = (Inr i, s3)" and r4: "?done i s3 = (Inr (Admitted p), t)" by blast
  from sbind_eq_InrD [OF r4] obtain res s4 where "?lease i s3 = (Inr res, s4)"
    "(case res of Moved p \<Rightarrow> sreturn (Admitted p) | _ \<Rightarrow> sreturn (Unadmitted Lost_race [])) s4 = (Inr (Admitted p) :: compute_error + AdmissionOutcome, t)" by blast
  then have lease: "?lease i s3 = (Inr (Moved p), t)" by (cases res) auto
  have same: "same_tables s s3" "s2 = s1" "same_tables s s1"
    using counters_step(1) [OF k] mint_step [OF m] read_still [OF x] same_tables_trans by blast+
  have inv1: "placement_inv s1" and inv3: "placement_inv s3" using inv same by (simp_all add: placement_inv_def same_tables_def)
  obtain target where cnt: "counters = count_all ?u ?c now target s" using counters_step(2) [OF k] by blast
  note dd = decided [OF dec]
  from region_fits [OF dd(6)] obtain g where g: "g \<in> set regions" "?region x = Some (rg_name g)"
    "regionRunningVcpu (?counted counters x) (rg_name g) + instanceVcpu (?ty x) \<le> rg_maxRunning g * 2" by blast
  from g(2) obtain p0 where p0: "rp_record x = Some p0" "bt_region (pl_boot p0) = Some (rg_name g)" by (cases "rp_record x") auto
  from read_record_row [OF inv1 x p0(1)] obtain r where r1: "filter (of_computer (lr_computerId q)) (db_placements s1) = [r]" and r: "stores r p0" by blast
  then have row: "filter (of_computer (lr_computerId q)) (db_placements s3) = [r]" using same by (simp add: same_tables_def)
  have boot: "pl_boot p0 = rw_boot r" using r by (simp add: stores_def)
  from lease_writes [OF inv3 lease row] obtain s' r' where s': "same_tables s3 s'"
    and l: "\<And>w. load w t = load w s' - w (placement_capacity r) + w (placement_capacity r')"
    and ty: "cr_instanceType (placement_capacity r') = (case map_option instanceTypeForTier (lr_resizeTo q) of Some t \<Rightarrow> Some t | None \<Rightarrow> bt_instanceType (rw_boot r))"
    and id: "bt_region (pl_boot p) = bt_region (rw_boot r)" "pl_computerId p = ?c" "pl_ownerUserId p = ?u"
    and d: "active_demand t = active_demand s'" "db_demands t = db_demands s'"
    and other: "none_other s' ?u ?c \<longrightarrow> none_other t ?u ?c" by blast
  have ty: "cr_instanceType (placement_capacity r') = ?ty x" using ty p0(1) boot by (simp split: option.split)
  have all: "same_tables s s'" using same(1) s' by (rule same_tables_trans)
  define own where "own P = (if reuses_slot q p0 then vcpu_weight P (placement_capacity r) else 0)" for P
  have slot: "runs (placement_capacity r)" if "reuses_slot q p0"
    using that r by (auto simp: reuses_slot_def runs_def placement_capacity_def stores_def in_state_def RUNNING_CLASS_STATES_def PLACEMENT_STATES_def
      simp del: provider_text.simps placement_state_text.simps)
  have own: "own P = instanceVcpu (bt_instanceType (pl_boot p0))" if "reuses_slot q p0" "P (placement_capacity r)" for P
    using that slot boot by (simp add: own_def vcpu_weight_def) (simp add: placement_capacity_def)
  have named: "rg_name g \<noteq> []" if "reuses_slot q p0" using that p0(2) by (simp add: reuses_slot_def truthy_def)
  have "fits caps regions p t"
  proof (rule fitsI [where s = s' and own = own and v = "instanceVcpu (?ty x)" and r = g])
    show "load (vcpu_weight P) t \<le> load (vcpu_weight P) s' - own P + instanceVcpu (?ty x)" for P
      using l [of "vcpu_weight P"] weight_le [of P "placement_capacity r'"] vcpu_weight_nonneg [of P "placement_capacity r"] by (simp add: ty own_def)
    show "vcpu_in_use s' (pl_computerId p) - own anywhere + instanceVcpu (?ty x) \<le> cap_maxRunning caps * 2"
    proof (cases "reuses_slot q p0")
      case True
      with dd(5) p0 released(1) [OF p0(2) named, of s ?c ?u now target] own [of anywhere] id same_counts(6) [OF all] cnt show ?thesis
        by (smt (verit) option.simps)
    next
      case False
      with dd(5) p0 id same_counts(6) [OF all] cnt show ?thesis by (simp add: counted_all or_else_def own_def)
    qed
    show "vcpu_in_region s' (pl_computerId p) (rg_name g) - own (near (rg_name g)) + instanceVcpu (?ty x) \<le> rg_maxRunning g * 2"
    proof (cases "reuses_slot q p0")
      case True
      have "near (rg_name g) (placement_capacity r)" using p0(2) boot by (simp add: placement_capacity_def)
      with True g(3) p0 released(2) [OF p0(2) named, of s ?c ?u now target] own [of "near (rg_name g)"] id same_counts(7) [OF all] cnt show ?thesis
        by (smt (verit) option.simps)
    next
      case False
      with g(3) p0 id same_counts(7) [OF all] cnt show ?thesis by (simp add: counted_region own_def)
    qed
    have "ac_userOtherAwsComputers counters < 1"
      using dd(4) p0 released(3) [OF p0(2) named] by (cases "reuses_slot q p0") simp_all
    with counted_other cnt other id same_counts(5) [OF all] show "none_other t (pl_ownerUserId p) (pl_computerId p)" by simp
    show "bt_region (pl_boot p) = Some (rg_name g)" using id p0 boot by simp
  qed (fact d g)+
  with dd(1) show ?thesis by blast
qed

text \<open>C11: Bounds. An admission that answers a placement, for a new computer or for a lease, a resize or a replacement, leaves the vCPUs of everything
  that runs, of the boots reserved by migrations and of the demands promised to others within twice the global cap, and those in the
  placement's region (counting what has no region yet) within twice the cap of that configured region; its owner has no other computer on
  AWS; and the kill switch was off.\<close>

theorem admission_within_capacity:
  assumes "placement_inv s" and "readAwsAdmissionConfig en = Aws_on kill caps regions"
    and "runAdmission en now q s = (Inr (Admitted p), t)"
  shows "vcpu_of (running_rows t) + demand_vcpu (filter (active_demand t (pl_computerId p)) (db_demands t)) \<le> cap_maxRunning caps * 2 \<and>
    (\<exists>r \<in> set regions. bt_region (pl_boot p) = Some (rg_name r) \<and>
       vcpu_of (filter (\<lambda>x. cr_region x = Some (rg_name r) \<or> cr_region x = None) (running_rows t)) +
       demand_vcpu (filter (\<lambda>d. active_demand t (pl_computerId p) d \<and> dm_region d = rg_name r) (db_demands t)) \<le> rg_maxRunning r * 2) \<and>
    filter (counts_for_user (pl_ownerUserId p) (pl_computerId p) t) (CAPACITY_PLACEMENTS t) = [] \<and> \<not> kill"
proof -
  have tables: "fits caps regions p v" if "fits caps regions p u" "same_tables u v" for u v
    using that same_counts [of u v] by (auto simp: fits_def)
  have run: "\<exists>s' u. placement_inv s' \<and> same_tables u t \<and> m s' = (Inr (Admitted p), u)" if "withAdmission m s = (Inr (Admitted p), t)" for m
  proof (cases "adm_held s")
    case True
    with that assms(1) same_tables_refl show ?thesis by (auto simp: withAdmission_def)
  next
    case False
    with that have "sbind takeAdmissionLock (\<lambda>_. sbind m (\<lambda>x. sbind releaseAdmission (\<lambda>_. sreturn x))) s = (Inr (Admitted p), t)"
      by (auto simp: withAdmission_def dest: transaction_Inr)
    then obtain y s1 u where l: "takeAdmissionLock s = (Inr y, s1)" and m: "m s1 = (Inr (Admitted p), u)" and u: "same_tables u t"
      by (fastforce simp: releaseAdmission_def same_tables_def dest!: sbind_eq_InrD)
    from l assms(1) have "placement_inv s1"
      by (auto simp: takeAdmissionLock_def assertReadCommitted_def sbind_def placement_inv_def split: if_splits)
    with m u show ?thesis by blast
  qed
  have "fits caps regions p t \<and> \<not> kill"
  proof (cases q)
    case (Create_request c)
    with assms(2,3) have "withAdmission (admit_create (Aws_on kill caps regions) now c) s = (Inr (Admitted p), t)" by (simp add: runAdmission_def)
    with run admit_create_fits tables show ?thesis by blast
  next
    case (Lease_request l)
    with assms(2,3) have "withAdmission (admit_lease (Aws_on kill caps regions) now l) s = (Inr (Admitted p), t)"
      by (simp add: runAdmission_def refused_def split: if_split_asm)
    with run admit_lease_fits tables show ?thesis by blast
  qed
  then show ?thesis by (auto simp: fits_def vcpu_in_use_def vcpu_in_region_def none_other_def filter_empty_conv)
qed

definition sample_env :: env where
  "sample_env = map_of [(''EZIL_AWS_COMPUTERS_ENABLED'', ''1''), (''AWS_REGIONS'', ''ap-south-1''), (''EZIL_AWS_MAX_RUNNING_AP_SOUTH_1'', ''1''),
     (''AWS_MAX_RUNNING'', ''1''), (''EZIL_AWS_USER_MONTHLY_HOURS'', ''100''), (''EZIL_AWS_GLOBAL_MONTHLY_HOURS'', ''1000''),
     (''EZIL_AWS_USER_MONTHLY_EGRESS_GB'', ''10''), (''EZIL_AWS_GLOBAL_MONTHLY_EGRESS_GB'', ''100'')]"

definition owned_db :: compute_db where
  "owned_db = no_computers\<lparr>db_computers := [\<lparr>co_id = sample_computer, co_userId = sample_owner, co_deleted = False, co_createdAt = 0\<rparr>]\<rparr>"

definition sample_request :: AdmissionRequest where
  "sample_request = Create_request \<lparr>cq_userId = sample_owner, cq_computerId = sample_computer, cq_tier = Tier_plus, cq_fields = no_fields, cq_fieldsFor = None\<rparr>"

definition admitted_now :: "AdmissionOutcome compute_op \<Rightarrow> compute_db \<Rightarrow> bool" where
  "admitted_now m s = (case fst (m s) of Inr (Admitted p) \<Rightarrow> True | _ \<Rightarrow> False)"

lemma sample_admitted: "admitted_now (runAdmission sample_env 1700000000000 sample_request) owned_db"
  by code_simp

lemma sample_config:
  "readAwsAdmissionConfig sample_env = Aws_on False \<lparr>cap_maxRunning = 1, cap_userMonthlyHours = 100, cap_globalMonthlyHours = 1000,
     cap_userMonthlyEgressGb = 10, cap_globalMonthlyEgressGb = 100\<rparr> [\<lparr>rg_name = ''ap-south-1'', rg_maxRunning = 1\<rparr>]"
  by code_simp

theorem admission_within_capacity_witness:
  "\<exists>p t. runAdmission sample_env 1700000000000 sample_request owned_db = (Inr (Admitted p), t) \<and> vcpu_of (running_rows t) \<le> 2"
proof -
  have inv: "placement_inv owned_db" using no_computers_inv by (simp add: placement_inv_def owned_db_def)
  obtain p t where run: "runAdmission sample_env 1700000000000 sample_request owned_db = (Inr (Admitted p), t)"
    using sample_admitted by (cases "runAdmission sample_env 1700000000000 sample_request owned_db") (auto simp: admitted_now_def split: sum.splits AdmissionOutcome.splits)
  have "db_demands t = []"
  proof -
    have "case runAdmission sample_env 1700000000000 sample_request owned_db of (_, t) \<Rightarrow> db_demands t = []" by code_simp
    with run show ?thesis by simp
  qed
  with admission_within_capacity [OF inv sample_config run] run show ?thesis by (auto simp: demand_vcpu_def)
qed

end
