(* ===== verification/Migration_Provision.thy ===== *)
theory Migration_Provision
  imports Placement_Props
begin

text \<open>
  The boot a migration has reserved (\<^verbatim>\<open>app/src/server/lib/compute/provider-migrate-provision.ts\<close>): the placement that will be
  published, kept as JSON beside the snapshot's head until the flip. The instants are ISO texts there. A value that
  \<^verbatim>\<open>saveProvision\<close> did not write reads as no boot. While the computer is published elsewhere, the host enrolls against it.
\<close>

record migration_provision =
  pv_placement :: Placement
  pv_deployment :: json
  pv_source :: "Placement option"
  pv_reservedAt :: string
  pv_released :: "bool option"

subsection \<open>\<^verbatim>\<open>JSON.stringify\<close>\<close>

fun text_json :: "string option \<Rightarrow> json" where
  "text_json None = JNull"
| "text_json (Some t) = JStr t"

definition date_json :: "int option \<Rightarrow> json" where
  "date_json d = text_json (map_option iso_string d)"

definition placement_json :: "Placement \<Rightarrow> json" where
  "placement_json p = (let b = pl_boot p in JObj
     [(''computerId'', JStr (pl_computerId p)), (''ownerUserId'', JStr (pl_ownerUserId p)),
      (''provider'', JStr (provider_text (pl_provider p))), (''store'', JStr (workspace_store_text (pl_store p))),
      (''state'', JStr (placement_state_text (pl_state p))), (''generation'', JInt (pl_generation p)), (''leaseEpoch'', JInt (pl_leaseEpoch p)),
      (''region'', text_json (bt_region b)), (''zoneId'', text_json (bt_zoneId b)), (''instanceId'', text_json (bt_instanceId b)),
      (''volumeId'', text_json (bt_volumeId b)), (''instanceType'', text_json (bt_instanceType b)), (''fsUuid'', text_json (bt_fsUuid b)),
      (''fenceToken'', text_json (bt_fenceToken b)), (''enrollNonceHash'', text_json (bt_enrollNonceHash b)),
      (''enrollExpiresAt'', date_json (bt_enrollExpiresAt b)), (''enrollConsumedHash'', text_json (bt_enrollConsumedHash b)),
      (''tunnelId'', text_json (bt_tunnelId b)), (''leaseUntil'', date_json (bt_leaseUntil b)), (''presenceAt'', date_json (bt_presenceAt b)),
      (''lifecycleJobId'', text_json (bt_lifecycleJobId b)), (''lifecycleDigest'', text_json (bt_lifecycleDigest b)),
      (''lastError'', text_json (bt_lastError b)), (''updatedAt'', JStr (iso_string (pl_updatedAt p)))])"

definition provision_json :: "migration_provision \<Rightarrow> json" where
  "provision_json v = JObj ([(''placement'', placement_json (pv_placement v)), (''deployment'', pv_deployment v),
     (''source'', case pv_source v of None \<Rightarrow> JNull | Some p \<Rightarrow> placement_json p), (''reservedAt'', JStr (pv_reservedAt v))] @
     (case pv_released v of None \<Rightarrow> [] | Some b \<Rightarrow> [(''released'', JBool b)]))"

subsection \<open>Reading it back\<close>

definition text_member :: "(string \<times> json) list \<Rightarrow> string \<Rightarrow> string option" where
  "text_member o' k = (case member_of o' k of Some (JStr t) \<Rightarrow> Some t | _ \<Rightarrow> None)"

definition date_member :: "(string \<times> json) list \<Rightarrow> string \<Rightarrow> int option" where
  "date_member o' k = Option.bind (text_member o' k) parse_iso"

definition int_member :: "(string \<times> json) list \<Rightarrow> string \<Rightarrow> int option" where
  "int_member o' k = (case member_of o' k of Some (JInt n) \<Rightarrow> Some n | _ \<Rightarrow> None)"

definition boot_of :: "(string \<times> json) list \<Rightarrow> boot_columns" where
  "boot_of o' = \<lparr>bt_region = text_member o' ''region'', bt_zoneId = text_member o' ''zoneId'', bt_instanceId = text_member o' ''instanceId'',
     bt_instanceType = text_member o' ''instanceType'', bt_volumeId = text_member o' ''volumeId'', bt_fsUuid = text_member o' ''fsUuid'',
     bt_tunnelId = text_member o' ''tunnelId'', bt_enrollNonceHash = text_member o' ''enrollNonceHash'',
     bt_enrollExpiresAt = date_member o' ''enrollExpiresAt'', bt_enrollConsumedHash = text_member o' ''enrollConsumedHash'',
     bt_leaseUntil = date_member o' ''leaseUntil'', bt_presenceAt = date_member o' ''presenceAt'', bt_fenceToken = text_member o' ''fenceToken'',
     bt_lifecycleJobId = text_member o' ''lifecycleJobId'', bt_lifecycleDigest = text_member o' ''lifecycleDigest'',
     bt_lastError = text_member o' ''lastError''\<rparr>"

text \<open>\<^verbatim>\<open>hydrate\<close>\<close>

definition hydrate :: "json \<Rightarrow> Placement option" where
  "hydrate j = (case j of JObj o' \<Rightarrow>
       (case (text_member o' ''computerId'', text_member o' ''ownerUserId'', one_of provider_text PLACEMENT_PROVIDERS (text_member o' ''provider''),
          one_of workspace_store_text WORKSPACE_STORES (text_member o' ''store''), one_of placement_state_text PLACEMENT_STATES (text_member o' ''state''),
          int_member o' ''generation'', int_member o' ''leaseEpoch'', date_member o' ''updatedAt'') of
        (Some c, Some u, Some p, Some w, Some st, Some g, Some e, Some t) \<Rightarrow>
          Some \<lparr>pl_computerId = c, pl_ownerUserId = u, pl_provider = p, pl_store = w, pl_generation = g, pl_leaseEpoch = e, pl_state = st,
            pl_boot = boot_of o', pl_updatedAt = t\<rparr>
      | _ \<Rightarrow> None)
     | _ \<Rightarrow> None)"

definition provision_of :: "json \<Rightarrow> migration_provision option" where
  "provision_of j = (case j of JObj o' \<Rightarrow>
       (case (Option.bind (member_of o' ''placement'') hydrate, text_member o' ''reservedAt'') of
         (Some p, Some at) \<Rightarrow> Some \<lparr>pv_placement = p, pv_deployment = (case member_of o' ''deployment'' of None \<Rightarrow> JNull | Some d \<Rightarrow> d),
            pv_source = Option.bind (member_of o' ''source'') hydrate, pv_reservedAt = at,
            pv_released = (case member_of o' ''released'' of Some (JBool b) \<Rightarrow> Some b | _ \<Rightarrow> None)\<rparr>
       | _ \<Rightarrow> None)
     | _ \<Rightarrow> None)"

definition provisionFor :: "compute_migration \<Rightarrow> migration_provision option" where
  "provisionFor m = (case mp_workspaceHead m of None \<Rightarrow> None | Some h \<Rightarrow> Option.bind (member_of h ''_awsProvision'') provision_of)"

subsection \<open>Enrollment before the publication\<close>

definition pending_boot :: "compute_migration option \<Rightarrow> migration_provision option" where
  "pending_boot m = (case m of None \<Rightarrow> None
     | Some m \<Rightarrow> if pendingRecovery m = None \<and> mp_state m \<in> {MS_exported, MS_provisioning} then provisionFor m else None)"

definition readEnrollmentPlacement :: "string \<Rightarrow> ResolvedPlacement compute_op" where
  "readEnrollmentPlacement computerId = sbind (readPlacement computerId None) (\<lambda>published.
     if rp_provider published = Aws_ec2 then sreturn published
     else sbind (in_moves (readActiveByComputer computerId)) (\<lambda>m.
       case pending_boot m of None \<Rightarrow> sreturn published
       | Some intent \<Rightarrow> sreturn \<lparr>rp_provider = Aws_ec2, rp_store = Ebs, rp_record = Some (pv_placement intent)\<rparr>))"

text \<open>\<^verbatim>\<open>try { ... } catch (MigrationConflictError)\<close> around the store's write.\<close>

definition save_boot :: "compute_migration \<Rightarrow> migration_provision \<Rightarrow> TransitionResult compute_op" where
  "save_boot m v = try_catch (sbind (in_moves (saveProvision m (provision_json v))) (\<lambda>_. sreturn (Moved (pv_placement v))))
     (\<lambda>e. if e = Of_moves Migration_conflict then sreturn Cas_conflict else sthrow e)"

definition updateEnrollment :: "string \<Rightarrow> (Placement \<Rightarrow> Placement option) \<Rightarrow> TransitionResult option compute_op" where
  "updateEnrollment computerId update = transaction (sbind (in_moves (readActiveByComputer computerId)) (\<lambda>m.
     case pending_boot m of None \<Rightarrow> sreturn None
     | Some intent \<Rightarrow> (case update (pv_placement intent) of
         None \<Rightarrow> sreturn (Some Cas_conflict)
       | Some p \<Rightarrow> sbind (save_boot (the m) (intent\<lparr>pv_placement := p\<rparr>)) (\<lambda>r. sreturn (Some r)))))"

definition or_conflicts :: "TransitionResult option \<Rightarrow> TransitionResult" where
  "or_conflicts r = (case r of None \<Rightarrow> Cas_conflict | Some r \<Rightarrow> r)"

definition consume_boot :: "int \<Rightarrow> cas_expectation \<Rightarrow> string \<Rightarrow> string \<Rightarrow> string \<Rightarrow> Placement \<Rightarrow> Placement option" where
  "consume_boot now expected nonceHash instanceId volumeId p = (let b = pl_boot p in
     if pl_state p \<noteq> PROVISIONING \<or> pl_generation p \<noteq> ex_generation expected \<or> pl_leaseEpoch p \<noteq> ex_leaseEpoch expected \<or>
        bt_enrollNonceHash b \<noteq> Some nonceHash \<or> (case bt_enrollExpiresAt b of None \<Rightarrow> True | Some t \<Rightarrow> t \<le> now) \<or>
        bt_instanceId b \<noteq> None \<and> bt_instanceId b \<noteq> Some instanceId then None
     else Some (p\<lparr>pl_boot := b\<lparr>bt_instanceId := Some instanceId, bt_volumeId := Some volumeId, bt_enrollNonceHash := None,
       bt_enrollConsumedHash := Some nonceHash, bt_lastError := Some ENROLLMENT_PENDING\<rparr>\<rparr>))"

definition consumeMigrationEnrollment :: "int \<Rightarrow> string \<Rightarrow> cas_expectation \<Rightarrow> string \<Rightarrow> string \<Rightarrow> string \<Rightarrow> (string \<times> int option) option \<Rightarrow> TransitionResult compute_op" where
  "consumeMigrationEnrollment now computerId expected nonceHash instanceId volumeId observed = sbind (readPlacement computerId None) (\<lambda>published.
     if rp_provider published = Aws_ec2 then consumeEnrollmentNonce computerId expected nonceHash instanceId volumeId observed
     else sbind (updateEnrollment computerId (consume_boot now expected nonceHash instanceId volumeId)) (\<lambda>r. sreturn (or_conflicts r)))"

definition finish_boot :: "Placement \<Rightarrow> bool \<Rightarrow> Placement \<Rightarrow> Placement option" where
  "finish_boot expected success p = (let b = pl_boot p in
     if pl_state p \<noteq> PROVISIONING \<or> pl_generation p \<noteq> pl_generation expected \<or> pl_leaseEpoch p \<noteq> pl_leaseEpoch expected \<or>
        bt_instanceId b \<noteq> bt_instanceId (pl_boot expected) \<or> bt_enrollNonceHash b \<noteq> None \<or> \<not> truthy (bt_enrollConsumedHash b) \<or>
        bt_lastError b \<noteq> Some ENROLLMENT_PENDING then None
     else Some (if success then p\<lparr>pl_boot := b\<lparr>bt_lastError := Some ENROLLMENT_SUCCEEDED\<rparr>\<rparr>
       else p\<lparr>pl_state := UNCONFIRMED, pl_boot := b\<lparr>bt_lastError := Some ENROLLMENT_FAILED, bt_enrollConsumedHash := None, bt_enrollExpiresAt := None\<rparr>\<rparr>))"

definition finishMigrationEnrollment :: "string \<Rightarrow> Placement \<Rightarrow> bool \<Rightarrow> bool \<Rightarrow> bool \<Rightarrow> TransitionResult compute_op" where
  "finishMigrationEnrollment computerId expected success poolClaim sessionReady = sbind (readPlacement computerId None) (\<lambda>published.
     if rp_provider published = Aws_ec2 then finishEnrollment computerId expected success poolClaim sessionReady
     else sbind (updateEnrollment computerId (finish_boot expected success)) (\<lambda>r. sreturn (or_conflicts r)))"

subsection \<open>What is saved reads back\<close>

definition dates_ok :: "Placement \<Rightarrow> bool" where
  "dates_ok p \<longleftrightarrow> iso_year_ok (pl_updatedAt p) \<and> required (bt_enrollExpiresAt (pl_boot p)) iso_year_ok \<and>
     required (bt_leaseUntil (pl_boot p)) iso_year_ok \<and> required (bt_presenceAt (pl_boot p)) iso_year_ok"

lemma member_first: "member_of ((k, v) # o') j = (if j = k then Some v else member_of o' j)"
  by (simp add: member_of_def)

lemma text_member_text: "member_of o' k = Some (text_json v) \<Longrightarrow> text_member o' k = v"
  by (cases v) (simp_all add: text_member_def)

lemma date_member_date: "member_of o' k = Some (date_json d) \<Longrightarrow> required d iso_year_ok \<Longrightarrow> date_member o' k = d"
  using text_member_text [of o' k "map_option iso_string d"] by (cases d) (simp_all add: date_json_def date_member_def parse_iso_string)

lemma hydrate_placement: "dates_ok p \<Longrightarrow> hydrate (placement_json p) = Some p"
proof -
  assume d: "dates_ok p"
  obtain o' where o': "placement_json p = JObj o'" by (simp add: placement_json_def Let_def)
  then have m: "member_of o' k = member_of (case placement_json p of JObj o' \<Rightarrow> o' | _ \<Rightarrow> []) k" for k by simp
  note mem = m [unfolded placement_json_def Let_def json.case]
  have t: "text_member o' ''region'' = bt_region (pl_boot p)" "text_member o' ''zoneId'' = bt_zoneId (pl_boot p)"
    "text_member o' ''instanceId'' = bt_instanceId (pl_boot p)" "text_member o' ''volumeId'' = bt_volumeId (pl_boot p)"
    "text_member o' ''instanceType'' = bt_instanceType (pl_boot p)" "text_member o' ''fsUuid'' = bt_fsUuid (pl_boot p)"
    "text_member o' ''fenceToken'' = bt_fenceToken (pl_boot p)" "text_member o' ''enrollNonceHash'' = bt_enrollNonceHash (pl_boot p)"
    "text_member o' ''enrollConsumedHash'' = bt_enrollConsumedHash (pl_boot p)" "text_member o' ''tunnelId'' = bt_tunnelId (pl_boot p)"
    "text_member o' ''lifecycleJobId'' = bt_lifecycleJobId (pl_boot p)" "text_member o' ''lifecycleDigest'' = bt_lifecycleDigest (pl_boot p)"
    "text_member o' ''lastError'' = bt_lastError (pl_boot p)"
    by (rule text_member_text; simp add: mem member_first)+
  have e: "date_member o' ''enrollExpiresAt'' = bt_enrollExpiresAt (pl_boot p)" "date_member o' ''leaseUntil'' = bt_leaseUntil (pl_boot p)"
    "date_member o' ''presenceAt'' = bt_presenceAt (pl_boot p)"
    using d by (auto simp: dates_ok_def intro!: date_member_date) (simp_all add: mem member_first)
  have u: "date_member o' ''updatedAt'' = Some (pl_updatedAt p)"
    using d by (simp add: mem member_first date_member_def text_member_def dates_ok_def parse_iso_string)
  have b: "boot_of o' = pl_boot p" by (simp add: boot_of_def t e)
  have s: "text_member o' ''computerId'' = Some (pl_computerId p)" "text_member o' ''ownerUserId'' = Some (pl_ownerUserId p)"
    "text_member o' ''provider'' = Some (provider_text (pl_provider p))" "text_member o' ''store'' = Some (workspace_store_text (pl_store p))"
    "text_member o' ''state'' = Some (placement_state_text (pl_state p))" "int_member o' ''generation'' = Some (pl_generation p)"
    "int_member o' ''leaseEpoch'' = Some (pl_leaseEpoch p)"
    by (simp_all add: mem member_first text_member_def int_member_def)
  show ?thesis by (simp add: hydrate_def o' s u b one_of_text)
qed

definition provision_ok :: "migration_provision \<Rightarrow> bool" where
  "provision_ok v \<longleftrightarrow> dates_ok (pv_placement v) \<and> required (pv_source v) dates_ok"

lemma hydrate_null [simp]: "hydrate JNull = None"
  by (simp add: hydrate_def)

lemma provision_roundtrip: "provision_ok v \<Longrightarrow> provision_of (provision_json v) = Some v"
  by (cases v; cases "pv_source v"; cases "pv_released v")
     (simp_all add: provision_of_def provision_json_def provision_ok_def member_first member_of_def hydrate_placement text_member_def)

lemma member_of_set: "member_of (map_set k v h) j = (if j = k then Some v else member_of h j)"
  unfolding member_of_def by (induction k v h rule: map_set.induct) auto

lemma saved_provision:
  "provision_ok v \<Longrightarrow> mp_workspaceHead r = Some (with_provision (provision_json v) h) \<Longrightarrow> provisionFor r = Some v"
  by (simp add: provisionFor_def with_provision_def member_of_set provision_roundtrip)

text \<open>C36: Round trip. A boot intent that \<^verbatim>\<open>saveProvision\<close> stored beside a migration's snapshot, with the placement to publish, its source,
  the deployment and the reservation, reads back from that migration's row exactly as it was, the instants included (for the years ISO texts
  have four digits for), and the row is still in the state it was saved in.\<close>

theorem boot_intent_roundtrip:
  assumes "table_ok s" and "provision_ok v" and saved: "saveProvision m (provision_json v) s = (Inr (), t)"
    and "r \<in> set (mv_rows t)" and "cm_id r = cm_id m"
  shows "provisionFor r = Some v \<and> mp_state r = mp_state m"
proof -
  let ?f = "\<lambda>r. r\<lparr>mp_workspaceHead := map_option (with_provision (provision_json v)) (mp_workspaceHead r), cm_updatedAt := stamp s r\<rparr>"
  from saved obtain r0 h where r0: "find (current m) (mv_rows s) = Some r0" "mp_workspaceHead r0 = Some h"
    and t: "mv_rows t = update_where (current m) ?f (mv_rows s)"
    by (auto simp: saveProvision_def split: option.splits)
  have m: "r0 \<in> set (mv_rows s)" "current m r0" using r0(1) by (auto simp: find_Some_iff)
  from assms(4) t obtain x where x: "x \<in> set (mv_rows s)" "r = (if current m x then ?f x else x)" by (auto simp: mem_update_where)
  have "cm_id x = cm_id r0" using x(2) assms(5) m(2) by (auto simp: current_def split: if_splits)
  with assms(1) x(1) m(1) have "x = r0" by (auto simp: table_ok_def intro: moves.keyed_at_most_one)
  with x m r0(2) have "r = ?f r0" "mp_workspaceHead r = Some (with_provision (provision_json v) h)" by simp_all
  with saved_provision [OF assms(2)] m(2) show ?thesis by (simp add: current_def)
qed

definition sample_boot :: migration_provision where
  "sample_boot = \<lparr>pv_placement = waiting_placement, pv_deployment = JObj [], pv_source = None, pv_reservedAt = ''2023-11-14T22:13:20.000Z'', pv_released = None\<rparr>"

definition exported_row :: compute_migration where
  "exported_row = hd (mv_rows demo_exported)"

lemma evaluated: "case p of (Inr x, t) \<Rightarrow> P t | (Inl e, t) \<Rightarrow> False \<Longrightarrow> \<exists>x t. p = (Inr x, t) \<and> P t"
  by (cases p; cases "fst p") auto

theorem boot_intent_roundtrip_witness:
  "\<exists>t. saveProvision exported_row (provision_json sample_boot) demo_exported = (Inr (), t) \<and> map provisionFor (mv_rows t) = [Some sample_boot]"
proof -
  obtain cs where "workers id (demo_exported, cs)"
    using advance_workers [OF demo_created_workers demo_rows(1)] unfolding demo_exported_def by blast
  then have ok: "table_ok demo_exported" by (auto dest!: workers_invariant simp: workers_ok_def)
  have dates: "provision_ok sample_boot" by code_simp
  have run: "case saveProvision exported_row (provision_json sample_boot) demo_exported of
      (Inr x, t) \<Rightarrow> map cm_id (mv_rows t) = [cm_id exported_row] | (Inl e, t) \<Rightarrow> False"
    by code_simp
  from evaluated [OF this] obtain t where
    t: "saveProvision exported_row (provision_json sample_boot) demo_exported = (Inr (), t)" "map cm_id (mv_rows t) = [cm_id exported_row]" by fastforce
  then obtain r where r: "mv_rows t = [r]" "cm_id r = cm_id exported_row" by auto
  with boot_intent_roundtrip [OF ok dates t(1), of r] have "map provisionFor (mv_rows t) = [Some sample_boot]" by simp
  with t(1) show ?thesis by (intro exI [of _ t] conjI)
qed

end
