(* ===== verification/Migration_Run.thy ===== *)
theory Migration_Run
  imports Migration_Store Procedures
begin

text \<open>
  The driver of a migration to AWS (\<^verbatim>\<open>app/src/server/lib/compute/provider-migrate-orchestrator.ts\<close>,
  \<^verbatim>\<open>provider-migrate-reconcile.ts\<close> and the start of a paid migration in \<^verbatim>\<open>provider-migrate-runtime.ts\<close>): one
  durable step, its compensation, and the sweeps that run them. What the driver calls outside the row (the
  Worker that holds the snapshot, the lifecycle jobs of AWS, the published placement) is the record of its
  dependencies, as in the code; the state they act on is a parameter. An exception of a dependency is an
  error of the store's type: a conflict, a failed step, or anything else. \<^verbatim>\<open>exclusive\<close> is the attempt to take the
  migration's lock, which the database releases by itself: a busy migration is left alone.
\<close>

subsection \<open>Dependencies\<close>

datatype 'a migrate_result = Mg_ok 'a | Mg_not_found | Mg_unavailable | Mg_conflict "string option"

record begin_result =
  bg_etag :: string
  bg_systemEtag :: "string option"
  bg_generation :: string

record commit_input =
  ci_expectedEtag :: "string option"
  ci_expectedSystemEtag :: "string option"

type_synonym ('s, 'a) mig = "(migration_error, 's, 'a) procedure"

record 's migration_deps =
  dep_readById :: "string \<Rightarrow> ('s, compute_migration option) mig"
  dep_applyTransition :: "compute_migration \<Rightarrow> MigrationEvent \<Rightarrow> string option \<Rightarrow> ('s, compute_migration migration_decision) mig"
  dep_exclusive :: "string \<Rightarrow> ('s, bool) mig"
  dep_freshProvision :: "compute_migration \<Rightarrow> ('s, unit) mig"
  dep_begin :: "compute_migration \<Rightarrow> ('s, begin_result migrate_result) mig"
  dep_head :: "compute_migration \<Rightarrow> restore_kind \<Rightarrow> ('s, snapshot_head migrate_result) mig"
  dep_exportEtag :: "compute_migration \<Rightarrow> ('s, string) mig"
  dep_provision :: "compute_migration \<Rightarrow> ('s, unit) mig"
  dep_releaseProvision :: "compute_migration \<Rightarrow> ('s, unit) mig"
  dep_restored :: "compute_migration \<Rightarrow> ('s, bool) mig"
  dep_flip :: "compute_migration \<Rightarrow> ('s, unit) mig"
  dep_rollback :: "compute_migration \<Rightarrow> ('s, unit) mig"
  dep_commit :: "compute_migration \<Rightarrow> commit_input \<Rightarrow> ('s, unit migrate_result) mig"
  dep_abort :: "compute_migration \<Rightarrow> ('s, unit migrate_result) mig"
  dep_reopen :: "compute_migration \<Rightarrow> string \<Rightarrow> ('s, unit migrate_result) mig"
  dep_stopCloudflare :: "compute_migration \<Rightarrow> ('s, unit) mig"

fun checked :: "'a migrate_result \<Rightarrow> ('s, 'a) mig" where
  "checked (Mg_ok x) = sreturn x"
| "checked Mg_not_found = sthrow (Step_error False None)"
| "checked Mg_unavailable = sthrow (Step_error True None)"
| "checked (Mg_conflict reason) = sthrow (Step_error False reason)"

subsection \<open>One durable step\<close>

text \<open>The row is read again before every transition; a changed state is a conflict.\<close>

definition transition :: "'s migration_deps \<Rightarrow> string \<Rightarrow> compute_migration \<Rightarrow> MigrationEvent \<Rightarrow> string option
    \<Rightarrow> ('s, MigrationEffect option) mig" where
  "transition deps i m event reason = sbind (dep_readById deps i) (\<lambda>current.
     case current of None \<Rightarrow> sthrow Migration_conflict
     | Some c \<Rightarrow> if mp_state c \<noteq> mp_state m then sthrow Migration_conflict
         else sbind (dep_applyTransition deps c event reason) (\<lambda>(accepted, _, effect).
           if accepted then sreturn effect else sthrow Migration_conflict))"

definition error_reason :: "migration_error \<Rightarrow> string option" where
  "error_reason e = (case e of Step_error _ reason \<Rightarrow> reason | _ \<Rightarrow> None)"

definition retryable_error :: "migration_error \<Rightarrow> bool" where
  "retryable_error e = (case e of Step_error retryable _ \<Rightarrow> retryable | _ \<Rightarrow> False)"

text \<open>The publication is undone before Cloudflare is enabled again.\<close>

definition compensate :: "'s migration_deps \<Rightarrow> string \<Rightarrow> MigrationEffect \<Rightarrow> ('s, compute_migration) mig" where
  "compensate deps i effect = sbind (dep_readById deps i) (\<lambda>current.
     case current of None \<Rightarrow> sthrow Migration_conflict
     | Some c \<Rightarrow> if pendingRecovery c \<noteq> Some effect then sthrow Migration_conflict
         else sbind (dep_rollback deps c) (\<lambda>_.
           sbind (if effect = Eff_reopen
             then sbind (dep_exportEtag deps c) (\<lambda>etag. sbind (dep_reopen deps c etag) checked)
             else sbind (dep_abort deps c) checked) (\<lambda>_. sreturn c)))"

definition recover :: "'s migration_deps \<Rightarrow> string \<Rightarrow> compute_migration \<Rightarrow> MigrationEffect \<Rightarrow> ('s, unit) mig" where
  "recover deps i m effect = try_catch
     (sbind (compensate deps i effect) (\<lambda>_. sbind (transition deps i m ME_reopened None) (\<lambda>_. sreturn ())))
     (\<lambda>e. if e = Migration_conflict then sthrow e
       else sbind (transition deps i m (ME_error (effect_text effect) False) (error_reason e)) (\<lambda>_. sreturn ()))"

text \<open>An exception carries the step it was thrown in.\<close>

type_synonym ('s, 'a) stepped = "(string \<times> migration_error, 's, 'a) procedure"

definition in_step :: "string \<Rightarrow> ('s, 'a) mig \<Rightarrow> ('s, 'a) stepped" where
  "in_step step m = try_catch m (\<lambda>e. sthrow (step, e))"

definition without_provision :: "snapshot_head \<Rightarrow> snapshot_head" where
  "without_provision h = filter (\<lambda>p. fst p \<noteq> ''_awsProvision'') h"

definition read_system_head :: "snapshot_head migrate_result \<Rightarrow> ('s, snapshot_head option) mig" where
  "read_system_head r = (case r of Mg_not_found \<Rightarrow> sreturn None | _ \<Rightarrow> sbind (checked r) (\<lambda>h. sreturn (Some h)))"

definition step_begin :: "'s migration_deps \<Rightarrow> string \<Rightarrow> compute_migration \<Rightarrow> ('s, unit) mig" where
  "step_begin deps i m = sbind (dep_begin deps m) (\<lambda>result.
     if result = Mg_conflict (Some ''no_workspace'') then dep_freshProvision deps m
     else sbind (checked result) (\<lambda>b.
       sbind (transition deps i m (ME_fenced (bg_etag b) (bg_systemEtag b) (bg_generation b)) None) (\<lambda>_. sreturn ())))"

definition step_export :: "'s migration_deps \<Rightarrow> string \<Rightarrow> compute_migration \<Rightarrow> ('s, unit) mig" where
  "step_export deps i m = sbind (sbind (dep_head deps m Kind_workspace) checked) (\<lambda>w.
     sbind (sbind (dep_head deps m Kind_system) read_system_head) (\<lambda>systemHead.
       let workspaceHead = without_provision w in
       if head_generation workspaceHead \<noteq> map_option JStr (mp_generation m) then sthrow (Step_error False (Some ''generation_mismatch''))
       else if (mp_sourceSystemEtag m = None) \<noteq> (systemHead = None) then sthrow (Step_error False (Some ''system_head_mismatch''))
       else sbind (transition deps i m (ME_exported workspaceHead systemHead) None) (\<lambda>_. sreturn ())))"

definition step_provision :: "'s migration_deps \<Rightarrow> string \<Rightarrow> compute_migration \<Rightarrow> ('s, unit) mig" where
  "step_provision deps i m = sbind (dep_provision deps m) (\<lambda>_.
     sbind (transition deps i m ME_provisioned None) (\<lambda>_. sreturn ()))"

definition step_restore :: "'s migration_deps \<Rightarrow> string \<Rightarrow> compute_migration \<Rightarrow> ('s, unit) mig" where
  "step_restore deps i m = sbind (dep_restored deps m) (\<lambda>restored.
     if restored then sbind (transition deps i m (ME_host_restored (the (mp_generation m))) None) (\<lambda>_. sreturn ()) else sreturn ())"

text \<open>Stopping Cloudflare stays replayable if the process dies before the last transition.\<close>

definition step_commit :: "'s migration_deps \<Rightarrow> string \<Rightarrow> compute_migration \<Rightarrow> ('s, unit) mig" where
  "step_commit deps i m =
     sbind (sbind (dep_commit deps m \<lparr>ci_expectedEtag = mp_sourceEtag m, ci_expectedSystemEtag = mp_sourceSystemEtag m\<rparr>) checked) (\<lambda>_.
     sbind (dep_exportEtag deps m) (\<lambda>migratedEtag.
     sbind (dep_stopCloudflare deps m) (\<lambda>_.
     sbind (transition deps i m (ME_committed migratedEtag) None) (\<lambda>_. sreturn ()))))"

fun run_step :: "'s migration_deps \<Rightarrow> string \<Rightarrow> compute_migration \<Rightarrow> MigrationState \<Rightarrow> ('s, unit) stepped" where
  "run_step deps i m MS_requested = in_step ''begin'' (step_begin deps i m)"
| "run_step deps i m MS_fenced = in_step ''export'' (step_export deps i m)"
| "run_step deps i m MS_exported = in_step ''provision'' (step_provision deps i m)"
| "run_step deps i m MS_provisioning = in_step ''restore'' (step_restore deps i m)"
| "run_step deps i m MS_restored = sbind (in_step ''flip'' (dep_flip deps m)) (\<lambda>_. in_step ''commit'' (step_commit deps i m))"
| "run_step deps i m _ = sreturn ()"

text \<open>Commit uncertainty needs compensation, not a blind second commit.\<close>

definition step_failed :: "'s migration_deps \<Rightarrow> string \<Rightarrow> compute_migration \<Rightarrow> string \<times> migration_error \<Rightarrow> ('s, unit) mig" where
  "step_failed deps i m failure = (case failure of (step, e) \<Rightarrow>
     if e = Migration_conflict then sthrow e
     else sbind (transition deps i m (ME_error step (step \<noteq> ''commit'' \<and> retryable_error e)) (error_reason e)) (\<lambda>effect.
       if effect = Some Eff_abort \<or> effect = Some Eff_reopen then recover deps i m (the effect) else sreturn ()))"

definition advance_row :: "'s migration_deps \<Rightarrow> string \<Rightarrow> ('s, unit) mig" where
  "advance_row deps i = sbind (dep_readById deps i) (\<lambda>row.
     case row of None \<Rightarrow> sreturn ()
     | Some m \<Rightarrow>
         if mp_state m \<in> set TERMINAL_MIGRATION_STATES
         then (if mp_state m \<noteq> MS_committed then dep_releaseProvision deps m else sreturn ())
         else (case pendingRecovery m of
             Some effect \<Rightarrow> recover deps i m effect
           | None \<Rightarrow> try_catch (run_step deps i m (mp_state m)) (step_failed deps i m)))"

definition advanceMigration :: "'s migration_deps \<Rightarrow> string \<Rightarrow> ('s, unit) mig" where
  "advanceMigration deps i = try_catch
     (sbind (dep_exclusive deps i) (\<lambda>acquired. if acquired then advance_row deps i else sreturn ()))
     (\<lambda>e. if e \<noteq> Migration_conflict then sthrow e else sreturn ())"

subsection \<open>Sweeps\<close>

text \<open>Reading the clock is an operation of the environment; a failed step is logged and the sweep goes on.\<close>

record 's sweep_input =
  sw_claimStale :: "int \<Rightarrow> ('s, compute_migration list) mig"
  sw_advance :: "string \<Rightarrow> ('s, unit) mig"
  sw_now :: "'s \<Rightarrow> int \<times> 's"
  sw_log :: "string \<Rightarrow> 's \<Rightarrow> 's"

definition with_now :: "('s \<Rightarrow> int \<times> 's) \<Rightarrow> (int \<Rightarrow> ('e, 's, 'a) procedure) \<Rightarrow> ('e, 's, 'a) procedure" where
  "with_now now f s = (case now s of (t, s') \<Rightarrow> f t s')"

fun sweep_rows :: "'s sweep_input \<Rightarrow> int \<Rightarrow> compute_migration list \<Rightarrow> nat \<Rightarrow> ('s, nat) mig" where
  "sweep_rows i startedAt [] launched = sreturn launched"
| "sweep_rows i startedAt (m # ms) launched = with_now (sw_now i) (\<lambda>t.
     if t - startedAt \<ge> 40000 then sreturn launched
     else sbind (try_catch (sw_advance i (cm_id m)) (\<lambda>_ s. (Inr (), sw_log i (cm_id m) s)))
       (\<lambda>_. sweep_rows i startedAt ms (Suc launched)))"

definition sweepMigrations :: "'s sweep_input \<Rightarrow> int \<Rightarrow> ('s, nat) mig" where
  "sweepMigrations i startedAt = with_now (sw_now i) (\<lambda>t.
     if t - startedAt \<ge> 40000 then sreturn 0
     else sbind (sw_claimStale i 10) (\<lambda>migrations. sweep_rows i startedAt (take 10 migrations) 0))"

record paid_candidate =
  pm_computerId :: string
  pm_userId :: string
  pm_toSize :: migrate_size

record 's reconcile_input =
  rc_enabled :: bool
  rc_startedAt :: int
  rc_now :: "'s \<Rightarrow> int \<times> 's"
  rc_candidates :: "int \<Rightarrow> ('s, paid_candidate list) mig"
  rc_admitted :: "paid_candidate \<Rightarrow> ('s, bool) mig"
  rc_create :: "paid_candidate \<Rightarrow> ('s, string) mig"
  rc_advance :: "string \<Rightarrow> ('s, unit) mig"

text \<open>
  What one candidate does: nothing (it is not admitted, or its turn failed), it ends the loop, or it is launched
  (its advance may still fail, and the launch counts).
\<close>

datatype candidate_turn = Turn_skip | Turn_stop | Turn_launched

definition reconcile_one :: "'s reconcile_input \<Rightarrow> paid_candidate \<Rightarrow> ('s, candidate_turn) mig" where
  "reconcile_one i c =
     (let expired = (\<lambda>t. t - rc_startedAt i \<ge> 40000) in
      with_now (rc_now i) (\<lambda>t. if expired t then sreturn Turn_stop
      else try_catch
        (sbind (rc_admitted i c) (\<lambda>ok. if \<not> ok then sreturn Turn_skip
         else with_now (rc_now i) (\<lambda>t. if expired t then sreturn Turn_stop
         else sbind (rc_create i c) (\<lambda>migration.
           with_now (rc_now i) (\<lambda>t. if expired t then sreturn Turn_stop
           else try_catch (sbind (rc_advance i migration) (\<lambda>_. sreturn Turn_launched)) (\<lambda>_. sreturn Turn_launched))))))
        (\<lambda>_. sreturn Turn_skip)))"

fun reconcile_rows :: "'s reconcile_input \<Rightarrow> paid_candidate list \<Rightarrow> nat \<Rightarrow> ('s, nat) mig" where
  "reconcile_rows i [] launched = sreturn launched"
| "reconcile_rows i (c # cs) launched = sbind (reconcile_one i c) (\<lambda>turn. case turn of
     Turn_stop \<Rightarrow> sreturn launched
   | Turn_skip \<Rightarrow> reconcile_rows i cs launched
   | Turn_launched \<Rightarrow> reconcile_rows i cs (Suc launched))"

definition reconcilePaidMigrations :: "'s reconcile_input \<Rightarrow> ('s, nat) mig" where
  "reconcilePaidMigrations i =
     (if \<not> rc_enabled i then sreturn 0
      else with_now (rc_now i) (\<lambda>t. if t - rc_startedAt i \<ge> 40000 then sreturn 0
        else sbind (rc_candidates i 10) (\<lambda>cs. reconcile_rows i (take 10 cs) 0)))"

subsection \<open>Starting a paid migration\<close>

text \<open>Keep moving while each single step makes progress; a failure is logged.\<close>

fun drive :: "'s migration_deps \<Rightarrow> string \<Rightarrow> nat \<Rightarrow> ('s, unit) mig" where
  "drive deps i 0 = sreturn ()"
| "drive deps i (Suc n) = sbind (dep_readById deps i) (\<lambda>before. sbind (advanceMigration deps i) (\<lambda>_.
     sbind (dep_readById deps i) (\<lambda>after.
       if map_option mp_state before = map_option mp_state after then sreturn () else drive deps i n)))"

definition start_computer :: "'s migration_deps \<Rightarrow> (move_input \<Rightarrow> ('s, compute_migration) mig) \<Rightarrow> (string \<Rightarrow> ('s, string) mig)
    \<Rightarrow> string \<Rightarrow> migrate_size \<Rightarrow> string \<Rightarrow> ('s, unit) mig" where
  "start_computer deps create placement userId to_size computerId = sbind (placement computerId) (\<lambda>provider.
     if provider \<noteq> ''cloudflare'' then sreturn ()
     else sbind (create \<lparr>mi_computerId = computerId, mi_userId = userId, mi_toSize = to_size\<rparr>) (\<lambda>m.
       try_catch (drive deps (cm_id m) 6) (\<lambda>_. sreturn ())))"

definition startPaidMigration :: "'s migration_deps \<Rightarrow> (move_input \<Rightarrow> ('s, compute_migration) mig) \<Rightarrow> (string \<Rightarrow> ('s, string) mig)
    \<Rightarrow> (string \<Rightarrow> ('s, string list) mig) \<Rightarrow> string \<Rightarrow> string \<Rightarrow> ('s, unit) mig" where
  "startPaidMigration deps create placement computers userId sku =
     (if sku \<notin> {''standard_monthly_v3'', ''premium_monthly_v3''} then sreturn ()
      else sbind (computers userId) (\<lambda>cs. sfor cs
        (start_computer deps create placement userId (if sku = ''standard_monthly_v3'' then Size_standard else Size_premium))))"

datatype migration_status = Status_of_user "migrate_status option" | Status_of_computer MigrationState "string option" bool | Status_none

definition migrationStatusFor :: "string \<Rightarrow> string option \<Rightarrow> migration_status store_op" where
  "migrationStatusFor userId computerId = (case computerId of
     None \<Rightarrow> sbind (statusFor userId) (\<lambda>st. sreturn (Status_of_user st))
   | Some c \<Rightarrow> if c = [] then sbind (statusFor userId) (\<lambda>st. sreturn (Status_of_user st))
       else sbind (readByComputer c) (\<lambda>m. sreturn (case m of None \<Rightarrow> Status_none
         | Some m \<Rightarrow> if cm_userId m \<noteq> toLowerCase userId then Status_none
             else Status_of_computer (mp_state m) (mp_lastError m) (mp_state m = MS_committed \<and> mp_lastError m = Some ''fresh_provision''))))"

subsection \<open>The calls of an advance\<close>

text \<open>What the driver asks of the outside, with whether it was answered well, in the order of the calls.\<close>

datatype call = Called_freshProvision | Called_begin | Called_head restore_kind | Called_exportEtag | Called_provision
  | Called_releaseProvision | Called_restored | Called_flip | Called_rollback | Called_commit | Called_abort
  | Called_reopen | Called_stopCloudflare

type_synonym calls = "(call \<times> bool) list"

definition plain :: "('s, 'a) mig \<Rightarrow> (calls \<times> 's, 'a) mig" where
  "plain m s = (case m (snd s) of (r, t) \<Rightarrow> (r, (fst s, t)))"

definition noted :: "call \<Rightarrow> ('a \<Rightarrow> bool) \<Rightarrow> ('s, 'a) mig \<Rightarrow> (calls \<times> 's, 'a) mig" where
  "noted c good m s = (case m (snd s) of (r, t) \<Rightarrow> (r, (fst s @ [(c, case r of Inr x \<Rightarrow> good x | Inl _ \<Rightarrow> False)], t)))"

fun well :: "'a migrate_result \<Rightarrow> bool" where
  "well (Mg_ok _) = True"
| "well _ = False"

definition recorded :: "'s migration_deps \<Rightarrow> (calls \<times> 's) migration_deps" where
  "recorded d = \<lparr>dep_readById = (\<lambda>i. plain (dep_readById d i)),
     dep_applyTransition = (\<lambda>c e r. plain (dep_applyTransition d c e r)),
     dep_exclusive = (\<lambda>i. plain (dep_exclusive d i)),
     dep_freshProvision = (\<lambda>m. noted Called_freshProvision (\<lambda>_. True) (dep_freshProvision d m)),
     dep_begin = (\<lambda>m. noted Called_begin well (dep_begin d m)),
     dep_head = (\<lambda>m k. noted (Called_head k) well (dep_head d m k)),
     dep_exportEtag = (\<lambda>m. noted Called_exportEtag (\<lambda>_. True) (dep_exportEtag d m)),
     dep_provision = (\<lambda>m. noted Called_provision (\<lambda>_. True) (dep_provision d m)),
     dep_releaseProvision = (\<lambda>m. noted Called_releaseProvision (\<lambda>_. True) (dep_releaseProvision d m)),
     dep_restored = (\<lambda>m. noted Called_restored (\<lambda>_. True) (dep_restored d m)),
     dep_flip = (\<lambda>m. noted Called_flip (\<lambda>_. True) (dep_flip d m)),
     dep_rollback = (\<lambda>m. noted Called_rollback (\<lambda>_. True) (dep_rollback d m)),
     dep_commit = (\<lambda>m c. noted Called_commit well (dep_commit d m c)),
     dep_abort = (\<lambda>m. noted Called_abort well (dep_abort d m)),
     dep_reopen = (\<lambda>m e. noted Called_reopen well (dep_reopen d m e)),
     dep_stopCloudflare = (\<lambda>m. noted Called_stopCloudflare (\<lambda>_. True) (dep_stopCloudflare d m))\<rparr>"

text \<open>
  The protocol of one advance, as a monitor of its calls: Cloudflare is committed only after the publication was flipped, and
  stopped only after the commit was confirmed; a compensation runs only after the publication was rolled
  back, and once a commit has been attempted the source is reopened, never aborted.
\<close>

record monitor =
  mon_flipped :: bool
  mon_attempted :: bool
  mon_committed :: bool
  mon_rolled :: bool

fun allowed :: "monitor \<Rightarrow> call \<Rightarrow> bool" where
  "allowed m Called_commit = mon_flipped m"
| "allowed m Called_stopCloudflare = mon_committed m"
| "allowed m Called_abort = (mon_rolled m \<and> \<not> mon_attempted m)"
| "allowed m Called_reopen = mon_rolled m"
| "allowed m _ = True"

fun observe :: "monitor \<Rightarrow> call \<times> bool \<Rightarrow> monitor" where
  "observe m (Called_flip, ok) = m\<lparr>mon_flipped := ok\<rparr>"
| "observe m (Called_commit, ok) = m\<lparr>mon_attempted := True, mon_committed := ok\<rparr>"
| "observe m (Called_rollback, ok) = m\<lparr>mon_rolled := ok\<rparr>"
| "observe m _ = m"

definition mon_start :: monitor where
  "mon_start = \<lparr>mon_flipped = False, mon_attempted = False, mon_committed = False, mon_rolled = False\<rparr>"

fun monitored :: "monitor \<Rightarrow> calls \<Rightarrow> bool" where
  "monitored m [] = True"
| "monitored m (x # xs) = (allowed m (fst x) \<and> monitored (observe m x) xs)"

lemma monitored_append [simp]: "monitored m (xs @ [x]) = (monitored m xs \<and> allowed (foldl observe m xs) (fst x))"
  by (induction xs arbitrary: m) auto

lemma recorded_store [simp]:
  "dep_readById (recorded d) i = plain (dep_readById d i)"
  "dep_applyTransition (recorded d) c e r = plain (dep_applyTransition d c e r)"
  "dep_exclusive (recorded d) i = plain (dep_exclusive d i)"
  by (simp_all add: recorded_def)

text \<open>
  The contract the driver relies on: while it holds the migration's lock nobody else starts or ends a
  compensation of the row (\<open>pend\<close> is the one that is pending), so only its own transitions do, and
  a transition answers what the reducer decides.
\<close>

definition quiet :: "('s \<Rightarrow> 'b) \<Rightarrow> 's migration_deps \<Rightarrow> bool" where
  "quiet v d \<longleftrightarrow> (\<forall>m. leaves v (dep_freshProvision d m) \<and> leaves v (dep_begin d m) \<and> (\<forall>k. leaves v (dep_head d m k)) \<and>
     leaves v (dep_exportEtag d m) \<and> leaves v (dep_provision d m) \<and> leaves v (dep_releaseProvision d m) \<and> leaves v (dep_restored d m) \<and>
     leaves v (dep_flip d m) \<and> leaves v (dep_rollback d m) \<and> (\<forall>c. leaves v (dep_commit d m c)) \<and> leaves v (dep_abort d m) \<and>
     (\<forall>e. leaves v (dep_reopen d m e)) \<and> leaves v (dep_stopCloudflare d m)) \<and> (\<forall>i. leaves v (dep_readById d i) \<and> leaves v (dep_exclusive d i))"

locale exclusive_migration =
  fixes deps :: "'s migration_deps" and pend :: "'s \<Rightarrow> MigrationEffect option" and i :: string
  assumes quiet_deps: "quiet pend deps"
    and reads_row: "dep_readById deps i s = (Inr (Some c), t) \<Longrightarrow> pendingRecovery c = pend s"
    and transition_reduces: "dep_applyTransition deps c event reason s = (Inr (True, r, effect), t) \<Longrightarrow> \<exists>m. reduceMigration c event = (True, m, effect)"
    and transition_fails: "dep_applyTransition deps c event reason s = (Inl e, t) \<Longrightarrow> pend t = pend s"
begin

text \<open>The monitor accepted the calls so far and is in a state of \<open>M\<close>.\<close>

definition sofar :: "(monitor \<Rightarrow> bool) \<Rightarrow> (MigrationEffect option \<Rightarrow> bool) \<Rightarrow> calls \<times> 's \<Rightarrow> bool" where
  "sofar M K s \<longleftrightarrow> monitored mon_start (fst s) \<and> M (foldl observe mon_start (fst s)) \<and> K (pend (snd s))"

lemma leaves_pend: "leaves pend m \<Longrightarrow> m s = (r, t) \<Longrightarrow> pend t = pend s"
  by (metis leaves_def snd_conv)

lemma sofar_plain:
  assumes "leaves pend m"
  shows "valid (sofar M K) (plain m) (\<lambda>_. sofar M K) (\<lambda>_. sofar M K)"
  by (rule validI; auto simp: sofar_def plain_def leaves_pend [OF assms] split: prod.splits)

lemma sofar_noted:
  assumes "leaves pend m" and "\<And>\<mu>. M \<mu> \<Longrightarrow> allowed \<mu> c" and "\<And>\<mu> ok. M \<mu> \<Longrightarrow> M' ok (observe \<mu> (c, ok))"
  shows "valid (sofar M K) (noted c good m) (\<lambda>x. sofar (M' (good x)) K) (\<lambda>_. sofar (M' False) K)"
  by (rule validI; auto simp: sofar_def noted_def leaves_pend [OF assms(1)] intro: assms(2,3) split: prod.splits)

lemma sofar_weaken: "sofar M K s \<Longrightarrow> (\<And>\<mu>. M \<mu> \<Longrightarrow> M' \<mu>) \<Longrightarrow> (\<And>p. K p \<Longrightarrow> K' p) \<Longrightarrow> sofar M' K' s"
  by (auto simp: sofar_def)

text \<open>Calls the monitor always allows and that do not change it.\<close>

definition free_call :: "call \<Rightarrow> bool" where
  "free_call c \<longleftrightarrow> c \<notin> {Called_flip, Called_commit, Called_rollback, Called_abort, Called_reopen, Called_stopCloudflare}"

lemma sofar_free:
  assumes "leaves pend m" and "free_call c"
  shows "valid (sofar M K) (noted c good m) (\<lambda>_. sofar M K) (\<lambda>_. sofar M K)"
  using assms(2) by (intro sofar_noted [OF assms(1), of M c "\<lambda>_. M"]) (cases c; simp add: free_call_def)+

lemma quiet_calls:
  "leaves pend (dep_freshProvision deps m)" "leaves pend (dep_begin deps m)" "leaves pend (dep_head deps m k)"
  "leaves pend (dep_exportEtag deps m)" "leaves pend (dep_provision deps m)" "leaves pend (dep_releaseProvision deps m)"
  "leaves pend (dep_restored deps m)" "leaves pend (dep_flip deps m)" "leaves pend (dep_rollback deps m)"
  "leaves pend (dep_commit deps m c)" "leaves pend (dep_abort deps m)" "leaves pend (dep_reopen deps m e)"
  "leaves pend (dep_stopCloudflare deps m)" "leaves pend (dep_readById deps i)" "leaves pend (dep_exclusive deps i)"
  using quiet_deps by (simp_all add: quiet_def)

lemmas free_calls = quiet_calls [THEN sofar_free]

definition anyhow :: "calls \<times> 's \<Rightarrow> bool" where
  "anyhow = sofar (\<lambda>_. True) (\<lambda>_. True)"

lemma anyhowI: "sofar M K s \<Longrightarrow> anyhow s"
  by (simp add: anyhow_def sofar_def)

text \<open>The row is read, and the transition changes what is pending only when it is accepted.\<close>

definition or_conflict :: "(monitor \<Rightarrow> bool) \<Rightarrow> (MigrationEffect option \<Rightarrow> bool) \<Rightarrow> migration_error \<Rightarrow> calls \<times> 's \<Rightarrow> bool" where
  "or_conflict M K e = sofar M (\<lambda>p. e \<noteq> Migration_conflict \<longrightarrow> K p)"

lemma valid_read:
  "valid (sofar M K) (dep_readById (recorded deps) i) (\<lambda>c s. sofar M K s \<and> (\<forall>r. c = Some r \<longrightarrow> K (pendingRecovery r))) (\<lambda>_. sofar M K)"
proof (rule validI)
  fix s x t assume s: "sofar M K s" and r: "dep_readById (recorded deps) i s = (Inr x, t)"
  then obtain u where u: "dep_readById deps i (snd s) = (Inr x, u)" "t = (fst s, u)" by (auto simp: plain_def split: prod.splits)
  with s leaves_pend [OF quiet_calls(14) u(1)] have "sofar M K t" by (simp add: sofar_def)
  moreover have "K (pendingRecovery r)" if "x = Some r" for r using reads_row [of "snd s" r u] u that s by (simp add: sofar_def)
  ultimately show "sofar M K t \<and> (\<forall>r. x = Some r \<longrightarrow> K (pendingRecovery r))" by blast
next
  fix s e t assume "sofar M K s" and "dep_readById (recorded deps) i s = (Inl e, t)"
  then show "sofar M K t" by (auto simp: sofar_def plain_def leaves_pend [OF quiet_calls(14)] split: prod.splits)
qed

lemma valid_apply:
  "valid (sofar M K) (dep_applyTransition (recorded deps) c event reason)
     (\<lambda>d s. sofar M (\<lambda>_. True) s \<and> (fst d \<longrightarrow> (\<exists>m. reduceMigration c event = (True, m, snd (snd d))))) (\<lambda>_. sofar M K)"
proof (rule validI)
  fix s x t assume s: "sofar M K s" and r: "dep_applyTransition (recorded deps) c event reason s = (Inr x, t)"
  then obtain u where u: "dep_applyTransition deps c event reason (snd s) = (Inr x, u)" "t = (fst s, u)" by (auto simp: plain_def split: prod.splits)
  with s transition_reduces show "sofar M (\<lambda>_. True) t \<and> (fst x \<longrightarrow> (\<exists>m. reduceMigration c event = (True, m, snd (snd x))))"
    by (cases x) (auto simp: sofar_def)
next
  fix s e t assume s: "sofar M K s" and r: "dep_applyTransition (recorded deps) c event reason s = (Inl e, t)"
  then obtain u where u: "dep_applyTransition deps c event reason (snd s) = (Inl e, u)" "t = (fst s, u)" by (auto simp: plain_def split: prod.splits)
  with s transition_fails show "sofar M K t" by (auto simp: sofar_def)
qed

lemma valid_transition:
  "valid (sofar M K) (transition (recorded deps) i m event reason)
     (\<lambda>effect s. sofar M (\<lambda>_. True) s \<and> (\<exists>(c :: compute_migration) m'. K (pendingRecovery c) \<and> reduceMigration c event = (True, m', effect))) (or_conflict M K)"
  unfolding transition_def or_conflict_def
proof (rule valid_bind)
  show "valid (sofar M K) (dep_readById (recorded deps) i) (\<lambda>c s. sofar M K s \<and> (\<forall>r. c = Some r \<longrightarrow> K (pendingRecovery r)))
      (\<lambda>e. sofar M (\<lambda>p. e \<noteq> Migration_conflict \<longrightarrow> K p))"
    by (rule valid_weaken [OF valid_read]) (auto elim: sofar_weaken)
  show "valid (\<lambda>s. sofar M K s \<and> (\<forall>r. current = Some r \<longrightarrow> K (pendingRecovery r)))
      (case current of None \<Rightarrow> sthrow Migration_conflict
       | Some c \<Rightarrow> if mp_state c \<noteq> mp_state m then sthrow Migration_conflict
           else sbind (dep_applyTransition (recorded deps) c event reason) (\<lambda>(accepted, _, effect). if accepted then sreturn effect else sthrow Migration_conflict))
      (\<lambda>effect s. sofar M (\<lambda>_. True) s \<and> (\<exists>(c :: compute_migration) m'. K (pendingRecovery c) \<and> reduceMigration c event = (True, m', effect)))
      (\<lambda>e. sofar M (\<lambda>p. e \<noteq> Migration_conflict \<longrightarrow> K p))" for current
  proof (rule valid_pure, intro valid_case_option valid_if)
    fix c assume k: "\<forall>r. current = Some r \<longrightarrow> K (pendingRecovery r)" and c: "current = Some c"
    show "valid (sofar M K) (sbind (dep_applyTransition (recorded deps) c event reason) (\<lambda>(accepted, _, effect). if accepted then sreturn effect else sthrow Migration_conflict))
      (\<lambda>effect s. sofar M (\<lambda>_. True) s \<and> (\<exists>(c :: compute_migration) m'. K (pendingRecovery c) \<and> reduceMigration c event = (True, m', effect)))
      (\<lambda>e. sofar M (\<lambda>p. e \<noteq> Migration_conflict \<longrightarrow> K p))"
    proof (rule valid_bind)
      show "valid (sofar M K) (dep_applyTransition (recorded deps) c event reason)
          (\<lambda>d s. sofar M (\<lambda>_. True) s \<and> (fst d \<longrightarrow> (\<exists>m. reduceMigration c event = (True, m, snd (snd d))))) (\<lambda>e. sofar M (\<lambda>p. e \<noteq> Migration_conflict \<longrightarrow> K p))"
        by (rule valid_weaken [OF valid_apply]) (auto elim: sofar_weaken)
    next
      fix d :: "compute_migration migration_decision"
      from k c have "K (pendingRecovery c)" by blast
      then show "valid (\<lambda>s. sofar M (\<lambda>_. True) s \<and> (fst d \<longrightarrow> (\<exists>m. reduceMigration c event = (True, m, snd (snd d)))))
          (case d of (accepted, _, effect) \<Rightarrow> if accepted then sreturn effect else sthrow Migration_conflict)
          (\<lambda>effect s. sofar M (\<lambda>_. True) s \<and> (\<exists>(c :: compute_migration) m'. K (pendingRecovery c) \<and> reduceMigration c event = (True, m', effect)))
          (\<lambda>e. sofar M (\<lambda>p. e \<noteq> Migration_conflict \<longrightarrow> K p))"
        by (cases d; cases "fst d") (auto simp: valid_def elim: sofar_weaken)
    qed
  qed (auto intro!: valid_throw elim: sofar_weaken)
qed

text \<open>The compensation: rolled back first, and an abort only where no commit was attempted.\<close>

lemma valid_checked: "(\<And>x s. P s \<Longrightarrow> r = Mg_ok x \<Longrightarrow> Q x s) \<Longrightarrow> (\<And>e s. P s \<Longrightarrow> e \<noteq> Migration_conflict \<Longrightarrow> E e s) \<Longrightarrow> valid P (checked r) Q E"
  by (cases r) (auto intro!: valid_return valid_throw)

lemma valid_call_checked:
  assumes "valid P m R E" and "\<And>r x s. R r s \<Longrightarrow> r = Mg_ok x \<Longrightarrow> Q x s" and "\<And>r e s. R r s \<Longrightarrow> e \<noteq> Migration_conflict \<Longrightarrow> E e s"
  shows "valid P (sbind m checked) Q E"
  by (rule valid_bind [OF assms(1)]) (rule valid_checked; use assms(2,3) in blast)

lemma valid_anyhow: "valid P m Q E \<Longrightarrow> (\<And>x s. Q x s \<Longrightarrow> anyhow s) \<Longrightarrow> (\<And>e s. E e s \<Longrightarrow> anyhow s) \<Longrightarrow> valid P m (\<lambda>_. anyhow) (\<lambda>_. anyhow)"
  by (erule valid_weaken)

lemma valid_compensate:
  "valid (sofar (\<lambda>\<mu>. effect = Eff_reopen \<or> \<not> mon_attempted \<mu>) K) (compensate (recorded deps) i effect) (\<lambda>_. anyhow) (\<lambda>_. anyhow)"
  unfolding compensate_def
proof (rule valid_bind)
  let ?M = "\<lambda>\<mu>. effect = Eff_reopen \<or> \<not> mon_attempted \<mu>"
  show "valid (sofar ?M K) (dep_readById (recorded deps) i) (\<lambda>_. sofar ?M K) (\<lambda>_. anyhow)"
    by (rule valid_weaken [OF valid_read]) (auto intro: anyhowI)
  show "valid (sofar ?M K) (case current of None \<Rightarrow> sthrow Migration_conflict
     | Some c \<Rightarrow> if pendingRecovery c \<noteq> Some effect then sthrow Migration_conflict
         else sbind (dep_rollback (recorded deps) c) (\<lambda>_.
           sbind (if effect = Eff_reopen
             then sbind (dep_exportEtag (recorded deps) c) (\<lambda>etag. sbind (dep_reopen (recorded deps) c etag) checked)
             else sbind (dep_abort (recorded deps) c) checked) (\<lambda>_. sreturn c))) (\<lambda>_. anyhow) (\<lambda>_. anyhow)" for current
  proof (intro valid_case_option valid_if)
    fix c
    let ?R = "sofar (\<lambda>\<mu>. ?M \<mu> \<and> mon_rolled \<mu>) K"
    show "valid (sofar ?M K) (sbind (dep_rollback (recorded deps) c) (\<lambda>_.
           sbind (if effect = Eff_reopen
             then sbind (dep_exportEtag (recorded deps) c) (\<lambda>etag. sbind (dep_reopen (recorded deps) c etag) checked)
             else sbind (dep_abort (recorded deps) c) checked) (\<lambda>_. sreturn c))) (\<lambda>_. anyhow) (\<lambda>_. anyhow)"
    proof (rule valid_bind)
      show "valid (sofar ?M K) (dep_rollback (recorded deps) c) (\<lambda>_. ?R) (\<lambda>_. anyhow)"
        unfolding recorded_def migration_deps.simps
        by (rule valid_weaken [OF sofar_noted [OF quiet_calls(9), of ?M _ "\<lambda>ok \<mu>. ?M \<mu> \<and> mon_rolled \<mu> = ok"]])
          (auto intro: anyhowI elim: sofar_weaken)
      have reopen: "valid ?R (dep_reopen (recorded deps) c etag) (\<lambda>_. anyhow) (\<lambda>_. anyhow)" for etag
        unfolding recorded_def migration_deps.simps
        by (rule valid_weaken [OF sofar_noted [OF quiet_calls(12), of "\<lambda>\<mu>. ?M \<mu> \<and> mon_rolled \<mu>" _ "\<lambda>_ _. True"]]) (auto intro: anyhowI)
      have abort: "valid ?R (dep_abort (recorded deps) c) (\<lambda>_. anyhow) (\<lambda>_. anyhow)" if "effect \<noteq> Eff_reopen"
        unfolding recorded_def migration_deps.simps
        by (rule valid_weaken [OF sofar_noted [OF quiet_calls(11), of "\<lambda>\<mu>. ?M \<mu> \<and> mon_rolled \<mu>" _ "\<lambda>_ _. True"]])
          (use that in \<open>auto intro: anyhowI\<close>)
      have etag: "valid ?R (dep_exportEtag (recorded deps) c) (\<lambda>_. ?R) (\<lambda>_. anyhow)"
        unfolding recorded_def migration_deps.simps
        by (rule valid_weaken [OF free_calls(4)]) (auto simp: free_call_def intro: anyhowI)
      show "valid ?R (sbind (if effect = Eff_reopen
             then sbind (dep_exportEtag (recorded deps) c) (\<lambda>etag. sbind (dep_reopen (recorded deps) c etag) checked)
             else sbind (dep_abort (recorded deps) c) checked) (\<lambda>_. sreturn c)) (\<lambda>_. anyhow) (\<lambda>_. anyhow)"
      proof (rule valid_bind [where R = "\<lambda>_. anyhow"])
        show "valid ?R (if effect = Eff_reopen
             then sbind (dep_exportEtag (recorded deps) c) (\<lambda>etag. sbind (dep_reopen (recorded deps) c etag) checked)
             else sbind (dep_abort (recorded deps) c) checked) (\<lambda>_. anyhow) (\<lambda>_. anyhow)"
          by (rule valid_if, rule valid_bind [OF etag], rule valid_call_checked [OF reopen], assumption+,
              rule valid_call_checked [OF abort], assumption+)
      qed (rule valid_return)
    qed
  qed (auto intro!: valid_throw intro: anyhowI)
qed

lemma valid_recover:
  "valid (sofar (\<lambda>\<mu>. effect = Eff_reopen \<or> \<not> mon_attempted \<mu>) K) (recover (recorded deps) i m effect) (\<lambda>_. anyhow) (\<lambda>_. anyhow)"
proof -
  have t: "valid anyhow (transition (recorded deps) i m event reason) (\<lambda>_. anyhow) (\<lambda>_. anyhow)" for event reason
    unfolding anyhow_def by (rule valid_weaken [OF valid_transition [where M = "\<lambda>_. True" and K = "\<lambda>_. True"]]) (auto simp: or_conflict_def)
  show ?thesis unfolding recover_def
    by (rule valid_catch [where R = "\<lambda>_. anyhow"])
      (auto intro!: valid_bind [OF valid_compensate] valid_bind [OF t] valid_if valid_return valid_throw)
qed

text \<open>A step: a commit is attempted only in the commit step, and what is pending changes only with a transition.\<close>

definition before :: "calls \<times> 's \<Rightarrow> bool" where
  "before = sofar (\<lambda>\<mu>. \<not> mon_attempted \<mu>) (\<lambda>p. p = None)"

definition failed :: "string \<times> migration_error \<Rightarrow> calls \<times> 's \<Rightarrow> bool" where
  "failed failure = sofar (\<lambda>\<mu>. mon_attempted \<mu> \<longrightarrow> fst failure = ''commit'') (\<lambda>p. snd failure \<noteq> Migration_conflict \<longrightarrow> p = None)"

definition failed_early :: "migration_error \<Rightarrow> calls \<times> 's \<Rightarrow> bool" where
  "failed_early e = sofar (\<lambda>\<mu>. \<not> mon_attempted \<mu>) (\<lambda>p. e \<noteq> Migration_conflict \<longrightarrow> p = None)"

lemma before_failed: "before s \<Longrightarrow> failed_early e s"
  by (auto simp: before_def failed_early_def elim: sofar_weaken)

lemma valid_in_step: "valid P m Q (\<lambda>e. E (step, e)) \<Longrightarrow> valid P (in_step step m) Q E"
  unfolding in_step_def by (rule valid_catch) (auto intro: valid_throw)

lemma valid_early: "valid P m Q failed_early \<Longrightarrow> valid P (in_step step m) Q failed"
  by (intro valid_in_step) (erule valid_weaken; auto simp: failed_def failed_early_def elim: sofar_weaken)

lemma before_call:
  "leaves pend m \<Longrightarrow> free_call c \<Longrightarrow> valid before (noted c good m) (\<lambda>_. before) failed_early"
  unfolding before_def failed_early_def by (rule valid_weaken [OF sofar_free]) (auto elim: sofar_weaken)

lemma before_transition: "valid before (transition (recorded deps) i m event reason) (\<lambda>_. anyhow) failed_early"
  unfolding before_def failed_early_def by (rule valid_weaken [OF valid_transition]) (auto simp: or_conflict_def intro: anyhowI)

lemma before_ended: "valid before (sbind (transition (recorded deps) i m event reason) (\<lambda>_. sreturn ())) (\<lambda>_. anyhow) failed_early"
  by (rule valid_bind [OF before_transition]) (rule valid_return)

lemma before_checked: "valid before m (\<lambda>_. before) failed_early \<Longrightarrow> valid before (sbind m checked) (\<lambda>_. before) failed_early"
  by (rule valid_call_checked [where R = "\<lambda>_. before"]) (auto intro: before_failed)

lemma checked_before: "valid before (checked r) (\<lambda>_. before) failed_early"
  by (rule valid_checked) (auto intro: before_failed)

lemma before_calls:
  "valid before (dep_freshProvision (recorded deps) m) (\<lambda>_. before) failed_early"
  "valid before (dep_begin (recorded deps) m) (\<lambda>_. before) failed_early"
  "valid before (dep_head (recorded deps) m k) (\<lambda>_. before) failed_early"
  "valid before (dep_provision (recorded deps) m) (\<lambda>_. before) failed_early"
  "valid before (dep_restored (recorded deps) m) (\<lambda>_. before) failed_early"
  unfolding recorded_def migration_deps.simps
  by (intro before_call quiet_calls; simp add: free_call_def)+

lemma before_anyhow: "before s \<Longrightarrow> anyhow s"
  by (simp add: before_def anyhowI)

lemma step_begin_valid: "valid before (step_begin (recorded deps) i m) (\<lambda>_. anyhow) failed_early"
  unfolding step_begin_def
proof (rule valid_bind [OF before_calls(2)], rule valid_if)
  fix result
  show "valid before (dep_freshProvision (recorded deps) m) (\<lambda>_. anyhow) failed_early"
    by (rule valid_weaken [OF before_calls(1)]) (auto intro: before_anyhow)
  show "valid before (sbind (checked result) (\<lambda>b. sbind (transition (recorded deps) i m (ME_fenced (bg_etag b) (bg_systemEtag b) (bg_generation b)) None)
      (\<lambda>_. sreturn ()))) (\<lambda>_. anyhow) failed_early"
    by (rule valid_bind [OF checked_before before_ended])
qed

lemma read_system_head_valid: "valid before (read_system_head r) (\<lambda>_. before) failed_early"
  unfolding read_system_head_def
  by (cases r; simp only: migrate_result.case; intro valid_return valid_bind [OF checked_before])

lemma step_export_valid: "valid before (step_export (recorded deps) i m) (\<lambda>_. anyhow) failed_early"
  unfolding step_export_def Let_def
  by (rule valid_bind [OF before_checked [OF before_calls(3)]], rule valid_bind [OF valid_bind [OF before_calls(3) read_system_head_valid]])
    (intro valid_if valid_throw before_ended; erule before_failed)

lemma step_provision_valid: "valid before (step_provision (recorded deps) i m) (\<lambda>_. anyhow) failed_early"
  unfolding step_provision_def by (rule valid_bind [OF before_calls(4) before_ended])

lemma step_restore_valid: "valid before (step_restore (recorded deps) i m) (\<lambda>_. anyhow) failed_early"
  unfolding step_restore_def
  by (rule valid_bind [OF before_calls(5)]) (intro valid_if before_ended valid_return; erule before_anyhow)

lemma step_commit_valid:
  "valid (sofar mon_flipped (\<lambda>p. p = None)) (step_commit (recorded deps) i m) (\<lambda>_. anyhow) (or_conflict (\<lambda>_. True) (\<lambda>p. p = None))"
proof -
  let ?E = "or_conflict (\<lambda>_. True) (\<lambda>p. p = None)" and ?C = "sofar mon_committed (\<lambda>p. p = None)"
  have commit: "valid (sofar mon_flipped (\<lambda>p. p = None)) (sbind (dep_commit (recorded deps) m c) checked) (\<lambda>_. ?C) ?E" for c
  proof (rule valid_call_checked)
    show "valid (sofar mon_flipped (\<lambda>p. p = None)) (dep_commit (recorded deps) m c) (\<lambda>x. sofar (\<lambda>\<mu>. mon_committed \<mu> = well x) (\<lambda>p. p = None)) ?E"
      unfolding recorded_def migration_deps.simps
      by (rule valid_weaken [OF sofar_noted [OF quiet_calls(10), of mon_flipped _ "\<lambda>ok \<mu>. mon_committed \<mu> = ok"]])
        (auto simp: or_conflict_def elim: sofar_weaken)
  qed (auto simp: or_conflict_def elim: sofar_weaken)
  have etag: "valid ?C (dep_exportEtag (recorded deps) m) (\<lambda>_. ?C) ?E"
    unfolding recorded_def migration_deps.simps
    by (rule valid_weaken [OF free_calls(4)]) (auto simp: free_call_def or_conflict_def elim: sofar_weaken)
  have stop: "valid ?C (dep_stopCloudflare (recorded deps) m) (\<lambda>_. ?C) ?E"
    unfolding recorded_def migration_deps.simps
    by (rule valid_weaken [OF sofar_noted [OF quiet_calls(13), of mon_committed _ "\<lambda>_. mon_committed"]])
      (auto simp: or_conflict_def elim: sofar_weaken)
  have done_: "valid ?C (sbind (transition (recorded deps) i m (ME_committed etag) None) (\<lambda>_. sreturn ())) (\<lambda>_. anyhow) ?E" for etag
  proof (rule valid_bind)
    show "valid ?C (transition (recorded deps) i m (ME_committed etag) None) (\<lambda>_. anyhow) ?E"
      by (rule valid_weaken [OF valid_transition]) (auto simp: or_conflict_def intro: anyhowI elim: sofar_weaken)
  qed (rule valid_return)
  show ?thesis unfolding step_commit_def by (rule valid_bind [OF commit], rule valid_bind [OF etag], rule valid_bind [OF stop], rule done_)
qed

lemma run_step_valid: "valid before (run_step (recorded deps) i m st) (\<lambda>_. anyhow) failed"
proof (cases st)
  case MS_restored
  have flip: "valid before (in_step ''flip'' (dep_flip (recorded deps) m)) (\<lambda>_. sofar mon_flipped (\<lambda>p. p = None)) failed"
    unfolding recorded_def migration_deps.simps before_def
    by (rule valid_early, rule valid_weaken [OF sofar_noted [OF quiet_calls(8), of "\<lambda>\<mu>. \<not> mon_attempted \<mu>" _ "\<lambda>ok \<mu>. mon_flipped \<mu> = ok \<and> \<not> mon_attempted \<mu>"]])
      (auto simp: failed_early_def elim: sofar_weaken)
  have commit: "valid (sofar mon_flipped (\<lambda>p. p = None)) (in_step ''commit'' (step_commit (recorded deps) i m)) (\<lambda>_. anyhow) failed"
    by (rule valid_in_step, rule valid_weaken [OF step_commit_valid]) (auto simp: failed_def or_conflict_def elim: sofar_weaken)
  show ?thesis using MS_restored by (simp add: valid_bind [OF flip commit])
qed (auto intro!: valid_early valid_return step_begin_valid step_export_valid step_provision_valid step_restore_valid before_anyhow)

lemma step_failed_valid: "valid (failed failure) (step_failed (recorded deps) i m failure) (\<lambda>_. anyhow) (\<lambda>_. anyhow)"
proof (cases failure)
  case (Pair step e)
  show ?thesis unfolding step_failed_def Pair prod.case
  proof (rule valid_if)
    show "valid (failed (step, e)) (sthrow e) (\<lambda>_. anyhow) (\<lambda>_. anyhow)" by (rule valid_throw) (simp add: failed_def anyhowI)
    assume e: "e \<noteq> Migration_conflict"
    let ?M = "\<lambda>\<mu>. mon_attempted \<mu> \<longrightarrow> step = ''commit''" and ?ev = "ME_error step (step \<noteq> ''commit'' \<and> retryable_error e)"
    let ?R = "\<lambda>effect. sofar (\<lambda>\<mu>. effect \<noteq> Some Eff_abort \<or> \<not> mon_attempted \<mu>) (\<lambda>_. True)"
    have red: "effect \<noteq> Some Eff_abort" if "pendingRecovery c = None" "reduceMigration c ?ev = (True, m', effect)" "step = ''commit''" for c :: compute_migration and m' effect
    proof (cases "terminal c")
      case True
      with that show ?thesis by (simp add: reduce_live unchanged_def)
    next
      case False
      with that show ?thesis by (auto simp: reduce_live reduce_error_def Let_def)
    qed
    have q: "?R effect s" if s: "sofar ?M (\<lambda>_. True) s"
      and c: "\<exists>(c :: compute_migration) m'. pendingRecovery c = None \<and> reduceMigration c ?ev = (True, m', effect)" for effect s
    proof (cases "step = ''commit''")
      case True
      with c red have "effect \<noteq> Some Eff_abort" by blast
      with s show ?thesis by (simp add: sofar_def)
    next
      case False
      with s show ?thesis by (simp add: sofar_def)
    qed
    show "valid (failed (step, e)) (sbind (transition (recorded deps) i m ?ev (error_reason e)) (\<lambda>effect.
        if effect = Some Eff_abort \<or> effect = Some Eff_reopen then recover (recorded deps) i m (the effect) else sreturn ())) (\<lambda>_. anyhow) (\<lambda>_. anyhow)"
    proof (rule valid_bind)
      show "valid (failed (step, e)) (transition (recorded deps) i m ?ev (error_reason e)) ?R (\<lambda>_. anyhow)"
      proof (rule valid_weaken [OF valid_transition [where M = ?M and K = "\<lambda>p. p = None"]])
        show "failed (step, e) s \<Longrightarrow> sofar ?M (\<lambda>p. p = None) s" for s using e by (auto simp: failed_def elim: sofar_weaken)
      qed (use q in \<open>auto simp: or_conflict_def intro: anyhowI\<close>)
      show "valid (?R effect) (if effect = Some Eff_abort \<or> effect = Some Eff_reopen then recover (recorded deps) i m (the effect) else sreturn ())
          (\<lambda>_. anyhow) (\<lambda>_. anyhow)" for effect
        by (rule valid_if, rule valid_weaken [OF valid_recover [where K = "\<lambda>_. True"]]) (auto intro: valid_return anyhowI elim: sofar_weaken)
    qed
  qed
qed

lemma valid_anyhow_any: "valid P m Q E \<Longrightarrow> (\<And>s. P' s \<Longrightarrow> P s) \<Longrightarrow> (\<And>x s. Q x s \<Longrightarrow> anyhow s) \<Longrightarrow> (\<And>e s. E e s \<Longrightarrow> anyhow s) \<Longrightarrow>
    valid P' m (\<lambda>_. anyhow) (\<lambda>_. anyhow)"
  by (rule valid_weaken)

lemma advance_row_valid: "valid (sofar (\<lambda>\<mu>. \<not> mon_attempted \<mu>) (\<lambda>_. True)) (advance_row (recorded deps) i) (\<lambda>_. anyhow) (\<lambda>_. anyhow)"
  unfolding advance_row_def
proof (rule valid_bind)
  let ?P = "sofar (\<lambda>\<mu>. \<not> mon_attempted \<mu>)"
  show "valid (?P (\<lambda>_. True)) (dep_readById (recorded deps) i)
      (\<lambda>c s. sofar (\<lambda>\<mu>. \<not> mon_attempted \<mu>) (\<lambda>p. \<forall>r. c = Some r \<longrightarrow> p = pendingRecovery r) s) (\<lambda>_. anyhow)"
  proof (rule validI)
    fix s x t assume s: "?P (\<lambda>_. True) s" and r: "dep_readById (recorded deps) i s = (Inr x, t)"
    then obtain u where u: "dep_readById deps i (snd s) = (Inr x, u)" "t = (fst s, u)" by (auto simp: plain_def split: prod.splits)
    with s leaves_pend [OF quiet_calls(14) u(1)] reads_row show "?P (\<lambda>p. \<forall>r. x = Some r \<longrightarrow> p = pendingRecovery r) t"
      by (auto simp: sofar_def)
  qed (auto simp: plain_def anyhow_def sofar_def split: prod.splits)
  fix row
  show "valid (?P (\<lambda>p. \<forall>r. row = Some r \<longrightarrow> p = pendingRecovery r)) (case row of None \<Rightarrow> sreturn ()
     | Some m \<Rightarrow>
         if mp_state m \<in> set TERMINAL_MIGRATION_STATES
         then (if mp_state m \<noteq> MS_committed then dep_releaseProvision (recorded deps) m else sreturn ())
         else (case pendingRecovery m of
             Some effect \<Rightarrow> recover (recorded deps) i m effect
           | None \<Rightarrow> try_catch (run_step (recorded deps) i m (mp_state m)) (step_failed (recorded deps) i m))) (\<lambda>_. anyhow) (\<lambda>_. anyhow)"
  proof (intro valid_case_option valid_if)
    fix m assume "row = Some m"
    show "valid (?P (\<lambda>p. \<forall>r. row = Some r \<longrightarrow> p = pendingRecovery r)) (dep_releaseProvision (recorded deps) m) (\<lambda>_. anyhow) (\<lambda>_. anyhow)"
      unfolding recorded_def migration_deps.simps
      by (rule valid_anyhow_any [OF free_calls(6)]) (auto simp: free_call_def intro: anyhowI)
    show "valid (?P (\<lambda>p. \<forall>r. row = Some r \<longrightarrow> p = pendingRecovery r)) (recover (recorded deps) i m effect) (\<lambda>_. anyhow) (\<lambda>_. anyhow)" for effect
      by (rule valid_anyhow_any [OF valid_recover]) (auto elim: sofar_weaken)
    assume n: "pendingRecovery m = None"
    show "valid (?P (\<lambda>p. \<forall>r. row = Some r \<longrightarrow> p = pendingRecovery r)) (try_catch (run_step (recorded deps) i m (mp_state m)) (step_failed (recorded deps) i m))
        (\<lambda>_. anyhow) (\<lambda>_. anyhow)"
    proof (rule valid_catch [OF _ step_failed_valid])
      show "valid (?P (\<lambda>p. \<forall>r. row = Some r \<longrightarrow> p = pendingRecovery r)) (run_step (recorded deps) i m (mp_state m)) (\<lambda>_. anyhow) failed"
        by (rule valid_weaken [OF run_step_valid]) (use n \<open>row = Some m\<close> in \<open>auto simp: before_def elim: sofar_weaken\<close>)
    qed
  qed (auto intro!: valid_return anyhowI)
qed

lemma advance_valid: "valid (\<lambda>s. fst s = []) (advanceMigration (recorded deps) i) (\<lambda>_. anyhow) (\<lambda>_. anyhow)"
  unfolding advanceMigration_def
proof (rule valid_catch [where R = "\<lambda>_. anyhow"])
  let ?P = "sofar (\<lambda>\<mu>. \<not> mon_attempted \<mu>) (\<lambda>_. True)"
  show "valid (\<lambda>s. fst s = []) (sbind (dep_exclusive (recorded deps) i) (\<lambda>acquired. if acquired then advance_row (recorded deps) i else sreturn ()))
      (\<lambda>_. anyhow) (\<lambda>_. anyhow)"
  proof (rule valid_bind [where R = "\<lambda>_. ?P"])
    show "valid (\<lambda>s. fst s = []) (dep_exclusive (recorded deps) i) (\<lambda>_. ?P) (\<lambda>_. anyhow)"
      unfolding recorded_store by (rule valid_weaken [OF sofar_plain [OF quiet_calls(15), of "\<lambda>\<mu>. \<not> mon_attempted \<mu>" "\<lambda>_. True"]]) (auto simp: sofar_def mon_start_def anyhow_def)
  qed (auto intro!: valid_if valid_return advance_row_valid intro: anyhowI)
qed (auto intro!: valid_if valid_return valid_throw)

lemma advance_protocol: "advanceMigration (recorded deps) i ([], s) = (res, calls, t) \<Longrightarrow> monitored mon_start calls"
  using advance_valid by (cases res) (auto simp: valid_def anyhow_def sofar_def split: prod.splits sum.splits)

end

end
