(* ===== verification/Migration_Runtime.thy ===== *)
theory Migration_Runtime
  imports Migration_Provision Admission Migration_Run
begin

text \<open>
  The runtime of a migration (\<^verbatim>\<open>createMigrationRuntime\<close> in \<^verbatim>\<open>app/src/server/lib/compute/provider-migrate-runtime.ts\<close>): the dependencies of the
  driver, over the database of the migrations and placements and a world outside it. The world is what answers over the network: the
  Worker that holds the snapshot, AWS, the billing meter; with it come the clock and the random source. Its operations are the
  record of services; whatever they do, they do not write the database.
\<close>

subsection \<open>The world outside\<close>

record paid_entitlement =
  en_status :: string
  en_planId :: "string option"
  en_size :: "SizeCode option"
  en_provider :: "string option"
  en_paymentIssue :: bool

text \<open>What one boot draws at random.\<close>

record boot_draw =
  dr_token :: string
  dr_fsUuid :: string
  dr_fenceToken :: string
  dr_nonceHash :: string
  dr_jobId :: string

text \<open>An error of the receipt's reader, by what its handler asks of it; the state of an execution as its reader answers it.\<close>

record receipt_error =
  re_absent :: bool
  re_migration :: bool
  re_retryable :: bool

datatype boot_execution = Execution_in string | Execution_absent | Execution_unread

text \<open>\<open>sv_digest\<close> is the digest of the lifecycle document built for the boot; the settings are those the environment holds.\<close>

record 'w runtime_services =
  sv_env :: env
  sv_newURL :: "string \<Rightarrow> url_parts res"
  sv_sha256 :: "string \<Rightarrow> string"
  sv_deployment :: "json option"
  sv_zoneId :: "json \<Rightarrow> string"
  sv_enrollUrl :: "string option"
  sv_starter :: bool
  sv_executions :: bool
  sv_describer :: bool
  sv_digest :: "restore_lease \<Rightarrow> boot_draw \<Rightarrow> json \<Rightarrow> string \<Rightarrow> int \<Rightarrow> string"
  sv_lock :: "string \<Rightarrow> ('w, bool) mig"
  sv_now :: "'w \<Rightarrow> int \<times> 'w"
  sv_draw :: "'w \<Rightarrow> boot_draw \<times> 'w"
  sv_begin :: "compute_migration \<Rightarrow> ('w, begin_result migrate_result) mig"
  sv_head :: "compute_migration \<Rightarrow> restore_kind \<Rightarrow> ('w, snapshot_head migrate_result) mig"
  sv_export :: "compute_migration \<Rightarrow> ('w, string option migrate_result) mig"
  sv_commit :: "compute_migration \<Rightarrow> commit_input \<Rightarrow> ('w, unit migrate_result) mig"
  sv_abort :: "compute_migration \<Rightarrow> ('w, unit migrate_result) mig"
  sv_reopen :: "compute_migration \<Rightarrow> string \<Rightarrow> ('w, unit migrate_result) mig"
  sv_entitlement :: "string \<Rightarrow> ('w, paid_entitlement option) mig"
  sv_start :: "string \<Rightarrow> string \<Rightarrow> ('w, bool) mig"
  sv_ready :: "migration_provision \<Rightarrow> (receipt_error, 'w, bool) procedure"
  sv_execution :: "json \<Rightarrow> string \<Rightarrow> 'w \<Rightarrow> boot_execution \<times> 'w"
  sv_instance :: "string \<Rightarrow> ('w, (string \<times> string) option) mig"
  sv_stop :: "compute_migration \<Rightarrow> ('w, bool) mig"
  sv_stopped :: "compute_migration \<Rightarrow> ('w, unit) mig"

type_synonym 'w runtime = "compute_db \<times> 'w"

definition outside :: "('e, 'w, 'a) procedure \<Rightarrow> ('e, 'w runtime, 'a) procedure" where
  "outside m s = (case m (snd s) of (r, w) \<Rightarrow> (r, (fst s, w)))"

definition drawn :: "('w \<Rightarrow> 'a \<times> 'w) \<Rightarrow> ('w runtime, 'a) mig" where
  "drawn f s = (case f (snd s) of (x, w) \<Rightarrow> (Inr x, (fst s, w)))"

text \<open>An error of the placements is an error like any other for the driver, unless the migrations' store threw it.\<close>

fun as_migration_error :: "compute_error \<Rightarrow> migration_error" where
  "as_migration_error (Of_moves e) = e"
| "as_migration_error (Refused why) = Store_failure why"
| "as_migration_error (Placement_integrity _) = Store_failure ''placement integrity''"
| "as_migration_error Placement_owner = Store_failure ''placement owner''"
| "as_migration_error Image_job_conflict = Store_failure ''image job''"
| "as_migration_error (Placement_isolation level) = Store_failure level"

definition database :: "'a compute_op \<Rightarrow> ('w runtime, 'a) mig" where
  "database m s = (case m (fst s) of (Inl e, t) \<Rightarrow> (Inl (as_migration_error e), (t, snd s)) | (Inr x, t) \<Rightarrow> (Inr x, (t, snd s)))"

text \<open>
  A transaction that asks the outside one question after its own checks. It is asked exactly when the transaction, run
  up to the question, gets there; nothing is written before it.
\<close>

definition question_mark :: compute_error where
  "question_mark = Refused ''?''"

definition asks :: "(bool compute_op \<Rightarrow> 'a compute_op) \<Rightarrow> ('w, bool) mig \<Rightarrow> ('w runtime, 'a) mig" where
  "asks op question s = (case fst (op (sthrow question_mark) (fst s)) of
     Inl e \<Rightarrow> if e = question_mark then sbind (outside question) (\<lambda>b. database (op (sreturn b))) s else database (op (sthrow question_mark)) s
   | Inr _ \<Rightarrow> database (op (sthrow question_mark)) s)"

definition step_error :: "bool \<Rightarrow> migration_error" where
  "step_error retryable = Step_error retryable None"

definition in_row :: "string \<Rightarrow> ('w runtime, compute_migration option) mig" where
  "in_row i = database (in_moves (readById i))"

subsection \<open>Provisioning\<close>

definition AWS_TIER_DATA_GIB :: "AwsTier \<Rightarrow> int" where
  "AWS_TIER_DATA_GIB t = (if t = Tier_free then 20 else 50)"

definition dataGiBForNewVolume :: "AwsTier \<Rightarrow> string option \<Rightarrow> int" where
  "dataGiBForNewVolume tier planId = (if tier = Tier_free then AWS_TIER_DATA_GIB Tier_free
     else (case planId of None \<Rightarrow> AWS_TIER_DATA_GIB tier
       | Some p \<Rightarrow> (case find (\<lambda>sku. sku3_string sku = p) all_skus3 of None \<Rightarrow> AWS_TIER_DATA_GIB tier | Some sku \<Rightarrow> (case o3_storageGiB (CATALOG_V3 sku) of None \<Rightarrow> AWS_TIER_DATA_GIB tier | Some n \<Rightarrow> n))))"

definition paid_for_aws :: "paid_entitlement option \<Rightarrow> bool" where
  "paid_for_aws e \<longleftrightarrow> (case e of None \<Rightarrow> False
     | Some e \<Rightarrow> en_status e = ''active'' \<and> \<not> en_paymentIssue e \<and> en_provider e = Some ''aws'' \<and>
         en_planId e \<in> {Some ''standard_monthly_v3'', Some ''premium_monthly_v3''})"

definition paid_tier :: "paid_entitlement \<Rightarrow> AwsTier option" where
  "paid_tier e = Option.bind (if en_planId e = Some ''standard_monthly_v3'' then Some Std_2 else en_size e) awsTierForSize"

definition boot_placement :: "compute_migration \<Rightarrow> AwsTier \<Rightarrow> string \<Rightarrow> string \<Rightarrow> boot_draw \<Rightarrow> int \<Rightarrow> Placement" where
  "boot_placement m tier zoneId digest d now =
     \<lparr>pl_computerId = cm_computerId m, pl_ownerUserId = cm_userId m, pl_provider = Aws_ec2, pl_store = Ebs, pl_generation = 1, pl_leaseEpoch = 1,
      pl_state = PROVISIONING,
      pl_boot = no_boot\<lparr>bt_region := Some ''ap-south-1'', bt_zoneId := Some zoneId, bt_instanceType := Some (instanceTypeForTier tier),
        bt_fsUuid := Some (dr_fsUuid d), bt_fenceToken := Some (dr_fenceToken d), bt_enrollNonceHash := Some (dr_nonceHash d),
        bt_enrollExpiresAt := Some (now + ENROLL_NONCE_TTL_SECONDS * 1000), bt_leaseUntil := Some (now + 3600000),
        bt_lifecycleJobId := Some (dr_jobId d), bt_lifecycleDigest := Some digest\<rparr>,
      pl_updatedAt = now\<rparr>"

definition lease_of :: "'w runtime_services \<Rightarrow> compute_migration \<Rightarrow> string \<Rightarrow> string \<Rightarrow> restore_lease res" where
  "lease_of sv m token enrollUrl = rbind (sv_newURL sv enrollUrl) (\<lambda>u. rbind (restoreFetchBase (sv_newURL sv) (url_origin u) (cm_computerId m)) (\<lambda>base.
     restoreLeaseFor (sv_newURL sv) m (cm_id m) (cm_computerId m) token base))"

text \<open>
  Admitted capacity, the token and the intent in one transaction; the answer is the job to start, or nothing when another
  worker has recorded its intent already.
\<close>

definition reserve_boot :: "'w runtime_services \<Rightarrow> compute_migration \<Rightarrow> AwsTier \<Rightarrow> string option \<Rightarrow> json \<Rightarrow> string \<Rightarrow> int \<Rightarrow> boot_draw \<Rightarrow> (string \<times> string) option compute_op" where
  "reserve_boot sv m tier planId deployment enrollUrl now d =
     withAdmission (sbind (in_moves (readById (cm_id m))) (\<lambda>cur. case cur of None \<Rightarrow> sreturn None
     | Some c \<Rightarrow>
       if mp_state c \<noteq> MS_exported \<or> provisionFor c \<noteq> None then sreturn None
       else sbind (readAdmissionCounters (cm_userId m) (cm_computerId m) now) (\<lambda>counters.
         case decideAdmission (readAwsAdmissionConfig (sv_env sv)) counters (cm_userId m) (Some (Plan_lease (Some ''ap-south-1''))) (Some (instanceTypeForTier tier)) of
           Refused_for _ \<Rightarrow> sthrow (Of_moves (step_error True))
         | Admitted_to _ \<Rightarrow> sbind (readPlacement (cm_computerId m) None) (\<lambda>found.
             if (case rp_record found of None \<Rightarrow> False | Some p \<Rightarrow> pl_provider p \<noteq> Cloudflare) then sthrow (Of_moves (step_error False))
             else sbind (in_moves (mintRestoreToken (sv_sha256 sv) (dr_token d) now c)) (\<lambda>token.
               sbind (in_moves (readById (cm_id m))) (\<lambda>fresh. case fresh of None \<Rightarrow> sthrow (Of_moves (Store_failure ''TypeError''))
               | Some f \<Rightarrow> (case lease_of sv f token enrollUrl of Inl _ \<Rightarrow> sthrow (Of_moves (Store_failure ''invalid migration restore lease''))
                 | Inr lease \<Rightarrow>
                     let digest = sv_digest sv lease d deployment (instanceTypeForTier tier) (dataGiBForNewVolume tier planId) in
                     sbind (in_moves (saveProvision f (provision_json
                       \<lparr>pv_placement = boot_placement m tier (sv_zoneId sv deployment) digest d now, pv_deployment = deployment,
                        pv_source = rp_record found, pv_reservedAt = iso_string now, pv_released = None\<rparr>)))
                     (\<lambda>_. sreturn (Some (dr_jobId d, digest))))))))))"

definition provision_step :: "'w runtime_services \<Rightarrow> compute_migration \<Rightarrow> ('w runtime, unit) mig" where
  "provision_step sv m =
     (if provisionFor m \<noteq> None then sreturn ()
      else sbind (outside (sv_entitlement sv (cm_userId m))) (\<lambda>e.
        if \<not> paid_for_aws e then sthrow (step_error False)
        else (case paid_tier (the e) of None \<Rightarrow> sthrow (step_error False)
        | Some tier \<Rightarrow>
            if tier = Tier_free then sthrow (step_error False)
            else sbind (drawn (sv_now sv)) (\<lambda>now.
              case readAwsAdmissionConfig (sv_env sv) of Aws_off _ \<Rightarrow> sthrow (step_error True)
              | Aws_on _ _ _ \<Rightarrow> (case (sv_deployment sv, sv_enrollUrl sv) of
                  (Some deployment, Some enrollUrl) \<Rightarrow>
                    if \<not> sv_starter sv then sthrow (step_error True)
                    else sbind (drawn (sv_draw sv)) (\<lambda>d.
                      sbind (database (reserve_boot sv m tier (en_planId (the e)) deployment enrollUrl now d)) (\<lambda>work.
                        case work of None \<Rightarrow> sreturn ()
                        | Some (jobId, digest) \<Rightarrow> sbind (outside (sv_start sv jobId digest)) (\<lambda>was_refused.
                            if was_refused then sthrow (step_error False) else sreturn ())))
                | _ \<Rightarrow> sthrow (step_error True))))))"

subsection \<open>The other steps\<close>

text \<open>\<^verbatim>\<open>etag.replace(/^"|"$/g, '')\<close>\<close>

definition unquoted :: "string \<Rightarrow> string" where
  "unquoted t = (let t = (case t of CHR 0x22 # cs \<Rightarrow> cs | _ \<Rightarrow> t) in if t \<noteq> [] \<and> last t = CHR 0x22 then butlast t else t)"

definition exportEtag :: "'w runtime_services \<Rightarrow> compute_migration \<Rightarrow> ('w runtime, string) mig" where
  "exportEtag sv m = sbind (outside (sv_export sv m)) (\<lambda>r. case r of
     Mg_ok (Some etag) \<Rightarrow> if etag = [] then sthrow (step_error False) else sreturn (unquoted etag)
   | Mg_ok None \<Rightarrow> sthrow (step_error False)
   | Mg_unavailable \<Rightarrow> sthrow (step_error True)
   | _ \<Rightarrow> sthrow (step_error False))"

definition no_workspace :: "begin_result migrate_result \<Rightarrow> bool" where
  "no_workspace r \<longleftrightarrow> r = Mg_conflict (Some ''no_workspace'')"

definition fresh_provision :: "'w runtime_services \<Rightarrow> compute_migration \<Rightarrow> ('w runtime, unit) mig" where
  "fresh_provision sv m = (case readAwsAdmissionConfig (sv_env sv) of
     Aws_on False _ _ \<Rightarrow> asks (finishFreshProvision m) (sbind (sv_begin sv m) (\<lambda>r. sreturn (no_workspace r)))
   | _ \<Rightarrow> sthrow (step_error True))"

text \<open>\<^verbatim>\<open>Date.now() - Date.parse(reservedAt)\<close>, which is \<^verbatim>\<open>NaN\<close> for a text that is no instant.\<close>

definition reserved_for :: "int \<Rightarrow> migration_provision \<Rightarrow> int option" where
  "reserved_for now v = map_option (\<lambda>t. now - t) (parse_iso (pv_reservedAt v))"

definition old_enough :: "int \<Rightarrow> int option \<Rightarrow> bool" where
  "old_enough ms age \<longleftrightarrow> (case age of None \<Rightarrow> False | Some a \<Rightarrow> ms \<le> a)"

definition release_boot :: "compute_migration \<Rightarrow> migration_provision \<Rightarrow> ('w runtime, unit) mig" where
  "release_boot m v = database (in_moves (saveProvision m (provision_json (v\<lparr>pv_released := Some True\<rparr>))))"

text \<open>The execution is over, or was never seen for five minutes, and the host, where there is one, is stopped or gone.\<close>

definition release_provision :: "'w runtime_services \<Rightarrow> compute_migration \<Rightarrow> ('w runtime, unit) mig" where
  "release_provision sv m =
     (if mp_state m \<noteq> MS_failed_reopened \<and> mp_state m \<noteq> MS_failed_needs_operator then sreturn ()
      else (case provisionFor m of None \<Rightarrow> sreturn ()
      | Some v \<Rightarrow>
          let b = pl_boot (pv_placement v) in
          if pv_released v = Some True \<or> \<not> truthy (bt_region b) \<or> \<not> truthy (bt_lifecycleJobId b) \<or> \<not> sv_executions sv then sreturn ()
          else sbind (drawn (sv_execution sv (pv_deployment v) (the (bt_lifecycleJobId b)))) (\<lambda>x. sbind (drawn (sv_now sv)) (\<lambda>now.
            if (case x of Execution_in st \<Rightarrow> st \<notin> {''SUCCEEDED'', ''FAILED'', ''TIMED_OUT'', ''ABORTED''}
                | Execution_absent \<Rightarrow> \<not> old_enough 300000 (reserved_for now v) | Execution_unread \<Rightarrow> True) then sreturn ()
            else (case bt_instanceId b of None \<Rightarrow> release_boot m v
            | Some i \<Rightarrow>
                if \<not> sv_describer sv \<or> \<not> is_instance_id i then sreturn ()
                else sbind (outside (sv_instance sv i)) (\<lambda>found.
                  if (case found of None \<Rightarrow> False | Some (j, st) \<Rightarrow> j \<noteq> i \<or> st \<notin> {''stopped'', ''terminated''}) then sreturn ()
                  else release_boot m v))))))"

definition read_ready :: "'w runtime_services \<Rightarrow> migration_provision \<Rightarrow> ('w runtime, receipt_error + bool) mig" where
  "read_ready sv v s = (case sv_ready sv v (snd s) of (r, w) \<Rightarrow> (Inr r, (fst s, w)))"

definition restored_step :: "'w runtime_services \<Rightarrow> compute_migration \<Rightarrow> ('w runtime, bool) mig" where
  "restored_step sv m = sbind (in_row (cm_id m)) (\<lambda>cur. case cur of None \<Rightarrow> sthrow (Store_failure ''TypeError'')
     | Some c \<Rightarrow> (case provisionFor c of None \<Rightarrow> sthrow (step_error True)
       | Some v \<Rightarrow> if \<not> sv_executions sv then sthrow (step_error True)
           else sbind (read_ready sv v) (\<lambda>r. sbind (drawn (sv_now sv)) (\<lambda>now. let age = reserved_for now v in
             case r of
               Inl e \<Rightarrow> if re_absent e \<and> (case age of None \<Rightarrow> False | Some a \<Rightarrow> a < 300000) then sreturn False
                 else if re_migration e then sthrow (Store_failure ''migration receipt'')
                 else if re_retryable e then sthrow (step_error True) else sthrow (Store_failure ''receipt'')
             | Inr ready \<Rightarrow> if \<not> ready \<and> (case age of None \<Rightarrow> False | Some a \<Rightarrow> 900000 < a) then sthrow (step_error False) else sreturn ready))))"

definition flip_of :: "compute_migration \<Rightarrow> Placement \<Rightarrow> flip_input" where
  "flip_of m p = (let b = pl_boot p in
     \<lparr>fl_computerId = cm_computerId m, fl_ownerUserId = cm_userId m, fl_migrationId = cm_id m, fl_pendingReady = True, fl_region = ''ap-south-1'',
      fl_instanceId = the (bt_instanceId b), fl_volumeId = the (bt_volumeId b), fl_fsUuid = the (bt_fsUuid b),
      fl_fields = (fields_of b)\<lparr>fd_lastError := Some (Some (migration_pending m)), fd_region := Some (Some ''ap-south-1'')\<rparr>\<rparr>)"

definition flip_step :: "'w runtime_services \<Rightarrow> compute_migration \<Rightarrow> ('w runtime, unit) mig" where
  "flip_step sv m = sbind (in_row (cm_id m)) (\<lambda>cur. case cur of None \<Rightarrow> sthrow (Store_failure ''TypeError'')
     | Some c \<Rightarrow> (case provisionFor c of None \<Rightarrow> sthrow (step_error False)
       | Some v \<Rightarrow> let p = pv_placement v; b = pl_boot p in
           if \<not> truthy (bt_instanceId b) \<or> \<not> truthy (bt_volumeId b) \<or> \<not> truthy (bt_fsUuid b) then sthrow (step_error False)
           else sbind (database (flipPlacementToAws (flip_of m p))) (\<lambda>_. sreturn ())))"

definition rollback_step :: "compute_migration \<Rightarrow> ('w runtime, unit) mig" where
  "rollback_step m = (case provisionFor m of None \<Rightarrow> sreturn () | Some v \<Rightarrow> database (rollbackMigrationPlacement m (pv_source v)))"

definition stop_step :: "'w runtime_services \<Rightarrow> compute_migration \<Rightarrow> ('w runtime, unit) mig" where
  "stop_step sv m = sbind (outside (sv_stop sv m)) (\<lambda>ok. if \<not> ok then sthrow (step_error True) else outside (sv_stopped sv m))"

text \<open>An export that still has the source's tag was never committed: it is aborted at the Worker, not reopened.\<close>

definition reopen_step :: "'w runtime_services \<Rightarrow> compute_migration \<Rightarrow> string \<Rightarrow> ('w runtime, unit migrate_result) mig" where
  "reopen_step sv m etag = outside (if Some etag = mp_sourceEtag m then sv_abort sv m else sv_reopen sv m etag)"

definition createMigrationRuntime :: "'w runtime_services \<Rightarrow> 'w runtime migration_deps" where
  "createMigrationRuntime sv = \<lparr>dep_readById = in_row,
     dep_applyTransition = (\<lambda>c event reason. database (in_moves (applyTransition c event reason))),
     dep_exclusive = (\<lambda>i. outside (sv_lock sv i)),
     dep_freshProvision = fresh_provision sv,
     dep_begin = (\<lambda>m. outside (sv_begin sv m)),
     dep_head = (\<lambda>m k. outside (sv_head sv m k)),
     dep_exportEtag = exportEtag sv,
     dep_provision = provision_step sv,
     dep_releaseProvision = release_provision sv,
     dep_restored = restored_step sv,
     dep_flip = flip_step sv,
     dep_rollback = rollback_step,
     dep_commit = (\<lambda>m c. outside (sv_commit sv m c)),
     dep_abort = (\<lambda>m. outside (sv_abort sv m)),
     dep_reopen = reopen_step sv,
     dep_stopCloudflare = stop_step sv\<rparr>"

subsection \<open>What the runtime leaves alone\<close>

text \<open>The compensation that is pending for a migration: only its own transitions change it.\<close>

definition pending_row :: "string \<Rightarrow> compute_migration list \<Rightarrow> MigrationEffect option" where
  "pending_row i rows = (case find (\<lambda>r. cm_id r = toLowerCase i) rows of None \<Rightarrow> None | Some r \<Rightarrow> pendingRecovery r)"

definition pending_in :: "string \<Rightarrow> compute_db \<Rightarrow> MigrationEffect option" where
  "pending_in i s = pending_row i (mv_rows (db_moves s))"

definition pending_of :: "string \<Rightarrow> 'w runtime \<Rightarrow> MigrationEffect option" where
  "pending_of i s = pending_in i (fst s)"

lemma leaves_case_created [untouched]: "(\<And>p. leaves v (f p)) \<Longrightarrow> leaves v a \<Longrightarrow> leaves v (case r of Created p \<Rightarrow> f p | Placement_exists \<Rightarrow> a)"
  by (cases r) auto

lemma leaves_case_result [untouched]:
  "(\<And>p. leaves v (f p)) \<Longrightarrow> leaves v a \<Longrightarrow> leaves v b \<Longrightarrow> leaves v (case r of Moved p \<Rightarrow> f p | Cas_conflict \<Rightarrow> a | Illegal_transition \<Rightarrow> b)"
  by (cases r) auto

lemma leaves_case_decision [untouched]: "(\<And>p. leaves v (f p)) \<Longrightarrow> (\<And>a. leaves v (g a)) \<Longrightarrow> leaves v (case r of Admitted_to p \<Rightarrow> f p | Refused_for a \<Rightarrow> g a)"
  by (cases r) auto

lemma leaves_withAdmission:
  assumes "\<And>s h c ts. v (s\<lparr>adm_held := h, adm_counted := c, adm_tickets := ts\<rparr>) = v s" and "leaves v f"
  shows "leaves v (withAdmission f)"
proof -
  have "leaves v takeAdmissionLock" "leaves v releaseAdmission"
    using assms(1) by (auto simp: takeAdmissionLock_def releaseAdmission_def assertReadCommitted_def sbind_def leaves_def)
  then have "leaves v (sbind takeAdmissionLock (\<lambda>_. sbind f (\<lambda>x. sbind releaseAdmission (\<lambda>_. sreturn x))))"
    by (intro untouched assms(2))
  from leaves_transaction [OF this] assms(2) show ?thesis by (simp add: withAdmission_def leaves_def)
qed

text \<open>The placements' writes leave the migrations' table as it is.\<close>

lemma moves_kept [untouched]:
  "leaves db_moves (lockComputer c)" "leaves db_moves assertAdmissionLock" "leaves db_moves (readPlacement c ou)"
  "leaves db_moves (createInTx c u provider st f locked)" "leaves db_moves (casInTx c e to_state b f g us ad)" "leaves db_moves (remove_one P err)"
  "leaves db_moves (readAdmissionCounters u c now)"
proof -
  show a: "leaves db_moves (lockComputer c)" for c by (simp add: lockComputer_def assertReadCommitted_def leaves_def)
  show l: "leaves db_moves assertAdmissionLock" by (simp add: assertAdmissionLock_def leaves_def)
  have i: "leaves db_moves (assertNoImageReservation c)" for c by (simp add: assertNoImageReservation_def leaves_def)
  have s: "leaves db_moves (selectRows c)" for c by (simp add: selectRows_def untouched)
  show r: "leaves db_moves (readPlacement c ou)" for c ou
    unfolding readPlacement_def Let_def by (intro untouched s i)
  have new: "leaves db_moves (\<lambda>s. sbind (slift (h s)) (\<lambda>p. sreturn (Created p)) (s\<lparr>db_placements := g s\<rparr>))" for h g
    by (rule leavesI) (auto simp: sbind_def split: sum.splits)
  show "leaves db_moves (createInTx c u provider st f locked)"
    unfolding createInTx_def Let_def by (intro untouched a i s new)
  have w: "leaves db_moves (update_placements P f)" for P f by (simp add: update_placements_def leaves_def)
  have u: "leaves db_moves (applyTransitionUsageInTx p us)" for p us
  proof (rule leavesI)
    fix s r t assume "applyTransitionUsageInTx p us s = (r, t)"
    moreover obtain u where "applyTransitionUsageInTx p us s = (Inr (), s\<lparr>db_usage := u\<rparr>)" using usage_effect_shape by blast
    ultimately show "db_moves t = db_moves s" by auto
  qed
  show "leaves db_moves (casInTx c e to_state b f g us ad)"
    unfolding casInTx_def Let_def by (intro untouched s i w u)
  show "leaves db_moves (remove_one P err)" by (simp add: remove_one_def leaves_def)
  have c: "leaves db_moves (\<lambda>s. (Inr k, s\<lparr>adm_counted := n\<rparr>))" for k n by (simp add: leaves_def)
  show "leaves db_moves (readAdmissionCounters u c now)"
    unfolding readAdmissionCounters_def readCounters_def by (intro untouched l r c)
qed

lemma admission_moves [untouched]: "leaves db_moves f \<Longrightarrow> leaves db_moves (withAdmission f)"
  by (rule leaves_withAdmission) simp_all

lemma placement_moves_kept [untouched]: "leaves db_moves (flipPlacementToAws fi)" "leaves db_moves (rollbackMigrationPlacement m source)"
  unfolding flipPlacementToAws_def rollbackMigrationPlacement_def retire_source_def retire_towards_def moved_or_def create_or_def Let_def
  by (intro untouched)+

lemma moves_pending: "leaves db_moves m \<Longrightarrow> leaves (pending_in i) m"
  by (simp add: leaves_def pending_in_def)

subsection \<open>The migrations' writes\<close>

lemma pending_update:
  assumes "\<And>r. r \<in> set rows \<Longrightarrow> P r \<Longrightarrow> cm_id (f r) = cm_id r \<and> pendingRecovery (f r) = pendingRecovery r"
  shows "pending_row i (update_where P f rows) = pending_row i rows"
  using assms
proof (induction rows)
  case (Cons r rows)
  then have "pending_row i (update_where P f rows) = pending_row i rows" by simp
  with Cons.prems [of r] show ?case by (auto simp: pending_row_def update_where_def)
qed (simp add: update_where_def)

lemma in_moves_state: "db_moves (snd (in_moves m s)) = snd (m (db_moves s))"
  by (simp add: in_moves_def split: prod.split sum.split)

lemma leaves_in_moves: "(\<And>s. pending_row i (mv_rows (snd (m s))) = pending_row i (mv_rows s)) \<Longrightarrow> leaves (pending_in i) (in_moves m)"
  by (simp add: leaves_def pending_in_def in_moves_state)

lemma as_uuid_reads: "snd (as_uuid c (\<lambda>c. sget (g c)) s) = s"
  by (simp add: as_uuid_def)

lemma reads_pending [untouched]: "leaves (pending_in i) (in_moves (readById c))"
  by (rule leaves_in_moves) (simp add: readById_def as_uuid_reads)

lemma update_one_rows:
  "update_one P f s = (r, t) \<Longrightarrow> mv_rows t = mv_rows s \<or> mv_rows t = update_where P f (mv_rows s)"
  by (auto simp: update_one_def split: option.splits)

lemma token_pending:
  "pending_row i (mv_rows (snd (mintRestoreToken sha token now m s))) = pending_row i (mv_rows s)"
proof -
  let ?P = "\<lambda>g r. current m r \<and> cm_computerId r = cm_computerId m \<and> mp_generation r = Some g \<and> mp_state r \<in> {MS_exported, MS_provisioning}"
    and ?f = "\<lambda>r. r\<lparr>cm_restoreTokenSha256 := Some (sha token), cm_restoreTokenExpiresAt := Some (now + 900000), cm_updatedAt := stamp s r\<rparr>"
  have k: "pending_row i (update_where (?P g) ?f (mv_rows s)) = pending_row i (mv_rows s)" for g
    by (rule pending_update) (simp add: pendingRecovery_def)
  have u: "pending_row i (mv_rows (snd (update_one (?P g) ?f s))) = pending_row i (mv_rows s)" for g
    using update_one_rows [of "?P g" ?f s] k by (cases "update_one (?P g) ?f s") auto
  show ?thesis
  proof (cases "mp_generation m")
    case (Some g)
    show ?thesis
    proof (cases "mp_workspaceHead m")
      case h: (Some h)
      have "snd (sbind (update_one (?P g) ?f) (\<lambda>_. sreturn token) s) = snd (update_one (?P g) ?f s)"
        by (simp add: sbind_def split: prod.split sum.split)
      with u Some h show ?thesis by (simp add: mintRestoreToken_def sbind_def [of "sget id"])
    qed (simp add: mintRestoreToken_def Some)
  qed (simp add: mintRestoreToken_def)
qed

lemma token_kept [untouched]: "leaves (pending_in i) (in_moves (mintRestoreToken sha token now m))"
  by (rule leaves_in_moves) (rule token_pending)

lemma save_kept [untouched]: "leaves (pending_in i) (in_moves (saveProvision m p))"
proof (rule leaves_in_moves)
  fix s
  let ?f = "\<lambda>r. r\<lparr>mp_workspaceHead := map_option (with_provision p) (mp_workspaceHead r), cm_updatedAt := stamp s r\<rparr>"
  have "pending_row i (update_where (current m) ?f (mv_rows s)) = pending_row i (mv_rows s)"
    by (rule pending_update) (simp add: pendingRecovery_def)
  then show "pending_row i (mv_rows (snd (saveProvision m p s))) = pending_row i (mv_rows s)"
    by (simp add: saveProvision_def split: option.split)
qed

lemma pending_admission [untouched]: "leaves (pending_in i) f \<Longrightarrow> leaves (pending_in i) (withAdmission f)"
  by (rule leaves_withAdmission) (simp_all add: pending_in_def)

lemma reserve_pending [untouched]: "leaves (pending_in i) (reserve_boot sv m tier planId deployment enrollUrl now d)"
  unfolding reserve_boot_def Let_def
  by (intro untouched moves_pending [OF moves_kept(3)] moves_pending [OF moves_kept(7)])

text \<open>A fresh start ends a migration that has nothing to compensate, and leaves it so.\<close>

lemma fresh_reduces:
  "reduceMigration c ME_fresh_provision = (True, m, effect) \<Longrightarrow> pendingRecovery c = None \<and> pendingRecovery m = None"
  by (auto simp: reduceMigration_def unchanged_def split: if_splits)

lemma find_id_update:
  "(\<And>r. cm_id (f r) = cm_id r) \<Longrightarrow> find (\<lambda>r. cm_id r = k) (update_where P f rows) = map_option (\<lambda>r. if P r then f r else r) (find (\<lambda>r. cm_id r = k) rows)"
  by (induction rows) (auto simp: update_where_def)

lemma transition_pending:
  assumes c: "find (\<lambda>r. cm_id r = cm_id c) (mv_rows s) = Some c"
  shows "pending_row i (mv_rows (snd (applyTransition c ME_fresh_provision None s))) = pending_row i (mv_rows s)"
proof -
  obtain ok m effect where red: "reduceMigration c ME_fresh_provision = (ok, m, effect)" by (cases "reduceMigration c ME_fresh_provision") auto
  show ?thesis
  proof (cases ok)
    case False
    with red show ?thesis by (simp add: applyTransition_def)
  next
    case True
    let ?f = "transition_row s c m"
    have "reduceMigration c ME_fresh_provision = (True, m, effect)" using red True by simp
    from fresh_reduces [OF this] have m: "pendingRecovery c = None" "pendingRecovery m = None" by blast+
    have f: "cm_id (?f r) = cm_id r" "pendingRecovery (?f r) = None" for r
      using m(2) by (simp_all add: transition_row_def pendingRecovery_def)
    have "with_reason c ME_fresh_provision None m = m" by (simp add: with_reason_def)
    with red True have "snd (applyTransition c ME_fresh_provision None s) = snd (update_one (current c) ?f s)"
      by (simp add: applyTransition_def sbind_def split: prod.split sum.split)
    moreover have "pending_row i (update_where (current c) ?f (mv_rows s)) = pending_row i (mv_rows s)"
    proof (cases "find (\<lambda>r. cm_id r = toLowerCase i) (mv_rows s)")
      case None
      then show ?thesis by (simp add: pending_row_def find_id_update [OF f(1)])
    next
      case (Some r)
      then have r: "cm_id r = toLowerCase i" by (auto simp: find_Some_iff)
      show ?thesis
      proof (cases "current c r")
        case True
        with r have "cm_id c = toLowerCase i" by (simp add: current_def)
        with Some c have "r = c" by simp
        with Some m(1) f(2) True show ?thesis by (simp add: pending_row_def find_id_update [OF f(1)])
      qed (simp add: pending_row_def find_id_update [OF f(1)] Some)
    qed
    ultimately show ?thesis using update_one_rows [of "current c" ?f s] by (cases "update_one (current c) ?f s") auto
  qed
qed

lemma leaves_valid: "leaves v m \<Longrightarrow> valid (\<lambda>s. v s = x) m (\<lambda>_ s. v s = x) (\<lambda>_ s. v s = x)"
  by (rule validI) (auto dest: leavesD)

lemma read_then:
  assumes "\<And>c mv. find (\<lambda>r. cm_id r = cm_id c) (mv_rows mv) = Some c \<Longrightarrow>
      valid (\<lambda>s. db_moves s = mv) (f c) (\<lambda>_ s. pending_in i s = pending_row i (mv_rows mv)) (\<lambda>_ s. pending_in i s = pending_row i (mv_rows mv))"
    and "leaves (pending_in i) a"
  shows "leaves (pending_in i) (sbind (in_moves (readById j)) (\<lambda>cur. case cur of None \<Rightarrow> a | Some c \<Rightarrow> f c))"
proof (rule leavesI)
  fix s r t assume run: "sbind (in_moves (readById j)) (\<lambda>cur. case cur of None \<Rightarrow> a | Some c \<Rightarrow> f c) s = (r, t)"
  have still: "snd (readById j (db_moves s)) = db_moves s" by (simp add: readById_def as_uuid_reads)
  show "pending_in i t = pending_in i s"
  proof (cases "fst (readById j (db_moves s))")
    case (Inl e)
    with still run show ?thesis by (cases "readById j (db_moves s)") (auto simp: sbind_def in_moves_def)
  next
    case (Inr cur)
    with still have rd: "in_moves (readById j) s = (Inr cur, s)" by (cases "readById j (db_moves s)") (auto simp: in_moves_def)
    show ?thesis
    proof (cases cur)
      case None
      with rd run have "a s = (r, t)" by (simp add: sbind_def)
      with leavesD [OF assms(2)] show ?thesis by blast
    next
      case (Some c)
      from Inr Some have fc: "find (\<lambda>r. cm_id r = toLowerCase j) (mv_rows (db_moves s)) = Some c"
        by (auto simp: readById_def as_uuid_def split: if_splits)
      then have "cm_id c = toLowerCase j" by (auto simp: find_Some_iff)
      with fc have c: "find (\<lambda>r. cm_id r = cm_id c) (mv_rows (db_moves s)) = Some c" by simp
      from rd run Some have "f c s = (r, t)" by (simp add: sbind_def)
      with valid_Inr [OF assms(1) [OF c] refl] valid_Inl [OF assms(1) [OF c] refl] show ?thesis
        by (cases r) (auto simp: pending_in_def)
    qed
  qed
qed

lemma finish_fresh_pending [untouched]:
  assumes "leaves db_moves proveEmpty"
  shows "leaves (pending_in i) (finishFreshProvision m proveEmpty)"
  unfolding finishFreshProvision_def Let_def
proof (intro pending_admission read_then leaves_bind moves_pending [OF moves_kept(1)])
  fix c :: compute_migration and mv :: move_db
  assume c: "find (\<lambda>r. cm_id r = cm_id c) (mv_rows mv) = Some c"
  let ?V = "\<lambda>s. pending_in i s = pending_row i (mv_rows mv)" and ?M = "\<lambda>s. db_moves s = mv"
  have weak: "valid ?M p (\<lambda>_. ?M) (\<lambda>_. ?V)" if "leaves db_moves p" for p :: "'x compute_op"
    by (rule valid_weaken [OF leaves_valid [OF that]]) (auto simp: pending_in_def)
  have last: "valid ?M (sbind (in_moves (applyTransition c ME_fresh_provision None)) (\<lambda>result. if fst result then sreturn () else sthrow (Of_moves Migration_conflict)))
      (\<lambda>_. ?V) (\<lambda>_. ?V)"
  proof (rule valid_bind [where R = "\<lambda>_. ?V"])
    have v: "?V (snd (in_moves (applyTransition c ME_fresh_provision None) s))" if "?M s" for s
      using transition_pending [OF c, of i] that by (simp add: pending_in_def in_moves_state)
    show "valid ?M (in_moves (applyTransition c ME_fresh_provision None)) (\<lambda>_. ?V) (\<lambda>_. ?V)"
      by (rule validI) (use v in \<open>metis snd_conv\<close>)+
  qed (auto intro!: valid_if valid_return valid_throw)
  have none: "valid ?M (sthrow (Of_moves Migration_conflict) :: unit compute_op) (\<lambda>_. ?V) (\<lambda>_. ?V)"
    by (rule valid_throw) (simp add: pending_in_def)
  show "valid ?M (if cm_userId c \<noteq> cm_userId m \<or> cm_computerId c \<noteq> cm_computerId m \<or> mp_state c \<noteq> MS_requested \<or> cm_updatedAt c \<noteq> cm_updatedAt m
       then sthrow (Of_moves Migration_conflict)
       else sbind (readPlacement (cm_computerId m) None) (\<lambda>found.
         if (case rp_record found of None \<Rightarrow> False
             | Some p \<Rightarrow> pl_provider p \<noteq> Cloudflare \<or> pl_ownerUserId p \<noteq> cm_userId m \<or> pl_state p \<noteq> STOPPED) then sthrow (Of_moves Migration_conflict)
         else sbind proveEmpty (\<lambda>empty. if \<not> empty then sthrow (Of_moves Migration_conflict)
         else sbind (case rp_record found of None \<Rightarrow> sreturn ()
             | Some p \<Rightarrow> remove_one (removable (cm_computerId m) (cm_userId m) Cloudflare STOPPED (pl_generation p) (pl_leaseEpoch p)) (Of_moves Migration_conflict)) (\<lambda>_.
           sbind (in_moves (applyTransition c ME_fresh_provision None)) (\<lambda>result.
             if fst result then sreturn () else sthrow (Of_moves Migration_conflict)))))) (\<lambda>_. ?V) (\<lambda>_. ?V)"
    by (intro valid_if none valid_bind [OF weak] last moves_kept assms leaves_option leaves_basic)
qed (rule leaves_basic)

subsection \<open>The runtime keeps the driver's contract\<close>

lemma runtime_outside [untouched]: "leaves (pending_of i) (outside m)" "leaves (pending_of i) (drawn f)" "leaves (pending_of i) (read_ready sv v)"
  by (rule leavesI; auto simp: outside_def drawn_def read_ready_def pending_of_def split: prod.splits)+

lemma runtime_database [untouched]: "leaves (pending_in i) m \<Longrightarrow> leaves (pending_of i) (database m)"
  by (rule leavesI) (auto simp: database_def pending_of_def dest: leavesD split: prod.splits sum.splits)

lemma runtime_asks:
  assumes "\<And>q. leaves db_moves q \<Longrightarrow> leaves (pending_in i) (op' q)"
  shows "leaves (pending_of i) (asks op' question)"
proof -
  have q: "leaves db_moves (sthrow question_mark :: bool compute_op)" "leaves db_moves (sreturn b :: bool compute_op)" for b
    by (rule leaves_basic)+
  have "leaves (pending_of i) (sbind (outside question) (\<lambda>b. database (op' (sreturn b))))" "leaves (pending_of i) (database (op' (sthrow question_mark)))"
    by (intro untouched assms q)+
  then show ?thesis by (auto simp: asks_def leaves_def split: sum.split)
qed

lemma in_row_pending [untouched]: "leaves (pending_of i) (in_row j)"
  unfolding in_row_def by (intro untouched)

lemma runtime_case_config: "(\<And>k c r. leaves v (f k c r)) \<Longrightarrow> (\<And>e. leaves v (g e)) \<Longrightarrow> leaves v (case x of Aws_off e \<Rightarrow> g e | Aws_on k c r \<Rightarrow> f k c r)"
  by (cases x) auto

lemma runtime_steps:
  "leaves (pending_of i) (fresh_provision sv m)" "leaves (pending_of i) (exportEtag sv m)" "leaves (pending_of i) (provision_step sv m)"
  "leaves (pending_of i) (release_provision sv m)" "leaves (pending_of i) (restored_step sv m)" "leaves (pending_of i) (flip_step sv m)"
  "leaves (pending_of i) (rollback_step m)" "leaves (pending_of i) (stop_step sv m)" "leaves (pending_of i) (reopen_step sv m e)"
proof -
  have "leaves (pending_of i) (asks (finishFreshProvision m) q)" for q by (rule runtime_asks) (rule finish_fresh_pending)
  then show "leaves (pending_of i) (fresh_provision sv m)"
    by (auto simp: fresh_provision_def intro: untouched split: AwsAdmissionConfig.split bool.split)
  show "leaves (pending_of i) (exportEtag sv m)"
    unfolding exportEtag_def by (rule leaves_bind [OF runtime_outside(1)]) (auto intro: untouched split: migrate_result.split option.split)
  show "leaves (pending_of i) (provision_step sv m)"
    unfolding provision_step_def
    by (intro leaves_if leaves_bind leaves_option runtime_outside runtime_database reserve_pending leaves_basic runtime_case_config leaves_case_pair)
  have rel: "leaves (pending_of i) (release_boot m v)" for v unfolding release_boot_def by (intro untouched)
  show "leaves (pending_of i) (release_provision sv m)" unfolding release_provision_def Let_def by (intro untouched rel)
  show "leaves (pending_of i) (restored_step sv m)" unfolding restored_step_def Let_def by (intro untouched)
  show "leaves (pending_of i) (flip_step sv m)"
    unfolding flip_step_def Let_def by (intro untouched moves_pending placement_moves_kept)
  show "leaves (pending_of i) (rollback_step m)"
    unfolding rollback_step_def by (intro untouched moves_pending placement_moves_kept)
  show "leaves (pending_of i) (stop_step sv m)" unfolding stop_step_def by (intro untouched)
  show "leaves (pending_of i) (reopen_step sv m e)" unfolding reopen_step_def by (rule runtime_outside)
qed

lemma runtime_quiet: "quiet (pending_of i) (createMigrationRuntime sv)"
  unfolding quiet_def createMigrationRuntime_def migration_deps.simps
  by (intro conjI allI runtime_steps untouched)

interpretation runtime: exclusive_migration "createMigrationRuntime sv" "pending_of i" i
  for sv :: "'w runtime_services" and i
proof
  show "quiet (pending_of i) (createMigrationRuntime sv)" by (rule runtime_quiet)
next
  fix s t c assume "dep_readById (createMigrationRuntime sv) i s = (Inr (Some c), t)"
  then show "pendingRecovery c = pending_of i s"
    by (auto simp: createMigrationRuntime_def in_row_def database_def in_moves_def readById_def as_uuid_def pending_of_def pending_in_def pending_row_def
        split: if_splits)
next
  fix c event reason s r effect t assume "dep_applyTransition (createMigrationRuntime sv) c event reason s = (Inr (True, r, effect), t)"
  then show "\<exists>m. reduceMigration c event = (True, m, effect)"
    by (auto simp: createMigrationRuntime_def database_def in_moves_def applyTransition_def sbind_def Let_def
        split: prod.splits sum.splits if_splits)
next
  fix c event reason s e t assume "dep_applyTransition (createMigrationRuntime sv) c event reason s = (Inl e, t)"
  then have "db_moves (fst t) = db_moves (fst s)"
    by (auto simp: createMigrationRuntime_def database_def in_moves_def applyTransition_def sbind_def Let_def update_one_def
        split: prod.splits sum.splits if_splits option.splits)
  then show "pending_of i t = pending_of i s" by (simp add: pending_of_def pending_in_def)
qed

subsection \<open>The protocol\<close>

lemma observed:
  "mon_flipped (foldl observe m xs) \<Longrightarrow> \<not> mon_flipped m \<Longrightarrow> (Called_flip, True) \<in> set xs"
  "mon_committed (foldl observe m xs) \<Longrightarrow> \<not> mon_committed m \<Longrightarrow> (Called_commit, True) \<in> set xs"
  "mon_rolled (foldl observe m xs) \<Longrightarrow> \<not> mon_rolled m \<Longrightarrow> (Called_rollback, True) \<in> set xs"
  "\<not> mon_attempted (foldl observe m xs) \<Longrightarrow> (Called_commit, b) \<notin> set xs"
proof -
  have o: "mon_flipped (observe m x) \<Longrightarrow> mon_flipped m \<or> x = (Called_flip, True)"
    "mon_committed (observe m x) \<Longrightarrow> mon_committed m \<or> x = (Called_commit, True)"
    "mon_rolled (observe m x) \<Longrightarrow> mon_rolled m \<or> x = (Called_rollback, True)"
    "mon_attempted m \<Longrightarrow> mon_attempted (observe m x)" "mon_attempted (observe m (Called_commit, b))" for m x b
    by (cases x; cases "fst x"; simp)+
  show "mon_flipped (foldl observe m xs) \<Longrightarrow> \<not> mon_flipped m \<Longrightarrow> (Called_flip, True) \<in> set xs"
    by (induction xs arbitrary: m) (auto dest: o(1-3))
  show "mon_committed (foldl observe m xs) \<Longrightarrow> \<not> mon_committed m \<Longrightarrow> (Called_commit, True) \<in> set xs"
    by (induction xs arbitrary: m) (auto dest: o(1-3))
  show "mon_rolled (foldl observe m xs) \<Longrightarrow> \<not> mon_rolled m \<Longrightarrow> (Called_rollback, True) \<in> set xs"
    by (induction xs arbitrary: m) (auto dest: o(1-3))
  have stay: "mon_attempted m \<Longrightarrow> mon_attempted (foldl observe m xs)" for m xs
    by (induction xs arbitrary: m) (auto intro: o(4))
  show "\<not> mon_attempted (foldl observe m xs) \<Longrightarrow> (Called_commit, b) \<notin> set xs"
    by (induction xs arbitrary: m) (auto simp: stay)
qed

lemma monitored_split: "monitored m (xs @ (c, ok) # ys) \<Longrightarrow> allowed (foldl observe m xs) c"
  by (induction xs arbitrary: m) auto


text \<open>A restored migration whose host is ready, and a world where everything is answered.\<close>

definition sample_migration :: string where
  "sample_migration = ''33333333-3333-4333-8333-333333333333''"

definition ready_boot :: migration_provision where
  "ready_boot = sample_boot\<lparr>pv_placement := waiting_placement\<lparr>pl_boot := (pl_boot waiting_placement)\<lparr>bt_fsUuid := Some ''fs''\<rparr>\<rparr>\<rparr>"

definition restored_row :: compute_migration where
  "restored_row = exported_row\<lparr>mp_state := MS_restored, cm_id := sample_migration, cm_userId := sample_owner, cm_computerId := sample_computer,
     mp_workspaceHead := Some (with_provision (provision_json ready_boot) demo_head)\<rparr>"

definition restored_db :: compute_db where
  "restored_db = no_computers\<lparr>db_moves := no_moves\<lparr>mv_rows := [restored_row]\<rparr>, db_placements := [placed_row]\<rparr>"

definition sunny_services :: "unit runtime_services" where
  "sunny_services = \<lparr>sv_env = (\<lambda>_. None), sv_newURL = (\<lambda>_. Inl (PlainError ''no URL'')), sv_sha256 = id, sv_deployment = None, sv_zoneId = (\<lambda>_. []),
     sv_enrollUrl = None, sv_starter = True, sv_executions = True, sv_describer = True, sv_digest = (\<lambda>_ _ _ _ _. []),
     sv_lock = (\<lambda>_. sreturn True), sv_now = (\<lambda>w. (1700000000000, w)),
     sv_draw = (\<lambda>w. (\<lparr>dr_token = [], dr_fsUuid = [], dr_fenceToken = [], dr_nonceHash = [], dr_jobId = []\<rparr>, w)),
     sv_begin = (\<lambda>_. sreturn (Mg_ok \<lparr>bg_etag = ''e'', bg_systemEtag = None, bg_generation = demo_generation\<rparr>)),
     sv_head = (\<lambda>_ k. sreturn (if k = Kind_workspace then Mg_ok demo_head else Mg_not_found)),
     sv_export = (\<lambda>_. sreturn (Mg_ok (Some ''migrated''))), sv_commit = (\<lambda>_ _. sreturn (Mg_ok ())), sv_abort = (\<lambda>_. sreturn (Mg_ok ())),
     sv_reopen = (\<lambda>_ _. sreturn (Mg_ok ())), sv_entitlement = (\<lambda>_. sreturn None), sv_start = (\<lambda>_ _. sreturn False),
     sv_ready = (\<lambda>_. sreturn True), sv_execution = (\<lambda>_ _ w. (Execution_absent, w)), sv_instance = (\<lambda>_. sreturn None),
     sv_stop = (\<lambda>_. sreturn True), sv_stopped = (\<lambda>_. sreturn ())\<rparr>"

lemma sample_advance:
  "fst (snd (advanceMigration (recorded (createMigrationRuntime sunny_services)) sample_migration ([], restored_db, ()))) =
     [(Called_flip, True)] @ (Called_commit, True) # [(Called_exportEtag, True), (Called_stopCloudflare, True)]"
  by code_simp


subsection \<open>A migration that is answered commits\<close>

text \<open>What the driver looks at of a row, and a world that answers: every call for the migration \<open>i\<close> succeeds and leaves it there.\<close>

definition stage :: "compute_migration \<Rightarrow> MigrationState \<times> string option \<times> string option \<times> MigrationEffect option" where
  "stage r = (mp_state r, mp_generation r, mp_sourceSystemEtag r, pendingRecovery r)"

definition answers :: "('s \<Rightarrow> compute_migration) \<Rightarrow> ('s, 'a) mig \<Rightarrow> ('a \<Rightarrow> bool) \<Rightarrow> 's \<Rightarrow> bool" where
  "answers row m good s \<longleftrightarrow> (case m s of (Inr x, t) \<Rightarrow> good x \<and> stage (row t) = stage (row s) | (Inl e, t) \<Rightarrow> False)"

definition good_begin :: "begin_result migrate_result \<Rightarrow> bool" where
  "good_begin r \<longleftrightarrow> (case r of Mg_ok b \<Rightarrow> bg_etag b \<noteq> [] \<and> bg_systemEtag b = None \<and> is_uuid (bg_generation b) | _ \<Rightarrow> False)"

definition good_head :: "string option \<Rightarrow> snapshot_head migrate_result \<Rightarrow> bool" where
  "good_head generation r \<longleftrightarrow> (case r of Mg_ok h \<Rightarrow> head_generation (without_provision h) = map_option JStr generation | _ \<Rightarrow> False)"

definition answered :: "'s migration_deps \<Rightarrow> ('s \<Rightarrow> compute_migration) \<Rightarrow> string \<Rightarrow> bool" where
  "answered deps row i \<longleftrightarrow> (\<forall>s.
     dep_readById deps i s = (Inr (Some (row s)), s) \<and>
     answers row (dep_exclusive deps i) (\<lambda>ok. ok) s \<and>
     (\<forall>event m effect. reduceMigration (row s) event = (True, m, effect) \<longrightarrow>
        (\<exists>r t. dep_applyTransition deps (row s) event None s = (Inr (True, r, effect), t) \<and> stage (row t) = stage m)) \<and>
     (\<forall>m. answers row (dep_begin deps m) good_begin s \<and>
        answers row (dep_head deps m Kind_workspace) (good_head (mp_generation m)) s \<and>
        answers row (dep_head deps m Kind_system) (\<lambda>r. r = Mg_not_found) s \<and>
        answers row (dep_provision deps m) (\<lambda>_. True) s \<and> answers row (dep_restored deps m) (\<lambda>ok. ok) s \<and>
        answers row (dep_flip deps m) (\<lambda>_. True) s \<and> (\<forall>c. answers row (dep_commit deps m c) (\<lambda>r. r = Mg_ok ()) s) \<and>
        answers row (dep_exportEtag deps m) (\<lambda>etag. etag \<noteq> []) s \<and> answers row (dep_stopCloudflare deps m) (\<lambda>_. True) s))"

lemma answersD: "answers row m good s \<Longrightarrow> \<exists>x t. m s = (Inr x, t) \<and> good x \<and> stage (row t) = stage (row s)"
  by (auto simp: answers_def split: prod.splits sum.splits)

lemma stage_state: "stage a = stage b \<Longrightarrow> mp_state a = mp_state b \<and> mp_generation a = mp_generation b \<and> mp_sourceSystemEtag a = mp_sourceSystemEtag b \<and>
    pendingRecovery a = pendingRecovery b"
  by (simp add: stage_def)

text \<open>A transition the reducer accepts takes the row to its next stage.\<close>

lemma answered_transition:
  assumes ok: "answered deps row i" and st: "mp_state (row s) = mp_state m" and red: "reduceMigration (row s) event = (True, m', effect)"
  shows "\<exists>t. transition deps i m event None s = (Inr effect, t) \<and> stage (row t) = stage m'"
proof -
  from ok red obtain r t where t: "dep_applyTransition deps (row s) event None s = (Inr (True, r, effect), t)" "stage (row t) = stage m'"
    unfolding answered_def by blast
  have "dep_readById deps i s = (Inr (Some (row s)), s)" using ok by (simp add: answered_def)
  with st t show ?thesis by (simp add: transition_def sbind_def)
qed

lemma answered_calls:
  assumes "answered deps row i"
  shows "answers row (dep_exclusive deps i) (\<lambda>ok. ok) s" "answers row (dep_begin deps m) good_begin s"
    "answers row (dep_head deps m Kind_workspace) (good_head (mp_generation m)) s" "answers row (dep_head deps m Kind_system) (\<lambda>r. r = Mg_not_found) s"
    "answers row (dep_provision deps m) (\<lambda>_. True) s" "answers row (dep_restored deps m) (\<lambda>ok. ok) s" "answers row (dep_flip deps m) (\<lambda>_. True) s"
    "answers row (dep_commit deps m c) (\<lambda>r. r = Mg_ok ()) s" "answers row (dep_exportEtag deps m) (\<lambda>etag. etag \<noteq> []) s"
    "answers row (dep_stopCloudflare deps m) (\<lambda>_. True) s"
  using assms unfolding answered_def by blast+

fun state_after :: "MigrationState \<Rightarrow> MigrationState" where
  "state_after MS_requested = MS_fenced"
| "state_after MS_fenced = MS_exported"
| "state_after MS_exported = MS_provisioning"
| "state_after MS_provisioning = MS_restored"
| "state_after MS_restored = MS_committed"
| "state_after st = st"

text \<open>A row on its way: nothing to compensate, and a generation and no system snapshot once it is fenced.\<close>

definition on_way :: "compute_migration \<Rightarrow> bool" where
  "on_way m \<longleftrightarrow> pendingRecovery m = None \<and> mp_state m \<in> {MS_requested, MS_fenced, MS_exported, MS_provisioning, MS_restored} \<and>
     (mp_state m \<noteq> MS_requested \<longrightarrow> mp_sourceSystemEtag m = None \<and> truthy (mp_generation m))"

lemma on_way_stage: "stage a = stage b \<Longrightarrow> on_way a = on_way b"
  by (auto simp: on_way_def dest: stage_state)

lemma uuid_nonempty: "is_uuid g \<Longrightarrow> g \<noteq> []"
  by (auto simp: is_uuid_def uuid_pattern_def)

lemma way_reduces:
  assumes "on_way m"
  shows "mp_state m = MS_requested \<Longrightarrow> is_uuid g \<Longrightarrow> etag \<noteq> [] \<Longrightarrow> \<exists>m'. reduceMigration m (ME_fenced etag None g) = (True, m', None) \<and> mp_state m' = MS_fenced \<and> on_way m'"
    and "mp_state m = MS_fenced \<Longrightarrow> head_generation h = map_option JStr (mp_generation m) \<Longrightarrow>
      \<exists>m'. reduceMigration m (ME_exported h None) = (True, m', None) \<and> mp_state m' = MS_exported \<and> on_way m'"
    and "mp_state m = MS_exported \<Longrightarrow> \<exists>m'. reduceMigration m ME_provisioned = (True, m', None) \<and> mp_state m' = MS_provisioning \<and> on_way m'"
    and "mp_state m = MS_provisioning \<Longrightarrow> Some g = mp_generation m \<Longrightarrow>
      \<exists>m'. reduceMigration m (ME_host_restored g) = (True, m', None) \<and> mp_state m' = MS_restored \<and> on_way m'"
    and "mp_state m = MS_restored \<Longrightarrow> etag \<noteq> [] \<Longrightarrow> \<exists>m'. reduceMigration m (ME_committed etag) = (True, m', None) \<and> mp_state m' = MS_committed"
  using assms uuid_nonempty [of g] by (auto simp: on_way_def reduceMigration_def TERMINAL_MIGRATION_STATES_def truthy_def)

lemma answered_step_run:
  assumes ok: "answered deps row i" and way: "on_way m" and same: "stage (row s) = stage m"
  shows "\<exists>t. run_step deps i m (mp_state m) s = (Inr (), t) \<and> mp_state (row t) = state_after (mp_state m) \<and> (mp_state m \<noteq> MS_restored \<longrightarrow> on_way (row t))"
proof -
  note calls = answered_calls [OF ok]
  have goes: "\<exists>t. transition deps i m event None u = (Inr None, t) \<and> stage (row t) = stage m'"
    if "stage (row u) = stage m" "reduceMigration (row u) event = (True, m', None)" for u event m'
    using answered_transition [OF ok _ that(2)] stage_state [OF that(1)] by blast
  have wayu: "on_way (row u)" "mp_state (row u) = mp_state m" "mp_generation (row u) = mp_generation m" if "stage (row u) = stage m" for u
    using way on_way_stage [OF that] stage_state [OF that] by simp_all
  consider "mp_state m = MS_requested" | "mp_state m = MS_fenced" | "mp_state m = MS_exported" | "mp_state m = MS_provisioning" | "mp_state m = MS_restored"
    using way by (auto simp: on_way_def)
  then show ?thesis
  proof cases
    case 1
    from answersD [OF calls(2)] obtain x u where u: "dep_begin deps m s = (Inr x, u)" "good_begin x" "stage (row u) = stage (row s)" by blast
    then obtain b where b: "x = Mg_ok b" "bg_etag b \<noteq> []" "bg_systemEtag b = None" "is_uuid (bg_generation b)"
      by (auto simp: good_begin_def split: migrate_result.splits)
    have su: "stage (row u) = stage m" using u(3) same by simp
    from way_reduces(1) [OF wayu(1) [OF su] _ b(4,2)] wayu(2) [OF su] 1 obtain m' where m': "reduceMigration (row u) (ME_fenced (bg_etag b) None (bg_generation b)) = (True, m', None)"
      "mp_state m' = MS_fenced" "on_way m'" by auto
    from goes [OF su m'(1)] obtain t where t: "transition deps i m (ME_fenced (bg_etag b) None (bg_generation b)) None u = (Inr None, t)" "stage (row t) = stage m'" by blast
    with u b 1 m' stage_state [OF t(2)] on_way_stage [OF t(2)] show ?thesis by (simp add: in_step_def try_catch_def step_begin_def sbind_def)
  next
    case 2
    from answersD [OF calls(3)] obtain x u where u: "dep_head deps m Kind_workspace s = (Inr x, u)" "good_head (mp_generation m) x" "stage (row u) = stage (row s)" by blast
    then obtain h where h: "x = Mg_ok h" "head_generation (without_provision h) = map_option JStr (mp_generation m)"
      by (auto simp: good_head_def split: migrate_result.splits)
    from answersD [OF calls(4)] obtain v where v: "dep_head deps m Kind_system u = (Inr Mg_not_found, v)" "stage (row v) = stage (row u)" by blast
    have sv: "stage (row v) = stage m" using v(2) u(3) same by simp
    from way_reduces(2) [OF wayu(1) [OF sv]] wayu(2,3) [OF sv] 2 h obtain m' where m': "reduceMigration (row v) (ME_exported (without_provision h) None) = (True, m', None)"
      "mp_state m' = MS_exported" "on_way m'" by auto
    from goes [OF sv m'(1)] obtain t where t: "transition deps i m (ME_exported (without_provision h) None) None v = (Inr None, t)" "stage (row t) = stage m'" by blast
    have "mp_sourceSystemEtag m = None" using way 2 by (simp add: on_way_def)
    with u h v t 2 m' stage_state [OF t(2)] on_way_stage [OF t(2)] show ?thesis
      by (simp add: in_step_def try_catch_def step_export_def read_system_head_def sbind_def Let_def)
  next
    case 3
    from answersD [OF calls(5)] obtain u where u: "dep_provision deps m s = (Inr (), u)" "stage (row u) = stage (row s)" by auto
    have su: "stage (row u) = stage m" using u(2) same by simp
    from way_reduces(3) [OF wayu(1) [OF su]] wayu(2) [OF su] 3 obtain m' where m': "reduceMigration (row u) ME_provisioned = (True, m', None)"
      "mp_state m' = MS_provisioning" "on_way m'" by auto
    from goes [OF su m'(1)] obtain t where t: "transition deps i m ME_provisioned None u = (Inr None, t)" "stage (row t) = stage m'" by blast
    with u 3 m' stage_state [OF t(2)] on_way_stage [OF t(2)] show ?thesis by (simp add: in_step_def try_catch_def step_provision_def sbind_def)
  next
    case 4
    from answersD [OF calls(6) [where m = m and s = s]] obtain u where u: "dep_restored deps m s = (Inr True, u)" "stage (row u) = stage (row s)" by auto
    have su: "stage (row u) = stage m" using u(2) same by simp
    obtain g where g: "mp_generation m = Some g" using way 4 by (auto simp: on_way_def truthy_def split: option.splits)
    from way_reduces(4) [OF wayu(1) [OF su], of g] wayu(2,3) [OF su] 4 g obtain m' where m': "reduceMigration (row u) (ME_host_restored g) = (True, m', None)"
      "mp_state m' = MS_restored" "on_way m'" by auto
    from goes [OF su m'(1)] obtain t where t: "transition deps i m (ME_host_restored g) None u = (Inr None, t)" "stage (row t) = stage m'" by blast
    with u g 4 m' stage_state [OF t(2)] on_way_stage [OF t(2)] show ?thesis by (simp add: in_step_def try_catch_def step_restore_def sbind_def)
  next
    case 5
    let ?c = "\<lparr>ci_expectedEtag = mp_sourceEtag m, ci_expectedSystemEtag = mp_sourceSystemEtag m\<rparr>"
    from answersD [OF calls(7)] obtain u where u: "dep_flip deps m s = (Inr (), u)" "stage (row u) = stage (row s)" by auto
    from answersD [OF calls(8)] obtain v where v: "dep_commit deps m ?c u = (Inr (Mg_ok ()), v)" "stage (row v) = stage (row u)" by blast
    from answersD [OF calls(9)] obtain e w where w: "dep_exportEtag deps m v = (Inr e, w)" "e \<noteq> []" "stage (row w) = stage (row v)" by blast
    from answersD [OF calls(10)] obtain x where x: "dep_stopCloudflare deps m w = (Inr (), x)" "stage (row x) = stage (row w)" by auto
    have sx: "stage (row x) = stage m" using u v w x same by simp
    from way_reduces(5) [OF wayu(1) [OF sx] _ w(2)] wayu(2) [OF sx] 5 obtain m' where m': "reduceMigration (row x) (ME_committed e) = (True, m', None)"
      "mp_state m' = MS_committed" by auto
    from goes [OF sx m'(1)] obtain t where t: "transition deps i m (ME_committed e) None x = (Inr None, t)" "stage (row t) = stage m'" by blast
    with u v w x 5 m' stage_state [OF t(2)] show ?thesis by (simp add: in_step_def try_catch_def step_commit_def sbind_def)
  qed
qed

lemma answered_advance:
  assumes ok: "answered deps row i" and way: "on_way (row s)"
  shows "\<exists>t. advanceMigration deps i s = (Inr (), t) \<and> mp_state (row t) = state_after (mp_state (row s)) \<and>
    (mp_state (row s) \<noteq> MS_restored \<longrightarrow> on_way (row t))"
proof -
  from answersD [OF answered_calls(1) [OF ok, of s]] obtain u where u: "dep_exclusive deps i s = (Inr True, u)" "stage (row u) = stage (row s)" by auto
  note st = stage_state [OF u(2)]
  have way': "on_way (row u)" using way on_way_stage [OF u(2)] by simp
  have rd: "dep_readById deps i u = (Inr (Some (row u)), u)" using ok by (simp add: answered_def)
  from answered_step_run [OF ok way' refl] obtain t where t: "run_step deps i (row u) (mp_state (row u)) u = (Inr (), t)"
    "mp_state (row t) = state_after (mp_state (row u))" "mp_state (row u) \<noteq> MS_restored \<longrightarrow> on_way (row t)" by blast
  have "mp_state (row u) \<notin> set TERMINAL_MIGRATION_STATES" "pendingRecovery (row u) = None"
    using way' by (auto simp: on_way_def TERMINAL_MIGRATION_STATES_def)
  with u rd t st have "advanceMigration deps i s = (Inr (), t)"
    by (simp add: advanceMigration_def advance_row_def try_catch_def sbind_def)
  with t st show ?thesis by simp
qed

lemma drive_ended:
  assumes ok: "answered deps row i" and st: "mp_state (row s) = MS_committed"
  shows "\<exists>t. drive deps i n s = (Inr (), t) \<and> mp_state (row t) = MS_committed"
proof (cases n)
  case (Suc k)
  have rd: "dep_readById deps i s = (Inr (Some (row s)), s)" for s using ok by (simp add: answered_def)
  from answersD [OF answered_calls(1) [OF ok, of s]] obtain u where u: "dep_exclusive deps i s = (Inr True, u)" "stage (row u) = stage (row s)" by auto
  with st stage_state [OF u(2)] have c: "mp_state (row u) = MS_committed" by simp
  with u rd have "advanceMigration deps i s = (Inr (), u)"
    by (simp add: advanceMigration_def advance_row_def try_catch_def sbind_def TERMINAL_MIGRATION_STATES_def)
  with Suc rd st c show ?thesis by (simp add: sbind_def)
qed (simp add: st)

lemma drive_answered:
  assumes ok: "answered deps row i" and "on_way (row s)" and "mp_state (row s) = MS_restored \<Longrightarrow> 1 \<le> n" and "mp_state (row s) = MS_provisioning \<Longrightarrow> 2 \<le> n"
    and "mp_state (row s) = MS_exported \<Longrightarrow> 3 \<le> n" and "mp_state (row s) = MS_fenced \<Longrightarrow> 4 \<le> n" and "mp_state (row s) = MS_requested \<Longrightarrow> 5 \<le> n"
  shows "\<exists>t. drive deps i n s = (Inr (), t) \<and> mp_state (row t) = MS_committed"
  using assms(2-)
proof (induction n arbitrary: s)
  case 0
  then show ?case by (auto simp: on_way_def)
next
  case (Suc n)
  have rd: "dep_readById deps i s = (Inr (Some (row s)), s)" for s using ok by (simp add: answered_def)
  from answered_advance [OF ok Suc.prems(1)] obtain t where t: "advanceMigration deps i s = (Inr (), t)"
    "mp_state (row t) = state_after (mp_state (row s))" "mp_state (row s) \<noteq> MS_restored \<longrightarrow> on_way (row t)" by blast
  have moved: "mp_state (row t) \<noteq> mp_state (row s)" using t(2) Suc.prems(1) by (auto simp: on_way_def)
  have step: "drive deps i (Suc n) s = drive deps i n t" using rd t(1) moved by (simp add: sbind_def)
  show ?case
  proof (cases "mp_state (row s) = MS_restored")
    case False
    have "\<exists>u. drive deps i n t = (Inr (), u) \<and> mp_state (row u) = MS_committed"
      by (rule Suc.IH) (use False t Suc.prems in \<open>auto simp: on_way_def\<close>)
    with step show ?thesis by simp
  next
    case True
    with t(2) drive_ended [OF ok, of t n] step show ?thesis by simp
  qed
qed


text \<open>A world whose state is the row itself.\<close>

definition easy_deps :: "compute_migration migration_deps" where
  "easy_deps = \<lparr>dep_readById = (\<lambda>i r. (Inr (Some r), r)),
     dep_applyTransition = (\<lambda>c event reason r. case reduceMigration c event of (accepted, m, effect) \<Rightarrow> (Inr (accepted, m, effect), if accepted then m else r)),
     dep_exclusive = (\<lambda>_. sreturn True), dep_freshProvision = (\<lambda>_. sreturn ()),
     dep_begin = (\<lambda>_. sreturn (Mg_ok \<lparr>bg_etag = ''e'', bg_systemEtag = None, bg_generation = demo_generation\<rparr>)),
     dep_head = (\<lambda>m k. sreturn (if k = Kind_workspace then Mg_ok (case mp_generation m of None \<Rightarrow> [] | Some g \<Rightarrow> [(''generation'', JStr g)]) else Mg_not_found)),
     dep_exportEtag = (\<lambda>_. sreturn ''migrated''), dep_provision = (\<lambda>_. sreturn ()), dep_releaseProvision = (\<lambda>_. sreturn ()),
     dep_restored = (\<lambda>_. sreturn True), dep_flip = (\<lambda>_. sreturn ()), dep_rollback = (\<lambda>_. sreturn ()), dep_commit = (\<lambda>_ _. sreturn (Mg_ok ())),
     dep_abort = (\<lambda>_. sreturn (Mg_ok ())), dep_reopen = (\<lambda>_ _. sreturn (Mg_ok ())), dep_stopCloudflare = (\<lambda>_. sreturn ())\<rparr>"

lemma easy_answered: "answered easy_deps id i"
proof -
  have "is_uuid demo_generation" by code_simp
  moreover have "head_generation (without_provision (case g of None \<Rightarrow> [] | Some g \<Rightarrow> [(''generation'', JStr g)])) = map_option JStr g" for g
    by (cases g) (simp_all add: head_generation_def without_provision_def member_of_def)
  ultimately show ?thesis
    by (auto simp: answered_def easy_deps_def answers_def good_begin_def good_head_def)
qed


end
